(* ===== verification/Prelude.thy ===== *)
theory Prelude
  imports Main "HOL-Library.List_Lexorder" "HOL-Library.Char_ord" "HOL-Library.Code_Target_Nat"
begin

text \<open>
  Shared vocabulary of the development: identifiers and clock readings, the error monad in
  which every fallible operation of the program is written, tables of rows with a primary
  key, and association lists for Python dictionaries. The lemmas are declared so that
  \<open>simp\<close> and \<open>auto\<close> carry the component proofs.
\<close>

section \<open>Identifiers and time\<close>

text \<open>
  A UUID is its 128-bit integer value, so the order of PostgreSQL on the \<open>uuid\<close> type and the
  order of the canonical text form are both the order of the numbers. A timestamp counts
  microseconds.
\<close>

type_synonym uuid = nat
type_synonym time = int

definition seconds :: "int \<Rightarrow> time" where
  "seconds n = n * 1000000"

lemma seconds_mono [simp]: "seconds m \<le> seconds n \<longleftrightarrow> m \<le> n"
  by (simp add: seconds_def)

lemma seconds_pos [simp]: "0 < seconds n \<longleftrightarrow> 0 < n"
  by (simp add: seconds_def)

section \<open>Errors as values\<close>

text \<open>
  The exceptions the modelled services raise, with their code where they carry one. The last
  four are the ones Python and the database raise by themselves: a missing key, an exhausted
  \<open>next\<close>, a violated constraint and a value its column cannot hold.
\<close>

datatype service_error =
    RecordNotFound
  | InvalidTransition string
  | InvalidExecutionPlan string
  | WorkflowError string
  | PublicationError string
  | ValueError string
  | EmbeddingUnconfigured string
  | RuntimeError string
  | KeyError
  | StopIteration
  | IntegrityError
  | DataError

definition bindE :: "'e + 'a \<Rightarrow> ('a \<Rightarrow> 'e + 'b) \<Rightarrow> 'e + 'b" where
  "bindE m f = (case m of Inl e \<Rightarrow> Inl e | Inr x \<Rightarrow> f x)"

lemma bindE_Inl [simp]: "bindE (Inl e) f = Inl e"
  by (simp add: bindE_def)

lemma bindE_Inr [simp]: "bindE (Inr x) f = f x"
  by (simp add: bindE_def)

lemma bindE_eq_Inr [simp]: "bindE m f = Inr y \<longleftrightarrow> (\<exists>x. m = Inr x \<and> f x = Inr y)"
  by (cases m) auto

lemma bindE_eq_Inl [simp]:
  "bindE m f = Inl e \<longleftrightarrow> m = Inl e \<or> (\<exists>x. m = Inr x \<and> f x = Inl e)"
  by (cases m) auto

lemma bindE_cong [fundef_cong]:
  "m = m' \<Longrightarrow> (\<And>x. m' = Inr x \<Longrightarrow> f x = f' x) \<Longrightarrow> bindE m f = bindE m' f'"
  by (cases m') auto

lemma bindE_assoc: "bindE (bindE m f) g = bindE m (\<lambda>x. bindE (f x) g)"
  by (cases m) auto

text \<open>\<open>x if condition else raise error\<close>, and a value that must not be \<open>None\<close>.\<close>

definition requireE :: "'e \<Rightarrow> bool \<Rightarrow> 'e + unit" where
  "requireE e b = (if b then Inr () else Inl e)"

definition someE :: "'e \<Rightarrow> 'a option \<Rightarrow> 'e + 'a" where
  "someE e x = (case x of None \<Rightarrow> Inl e | Some y \<Rightarrow> Inr y)"

lemma requireE_eq_Inr [simp]: "requireE e b = Inr u \<longleftrightarrow> b"
  by (simp add: requireE_def)

lemma requireE_eq_Inl [simp]: "requireE e b = Inl e' \<longleftrightarrow> \<not> b \<and> e' = e"
  by (auto simp: requireE_def)

lemma requireE_True [simp]: "requireE e True = Inr ()"
  by (simp add: requireE_def)

lemma requireE_False [simp]: "requireE e False = Inl e"
  by (simp add: requireE_def)

lemma someE_simps [simp]: "someE e None = Inl e" "someE e (Some x) = Inr x"
  by (simp_all add: someE_def)

lemma someE_eq_Inr [simp]: "someE e x = Inr y \<longleftrightarrow> x = Some y"
  by (cases x) auto

lemma someE_eq_Inl [simp]: "someE e x = Inl e' \<longleftrightarrow> x = None \<and> e' = e"
  by (cases x) auto

text \<open>Inversion of a successful block, one step at a time.\<close>

lemma bindE_InrE: "bindE m f = Inr y \<Longrightarrow> (\<And>x. m = Inr x \<Longrightarrow> f x = Inr y \<Longrightarrow> P) \<Longrightarrow> P"
  by auto

lemma bindE_InrE2:
  "bindE m (\<lambda>(a, b). f a b) = Inr y \<Longrightarrow> (\<And>a b. m = Inr (a, b) \<Longrightarrow> f a b = Inr y \<Longrightarrow> P) \<Longrightarrow> P"
  by auto

lemma bindE_InrE3:
  "bindE m (\<lambda>(a, b, c). f a b c) = Inr y \<Longrightarrow>
    (\<And>a b c. m = Inr (a, b, c) \<Longrightarrow> f a b c = Inr y \<Longrightarrow> P) \<Longrightarrow> P"
  by auto

lemma someE_InrE: "someE e x = Inr y \<Longrightarrow> (x = Some y \<Longrightarrow> P) \<Longrightarrow> P"
  by simp

lemma requireE_InrE: "requireE e b = Inr u \<Longrightarrow> (b \<Longrightarrow> P) \<Longrightarrow> P"
  by simp

lemmas block_elims = bindE_InrE3 bindE_InrE2 bindE_InrE someE_InrE requireE_InrE

text \<open>A \<open>for\<close> loop whose body may raise.\<close>

fun foldE :: "('a \<Rightarrow> 's \<Rightarrow> 'e + 's) \<Rightarrow> 'a list \<Rightarrow> 's \<Rightarrow> 'e + 's" where
  "foldE f [] s = Inr s"
| "foldE f (x # xs) s = bindE (f x s) (foldE f xs)"

lemma foldE_append [simp]: "foldE f (xs @ ys) s = bindE (foldE f xs s) (foldE f ys)"
  by (induction xs arbitrary: s) (auto simp: bindE_assoc intro: bindE_cong)

lemma foldE_invariant:
  assumes "foldE f xs s = Inr t" and "P s"
    and "\<And>x s s'. x \<in> set xs \<Longrightarrow> P s \<Longrightarrow> f x s = Inr s' \<Longrightarrow> P s'"
  shows "P t"
  using assms
proof (induction xs arbitrary: s)
  case Nil
  then show ?case by simp
next
  case (Cons x xs)
  from Cons.prems(1) obtain s' where "f x s = Inr s'" and "foldE f xs s' = Inr t" by auto
  with Cons.prems show ?case by (intro Cons.IH [of s']) auto
qed

fun mapE :: "('a \<Rightarrow> 'e + 'b) \<Rightarrow> 'a list \<Rightarrow> 'e + 'b list" where
  "mapE f [] = Inr []"
| "mapE f (x # xs) = bindE (f x) (\<lambda>y. bindE (mapE f xs) (\<lambda>ys. Inr (y # ys)))"

lemma mapE_eq_Inr: "mapE f xs = Inr ys \<longleftrightarrow> list_all2 (\<lambda>x y. f x = Inr y) xs ys"
  by (induction xs arbitrary: ys) (auto simp: list_all2_Cons1)

lemma mapE_InlD: "mapE f xs = Inl e \<Longrightarrow> \<exists>x \<in> set xs. f x = Inl e"
  by (induction xs) auto

lemma mapE_length: "mapE f xs = Inr ys \<Longrightarrow> length ys = length xs"
  by (auto simp: mapE_eq_Inr dest: list_all2_lengthD)

lemma mapE_total: "(\<And>x. x \<in> set xs \<Longrightarrow> \<exists>y. f x = Inr y) \<Longrightarrow> \<exists>ys. mapE f xs = Inr ys"
  by (induction xs) auto

text \<open>The first error a list of checks reports, if any.\<close>

fun first_error :: "('a \<Rightarrow> 'e option) \<Rightarrow> 'a list \<Rightarrow> 'e option" where
  "first_error f [] = None"
| "first_error f (x # xs) = (case f x of Some e \<Rightarrow> Some e | None \<Rightarrow> first_error f xs)"

lemma first_error_None [simp]: "first_error f xs = None \<longleftrightarrow> (\<forall>x \<in> set xs. f x = None)"
  by (induction xs) (auto split: option.splits)

lemma first_error_Some: "first_error f xs = Some e \<Longrightarrow> \<exists>x \<in> set xs. f x = Some e"
  by (induction xs) (auto split: option.splits)

section \<open>Tables\<close>

text \<open>
  A database table is the list of its rows. \<open>fetch\<close> is \<open>session.get\<close>, \<open>put\<close> writes a
  changed row back under its primary key, and an \<open>INSERT\<close> appends.
\<close>

definition fetch :: "('r \<Rightarrow> uuid) \<Rightarrow> uuid \<Rightarrow> 'r list \<Rightarrow> 'r option" where
  "fetch key i rows = List.find (\<lambda>r. key r = i) rows"

definition put :: "('r \<Rightarrow> uuid) \<Rightarrow> 'r \<Rightarrow> 'r list \<Rightarrow> 'r list" where
  "put key r rows = map (\<lambda>x. if key x = key r then r else x) rows"

definition put_all :: "('r \<Rightarrow> uuid) \<Rightarrow> 'r list \<Rightarrow> 'r list \<Rightarrow> 'r list" where
  "put_all key rs rows = fold (put key) rs rows"

lemma fetch_Nil [simp]: "fetch key i [] = None"
  by (simp add: fetch_def)

lemma fetch_Cons [simp]:
  "fetch key i (r # rows) = (if key r = i then Some r else fetch key i rows)"
  by (simp add: fetch_def)

lemma fetch_append [simp]:
  "fetch key i (xs @ ys) = (case fetch key i xs of None \<Rightarrow> fetch key i ys | Some r \<Rightarrow> Some r)"
  by (induction xs) auto

lemma fetch_SomeD: "fetch key i rows = Some r \<Longrightarrow> r \<in> set rows \<and> key r = i"
  by (induction rows) (auto split: if_splits)

lemma fetch_key: "fetch key i rows = Some r \<Longrightarrow> key r = i"
  by (simp add: fetch_SomeD)

lemma fetch_None: "fetch key i rows = None \<longleftrightarrow> i \<notin> key ` set rows"
  by (induction rows) auto

lemma fetch_notin [simp]: "i \<notin> key ` set rows \<Longrightarrow> fetch key i rows = None"
  by (simp add: fetch_None)

lemma fetch_distinct:
  "distinct (map key rows) \<Longrightarrow> r \<in> set rows \<Longrightarrow> fetch key (key r) rows = Some r"
  by (induction rows) auto

lemma put_Nil [simp]: "put key r [] = []"
  by (simp add: put_def)

lemma put_Cons [simp]:
  "put key r (x # rows) = (if key x = key r then r else x) # put key r rows"
  by (simp add: put_def)

lemma put_append [simp]: "put key r (xs @ ys) = put key r xs @ put key r ys"
  by (simp add: put_def)

lemma map_key_put [simp]: "map key (put key r rows) = map key rows"
  by (induction rows) auto

lemma set_key_put [simp]: "key ` set (put key r rows) = key ` set rows"
  by (metis list.set_map map_key_put)

lemma length_put [simp]: "length (put key r rows) = length rows"
  by (simp add: put_def)

lemma fetch_put:
  "fetch key i (put key r rows) =
    (if i = key r \<and> i \<in> key ` set rows then Some r else fetch key i rows)"
  by (induction rows) auto

lemma fetch_put_same [simp]:
  "fetch key (key r) rows \<noteq> None \<Longrightarrow> fetch key (key r) (put key r rows) = Some r"
  by (auto simp: fetch_put fetch_None)

lemma fetch_put_other [simp]: "i \<noteq> key r \<Longrightarrow> fetch key i (put key r rows) = fetch key i rows"
  by (simp add: fetch_put)

lemma set_put_subset: "set (put key r rows) \<subseteq> insert r (set rows)"
  by (induction rows) auto

lemma in_set_putD: "x \<in> set (put key r rows) \<Longrightarrow> x = r \<or> x \<in> set rows \<and> key x \<noteq> key r"
  by (induction rows) (auto split: if_splits)

lemma set_put:
  "set (put key r rows) =
    {x \<in> set rows. key x \<noteq> key r} \<union> (if key r \<in> key ` set rows then {r} else {})"
  by (induction rows) (auto split: if_splits)

lemma put_filter_other:
  "(\<And>x. x \<in> set rows \<Longrightarrow> key x = key r \<Longrightarrow> \<not> P x) \<Longrightarrow> \<not> P r \<Longrightarrow>
    filter P (put key r rows) = filter P rows"
  by (induction rows) auto

lemma map_key_put_all [simp]: "map key (put_all key rs rows) = map key rows"
  unfolding put_all_def by (induction rs arbitrary: rows) auto

lemma set_key_put_all [simp]: "key ` set (put_all key rs rows) = key ` set rows"
  by (metis list.set_map map_key_put_all)

lemma put_all_Nil [simp]: "put_all key [] rows = rows"
  by (simp add: put_all_def)

lemma put_all_Cons [simp]: "put_all key (r # rs) rows = put_all key rs (put key r rows)"
  by (simp add: put_all_def)

lemma fetch_put_all_other:
  "i \<notin> key ` set rs \<Longrightarrow> fetch key i (put_all key rs rows) = fetch key i rows"
  by (induction rs arbitrary: rows) (simp_all add: fetch_put)

lemma fetch_put_all:
  "distinct (map key rs) \<Longrightarrow> key ` set rs \<subseteq> key ` set rows \<Longrightarrow>
    fetch key i (put_all key rs rows) =
      (case fetch key i rs of Some r \<Rightarrow> Some r | None \<Rightarrow> fetch key i rows)"
proof (induction rs arbitrary: rows)
  case Nil
  then show ?case by simp
next
  case (Cons r rs)
  have IH: "fetch key i (put_all key rs (put key r rows)) =
      (case fetch key i rs of Some r \<Rightarrow> Some r | None \<Rightarrow> fetch key i (put key r rows))"
    using Cons.prems by (intro Cons.IH) auto
  show ?case
  proof (cases "key r = i")
    case True
    with Cons.prems have "fetch key i rs = None" by auto
    moreover from True Cons.prems(2) have "i \<in> key ` set rows" by auto
    ultimately show ?thesis using IH True by (simp add: fetch_put)
  next
    case False
    then have "fetch key i (put key r rows) = fetch key i rows" by (simp add: fetch_put)
    with False IH show ?thesis by (simp split: option.split)
  qed
qed

section \<open>Dictionaries as association lists\<close>

text \<open>A Python dictionary in insertion order; \<open>aset\<close> is an assignment to an existing key.\<close>

definition aset :: "'k \<Rightarrow> 'v \<Rightarrow> ('k \<times> 'v) list \<Rightarrow> ('k \<times> 'v) list" where
  "aset k v al = map (\<lambda>(k', v'). if k' = k then (k', v) else (k', v')) al"

lemma aset_Nil [simp]: "aset k v [] = []"
  by (simp add: aset_def)

lemma aset_Cons [simp]:
  "aset k v (e # al) = (if fst e = k then (k, v) else e) # aset k v al"
  by (cases e) (simp add: aset_def)

lemma map_fst_aset [simp]: "map fst (aset k v al) = map fst al"
  by (induction al) simp_all

lemma set_fst_aset [simp]: "fst ` set (aset k v al) = fst ` set al"
  by (metis list.set_map map_fst_aset)

lemma map_of_aset:
  "map_of (aset k v al) k' = (if k' = k \<and> k \<in> fst ` set al then Some v else map_of al k')"
  by (induction al) (auto split: if_splits)

lemma map_of_aset_same [simp]:
  "k \<in> fst ` set al \<Longrightarrow> map_of (aset k v al) = (map_of al)(k \<mapsto> v)"
  by (rule ext) (simp add: map_of_aset)

lemma alist_eqI:
  assumes "map fst xs = map fst ys" and "distinct (map fst xs)"
    and "\<And>k. k \<in> fst ` set xs \<Longrightarrow> map_of xs k = map_of ys k"
  shows "xs = ys"
proof (rule nth_equalityI)
  show len: "length xs = length ys" using assms(1) by (metis length_map)
  fix i assume i: "i < length xs"
  from i assms(1) len have f: "fst (xs ! i) = fst (ys ! i)" by (metis nth_map)
  from i len have "xs ! i \<in> set xs" and "ys ! i \<in> set ys" by auto
  with assms(1,2) have "map_of xs (fst (xs ! i)) = Some (snd (xs ! i))"
    and "map_of ys (fst (ys ! i)) = Some (snd (ys ! i))"
    by (simp_all add: map_of_is_SomeI)
  with f assms(3) \<open>xs ! i \<in> set xs\<close> have "snd (xs ! i) = snd (ys ! i)" by force
  with f show "xs ! i = ys ! i" by (simp add: prod_eq_iff)
qed

section \<open>Slices\<close>

text \<open>\<open>s[:n]\<close> for a non-negative \<open>n\<close> is \<open>take n s\<close>; the whole of a shorter string.\<close>

lemma length_take_le [simp]: "length (take n xs) \<le> n"
  by simp

end
