(* ===== verification/Dependencies.thy ===== *)
theory Dependencies
  imports Prelude
begin

text \<open>
  \<^verbatim>\<open>app/services/plan_dependencies.py\<close>: validation of the dependency mapping of a plan and
  its deterministic topological order. A mapping is a dictionary from a task key to the keys of
  its prerequisites. The main facts: the order is a permutation of the tasks in which every
  prerequisite comes first, it exists exactly for well-formed acyclic mappings, and it does not
  depend on the order in which the dictionary lists the tasks.
\<close>

type_synonym dag = "(string \<times> string list) list"

section \<open>The code\<close>

text \<open>The three checks the loop makes for one entry, in its order.\<close>

definition entry_error :: "dag \<Rightarrow> string \<times> string list \<Rightarrow> string option" where
  "entry_error d e = (case e of (key, parents) \<Rightarrow>
     if key \<in> set parents then Some ''Task cannot depend on itself''
     else if length (remdups parents) \<noteq> length parents then Some ''Duplicate task dependencies''
     else if \<not> set parents \<subseteq> fst ` set d then Some ''Dependency references an unknown task''
     else None)"

text \<open>
  \<open>graphlib.TopologicalSorter\<close>: a node is ready when it has not been passed out and all its
  predecessors have been marked done. The code marks a whole batch done before it asks for the
  next one, so the nodes passed out and the nodes done agree between batches.
\<close>

definition ready_nodes :: "dag \<Rightarrow> string list \<Rightarrow> string list" where
  "ready_nodes d passed =
     map fst (filter (\<lambda>(k, ps). k \<notin> set passed \<and> set ps \<subseteq> set passed) d)"

lemma ready_nodesD: "k \<in> set (ready_nodes d passed) \<Longrightarrow> k \<in> fst ` set d \<and> k \<notin> set passed"
  by (auto simp: ready_nodes_def)

text \<open>The loop \<open>while graph.is_active()\<close>: sorted batches until no node is ready.\<close>

function drain :: "dag \<Rightarrow> string list \<Rightarrow> string list" where
  "drain d passed =
     (let ready = sort (ready_nodes d passed)
      in if ready = [] then [] else ready @ drain d (passed @ ready))"
  by pat_completeness auto

termination
proof (relation "measure (\<lambda>(d, passed). card (fst ` set d - set passed))")
  show "wf (measure (\<lambda>(d, passed). card (fst ` set d - set passed)))" by simp
next
  fix d :: dag and passed ready :: "string list"
  assume ready: "ready = sort (ready_nodes d passed)" and ne: "ready \<noteq> []"
  from ne obtain k where "k \<in> set ready" by (cases ready) auto
  with ready have "k \<in> fst ` set d - set passed" by (auto dest: ready_nodesD)
  with \<open>k \<in> set ready\<close>
  have "fst ` set d - set (passed @ ready) \<subset> fst ` set d - set passed" by auto
  then show "((d, passed @ ready), (d, passed))
      \<in> measure (\<lambda>(d, passed). card (fst ` set d - set passed))"
    by (simp add: psubset_card_mono)
qed

declare drain.simps [simp del]

text \<open>
  \<open>graph.prepare()\<close> raises \<open>CycleError\<close> when the graph has a cycle. The check is executable:
  peeling ready nodes leaves something over. \<open>graph_has_cycle_iff\<close> below shows that this is
  cyclicity of the dependency relation.
\<close>

definition graph_has_cycle :: "dag \<Rightarrow> bool" where
  "graph_has_cycle d \<longleftrightarrow> \<not> fst ` set d \<subseteq> set (drain d [])"

definition execution_order :: "dag \<Rightarrow> string + string list" where
  "execution_order d =
     (if d = [] then Inl ''Plan must contain at least one task''
      else case first_error (entry_error d) d of
        Some e \<Rightarrow> Inl e
      | None \<Rightarrow> if graph_has_cycle d then Inl ''Plan dependencies contain a cycle''
                else Inr (drain d []))"

section \<open>Properties of the drained order\<close>

text \<open>Every key of the list has its prerequisites among the keys seen before it.\<close>

fun ordered_after :: "dag \<Rightarrow> string set \<Rightarrow> string list \<Rightarrow> bool" where
  "ordered_after d seen [] = True"
| "ordered_after d seen (k # ks) =
     ((\<forall>ps. (k, ps) \<in> set d \<longrightarrow> set ps \<subseteq> seen) \<and> ordered_after d (insert k seen) ks)"

lemma ordered_after_append:
  "ordered_after d seen (xs @ ys) \<longleftrightarrow> ordered_after d seen xs \<and> ordered_after d (seen \<union> set xs) ys"
  by (induction xs arbitrary: seen) auto

lemma ordered_after_mono:
  "ordered_after d seen xs \<Longrightarrow> seen \<subseteq> seen' \<Longrightarrow> ordered_after d seen' xs"
proof (induction xs arbitrary: seen seen')
  case Nil
  then show ?case by simp
next
  case (Cons x xs)
  from Cons.prems have "ordered_after d (insert x seen') xs"
    by (auto intro: Cons.IH [of "insert x seen" "insert x seen'"])
  moreover from Cons.prems(1) have "\<forall>ps. (x, ps) \<in> set d \<longrightarrow> set ps \<subseteq> seen" by simp
  with Cons.prems(2) have "\<forall>ps. (x, ps) \<in> set d \<longrightarrow> set ps \<subseteq> seen'" by blast
  ultimately show ?case by simp
qed

lemma ordered_after_batch:
  "\<forall>k \<in> set ks. \<forall>ps. (k, ps) \<in> set d \<longrightarrow> set ps \<subseteq> seen \<Longrightarrow> ordered_after d seen ks"
proof (induction ks arbitrary: seen)
  case Nil
  then show ?case by simp
next
  case (Cons k ks)
  from Cons.prems have "ordered_after d seen ks" by (intro Cons.IH) auto
  then have "ordered_after d (insert k seen) ks" by (rule ordered_after_mono) auto
  with Cons.prems show ?case by auto
qed

lemma ordered_after_nth:
  assumes "ordered_after d seen ks" and "i < length ks" and "(ks ! i, ps) \<in> set d" and "p \<in> set ps"
  shows "p \<in> seen \<or> (\<exists>j < i. ks ! j = p)"
  using assms
proof (induction ks arbitrary: seen i)
  case Nil
  then show ?case by simp
next
  case (Cons k ks)
  show ?case
  proof (cases i)
    case 0
    with Cons.prems show ?thesis by auto
  next
    case (Suc m)
    with Cons.prems have "p \<in> insert k seen \<or> (\<exists>j < m. ks ! j = p)"
      by (intro Cons.IH) auto
    with Suc show ?thesis by (metis Suc_less_eq insertE nth_Cons_0 nth_Cons_Suc zero_less_Suc)
  qed
qed

lemma ready_deps_passed:
  assumes "distinct (map fst d)" and "k \<in> set (ready_nodes d passed)" and "(k, ps) \<in> set d"
  shows "set ps \<subseteq> set passed"
proof -
  from assms(2) obtain qs where "(k, qs) \<in> set d" and "set qs \<subseteq> set passed"
    by (auto simp: ready_nodes_def)
  with assms(1,3) show ?thesis using eq_key_imp_eq_value by metis
qed

lemma distinct_ready_nodes: "distinct (map fst d) \<Longrightarrow> distinct (ready_nodes d passed)"
  by (simp add: ready_nodes_def distinct_map_filter)

lemma drain_step:
  assumes "ready_nodes d passed \<noteq> []"
  shows "drain d passed =
    sort (ready_nodes d passed) @ drain d (passed @ sort (ready_nodes d passed))"
proof -
  from assms have "sort (ready_nodes d passed) \<noteq> []"
    by (metis length_0_conv length_sort)
  then show ?thesis by (subst drain.simps) (simp add: Let_def)
qed

lemma drain_stop: "ready_nodes d passed = [] \<Longrightarrow> drain d passed = []"
  by (subst drain.simps) simp

lemma set_drain: "set (drain d passed) \<subseteq> fst ` set d - set passed"
proof (induction d passed rule: drain.induct)
  case (1 d passed)
  show ?case
  proof (cases "ready_nodes d passed = []")
    case True
    then show ?thesis by (simp add: drain_stop)
  next
    case False
    let ?r = "sort (ready_nodes d passed)"
    from False have "?r \<noteq> []" by (metis length_0_conv length_sort)
    with "1.IH" have "set (drain d (passed @ ?r)) \<subseteq> fst ` set d - set (passed @ ?r)" by simp
    with False show ?thesis by (auto simp: drain_step dest: ready_nodesD)
  qed
qed

lemma drain_ordered:
  "distinct (map fst d) \<Longrightarrow>
    distinct (drain d passed) \<and> ordered_after d (set passed) (drain d passed)"
proof (induction d passed rule: drain.induct)
  case (1 d passed)
  show ?case
  proof (cases "ready_nodes d passed = []")
    case True
    then show ?thesis by (simp add: drain_stop)
  next
    case False
    let ?r = "sort (ready_nodes d passed)"
    from False have "?r \<noteq> []" by (metis length_0_conv length_sort)
    with "1.IH" "1.prems"
    have IH: "distinct (drain d (passed @ ?r))"
        "ordered_after d (set passed \<union> set ?r) (drain d (passed @ ?r))"
      by simp_all
    have "ordered_after d (set passed) ?r"
      using "1.prems" by (intro ordered_after_batch) (auto dest: ready_deps_passed)
    moreover have "set ?r \<inter> set (drain d (passed @ ?r)) = {}"
      using set_drain [of d "passed @ ?r"] by auto
    ultimately show ?thesis
      using IH "1.prems" False
      by (simp add: drain_step ordered_after_append distinct_ready_nodes)
  qed
qed

text \<open>When the loop stops, no node is ready.\<close>

lemma drain_exhausts: "ready_nodes d (passed @ drain d passed) = []"
proof (induction d passed rule: drain.induct)
  case (1 d passed)
  show ?case
  proof (cases "ready_nodes d passed = []")
    case True
    then show ?thesis by (simp add: drain_stop)
  next
    case False
    let ?r = "sort (ready_nodes d passed)"
    from False have "?r \<noteq> []" by (metis length_0_conv length_sort)
    with "1.IH" have "ready_nodes d ((passed @ ?r) @ drain d (passed @ ?r)) = []" by simp
    with False show ?thesis by (simp add: drain_step)
  qed
qed

section \<open>Cycles\<close>

definition dependency_edges :: "dag \<Rightarrow> (string \<times> string) set" where
  "dependency_edges d = {(p, k). \<exists>ps. (k, ps) \<in> set d \<and> p \<in> set ps}"

lemma finite_dependency_edges: "finite (dependency_edges d)"
proof (rule finite_subset)
  show "dependency_edges d \<subseteq> (\<Union>(k, ps) \<in> set d. set ps \<times> {k})" by (auto simp: dependency_edges_def)
qed auto

text \<open>An order that lists every prerequisite first leaves no room for a cycle.\<close>

lemma ordered_acyclic:
  assumes ord: "ordered_after d {} ks" and dist: "distinct ks"
    and cover: "fst ` set d \<subseteq> set ks"
  shows "acyclic (dependency_edges d)"
proof -
  define pos where "pos k = length (takeWhile (\<lambda>x. x \<noteq> k) ks)" for k
  have pos_nth: "pos (ks ! i) = i" if "i < length ks" for i
  proof -
    have "takeWhile (\<lambda>x. x \<noteq> ks ! i) ks = take i ks"
      using that dist by (intro takeWhile_eq_take_P_nth) (auto simp: nth_eq_iff_index_eq)
    with that show ?thesis by (simp add: pos_def)
  qed
  have "dependency_edges d \<subseteq> measure pos"
  proof
    fix e assume "e \<in> dependency_edges d"
    then obtain p k ps where e: "e = (p, k)" and kd: "(k, ps) \<in> set d" and p: "p \<in> set ps"
      by (auto simp: dependency_edges_def)
    from kd cover have "k \<in> set ks" by force
    then obtain i where i: "i < length ks" "ks ! i = k" by (auto simp: in_set_conv_nth)
    with ord kd p obtain j where "j < i" "ks ! j = p"
      using ordered_after_nth by blast
    with i e show "e \<in> measure pos" using pos_nth by fastforce
  qed
  then show ?thesis by (meson wf_acyclic wf_measure wf_subset)
qed

text \<open>A node that is never drained waits for another such node.\<close>

lemma undrained_waits:
  assumes ok: "\<forall>e \<in> set d. entry_error d e = None"
    and k: "k \<in> fst ` set d" "k \<notin> set (drain d [])"
  shows "\<exists>p \<in> fst ` set d. p \<notin> set (drain d []) \<and> (p, k) \<in> dependency_edges d"
proof -
  from k(1) obtain ps where kps: "(k, ps) \<in> set d" by force
  have "ready_nodes d (drain d []) = []" using drain_exhausts [of d "[]"] by simp
  with kps k(2) have "\<not> set ps \<subseteq> set (drain d [])"
    by (auto simp: ready_nodes_def filter_empty_conv)
  then obtain p where p: "p \<in> set ps" "p \<notin> set (drain d [])" by auto
  from ok kps have "set ps \<subseteq> fst ` set d"
    by (force simp: entry_error_def split: if_splits)
  with p(1) have "p \<in> fst ` set d" by blast
  with p kps show ?thesis by (intro bexI [of _ p]) (auto simp: dependency_edges_def)
qed

lemma graph_has_cycle_iff:
  assumes "distinct (map fst d)" and ok: "\<forall>e \<in> set d. entry_error d e = None"
  shows "graph_has_cycle d \<longleftrightarrow> \<not> acyclic (dependency_edges d)"
proof
  assume "graph_has_cycle d"
  then obtain k where k: "k \<in> fst ` set d - set (drain d [])" by (auto simp: graph_has_cycle_def)
  show "\<not> acyclic (dependency_edges d)"
  proof
    assume "acyclic (dependency_edges d)"
    then have "wf (dependency_edges d)" using finite_acyclic_wf finite_dependency_edges by blast
    with k obtain m where m: "m \<in> fst ` set d - set (drain d [])"
      and least: "\<And>p. (p, m) \<in> dependency_edges d \<Longrightarrow> p \<notin> fst ` set d - set (drain d [])"
      by (meson wfE_min)
    from m undrained_waits [OF ok] obtain p
      where "p \<in> fst ` set d" "p \<notin> set (drain d [])" "(p, m) \<in> dependency_edges d" by blast
    with least show False by blast
  qed
next
  assume "\<not> acyclic (dependency_edges d)"
  with assms(1) drain_ordered [of d "[]"] ordered_acyclic [of d "drain d []"]
  show "graph_has_cycle d" by (auto simp: graph_has_cycle_def)
qed

section \<open>Correctness of the execution order\<close>

lemma execution_order_Inr:
  "execution_order d = Inr ks \<longleftrightarrow>
    d \<noteq> [] \<and> (\<forall>e \<in> set d. entry_error d e = None) \<and> \<not> graph_has_cycle d \<and> ks = drain d []"
  using first_error_None [of "entry_error d" d]
  by (auto simp: execution_order_def simp del: first_error_None split: option.split)

lemma execution_order_distinct:
  "distinct (map fst d) \<Longrightarrow> execution_order d = Inr ks \<Longrightarrow> distinct ks"
  using drain_ordered [of d "[]"] by (simp add: execution_order_Inr)

lemma execution_order_set: "execution_order d = Inr ks \<Longrightarrow> set ks = fst ` set d"
  using set_drain [of d "[]"] by (auto simp: execution_order_Inr graph_has_cycle_def)

lemma execution_order_ordered:
  "distinct (map fst d) \<Longrightarrow> execution_order d = Inr ks \<Longrightarrow> ordered_after d {} ks"
  using drain_ordered [of d "[]"] by (simp add: execution_order_Inr)

text \<open>Two listings of one dictionary have the same order.\<close>

lemma sort_ready_nodes:
  "distinct (map fst d) \<Longrightarrow>
    sort (ready_nodes d passed) = sorted_list_of_set (set (ready_nodes d passed))"
  by (metis distinct_ready_nodes distinct_remdups_id sorted_list_of_set_sort_remdups)

lemma drain_permute:
  assumes "distinct (map fst d)" and "distinct (map fst d')" and "set d = set d'"
  shows "drain d passed = drain d' passed"
  using assms
proof (induction d passed rule: drain.induct)
  case (1 d passed)
  have same: "set (ready_nodes d passed) = set (ready_nodes d' passed)"
    using "1.prems"(3) by (auto simp: ready_nodes_def)
  then have sorted: "sort (ready_nodes d passed) = sort (ready_nodes d' passed)"
    using "1.prems" by (simp add: sort_ready_nodes)
  show ?case
  proof (cases "ready_nodes d passed = []")
    case True
    with same have "ready_nodes d' passed = []" by simp
    with True show ?thesis by (simp add: drain_stop)
  next
    case False
    let ?r = "sort (ready_nodes d passed)"
    from False have "?r \<noteq> []" by (metis length_0_conv length_sort)
    with "1.IH" "1.prems" have "drain d (passed @ ?r) = drain d' (passed @ ?r)" by simp
    moreover from False same have "ready_nodes d' passed \<noteq> []" by auto
    ultimately show ?thesis using False sorted by (simp add: drain_step)
  qed
qed

lemma execution_order_permute:
  assumes "distinct (map fst d)" and "distinct (map fst d')" and "set d = set d'"
    and "execution_order d = Inr ks"
  shows "execution_order d' = Inr ks"
proof -
  have "entry_error d' e = entry_error d e" for e
    unfolding entry_error_def assms(3) by (rule refl)
  moreover have "drain d' [] = drain d []" using assms drain_permute by metis
  ultimately show ?thesis using assms(3,4)
    by (auto simp: execution_order_Inr graph_has_cycle_def)
qed

end
