(* ===== verification/Planning.thy ===== *)
theory Planning
  imports Dependencies "HOL-Library.Monad_Syntax" "HOL-Library.Multiset"
begin

text \<open>
  \<^verbatim>\<open>app/schemas/planning.py\<close> and the snapshot of \<^verbatim>\<open>app/schemas/executions.py\<close>: the
  immutable plan proposal, its field constraints and the validator that runs after them. A
  validated plan is a fixed point of the validator, so the plan can be stored, loaded and
  validated again without changing, in whatever order its tasks come back.
\<close>

section \<open>Constrained strings\<close>

text \<open>
  \<open>StringConstraints(strip_whitespace=True, ...)\<close>: the white space of Unicode among the first
  256 code points is removed at both ends before the length is checked.
\<close>

definition white_space :: "char \<Rightarrow> bool" where
  "white_space c \<longleftrightarrow> (let n = (of_char c :: nat) in 9 \<le> n \<and> n \<le> 13 \<or> n = 32 \<or> n = 133 \<or> n = 160)"

definition strip_ws :: "string \<Rightarrow> string" where
  "strip_ws s = rev (dropWhile white_space (rev (dropWhile white_space s)))"

definition constrained :: "nat \<Rightarrow> nat \<Rightarrow> string \<Rightarrow> string option" where
  "constrained lo hi s =
     (let t = strip_ws s in if lo \<le> length t \<and> length t \<le> hi then Some t else None)"

definition ascii_alnum :: "char \<Rightarrow> bool" where
  "ascii_alnum c \<longleftrightarrow> (let n = (of_char c :: nat) in
     48 \<le> n \<and> n \<le> 57 \<or> 65 \<le> n \<and> n \<le> 90 \<or> 97 \<le> n \<and> n \<le> 122)"

text \<open>The pattern \<^verbatim>\<open>^[A-Za-z0-9][A-Za-z0-9_-]*$\<close>.\<close>

definition task_key_pattern :: "string \<Rightarrow> bool" where
  "task_key_pattern s = (case s of [] \<Rightarrow> False
     | c # cs \<Rightarrow> ascii_alnum c \<and>
         list_all (\<lambda>x. ascii_alnum x \<or> x = CHR ''_'' \<or> x = CHR ''-'') cs)"

definition valid_task_key :: "string \<Rightarrow> string option" where
  "valid_task_key s = do { t \<leftarrow> constrained 1 100 s; if task_key_pattern t then Some t else None }"

definition valid_plan_text :: "string \<Rightarrow> string option" where
  "valid_plan_text = constrained 1 10000"

definition valid_target_file :: "string \<Rightarrow> string option" where
  "valid_target_file = constrained 1 1024"

text \<open>A tuple field with length bounds.\<close>

definition valid_tuple :: "nat \<Rightarrow> nat \<Rightarrow> ('a \<Rightarrow> 'a option) \<Rightarrow> 'a list \<Rightarrow> 'a list option" where
  "valid_tuple lo hi f xs = (if lo \<le> length xs \<and> length xs \<le> hi then those (map f xs) else None)"

section \<open>Plan proposals\<close>

record plan_task_proposal =
  task_key :: string
  title :: string
  description :: string
  rationale :: string
  target_files :: "string list"
  dependencies :: "string list"
  acceptance_criteria :: "string list"
  suggested_tests :: "string list"

record plan_proposal =
  plan_summary :: string
  plan_tasks :: "plan_task_proposal list"

datatype plan_error = Invalid_fields | Plan_value_error string

definition validate_task :: "plan_task_proposal \<Rightarrow> plan_task_proposal option" where
  "validate_task t = do {
     key \<leftarrow> valid_task_key (task_key t);
     ttl \<leftarrow> constrained 1 500 (title t);
     desc \<leftarrow> valid_plan_text (description t);
     rat \<leftarrow> valid_plan_text (rationale t);
     targets \<leftarrow> valid_tuple 0 100 valid_target_file (target_files t);
     deps \<leftarrow> valid_tuple 0 200 valid_task_key (dependencies t);
     accept \<leftarrow> valid_tuple 1 100 valid_plan_text (acceptance_criteria t);
     tests \<leftarrow> valid_tuple 0 100 valid_plan_text (suggested_tests t);
     Some \<lparr>task_key = key, title = ttl, description = desc, rationale = rat,
       target_files = targets, dependencies = deps, acceptance_criteria = accept,
       suggested_tests = tests\<rparr> }"

definition dependency_map :: "plan_task_proposal list \<Rightarrow> dag" where
  "dependency_map ts = map (\<lambda>t. (task_key t, dependencies t)) ts"

definition plan_order :: "plan_proposal \<Rightarrow> string + string list" where
  "plan_order p = execution_order (dependency_map (plan_tasks p))"

definition validate_plan_fields :: "plan_proposal \<Rightarrow> plan_proposal option" where
  "validate_plan_fields p = do {
     s \<leftarrow> valid_plan_text (plan_summary p);
     ts \<leftarrow> valid_tuple 1 200 validate_task (plan_tasks p);
     Some \<lparr>plan_summary = s, plan_tasks = ts\<rparr> }"

definition validate_dependencies :: "plan_proposal \<Rightarrow> string option" where
  "validate_dependencies p =
     (let keys = map task_key (plan_tasks p)
      in if length (remdups keys) \<noteq> length keys then Some ''Task keys must be unique''
         else case plan_order p of Inl e \<Rightarrow> Some e | Inr _ \<Rightarrow> None)"

definition validate_plan :: "plan_proposal \<Rightarrow> plan_error + plan_proposal" where
  "validate_plan p = (case validate_plan_fields p of
     None \<Rightarrow> Inl Invalid_fields
   | Some q \<Rightarrow> (case validate_dependencies q of
       Some e \<Rightarrow> Inl (Plan_value_error e) | None \<Rightarrow> Inr q))"

section \<open>Snapshots\<close>

record execution_snapshot =
  snap_proposal :: plan_proposal
  snap_task_ids :: "(string \<times> uuid) list"

definition validate_snapshot :: "execution_snapshot \<Rightarrow> plan_error + execution_snapshot" where
  "validate_snapshot s = bindE (validate_plan (snap_proposal s)) (\<lambda>p.
     if fst ` set (snap_task_ids s) \<noteq> task_key ` set (plan_tasks p)
     then Inl (Plan_value_error ''Snapshot task keys do not match'')
     else if length (remdups (map snd (snap_task_ids s))) \<noteq> length (snap_task_ids s)
     then Inl (Plan_value_error ''Snapshot task IDs must be unique'')
     else Inr (s\<lparr>snap_proposal := p\<rparr>))"

section \<open>Validation is idempotent\<close>

lemma dropWhile_strip:
  "dropWhile P (rev (dropWhile P (rev (dropWhile P s)))) = rev (dropWhile P (rev (dropWhile P s)))"
proof (cases "dropWhile P s")
  case Nil
  show ?thesis unfolding Nil by simp
next
  case (Cons c cs)
  then have "\<not> P c" by (metis dropWhile_eq_Cons_conv)
  then have "dropWhile P (rev cs @ [c]) = dropWhile P (rev cs) @ [c]"
    by (induction "rev cs") (auto simp: dropWhile_append)
  with Cons \<open>\<not> P c\<close> show ?thesis by simp
qed

lemma strip_ws_idem [simp]: "strip_ws (strip_ws s) = strip_ws s"
  by (simp add: strip_ws_def dropWhile_strip)

lemma constrained_idem: "constrained lo hi s = Some t \<Longrightarrow> constrained lo hi t = Some t"
  by (auto simp: constrained_def Let_def split: if_splits)

lemma valid_task_key_idem: "valid_task_key s = Some t \<Longrightarrow> valid_task_key t = Some t"
  by (auto simp: valid_task_key_def constrained_idem split: Option.bind_splits if_splits)

lemma valid_texts_idem:
  "valid_plan_text s = Some t \<Longrightarrow> valid_plan_text t = Some t"
  "valid_target_file s = Some t \<Longrightarrow> valid_target_file t = Some t"
  by (simp_all add: valid_plan_text_def valid_target_file_def constrained_idem)

lemma those_Some: "those xs = Some ys \<longleftrightarrow> xs = map Some ys"
  by (induction xs arbitrary: ys) (auto split: option.splits)

lemma valid_tuple_idem:
  assumes "valid_tuple lo hi f xs = Some ys" and "\<And>x y. f x = Some y \<Longrightarrow> f y = Some y"
  shows "valid_tuple lo hi f ys = Some ys"
proof -
  from assms(1) have b: "lo \<le> length xs" "length xs \<le> hi" and m: "map f xs = map Some ys"
    by (auto simp: valid_tuple_def those_Some split: if_splits)
  then have len: "length ys = length xs" by (metis length_map)
  have "f y = Some y" if "y \<in> set ys" for y
  proof -
    from that m have "Some y \<in> set (map f xs)" by simp
    then obtain x where "f x = Some y" by auto
    then show ?thesis by (rule assms(2))
  qed
  then have "map f ys = map Some ys" by (rule map_cong [OF refl])
  with b len show ?thesis by (simp add: valid_tuple_def those_Some)
qed

lemma validate_task_idem:
  assumes "validate_task s = Some t"
  shows "validate_task t = Some t"
proof -
  from assms have "valid_task_key (task_key t) = Some (task_key t)"
    "constrained 1 500 (title t) = Some (title t)"
    "valid_plan_text (description t) = Some (description t)"
    "valid_plan_text (rationale t) = Some (rationale t)"
    "valid_tuple 0 100 valid_target_file (target_files t) = Some (target_files t)"
    "valid_tuple 0 200 valid_task_key (dependencies t) = Some (dependencies t)"
    "valid_tuple 1 100 valid_plan_text (acceptance_criteria t) = Some (acceptance_criteria t)"
    "valid_tuple 0 100 valid_plan_text (suggested_tests t) = Some (suggested_tests t)"
    by (auto simp: validate_task_def split: Option.bind_splits
        intro: valid_task_key_idem constrained_idem valid_texts_idem valid_tuple_idem)
  then show ?thesis by (simp add: validate_task_def)
qed

lemma validate_plan_fields_idem:
  assumes "validate_plan_fields p = Some q"
  shows "validate_plan_fields q = Some q"
proof -
  from assms have "valid_plan_text (plan_summary q) = Some (plan_summary q)"
    and "valid_tuple 1 200 validate_task (plan_tasks q) = Some (plan_tasks q)"
    by (auto simp: validate_plan_fields_def split: Option.bind_splits
        intro: valid_texts_idem valid_tuple_idem validate_task_idem)
  then show ?thesis by (simp add: validate_plan_fields_def)
qed

lemma validate_plan_idem: "validate_plan p = Inr q \<Longrightarrow> validate_plan q = Inr q"
  by (auto simp: validate_plan_def validate_plan_fields_idem split: option.splits)

section \<open>What a valid plan guarantees\<close>

lemma map_fst_dependency_map [simp]: "map fst (dependency_map ts) = map task_key ts"
  by (simp add: dependency_map_def)

lemma fst_dependency_map [simp]: "fst ` set (dependency_map ts) = task_key ` set ts"
  by (auto simp: dependency_map_def image_image)

lemma length_remdups_distinct: "length (remdups xs) = length xs \<longleftrightarrow> distinct xs"
  by simp

lemma validate_plan_Inr:
  "validate_plan p = Inr q \<longleftrightarrow>
    validate_plan_fields p = Some q \<and> distinct (map task_key (plan_tasks q)) \<and>
    (\<exists>ks. plan_order q = Inr ks)"
  by (auto simp: validate_plan_def validate_dependencies_def Let_def length_remdups_distinct
      split: option.splits sum.splits)

lemma valid_plan_distinct:
  "validate_plan p = Inr q \<Longrightarrow> distinct (map task_key (plan_tasks q))"
  by (simp add: validate_plan_Inr)

lemma plan_order_set: "plan_order p = Inr ks \<Longrightarrow> set ks = task_key ` set (plan_tasks p)"
  by (simp add: plan_order_def execution_order_set)

text \<open>Reordering the tasks of a valid plan keeps it valid, with the same execution order.\<close>

lemma those_map_id: "those (map f xs) = Some xs \<longleftrightarrow> (\<forall>x \<in> set xs. f x = Some x)"
  by (induction xs) (auto split: option.splits)

lemma valid_tuple_id:
  "valid_tuple lo hi f xs = Some xs \<longleftrightarrow>
    lo \<le> length xs \<and> length xs \<le> hi \<and> (\<forall>x \<in> set xs. f x = Some x)"
  by (auto simp: valid_tuple_def those_map_id)

lemma validate_plan_fields_id:
  "validate_plan_fields p = Some p \<longleftrightarrow>
    valid_plan_text (plan_summary p) = Some (plan_summary p) \<and>
    valid_tuple 1 200 validate_task (plan_tasks p) = Some (plan_tasks p)"
  by (cases p) (auto simp: validate_plan_fields_def split: Option.bind_splits)

lemma validate_plan_permute:
  assumes v: "validate_plan p = Inr p" and "mset ts = mset (plan_tasks p)"
  shows "validate_plan (p\<lparr>plan_tasks := ts\<rparr>) = Inr (p\<lparr>plan_tasks := ts\<rparr>)"
    and "plan_order (p\<lparr>plan_tasks := ts\<rparr>) = plan_order p"
proof -
  from assms(2) have set: "set ts = set (plan_tasks p)" and len: "length ts = length (plan_tasks p)"
    by (metis mset_eq_setD, metis mset_eq_length)
  from v obtain ks where f: "validate_plan_fields p = Some p"
    and dist: "distinct (map task_key (plan_tasks p))" and ord: "plan_order p = Inr ks"
    by (auto simp: validate_plan_Inr)
  from assms(2) have "mset (map task_key ts) = mset (map task_key (plan_tasks p))"
    by simp
  with dist have dist': "distinct (map task_key ts)" by (metis mset_eq_imp_distinct_iff)
  from ord have ord': "plan_order (p\<lparr>plan_tasks := ts\<rparr>) = Inr ks"
    unfolding plan_order_def
    by (rule execution_order_permute [rotated 3])
      (use dist dist' set in \<open>simp_all add: dependency_map_def comp_def\<close>)
  with ord show "plan_order (p\<lparr>plan_tasks := ts\<rparr>) = plan_order p" by simp
  from f set len have "validate_plan_fields (p\<lparr>plan_tasks := ts\<rparr>) = Some (p\<lparr>plan_tasks := ts\<rparr>)"
    by (simp add: validate_plan_fields_id valid_tuple_id)
  with dist' ord' show "validate_plan (p\<lparr>plan_tasks := ts\<rparr>) = Inr (p\<lparr>plan_tasks := ts\<rparr>)"
    by (simp add: validate_plan_Inr)
qed

lemma validate_snapshot_Inr:
  "validate_snapshot s = Inr r \<longleftrightarrow>
    (\<exists>p. validate_plan (snap_proposal s) = Inr p \<and> r = s\<lparr>snap_proposal := p\<rparr> \<and>
      fst ` set (snap_task_ids s) = task_key ` set (plan_tasks p) \<and>
      distinct (map snd (snap_task_ids s)))"
  using length_remdups_distinct [of "map snd (snap_task_ids s)"]
  by (auto simp: validate_snapshot_def)

lemma validate_snapshot_idem: "validate_snapshot s = Inr r \<Longrightarrow> validate_snapshot r = Inr r"
  by (auto simp: validate_snapshot_Inr validate_plan_idem)

end
