(* ===== verification/Scheduling.thy ===== *)
theory Scheduling
  imports Planning
begin

text \<open>
  \<^verbatim>\<open>app/orchestration/state.py\<close>: the pure scheduling rule. \<open>advance\<close> walks the execution
  order once; a pending task with a failed or blocked prerequisite is blocked, and one whose
  prerequisites all completed is queued. Its specification is local: the result is the only
  assignment in which every task agrees with \<open>settle\<close> on the new states of its prerequisites.
\<close>

section \<open>The code\<close>

definition TERMINAL :: "string list" where
  "TERMINAL = [''completed'', ''failed'', ''blocked'']"

lemma in_TERMINAL [simp]:
  "s \<in> set TERMINAL \<longleftrightarrow> s = ''completed'' \<or> s = ''failed'' \<or> s = ''blocked''"
  by (auto simp: TERMINAL_def)

definition state_of :: "(string \<times> string) list \<Rightarrow> string \<Rightarrow> string" where
  "state_of states key = the (map_of states key)"

definition parents_of :: "dag \<Rightarrow> string \<Rightarrow> string list" where
  "parents_of d key = the (map_of d key)"

text \<open>The body of the loop for one key.\<close>

definition schedule_task :: "dag \<Rightarrow> string \<Rightarrow> (string \<times> string) list \<Rightarrow> (string \<times> string) list" where
  "schedule_task d key updated =
     (if state_of updated key \<noteq> ''pending'' then updated
      else let parents = map (state_of updated) (parents_of d key)
        in if \<exists>s \<in> set parents. s \<in> {''failed'', ''blocked''} then aset key ''blocked'' updated
           else if \<forall>s \<in> set parents. s = ''completed'' then aset key ''queued'' updated
           else updated)"

definition advance :: "dag \<Rightarrow> (string \<times> string) list \<Rightarrow> service_error + (string \<times> string) list" where
  "advance d states =
     (if fst ` set states \<noteq> fst ` set d then Inl (InvalidTransition ''execution_tasks_mismatch'')
      else case execution_order d of
        Inl e \<Rightarrow> Inl (ValueError e)
      | Inr order \<Rightarrow> Inr (fold (schedule_task d) order states))"

section \<open>The local rule\<close>

definition settle :: "string \<Rightarrow> string list \<Rightarrow> string" where
  "settle s parents =
     (if s \<noteq> ''pending'' then s
      else if \<exists>x \<in> set parents. x \<in> {''failed'', ''blocked''} then ''blocked''
      else if \<forall>x \<in> set parents. x = ''completed'' then ''queued''
      else ''pending'')"

lemma settle_cases: "settle s ps = s \<or> s = ''pending'' \<and> settle s ps \<in> {''blocked'', ''queued''}"
  by (auto simp: settle_def)

lemma settle_queued:
  "settle s ps = ''queued'' \<Longrightarrow> s = ''queued'' \<or> s = ''pending'' \<and> (\<forall>x \<in> set ps. x = ''completed'')"
  by (auto simp: settle_def split: if_splits)

lemma settle_idem [simp]: "settle (settle s ps) ps = settle s ps"
  by (auto simp: settle_def)

lemma keys_schedule_task [simp]: "map fst (schedule_task d key st) = map fst st"
  by (simp add: schedule_task_def Let_def)

lemma fst_set_schedule_task [simp]: "fst ` set (schedule_task d key st) = fst ` set st"
  by (metis keys_schedule_task list.set_map)

lemma keys_schedule_tasks [simp]: "map fst (fold (schedule_task d) ks st) = map fst st"
  by (induction ks arbitrary: st) simp_all

lemma fst_set_schedule_tasks [simp]: "fst ` set (fold (schedule_task d) ks st) = fst ` set st"
  by (metis keys_schedule_tasks list.set_map)

lemma state_of_schedule_task:
  assumes "key \<in> fst ` set st"
  shows "state_of (schedule_task d key st) k =
    (if k = key then settle (state_of st key) (map (state_of st) (parents_of d key))
     else state_of st k)"
  using assms by (auto simp: schedule_task_def settle_def state_of_def Let_def map_of_aset)

lemma state_of_schedule_tasks_other:
  "set ks \<subseteq> fst ` set st \<Longrightarrow> k \<notin> set ks \<Longrightarrow> state_of (fold (schedule_task d) ks st) k = state_of st k"
  by (induction ks arbitrary: st) (simp_all add: state_of_schedule_task)

lemma parents_ordered:
  assumes "ordered_after d seen (k # ks)" and "k \<in> fst ` set d"
  shows "set (parents_of d k) \<subseteq> seen"
proof -
  from assms(2) obtain ps where "map_of d k = Some ps"
    by (metis domD dom_map_of_conv_image_fst)
  moreover from this have "(k, ps) \<in> set d" by (rule map_of_SomeD)
  ultimately show ?thesis using assms(1) by (simp add: parents_of_def)
qed

lemma schedule_tasks_settle:
  assumes "ordered_after d seen ks" and "distinct ks" and "seen \<inter> set ks = {}"
    and "set ks \<subseteq> fst ` set d" and "fst ` set st = fst ` set d" and "k \<in> set ks"
  shows "state_of (fold (schedule_task d) ks st) k =
    settle (state_of st k) (map (state_of (fold (schedule_task d) ks st)) (parents_of d k))"
  using assms
proof (induction ks arbitrary: st seen)
  case Nil
  then show ?case by simp
next
  case (Cons x xs)
  let ?st = "schedule_task d x st"
  have xin: "x \<in> fst ` set st" using Cons.prems by simp
  show ?case
  proof (cases "k = x")
    case True
    have par: "set (parents_of d x) \<subseteq> seen"
      using Cons.prems(1) by (rule parents_ordered) (use Cons.prems in simp)
    then have old: "state_of (fold (schedule_task d) xs ?st) p = state_of st p"
      if "p \<in> set (parents_of d x)" for p
      using that Cons.prems xin by (subst state_of_schedule_tasks_other)
        (auto simp: state_of_schedule_task)
    have "state_of (fold (schedule_task d) xs ?st) x = state_of ?st x"
      using Cons.prems by (intro state_of_schedule_tasks_other) auto
    also have "\<dots> = settle (state_of st x) (map (state_of st) (parents_of d x))"
      using xin by (simp add: state_of_schedule_task)
    also have "map (state_of st) (parents_of d x) =
        map (state_of (fold (schedule_task d) xs ?st)) (parents_of d x)"
      by (simp add: old)
    finally show ?thesis using True by simp
  next
    case False
    with Cons.prems have "k \<in> set xs" by simp
    with Cons.prems have "state_of (fold (schedule_task d) xs ?st) k =
        settle (state_of ?st k) (map (state_of (fold (schedule_task d) xs ?st)) (parents_of d k))"
      by (intro Cons.IH [where seen = "insert x seen"]) auto
    with False xin show ?thesis by (simp add: state_of_schedule_task)
  qed
qed

section \<open>Correctness of advance\<close>

lemma advance_Inr:
  "advance d st = Inr st' \<longleftrightarrow>
    fst ` set st = fst ` set d \<and>
    (\<exists>ks. execution_order d = Inr ks \<and> st' = fold (schedule_task d) ks st)"
  by (auto simp: advance_def split: sum.splits)

lemma advance_keys: "advance d st = Inr st' \<Longrightarrow> map fst st' = map fst st"
  by (auto simp: advance_Inr)

lemma advance_settle:
  assumes "distinct (map fst d)" and "advance d st = Inr st'" and "k \<in> fst ` set d"
  shows "state_of st' k = settle (state_of st k) (map (state_of st') (parents_of d k))"
proof -
  from assms(2) obtain ks where ks: "execution_order d = Inr ks"
    and st': "st' = fold (schedule_task d) ks st" and keys: "fst ` set st = fst ` set d"
    by (auto simp: advance_Inr)
  from assms(1) ks have "ordered_after d {} ks" "distinct ks" "set ks = fst ` set d"
    by (simp_all add: execution_order_ordered execution_order_distinct execution_order_set)
  with keys assms(3) show ?thesis unfolding st'
    by (intro schedule_tasks_settle [where seen = "{}"]) auto
qed

text \<open>The rule has no other solution: induction along the execution order.\<close>

lemma settle_unique:
  assumes "distinct (map fst d)" and "execution_order d = Inr ks"
    and f: "\<And>k. k \<in> fst ` set d \<Longrightarrow> f k = settle (state_of st k) (map f (parents_of d k))"
    and g: "\<And>k. k \<in> fst ` set d \<Longrightarrow> g k = settle (state_of st k) (map g (parents_of d k))"
    and "k \<in> fst ` set d"
  shows "f k = (g k :: string)"
proof -
  have "ordered_after d seen xs \<Longrightarrow> set xs \<subseteq> fst ` set d \<Longrightarrow> (\<forall>p \<in> seen. f p = g p) \<Longrightarrow>
      \<forall>p \<in> set xs. f p = g p" for seen xs
  proof (induction xs arbitrary: seen)
    case Nil
    then show ?case by simp
  next
    case (Cons x xs)
    then have x: "x \<in> fst ` set d" by simp
    with Cons.prems(1) have "set (parents_of d x) \<subseteq> seen" by (rule parents_ordered)
    with Cons.prems(3) have "map f (parents_of d x) = map g (parents_of d x)" by auto
    with f [OF x] g [OF x] have "f x = g x" by metis
    with Cons show ?case by (metis insert_iff list.set(2) ordered_after.simps(2) subset_insertI
        subset_trans)
  qed
  with assms show ?thesis
    by (metis empty_iff execution_order_ordered execution_order_set order_refl)
qed

text \<open>Terminal and running tasks keep their state, and advancing twice changes nothing more.\<close>

lemma advance_not_pending:
  "distinct (map fst d) \<Longrightarrow> advance d st = Inr st' \<Longrightarrow> k \<in> fst ` set d \<Longrightarrow>
    state_of st k \<noteq> ''pending'' \<Longrightarrow> state_of st' k = state_of st k"
  by (simp add: advance_settle settle_def)

lemma advance_idem:
  assumes "distinct (map fst d)" and "distinct (map fst st)" and adv: "advance d st = Inr st'"
  shows "advance d st' = Inr st'"
proof -
  from adv obtain ks where ks: "execution_order d = Inr ks" and keys: "fst ` set st = fst ` set d"
    by (auto simp: advance_Inr)
  define st'' where "st'' = fold (schedule_task d) ks st'"
  have keys': "map fst st' = map fst st" using adv by (rule advance_keys)
  then have fst': "fst ` set st' = fst ` set d" using keys by (metis list.set_map)
  then have adv': "advance d st' = Inr st''" using ks by (auto simp: advance_Inr st''_def)
  have eq: "state_of st'' k = state_of st' k" if "k \<in> fst ` set d" for k
  proof (rule settle_unique [OF assms(1) ks _ _ that, where st = st'])
    show "state_of st'' k = settle (state_of st' k) (map (state_of st'') (parents_of d k))"
      if "k \<in> fst ` set d" for k
      using assms(1) adv' that by (rule advance_settle)
    show "state_of st' k = settle (state_of st' k) (map (state_of st') (parents_of d k))"
      if "k \<in> fst ` set d" for k
      using advance_settle [OF assms(1) adv that] by simp
  qed
  have "st'' = st'"
  proof (rule alist_eqI)
    show fsts: "map fst st'' = map fst st'" using adv' by (rule advance_keys)
    show "distinct (map fst st'')" using fsts keys' assms(2) by simp
    fix k assume "k \<in> fst ` set st''"
    then have k: "k \<in> fst ` set st'" "k \<in> fst ` set st''" and "k \<in> fst ` set d"
      using fsts fst' by (metis list.set_map)+
    with eq have "state_of st'' k = state_of st' k" by simp
    with k show "map_of st'' k = map_of st' k"
      by (metis domD dom_map_of_conv_image_fst option.sel state_of_def)
  qed
  with adv' show ?thesis by simp
qed

end
