(* ===== verification/Text.thy ===== *)
theory Text
  imports Prelude
begin

text \<open>
  Python text: a \<open>str\<close> is a list of code points. The parser of patches, the chunker and the
  scanner work on whole source files, so they see all of Unicode; the names and codes of the other
  theories stay strings of characters. This theory holds the methods of \<open>str\<close> the program uses.
\<close>

type_synonym pystr = "nat list"

text \<open>A literal of the source.\<close>

definition pytext :: "string \<Rightarrow> pystr" where
  "pytext s = map of_char s"

section \<open>Classes of code points\<close>

text \<open>\<open>str.isspace\<close>, and \<^verbatim>\<open>\s\<close> of a regular expression.\<close>

definition py_space :: "nat \<Rightarrow> bool" where
  "py_space c \<longleftrightarrow> 9 \<le> c \<and> c \<le> 13 \<or> 28 \<le> c \<and> c \<le> 32 \<or> c = 133 \<or> c = 160 \<or> c = 5760 \<or>
     8192 \<le> c \<and> c \<le> 8202 \<or> c = 8232 \<or> c = 8233 \<or> c = 8239 \<or> c = 8287 \<or> c = 12288"

text \<open>The line boundaries of \<open>str.splitlines\<close>; a carriage return may precede a line feed.\<close>

definition line_break :: "nat \<Rightarrow> bool" where
  "line_break c \<longleftrightarrow> 10 \<le> c \<and> c \<le> 13 \<or> 28 \<le> c \<and> c \<le> 30 \<or> c = 133 \<or> c = 8232 \<or> c = 8233"

text \<open>The decimal digits of Unicode (category Nd): the code points of the digits zero.\<close>

definition digit_zeros :: "nat list" where
  "digit_zeros =
     [48, 1632, 1776, 1984, 2406, 2534, 2662, 2790, 2918, 3046, 3174, 3302, 3430, 3558, 3664, 3792,
      3872, 4160, 4240, 6112, 6160, 6470, 6608, 6784, 6800, 6992, 7088, 7232, 7248, 42528, 43216,
      43264, 43472, 43504, 43600, 44016, 65296, 66720, 68912, 69734, 69872, 69942, 70096, 70384,
      70736, 70864, 71248, 71360, 71472, 71904, 72016, 72784, 73040, 73120, 73552, 92768, 92864,
      93008, 120782, 120792, 120802, 120812, 120822, 123200, 123632, 124144, 125264, 130032]"

definition digit_value :: "nat \<Rightarrow> nat option" where
  "digit_value c = map_option (\<lambda>z. c - z) (List.find (\<lambda>z. z \<le> c \<and> c < z + 10) digit_zeros)"

definition lower_ascii :: "nat \<Rightarrow> nat" where
  "lower_ascii c = (if 65 \<le> c \<and> c \<le> 90 then c + 32 else c)"

lemma digit_value_less: "digit_value c = Some v \<Longrightarrow> v < 10"
  by (auto simp: digit_value_def find_Some_iff)

section \<open>Methods\<close>

definition starts_with :: "'a list \<Rightarrow> 'a list \<Rightarrow> bool" where
  "starts_with p s \<longleftrightarrow> take (length p) s = p"

definition ends_with :: "'a list \<Rightarrow> 'a list \<Rightarrow> bool" where
  "ends_with p s \<longleftrightarrow> starts_with (rev p) (rev s)"

definition strip_prefix :: "'a list \<Rightarrow> 'a list \<Rightarrow> 'a list option" where
  "strip_prefix p s = (if starts_with p s then Some (drop (length p) s) else None)"

lemma strip_prefix_Some: "strip_prefix p s = Some r \<longleftrightarrow> s = p @ r"
  by (auto simp: strip_prefix_def starts_with_def) (metis append_take_drop_id)+

text \<open>\<open>s.split(sep)\<close> for a separator of one code point.\<close>

fun split_on :: "'a \<Rightarrow> 'a list \<Rightarrow> 'a list list" where
  "split_on sep [] = [[]]"
| "split_on sep (c # s) = (if c = sep then [] # split_on sep s
     else (case split_on sep s of [] \<Rightarrow> [[c]] | w # ws \<Rightarrow> (c # w) # ws))"

lemma split_on_not_Nil [simp]: "split_on sep s \<noteq> []"
  by (induction s) (auto split: list.splits)

fun join_with :: "'a \<Rightarrow> 'a list list \<Rightarrow> 'a list" where
  "join_with sep [] = []"
| "join_with sep [w] = w"
| "join_with sep (w # ws) = w @ sep # join_with sep ws"

lemma join_split [simp]: "join_with sep (split_on sep s) = s"
proof (induction s)
  case Nil
  then show ?case by simp
next
  case (Cons c s)
  obtain w ws where "split_on sep s = w # ws" by (cases "split_on sep s") auto
  with Cons show ?case by (cases ws) auto
qed

text \<open>\<open>s.splitlines(keepends=True)\<close>.\<close>

fun split_lines :: "pystr \<Rightarrow> pystr list" where
  "split_lines [] = []"
| "split_lines (c # s) =
     (if c = 13 \<and> s \<noteq> [] \<and> hd s = 10 then [13, 10] # split_lines (tl s)
      else if line_break c then [c] # split_lines s
      else (case split_lines s of [] \<Rightarrow> [[c]] | w # ws \<Rightarrow> (c # w) # ws))"

lemma concat_split_lines [simp]: "concat (split_lines s) = s"
proof (induction s rule: split_lines.induct)
  case 1
  then show ?case by simp
next
  case (2 c s)
  show ?case
  proof (cases "c = 13 \<and> s \<noteq> [] \<and> hd s = 10")
    case True
    with 2(1) show ?thesis by (cases s) auto
  next
    case False
    with 2(2,3) show ?thesis
      by (cases "line_break c"; cases "split_lines s") (auto split: if_splits)
  qed
qed

lemma split_lines_nonempty: "w \<in> set (split_lines s) \<Longrightarrow> w \<noteq> []"
proof (induction s arbitrary: w rule: split_lines.induct)
  case 1
  then show ?case by simp
next
  case (2 c s)
  show ?case
  proof (cases "c = 13 \<and> s \<noteq> [] \<and> hd s = 10")
    case True
    with 2(4) have "w = [13, 10] \<or> w \<in> set (split_lines (tl s))" by simp
    with 2(1) [OF True] show ?thesis by auto
  next
    case False
    with 2(2) [of w] 2(3) [of w] 2(4) show ?thesis
      by (cases "line_break c"; cases "split_lines s") auto
  qed
qed

text \<open>The length of the UTF-8 encoding; a surrogate has none.\<close>

fun utf8_length :: "pystr \<Rightarrow> nat option" where
  "utf8_length [] = Some 0"
| "utf8_length (c # s) =
     (if 55296 \<le> c \<and> c \<le> 57343 then None
      else map_option (\<lambda>n. n + (if c < 128 then 1 else if c < 2048 then 2 else if c < 65536 then 3 else 4))
             (utf8_length s))"

lemma utf8_length_ge: "utf8_length s = Some n \<Longrightarrow> length s \<le> n"
  by (induction s arbitrary: n) (auto split: if_splits)

end
