(* ===== verification/Models.thy ===== *)
theory Models
  imports Complex_Main Planning Text
begin

text \<open>
  The data of the program: the schemas the services exchange (\<^verbatim>\<open>app/schemas\<close>,
  \<^verbatim>\<open>app/pull_requests/contracts.py\<close>), the rows of the database (\<^verbatim>\<open>app/models\<close>) and the
  database as the list of rows of each table. Field names carry a prefix per record, because
  the selectors of Isabelle records are global. Columns no modelled operation reads or writes
  (creation times, token cost) are left out.
\<close>

section \<open>Test reports and code changes\<close>

record test_result =
  tr_command :: "string list"
  tr_exit_code :: "int option"
  tr_stdout :: string
  tr_stderr :: string
  tr_duration :: int
  tr_passed :: bool
  tr_timeout :: bool
  tr_output_truncated :: bool

record test_report =
  rep_results :: "test_result list"
  rep_passed :: bool

record repository_test_config =
  required_commands :: "string list"

record code_change_proposal =
  ccp_summary :: string
  ccp_files_changed :: "string list"
  ccp_unified_diff :: string
  ccp_assumptions :: "string list"
  ccp_tests_to_run :: "string list"

record token_usage =
  tu_input_tokens :: "int option"
  tu_output_tokens :: "int option"

section \<open>Reviews and publications\<close>

record review_finding =
  rf_severity :: string
  rf_file_path :: "string option"
  rf_line :: "int option"
  rf_reference :: "string option"
  rf_description :: string
  rf_recommendation :: string

record review_result =
  rr_summary :: string
  rr_approved :: bool
  rr_findings :: "review_finding list"

record review_decision =
  rd_review :: "review_result option"
  rd_mechanical_errors :: "string list"
  rd_approved :: bool
  rd_diff_hash :: "string option"

record review_test_evidence =
  rte_task_key :: string
  rte_agent_run_id :: uuid
  rte_report :: test_report

record publication =
  pub_execution_id :: uuid
  pub_review_id :: uuid
  pub_owner :: string
  pub_repository :: string
  pub_source :: string
  pub_base :: string
  pub_branch :: string
  pub_parent :: string
  pub_commit :: string
  pub_diff_hash :: string
  pub_title :: string
  pub_body :: string

record published_pr =
  ppr_number :: int
  ppr_html_url :: string
  ppr_state :: string

section \<open>Issue context\<close>

record context_repository =
  cr_id :: uuid
  cr_github_owner :: string
  cr_github_name :: string
  cr_default_branch :: string
  cr_index_status :: string
  cr_embedding_status :: string

record context_issue =
  ci_id :: uuid
  ci_github_issue_number :: int
  ci_title :: string
  ci_body :: "string option"
  ci_truncated :: bool

record context_seed =
  cs_repository :: context_repository
  cs_issue :: context_issue

text \<open>Scores are floating point numbers in the program and rational numbers here.\<close>

record retrieval_evidence =
  re_query :: string
  re_rank :: nat
  re_score :: rat
  re_bm25_rank :: "nat option"
  re_bm25_score :: "rat option"
  re_vector_rank :: "nat option"
  re_vector_score :: "rat option"

record context_snippet =
  sn_chunk_id :: uuid
  sn_file_path :: pystr
  sn_start_line :: nat
  sn_end_line :: nat
  sn_content :: pystr
  sn_retrieval :: "retrieval_evidence list"
  sn_neighbor_of :: "uuid option"

record issue_context = context_seed +
  ic_queries :: "string list"
  ic_relevant_files :: "pystr list"
  ic_snippets :: "context_snippet list"
  ic_code_chars :: nat
  ic_limited :: bool

section \<open>JSON metadata\<close>

text \<open>
  The metadata columns are JSON objects. A value the program writes by dumping a model
  (\<open>model_dump(mode="json")\<close>) and reads back by validating it stays the model itself;
  \<open>str(identifier)\<close> stays the identifier. \<open>JOther\<close> is any other value; no reader finds an object in it.
\<close>

datatype jval =
    JNull
  | JBool bool
  | JInt int
  | JStr string
  | JStrs "string list"
  | JId uuid
  | JReport test_report
  | JProposal code_change_proposal
  | JDecision review_decision
  | JPublication publication
  | JPullRequest published_pr
  | JContext issue_context
  | JOther

type_synonym metadata = "string \<rightharpoonup> jval"

definition jint :: "jval option \<Rightarrow> int option" where
  "jint v = (case v of Some (JInt n) \<Rightarrow> Some n | _ \<Rightarrow> None)"

section \<open>Rows\<close>

record repository_row =
  repo_id :: uuid
  repo_github_owner :: string
  repo_github_name :: string
  repo_clone_url :: string
  repo_default_branch :: string
  repo_local_status :: string
  repo_index_status :: string
  repo_embedding_status :: string

record issue_row =
  iss_id :: uuid
  iss_repository_id :: uuid
  iss_github_issue_number :: int
  iss_title :: string
  iss_body :: "string option"
  iss_state :: string
  iss_source_url :: string

record code_chunk_row =
  ch_id :: uuid
  ch_repository_id :: uuid
  ch_file_path :: pystr
  ch_language :: "string option"
  ch_start_line :: nat
  ch_end_line :: nat
  ch_content :: pystr
  ch_content_hash :: string
  ch_embedding :: "rat list option"
  ch_embedding_status :: string
  ch_embedding_profile :: "string option"
  ch_embedding_content_hash :: "string option"

record implementation_plan_row =
  plan_id :: uuid
  plan_issue_id :: uuid
  plan_status :: string
  plan_row_summary :: "string option"

record plan_task_row =
  pt_id :: uuid
  pt_plan_id :: uuid
  pt_task_key :: string
  pt_title :: string
  pt_description :: "string option"
  pt_rationale :: "string option"
  pt_acceptance_criteria :: "string list"
  pt_suggested_tests :: "string list"
  pt_status :: string
  pt_dependencies :: "string list"
  pt_target_files :: "string list"
  pt_sequence :: nat

text \<open>\<open>None\<close> as snapshot is SQL NULL, or JSON that has not the shape of a snapshot.\<close>

record execution_run =
  run_id :: uuid
  run_plan_id :: uuid
  run_status :: string
  run_branch_name :: "string option"
  run_plan_snapshot :: "execution_snapshot option"
  run_started_at :: "time option"
  run_completed_at :: "time option"
  run_updated_at :: time

record task_execution =
  te_id :: uuid
  te_execution_run_id :: uuid
  te_plan_task_id :: uuid
  te_status :: string
  te_attempt :: int
  te_output_summary :: "string option"

record agent_run =
  ar_id :: uuid
  ar_execution_run_id :: uuid
  ar_task_execution_id :: "uuid option"
  ar_agent_type :: string
  ar_status :: string
  ar_model :: "string option"
  ar_input_metadata :: metadata
  ar_output_metadata :: metadata
  ar_input_tokens :: "int option"
  ar_output_tokens :: "int option"
  ar_started_at :: "time option"
  ar_completed_at :: "time option"

record pull_request_row =
  prr_id :: uuid
  prr_execution_run_id :: uuid
  prr_github_pr_number :: int
  prr_github_url :: string
  prr_status :: string

section \<open>The database of the execution services\<close>

record db =
  db_repositories :: "repository_row list"
  db_issues :: "issue_row list"
  db_plans :: "implementation_plan_row list"
  db_plan_tasks :: "plan_task_row list"
  db_runs :: "execution_run list"
  db_task_executions :: "task_execution list"
  db_agent_runs :: "agent_run list"
  db_pull_requests :: "pull_request_row list"
  db_chunks :: "code_chunk_row list"

text \<open>
  The trigger \<open>set_record_updated_at\<close> stamps a row that an \<open>UPDATE\<close> touches. SQLAlchemy
  emits no \<open>UPDATE\<close> for an object whose attributes did not change.
\<close>

definition save_run :: "time \<Rightarrow> execution_run \<Rightarrow> db \<Rightarrow> db" where
  "save_run now r d =
     (if fetch run_id (run_id r) (db_runs d) = Some r then d
      else d\<lparr>db_runs := put run_id (r\<lparr>run_updated_at := now\<rparr>) (db_runs d)\<rparr>)"

definition save_tasks :: "task_execution list \<Rightarrow> db \<Rightarrow> db" where
  "save_tasks ts d = d\<lparr>db_task_executions := put_all te_id ts (db_task_executions d)\<rparr>"

definition save_agent :: "agent_run \<Rightarrow> db \<Rightarrow> db" where
  "save_agent a d = d\<lparr>db_agent_runs := put ar_id a (db_agent_runs d)\<rparr>"

text \<open>An \<open>INSERT\<close> of a row whose primary key exists violates the constraint.\<close>

definition insert_agent :: "agent_run \<Rightarrow> db \<Rightarrow> service_error + db" where
  "insert_agent a d =
     (if ar_id a \<in> ar_id ` set (db_agent_runs d) then Inl IntegrityError
      else Inr (d\<lparr>db_agent_runs := db_agent_runs d @ [a]\<rparr>))"

definition find_agent :: "uuid \<Rightarrow> db \<Rightarrow> agent_run option" where
  "find_agent i d = fetch ar_id i (db_agent_runs d)"

definition find_run :: "uuid \<Rightarrow> db \<Rightarrow> execution_run option" where
  "find_run i d = fetch run_id i (db_runs d)"

definition run_tasks :: "uuid \<Rightarrow> db \<Rightarrow> task_execution list" where
  "run_tasks i d = filter (\<lambda>t. te_execution_run_id t = i) (db_task_executions d)"

text \<open>
  \<open>session_scope\<close>: a transaction that raises is rolled back, one that returns is committed.
\<close>

definition session_scope :: "('d \<Rightarrow> service_error + 'd \<times> 'a) \<Rightarrow> 'd \<Rightarrow> 'd \<times> (service_error + 'a)" where
  "session_scope op d = (case op d of Inl e \<Rightarrow> (d, Inl e) | Inr (d', x) \<Rightarrow> (d', Inr x))"

text \<open>
  Rows ordered by start time and identifier; the newest row is the last. PostgreSQL sorts NULL
  last in ascending order.
\<close>

definition agent_order :: "agent_run \<Rightarrow> bool \<times> time \<times> uuid" where
  "agent_order a = (case ar_started_at a of None \<Rightarrow> (True, 0, ar_id a) | Some t \<Rightarrow> (False, t, ar_id a))"

definition later_agent :: "agent_run \<Rightarrow> agent_run \<Rightarrow> bool" where
  "later_agent a b =
     (case (agent_order a, agent_order b) of ((n, t, i), (m, s, j)) \<Rightarrow>
        (n \<and> \<not> m) \<or> n = m \<and> (s < t \<or> s = t \<and> j \<le> i))"

fun newest_agent :: "agent_run list \<Rightarrow> agent_run option" where
  "newest_agent [] = None"
| "newest_agent (a # as) = (case newest_agent as of
     None \<Rightarrow> Some a | Some b \<Rightarrow> Some (if later_agent b a then b else a))"

lemma newest_agent_in: "newest_agent as = Some a \<Longrightarrow> a \<in> set as"
  by (induction as arbitrary: a) (auto split: option.splits if_splits)

lemma newest_agent_None [simp]: "newest_agent as = None \<longleftrightarrow> as = []"
  by (cases as) (auto split: option.splits)

section \<open>Frame lemmas\<close>

lemma save_run_frame [simp]:
  "db_task_executions (save_run now r d) = db_task_executions d"
  "db_agent_runs (save_run now r d) = db_agent_runs d"
  "db_plans (save_run now r d) = db_plans d"
  "db_plan_tasks (save_run now r d) = db_plan_tasks d"
  "db_issues (save_run now r d) = db_issues d"
  "db_repositories (save_run now r d) = db_repositories d"
  "db_pull_requests (save_run now r d) = db_pull_requests d"
  "db_chunks (save_run now r d) = db_chunks d"
  by (simp_all add: save_run_def)

lemma save_tasks_frame [simp]:
  "db_runs (save_tasks ts d) = db_runs d"
  "db_agent_runs (save_tasks ts d) = db_agent_runs d"
  "db_plans (save_tasks ts d) = db_plans d"
  "db_plan_tasks (save_tasks ts d) = db_plan_tasks d"
  "db_issues (save_tasks ts d) = db_issues d"
  "db_repositories (save_tasks ts d) = db_repositories d"
  "db_pull_requests (save_tasks ts d) = db_pull_requests d"
  "db_chunks (save_tasks ts d) = db_chunks d"
  by (simp_all add: save_tasks_def)

lemma save_agent_frame [simp]:
  "db_runs (save_agent a d) = db_runs d"
  "db_task_executions (save_agent a d) = db_task_executions d"
  "db_plans (save_agent a d) = db_plans d"
  "db_plan_tasks (save_agent a d) = db_plan_tasks d"
  "db_issues (save_agent a d) = db_issues d"
  "db_repositories (save_agent a d) = db_repositories d"
  "db_pull_requests (save_agent a d) = db_pull_requests d"
  "db_chunks (save_agent a d) = db_chunks d"
  by (simp_all add: save_agent_def)

lemma insert_agent_Inr:
  "insert_agent a d = Inr d' \<longleftrightarrow>
    ar_id a \<notin> ar_id ` set (db_agent_runs d) \<and> d' = d\<lparr>db_agent_runs := db_agent_runs d @ [a]\<rparr>"
  by (auto simp: insert_agent_def)

lemma run_tasks_frame [simp]:
  "run_tasks i (save_run now r d) = run_tasks i d"
  "run_tasks i (save_agent a d) = run_tasks i d"
  by (simp_all add: run_tasks_def)

lemma find_run_frame [simp]:
  "find_run i (save_tasks ts d) = find_run i d"
  "find_run i (save_agent a d) = find_run i d"
  by (simp_all add: find_run_def)

text \<open>What a reader of the run sees after it was saved.\<close>

lemma find_run_save_run:
  assumes "find_run (run_id r) d \<noteq> None"
  shows "find_run i (save_run now r d) =
    (if i \<noteq> run_id r then find_run i d
     else if find_run i d = Some r then Some r else Some (r\<lparr>run_updated_at := now\<rparr>))"
  using assms
  by (auto simp: save_run_def find_run_def fetch_put fetch_None dest: fetch_SomeD)

end
