(* ===== verification/Transitions.thy ===== *)
theory Transitions
  imports Scheduling Models
begin

text \<open>
  \<^verbatim>\<open>app/orchestration/transitions.py\<close>: the tables of permitted state changes and the checked
  assignments that every service goes through. The locale \<open>lifecycle\<close> states the contract of
  a table (which states are final), \<open>progressing\<close> adds that states are never revisited; both
  are interpreted on the tables of the code. \<open>record_transition\<close> only collects log events
  and is not modelled.
\<close>

section \<open>The tables\<close>

type_synonym edge_table = "(string \<times> string list) list"

definition TASK_EDGES :: edge_table where
  "TASK_EDGES =
    [(''pending'', [''queued'', ''blocked'', ''cancelled'']),
     (''queued'', [''running'', ''failed'', ''blocked'', ''cancelled'']),
     (''running'', [''completed'', ''failed''])]"

definition RUN_EDGES :: edge_table where
  "RUN_EDGES =
    [(''pending'', [''running'', ''failed'', ''cancelled'']),
     (''running'', [''completed'', ''failed'', ''cancelled''])]"

definition WORKFLOW_EDGES :: edge_table where
  "WORKFLOW_EDGES =
    [(''pending'', [''running'', ''cancelled'']),
     (''running'', [''pending'', ''failed'', ''blocked'', ''completed'']),
     (''failed'', [''pending'', ''cancelled'']),
     (''blocked'', [''cancelled''])]"

text \<open>A failed publication journal may still complete after reconciliation.\<close>

definition agent_edges :: "string \<Rightarrow> edge_table" where
  "agent_edges agent_type =
    (if agent_type = ''pull_request''
     then [(''running'', [''completed'', ''failed'']), (''failed'', [''completed''])]
     else [(''running'', [''completed'', ''failed''])])"

section \<open>The checked assignment\<close>

definition successors :: "edge_table \<Rightarrow> string \<Rightarrow> string list" where
  "successors edges s = (case map_of edges s of None \<Rightarrow> [] | Some ts \<Rightarrow> ts)"

definition known :: "edge_table \<Rightarrow> string list" where
  "known edges = map fst edges @ concat (map snd edges)"

definition check :: "string \<Rightarrow> string \<Rightarrow> edge_table \<Rightarrow> service_error + unit" where
  "check current target edges =
     (if target \<notin> set (known edges) \<or> (target \<noteq> current \<and> target \<notin> set (successors edges current))
      then Inl (InvalidTransition ''invalid_state_transition'') else Inr ())"

definition task_state :: "task_execution \<Rightarrow> string \<Rightarrow> service_error + task_execution" where
  "task_state r target =
     bindE (check (te_status r) target TASK_EDGES) (\<lambda>_. Inr (r\<lparr>te_status := target\<rparr>))"

definition execution_state :: "execution_run \<Rightarrow> string \<Rightarrow> service_error + execution_run" where
  "execution_state r target =
     bindE (check (run_status r) target RUN_EDGES) (\<lambda>_. Inr (r\<lparr>run_status := target\<rparr>))"

definition agent_state :: "agent_run \<Rightarrow> string \<Rightarrow> service_error + agent_run" where
  "agent_state r target =
     bindE (check (ar_status r) target (agent_edges (ar_agent_type r)))
       (\<lambda>_. Inr (r\<lparr>ar_status := target\<rparr>))"

lemma check_eq_Inr:
  "check s t edges = Inr u \<longleftrightarrow> t \<in> set (known edges) \<and> (t = s \<or> t \<in> set (successors edges s))"
  by (auto simp: check_def)

lemmas edge_simps = TASK_EDGES_def RUN_EDGES_def WORKFLOW_EDGES_def agent_edges_def
  successors_def known_def

section \<open>The contract of a table\<close>

text \<open>A sequence of checked assignments; the first refused one ends it.\<close>

definition walk :: "edge_table \<Rightarrow> string list \<Rightarrow> string \<Rightarrow> service_error + string" where
  "walk edges = foldE (\<lambda>t s. bindE (check s t edges) (\<lambda>_. Inr t))"

lemma walk_simps [simp]:
  "walk edges [] s = Inr s"
  "walk edges (t # ts) s = bindE (check s t edges) (\<lambda>_. walk edges ts t)"
  by (simp_all add: walk_def bindE_assoc)

locale lifecycle =
  fixes table :: edge_table
    and final :: "string list"
  assumes final_stuck: "s \<in> set final \<Longrightarrow> successors table s = []"
    and final_known: "s \<in> set final \<Longrightarrow> s \<in> set (known table)"
begin

lemma final_fixed: "s \<in> set final \<Longrightarrow> check s t table = Inr u \<longleftrightarrow> t = s"
  by (auto simp: check_eq_Inr final_stuck final_known)

lemma final_absorbing: "s \<in> set final \<Longrightarrow> walk table ts s = Inr t \<Longrightarrow> t = s"
  by (induction ts arbitrary: s) (auto simp: final_fixed)

lemma walk_known: "s \<in> set (known table) \<Longrightarrow> walk table ts s = Inr t \<Longrightarrow> t \<in> set (known table)"
  by (induction ts arbitrary: s) (auto simp: check_eq_Inr)

end

locale progressing = lifecycle +
  fixes rank :: "string \<Rightarrow> nat"
  assumes edge_rank: "t \<in> set (successors table s) \<Longrightarrow> rank s < rank t"
begin

lemma walk_rank: "walk table ts s = Inr t \<Longrightarrow> rank s \<le> rank t"
proof (induction ts arbitrary: s)
  case Nil
  then show ?case by simp
next
  case (Cons u us)
  then have "rank u \<le> rank t" and "u = s \<or> u \<in> set (successors table s)"
    by (auto simp: check_eq_Inr)
  then show ?case using edge_rank [of u s] by auto
qed

text \<open>A state that was left is never entered again.\<close>

lemma never_revisited:
  assumes "walk table (us @ [t]) s = Inr t" and "t \<noteq> s"
  shows "\<not> (\<exists>vs. walk table vs t = Inr s)"
proof -
  from assms obtain m where m: "walk table us s = Inr m" "check m t table = Inr ()"
    by (auto simp: walk_def)
  then have "rank s \<le> rank m" by (simp add: walk_rank)
  show ?thesis
  proof (cases "t = m")
    case False
    with m(2) edge_rank [of t m] have "rank m < rank t" by (auto simp: check_eq_Inr)
    with \<open>rank s \<le> rank m\<close> walk_rank show ?thesis by fastforce
  next
    case True
    have "rank s < rank m" using m(1) assms(2) True
    proof (induction us arbitrary: s)
      case Nil
      then show ?case by simp
    next
      case (Cons u us)
      then have u: "check s u table = Inr ()" "walk table us u = Inr m" by auto
      show ?case
      proof (cases "u = s")
        case True
        with Cons u show ?thesis by auto
      next
        case False
        with u(1) have "rank s < rank u" by (auto simp: check_eq_Inr edge_rank)
        with walk_rank [OF u(2)] show ?thesis by simp
      qed
    qed
    with True walk_rank show ?thesis by fastforce
  qed
qed

end

section \<open>The tables of the code meet it\<close>

definition task_rank :: "string \<Rightarrow> nat" where
  "task_rank s = (if s = ''pending'' then 0 else if s = ''queued'' then 1
     else if s = ''running'' then 2 else 3)"

definition run_rank :: "string \<Rightarrow> nat" where
  "run_rank s = (if s = ''pending'' then 0 else if s = ''running'' then 1 else 2)"

definition agent_rank :: "string \<Rightarrow> nat" where
  "agent_rank s = (if s = ''running'' then 0 else if s = ''failed'' then 1 else 2)"

interpretation task_table: progressing TASK_EDGES
    "[''completed'', ''failed'', ''blocked'', ''cancelled'']" task_rank
  by unfold_locales (auto simp: edge_simps task_rank_def split: if_splits option.splits)

interpretation run_table: progressing RUN_EDGES "[''completed'', ''failed'', ''cancelled'']" run_rank
  by unfold_locales (auto simp: edge_simps run_rank_def split: if_splits option.splits)

interpretation workflow_table: lifecycle WORKFLOW_EDGES "[''completed'', ''cancelled'']"
  by unfold_locales (auto simp: edge_simps)

interpretation agent_table: progressing "agent_edges agent_type"
    "if agent_type = ''pull_request'' then [''completed''] else [''completed'', ''failed'']" agent_rank
  for agent_type
  by unfold_locales (auto simp: edge_simps agent_rank_def split: if_splits option.splits)

section \<open>Inversion of the assignments\<close>

lemma task_state_Inr:
  "task_state r t = Inr r' \<longleftrightarrow>
    r' = r\<lparr>te_status := t\<rparr> \<and> t \<in> set (known TASK_EDGES) \<and>
    (t = te_status r \<or> t \<in> set (successors TASK_EDGES (te_status r)))"
  by (auto simp: task_state_def check_eq_Inr)

lemma execution_state_Inr:
  "execution_state r t = Inr r' \<longleftrightarrow>
    r' = r\<lparr>run_status := t\<rparr> \<and> t \<in> set (known RUN_EDGES) \<and>
    (t = run_status r \<or> t \<in> set (successors RUN_EDGES (run_status r)))"
  by (auto simp: execution_state_def check_eq_Inr)

lemma agent_state_Inr:
  "agent_state r t = Inr r' \<longleftrightarrow>
    r' = r\<lparr>ar_status := t\<rparr> \<and> t \<in> set (known (agent_edges (ar_agent_type r))) \<and>
    (t = ar_status r \<or> t \<in> set (successors (agent_edges (ar_agent_type r)) (ar_status r)))"
  by (auto simp: agent_state_def check_eq_Inr)

lemma task_state_frame:
  "task_state r t = Inr r' \<Longrightarrow> te_id r' = te_id r \<and> te_plan_task_id r' = te_plan_task_id r \<and>
    te_execution_run_id r' = te_execution_run_id r \<and> te_attempt r' = te_attempt r \<and>
    te_output_summary r' = te_output_summary r \<and> te_status r' = t"
  by (auto simp: task_state_Inr)

lemma task_successors:
  "successors TASK_EDGES s =
    (if s = ''pending'' then [''queued'', ''blocked'', ''cancelled'']
     else if s = ''queued'' then [''running'', ''failed'', ''blocked'', ''cancelled'']
     else if s = ''running'' then [''completed'', ''failed''] else [])"
  by (simp add: successors_def TASK_EDGES_def)

lemma run_successors:
  "successors RUN_EDGES s =
    (if s = ''pending'' then [''running'', ''failed'', ''cancelled'']
     else if s = ''running'' then [''completed'', ''failed'', ''cancelled''] else [])"
  by (simp add: successors_def RUN_EDGES_def)

lemma agent_successors:
  "successors (agent_edges ty) s =
    (if s = ''running'' then [''completed'', ''failed'']
     else if s = ''failed'' \<and> ty = ''pull_request'' then [''completed''] else [])"
  by (simp add: successors_def agent_edges_def)

lemma task_known:
  "set (known TASK_EDGES) =
    {''pending'', ''queued'', ''running'', ''completed'', ''failed'', ''blocked'', ''cancelled''}"
  by (auto simp: known_def TASK_EDGES_def)

lemma run_known:
  "set (known RUN_EDGES) = {''pending'', ''running'', ''completed'', ''failed'', ''cancelled''}"
  by (auto simp: known_def RUN_EDGES_def)

lemma agent_known: "set (known (agent_edges ty)) = {''running'', ''completed'', ''failed''}"
  by (auto simp: known_def agent_edges_def)

end
