(* ===== verification/Plan_Properties.thy ===== *)
theory Plan_Properties
  imports Transitions
begin

text \<open>
  The properties of planning and scheduling: \<^verbatim>\<open>execution_order\<close> exists exactly for the acyclic
  dependency mappings and is a topological order of them, a stored plan validates to itself,
  \<^verbatim>\<open>advance\<close> computes the only state assignment that obeys the local rule, and the life
  cycles of the records never go back.
\<close>

definition example_dag :: dag where
  "example_dag = [(''ship'', [''build'', ''test'']), (''build'', []), (''test'', [''build''])]"

lemma example_order: "execution_order example_dag = Inr [''build'', ''test'', ''ship'']"
  by code_simp

section \<open>Dependency order\<close>

text \<open>The order of a dependency dictionary is defined exactly when the dictionary is non-empty,
  no task depends on itself, no prerequisite is repeated or unknown, and the dependency relation has
  no cycle; in every other case the plan is refused with a ValueError.\<close>

theorem execution_order_defined:
  assumes "distinct (map fst d)"
  shows "(\<exists>ks. execution_order d = Inr ks) \<longleftrightarrow>
    d \<noteq> [] \<and> (\<forall>(k, ps) \<in> set d. k \<notin> set ps \<and> distinct ps \<and> set ps \<subseteq> fst ` set d) \<and>
    acyclic (dependency_edges d)"
proof -
  have entry: "entry_error d (k, ps) = None \<longleftrightarrow>
      k \<notin> set ps \<and> distinct ps \<and> set ps \<subseteq> fst ` set d" for k ps
    using length_remdups_distinct [of ps] by (auto simp: entry_error_def)
  then have entries: "(\<forall>e \<in> set d. entry_error d e = None) \<longleftrightarrow>
      (\<forall>(k, ps) \<in> set d. k \<notin> set ps \<and> distinct ps \<and> set ps \<subseteq> fst ` set d)"
    by (metis (no_types, lifting) case_prodE case_prodI2)
  show ?thesis
  proof (cases "\<forall>e \<in> set d. entry_error d e = None")
    case True
    with graph_has_cycle_iff [OF assms True] entries show ?thesis
      by (simp add: execution_order_Inr)
  next
    case False
    then have "\<not> (\<exists>ks. execution_order d = Inr ks)" by (simp add: execution_order_Inr)
    with False entries show ?thesis by blast
  qed
qed

theorem execution_order_defined_witness:
  "distinct (map fst example_dag) \<and> acyclic (dependency_edges example_dag)"
proof -
  have d: "distinct (map fst example_dag)" by (simp add: example_dag_def)
  then show ?thesis using execution_order_defined [OF d] example_order by blast
qed

text \<open>The execution order lists every task exactly once, puts all prerequisites of a task before
  it, and does not depend on the order in which the dictionary lists its entries.\<close>

theorem execution_order_topological:
  assumes dist: "distinct (map fst d)" and ord: "execution_order d = Inr ks"
  shows "mset ks = mset (map fst d) \<and>
    (\<forall>xs k ys ps. ks = xs @ k # ys \<longrightarrow> (k, ps) \<in> set d \<longrightarrow> set ps \<subseteq> set xs) \<and>
    (\<forall>d'. mset d' = mset d \<longrightarrow> execution_order d' = Inr ks)"
proof (intro conjI allI impI)
  have "distinct ks" using dist ord by (rule execution_order_distinct)
  moreover have "set ks = set (map fst d)" using execution_order_set [OF ord] by simp
  ultimately show "mset ks = mset (map fst d)"
    using dist by (metis set_eq_iff_mset_eq_distinct)
  have after: "ordered_after d {} ks" using dist ord by (rule execution_order_ordered)
  show "set ps \<subseteq> set xs" if "ks = xs @ k # ys" "(k, ps) \<in> set d" for xs k ys ps
    using after that by (auto simp: ordered_after_append)
  show "execution_order d' = Inr ks" if "mset d' = mset d" for d'
  proof (rule execution_order_permute [OF dist _ _ ord])
    from that have "mset (map fst d') = mset (map fst d)" by simp
    with dist show "distinct (map fst d')" using mset_eq_imp_distinct_iff by blast
    from that show "set d = set d'" by (metis mset_eq_setD)
  qed
qed

theorem execution_order_topological_witness:
  "execution_order (rev example_dag) = Inr [''build'', ''test'', ''ship'']"
proof -
  have d: "distinct (map fst example_dag)" by (simp add: example_dag_def)
  show ?thesis using execution_order_topological [OF d example_order] by simp
qed

section \<open>Plans\<close>

text \<open>Validation of a plan normalises it: the accepted plan validates to itself, so the snapshot
  that an execution stores is read back unchanged, and the same holds with its tasks listed in any
  order, with the same execution order.\<close>

theorem validated_plan_stable:
  assumes "validate_plan p = Inr q" and "mset ts = mset (plan_tasks q)"
  shows "validate_plan (q\<lparr>plan_tasks := ts\<rparr>) = Inr (q\<lparr>plan_tasks := ts\<rparr>) \<and>
    plan_order (q\<lparr>plan_tasks := ts\<rparr>) = plan_order q"
proof -
  from assms(1) have "validate_plan q = Inr q" by (rule validate_plan_idem)
  from validate_plan_permute [OF this assms(2)] show ?thesis by blast
qed

definition padded_plan :: plan_proposal where
  "padded_plan = \<lparr>plan_summary = '' Add a cache '', plan_tasks =
     [\<lparr>task_key = '' core '', title = ''Cache'', description = ''Add it'', rationale = ''Speed'',
        target_files = [''app/cache.py''], dependencies = [], acceptance_criteria = ['' fast''],
        suggested_tests = [''pytest'']\<rparr>,
      \<lparr>task_key = ''docs'', title = ''Docs'', description = ''Say so'', rationale = ''Users'',
        target_files = [], dependencies = [''core ''], acceptance_criteria = [''clear''],
        suggested_tests = []\<rparr>]\<rparr>"

definition stripped_plan :: plan_proposal where
  "stripped_plan = \<lparr>plan_summary = ''Add a cache'', plan_tasks =
     [\<lparr>task_key = ''core'', title = ''Cache'', description = ''Add it'', rationale = ''Speed'',
        target_files = [''app/cache.py''], dependencies = [], acceptance_criteria = [''fast''],
        suggested_tests = [''pytest'']\<rparr>,
      \<lparr>task_key = ''docs'', title = ''Docs'', description = ''Say so'', rationale = ''Users'',
        target_files = [], dependencies = [''core''], acceptance_criteria = [''clear''],
        suggested_tests = []\<rparr>]\<rparr>"

lemma padded_plan_valid: "validate_plan padded_plan = Inr stripped_plan"
  by code_simp

theorem validated_plan_stable_witness:
  "validate_plan (stripped_plan\<lparr>plan_tasks := rev (plan_tasks stripped_plan)\<rparr>) =
     Inr (stripped_plan\<lparr>plan_tasks := rev (plan_tasks stripped_plan)\<rparr>)"
  using validated_plan_stable [OF padded_plan_valid, of "rev (plan_tasks stripped_plan)"] by simp

section \<open>Scheduling\<close>

text \<open>C36. One pass of the scheduler along the execution order computes the only assignment of states
  in which every task that was not pending keeps its state, and every pending task is blocked when a
  prerequisite is failed or blocked in the result, queued when all are completed, and still pending
  otherwise.\<close>

theorem advance_is_solution:
  assumes dist: "distinct (map fst d)" and states: "distinct (map fst st)"
    and keys: "fst ` set st = fst ` set d" and ord: "execution_order d = Inr ks"
  shows "advance d st = Inr st' \<longleftrightarrow> map fst st' = map fst st \<and>
    (\<forall>k \<in> fst ` set d. state_of st' k = settle (state_of st k) (map (state_of st') (parents_of d k)))"
proof
  assume adv: "advance d st = Inr st'"
  then have "map fst st' = map fst st" by (rule advance_keys)
  with advance_settle [OF dist adv] show "map fst st' = map fst st \<and>
    (\<forall>k \<in> fst ` set d. state_of st' k = settle (state_of st k) (map (state_of st') (parents_of d k)))"
    by simp
next
  assume sol: "map fst st' = map fst st \<and>
    (\<forall>k \<in> fst ` set d. state_of st' k = settle (state_of st k) (map (state_of st') (parents_of d k)))"
  from keys ord obtain st2 where adv: "advance d st = Inr st2" by (auto simp: advance_Inr)
  have same: "map fst st2 = map fst st'" using advance_keys [OF adv] sol by simp
  have eq: "state_of st2 k = state_of st' k" if "k \<in> fst ` set d" for k
    by (rule settle_unique [OF dist ord _ _ that, where st = st])
      (use advance_settle [OF dist adv] sol in auto)
  have "st2 = st'"
  proof (rule alist_eqI [OF same])
    show "distinct (map fst st2)" using same sol states by simp
    fix k assume k: "k \<in> fst ` set st2"
    then have k': "k \<in> fst ` set st'" "k \<in> fst ` set d"
      using same sol keys by (metis list.set_map)+
    with k eq [of k] show "map_of st2 k = map_of st' k"
      by (metis domD dom_map_of_conv_image_fst option.sel state_of_def)
  qed
  with adv show "advance d st = Inr st'" by simp
qed

definition example_states :: "(string \<times> string) list" where
  "example_states = [(''ship'', ''pending''), (''build'', ''failed''), (''test'', ''pending'')]"

theorem advance_is_solution_witness:
  "advance example_dag example_states =
     Inr [(''ship'', ''blocked''), (''build'', ''failed''), (''test'', ''blocked'')]"
proof -
  have "distinct (map fst example_dag)" "distinct (map fst example_states)"
    "fst ` set example_states = fst ` set example_dag"
    by (simp_all add: example_dag_def example_states_def)
  from advance_is_solution [OF this example_order] show ?thesis
    by (simp add: example_dag_def example_states_def state_of_def parents_of_def settle_def)
qed

text \<open>Scheduling is idempotent: advancing the states that a pass computed changes nothing, so
  concurrent or repeated reconciliations of one run agree.\<close>

theorem advance_twice:
  assumes "distinct (map fst d)" and "distinct (map fst st)" and "advance d st = Inr st'"
  shows "advance d st' = Inr st'"
  using assms by (rule advance_idem)

theorem advance_twice_witness:
  "advance example_dag [(''ship'', ''blocked''), (''build'', ''failed''), (''test'', ''blocked'')] =
     Inr [(''ship'', ''blocked''), (''build'', ''failed''), (''test'', ''blocked'')]"
proof -
  have "distinct (map fst example_dag)" "distinct (map fst example_states)"
    by (simp_all add: example_dag_def example_states_def)
  moreover have "advance example_dag example_states =
     Inr [(''ship'', ''blocked''), (''build'', ''failed''), (''test'', ''blocked'')]"
    by code_simp
  ultimately show ?thesis by (rule advance_twice)
qed

section \<open>Life cycles\<close>

text \<open>A task, run or agent record that has left a state by permitted transitions can never enter
  it again by permitted transitions.\<close>

theorem states_never_revisited:
  assumes "edges \<in> {TASK_EDGES, RUN_EDGES} \<union> range agent_edges"
    and "walk edges (us @ [t]) s = Inr t" and "t \<noteq> s"
  shows "walk edges vs t \<noteq> Inr s"
  using assms task_table.never_revisited run_table.never_revisited agent_table.never_revisited
  by fastforce

theorem states_never_revisited_witness:
  "\<forall>vs. walk TASK_EDGES vs ''running'' \<noteq> Inr ''pending''"
proof
  fix vs
  have "walk TASK_EDGES ([''queued''] @ [''running'']) ''pending'' = Inr ''running''" by code_simp
  from states_never_revisited [OF _ this]
  show "walk TASK_EDGES vs ''running'' \<noteq> Inr ''pending''" by simp
qed

end
