(* ===== verification/Executions.thy ===== *)
theory Executions
  imports Transitions
begin

text \<open>
  \<^verbatim>\<open>app/services/executions.py\<close>: durable execution runs. Every operation loads one run with
  its tasks under the row lock, changes the loaded objects and commits; here it is a function
  from the database to an error or the new database and a result. This theory holds the
  operations; \<open>Execution_Invariants\<close> holds what they keep.
\<close>

section \<open>Responses\<close>

record task_execution_response =
  ter_id :: uuid
  ter_plan_task_id :: uuid
  ter_task_key :: string
  ter_dependencies :: "string list"
  ter_status :: string
  ter_attempt :: int
  ter_output_summary :: "string option"

record execution_response =
  er_id :: uuid
  er_plan_id :: uuid
  er_status :: string
  er_started_at :: "time option"
  er_completed_at :: "time option"
  er_tasks :: "task_execution_response list"

section \<open>Creating a run\<close>

text \<open>\<open>text or ""\<close>.\<close>

definition or_empty :: "string option \<Rightarrow> string" where
  "or_empty s = (case s of None \<Rightarrow> [] | Some t \<Rightarrow> t)"

definition proposal_of_row :: "plan_task_row \<Rightarrow> plan_task_proposal" where
  "proposal_of_row t =
     \<lparr>task_key = pt_task_key t, title = pt_title t, description = or_empty (pt_description t),
      rationale = or_empty (pt_rationale t), target_files = pt_target_files t,
      dependencies = pt_dependencies t, acceptance_criteria = pt_acceptance_criteria t,
      suggested_tests = pt_suggested_tests t\<rparr>"

definition plan_rows :: "uuid \<Rightarrow> db \<Rightarrow> plan_task_row list" where
  "plan_rows pid d = sort_key pt_task_key (filter (\<lambda>t. pt_plan_id t = pid) (db_plan_tasks d))"

definition new_run :: "uuid \<Rightarrow> uuid \<Rightarrow> execution_snapshot \<Rightarrow> time \<Rightarrow> execution_run" where
  "new_run rid pid snapshot now =
     \<lparr>run_id = rid, run_plan_id = pid, run_status = ''pending'', run_branch_name = None,
      run_plan_snapshot = Some snapshot, run_started_at = None, run_completed_at = None,
      run_updated_at = now\<rparr>"

definition new_task :: "uuid \<Rightarrow> uuid \<Rightarrow> uuid \<Rightarrow> task_execution" where
  "new_task i rid task =
     \<lparr>te_id = i, te_execution_run_id = rid, te_plan_task_id = task, te_status = ''pending'',
      te_attempt = 1, te_output_summary = None\<rparr>"

definition insert_run :: "execution_run \<Rightarrow> db \<Rightarrow> service_error + db" where
  "insert_run r d =
     (if run_id r \<in> run_id ` set (db_runs d) then Inl IntegrityError
      else Inr (d\<lparr>db_runs := db_runs d @ [r]\<rparr>))"

definition insert_tasks :: "task_execution list \<Rightarrow> db \<Rightarrow> service_error + db" where
  "insert_tasks ts d =
     (if distinct (map te_id (db_task_executions d @ ts))
      then Inr (d\<lparr>db_task_executions := db_task_executions d @ ts\<rparr>)
      else Inl IntegrityError)"

text \<open>
  \<open>fresh\<close> supplies the identifiers the defaults of the columns generate, \<open>fresh 0\<close> for the run
  and \<open>fresh (Suc i)\<close> for its \<open>i\<close>-th task.
\<close>

definition create :: "uuid \<Rightarrow> uuid option \<Rightarrow> (nat \<Rightarrow> uuid) \<Rightarrow> time \<Rightarrow> db \<Rightarrow> service_error + db \<times> uuid" where
  "create pid identifier fresh now d =
     bindE (someE RecordNotFound (fetch plan_id pid (db_plans d))) (\<lambda>plan.
     let rows = plan_rows pid d in
     case validate_plan \<lparr>plan_summary = or_empty (plan_row_summary plan),
                         plan_tasks = map proposal_of_row rows\<rparr> of
       Inl _ \<Rightarrow> Inl (InvalidExecutionPlan ''invalid_execution_plan'')
     | Inr proposal \<Rightarrow>
       (case validate_snapshot \<lparr>snap_proposal = proposal,
              snap_task_ids = map (\<lambda>t. (pt_task_key t, pt_id t)) rows\<rparr> of
          Inl _ \<Rightarrow> Inl (ValueError ''execution_snapshot'')
        | Inr snapshot \<Rightarrow>
          let rid = (case identifier of Some i \<Rightarrow> i | None \<Rightarrow> fresh 0) in
          bindE (insert_run (new_run rid pid snapshot now) d) (\<lambda>d1.
          bindE (insert_tasks (map2 (\<lambda>i t. new_task (fresh (Suc i)) rid (pt_id t))
                                 [0..<length rows] rows) d1) (\<lambda>d2.
          Inr (d2, rid)))))"

section \<open>Loading and saving\<close>

type_synonym task_dict = "(string \<times> task_execution) list"
type_synonym loaded = "execution_run \<times> execution_snapshot \<times> task_dict"

text \<open>\<open>by_id\<close> is built in row order, so the last row wins; the rows are searched backwards.\<close>

definition load_snapshot :: "execution_run \<Rightarrow> service_error + execution_snapshot" where
  "load_snapshot run =
     (case run_plan_snapshot run of
        None \<Rightarrow> Inl (InvalidExecutionPlan ''execution_snapshot_unavailable'')
      | Some stored \<Rightarrow> (case validate_snapshot stored of
          Inl _ \<Rightarrow> Inl (InvalidExecutionPlan ''execution_snapshot_unavailable'')
        | Inr snapshot \<Rightarrow> Inr snapshot))"

definition load :: "uuid \<Rightarrow> db \<Rightarrow> service_error + loaded" where
  "load rid d =
     bindE (someE RecordNotFound (find_run rid d)) (\<lambda>run.
     bindE (load_snapshot run) (\<lambda>snapshot.
     let records = run_tasks rid d;
         ids = snap_task_ids snapshot in
     bindE (requireE (InvalidTransition ''execution_tasks_mismatch'')
         (length records = length ids \<and>
          te_plan_task_id ` set records = snd ` set ids \<and>
          (\<forall>r \<in> set records. te_attempt r = 1))) (\<lambda>_.
     Inr (run, snapshot,
       map (\<lambda>(key, v). (key, the (fetch te_plan_task_id v (rev records)))) ids))))"

lemma load_snapshot_Inr:
  "load_snapshot run = Inr s \<longleftrightarrow>
    (\<exists>s0. run_plan_snapshot run = Some s0 \<and> validate_snapshot s0 = Inr s)"
  by (auto simp: load_snapshot_def split: option.splits sum.splits)

definition save :: "time \<Rightarrow> execution_run \<Rightarrow> task_dict \<Rightarrow> db \<Rightarrow> db" where
  "save now run ts d = save_run now run (save_tasks (map snd ts) d)"

section \<open>Advancing a run\<close>

definition statuses :: "task_dict \<Rightarrow> (string \<times> string) list" where
  "statuses ts = map (\<lambda>(k, t). (k, te_status t)) ts"

definition apply_states :: "(string \<times> string) list \<Rightarrow> task_dict \<Rightarrow> service_error + task_dict" where
  "apply_states states ts =
     mapE (\<lambda>(k, t). bindE (task_state t (state_of states k)) (\<lambda>t'. Inr (k, t'))) ts"

definition snapshot_dag :: "execution_snapshot \<Rightarrow> dag" where
  "snapshot_dag s = dependency_map (plan_tasks (snap_proposal s))"

definition advance_run ::
  "time \<Rightarrow> execution_run \<Rightarrow> execution_snapshot \<Rightarrow> task_dict \<Rightarrow>
    service_error + execution_run \<times> task_dict" where
  "advance_run now run snapshot ts =
     (if run_status run \<in> {''failed'', ''cancelled''} then Inr (run, ts)
      else bindE (advance (snapshot_dag snapshot) (statuses ts)) (\<lambda>states.
        bindE (apply_states states ts) (\<lambda>ts'.
        let run1 = (if run_started_at run = None then run\<lparr>run_started_at := Some now\<rparr> else run) in
        if \<forall>s \<in> snd ` set states. s \<in> set TERMINAL
        then bindE (execution_state run1
                (if \<forall>s \<in> snd ` set states. s = ''completed'' then ''completed'' else ''failed''))
              (\<lambda>run2. Inr (if run_completed_at run2 = None
                           then run2\<lparr>run_completed_at := Some now\<rparr> else run2, ts'))
        else bindE (execution_state run1 ''running'') (\<lambda>run2. Inr (run2, ts')))))"

definition response ::
  "execution_run \<Rightarrow> execution_snapshot \<Rightarrow> task_dict \<Rightarrow> service_error + execution_response" where
  "response run snapshot ts =
     (case plan_order (snap_proposal snapshot) of
        Inl e \<Rightarrow> Inl (ValueError e)
      | Inr order \<Rightarrow> Inr
          \<lparr>er_id = run_id run, er_plan_id = run_plan_id run, er_status = run_status run,
           er_started_at = run_started_at run, er_completed_at = run_completed_at run,
           er_tasks = map (\<lambda>key. let t = the (map_of ts key) in
             \<lparr>ter_id = te_id t, ter_plan_task_id = te_plan_task_id t, ter_task_key = key,
              ter_dependencies = parents_of (snapshot_dag snapshot) key,
              ter_status = te_status t, ter_attempt = te_attempt t,
              ter_output_summary = te_output_summary t\<rparr>) order\<rparr>)"

section \<open>Reconciling and moving tasks\<close>

definition reconcile :: "uuid \<Rightarrow> time \<Rightarrow> db \<Rightarrow> service_error + db \<times> execution_response" where
  "reconcile rid now d =
     bindE (load rid d) (\<lambda>(run, snapshot, ts).
     bindE (advance_run now run snapshot ts) (\<lambda>(run', ts').
     bindE (response run' snapshot ts') (\<lambda>resp. Inr (save now run' ts' d, resp))))"

text \<open>\<open>next((task for task in tasks.values() if task.id == task_id), None)\<close>.\<close>

definition find_task :: "uuid \<Rightarrow> task_dict \<Rightarrow> (string \<times> task_execution) option" where
  "find_task tid ts = List.find (\<lambda>(k, t). te_id t = tid) ts"

text \<open>\<open>text[:4000] if text else None\<close>.\<close>

definition clip_summary :: "string option \<Rightarrow> string option" where
  "clip_summary s = (case s of None \<Rightarrow> None | Some t \<Rightarrow> if t = [] then None else Some (take 4000 t))"

text \<open>The end of \<open>transition\<close>, when the task really moves.\<close>

definition move_task ::
  "time \<Rightarrow> loaded \<Rightarrow> string \<Rightarrow> task_execution \<Rightarrow> string \<Rightarrow> string option \<Rightarrow> db \<Rightarrow> service_error + db \<times> bool" where
  "move_task now loaded key target status summary d =
     (case loaded of (run, snapshot, ts) \<Rightarrow>
      bindE (task_state target status) (\<lambda>t1.
      bindE (advance_run now run snapshot
              (aset key (t1\<lparr>te_output_summary := clip_summary summary\<rparr>) ts)) (\<lambda>(run', ts').
      Inr (save now run' ts' d, True))))"

definition transition ::
  "uuid \<Rightarrow> uuid \<Rightarrow> string \<Rightarrow> string option \<Rightarrow> time \<Rightarrow> db \<Rightarrow> service_error + db \<times> bool" where
  "transition rid tid status summary now d =
     (if status \<notin> {''running'', ''completed'', ''failed''}
      then Inl (InvalidTransition ''unsupported_transition'')
      else bindE (load rid d) (\<lambda>(run, snapshot, ts).
        bindE (someE RecordNotFound (find_task tid ts)) (\<lambda>(key, target).
        if te_status target = status then Inr (d, False)
        else if status = ''running'' \<and>
                te_status target \<in> {''running'', ''completed'', ''failed'', ''blocked''}
        then Inr (d, False)
        else if te_status target \<noteq> (if status = ''running'' then ''queued'' else ''running'')
        then Inl (InvalidTransition ''invalid_task_transition'')
        else move_task now (run, snapshot, ts) key target status summary d)))"

section \<open>Stopping a run\<close>

definition running_agents :: "uuid \<Rightarrow> db \<Rightarrow> agent_run list" where
  "running_agents rid d =
     filter (\<lambda>a. ar_execution_run_id a = rid \<and> ar_status a = ''running'') (db_agent_runs d)"

definition stop_agent :: "string \<Rightarrow> time \<Rightarrow> agent_run \<Rightarrow> service_error + agent_run" where
  "stop_agent reason now a =
     bindE (agent_state a ''failed'') (\<lambda>a1. Inr (a1
       \<lparr>ar_completed_at := Some now,
        ar_output_metadata := (ar_output_metadata a1)(''error_code'' \<mapsto> JStr reason)\<rparr>))"

definition stop_task :: "bool \<Rightarrow> string \<Rightarrow> task_execution \<Rightarrow> service_error + task_execution" where
  "stop_task cancelled reason t =
     (if te_status t \<notin> set TERMINAL \<union> {''cancelled''}
      then bindE (task_state t (if te_status t = ''running'' then ''failed''
                                else if cancelled then ''cancelled'' else ''blocked''))
             (\<lambda>t1. Inr (t1\<lparr>te_output_summary := Some reason\<rparr>))
      else Inr t)"

definition finished_run :: "string \<Rightarrow> bool" where
  "finished_run s \<longleftrightarrow> s \<in> {''completed'', ''failed'', ''cancelled''}"

text \<open>The end of \<open>stop_locked\<close>, when there is something to stop.\<close>

definition stop_unfinished ::
  "bool \<Rightarrow> string \<Rightarrow> time \<Rightarrow> execution_run \<Rightarrow> agent_run list \<Rightarrow> task_dict \<Rightarrow> db \<Rightarrow> service_error + db" where
  "stop_unfinished cancelled reason now run agents ts d =
     bindE (mapE (stop_agent reason now) agents) (\<lambda>agents'.
     bindE (mapE (\<lambda>(k, t). bindE (stop_task cancelled reason t) (\<lambda>t'. Inr (k, t'))) ts) (\<lambda>ts'.
     bindE (if finished_run (run_status run) then Inr run
            else bindE (execution_state run (if cancelled then ''cancelled'' else ''failed''))
                   (\<lambda>r. Inr (r\<lparr>run_completed_at := Some now\<rparr>))) (\<lambda>run'.
     Inr (save now run' ts' (d\<lparr>db_agent_runs := put_all ar_id agents' (db_agent_runs d)\<rparr>)))))"

definition stop_locked :: "uuid \<Rightarrow> bool \<Rightarrow> time \<Rightarrow> db \<Rightarrow> service_error + db" where
  "stop_locked rid cancelled now d =
     bindE (load rid d) (\<lambda>(run, snapshot, ts).
     let agents = running_agents rid d;
         reason = (if cancelled then ''execution_cancelled'' else ''worker_interrupted'')
     in if cancelled \<and> (agents \<noteq> [] \<or> (\<exists>t \<in> snd ` set ts. te_status t = ''running''))
        then Inl (InvalidTransition ''execution_busy'')
        else if finished_run (run_status run) \<and> (cancelled \<or> agents = []) then Inr d
        else stop_unfinished cancelled reason now run agents ts d)"

text \<open>\<open>get\<close> and \<open>cancel\<close>; \<open>cancel\<close> reads the run back in a second transaction.\<close>

definition get :: "uuid \<Rightarrow> db \<Rightarrow> service_error + execution_response" where
  "get rid d = bindE (load rid d) (\<lambda>(run, snapshot, ts). response run snapshot ts)"

definition cancel :: "uuid \<Rightarrow> time \<Rightarrow> db \<Rightarrow> service_error + db" where
  "cancel rid now d = stop_locked rid True now d"

section \<open>Recovery of stale runs\<close>

definition stale_agents :: "uuid \<Rightarrow> time \<Rightarrow> db \<Rightarrow> agent_run list" where
  "stale_agents rid cutoff d = filter
     (\<lambda>a. case ar_started_at a of None \<Rightarrow> False | Some t \<Rightarrow> t < cutoff) (running_agents rid d)"

definition recent_agents :: "uuid \<Rightarrow> time \<Rightarrow> db \<Rightarrow> agent_run list" where
  "recent_agents rid cutoff d = filter
     (\<lambda>a. case ar_started_at a of None \<Rightarrow> False | Some t \<Rightarrow> cutoff \<le> t) (running_agents rid d)"

text \<open>
  The candidates: runs not updated since the cutoff that are pending or running, and runs with an
  agent running since before it. Rows another transaction has locked are skipped.
\<close>

definition stale_runs :: "time \<Rightarrow> uuid list \<Rightarrow> db \<Rightarrow> uuid list" where
  "stale_runs cutoff locked d =
     take 100 (filter (\<lambda>i. i \<notin> set locked) (map run_id (filter (\<lambda>r.
       run_status r \<in> {''pending'', ''running''} \<and> run_updated_at r < cutoff
       \<or> stale_agents (run_id r) cutoff d \<noteq> []) (db_runs d))))"

definition recover_one :: "time \<Rightarrow> time \<Rightarrow> uuid \<Rightarrow> db \<times> nat \<Rightarrow> service_error + db \<times> nat" where
  "recover_one cutoff now rid st = (case st of (d, recovered) \<Rightarrow>
     bindE (load rid d) (\<lambda>(_, _, ts).
     if (\<forall>t \<in> snd ` set ts. te_status t \<noteq> ''running'') \<and> stale_agents rid cutoff d = []
     then Inr (d, recovered)
     else if recent_agents rid cutoff d = []
     then bindE (stop_locked rid False now d) (\<lambda>d'. Inr (d', Suc recovered))
     else Inr (d, recovered)))"

definition recover_stale :: "int \<Rightarrow> uuid list \<Rightarrow> time \<Rightarrow> db \<Rightarrow> service_error + db \<times> nat" where
  "recover_stale secs locked now d =
     (let cutoff = now - seconds secs
      in foldE (recover_one cutoff now) (stale_runs cutoff locked d) (d, 0))"

definition active_ids :: "uuid option \<Rightarrow> nat \<Rightarrow> db \<Rightarrow> uuid list" where
  "active_ids after limit d =
     take limit (sort (map run_id (filter (\<lambda>r.
       run_status r \<in> {''pending'', ''running''} \<and> run_plan_snapshot r \<noteq> None \<and>
       (case after of None \<Rightarrow> True | Some i \<Rightarrow> i < run_id r)) (db_runs d))))"

end
