(* ===== verification/Run_Invariant.thy ===== *)
theory Run_Invariant
  imports Transitions
begin

text \<open>
  The invariant of a run over the states of its tasks, independent of how they are stored: no
  task starts before its prerequisites completed, and the status of the run agrees with the
  states of its tasks. Three groups of lemmas show what keeps it: the movement of one task, the
  scheduling rule \<open>advance\<close>, and the end of a run.
\<close>

section \<open>The invariant\<close>

definition started :: "string \<Rightarrow> bool" where
  "started s \<longleftrightarrow> s \<in> {''queued'', ''running'', ''completed'', ''failed''}"

definition deps_respected :: "dag \<Rightarrow> (string \<Rightarrow> string) \<Rightarrow> bool" where
  "deps_respected d f \<longleftrightarrow>
     (\<forall>k \<in> fst ` set d. started (f k) \<longrightarrow> (\<forall>p \<in> set (parents_of d k). f p = ''completed''))"

definition agrees :: "string \<Rightarrow> string \<Rightarrow> bool" where
  "agrees run task \<longleftrightarrow>
     (if run = ''pending'' then task = ''pending''
      else if run = ''running'' then task \<in> set (known TASK_EDGES) - {''cancelled''}
      else if run = ''completed'' then task = ''completed''
      else if run = ''failed'' then task \<in> set TERMINAL
      else run = ''cancelled'' \<and> task \<in> set TERMINAL \<union> {''cancelled''})"

definition run_inv :: "string \<Rightarrow> dag \<Rightarrow> (string \<Rightarrow> string) \<Rightarrow> bool" where
  "run_inv run d f \<longleftrightarrow> deps_respected d f \<and> (\<forall>k \<in> fst ` set d. agrees run (f k))"

lemma agrees_known: "agrees run task \<Longrightarrow> task \<in> set (known TASK_EDGES)"
  by (auto simp: agrees_def task_known split: if_splits)

lemma run_inv_started:
  "run_inv run d f \<Longrightarrow> k \<in> fst ` set d \<Longrightarrow> started (f k) \<Longrightarrow> p \<in> set (parents_of d k) \<Longrightarrow>
    f p = ''completed''"
  unfolding run_inv_def deps_respected_def by blast

lemma run_inv_agrees: "run_inv run d f \<Longrightarrow> k \<in> fst ` set d \<Longrightarrow> agrees run (f k)"
  unfolding run_inv_def by blast

lemma run_inv_cong:
  assumes "run_inv run d f" and "\<And>k. k \<in> fst ` set d \<Longrightarrow> g k = f k"
    and "\<And>k. k \<in> fst ` set d \<Longrightarrow> set (parents_of d k) \<subseteq> fst ` set d"
  shows "run_inv run d g"
  unfolding run_inv_def deps_respected_def
proof (intro conjI ballI impI)
  fix k assume k: "k \<in> fst ` set d"
  with assms(1,2) show "agrees run (g k)" by (simp add: run_inv_agrees)
  fix p assume "started (g k)" and "p \<in> set (parents_of d k)"
  moreover from this k assms(3) have "p \<in> fst ` set d" by blast
  ultimately show "g p = ''completed''"
    using k assms(1,2) run_inv_started by metis
qed

section \<open>The movement of one task\<close>

lemma agrees_move:
  assumes "agrees run s" and "t = s \<or> t \<in> set (successors TASK_EDGES s)"
    and "t \<in> {''running'', ''completed'', ''failed''}"
  shows "agrees run t" and "t \<noteq> s \<Longrightarrow> run = ''running''" and "t \<noteq> s \<Longrightarrow> started s"
    and "s = ''completed'' \<Longrightarrow> t = ''completed''"
  using assms
  by (auto simp: agrees_def task_successors task_known started_def split: if_splits)

lemma run_inv_move:
  assumes inv: "run_inv run d f" and k: "k \<in> fst ` set d"
    and t: "t = f k \<or> t \<in> set (successors TASK_EDGES (f k))"
    and to: "t \<in> {''running'', ''completed'', ''failed''}"
  shows "run_inv run d (f(k := t))"
proof -
  note mv = agrees_move [OF run_inv_agrees [OF inv k] t to]
  have "started (f k)" if "started t"
    using mv(3) that by (cases "t = f k") auto
  then have "(f(k := t)) p = ''completed''"
    if "k' \<in> fst ` set d" and "started ((f(k := t)) k')" and "p \<in> set (parents_of d k')" for k' p
    using that mv(4) run_inv_started [OF inv that(1), of p] by (auto split: if_splits)
  then have "deps_respected d (f(k := t))" unfolding deps_respected_def by blast
  moreover have "agrees run ((f(k := t)) k')" if "k' \<in> fst ` set d" for k'
    using run_inv_agrees [OF inv that] mv(1) by simp
  ultimately show ?thesis by (simp add: run_inv_def)
qed

section \<open>The scheduling rule\<close>

lemma parents_in:
  assumes "execution_order d = Inr ks" and "k \<in> fst ` set d"
  shows "set (parents_of d k) \<subseteq> fst ` set d"
proof -
  from assms(2) obtain ps where ps: "map_of d k = Some ps"
    by (metis domD dom_map_of_conv_image_fst)
  then have "(k, ps) \<in> set d" by (rule map_of_SomeD)
  with assms(1) have "entry_error d (k, ps) = None" by (auto simp: execution_order_Inr)
  with ps show ?thesis by (auto simp: parents_of_def entry_error_def split: if_splits)
qed

text \<open>The status \<open>_advance\<close> gives the run, when the run is not already failed or cancelled.\<close>

definition next_run :: "dag \<Rightarrow> (string \<Rightarrow> string) \<Rightarrow> string" where
  "next_run d f =
     (if \<forall>k \<in> fst ` set d. f k \<in> set TERMINAL
      then if \<forall>k \<in> fst ` set d. f k = ''completed'' then ''completed'' else ''failed''
      else ''running'')"

lemma advance_parents:
  assumes "advance d st = Inr st'" and "k \<in> fst ` set d"
  shows "set (parents_of d k) \<subseteq> fst ` set d"
proof -
  from assms(1) obtain ks where "execution_order d = Inr ks" by (auto simp: advance_Inr)
  then show ?thesis using assms(2) by (rule parents_in)
qed

lemma run_inv_advance:
  assumes dist: "distinct (map fst d)" and adv: "advance d st = Inr st'"
    and inv: "run_inv run d (state_of st)" and run: "run \<notin> {''failed'', ''cancelled''}"
  shows "run_inv (next_run d (state_of st')) d (state_of st')"
proof -
  note settled = advance_settle [OF dist adv]
  have parents: "set (parents_of d k) \<subseteq> fst ` set d" if "k \<in> fst ` set d" for k
    using adv that by (rule advance_parents)
  have agree: "state_of st k \<in> set (known TASK_EDGES) - {''cancelled''}" if "k \<in> fst ` set d" for k
    using run_inv_agrees [OF inv that] run
    by (auto simp: agrees_def task_known split: if_splits)
  have "deps_respected d (state_of st')"
    unfolding deps_respected_def
  proof (intro ballI impI)
    fix k p
    assume k: "k \<in> fst ` set d" and st: "started (state_of st' k)" and p: "p \<in> set (parents_of d k)"
    show "state_of st' p = ''completed''"
    proof (cases "state_of st k = ''pending''")
      case True
      with st settled [OF k] have "\<forall>x \<in> set (map (state_of st') (parents_of d k)). x = ''completed''"
        by (auto simp: settle_def started_def split: if_splits)
      with p show ?thesis by simp
    next
      case False
      with settled [OF k] have "state_of st' k = state_of st k" by (simp add: settle_def)
      with st k p inv have "state_of st p = ''completed''" by (auto intro: run_inv_started)
      with settled [of p] parents [OF k] p show ?thesis by (auto simp: settle_def)
    qed
  qed
  moreover have "agrees (next_run d (state_of st')) (state_of st' k)" if k: "k \<in> fst ` set d" for k
  proof -
    have "state_of st' k \<in> set (known TASK_EDGES) - {''cancelled''}"
      using agree [OF k] settled [OF k] by (auto simp: settle_def task_known split: if_splits)
    with k show ?thesis by (auto simp: next_run_def agrees_def)
  qed
  ultimately show ?thesis by (simp add: run_inv_def)
qed

text \<open>
  No run is stuck: the rule leaves a task that is queued or running unless all have ended. The
  first pending task of the execution order would have only ended prerequisites.
\<close>

lemma advance_not_stuck:
  assumes dist: "distinct (map fst d)" and adv: "advance d st = Inr st'"
    and known: "\<forall>k \<in> fst ` set d. state_of st k \<in> set (known TASK_EDGES) - {''cancelled''}"
    and open_task: "\<exists>k \<in> fst ` set d. state_of st' k \<notin> set TERMINAL"
  shows "\<exists>k \<in> fst ` set d. state_of st' k \<in> {''queued'', ''running''}"
proof (rule ccontr)
  assume none: "\<not> (\<exists>k \<in> fst ` set d. state_of st' k \<in> {''queued'', ''running''})"
  from adv obtain ks where ks: "execution_order d = Inr ks" by (auto simp: advance_Inr)
  note settled = advance_settle [OF dist adv]
  have ended: "state_of st' k \<in> set TERMINAL"
    if k: "k \<in> fst ` set d" and p: "\<forall>p \<in> set (parents_of d k). state_of st' p \<in> set TERMINAL" for k
  proof -
    have "state_of st' k \<notin> {''queued'', ''running''}"
      and "state_of st k \<in> set (known TASK_EDGES) - {''cancelled''}"
      using none known k by blast+
    with p settled [OF k] show ?thesis
      by (auto simp: settle_def task_known split: if_splits) force+
  qed
  have "ordered_after d seen xs \<Longrightarrow> set xs \<subseteq> fst ` set d \<Longrightarrow>
      (\<forall>p \<in> seen. state_of st' p \<in> set TERMINAL) \<Longrightarrow> \<forall>k \<in> set xs. state_of st' k \<in> set TERMINAL"
    for seen xs
  proof (induction xs arbitrary: seen)
    case Nil
    then show ?case by simp
  next
    case (Cons x xs)
    then have x: "x \<in> fst ` set d" by simp
    with Cons.prems have "state_of st' x \<in> set TERMINAL"
      by (intro ended) (meson parents_ordered subsetD)+
    with Cons show ?case by (metis insert_iff list.set(2) ordered_after.simps(2)
          subset_insertI subset_trans)
  qed
  then have "\<forall>k \<in> set ks. state_of st' k \<in> set TERMINAL"
    using execution_order_ordered [OF dist ks] execution_order_set [OF ks] by blast
  with open_task execution_order_set [OF ks] show False by blast
qed

section \<open>The end of a run\<close>

definition stopped_task :: "bool \<Rightarrow> string \<Rightarrow> string" where
  "stopped_task cancelled s =
     (if s \<notin> set TERMINAL \<union> {''cancelled''}
      then if s = ''running'' then ''failed'' else if cancelled then ''cancelled'' else ''blocked''
      else s)"

lemma stopped_started: "started (stopped_task c s) \<Longrightarrow> started s"
  by (auto simp: started_def stopped_task_def split: if_splits)

lemma run_inv_stop:
  assumes inv: "run_inv run d f" and run: "run \<in> {''pending'', ''running''}"
    and parents: "\<And>k. k \<in> fst ` set d \<Longrightarrow> set (parents_of d k) \<subseteq> fst ` set d"
    and g: "\<And>k. k \<in> fst ` set d \<Longrightarrow> g k = stopped_task c (f k)"
  shows "run_inv (if c then ''cancelled'' else ''failed'') d g"
proof -
  have "deps_respected d g"
    unfolding deps_respected_def
  proof (intro ballI impI)
    fix k p
    assume k: "k \<in> fst ` set d" and "started (g k)" and p: "p \<in> set (parents_of d k)"
    then have "f p = ''completed''" using inv g stopped_started by (metis run_inv_started)
    moreover from p parents [OF k] have "g p = stopped_task c (f p)" by (intro g) blast
    ultimately show "g p = ''completed''" by (simp add: stopped_task_def)
  qed
  moreover have "agrees (if c then ''cancelled'' else ''failed'') (g k)" if k: "k \<in> fst ` set d" for k
    using run_inv_agrees [OF inv k] run g [OF k]
    by (auto simp: agrees_def stopped_task_def task_known)
  ultimately show ?thesis by (simp add: run_inv_def)
qed

text \<open>A finished run has no task left that a stop would change.\<close>

lemma agrees_finished:
  "agrees run s \<Longrightarrow> run \<in> {''completed'', ''failed'', ''cancelled''} \<Longrightarrow> stopped_task c s = s"
  by (auto simp: agrees_def stopped_task_def split: if_splits)

end
