(* ===== verification/Execution_Invariants.thy ===== *)
theory Execution_Invariants
  imports Executions Run_Invariant
begin

text \<open>
  What the operations of \<open>Executions\<close> keep: the scheduling invariant of a run (no task has
  started before its prerequisites completed, and a finished run has no unfinished task) and its
  lifting to the database. The reload lemma \<open>load_save\<close> is shared by every service that loads a
  run, changes it and saves it.
\<close>

section \<open>What a successful load says\<close>

lemma distinct_if_card:
  "f ` set xs = S \<Longrightarrow> card S = length xs \<Longrightarrow> distinct (map f xs)"
  by (metis card_distinct length_map list.set_map)

definition loaded_from :: "uuid \<Rightarrow> db \<Rightarrow> execution_run \<Rightarrow> execution_snapshot \<Rightarrow> task_dict \<Rightarrow> bool" where
  "loaded_from rid d run s ts \<longleftrightarrow>
     find_run rid d = Some run \<and>
     (\<exists>s0. run_plan_snapshot run = Some s0 \<and> validate_snapshot s0 = Inr s) \<and>
     set (run_tasks rid d) = snd ` set ts \<and> length (run_tasks rid d) = length ts \<and>
     map (\<lambda>(k, t). (k, te_plan_task_id t)) ts = snap_task_ids s \<and>
     (\<forall>t \<in> snd ` set ts. te_attempt t = 1)"

lemma loaded_ids:
  assumes "loaded_from rid d run s ts"
  shows "map te_plan_task_id (map snd ts) = map snd (snap_task_ids s)"
    and "map fst ts = map fst (snap_task_ids s)"
    and "distinct (map te_plan_task_id (map snd ts))"
proof -
  from assms have eq: "map (\<lambda>(k, t). (k, te_plan_task_id t)) ts = snap_task_ids s"
    by (simp add: loaded_from_def)
  show ids: "map te_plan_task_id (map snd ts) = map snd (snap_task_ids s)"
    unfolding eq [symmetric] by (simp add: comp_def case_prod_unfold)
  show "map fst ts = map fst (snap_task_ids s)"
    unfolding eq [symmetric] by (simp add: comp_def case_prod_unfold)
  from assms have "distinct (map snd (snap_task_ids s))"
    by (auto simp: loaded_from_def validate_snapshot_Inr)
  with ids show "distinct (map te_plan_task_id (map snd ts))" by simp
qed

lemma loaded_distinct_rows:
  assumes "loaded_from rid d run s ts"
  shows "distinct (map te_plan_task_id (run_tasks rid d))"
proof (rule distinct_if_card [OF refl])
  have "te_plan_task_id ` set (run_tasks rid d) = set (map te_plan_task_id (map snd ts))"
    using assms by (simp add: loaded_from_def image_image)
  then have "card (te_plan_task_id ` set (run_tasks rid d)) = length (map te_plan_task_id (map snd ts))"
    using loaded_ids(3) [OF assms] by (metis distinct_card)
  then show "card (te_plan_task_id ` set (run_tasks rid d)) = length (run_tasks rid d)"
    using assms by (simp add: loaded_from_def)
qed

lemma load_iff: "load rid d = Inr (run, s, ts) \<longleftrightarrow> loaded_from rid d run s ts"
proof
  assume "load rid d = Inr (run, s, ts)"
  then obtain s0 where run: "find_run rid d = Some run" "run_plan_snapshot run = Some s0"
    and s: "validate_snapshot s0 = Inr s"
    and len: "length (run_tasks rid d) = length (snap_task_ids s)"
    and ids: "te_plan_task_id ` set (run_tasks rid d) = snd ` set (snap_task_ids s)"
    and att: "\<forall>r \<in> set (run_tasks rid d). te_attempt r = 1"
    and ts: "ts = map (\<lambda>(key, v). (key, the (fetch te_plan_task_id v (rev (run_tasks rid d)))))
                (snap_task_ids s)"
    by (auto simp: load_def Let_def load_snapshot_Inr)
  let ?R = "run_tasks rid d"
  have dist: "distinct (map te_plan_task_id ?R)"
  proof (rule distinct_if_card [OF ids])
    from s have "distinct (map snd (snap_task_ids s))" by (auto simp: validate_snapshot_Inr)
    then show "card (snd ` set (snap_task_ids s)) = length ?R"
      using len by (metis distinct_card length_map list.set_map)
  qed
  then have dist': "distinct (map te_plan_task_id (rev ?R))" by (simp add: rev_map [symmetric])
  have get: "\<exists>t \<in> set ?R. te_plan_task_id t = v \<and> fetch te_plan_task_id v (rev ?R) = Some t"
    if "v \<in> snd ` set (snap_task_ids s)" for v
  proof -
    from that ids obtain t where "t \<in> set ?R" "te_plan_task_id t = v" by (metis imageE)
    with fetch_distinct [OF dist', of t] show ?thesis by auto
  qed
  have "map (\<lambda>(k, t). (k, te_plan_task_id t)) ts = snap_task_ids s"
    unfolding ts map_map by (rule map_idI) (use get in \<open>fastforce\<close>)
  moreover have "snd ` set ts = set ?R"
  proof
    show "snd ` set ts \<subseteq> set ?R" unfolding ts using get by fastforce
    show "set ?R \<subseteq> snd ` set ts"
    proof
      fix t assume t: "t \<in> set ?R"
      then have "te_plan_task_id t \<in> snd ` set (snap_task_ids s)" using ids by blast
      then obtain k where "(k, te_plan_task_id t) \<in> set (snap_task_ids s)" by auto
      moreover have "fetch te_plan_task_id (te_plan_task_id t) (rev ?R) = Some t"
        using fetch_distinct [OF dist', of t] t by simp
      ultimately show "t \<in> snd ` set ts" unfolding ts by force
    qed
  qed
  moreover have "length ts = length ?R" using len ts by simp
  ultimately show "loaded_from rid d run s ts" using run s att by (auto simp: loaded_from_def)
next
  assume l: "loaded_from rid d run s ts"
  let ?R = "run_tasks rid d"
  from l obtain s0 where run: "find_run rid d = Some run" "run_plan_snapshot run = Some s0"
    and s: "validate_snapshot s0 = Inr s" and set: "set ?R = snd ` set ts"
    and len: "length ?R = length ts"
    and eq: "map (\<lambda>(k, t). (k, te_plan_task_id t)) ts = snap_task_ids s"
    and att: "\<forall>t \<in> snd ` set ts. te_attempt t = 1"
    by (auto simp: loaded_from_def)
  have dist': "distinct (map te_plan_task_id (rev ?R))"
    using loaded_distinct_rows [OF l] by (simp add: rev_map [symmetric])
  have ids: "te_plan_task_id ` set ?R = snd ` set (snap_task_ids s)"
    unfolding set eq [symmetric] by (force simp: image_image case_prod_unfold)
  have len': "length ?R = length (snap_task_ids s)" using len eq by (metis length_map)
  have "map (\<lambda>(key, v). (key, the (fetch te_plan_task_id v (rev ?R)))) (snap_task_ids s) = ts"
    unfolding eq [symmetric] map_map
  proof (rule map_idI)
    fix e assume e: "e \<in> set ts"
    obtain k t where kt: "e = (k, t)" by (cases e)
    with e set have "t \<in> set (rev ?R)" by force
    with fetch_distinct [OF dist', of t]
    show "((\<lambda>(key, v). (key, the (fetch te_plan_task_id v (rev ?R)))) \<circ>
        (\<lambda>(k, t). (k, te_plan_task_id t))) e = e"
      by (simp add: kt)
  qed
  with run s ids len' att set show "load rid d = Inr (run, s, ts)"
    by (auto simp: load_def Let_def load_snapshot_Inr)
qed

lemma load_run_id: "load rid d = Inr (run, s, ts) \<Longrightarrow> run_id run = rid"
  by (auto simp: load_iff loaded_from_def find_run_def dest: fetch_key)

lemma load_task_in:
  "load rid d = Inr (run, s, ts) \<Longrightarrow> (k, t) \<in> set ts \<Longrightarrow>
    t \<in> set (db_task_executions d) \<and> te_execution_run_id t = rid"
proof -
  assume "load rid d = Inr (run, s, ts)" and kt: "(k, t) \<in> set ts"
  then have "snd ` set ts = set (run_tasks rid d)" by (simp add: load_iff loaded_from_def)
  with kt have "t \<in> set (run_tasks rid d)" by force
  then show ?thesis by (simp add: run_tasks_def)
qed

lemma load_keys: "load rid d = Inr (run, s, ts) \<Longrightarrow> map fst ts = map fst (snap_task_ids s)"
  by (auto simp: load_iff dest: loaded_ids)

lemma load_valid_plan:
  assumes "load rid d = Inr (run, s, ts)"
  shows "validate_plan (snap_proposal s) = Inr (snap_proposal s)"
    and "fst ` set (snap_task_ids s) = fst ` set (snapshot_dag s)"
    and "distinct (map fst (snapshot_dag s))"
proof -
  from assms obtain s0 where "validate_snapshot s0 = Inr s" by (auto simp: load_iff loaded_from_def)
  from validate_snapshot_Inr [THEN iffD1, OF this]
  obtain p where p: "validate_plan (snap_proposal s0) = Inr p" and s: "s = s0\<lparr>snap_proposal := p\<rparr>"
    and ids: "fst ` set (snap_task_ids s0) = task_key ` set (plan_tasks p)"
    by (elim exE conjE)
  from p show "validate_plan (snap_proposal s) = Inr (snap_proposal s)"
    by (simp add: s validate_plan_idem)
  then show "distinct (map fst (snapshot_dag s))"
    unfolding snapshot_dag_def map_fst_dependency_map by (rule valid_plan_distinct)
  show "fst ` set (snap_task_ids s) = fst ` set (snapshot_dag s)"
    unfolding snapshot_dag_def fst_dependency_map using ids by (simp add: s)
qed

lemma load_fst_dag: "load rid d = Inr (run, s, ts) \<Longrightarrow> fst ` set ts = fst ` set (snapshot_dag s)"
  by (metis list.set_map load_keys load_valid_plan(2))

section \<open>Saving and loading again\<close>

definition same_task :: "task_execution \<Rightarrow> task_execution \<Rightarrow> bool" where
  "same_task t t' \<longleftrightarrow> te_id t' = te_id t \<and> te_execution_run_id t' = te_execution_run_id t \<and>
     te_plan_task_id t' = te_plan_task_id t \<and> te_attempt t' = te_attempt t"

definition same_tasks :: "task_dict \<Rightarrow> task_dict \<Rightarrow> bool" where
  "same_tasks = list_all2 (\<lambda>(k, t) (k', t'). k' = k \<and> same_task t t')"

definition same_run :: "execution_run \<Rightarrow> execution_run \<Rightarrow> bool" where
  "same_run r r' \<longleftrightarrow> run_id r' = run_id r \<and> run_plan_snapshot r' = run_plan_snapshot r \<and>
     run_plan_id r' = run_plan_id r"

lemma same_task_refl [simp]: "same_task t t"
  by (simp add: same_task_def)

lemma same_run_refl [simp]: "same_run r r"
  by (simp add: same_run_def)

lemma same_run_trans: "same_run a b \<Longrightarrow> same_run b c \<Longrightarrow> same_run a c"
  by (simp add: same_run_def)

lemma same_tasks_refl [simp]: "same_tasks ts ts"
  by (auto simp: same_tasks_def intro: list.rel_refl_strong)

lemma same_tasks_trans: "same_tasks a b \<Longrightarrow> same_tasks b c \<Longrightarrow> same_tasks a c"
  unfolding same_tasks_def
  by (rule list_all2_trans [where ?P1.0 = "\<lambda>(k, t) (k', t'). k' = k \<and> same_task t t'"])
    (auto simp: same_task_def)

lemma same_tasks_proj:
  "same_tasks ts ts' \<Longrightarrow> map fst ts' = map fst ts \<and> map te_id (map snd ts') = map te_id (map snd ts) \<and>
    map (\<lambda>(k, t). (k, te_plan_task_id t)) ts' = map (\<lambda>(k, t). (k, te_plan_task_id t)) ts \<and>
    map te_execution_run_id (map snd ts') = map te_execution_run_id (map snd ts) \<and>
    map te_attempt (map snd ts') = map te_attempt (map snd ts)"
  unfolding same_tasks_def by (induction rule: list_all2_induct) (auto simp: same_task_def)

lemma same_tasks_aset:
  assumes "distinct (map fst ts)" and "(k, t) \<in> set ts" and "same_task t t'"
  shows "same_tasks ts (aset k t' ts)"
  unfolding same_tasks_def aset_def list_all2_map2
  using assms by (intro list.rel_refl_strong)
    (auto split: if_splits dest: eq_key_imp_eq_value)

text \<open>Writing rows back is a map over the table, and loading commutes with such a map.\<close>

definition overwrite :: "('r \<Rightarrow> uuid) \<Rightarrow> 'r list \<Rightarrow> 'r \<Rightarrow> 'r" where
  "overwrite key rs x = (case fetch key (key x) rs of None \<Rightarrow> x | Some r \<Rightarrow> r)"

lemma overwrite_notin: "key x \<notin> key ` set rs \<Longrightarrow> overwrite key rs x = x"
  by (simp add: overwrite_def)

lemma key_overwrite [simp]: "key (overwrite key rs x) = key x"
  by (auto simp: overwrite_def split: option.splits dest: fetch_key)

lemma put_all_overwrite: "distinct (map key rs) \<Longrightarrow> put_all key rs rows = map (overwrite key rs) rows"
proof (induction rs arbitrary: rows)
  case Nil
  then show ?case by (simp add: overwrite_def)
next
  case (Cons r rs)
  then have "put_all key (r # rs) rows = map (overwrite key rs) (put key r rows)" by simp
  also have "\<dots> = map (overwrite key (r # rs)) rows"
    unfolding put_def map_map using Cons.prems by (auto simp: overwrite_def)
  finally show ?case .
qed

lemma put_overwrite: "put key r rows = map (overwrite key [r]) rows"
  using put_all_overwrite [of key "[r]" rows] by simp

lemma fetch_map:
  "(\<And>x. x \<in> set rows \<Longrightarrow> key (f x) = key x) \<Longrightarrow>
    fetch key i (map f rows) = map_option f (fetch key i rows)"
  by (induction rows) auto

definition task_update :: "(task_execution \<Rightarrow> task_execution) \<Rightarrow> db \<Rightarrow> db" where
  "task_update f d = d\<lparr>db_task_executions := map f (db_task_executions d)\<rparr>"

lemma run_tasks_update:
  "(\<And>t. t \<in> set (db_task_executions d) \<Longrightarrow> same_task t (f t)) \<Longrightarrow>
    run_tasks rid (task_update f d) = map f (run_tasks rid d)"
  by (auto simp: run_tasks_def task_update_def filter_map comp_def same_task_def
      intro!: arg_cong [where f = "map f"] filter_cong)

lemma load_task_update:
  assumes same: "\<And>t. t \<in> set (db_task_executions d) \<Longrightarrow> same_task t (f t)"
  shows "load rid (task_update f d) =
    bindE (load rid d) (\<lambda>(run, s, ts). Inr (run, s, map (apsnd f) ts))"
proof (cases "find_run rid d")
  case None
  then show ?thesis by (simp add: load_def task_update_def find_run_def)
next
  case (Some run)
  let ?R = "run_tasks rid d"
  have R: "run_tasks rid (task_update f d) = map f ?R" using same by (rule run_tasks_update)
  have S: "same_task t (f t)" if "t \<in> set ?R" for t
    using that by (auto simp: run_tasks_def intro: same)
  have run: "find_run rid (task_update f d) = Some run"
    using Some by (simp add: find_run_def task_update_def)
  have ids: "te_plan_task_id ` f ` set ?R = te_plan_task_id ` set ?R"
    unfolding image_image by (rule image_cong [OF refl]) (use S in \<open>simp add: same_task_def\<close>)
  have att: "te_attempt (f r) = te_attempt r" if "r \<in> set ?R" for r
    using S [OF that] by (simp add: same_task_def)
  have F: "fetch te_plan_task_id v (rev (map f ?R)) =
      map_option f (fetch te_plan_task_id v (rev ?R))" for v
    unfolding rev_map by (rule fetch_map) (use S in \<open>simp add: same_task_def\<close>)
  show ?thesis
  proof (cases "load_snapshot run")
    case (Inl e)
    with Some run show ?thesis by (simp add: load_def)
  next
    case (Inr s)
    have "map (\<lambda>(key, v). (key, the (fetch te_plan_task_id v (rev (map f ?R))))) (snap_task_ids s) =
        map (apsnd f) (map (\<lambda>(key, v). (key, the (fetch te_plan_task_id v (rev ?R)))) (snap_task_ids s))"
      if "te_plan_task_id ` set ?R = snd ` set (snap_task_ids s)"
      unfolding map_map
    proof (rule map_cong [OF refl])
      fix e assume "e \<in> set (snap_task_ids s)"
      with that have "snd e \<in> te_plan_task_id ` set (rev ?R)" by auto
      then have "fetch te_plan_task_id (snd e) (rev ?R) \<noteq> None" by (simp add: fetch_None)
      then show "(\<lambda>(key, v). (key, the (fetch te_plan_task_id v (rev (map f ?R))))) e =
          (apsnd f \<circ> (\<lambda>(key, v). (key, the (fetch te_plan_task_id v (rev ?R))))) e"
        unfolding F by (cases e) auto
    qed
    with Some run Inr show ?thesis
      unfolding load_def R by (simp add: Let_def ids att requireE_def)
  qed
qed

section \<open>Saving and loading again\<close>

lemma save_tasks_update:
  "distinct (map te_id ts) \<Longrightarrow> save_tasks ts d = task_update (overwrite te_id ts) d"
  by (simp add: save_tasks_def task_update_def put_all_overwrite)

lemma loaded_task_ids:
  assumes "load rid d = Inr (run, s, ts)" and "distinct (map te_id (db_task_executions d))"
  shows "distinct (map te_id (map snd ts))"
proof -
  have "distinct (map te_id (run_tasks rid d))"
    using assms(2) by (simp add: run_tasks_def distinct_map_filter)
  moreover have eq: "set (run_tasks rid d) = set (map snd ts)"
    and "length (run_tasks rid d) = length (map snd ts)"
    using assms(1) by (simp_all add: load_iff loaded_from_def)
  ultimately show ?thesis
    by (metis card_distinct distinct_card distinct_map)
qed

lemma overwrite_same:
  assumes l: "load rid d = Inr (run, s, ts)" and dist: "distinct (map te_id (db_task_executions d))"
    and same: "same_tasks ts ts'" and x: "x \<in> set (db_task_executions d)"
  shows "same_task x (overwrite te_id (map snd ts') x)"
    and "te_execution_run_id x \<noteq> rid \<Longrightarrow> overwrite te_id (map snd ts') x = x"
proof -
  have ex: "\<exists>k t. (k, t) \<in> set ts \<and> te_id t = te_id x \<and> same_task t t'"
    if f: "fetch te_id (te_id x) (map snd ts') = Some t'" for t'
  proof -
    from fetch_SomeD [OF f] obtain k where "(k, t') \<in> set ts'" and id: "te_id t' = te_id x" by auto
    then obtain i where i: "i < length ts'" "ts' ! i = (k, t')" by (metis in_set_conv_nth)
    obtain k0 t where t: "ts ! i = (k0, t)" by (cases "ts ! i")
    from same i t have "i < length ts" and "k = k0" and "same_task t t'"
      unfolding same_tasks_def by (auto simp: list_all2_conv_all_nth)
    moreover from this t have "(k, t) \<in> set ts" by (metis nth_mem)
    ultimately show ?thesis using id by (auto simp: same_task_def)
  qed
  have eq: "t = x" if "(k, t) \<in> set ts" and "te_id t = te_id x" for k t
    using that x dist load_task_in [OF l that(1)] by (metis distinct_map inj_onD)
  show "same_task x (overwrite te_id (map snd ts') x)"
    using ex eq by (fastforce simp: overwrite_def split: option.split)
  show "overwrite te_id (map snd ts') x = x" if "te_execution_run_id x \<noteq> rid"
    using ex eq that load_task_in [OF l] by (fastforce simp: overwrite_def split: option.split)
qed

lemma map_overwrite:
  assumes dist: "distinct (map te_id (map snd ts))" and same: "same_tasks ts ts'"
  shows "map (apsnd (overwrite te_id (map snd ts'))) ts = ts'"
proof (rule nth_equalityI)
  from same show len: "length (map (apsnd (overwrite te_id (map snd ts'))) ts) = length ts'"
    by (auto simp: same_tasks_def dest: list_all2_lengthD)
  fix i assume i: "i < length (map (apsnd (overwrite te_id (map snd ts'))) ts)"
  obtain k t where t: "ts ! i = (k, t)" by (cases "ts ! i")
  obtain k' t' where t': "ts' ! i = (k', t')" by (cases "ts' ! i")
  from same i t t' have st: "k' = k" "same_task t t'"
    by (auto simp: same_tasks_def list_all2_conv_all_nth)
  have "distinct (map te_id (map snd ts'))"
    using same_tasks_proj [OF same] dist by simp
  moreover from i len t' have "t' \<in> set (map snd ts')"
    by (metis image_eqI list.set_map nth_mem snd_conv)
  ultimately have "fetch te_id (te_id t') (map snd ts') = Some t'" by (rule fetch_distinct)
  with st i t t' show "map (apsnd (overwrite te_id (map snd ts'))) ts ! i = ts' ! i"
    by (simp add: overwrite_def same_task_def)
qed

lemma load_same_run:
  assumes r: "find_run rid d = Some run" and r': "find_run rid d' = Some run'"
    and "run_plan_snapshot run' = run_plan_snapshot run"
    and "db_task_executions d' = db_task_executions d"
  shows "load rid d' = bindE (load rid d) (\<lambda>(_, s, ts). Inr (run', s, ts))"
proof -
  have "run_tasks rid d' = run_tasks rid d" and "load_snapshot run' = load_snapshot run"
    using assms by (simp_all add: run_tasks_def load_snapshot_def)
  with r r' show ?thesis
    by (cases "load_snapshot run") (simp_all add: load_def Let_def requireE_def)
qed

lemma load_other:
  assumes "find_run rid d' = find_run rid d" and "run_tasks rid d' = run_tasks rid d"
  shows "load rid d' = load rid d"
  using assms by (simp add: load_def)

text \<open>
  The reload lemma: what one transaction saves is what the next one loads, up to the stamp of
  the trigger, and the other runs are untouched.
\<close>

lemma load_save:
  assumes l: "load rid d = Inr (run, s, ts)" and dist: "distinct (map te_id (db_task_executions d))"
    and run: "same_run run run'" and same: "same_tasks ts ts'"
  shows "\<exists>u. load rid (save now run' ts' d) = Inr (run'\<lparr>run_updated_at := u\<rparr>, s, ts')"
    and "i \<noteq> rid \<Longrightarrow> load i (save now run' ts' d) = load i d"
proof -
  let ?f = "overwrite te_id (map snd ts')"
  let ?d = "task_update ?f d"
  have dist': "distinct (map te_id (map snd ts'))"
    using same_tasks_proj [OF same] loaded_task_ids [OF l dist] by simp
  have save: "save now run' ts' d = save_run now run' ?d"
    unfolding save_def save_tasks_update [OF dist'] ..
  have same': "same_task t (?f t)" if "t \<in> set (db_task_executions d)" for t
    using l dist same that by (rule overwrite_same)
  have load': "load rid ?d = Inr (run, s, ts')"
    unfolding load_task_update [of d ?f, OF same', simplified] l
    using map_overwrite [OF loaded_task_ids [OF l dist] same] by simp
  have found: "find_run rid ?d = Some run" and rid: "run_id run' = rid"
    using load' run load_run_id [OF l] by (auto simp: load_iff loaded_from_def same_run_def)
  have "\<exists>u. find_run rid (save_run now run' ?d) = Some (run'\<lparr>run_updated_at := u\<rparr>)"
    using find_run_save_run [of run' ?d rid now] found rid
    by (auto intro: exI [of _ "run_updated_at run'"])
  then obtain u where "find_run rid (save_run now run' ?d) = Some (run'\<lparr>run_updated_at := u\<rparr>)" ..
  from load_same_run [OF found this] run load'
  show "\<exists>u. load rid (save now run' ts' d) = Inr (run'\<lparr>run_updated_at := u\<rparr>, s, ts')"
    by (auto simp: save same_run_def)
  assume i: "i \<noteq> rid"
  have "run_tasks i ?d = map ?f (run_tasks i d)" using same' by (rule run_tasks_update)
  also have "\<dots> = run_tasks i d"
    by (rule map_idI) (use i overwrite_same(2) [OF l dist same] in \<open>auto simp: run_tasks_def\<close>)
  finally have "run_tasks i ?d = run_tasks i d" .
  moreover have "find_run i (save_run now run' ?d) = find_run i d"
    using find_run_save_run [of run' ?d i now] found rid i
    by (simp add: find_run_def task_update_def)
  ultimately show "load i (save now run' ts' d) = load i d"
    unfolding save by (intro load_other) simp_all
qed

section \<open>The invariant of the execution tables\<close>

definition exec_inv :: "db \<Rightarrow> bool" where
  "exec_inv d \<longleftrightarrow>
     distinct (map run_id (db_runs d)) \<and> distinct (map te_id (db_task_executions d)) \<and>
     distinct (map ar_id (db_agent_runs d)) \<and>
     (\<forall>rid run s ts. load rid d = Inr (run, s, ts) \<longrightarrow>
        distinct (map fst ts) \<and>
        run_inv (run_status run) (snapshot_dag s) (state_of (statuses ts)))"

lemma exec_inv_ids:
  "exec_inv d \<Longrightarrow> distinct (map run_id (db_runs d))"
  "exec_inv d \<Longrightarrow> distinct (map te_id (db_task_executions d))"
  "exec_inv d \<Longrightarrow> distinct (map ar_id (db_agent_runs d))"
  by (simp_all add: exec_inv_def)

lemma exec_inv_load:
  assumes "exec_inv d" and "load rid d = Inr (run, s, ts)"
  shows "run_inv (run_status run) (snapshot_dag s) (state_of (statuses ts))"
    and "distinct (map fst ts)"
  using assms unfolding exec_inv_def by blast+

lemma map_fst_statuses [simp]: "map fst (statuses ts) = map fst ts"
  by (simp add: statuses_def case_prod_unfold comp_def)

lemma state_of_statuses:
  "distinct (map fst ts) \<Longrightarrow> (k, t) \<in> set ts \<Longrightarrow> state_of (statuses ts) k = te_status t"
proof -
  assume "distinct (map fst ts)" and "(k, t) \<in> set ts"
  then have "distinct (map fst (statuses ts))" and "(k, te_status t) \<in> set (statuses ts)"
    by (simp, force simp: statuses_def)
  then show ?thesis by (simp add: state_of_def map_of_is_SomeI)
qed

lemma state_of_statuses_ex:
  assumes "distinct (map fst ts)" and "k \<in> fst ` set ts"
  obtains t where "(k, t) \<in> set ts" and "state_of (statuses ts) k = te_status t"
proof -
  from assms(2) obtain t where "(k, t) \<in> set ts" by force
  with assms(1) that show ?thesis by (simp add: state_of_statuses)
qed

lemma exec_inv_cong:
  assumes "exec_inv d" and "db_runs d' = db_runs d"
    and "db_task_executions d' = db_task_executions d" and "distinct (map ar_id (db_agent_runs d'))"
  shows "exec_inv d'"
proof -
  from assms have "load rid d' = load rid d" for rid
    by (intro load_other) (simp_all add: find_run_def run_tasks_def)
  with assms show ?thesis unfolding exec_inv_def by metis
qed

lemma exec_inv_save:
  assumes inv: "exec_inv d" and l: "load rid d = Inr (run, s, ts)"
    and run: "same_run run run'" and same: "same_tasks ts ts'"
    and "run_inv (run_status run') (snapshot_dag s) (state_of (statuses ts'))"
  shows "exec_inv (save now run' ts' d)"
proof -
  note saved = load_save [OF l exec_inv_ids(2) [OF inv] run same]
  obtain u where new: "load rid (save now run' ts' d) = Inr (run'\<lparr>run_updated_at := u\<rparr>, s, ts')"
    using saved(1) by blast
  have "distinct (map fst ts')" using same_tasks_proj [OF same] exec_inv_load [OF inv l] by simp
  with new assms(5) saved(2) exec_inv_load [OF inv]
  have "distinct (map fst ts'') \<and> run_inv (run_status r) (snapshot_dag s') (state_of (statuses ts''))"
    if "load i (save now run' ts' d) = Inr (r, s', ts'')" for i r s' ts''
    using that by (cases "i = rid") auto
  moreover have "map run_id (db_runs (save now run' ts' d)) = map run_id (db_runs d)"
    by (simp add: save_def save_run_def)
  moreover have "map te_id (db_task_executions (save now run' ts' d)) = map te_id (db_task_executions d)"
    by (simp add: save_def save_tasks_def)
  moreover have "db_agent_runs (save now run' ts' d) = db_agent_runs d"
    by (simp add: save_def)
  ultimately show ?thesis using exec_inv_ids [OF inv] unfolding exec_inv_def by metis
qed

section \<open>Advancing a loaded run\<close>

lemma apply_states_Inr:
  assumes "apply_states states ts = Inr ts'"
  shows "same_tasks ts ts'" and "statuses ts' = map (\<lambda>(k, t). (k, state_of states k)) ts"
  using assms unfolding apply_states_def mapE_eq_Inr same_tasks_def
  by (induction rule: list_all2_induct)
    (auto simp: statuses_def same_task_def dest: task_state_frame)

lemma apply_states_state_of:
  assumes "apply_states states ts = Inr ts'" and "k \<in> fst ` set ts"
  shows "state_of (statuses ts') k = state_of states k"
proof -
  have "map_of (map (\<lambda>(k, t). (k, state_of states k)) ts) k = Some (state_of states k)"
    using assms(2) by (induction ts) auto
  with apply_states_Inr(2) [OF assms(1)] show ?thesis by (simp add: state_of_def)
qed

lemma advance_run_finished:
  "run_status run \<in> {''failed'', ''cancelled''} \<Longrightarrow> advance_run now run s ts = Inr (run, ts)"
  by (simp add: advance_run_def)

lemma advance_run_Inr:
  assumes "advance_run now run s ts = Inr (run', ts')"
    and run: "run_status run \<notin> {''failed'', ''cancelled''}"
    and keys: "fst ` set ts = fst ` set (snapshot_dag s)" "distinct (map fst ts)"
  obtains states where "advance (snapshot_dag s) (statuses ts) = Inr states"
    and "apply_states states ts = Inr ts'"
    and "run_status run' = next_run (snapshot_dag s) (state_of states)"
    and "same_run run run'"
proof -
  let ?K = "fst ` set (snapshot_dag s)"
  from assms(1) run obtain states where adv: "advance (snapshot_dag s) (statuses ts) = Inr states"
    and app: "apply_states states ts = Inr ts'"
    by (auto simp: advance_run_def Let_def split: if_splits)
  have fsts: "map fst states = map fst ts" using advance_keys [OF adv] by simp
  then have "set (map fst states) = ?K" and "distinct (map fst states)" using keys by simp_all
  then have "snd ` set states = state_of states ` ?K"
    by (force simp: state_of_def image_iff)
  note vals = this
  have all: "(\<forall>x \<in> snd ` set states. P x) \<longleftrightarrow> (\<forall>k \<in> ?K. P (state_of states k))" for P
    unfolding vals by blast
  define all_ended where "all_ended = (\<forall>k \<in> ?K. state_of states k \<in> set TERMINAL)"
  define all_done where "all_done = (\<forall>k \<in> ?K. state_of states k = ''completed'')"
  define run1 where "run1 = (if run_started_at run = None then run\<lparr>run_started_at := Some now\<rparr> else run)"
  have target: "next_run (snapshot_dag s) (state_of states) =
      (if all_ended then if all_done then ''completed'' else ''failed'' else ''running'')"
    by (simp add: next_run_def all_ended_def all_done_def)
  have run1: "same_run run run1" by (simp add: run1_def same_run_def)
  have "(if all_ended
      then bindE (execution_state run1 (if all_done then ''completed'' else ''failed''))
        (\<lambda>run2. Inr (if run_completed_at run2 = None
           then run2\<lparr>run_completed_at := Some now\<rparr> else run2, ts'))
      else bindE (execution_state run1 ''running'') (\<lambda>run2. Inr (run2, ts'))) = Inr (run', ts')"
    using assms(1) run
    by (simp only: advance_run_def adv app bindE_Inr all all_ended_def all_done_def run1_def Let_def
        if_False)
  then have "run_status run' = next_run (snapshot_dag s) (state_of states) \<and> same_run run run'"
    using run1 unfolding target
    by (cases all_ended) (auto simp: same_run_def execution_state_Inr)
  with adv app that show ?thesis by blast
qed

lemma advance_run_inv:
  assumes "advance_run now run s ts = Inr (run', ts')" and "distinct (map fst (snapshot_dag s))"
    and keys: "fst ` set ts = fst ` set (snapshot_dag s)" "distinct (map fst ts)"
    and inv: "run_inv (run_status run) (snapshot_dag s) (state_of (statuses ts))"
  shows "same_run run run'" and "same_tasks ts ts'"
    and "run_inv (run_status run') (snapshot_dag s) (state_of (statuses ts'))"
proof -
  have "same_run run run' \<and> same_tasks ts ts' \<and>
      run_inv (run_status run') (snapshot_dag s) (state_of (statuses ts'))"
  proof (cases "run_status run \<in> {''failed'', ''cancelled''}")
    case True
    with assms(1) inv show ?thesis by (simp add: advance_run_finished)
  next
    case False
    from advance_run_Inr [OF assms(1) False keys] obtain states
      where adv: "advance (snapshot_dag s) (statuses ts) = Inr states"
        and app: "apply_states states ts = Inr ts'"
        and st: "run_status run' = next_run (snapshot_dag s) (state_of states)"
        and run: "same_run run run'" .
    from run_inv_advance [OF assms(2) adv inv False]
    have "run_inv (run_status run') (snapshot_dag s) (state_of (statuses ts'))"
      unfolding st using adv app keys(1)
      by (elim run_inv_cong) (simp_all add: apply_states_state_of advance_parents)
    with run apply_states_Inr(1) [OF app] show ?thesis by simp
  qed
  then show "same_run run run'" and "same_tasks ts ts'"
    and "run_inv (run_status run') (snapshot_dag s) (state_of (statuses ts'))" by simp_all
qed

section \<open>What every operation keeps\<close>

lemma reconcile_inv:
  assumes "exec_inv d" and "reconcile rid now d = Inr (d', resp)"
  shows "exec_inv d'"
proof -
  from assms(2) obtain run s ts run' ts' where l: "load rid d = Inr (run, s, ts)"
    and adv: "advance_run now run s ts = Inr (run', ts')" and d': "d' = save now run' ts' d"
    by (auto simp: reconcile_def)
  note inv = exec_inv_load [OF assms(1) l]
  note kept = advance_run_inv [OF adv load_valid_plan(3) [OF l] load_fst_dag [OF l] inv(2) inv(1)]
  show ?thesis unfolding d' using assms(1) l kept by (rule exec_inv_save)
qed

lemma find_task_Some: "find_task tid ts = Some (k, t) \<Longrightarrow> (k, t) \<in> set ts \<and> te_id t = tid"
  by (auto simp: find_task_def find_Some_iff dest: nth_mem)

lemma state_of_aset:
  assumes "k \<in> fst ` set ts"
  shows "state_of (statuses (aset k t ts)) = (state_of (statuses ts))(k := te_status t)"
proof -
  have "statuses (aset k t ts) = aset k (te_status t) (statuses ts)"
    by (induction ts) (auto simp: statuses_def)
  moreover from assms have "k \<in> fst ` set (statuses ts)" by (metis list.set_map map_fst_statuses)
  ultimately show ?thesis by (intro ext) (simp add: state_of_def map_of_aset)
qed

text \<open>A loaded task that moves or only changes its text, with and without advancing the run.\<close>

definition moved :: "task_execution \<Rightarrow> task_execution \<Rightarrow> bool" where
  "moved t t' \<longleftrightarrow> same_task t t' \<and>
     (te_status t' = te_status t \<or>
      te_status t' \<in> {''running'', ''completed'', ''failed''} \<and>
      te_status t' \<in> set (successors TASK_EDGES (te_status t)))"

lemma moved_task_state:
  assumes "task_state t s = Inr t1" and "s \<in> {''running'', ''completed'', ''failed''}"
  shows "moved t (t1\<lparr>te_output_summary := x\<rparr>)"
  using assms by (auto simp: moved_def same_task_def task_state_Inr)

lemma moved_summary [simp]: "moved t (t\<lparr>te_output_summary := x\<rparr>)"
  by (simp add: moved_def same_task_def)

lemma moved_loaded:
  assumes inv: "exec_inv d" and l: "load rid d = Inr (run, s, ts)"
    and kt: "(key, t) \<in> set ts" and mv: "moved t t'"
  shows "same_tasks ts (aset key t' ts)"
    and "run_inv (run_status run) (snapshot_dag s) (state_of (statuses (aset key t' ts)))"
proof -
  note loaded = exec_inv_load [OF inv l]
  have key: "key \<in> fst ` set ts" "key \<in> fst ` set (snapshot_dag s)"
    using kt load_fst_dag [OF l] by (metis fst_conv image_eqI)+
  have cur: "state_of (statuses ts) key = te_status t" using loaded(2) kt by (rule state_of_statuses)
  from mv have "same_task t t'" by (simp add: moved_def)
  with loaded(2) kt show "same_tasks ts (aset key t' ts)" by (intro same_tasks_aset)
  have st: "state_of (statuses (aset key t' ts)) = (state_of (statuses ts))(key := te_status t')"
    using key(1) by (rule state_of_aset)
  show "run_inv (run_status run) (snapshot_dag s) (state_of (statuses (aset key t' ts)))"
  proof (cases "te_status t' = te_status t")
    case True
    with cur have "(state_of (statuses ts))(key := te_status t') = state_of (statuses ts)" by auto
    with st loaded(1) show ?thesis by simp
  next
    case False
    with mv cur show ?thesis
      unfolding st by (intro run_inv_move [OF loaded(1) key(2)]) (auto simp: moved_def)
  qed
qed

lemma exec_inv_touch:
  assumes "exec_inv d" and "load rid d = Inr (run, s, ts)" and "(key, t) \<in> set ts" and "moved t t'"
  shows "exec_inv (save now run (aset key t' ts) d)"
  using assms(1,2) same_run_refl moved_loaded [OF assms] by (rule exec_inv_save)

lemma exec_inv_move:
  assumes "exec_inv d" and l: "load rid d = Inr (run, s, ts)" and "(key, t) \<in> set ts" and "moved t t'"
    and adv: "advance_run now run s (aset key t' ts) = Inr (run', ts')"
  shows "exec_inv (save now run' ts' d)"
proof -
  note mv = moved_loaded [OF assms(1-4)]
  have "fst ` set (aset key t' ts) = fst ` set (snapshot_dag s)" and "distinct (map fst (aset key t' ts))"
    using load_fst_dag [OF l] exec_inv_load(2) [OF assms(1) l] by simp_all
  note kept = advance_run_inv [OF adv load_valid_plan(3) [OF l] this mv(2)]
  show ?thesis using assms(1) l kept(1) same_tasks_trans [OF mv(1) kept(2)] kept(3)
    by (rule exec_inv_save)
qed

lemma transition_inv:
  assumes "exec_inv d" and "transition rid tid status summary now d = Inr (d', changed)"
  shows "exec_inv d'"
proof (cases "d' = d")
  case False
  have status: "status \<in> {''running'', ''completed'', ''failed''}"
    using assms(2) by (simp add: transition_def split: if_splits)
  with assms(2) False obtain run s ts key target
    where l: "load rid d = Inr (run, s, ts)" and f: "find_task tid ts = Some (key, target)"
      and "move_task now (run, s, ts) key target status summary d = Inr (d', changed)"
    unfolding transition_def by (auto split: if_splits)
  then obtain t1 run' ts'
    where t1: "task_state target status = Inr t1"
      and adv: "advance_run now run s (aset key (t1\<lparr>te_output_summary := clip_summary summary\<rparr>) ts)
        = Inr (run', ts')"
      and d': "d' = save now run' ts' d"
    unfolding move_task_def by auto
  from find_task_Some [OF f] have "(key, target) \<in> set ts" by simp
  with assms(1) l show ?thesis
    unfolding d' using moved_task_state [OF t1 status] adv by (rule exec_inv_move)
qed (use assms in simp)

lemma stop_task_frame:
  assumes "stop_task c reason t = Inr t'"
  shows "same_task t t'" and "te_status t' = stopped_task c (te_status t)"
  using assms by (auto simp: stop_task_def stopped_task_def same_task_def dest: task_state_frame
      split: if_splits)

lemma stop_tasks_Inr:
  assumes "mapE (\<lambda>(k, t). bindE (stop_task c reason t) (\<lambda>t'. Inr (k, t'))) ts = Inr ts'"
  shows "same_tasks ts ts'"
    and "statuses ts' = map (\<lambda>(k, s). (k, stopped_task c s)) (statuses ts)"
  using assms unfolding mapE_eq_Inr same_tasks_def
  by (induction rule: list_all2_induct)
    (auto simp: statuses_def dest: stop_task_frame)

lemma state_of_map:
  "k \<in> fst ` set xs \<Longrightarrow> state_of (map (\<lambda>(k, s). (k, g s)) xs) k = g (state_of xs k)"
  by (induction xs) (auto simp: state_of_def)

lemma load_agents: "load rid (d\<lparr>db_agent_runs := as\<rparr>) = load rid d"
  by (rule load_other) (simp_all add: find_run_def run_tasks_def)

lemma load_parents:
  assumes "load rid d = Inr (run, s, ts)" and "k \<in> fst ` set (snapshot_dag s)"
  shows "set (parents_of (snapshot_dag s) k) \<subseteq> fst ` set (snapshot_dag s)"
proof -
  from load_valid_plan(1) [OF assms(1)] obtain ks where "execution_order (snapshot_dag s) = Inr ks"
    by (auto simp: validate_plan_Inr plan_order_def snapshot_dag_def)
  then show ?thesis using assms(2) by (rule parents_in)
qed

lemma stop_locked_inv:
  assumes inv: "exec_inv d" and stop: "stop_locked rid c now d = Inr d'"
  shows "exec_inv d'"
proof (cases "d' = d")
  case False
  with stop obtain run s ts reason agents where l: "load rid d = Inr (run, s, ts)"
    and "stop_unfinished c reason now run agents ts d = Inr d'"
    by (auto simp: stop_locked_def Let_def split: if_splits)
  then obtain agents' ts' run'
    where ts': "mapE (\<lambda>(k, t). bindE (stop_task c reason t) (\<lambda>t'. Inr (k, t'))) ts = Inr ts'"
    and run': "(if finished_run (run_status run) then Inr run
       else bindE (execution_state run (if c then ''cancelled'' else ''failed''))
              (\<lambda>r. Inr (r\<lparr>run_completed_at := Some now\<rparr>))) = Inr run'"
    and d': "d' = save now run' ts' (d\<lparr>db_agent_runs := put_all ar_id agents' (db_agent_runs d)\<rparr>)"
    unfolding stop_unfinished_def by (simp only: bindE_eq_Inr sum.inject) metis
  let ?d = "d\<lparr>db_agent_runs := put_all ar_id agents' (db_agent_runs d)\<rparr>"
  have inv': "exec_inv ?d" using inv by (rule exec_inv_cong) (simp_all add: exec_inv_ids [OF inv])
  have l': "load rid ?d = Inr (run, s, ts)" using l by (simp add: load_agents)
  note loaded = exec_inv_load [OF inv l]
  note stopped = stop_tasks_Inr [OF ts']
  have state: "state_of (statuses ts') k = stopped_task c (state_of (statuses ts) k)"
    if "k \<in> fst ` set (snapshot_dag s)" for k
    unfolding stopped(2) using that load_fst_dag [OF l]
    by (intro state_of_map) (metis list.set_map map_fst_statuses)
  have run: "same_run run run'"
    using run' by (auto simp: same_run_def execution_state_Inr split: if_splits)
  have "run_inv (run_status run') (snapshot_dag s) (state_of (statuses ts'))"
  proof (cases "finished_run (run_status run)")
    case True
    with run' have "run' = run" by simp
    moreover have "run_inv (run_status run) (snapshot_dag s) (state_of (statuses ts'))"
      using loaded(1)
    proof (rule run_inv_cong)
      fix k assume k: "k \<in> fst ` set (snapshot_dag s)"
      with True run_inv_agrees [OF loaded(1) k]
      show "state_of (statuses ts') k = state_of (statuses ts) k"
        by (auto simp: state finished_run_def intro: agrees_finished)
      from l k show "set (parents_of (snapshot_dag s) k) \<subseteq> fst ` set (snapshot_dag s)"
        by (rule load_parents)
    qed
    ultimately show ?thesis by simp
  next
    case False
    with run' have st: "run_status run' = (if c then ''cancelled'' else ''failed'')"
      and "run_status run \<in> {''pending'', ''running''}"
      by (auto simp: execution_state_Inr run_successors finished_run_def split: if_splits)
    with loaded(1) load_parents [OF l] state show ?thesis unfolding st by (intro run_inv_stop)
  qed
  then show ?thesis unfolding d' using inv' l' run stopped(1) by (intro exec_inv_save)
qed (use inv in simp)

lemma recover_stale_inv:
  assumes "exec_inv d" and "recover_stale secs locked now d = Inr (d', n)"
  shows "exec_inv d'"
proof -
  have "exec_inv (fst st')" if "exec_inv (fst st)" and "recover_one cutoff now rid st = Inr st'"
    for st st' cutoff rid
    using that by (cases st) (auto simp: recover_one_def intro: stop_locked_inv split: if_splits)
  then have "exec_inv (fst (d', n))"
    using foldE_invariant [of "recover_one (now - seconds secs) now" _ "(d, 0)" "(d', n)" "\<lambda>st. exec_inv (fst st)"]
      assms
    unfolding recover_stale_def Let_def by simp
  then show ?thesis by simp
qed

end
