(* ===== verification/Execution_Create.thy ===== *)
theory Execution_Create
  imports Execution_Invariants
begin

text \<open>
  \<open>create\<close> keeps the invariant of the execution tables and establishes it for the new run: its
  tasks are exactly the tasks of the validated plan, all pending, and the next transaction loads
  them.
\<close>

section \<open>What a successful creation did\<close>

definition created_tasks :: "(nat \<Rightarrow> uuid) \<Rightarrow> uuid \<Rightarrow> plan_task_row list \<Rightarrow> task_execution list" where
  "created_tasks fresh rid rows =
     map2 (\<lambda>i t. new_task (fresh (Suc i)) rid (pt_id t)) [0..<length rows] rows"

definition row_ids :: "plan_task_row list \<Rightarrow> (string \<times> uuid) list" where
  "row_ids rows = map (\<lambda>t. (pt_task_key t, pt_id t)) rows"

lemma map2_snd: "length xs = length ys \<Longrightarrow> map2 (\<lambda>_ y. f y) xs ys = map f ys"
  by (induction xs ys rule: list_induct2) simp_all

lemma created_tasks_props:
  "map te_plan_task_id (created_tasks fresh rid rows) = map pt_id rows"
  "length (created_tasks fresh rid rows) = length rows"
  "t \<in> set (created_tasks fresh rid rows) \<Longrightarrow>
     te_execution_run_id t = rid \<and> te_status t = ''pending'' \<and> te_attempt t = 1"
proof -
  have "map te_plan_task_id (created_tasks fresh rid rows) =
      map2 (\<lambda>_ t. pt_id t) [0..<length rows] rows"
    by (simp add: created_tasks_def new_task_def case_prod_unfold)
  then show "map te_plan_task_id (created_tasks fresh rid rows) = map pt_id rows"
    by (simp only: map2_snd length_upt diff_zero)
  show "length (created_tasks fresh rid rows) = length rows" by (simp add: created_tasks_def)
  show "te_execution_run_id t = rid \<and> te_status t = ''pending'' \<and> te_attempt t = 1"
    if "t \<in> set (created_tasks fresh rid rows)"
    using that by (auto simp: created_tasks_def new_task_def)
qed

lemma insert_run_Inr:
  "insert_run r d = Inr d' \<longleftrightarrow>
    run_id r \<notin> run_id ` set (db_runs d) \<and> d' = d\<lparr>db_runs := db_runs d @ [r]\<rparr>"
  by (auto simp: insert_run_def)

lemma insert_tasks_Inr:
  "insert_tasks ts d = Inr d' \<longleftrightarrow>
    distinct (map te_id (db_task_executions d @ ts)) \<and>
    d' = d\<lparr>db_task_executions := db_task_executions d @ ts\<rparr>"
  by (auto simp: insert_tasks_def)

lemma create_Inr:
  assumes "create pid identifier fresh now d = Inr (d', rid)"
  obtains plan rows snapshot where "fetch plan_id pid (db_plans d) = Some plan"
    and "rows = plan_rows pid d"
    and "validate_plan \<lparr>plan_summary = or_empty (plan_row_summary plan),
           plan_tasks = map proposal_of_row rows\<rparr> = Inr (snap_proposal snapshot)"
    and "snap_task_ids snapshot = row_ids rows" and "validate_snapshot snapshot = Inr snapshot"
    and "rid = (case identifier of Some i \<Rightarrow> i | None \<Rightarrow> fresh 0)"
    and "rid \<notin> run_id ` set (db_runs d)"
    and "distinct (map te_id (db_task_executions d @ created_tasks fresh rid rows))"
    and "d' = d\<lparr>db_runs := db_runs d @ [new_run rid pid snapshot now],
                 db_task_executions := db_task_executions d @ created_tasks fresh rid rows\<rparr>"
proof -
  let ?rows = "plan_rows pid d"
  from assms obtain plan where plan: "fetch plan_id pid (db_plans d) = Some plan"
    by (auto simp: create_def)
  let ?p = "\<lparr>plan_summary = or_empty (plan_row_summary plan),
      plan_tasks = map proposal_of_row ?rows\<rparr>"
  from assms plan obtain p where p: "validate_plan ?p = Inr p"
    by (auto simp: create_def Let_def split: sum.splits)
  from assms plan p obtain snapshot
    where s: "validate_snapshot \<lparr>snap_proposal = p, snap_task_ids = row_ids ?rows\<rparr> = Inr snapshot"
    by (auto simp: create_def Let_def row_ids_def split: sum.splits)
  then have "snap_proposal snapshot = p" and "snap_task_ids snapshot = row_ids ?rows"
    using validate_plan_idem [OF p] by (auto simp: validate_snapshot_Inr)
  moreover have "validate_snapshot snapshot = Inr snapshot"
    using s by (rule validate_snapshot_idem)
  moreover obtain r where r: "r = (case identifier of Some i \<Rightarrow> i | None \<Rightarrow> fresh 0)" by simp
  moreover have "bindE (insert_run (new_run r pid snapshot now) d)
      (\<lambda>d1. bindE (insert_tasks (created_tasks fresh r ?rows) d1) (\<lambda>d2. Inr (d2, r))) = Inr (d', rid)"
    using assms plan p s unfolding r by (simp add: create_def Let_def row_ids_def created_tasks_def)
  then have "r = rid" and "rid \<notin> run_id ` set (db_runs d)"
    and "distinct (map te_id (db_task_executions d @ created_tasks fresh rid ?rows))"
    and "d' = d\<lparr>db_runs := db_runs d @ [new_run rid pid snapshot now],
                 db_task_executions := db_task_executions d @ created_tasks fresh rid ?rows\<rparr>"
    unfolding bindE_eq_Inr insert_run_Inr insert_tasks_Inr
    by (elim exE conjE, simp add: new_run_def del: distinct_map map_append distinct_append)+
  ultimately show ?thesis using plan p by (intro that [of plan ?rows snapshot]) simp_all
qed

lemma valid_tuple_length: "valid_tuple lo hi f xs = Some ys \<Longrightarrow> length ys = length xs"
  by (auto simp: valid_tuple_def those_Some split: if_splits) (metis length_map)

lemma validate_plan_length:
  "validate_plan p = Inr q \<Longrightarrow> length (plan_tasks q) = length (plan_tasks p)"
  by (auto simp: validate_plan_Inr validate_plan_fields_def valid_tuple_length split: Option.bind_splits)

lemma snapshot_keys_distinct:
  assumes "validate_snapshot s = Inr s" and "length (snap_task_ids s) = length (plan_tasks (snap_proposal s))"
  shows "distinct (map fst (snap_task_ids s))"
proof -
  from assms(1) obtain p where p: "validate_plan (snap_proposal s) = Inr p"
    and s: "s = s\<lparr>snap_proposal := p\<rparr>" and keys: "fst ` set (snap_task_ids s) = task_key ` set (plan_tasks p)"
    by (metis validate_snapshot_Inr)
  from s have "snap_proposal s = p" by (metis execution_snapshot.select_convs(1)
    execution_snapshot.simps(5) execution_snapshot.surjective execution_snapshot.update_convs(1))
  with assms(2) have "length (map fst (snap_task_ids s)) = length (map task_key (plan_tasks p))" by simp
  moreover have "distinct (map task_key (plan_tasks p))" using p by (rule valid_plan_distinct)
  ultimately show ?thesis using keys
    by (metis card_distinct distinct_card list.set_map)
qed

lemma load_tasks_subset:
  assumes "load rid d = Inr (run, s, ts)"
  shows "snd ` set ts = set (run_tasks rid d)" and "length (run_tasks rid d) = length (snap_task_ids s)"
proof -
  show "snd ` set ts = set (run_tasks rid d)"
    using assms by (simp add: load_iff loaded_from_def)
  have "length (run_tasks rid d) = length ts" using assms by (simp add: load_iff loaded_from_def)
  with load_keys [OF assms] show "length (run_tasks rid d) = length (snap_task_ids s)"
    by (metis length_map)
qed

lemma run_inv_pending:
  assumes "distinct (map fst ts)" and "fst ` set ts = fst ` set dag"
    and "\<forall>t \<in> snd ` set ts. te_status t = ''pending''"
  shows "run_inv ''pending'' dag (state_of (statuses ts))"
proof -
  have "state_of (statuses ts) k = ''pending''" if "k \<in> fst ` set dag" for k
    using assms that by (metis image_eqI snd_conv state_of_statuses_ex)
  then show ?thesis
    unfolding run_inv_def deps_respected_def by (simp add: started_def agrees_def)
qed

lemma create_inv:
  assumes inv: "exec_inv d" and c: "create pid identifier fresh now d = Inr (d', rid)"
  shows "exec_inv d'"
proof -
  from c obtain plan rows snapshot where "fetch plan_id pid (db_plans d) = Some plan"
    and p: "validate_plan \<lparr>plan_summary = or_empty (plan_row_summary plan),
           plan_tasks = map proposal_of_row rows\<rparr> = Inr (snap_proposal snapshot)"
    and ids: "snap_task_ids snapshot = row_ids rows"
    and s: "validate_snapshot snapshot = Inr snapshot"
    and new: "rid \<notin> run_id ` set (db_runs d)"
    and dist: "distinct (map te_id (db_task_executions d @ created_tasks fresh rid rows))"
    and d': "d' = d\<lparr>db_runs := db_runs d @ [new_run rid pid snapshot now],
                 db_task_executions := db_task_executions d @ created_tasks fresh rid rows\<rparr>"
    by (rule create_Inr) (rule that; assumption)
  have tasks: "run_tasks i d' = run_tasks i d @ (if i = rid then created_tasks fresh rid rows else [])" for i
    using created_tasks_props(3)
    by (auto simp: run_tasks_def d' filter_empty_conv filter_id_conv)
  have loaded: "distinct (map fst ts) \<and> run_inv (run_status run) (snapshot_dag s') (state_of (statuses ts))"
    if l: "load i d' = Inr (run, s', ts)" for i run s' ts
  proof (cases "i = rid")
    case False
    then have "load i d' = load i d"
      by (intro load_other) (simp_all add: find_run_def tasks, simp add: d' new_run_def
          split: option.split)
    with l exec_inv_load [OF inv] show ?thesis by simp
  next
    case True
    have "find_run rid d' = Some (new_run rid pid snapshot now)"
      using new by (simp add: find_run_def d' new_run_def)
    with l True s have run: "run = new_run rid pid snapshot now" and s': "s' = snapshot"
      by (auto simp: load_iff loaded_from_def new_run_def)
    have "length (plan_tasks (snap_proposal snapshot)) = length rows"
      using validate_plan_length [OF p] by simp
    then have keys: "distinct (map fst ts)"
      unfolding load_keys [OF l] s' using s by (intro snapshot_keys_distinct)
        (simp_all add: ids row_ids_def)
    have "length (run_tasks rid d') = length rows"
      using load_tasks_subset(2) [OF l] True s' ids by (simp add: row_ids_def)
    then have "run_tasks rid d = []" using tasks [of rid] by (simp add: created_tasks_props)
    then have "snd ` set ts = set (created_tasks fresh rid rows)"
      using load_tasks_subset(1) [OF l] True tasks [of rid] by simp
    then have "run_inv ''pending'' (snapshot_dag s') (state_of (statuses ts))"
      using keys load_fst_dag [OF l] created_tasks_props(3) by (intro run_inv_pending) auto
    with keys show ?thesis by (simp add: run new_run_def)
  qed
  have "distinct (map run_id (db_runs d'))"
    using exec_inv_ids(1) [OF inv] new by (simp add: d' new_run_def)
  moreover have "distinct (map te_id (db_task_executions d'))" using dist by (simp add: d')
  moreover have "distinct (map ar_id (db_agent_runs d'))" using exec_inv_ids(3) [OF inv] by (simp add: d')
  ultimately show ?thesis using loaded unfolding exec_inv_def by blast
qed

text \<open>Unless tasks of the run exist already, the new run loads, with the tasks of the plan.\<close>

lemma create_loads:
  assumes c: "create pid identifier fresh now d = Inr (d', rid)" and "run_tasks rid d = []"
  obtains snapshot ts where "load rid d' = Inr (new_run rid pid snapshot now, snapshot, ts)"
    and "snd ` set ts = set (created_tasks fresh rid (plan_rows pid d))"
    and "snap_task_ids snapshot = row_ids (plan_rows pid d)"
proof -
  from c obtain plan rows snapshot where rows: "rows = plan_rows pid d"
    and ids: "snap_task_ids snapshot = row_ids rows"
    and s: "validate_snapshot snapshot = Inr snapshot"
    and new: "rid \<notin> run_id ` set (db_runs d)"
    and d': "d' = d\<lparr>db_runs := db_runs d @ [new_run rid pid snapshot now],
                 db_task_executions := db_task_executions d @ created_tasks fresh rid rows\<rparr>"
    by (rule create_Inr) (rule that; assumption)
  have tasks: "run_tasks rid d' = created_tasks fresh rid rows"
    using assms(2) created_tasks_props(3)
    by (auto simp: run_tasks_def d' filter_id_conv)
  have "snd ` set (row_ids rows) = set (map te_plan_task_id (created_tasks fresh rid rows))"
    unfolding created_tasks_props(1) by (force simp: row_ids_def)
  then have ids': "te_plan_task_id ` set (created_tasks fresh rid rows) = snd ` set (row_ids rows)" by simp
  have "find_run rid d' = Some (new_run rid pid snapshot now)"
    using new by (simp add: find_run_def d' new_run_def)
  moreover have "load_snapshot (new_run rid pid snapshot now) = Inr snapshot"
    using s by (simp add: load_snapshot_def new_run_def)
  moreover have "length (created_tasks fresh rid rows) = length (row_ids rows)"
    by (simp add: created_tasks_props row_ids_def)
  moreover have "\<forall>t \<in> set (created_tasks fresh rid rows). te_attempt t = 1"
    using created_tasks_props(3) by blast
  ultimately have "\<exists>ts. load rid d' = Inr (new_run rid pid snapshot now, snapshot, ts)"
    by (simp add: load_def ids ids' tasks Let_def)
  then obtain ts where l: "load rid d' = Inr (new_run rid pid snapshot now, snapshot, ts)" ..
  with that [OF l] show ?thesis using load_tasks_subset(1) [OF l] tasks rows ids by simp
qed

end
