(* ===== verification/Coding_Records.thy ===== *)
theory Coding_Records
  imports Execution_Create
begin

text \<open>
  \<^verbatim>\<open>app/services/coding_records.py\<close>: claiming a task for coding and recording the outcome.
  The vocabulary all record services share comes first: a new agent run, the issue of a plan,
  the proposal behind a task, and what becomes of the agent table.
\<close>

section \<open>Agent runs\<close>

definition new_agent ::
  "uuid \<Rightarrow> uuid \<Rightarrow> uuid option \<Rightarrow> string \<Rightarrow> string option \<Rightarrow> time \<Rightarrow> metadata \<Rightarrow> agent_run" where
  "new_agent i rid tid kind model now input =
     \<lparr>ar_id = i, ar_execution_run_id = rid, ar_task_execution_id = tid, ar_agent_type = kind,
      ar_status = ''running'', ar_model = model, ar_input_metadata = input,
      ar_output_metadata = Map.empty, ar_input_tokens = None, ar_output_tokens = None,
      ar_started_at = Some now, ar_completed_at = None\<rparr>"

definition set_usage :: "token_usage option \<Rightarrow> agent_run \<Rightarrow> agent_run" where
  "set_usage usage a = (case usage of None \<Rightarrow> a
     | Some u \<Rightarrow> a\<lparr>ar_input_tokens := tu_input_tokens u, ar_output_tokens := tu_output_tokens u\<rparr>)"

text \<open>\<open>plan = session.get(...); issue = session.get(Issue, plan.issue_id) if plan else None\<close>.\<close>

definition issue_of_run :: "execution_run \<Rightarrow> db \<Rightarrow> issue_row option" where
  "issue_of_run run d = (case fetch plan_id (run_plan_id run) (db_plans d) of
     None \<Rightarrow> None | Some plan \<Rightarrow> fetch iss_id (plan_issue_id plan) (db_issues d))"

definition context_matches :: "issue_context \<Rightarrow> issue_row option \<Rightarrow> bool" where
  "context_matches ctx issue = (case issue of None \<Rightarrow> False
     | Some i \<Rightarrow> iss_id i = ci_id (cs_issue ctx) \<and> iss_repository_id i = cr_id (cs_repository ctx))"

text \<open>\<open>next(t for t in snapshot.proposal.tasks if snapshot.task_ids[t.task_key] == target.plan_task_id)\<close>.\<close>

definition proposal_of_task :: "execution_snapshot \<Rightarrow> task_execution \<Rightarrow> plan_task_proposal option" where
  "proposal_of_task s target =
     List.find (\<lambda>t. map_of (snap_task_ids s) (task_key t) = Some (te_plan_task_id target))
       (plan_tasks (snap_proposal s))"

section \<open>Coding claims\<close>

record dependency_outcome =
  do_task_key :: string
  do_status :: string
  do_summary :: string

record coding_input =
  ci_task :: plan_task_proposal
  ci_context :: issue_context
  ci_dependency_outcomes :: "dependency_outcome list"
  ci_workspace_status :: string

definition coding_input_of :: "plan_task_proposal \<Rightarrow> issue_context \<Rightarrow> task_dict \<Rightarrow> coding_input" where
  "coding_input_of proposal ctx ts =
     \<lparr>ci_task = proposal, ci_context = ctx,
      ci_dependency_outcomes = map (\<lambda>key. let t = the (map_of ts key) in
        \<lparr>do_task_key = key, do_status = te_status t,
         do_summary = take 4000 (or_empty (te_output_summary t))\<rparr>) (dependencies proposal),
      ci_workspace_status = ''not_inspected''\<rparr>"

definition coding_start ::
  "uuid \<Rightarrow> uuid \<Rightarrow> issue_context \<Rightarrow> string option \<Rightarrow> uuid \<Rightarrow> time \<Rightarrow> db \<Rightarrow>
    service_error + db \<times> uuid \<times> coding_input" where
  "coding_start rid tid ctx model fresh now d =
     bindE (load rid d) (\<lambda>(run, snapshot, ts).
     bindE (someE RecordNotFound (find_task tid ts)) (\<lambda>(key, target).
     bindE (requireE (InvalidTransition ''coding_context_mismatch'')
              (context_matches ctx (issue_of_run run d))) (\<lambda>_.
     bindE (someE StopIteration (proposal_of_task snapshot target)) (\<lambda>proposal.
     bindE (requireE (InvalidTransition ''coding_task_not_ready'')
              (te_status target = ''queued'' \<and>
               (\<forall>k \<in> set (dependencies proposal). te_status (the (map_of ts k)) = ''completed''))) (\<lambda>_.
     bindE (task_state target ''running'') (\<lambda>t1.
     bindE (advance_run now run snapshot
              (aset key (t1\<lparr>te_output_summary := Some ''coding_in_progress''\<rparr>) ts)) (\<lambda>(run', ts').
     bindE (insert_agent (new_agent fresh rid (Some tid) ''coding'' model now
              [''issue_id'' \<mapsto> JId (iss_id (the (issue_of_run run d))),
               ''task_key'' \<mapsto> JStr (task_key proposal),
               ''context_chunks'' \<mapsto> JInt (int (length (ic_snippets ctx)))])
              (save now run' ts' d)) (\<lambda>d'.
     Inr (d', fresh, coding_input_of proposal ctx ts)))))))))"

definition coding_finish ::
  "uuid \<Rightarrow> uuid \<Rightarrow> uuid \<Rightarrow> bool \<Rightarrow> metadata \<Rightarrow> token_usage option \<Rightarrow> time \<Rightarrow> db \<Rightarrow> service_error + db" where
  "coding_finish rid tid aid success meta usage now d =
     bindE (load rid d) (\<lambda>(run, snapshot, ts).
     bindE (someE RecordNotFound (find_task tid ts)) (\<lambda>(key, target).
     bindE (someE RecordNotFound (find_agent aid d)) (\<lambda>agent.
     bindE (requireE (InvalidTransition ''coding_task_state_changed'')
              (te_status target = ''running'' \<and> ar_status agent = ''running'' \<and>
               ar_execution_run_id agent = rid \<and> ar_task_execution_id agent = Some tid)) (\<lambda>_.
     bindE (agent_state agent (if success then ''completed'' else ''failed'')) (\<lambda>a1.
     bindE (task_state target (if success then te_status target else ''failed'')) (\<lambda>t1.
     bindE (advance_run now run snapshot
              (aset key (t1\<lparr>te_output_summary := Some (if success
                 then ''patch_applied_awaiting_validation'' else ''coding_failed'')\<rparr>) ts)) (\<lambda>(run', ts').
     Inr (save now run' ts' (save_agent (set_usage usage
            (a1\<lparr>ar_completed_at := Some now, ar_output_metadata := meta\<rparr>)) d)))))))))"

section \<open>The agent table\<close>

text \<open>
  Agent runs are never deleted; their identity, owner, type, start and input metadata never
  change, and a finished one never runs again. \<open>agents_kept K\<close> relates the table before and after
  an operation that only adds agents of the types in \<open>K\<close>.
\<close>

definition agent_origin ::
  "agent_run \<Rightarrow> uuid \<times> uuid \<times> uuid option \<times> string \<times> metadata \<times> time option" where
  "agent_origin a = (ar_id a, ar_execution_run_id a, ar_task_execution_id a, ar_agent_type a,
     ar_input_metadata a, ar_started_at a)"

definition agent_evolves :: "agent_run \<Rightarrow> agent_run \<Rightarrow> bool" where
  "agent_evolves a b \<longleftrightarrow> agent_origin b = agent_origin a \<and>
     (ar_status b = ''running'' \<longrightarrow> ar_status a = ''running'')"

definition agents_kept :: "string set \<Rightarrow> db \<Rightarrow> db \<Rightarrow> bool" where
  "agents_kept K d d' \<longleftrightarrow> (\<exists>old new. db_agent_runs d' = old @ new \<and>
     list_all2 agent_evolves (db_agent_runs d) old \<and> (\<forall>a \<in> set new. ar_agent_type a \<in> K))"

lemma agent_evolves_refl [simp]: "agent_evolves a a"
  by (simp add: agent_evolves_def)

lemma agents_kept_same: "db_agent_runs d' = db_agent_runs d \<Longrightarrow> agents_kept K d d'"
  unfolding agents_kept_def
  by (rule exI [of _ "db_agent_runs d"], rule exI [of _ "[]"]) (simp add: list.rel_refl_strong)

lemma agents_kept_refl [simp]: "agents_kept K d d"
  by (simp add: agents_kept_same)

lemma agents_kept_mono: "agents_kept K d d' \<Longrightarrow> K \<subseteq> K' \<Longrightarrow> agents_kept K' d d'"
  by (fastforce simp: agents_kept_def)

lemma agents_kept_frame:
  "db_agent_runs a = db_agent_runs d \<Longrightarrow> db_agent_runs d' = db_agent_runs b \<Longrightarrow>
    agents_kept K a b \<Longrightarrow> agents_kept K d d'"
  by (simp add: agents_kept_def)

lemma put_evolves:
  assumes "distinct (map ar_id rows)" and "a \<in> set rows" and "agent_evolves a b"
  shows "list_all2 agent_evolves rows (put ar_id b rows)"
proof -
  have "agent_evolves x (if ar_id x = ar_id b then b else x)" if "x \<in> set rows" for x
  proof (cases "ar_id x = ar_id b")
    case True
    with assms(3) have "ar_id x = ar_id a" by (simp add: agent_evolves_def agent_origin_def)
    with assms that have "x = a" by (metis distinct_map inj_onD)
    with True assms(3) show ?thesis by simp
  qed simp
  then show ?thesis unfolding put_def list_all2_map2 by (rule list.rel_refl_strong)
qed

lemma agents_kept_save:
  assumes "find_agent aid d = Some a" and "distinct (map ar_id (db_agent_runs d))"
    and "agent_evolves a b"
  shows "agents_kept K d (save_agent b d)"
proof -
  from assms(1) have "a \<in> set (db_agent_runs d)" by (auto simp: find_agent_def dest: fetch_SomeD)
  with assms(2,3) have "list_all2 agent_evolves (db_agent_runs d) (db_agent_runs (save_agent b d))"
    by (simp add: save_agent_def put_evolves)
  then show ?thesis
    unfolding agents_kept_def
    by (intro exI [of _ "db_agent_runs (save_agent b d)"] exI [of _ "[]"]) simp
qed

lemma agents_kept_insert: "insert_agent a d = Inr d' \<Longrightarrow> agents_kept {ar_agent_type a} d d'"
  unfolding agents_kept_def
  by (intro exI [of _ "db_agent_runs d"] exI [of _ "[a]"])
    (auto simp: insert_agent_Inr intro: list.rel_refl_strong)

lemma new_agent_sel [simp]:
  "ar_id (new_agent i rid tid kind model now input) = i"
  "ar_execution_run_id (new_agent i rid tid kind model now input) = rid"
  "ar_task_execution_id (new_agent i rid tid kind model now input) = tid"
  "ar_agent_type (new_agent i rid tid kind model now input) = kind"
  "ar_status (new_agent i rid tid kind model now input) = ''running''"
  "ar_input_metadata (new_agent i rid tid kind model now input) = input"
  "ar_started_at (new_agent i rid tid kind model now input) = Some now"
  by (simp_all add: new_agent_def)

lemma save_agents [simp]: "db_agent_runs (save now run ts d) = db_agent_runs d"
  by (simp add: save_def)

lemma save_frame [simp]:
  "db_plans (save now run ts d) = db_plans d" "db_plan_tasks (save now run ts d) = db_plan_tasks d"
  "db_issues (save now run ts d) = db_issues d"
  "db_repositories (save now run ts d) = db_repositories d"
  "db_pull_requests (save now run ts d) = db_pull_requests d"
  by (simp_all add: save_def)

lemma agent_evolves_finish:
  assumes "agent_state a st = Inr a1" and "st \<in> {''completed'', ''failed''}"
  shows "agent_evolves a (set_usage usage (a1\<lparr>ar_completed_at := c, ar_output_metadata := m\<rparr>))"
    and "agent_evolves a (a1\<lparr>ar_completed_at := c, ar_output_metadata := m\<rparr>)"
    and "agent_evolves a (a1\<lparr>ar_output_metadata := m\<rparr>)"
  using assms by (auto simp: agent_state_Inr agent_evolves_def agent_origin_def set_usage_def
      split: option.split)

lemma exec_inv_insert_agent:
  assumes "exec_inv d" and "insert_agent a d = Inr d'"
  shows "exec_inv d'"
  using assms(1)
  by (rule exec_inv_cong) (use assms in \<open>auto simp: insert_agent_Inr exec_inv_def\<close>)

lemma exec_inv_save_agent: "exec_inv d \<Longrightarrow> exec_inv (save_agent a d)"
  by (rule exec_inv_cong) (simp_all add: save_agent_def exec_inv_def)

lemma load_save_agent [simp]: "load rid (save_agent a d) = load rid d"
  by (rule load_other) simp_all

section \<open>What the coding claims keep\<close>

lemma coding_start_Inr:
  assumes "coding_start rid tid ctx model fresh now d = Inr (d', aid, inputs)"
  obtains run s ts key target proposal t1 run' ts' where "load rid d = Inr (run, s, ts)"
    and "find_task tid ts = Some (key, target)" and "proposal_of_task s target = Some proposal"
    and "context_matches ctx (issue_of_run run d)"
    and "te_status target = ''queued''"
    and "\<forall>k \<in> set (dependencies proposal). te_status (the (map_of ts k)) = ''completed''"
    and "task_state target ''running'' = Inr t1"
    and "advance_run now run s (aset key (t1\<lparr>te_output_summary := Some ''coding_in_progress''\<rparr>) ts) =
           Inr (run', ts')"
    and "insert_agent (new_agent fresh rid (Some tid) ''coding'' model now
              [''issue_id'' \<mapsto> JId (iss_id (the (issue_of_run run d))),
               ''task_key'' \<mapsto> JStr (task_key proposal),
               ''context_chunks'' \<mapsto> JInt (int (length (ic_snippets ctx)))]) (save now run' ts' d) = Inr d'"
    and "aid = fresh" and "inputs = coding_input_of proposal ctx ts"
proof -
  from assms show thesis
    unfolding coding_start_def
    by (elim block_elims, unfold sum.inject prod.inject, elim conjE)
      (rule that, (assumption | simp only:)+)
qed

lemma coding_start_inv:
  assumes "exec_inv d" and "coding_start rid tid ctx model fresh now d = Inr (d', aid, inputs)"
  shows "exec_inv d'" and "agents_kept {''coding''} d d'"
proof -
  from assms(2) obtain run s ts key target proposal t1 run' ts' where
    l: "load rid d = Inr (run, s, ts)" and f: "find_task tid ts = Some (key, target)"
    and "proposal_of_task s target = Some proposal"
    and t1: "task_state target ''running'' = Inr t1"
    and adv: "advance_run now run s (aset key (t1\<lparr>te_output_summary := Some ''coding_in_progress''\<rparr>) ts) =
           Inr (run', ts')"
    and ins: "insert_agent (new_agent fresh rid (Some tid) ''coding'' model now
              [''issue_id'' \<mapsto> JId (iss_id (the (issue_of_run run d))),
               ''task_key'' \<mapsto> JStr (task_key proposal),
               ''context_chunks'' \<mapsto> JInt (int (length (ic_snippets ctx)))]) (save now run' ts' d) = Inr d'"
    by (rule coding_start_Inr) (rule that; assumption)
  have "moved target (t1\<lparr>te_output_summary := Some ''coding_in_progress''\<rparr>)"
    using t1 by (rule moved_task_state) simp
  then have "exec_inv (save now run' ts' d)"
    using find_task_Some [OF f] adv by (intro exec_inv_move [OF assms(1) l]) simp_all
  then show "exec_inv d'" using ins by (rule exec_inv_insert_agent)
  show "agents_kept {''coding''} d d'"
    using agents_kept_insert [OF ins] by (simp add: agents_kept_def)
qed

lemma coding_finish_inv:
  assumes "exec_inv d" and "coding_finish rid tid aid success meta usage now d = Inr d'"
  shows "exec_inv d'" and "agents_kept {} d d'"
proof -
  let ?sum = "Some (if success then ''patch_applied_awaiting_validation'' else ''coding_failed'')"
  from assms(2) obtain run s ts key target agent a1 t1 run' ts' where
    l: "load rid d = Inr (run, s, ts)" and f: "find_task tid ts = Some (key, target)"
    and a: "find_agent aid d = Some agent" and run: "te_status target = ''running''"
    and a1: "agent_state agent (if success then ''completed'' else ''failed'') = Inr a1"
    and t1: "task_state target (if success then te_status target else ''failed'') = Inr t1"
    and adv: "advance_run now run s (aset key (t1\<lparr>te_output_summary := ?sum\<rparr>) ts) = Inr (run', ts')"
    and d': "d' = save now run' ts' (save_agent (set_usage usage
            (a1\<lparr>ar_completed_at := Some now, ar_output_metadata := meta\<rparr>)) d)"
    unfolding coding_finish_def
    by (elim block_elims conjE) (rule that, (assumption | simp)+)
  let ?d = "save_agent (set_usage usage (a1\<lparr>ar_completed_at := Some now, ar_output_metadata := meta\<rparr>)) d"
  have "exec_inv ?d" using assms(1) by (rule exec_inv_save_agent)
  moreover have "moved target (t1\<lparr>te_output_summary := ?sum\<rparr>)"
    using t1 by (rule moved_task_state) (simp add: run)
  ultimately show "exec_inv d'"
    unfolding d' using find_task_Some [OF f] adv l by (intro exec_inv_move [of ?d rid run s ts key target]) simp_all
  have "agents_kept {} d ?d"
    by (rule agents_kept_save [OF a exec_inv_ids(3) [OF assms(1)] agent_evolves_finish(1) [OF a1]]) simp
  then show "agents_kept {} d d'" by (simp add: d' agents_kept_def)
qed

end
