(* ===== verification/Recovery_Records.thy ===== *)
theory Recovery_Records
  imports Coding_Records
begin

text \<open>
  \<^verbatim>\<open>app/services/recovery_records.py\<close>: who owns the repair of a task, how many debug
  attempts it has used, and how the repair ends. The budget is persistent: an attempt is a row
  of the agent table, written in the transaction that claims it.
\<close>

section \<open>Owners and attempts\<close>

definition owns_recovery :: "uuid \<Rightarrow> agent_run \<Rightarrow> bool" where
  "owns_recovery tid a \<longleftrightarrow> ar_task_execution_id a = Some tid \<and> ar_agent_type a = ''recovery'' \<and>
     ar_status a = ''running''"

definition active_recovery :: "uuid \<Rightarrow> db \<Rightarrow> agent_run option" where
  "active_recovery tid d = List.find (owns_recovery tid) (db_agent_runs d)"

definition attempt_of :: "uuid \<Rightarrow> agent_run \<Rightarrow> bool" where
  "attempt_of recovery a \<longleftrightarrow> ar_agent_type a = ''debug'' \<and>
     ar_input_metadata a ''recovery_id'' = Some (JId recovery)"

definition attempt_number :: "agent_run \<Rightarrow> int option" where
  "attempt_number a = jint (ar_input_metadata a ''attempt'')"

definition attempts :: "uuid \<Rightarrow> db \<Rightarrow> agent_run list" where
  "attempts recovery d =
     (let rows = filter (attempt_of recovery) (db_agent_runs d)
      in sort_key (\<lambda>a. the (attempt_number a)) (filter (\<lambda>a. attempt_number a \<noteq> None) rows) @
         filter (\<lambda>a. attempt_number a = None) rows)"

section \<open>Opening a recovery\<close>

definition awaiting_validation :: "task_execution \<Rightarrow> bool" where
  "awaiting_validation t \<longleftrightarrow> te_status t = ''running'' \<and>
     te_output_summary t = Some ''patch_applied_awaiting_validation''"

definition recovery_open ::
  "uuid \<Rightarrow> uuid \<Rightarrow> issue_context \<Rightarrow> repository_test_config \<Rightarrow> nat \<Rightarrow> uuid \<Rightarrow> time \<Rightarrow> db \<Rightarrow>
    service_error + db \<times> uuid \<times> plan_task_proposal \<times> bool" where
  "recovery_open rid tid ctx config limit fresh now d =
     bindE (load rid d) (\<lambda>(run, snapshot, ts).
     bindE (someE (InvalidTransition ''recovery_unavailable'') (find_task tid ts)) (\<lambda>(key, target).
     bindE (requireE (InvalidTransition ''recovery_unavailable'') (active_recovery tid d = None)) (\<lambda>_.
     bindE (requireE (InvalidTransition ''task_not_ready_for_recovery'')
              (te_status target = ''queued'' \<or> awaiting_validation target)) (\<lambda>_.
     bindE (requireE (InvalidTransition ''recovery_context_mismatch'')
              (context_matches ctx (issue_of_run run d))) (\<lambda>_.
     bindE (someE StopIteration (proposal_of_task snapshot target)) (\<lambda>task.
     bindE (insert_agent (new_agent fresh rid (Some tid) ''recovery'' None now
              [''limit'' \<mapsto> JInt (int limit),
               ''required_commands'' \<mapsto> JStrs (required_commands config)]) d) (\<lambda>d'.
     Inr (d', fresh, task, te_status target = ''queued''))))))))"

section \<open>Operations of the owner\<close>

text \<open>\<open>_locked\<close>: the running recovery, its loaded run and the task it repairs.\<close>

definition recovery_locked ::
  "uuid \<Rightarrow> db \<Rightarrow> service_error + agent_run \<times> loaded \<times> (string \<times> task_execution)" where
  "recovery_locked recovery d =
     bindE (someE (InvalidTransition ''recovery_missing'') (find_agent recovery d)) (\<lambda>parent.
     bindE (load (ar_execution_run_id parent) d) (\<lambda>(run, snapshot, ts).
     bindE (someE StopIteration
              (List.find (\<lambda>(k, t). Some (te_id t) = ar_task_execution_id parent) ts)) (\<lambda>target.
     bindE (requireE (InvalidTransition ''recovery_finished'') (ar_status parent = ''running'')) (\<lambda>_.
     Inr (parent, (run, snapshot, ts), target)))))"

record debug_attempt =
  da_number :: nat
  da_status :: string
  da_summary :: string
  da_error :: "string option"

text \<open>
  \<open>str(value)\<close> of a value that is not a string is given by the argument \<open>render\<close>; \<open>truthy\<close> is
  Python's test of a value.
\<close>

definition py_str :: "(jval \<Rightarrow> string) \<Rightarrow> jval \<Rightarrow> string" where
  "py_str render v = (case v of JStr s \<Rightarrow> s | _ \<Rightarrow> render v)"

definition truthy :: "jval option \<Rightarrow> bool" where
  "truthy v = (case v of None \<Rightarrow> False | Some JNull \<Rightarrow> False | Some (JBool b) \<Rightarrow> b
     | Some (JInt n) \<Rightarrow> n \<noteq> 0 | Some (JStr s) \<Rightarrow> s \<noteq> [] | Some (JStrs ss) \<Rightarrow> ss \<noteq> [] | Some _ \<Rightarrow> True)"

definition debug_history :: "(jval \<Rightarrow> string) \<Rightarrow> agent_run list \<Rightarrow> debug_attempt list" where
  "debug_history render previous = map2 (\<lambda>i a.
     \<lparr>da_number = i + 1, da_status = ar_status a,
      da_summary = take 2000 (case ar_output_metadata a ''summary'' of
         None \<Rightarrow> [] | Some v \<Rightarrow> py_str render v),
      da_error = (if truthy (ar_output_metadata a ''error'')
         then map_option (py_str render) (ar_output_metadata a ''error'') else None)\<rparr>)
     [0..<length previous] previous"

text \<open>\<open>isinstance(limit, int)\<close> also holds of a Boolean.\<close>

definition limit_value :: "jval \<Rightarrow> int option" where
  "limit_value v = (case v of JInt n \<Rightarrow> Some n | JBool b \<Rightarrow> Some (if b then 1 else 0) | _ \<Rightarrow> None)"

definition debug_available :: "jval \<Rightarrow> nat \<Rightarrow> task_execution \<Rightarrow> bool" where
  "debug_available limit used target \<longleftrightarrow>
     (case limit_value limit of None \<Rightarrow> False | Some n \<Rightarrow> int used < n) \<and>
     te_status target = ''running'' \<and> te_output_summary target = Some ''recovery_pending''"

definition claim_debug ::
  "(jval \<Rightarrow> string) \<Rightarrow> uuid \<Rightarrow> string option \<Rightarrow> uuid \<Rightarrow> time \<Rightarrow> db \<Rightarrow>
    service_error + db \<times> uuid \<times> debug_attempt list" where
  "claim_debug render recovery model fresh now d =
     bindE (recovery_locked recovery d) (\<lambda>(parent, (run, snapshot, ts), (key, target)).
     let previous = attempts recovery d in
     bindE (someE KeyError (ar_input_metadata parent ''limit'')) (\<lambda>limit.
     bindE (requireE (InvalidTransition ''debug_attempt_unavailable'')
              (debug_available limit (length previous) target)) (\<lambda>_.
     bindE (insert_agent (new_agent fresh (ar_execution_run_id parent) (Some (te_id target)) ''debug''
              model now [''recovery_id'' \<mapsto> JId recovery,
                         ''attempt'' \<mapsto> JInt (int (length previous) + 1)])
              (save now run (aset key (target\<lparr>te_output_summary := Some ''debug_running''\<rparr>) ts) d)) (\<lambda>d'.
     Inr (d', fresh, debug_history render previous)))))"

text \<open>
  \<open>reserve_patch\<close> records the fingerprint of a patch and says whether it is new: different from
  every attempt of this recovery and from the patches of the coding agents of the task.
\<close>

definition coding_fingerprints :: "(string \<Rightarrow> string) \<Rightarrow> uuid option \<Rightarrow> db \<Rightarrow> string list" where
  "coding_fingerprints sha256 tid d = List.map_filter
     (\<lambda>a. case ar_output_metadata a ''proposal'' of
        Some (JProposal p) \<Rightarrow> Some (sha256 (ccp_unified_diff p)) | _ \<Rightarrow> None)
     (filter (\<lambda>a. ar_task_execution_id a = tid \<and> tid \<noteq> None \<and> ar_agent_type a = ''coding'')
       (db_agent_runs d))"

definition reserve_patch ::
  "(string \<Rightarrow> string) \<Rightarrow> uuid \<Rightarrow> uuid \<Rightarrow> string \<Rightarrow> db \<Rightarrow> service_error + db \<times> bool" where
  "reserve_patch sha256 recovery aid fingerprint d =
     bindE (recovery_locked recovery d) (\<lambda>(parent, _, _).
     let tried = attempts recovery d in
     bindE (someE StopIteration (List.find (\<lambda>a. ar_id a = aid) tried)) (\<lambda>agent.
     bindE (requireE (InvalidTransition ''debug_not_running'') (ar_status agent = ''running'')) (\<lambda>_.
     let repeated = (\<exists>a \<in> set tried. ar_output_metadata a ''patch_hash'' = Some (JStr fingerprint)) \<or>
           fingerprint \<in> set (coding_fingerprints sha256 (ar_task_execution_id parent) d)
     in Inr (save_agent (agent\<lparr>ar_output_metadata :=
               (ar_output_metadata agent)(''patch_hash'' \<mapsto> JStr fingerprint)\<rparr>) d, \<not> repeated))))"

definition finish_debug ::
  "uuid \<Rightarrow> uuid \<Rightarrow> metadata \<Rightarrow> bool \<Rightarrow> token_usage option \<Rightarrow> time \<Rightarrow> db \<Rightarrow> service_error + db" where
  "finish_debug recovery aid meta success usage now d =
     bindE (recovery_locked recovery d) (\<lambda>(parent, (run, snapshot, ts), (key, target)).
     bindE (someE (InvalidTransition ''debug_not_running'') (find_agent aid d)) (\<lambda>agent.
     bindE (requireE (InvalidTransition ''debug_not_running'')
              (ar_status agent = ''running'' \<and> ar_task_execution_id agent = Some (te_id target))) (\<lambda>_.
     bindE (agent_state agent (if success then ''completed'' else ''failed'')) (\<lambda>a1.
     Inr (save now run (aset key (target\<lparr>te_output_summary := Some
            (if success then ''patch_applied_awaiting_validation'' else ''recovery_pending'')\<rparr>) ts)
          (save_agent (set_usage usage
            (a1\<lparr>ar_completed_at := Some now,
                ar_output_metadata := ar_output_metadata agent ++ meta\<rparr>)) d))))))"

definition jopt :: "string option \<Rightarrow> jval" where
  "jopt s = (case s of None \<Rightarrow> JNull | Some t \<Rightarrow> JStr t)"

text \<open>\<open>finish\<close> loads the run a second time, through the objects it has just changed.\<close>

definition recovery_finish ::
  "uuid \<Rightarrow> bool \<Rightarrow> string option \<Rightarrow> time \<Rightarrow> db \<Rightarrow> service_error + db" where
  "recovery_finish recovery passed error now d =
     bindE (recovery_locked recovery d) (\<lambda>(parent, (run0, snapshot0, ts0), (key, target)).
     bindE (requireE (InvalidTransition ''tests_not_passed'')
              (passed \<longrightarrow> te_status target = ''running'' \<and>
                 te_output_summary target = Some ''recovery_tests_passed'')) (\<lambda>_.
     bindE (agent_state parent (if passed then ''completed'' else ''failed'')) (\<lambda>p1.
     bindE (task_state target (if passed then ''completed'' else ''failed'')) (\<lambda>t1.
     let target' = t1\<lparr>te_output_summary := Some (if passed then ''required_tests_passed''
           else if or_empty error = [] then ''recovery_failed'' else or_empty error)\<rparr>;
         d1 = save now run0 (aset key target' ts0) (save_agent (p1\<lparr>ar_completed_at := Some now,
           ar_output_metadata := [''error'' \<mapsto> jopt error,
             ''debug_attempts'' \<mapsto> JInt (int (length (attempts recovery d)))]\<rparr>) d)
     in bindE (load (ar_execution_run_id parent) d1) (\<lambda>(run, snapshot, ts).
        bindE (advance_run now run snapshot ts) (\<lambda>(run', ts').
        Inr (save now run' ts' d1)))))))"

section \<open>What the owner's operations keep\<close>

lemma recovery_locked_Inr:
  assumes "recovery_locked recovery d = Inr (parent, (run, s, ts), (key, target))"
  shows "find_agent recovery d = Some parent" and "load (ar_execution_run_id parent) d = Inr (run, s, ts)"
    and "(key, target) \<in> set ts" and "ar_task_execution_id parent = Some (te_id target)"
    and "ar_status parent = ''running''" and "ar_id parent = recovery"
  using assms
  by (auto simp: recovery_locked_def find_Some_iff find_agent_def dest: nth_mem fetch_key)

lemma recovery_open_inv:
  assumes "exec_inv d"
    and "recovery_open rid tid ctx config limit fresh now d = Inr (d', aid, task, needs_coding)"
  shows "exec_inv d'" and "agents_kept {''recovery''} d d'"
    and "insert_agent (new_agent fresh rid (Some tid) ''recovery'' None now
              [''limit'' \<mapsto> JInt (int limit),
               ''required_commands'' \<mapsto> JStrs (required_commands config)]) d = Inr d'"
    and "active_recovery tid d = None"
proof -
  show ins: "insert_agent (new_agent fresh rid (Some tid) ''recovery'' None now
              [''limit'' \<mapsto> JInt (int limit),
               ''required_commands'' \<mapsto> JStrs (required_commands config)]) d = Inr d'"
    and "active_recovery tid d = None"
    using assms(2) by (auto simp: recovery_open_def)
  show "exec_inv d'" using assms(1) ins by (rule exec_inv_insert_agent)
  show "agents_kept {''recovery''} d d'" using agents_kept_insert [OF ins] by simp
qed

lemma claim_debug_Inr:
  assumes "claim_debug render recovery model fresh now d = Inr (d', aid, history)"
  obtains parent run s ts key target limit
  where "recovery_locked recovery d = Inr (parent, (run, s, ts), (key, target))"
    and "ar_input_metadata parent ''limit'' = Some limit"
    and "debug_available limit (length (attempts recovery d)) target"
    and "insert_agent (new_agent fresh (ar_execution_run_id parent) (Some (te_id target)) ''debug''
              model now [''recovery_id'' \<mapsto> JId recovery,
                         ''attempt'' \<mapsto> JInt (int (length (attempts recovery d)) + 1)])
              (save now run (aset key (target\<lparr>te_output_summary := Some ''debug_running''\<rparr>) ts) d)
         = Inr d'"
    and "aid = fresh" and "history = debug_history render (attempts recovery d)"
proof -
  from assms obtain parent run s ts key target
    where l: "recovery_locked recovery d = Inr (parent, (run, s, ts), (key, target))"
    by (auto simp: claim_debug_def)
  from assms show thesis
    unfolding claim_debug_def l bindE_Inr prod.case Let_def
    by (elim block_elims, unfold sum.inject prod.inject, elim conjE)
      (rule that [OF l], (assumption | simp only:)+)
qed

lemma claim_debug_inv:
  assumes "exec_inv d" and "claim_debug render recovery model fresh now d = Inr (d', aid, history)"
  shows "exec_inv d'" and "agents_kept {''debug''} d d'"
proof -
  from assms(2) obtain parent run s ts key target limit
    where l: "recovery_locked recovery d = Inr (parent, (run, s, ts), (key, target))"
      and ins: "insert_agent (new_agent fresh (ar_execution_run_id parent) (Some (te_id target)) ''debug''
              model now [''recovery_id'' \<mapsto> JId recovery,
                         ''attempt'' \<mapsto> JInt (int (length (attempts recovery d)) + 1)])
              (save now run (aset key (target\<lparr>te_output_summary := Some ''debug_running''\<rparr>) ts) d)
         = Inr d'"
    by (rule claim_debug_Inr) (rule that; assumption)
  note locked = recovery_locked_Inr [OF l]
  have "exec_inv (save now run (aset key (target\<lparr>te_output_summary := Some ''debug_running''\<rparr>) ts) d)"
    using assms(1) locked(2,3) moved_summary by (rule exec_inv_touch)
  then show "exec_inv d'" using ins by (rule exec_inv_insert_agent)
  show "agents_kept {''debug''} d d'" using agents_kept_insert [OF ins] by (simp add: agents_kept_def)
qed

lemma set_attempts: "set (attempts recovery d) = {a \<in> set (db_agent_runs d). attempt_of recovery a}"
  by (auto simp: attempts_def Let_def)

lemma length_attempts:
  "length (attempts recovery d) = length (filter (attempt_of recovery) (db_agent_runs d))"
proof -
  let ?rows = "filter (attempt_of recovery) (db_agent_runs d)"
  have "length ?rows = length (filter (\<lambda>a. attempt_number a \<noteq> None) ?rows) +
      length (filter (\<lambda>a. \<not> attempt_number a \<noteq> None) ?rows)"
    by (rule sum_length_filter_compl [symmetric])
  then show ?thesis by (simp only: attempts_def Let_def length_append length_sort not_not)
qed

lemma find_agent_in:
  "a \<in> set (db_agent_runs d) \<Longrightarrow> distinct (map ar_id (db_agent_runs d)) \<Longrightarrow> find_agent (ar_id a) d = Some a"
  by (simp add: find_agent_def fetch_distinct)

lemma reserve_patch_inv:
  assumes "exec_inv d" and "reserve_patch h recovery aid fingerprint d = Inr (d', fresh_patch)"
  shows "exec_inv d'" and "agents_kept {} d d'"
proof -
  from assms(2) obtain agent where f: "List.find (\<lambda>a. ar_id a = aid) (attempts recovery d) = Some agent"
    and d': "d' = save_agent (agent\<lparr>ar_output_metadata :=
               (ar_output_metadata agent)(''patch_hash'' \<mapsto> JStr fingerprint)\<rparr>) d"
    by (auto simp: reserve_patch_def Let_def)
  show "exec_inv d'" unfolding d' using assms(1) by (rule exec_inv_save_agent)
  from f have "agent \<in> set (attempts recovery d)" by (auto simp: find_Some_iff)
  then have "find_agent (ar_id agent) d = Some agent"
    using exec_inv_ids(3) [OF assms(1)] by (intro find_agent_in) (simp_all add: set_attempts)
  then show "agents_kept {} d d'"
    unfolding d' using exec_inv_ids(3) [OF assms(1)]
    by (rule agents_kept_save) (simp add: agent_evolves_def agent_origin_def)
qed

lemma finish_debug_inv:
  assumes "exec_inv d" and "finish_debug recovery aid meta success usage now d = Inr d'"
  shows "exec_inv d'" and "agents_kept {} d d'"
proof -
  from assms(2) obtain parent run s ts key target agent a1
    where l: "recovery_locked recovery d = Inr (parent, (run, s, ts), (key, target))"
      and a: "find_agent aid d = Some agent"
      and a1: "agent_state agent (if success then ''completed'' else ''failed'') = Inr a1"
      and d': "d' = save now run (aset key (target\<lparr>te_output_summary := Some
            (if success then ''patch_applied_awaiting_validation'' else ''recovery_pending'')\<rparr>) ts)
          (save_agent (set_usage usage
            (a1\<lparr>ar_completed_at := Some now,
                ar_output_metadata := ar_output_metadata agent ++ meta\<rparr>)) d)"
    by (auto simp: finish_debug_def)
  note locked = recovery_locked_Inr [OF l]
  let ?d = "save_agent (set_usage usage
      (a1\<lparr>ar_completed_at := Some now, ar_output_metadata := ar_output_metadata agent ++ meta\<rparr>)) d"
  have "exec_inv ?d" using assms(1) by (rule exec_inv_save_agent)
  then show "exec_inv d'"
    unfolding d' using locked(2) by (intro exec_inv_touch [OF _ _ locked(3) moved_summary]) simp_all
  have "agents_kept {} d ?d"
    by (rule agents_kept_save [OF a exec_inv_ids(3) [OF assms(1)] agent_evolves_finish(1) [OF a1]]) simp
  then show "agents_kept {} d d'" by (simp add: d' agents_kept_def)
qed

lemma exec_inv_advance:
  assumes inv: "exec_inv d" and l: "load rid d = Inr (run, s, ts)"
    and adv: "advance_run now run s ts = Inr (run', ts')"
  shows "exec_inv (save now run' ts' d)"
proof -
  note loaded = exec_inv_load [OF inv l]
  note kept = advance_run_inv [OF adv load_valid_plan(3) [OF l] load_fst_dag [OF l] loaded(2) loaded(1)]
  show ?thesis using inv l kept by (rule exec_inv_save)
qed

lemma recovery_finish_Inr:
  assumes "recovery_finish recovery passed error now d = Inr d'"
  obtains parent run0 s0 ts0 key target p1 t1 target' d1 run s ts run' ts'
  where "recovery_locked recovery d = Inr (parent, (run0, s0, ts0), (key, target))"
    and "agent_state parent (if passed then ''completed'' else ''failed'') = Inr p1"
    and "task_state target (if passed then ''completed'' else ''failed'') = Inr t1"
    and "target' = t1\<lparr>te_output_summary := Some (if passed then ''required_tests_passed''
           else if or_empty error = [] then ''recovery_failed'' else or_empty error)\<rparr>"
    and "d1 = save now run0 (aset key target' ts0) (save_agent (p1\<lparr>ar_completed_at := Some now,
           ar_output_metadata := [''error'' \<mapsto> jopt error,
             ''debug_attempts'' \<mapsto> JInt (int (length (attempts recovery d)))]\<rparr>) d)"
    and "load (ar_execution_run_id parent) d1 = Inr (run, s, ts)"
    and "advance_run now run s ts = Inr (run', ts')" and "d' = save now run' ts' d1"
    and "passed \<longrightarrow> te_status target = ''running'' \<and> te_output_summary target = Some ''recovery_tests_passed''"
proof -
  from assms obtain parent run0 s0 ts0 key target
    where l: "recovery_locked recovery d = Inr (parent, (run0, s0, ts0), (key, target))"
    by (auto simp: recovery_finish_def)
  from assms show thesis
    unfolding recovery_finish_def l bindE_Inr prod.case Let_def
    by (elim block_elims, unfold sum.inject prod.inject)
      (rule that [OF l _ _ refl refl], (assumption | simp only:)+)
qed

lemma recovery_finish_inv:
  assumes "exec_inv d" and "recovery_finish recovery passed error now d = Inr d'"
  shows "exec_inv d'" and "agents_kept {} d d'"
proof -
  from assms(2) obtain parent run0 s0 ts0 key target p1 t1 target' d1 run s ts run' ts'
    where l: "recovery_locked recovery d = Inr (parent, (run0, s0, ts0), (key, target))"
      and p1: "agent_state parent (if passed then ''completed'' else ''failed'') = Inr p1"
      and t1: "task_state target (if passed then ''completed'' else ''failed'') = Inr t1"
      and target': "target' = t1\<lparr>te_output_summary := Some (if passed then ''required_tests_passed''
           else if or_empty error = [] then ''recovery_failed'' else or_empty error)\<rparr>"
      and d1: "d1 = save now run0 (aset key target' ts0) (save_agent (p1\<lparr>ar_completed_at := Some now,
           ar_output_metadata := [''error'' \<mapsto> jopt error,
             ''debug_attempts'' \<mapsto> JInt (int (length (attempts recovery d)))]\<rparr>) d)"
      and l': "load (ar_execution_run_id parent) d1 = Inr (run, s, ts)"
      and adv: "advance_run now run s ts = Inr (run', ts')" and d': "d' = save now run' ts' d1"
    by (rule recovery_finish_Inr) (rule that; assumption)
  let ?d = "save_agent (p1\<lparr>ar_completed_at := Some now,
           ar_output_metadata := [''error'' \<mapsto> jopt error,
             ''debug_attempts'' \<mapsto> JInt (int (length (attempts recovery d)))]\<rparr>) d"
  note locked = recovery_locked_Inr [OF l]
  have "exec_inv ?d" using assms(1) by (rule exec_inv_save_agent)
  moreover have "moved target target'"
    unfolding target' using t1 by (rule moved_task_state) simp
  ultimately have "exec_inv d1"
    unfolding d1 using locked(2,3) by (intro exec_inv_touch) simp_all
  then show "exec_inv d'" unfolding d' using l' adv by (rule exec_inv_advance)
  have "agents_kept {} d ?d"
    by (rule agents_kept_save [OF locked(1) exec_inv_ids(3) [OF assms(1)] agent_evolves_finish(2) [OF p1]])
      simp
  then show "agents_kept {} d d'" by (simp add: d' d1 agents_kept_def)
qed

end
