(* ===== verification/Test_Records.thy ===== *)
theory Test_Records
  imports Recovery_Records
begin

text \<open>
  \<^verbatim>\<open>app/services/test_records.py\<close>: claiming the tests of a task and recording their
  outcome. While a recovery owns the task only that recovery may run its tests, and the outcome
  does not end the task; otherwise the tests decide it.
\<close>

section \<open>Claiming tests\<close>

record test_input =
  ti_repository :: context_repository
  ti_task :: plan_task_proposal
  ti_coding_diff :: string
  ti_suggested_tests :: "string list"
  ti_configuration :: repository_test_config

definition context_repository_of :: "repository_row \<Rightarrow> context_repository" where
  "context_repository_of r =
     \<lparr>cr_id = repo_id r, cr_github_owner = repo_github_owner r, cr_github_name = repo_github_name r,
      cr_default_branch = repo_default_branch r, cr_index_status = repo_index_status r,
      cr_embedding_status = repo_embedding_status r\<rparr>"

definition foreign_recovery :: "agent_run option \<Rightarrow> uuid option \<Rightarrow> bool" where
  "foreign_recovery recovery expected \<longleftrightarrow>
     (case recovery of None \<Rightarrow> expected \<noteq> None | Some r \<Rightarrow> Some (ar_id r) \<noteq> expected)"

text \<open>\<open>recovery.input_metadata["required_commands"] != list(config.required_commands)\<close>.\<close>

definition policy_unchanged ::
  "agent_run option \<Rightarrow> repository_test_config \<Rightarrow> service_error + unit" where
  "policy_unchanged recovery config = (case recovery of None \<Rightarrow> Inr ()
     | Some r \<Rightarrow> bindE (someE KeyError (ar_input_metadata r ''required_commands'')) (\<lambda>v.
         requireE (InvalidTransition ''recovery_test_policy_changed'')
           (v = JStrs (required_commands config))))"

definition coding_result :: "uuid \<Rightarrow> uuid \<Rightarrow> bool \<Rightarrow> db \<Rightarrow> agent_run option" where
  "coding_result rid tid in_recovery d = newest_agent (filter
     (\<lambda>a. ar_task_execution_id a = Some tid \<and> ar_execution_run_id a = rid \<and>
          ar_agent_type a \<in> (if in_recovery then {''coding'', ''debug''} else {''coding''}) \<and>
          ar_status a = ''completed'') (db_agent_runs d))"

definition repository_of_run :: "execution_run \<Rightarrow> db \<Rightarrow> repository_row option" where
  "repository_of_run run d = (case issue_of_run run d of None \<Rightarrow> None
     | Some i \<Rightarrow> fetch repo_id (iss_repository_id i) (db_repositories d))"

text \<open>The tests the coding agent suggested; a stored value that is no object suggests none.\<close>

definition suggested_tests_of :: "agent_run \<Rightarrow> string list" where
  "suggested_tests_of coding = (case ar_output_metadata coding ''proposal'' of
     Some (JProposal p) \<Rightarrow> ccp_tests_to_run p | _ \<Rightarrow> [])"

definition coding_diff_of :: "agent_run \<Rightarrow> string option" where
  "coding_diff_of coding = (case ar_output_metadata coding ''git_diff'' of
     Some (JStr diff) \<Rightarrow> Some diff | _ \<Rightarrow> None)"

definition test_start ::
  "uuid \<Rightarrow> uuid \<Rightarrow> repository_test_config \<Rightarrow> uuid option \<Rightarrow> uuid \<Rightarrow> time \<Rightarrow> db \<Rightarrow>
    service_error + db \<times> uuid \<times> test_input" where
  "test_start rid tid config recovery_id fresh now d =
     bindE (load rid d) (\<lambda>(run, snapshot, ts).
     bindE (someE RecordNotFound (find_task tid ts)) (\<lambda>(key, target).
     let recovery = active_recovery tid d in
     bindE (requireE (InvalidTransition ''recovery_owns_tests'')
              (\<not> foreign_recovery recovery recovery_id)) (\<lambda>_.
     bindE (policy_unchanged recovery config) (\<lambda>_.
     bindE (requireE (InvalidTransition ''task_not_awaiting_tests'') (awaiting_validation target)) (\<lambda>_.
     bindE (someE (InvalidTransition ''coding_result_required'')
              (coding_result rid tid (recovery \<noteq> None) d)) (\<lambda>coding.
     bindE (someE (InvalidTransition ''coding_result_required'') (repository_of_run run d)) (\<lambda>repo.
     bindE (someE StopIteration (proposal_of_task snapshot target)) (\<lambda>task.
     bindE (someE (InvalidTransition ''invalid_coding_result'') (coding_diff_of coding)) (\<lambda>diff.
     bindE (requireE (ValueError ''coding_diff'') (length diff \<le> 1048576)) (\<lambda>_.
     bindE (insert_agent (new_agent fresh rid (Some tid) ''test'' None now
              [''required_commands'' \<mapsto> JStrs (required_commands config),
               ''coding_agent_run_id'' \<mapsto> JId (ar_id coding),
               ''task_key'' \<mapsto> JStr (task_key task),
               ''recovery_id'' \<mapsto> (case recovery_id of None \<Rightarrow> JNull | Some i \<Rightarrow> JId i)])
              (save now run (aset key (target\<lparr>te_output_summary := Some ''tests_running''\<rparr>) ts) d)) (\<lambda>d'.
     Inr (d', fresh, \<lparr>ti_repository = context_repository_of repo, ti_task = task,
       ti_coding_diff = diff, ti_suggested_tests = suggested_tests_of coding,
       ti_configuration = config\<rparr>))))))))))))"

section \<open>Recording the outcome\<close>

definition tests_passed :: "test_report \<Rightarrow> string option \<Rightarrow> bool" where
  "tests_passed report error \<longleftrightarrow> error = None \<and> rep_passed report \<and> rep_results report \<noteq> []"

definition test_outcome ::
  "bool \<Rightarrow> bool \<Rightarrow> task_execution \<Rightarrow> service_error + task_execution" where
  "test_outcome in_recovery passed target =
     bindE (if in_recovery then Inr target
            else task_state target (if passed then ''completed'' else ''failed'')) (\<lambda>t1.
     let t2 = t1\<lparr>te_output_summary := Some (if passed then ''required_tests_passed''
                                            else ''required_tests_failed'')\<rparr>
     in if in_recovery
        then bindE (task_state t2 ''running'') (\<lambda>t3. Inr (t3\<lparr>te_output_summary :=
               Some (if passed then ''recovery_tests_passed'' else ''recovery_pending'')\<rparr>))
        else Inr t2)"

definition test_finish ::
  "uuid \<Rightarrow> uuid \<Rightarrow> uuid \<Rightarrow> test_report \<Rightarrow> string option \<Rightarrow> uuid option \<Rightarrow> string option \<Rightarrow> time \<Rightarrow> db \<Rightarrow>
    service_error + db" where
  "test_finish rid tid aid report error recovery_id diff_hash now d =
     bindE (load rid d) (\<lambda>(run, snapshot, ts).
     bindE (someE (InvalidTransition ''test_state_changed'') (find_task tid ts)) (\<lambda>(key, target).
     bindE (someE (InvalidTransition ''test_state_changed'') (find_agent aid d)) (\<lambda>agent.
     bindE (requireE (InvalidTransition ''test_state_changed'')
              (te_status target = ''running'' \<and> te_output_summary target = Some ''tests_running'' \<and>
               ar_status agent = ''running'' \<and> ar_execution_run_id agent = rid \<and>
               ar_task_execution_id agent = Some tid)) (\<lambda>_.
     let passed = tests_passed report error; recovery = active_recovery tid d in
     bindE (requireE (InvalidTransition ''recovery_owns_tests'')
              (\<not> foreign_recovery recovery recovery_id)) (\<lambda>_.
     bindE (agent_state agent (if passed then ''completed'' else ''failed'')) (\<lambda>a1.
     bindE (test_outcome (recovery \<noteq> None) passed target) (\<lambda>target'.
     bindE (advance_run now run snapshot (aset key target' ts)) (\<lambda>(run', ts').
     Inr (save now run' ts' (save_agent (a1\<lparr>ar_completed_at := Some now,
            ar_output_metadata := [''report'' \<mapsto> JReport report, ''error_code'' \<mapsto> jopt error,
              ''workspace_diff_hash'' \<mapsto> jopt diff_hash]\<rparr>) d))))))))))"

section \<open>What the test records keep\<close>

lemma test_start_Inr:
  assumes "test_start rid tid config recovery_id fresh now d = Inr (d', aid, inputs)"
  obtains run s ts key target u coding repo task diff
  where "load rid d = Inr (run, s, ts)" and "find_task tid ts = Some (key, target)"
    and "\<not> foreign_recovery (active_recovery tid d) recovery_id"
    and "policy_unchanged (active_recovery tid d) config = Inr u"
    and "awaiting_validation target"
    and "coding_result rid tid (active_recovery tid d \<noteq> None) d = Some coding"
    and "repository_of_run run d = Some repo"
    and "proposal_of_task s target = Some task" and "coding_diff_of coding = Some diff"
    and "insert_agent (new_agent fresh rid (Some tid) ''test'' None now
              [''required_commands'' \<mapsto> JStrs (required_commands config),
               ''coding_agent_run_id'' \<mapsto> JId (ar_id coding),
               ''task_key'' \<mapsto> JStr (task_key task),
               ''recovery_id'' \<mapsto> (case recovery_id of None \<Rightarrow> JNull | Some i \<Rightarrow> JId i)])
              (save now run (aset key (target\<lparr>te_output_summary := Some ''tests_running''\<rparr>) ts) d)
         = Inr d'"
    and "inputs = \<lparr>ti_repository = context_repository_of repo, ti_task = task,
       ti_coding_diff = diff, ti_suggested_tests = suggested_tests_of coding,
       ti_configuration = config\<rparr>"
    and "aid = fresh"
proof -
  from assms show thesis
    unfolding test_start_def Let_def
    by (elim block_elims, unfold sum.inject prod.inject, elim conjE)
      (rule that, (assumption | simp only:)+)
qed

lemma test_start_inv:
  assumes "exec_inv d" and "test_start rid tid config recovery_id fresh now d = Inr (d', aid, inputs)"
  shows "exec_inv d'" and "agents_kept {''test''} d d'"
proof -
  from assms(2) obtain run s ts key target coding repo task diff
    where l: "load rid d = Inr (run, s, ts)" and f: "find_task tid ts = Some (key, target)"
      and "coding_result rid tid (active_recovery tid d \<noteq> None) d = Some coding"
      and "repository_of_run run d = Some repo"
      and "proposal_of_task s target = Some task" and "coding_diff_of coding = Some diff"
      and ins: "insert_agent (new_agent fresh rid (Some tid) ''test'' None now
              [''required_commands'' \<mapsto> JStrs (required_commands config),
               ''coding_agent_run_id'' \<mapsto> JId (ar_id coding),
               ''task_key'' \<mapsto> JStr (task_key task),
               ''recovery_id'' \<mapsto> (case recovery_id of None \<Rightarrow> JNull | Some i \<Rightarrow> JId i)])
              (save now run (aset key (target\<lparr>te_output_summary := Some ''tests_running''\<rparr>) ts) d)
         = Inr d'"
    by (rule test_start_Inr) (rule that; assumption)
  have "exec_inv (save now run (aset key (target\<lparr>te_output_summary := Some ''tests_running''\<rparr>) ts) d)"
    using find_task_Some [OF f] by (intro exec_inv_touch [OF assms(1) l _ moved_summary]) simp
  then show "exec_inv d'" using ins by (rule exec_inv_insert_agent)
  show "agents_kept {''test''} d d'" using agents_kept_insert [OF ins] by (simp add: agents_kept_def)
qed

lemma test_outcome_Inr:
  assumes "test_outcome in_recovery passed t = Inr t'"
  shows "same_task t t'" and "te_status t' = (if in_recovery then ''running''
      else if passed then ''completed'' else ''failed'')"
    and "te_status t = ''running'' \<Longrightarrow> moved t t'"
  using assms
  by (auto simp: test_outcome_def Let_def task_state_Inr moved_def same_task_def task_successors
      split: if_splits)

lemma test_finish_Inr:
  assumes "test_finish rid tid aid report error recovery_id diff_hash now d = Inr d'"
  obtains run s ts key target agent a1 target' run' ts'
  where "load rid d = Inr (run, s, ts)" and "find_task tid ts = Some (key, target)"
    and "find_agent aid d = Some agent"
    and "te_status target = ''running''" and "te_output_summary target = Some ''tests_running''"
    and "ar_status agent = ''running''" and "ar_task_execution_id agent = Some tid"
    and "\<not> foreign_recovery (active_recovery tid d) recovery_id"
    and "agent_state agent (if tests_passed report error then ''completed'' else ''failed'') = Inr a1"
    and "test_outcome (active_recovery tid d \<noteq> None) (tests_passed report error) target = Inr target'"
    and "advance_run now run s (aset key target' ts) = Inr (run', ts')"
    and "d' = save now run' ts' (save_agent (a1\<lparr>ar_completed_at := Some now,
            ar_output_metadata := [''report'' \<mapsto> JReport report, ''error_code'' \<mapsto> jopt error,
              ''workspace_diff_hash'' \<mapsto> jopt diff_hash]\<rparr>) d)"
proof -
  from assms show thesis
    unfolding test_finish_def Let_def
    by (elim block_elims, unfold sum.inject prod.inject, elim conjE)
      (rule that, (assumption | simp only:)+)
qed

lemma test_finish_inv:
  assumes "exec_inv d" and "test_finish rid tid aid report error recovery_id diff_hash now d = Inr d'"
  shows "exec_inv d'" and "agents_kept {} d d'"
proof -
  from assms(2) obtain run s ts key target agent a1 target' run' ts'
    where l: "load rid d = Inr (run, s, ts)" and f: "find_task tid ts = Some (key, target)"
      and a: "find_agent aid d = Some agent" and st: "te_status target = ''running''"
      and a1: "agent_state agent (if tests_passed report error then ''completed'' else ''failed'') = Inr a1"
      and out: "test_outcome (active_recovery tid d \<noteq> None) (tests_passed report error) target = Inr target'"
      and adv: "advance_run now run s (aset key target' ts) = Inr (run', ts')"
      and d': "d' = save now run' ts' (save_agent (a1\<lparr>ar_completed_at := Some now,
            ar_output_metadata := [''report'' \<mapsto> JReport report, ''error_code'' \<mapsto> jopt error,
              ''workspace_diff_hash'' \<mapsto> jopt diff_hash]\<rparr>) d)"
    by (rule test_finish_Inr) (rule that; assumption)
  let ?d = "save_agent (a1\<lparr>ar_completed_at := Some now,
            ar_output_metadata := [''report'' \<mapsto> JReport report, ''error_code'' \<mapsto> jopt error,
              ''workspace_diff_hash'' \<mapsto> jopt diff_hash]\<rparr>) d"
  have "exec_inv ?d" using assms(1) by (rule exec_inv_save_agent)
  then show "exec_inv d'"
    unfolding d' using find_task_Some [OF f] l test_outcome_Inr(3) [OF out st] adv
    by (intro exec_inv_move [of ?d rid run s ts key target target']) simp_all
  have "agents_kept {} d ?d"
    by (rule agents_kept_save [OF a exec_inv_ids(3) [OF assms(1)] agent_evolves_finish(2) [OF a1]]) simp
  then show "agents_kept {} d d'" by (simp add: d' agents_kept_def)
qed

end
