(* ===== verification/Review_Gate.thy ===== *)
theory Review_Gate
  imports Test_Records
begin

text \<open>
  The fixed test commands of \<^verbatim>\<open>app/agents/testing.py\<close> and the mechanical evidence check
  of \<^verbatim>\<open>app/orchestration/review_gate.py\<close>. The theorem of the second part says what an
  empty list of errors means: every task of the run ended with passing required tests that ran
  after, and on, its last patch.
\<close>

section \<open>Approved commands\<close>

definition COMMANDS :: "(string \<times> (string \<times> string list)) list" where
  "COMMANDS =
     [(''pytest'', ''python'', [''pytest'']),
      (''python -m pytest'', ''python'', [''python'', ''-m'', ''pytest'']),
      (''python -m unittest'', ''python'', [''python'', ''-m'', ''unittest'', ''discover'']),
      (''npm test'', ''node'', [''npm'', ''test'']),
      (''npm run test'', ''node'', [''npm'', ''run'', ''test'']),
      (''npm run lint'', ''node'', [''npm'', ''run'', ''lint'']),
      (''pnpm test'', ''node'', [''pnpm'', ''test'']),
      (''yarn test'', ''node'', [''yarn'', ''test'']),
      (''go test'', ''go'', [''go'', ''test'', ''./...'']),
      (''cargo test'', ''rust'', [''cargo'', ''test''])]"

record approved_test =
  at_image :: string
  at_command :: "string list"

text \<open>\<open>dict.fromkeys(xs)\<close>: the first occurrence of each key, in order.\<close>

fun from_keys :: "'a list \<Rightarrow> 'a list" where
  "from_keys [] = []"
| "from_keys (x # xs) = x # filter (\<lambda>y. y \<noteq> x) (from_keys xs)"

lemma set_from_keys [simp]: "set (from_keys xs) = set xs"
  by (induction xs) auto

lemma distinct_from_keys [simp]: "distinct (from_keys xs)"
  by (induction xs) auto

lemma from_keys_distinct: "distinct xs \<Longrightarrow> from_keys xs = xs"
  by (induction xs) (auto simp: filter_id_conv)

lemma from_keys_idem [simp]: "from_keys (from_keys xs) = from_keys xs"
  by (rule from_keys_distinct) simp

definition valid_policy :: "string list \<Rightarrow> bool" where
  "valid_policy allowed \<longleftrightarrow> allowed \<noteq> [] \<and> set allowed \<subseteq> fst ` set COMMANDS"

text \<open>\<open>ApprovedTest(*COMMANDS[name])\<close>.\<close>

definition approved_profile :: "string \<Rightarrow> service_error + approved_test" where
  "approved_profile name = (case map_of COMMANDS name of
     None \<Rightarrow> Inl KeyError
   | Some (img, command) \<Rightarrow> Inr \<lparr>at_image = img, at_command = command\<rparr>)"

definition select_tests :: "string list \<Rightarrow> test_input \<Rightarrow> service_error + approved_test list" where
  "select_tests allowed inputs =
     (let required = required_commands (ti_configuration inputs)
      in if \<exists>name \<in> set required. name \<notin> set allowed
         then Inl (ValueError ''test_command_not_allowed'')
         else mapE approved_profile (from_keys required))"

section \<open>The evidence check\<close>

definition argv_of :: "string \<Rightarrow> string list" where
  "argv_of name = snd (the (map_of COMMANDS name))"

definition expected_commands :: "repository_test_config \<Rightarrow> string list set" where
  "expected_commands required =
     argv_of ` {name \<in> set (required_commands required). name \<in> fst ` set COMMANDS}"

definition stored_report :: "agent_run \<Rightarrow> test_report option" where
  "stored_report a = (case ar_output_metadata a ''report'' of Some (JReport r) \<Rightarrow> Some r | _ \<Rightarrow> None)"

definition stored_null :: "jval option \<Rightarrow> bool" where
  "stored_null v \<longleftrightarrow> v = None \<or> v = Some JNull"

definition patch_agent :: "agent_run \<Rightarrow> bool" where
  "patch_agent a \<longleftrightarrow> ar_agent_type a \<in> {''coding'', ''debug''} \<and> ar_status a = ''completed''"

definition report_failed :: "agent_run \<Rightarrow> test_report \<Rightarrow> bool" where
  "report_failed chk report \<longleftrightarrow>
     ar_status chk \<noteq> ''completed'' \<or> \<not> stored_null (ar_output_metadata chk ''error_code'') \<or>
     \<not> rep_passed report \<or> rep_results report = [] \<or>
     (\<exists>r \<in> set (rep_results report). tr_exit_code r \<noteq> Some 0 \<or> tr_timeout r \<or> \<not> tr_passed r)"

definition commands_missing :: "string list set \<Rightarrow> test_report \<Rightarrow> bool" where
  "commands_missing expected report \<longleftrightarrow>
     (let actual = map tr_command (rep_results report)
      in set actual \<noteq> expected \<or> length actual \<noteq> card expected)"

definition tests_stale :: "agent_run \<Rightarrow> agent_run \<Rightarrow> bool" where
  "tests_stale chk patch \<longleftrightarrow>
     ar_input_metadata chk ''coding_agent_run_id'' \<noteq> Some (JId (ar_id patch)) \<or>
     (case (ar_started_at chk, ar_completed_at patch) of
        (Some began, Some ended) \<Rightarrow> began < ended | _ \<Rightarrow> True)"

definition report_errors ::
  "string \<Rightarrow> string list set \<Rightarrow> agent_run \<Rightarrow> agent_run \<Rightarrow> test_report \<Rightarrow> string list" where
  "report_errors key expected chk patch report =
     (if report_failed chk report then [''required_tests_failed:'' @ key] else []) @
     (if commands_missing expected report then [''required_tests_missing:'' @ key] else []) @
     (if tests_stale chk patch then [''stale_task_tests:'' @ key] else [])"

text \<open>
  The body of the loop for one task: its evidence, its errors, and its latest test, each empty
  or of one element except the errors.
\<close>

definition task_evidence ::
  "string list set \<Rightarrow> agent_run list \<Rightarrow> string \<times> task_execution \<Rightarrow>
    review_test_evidence list \<times> string list \<times> agent_run list" where
  "task_evidence expected agents kt = (case kt of (key, task) \<Rightarrow>
     let incomplete = (if te_status task \<noteq> ''completed'' then [''task_incomplete:'' @ key] else []);
         history = filter (\<lambda>a. ar_task_execution_id a = Some (te_id task)) agents;
         checks = filter (\<lambda>a. ar_agent_type a = ''test'') history;
         patches = filter patch_agent history
     in if checks = [] \<or> patches = [] then ([], incomplete @ [''missing_test_evidence:'' @ key], [])
        else let chk = last checks; patch = last patches
          in case stored_report chk of
               None \<Rightarrow> ([], incomplete @ [''invalid_test_report:'' @ key], [chk])
             | Some report \<Rightarrow>
                 ([\<lparr>rte_task_key = key, rte_agent_run_id = ar_id chk, rte_report = report\<rparr>],
                  incomplete @ report_errors key expected chk patch report, [chk]))"

text \<open>The last agent of the list that is one of the latest tests, else the last of these.\<close>

definition latest_test :: "agent_run list \<Rightarrow> agent_run list \<Rightarrow> agent_run option" where
  "latest_test latest_tests agents =
     (if latest_tests = [] then None
      else Some (last (last latest_tests # filter (\<lambda>a. ar_id a \<in> ar_id ` set latest_tests) agents)))"

definition stored_fingerprint :: "agent_run option \<Rightarrow> string option" where
  "stored_fingerprint latest = (case latest of None \<Rightarrow> None
     | Some a \<Rightarrow> (case ar_output_metadata a ''workspace_diff_hash'' of Some (JStr s) \<Rightarrow> Some s | _ \<Rightarrow> None))"

definition test_evidence ::
  "task_dict \<Rightarrow> agent_run list \<Rightarrow> repository_test_config \<Rightarrow>
    review_test_evidence list \<times> string list \<times> string option" where
  "test_evidence ts agents required =
     (let expected = expected_commands required
      in if (\<exists>name \<in> set (required_commands required). name \<notin> fst ` set COMMANDS) \<or> expected = {}
         then ([], [''invalid_required_test_policy''], None)
         else let parts = map (task_evidence expected agents) ts;
                  evidence = concat (map fst parts);
                  errors = concat (map (\<lambda>(_, e, _). e) parts);
                  latest_tests = concat (map (\<lambda>(_, _, l). l) parts);
                  fingerprint = stored_fingerprint (latest_test latest_tests agents)
              in (evidence,
                  errors @
                  (if fingerprint = None then [''missing_workspace_test_fingerprint''] else []) @
                  (if \<exists>a \<in> set agents. ar_status a = ''running'' then [''implementation_agent_running'']
                   else []),
                  fingerprint))"

section \<open>What the checks mean\<close>

text \<open>
  The untrusted suggestions of an agent never choose a command: what is selected is the profile
  of each required command, once, and the suggested tests do not occur.
\<close>

lemma approved_profile_Inr:
  assumes "approved_profile name = Inr t"
  shows "at_command t = argv_of name" and "(at_image t, at_command t) \<in> snd ` set COMMANDS"
proof -
  from assms obtain img command where m: "map_of COMMANDS name = Some (img, command)"
    and t: "t = \<lparr>at_image = img, at_command = command\<rparr>"
    by (auto simp: approved_profile_def split: option.splits)
  from map_of_SomeD [OF m] have "(img, command) \<in> snd ` set COMMANDS"
    by (rule rev_image_eqI) simp
  with m t show "at_command t = argv_of name" and "(at_image t, at_command t) \<in> snd ` set COMMANDS"
    by (simp_all add: argv_of_def)
qed

lemma select_tests_Inr:
  assumes "select_tests allowed inputs = Inr tests"
  shows "set (required_commands (ti_configuration inputs)) \<subseteq> set allowed"
    and "map at_command tests = map argv_of (from_keys (required_commands (ti_configuration inputs)))"
    and "\<forall>t \<in> set tests. (at_image t, at_command t) \<in> snd ` set COMMANDS"
proof -
  let ?req = "required_commands (ti_configuration inputs)"
  from assms show "set ?req \<subseteq> set allowed"
    by (auto simp: select_tests_def Let_def split: if_splits)
  from assms have m: "list_all2 (\<lambda>x y. approved_profile x = Inr y) (from_keys ?req) tests"
    by (simp add: select_tests_def Let_def mapE_eq_Inr split: if_splits)
  then show "map at_command tests = map argv_of (from_keys ?req)"
    by (induction rule: list_all2_induct) (simp_all add: approved_profile_Inr)
  from m show "\<forall>t \<in> set tests. (at_image t, at_command t) \<in> snd ` set COMMANDS"
    by (induction rule: list_all2_induct) (auto dest: approved_profile_Inr(2))
qed

lemma approved_profile_known:
  "name \<in> fst ` set COMMANDS \<Longrightarrow> \<exists>t. approved_profile name = Inr t"
  using map_of_eq_None_iff [of COMMANDS name]
  by (auto simp: approved_profile_def simp del: map_of_eq_None_iff split: option.split)

lemma select_tests_total:
  assumes "valid_policy allowed" and "set (required_commands (ti_configuration inputs)) \<subseteq> set allowed"
  shows "\<exists>tests. select_tests allowed inputs = Inr tests"
proof -
  have "\<exists>tests. mapE approved_profile (from_keys (required_commands (ti_configuration inputs))) = Inr tests"
    by (rule mapE_total) (use assms approved_profile_known in \<open>unfold set_from_keys valid_policy_def, blast\<close>)
  with assms(2) show ?thesis by (auto simp: select_tests_def Let_def)
qed

text \<open>A task the gate accepts.\<close>

definition task_proved :: "string list set \<Rightarrow> agent_run list \<Rightarrow> task_execution \<Rightarrow> bool" where
  "task_proved expected agents task \<longleftrightarrow>
     te_status task = ''completed'' \<and>
     (\<exists>chk patch report.
        chk \<in> set agents \<and> ar_task_execution_id chk = Some (te_id task) \<and>
        ar_agent_type chk = ''test'' \<and> ar_status chk = ''completed'' \<and>
        patch \<in> set agents \<and> ar_task_execution_id patch = Some (te_id task) \<and> patch_agent patch \<and>
        stored_report chk = Some report \<and> \<not> report_failed chk report \<and>
        \<not> commands_missing expected report \<and> \<not> tests_stale chk patch \<and>
        (\<forall>a b. agents = a @ patch # b \<longrightarrow>
          (\<forall>x \<in> set b. ar_task_execution_id x = Some (te_id task) \<longrightarrow> \<not> patch_agent x) \<or> patch \<in> set b))"

lemma last_filter_in: "filter P xs \<noteq> [] \<Longrightarrow> last (filter P xs) \<in> set xs \<and> P (last (filter P xs))"
  using last_in_set [of "filter P xs"] by simp

lemma last_filter_after:
  assumes "last (filter P xs) = x" and "xs = a @ x # b" and "x \<notin> set b" and "P x"
  shows "\<forall>y \<in> set b. \<not> P y"
proof (rule ccontr)
  assume "\<not> (\<forall>y \<in> set b. \<not> P y)"
  then have "filter P b \<noteq> []" by (auto simp: filter_empty_conv)
  then have "last (filter P xs) \<in> set b"
    using last_filter_in [of P b] assms(2,4) by simp
  with assms(1,3) show False by simp
qed

lemma task_evidence_ok:
  assumes "task_evidence expected agents (key, task) = (ev, [], l)"
  shows "task_proved expected agents task"
proof -
  define history where "history = filter (\<lambda>a. ar_task_execution_id a = Some (te_id task)) agents"
  define checks where "checks = filter (\<lambda>a. ar_agent_type a = ''test'') history"
  define patches where "patches = filter patch_agent history"
  from assms have fin: "te_status task = ''completed''"
    and ne: "checks \<noteq> []" "patches \<noteq> []"
    by (auto simp: task_evidence_def Let_def checks_def patches_def history_def split: if_splits option.splits)
  from assms ne obtain report where rep: "stored_report (last checks) = Some report"
    and ok: "report_errors key expected (last checks) (last patches) report = []"
    by (auto simp: task_evidence_def Let_def checks_def patches_def history_def split: if_splits option.splits)
  have c: "last checks \<in> set history" "ar_agent_type (last checks) = ''test''"
    and p: "last patches \<in> set history" "patch_agent (last patches)"
    using ne last_filter_in unfolding checks_def patches_def by blast+
  have "\<not> report_failed (last checks) report" "\<not> commands_missing expected report"
    "\<not> tests_stale (last checks) (last patches)"
    using ok by (auto simp: report_errors_def split: if_splits)
  moreover have "(\<forall>x \<in> set b. ar_task_execution_id x = Some (te_id task) \<longrightarrow> \<not> patch_agent x) \<or> last patches \<in> set b"
    if "agents = a @ last patches # b" for a b
  proof (cases "last patches \<in> set b")
    case False
    have eq: "last (filter (\<lambda>a. ar_task_execution_id a = Some (te_id task) \<and> patch_agent a) agents) = last patches"
      unfolding patches_def history_def filter_filter ..
    from last_filter_after [OF eq that False] p show ?thesis by (auto simp: history_def)
  qed simp
  moreover from this have "ar_status (last checks) = ''completed''"
    using \<open>\<not> report_failed (last checks) report\<close> by (simp add: report_failed_def)
  ultimately show ?thesis
    unfolding task_proved_def using fin c p rep by (auto simp: history_def)
qed

lemma test_evidence_ok:
  assumes "test_evidence ts agents required = (ev, [], fingerprint)"
  shows "\<forall>task \<in> snd ` set ts. task_proved (expected_commands required) agents task"
    and "expected_commands required = argv_of ` set (required_commands required)"
    and "expected_commands required \<noteq> {}"
    and "\<forall>a \<in> set agents. ar_status a \<noteq> ''running''" and "fingerprint \<noteq> None"
proof -
  let ?e = "expected_commands required"
  define bad where "bad = ((\<exists>name \<in> set (required_commands required). name \<notin> fst ` set COMMANDS) \<or> ?e = {})"
  define parts where "parts = map (task_evidence ?e agents) ts"
  define fp where "fp = stored_fingerprint (latest_test (concat (map (\<lambda>(_, _, l). l) parts)) agents)"
  have te: "test_evidence ts agents required =
      (if bad then ([], [''invalid_required_test_policy''], None)
       else (concat (map fst parts), concat (map (\<lambda>(_, e, _). e) parts) @
          (if fp = None then [''missing_workspace_test_fingerprint''] else []) @
          (if \<exists>a \<in> set agents. ar_status a = ''running'' then [''implementation_agent_running''] else []), fp))"
    unfolding test_evidence_def Let_def bad_def parts_def fp_def ..
  from assms have good: "\<not> bad" unfolding te by (auto split: if_splits)
  with assms have parts: "concat (map (\<lambda>(_, e, _). e) parts) = []" "fingerprint \<noteq> None"
    "\<forall>a \<in> set agents. ar_status a \<noteq> ''running''"
    unfolding te by (auto split: if_splits)
  from good have known: "\<forall>name \<in> set (required_commands required). name \<in> fst ` set COMMANDS"
    and "?e \<noteq> {}" unfolding bad_def by blast+
  from parts(1) have errors: "concat (map (\<lambda>(_, e, _). e) (map (task_evidence ?e agents) ts)) = []"
    by (simp add: parts_def)
  note \<open>?e \<noteq> {}\<close> parts(2,3)
  then show "?e \<noteq> {}" "\<forall>a \<in> set agents. ar_status a \<noteq> ''running''" "fingerprint \<noteq> None" by simp_all
  show "?e = argv_of ` set (required_commands required)"
    using known by (auto simp: expected_commands_def)
  have "fst (snd (task_evidence ?e agents (key, task))) = []" if "(key, task) \<in> set ts" for key task
    using errors that by (force simp: case_prod_unfold)
  note no_error = this
  have "task_proved ?e agents task" if "(key, task) \<in> set ts" for key task
  proof -
    obtain e er l where t: "task_evidence ?e agents (key, task) = (e, er, l)"
      by (metis prod.exhaust)
    with no_error [OF that] have "er = []" by simp
    with t show ?thesis by (simp add: task_evidence_ok)
  qed
  then show "\<forall>task \<in> snd ` set ts. task_proved ?e agents task" by auto
qed

end
