(* ===== verification/Review_Records.thy ===== *)
theory Review_Records
  imports Review_Gate
begin

text \<open>
  \<^verbatim>\<open>app/services/review_records.py\<close>: what a review sees, and how its decision is
  recorded. The evidence is collected again when the review ends; its hash must not have changed,
  and the approval stands only without any mechanical error. \<open>digest\<close> stands for the SHA-256 of
  the serialised evidence.
\<close>

section \<open>The evidence of a review\<close>

record review_input =
  ri_context :: issue_context
  ri_plan :: plan_proposal
  ri_task_outcomes :: "task_execution_response list"
  ri_full_diff :: string
  ri_test_results :: "review_test_evidence list"

record review_snapshot =
  rs_inputs :: review_input
  rs_errors :: "string list"
  rs_tested_diff_hash :: "string option"
  rs_evidence_hash :: string

type_synonym evidence = "review_input \<times> string list \<times> string option \<times> repository_test_config"

text \<open>\<open>ORDER BY started_at, id\<close>.\<close>

fun insert_agent_order :: "agent_run \<Rightarrow> agent_run list \<Rightarrow> agent_run list" where
  "insert_agent_order a [] = [a]"
| "insert_agent_order a (b # bs) =
     (if later_agent b a then a # b # bs else b # insert_agent_order a bs)"

definition order_agents :: "agent_run list \<Rightarrow> agent_run list" where
  "order_agents as = foldr insert_agent_order as []"

lemma set_insert_agent_order [simp]: "set (insert_agent_order a bs) = insert a (set bs)"
  by (induction bs) auto

lemma set_order_agents [simp]: "set (order_agents as) = set as"
  unfolding order_agents_def by (induction as) auto

definition implementation_agents :: "uuid \<Rightarrow> db \<Rightarrow> agent_run list" where
  "implementation_agents rid d = order_agents (filter (\<lambda>a. ar_execution_run_id a = rid \<and>
     ar_agent_type a \<in> {''coding'', ''debug'', ''test'', ''recovery''}) (db_agent_runs d))"

definition review_load ::
  "(evidence \<Rightarrow> string) \<Rightarrow> uuid \<Rightarrow> issue_context \<Rightarrow> repository_test_config \<Rightarrow> db \<Rightarrow>
    service_error + review_snapshot" where
  "review_load digest rid ctx required d =
     bindE (load rid d) (\<lambda>(run, snapshot, ts).
     bindE (requireE (InvalidTransition ''review_context_mismatch'')
              (context_matches ctx (issue_of_run run d))) (\<lambda>_.
     case test_evidence ts (implementation_agents rid d) required of (evidence, errors0, fingerprint) \<Rightarrow>
     let errors = errors0 @ (if run_status run \<noteq> ''completed'' then [''execution_incomplete''] else []) in
     bindE (response run snapshot ts) (\<lambda>resp.
     let inputs = \<lparr>ri_context = ctx, ri_plan = snap_proposal snapshot,
                   ri_task_outcomes = er_tasks resp, ri_full_diff = [], ri_test_results = evidence\<rparr> in
     Inr \<lparr>rs_inputs = inputs, rs_errors = errors, rs_tested_diff_hash = fingerprint,
          rs_evidence_hash = digest (inputs, errors, fingerprint, required)\<rparr>)))"

section \<open>Claims and decisions\<close>

definition review_start ::
  "(evidence \<Rightarrow> string) \<Rightarrow> uuid \<Rightarrow> issue_context \<Rightarrow> repository_test_config \<Rightarrow> string option \<Rightarrow> uuid \<Rightarrow>
    time \<Rightarrow> db \<Rightarrow> service_error + db \<times> uuid \<times> review_snapshot" where
  "review_start digest rid ctx required model fresh now d =
     bindE (review_load digest rid ctx required d) (\<lambda>snapshot.
     bindE (requireE (InvalidTransition ''review_already_running'')
       (\<not> (\<exists>a \<in> set (db_agent_runs d). ar_execution_run_id a = rid \<and> ar_agent_type a = ''review'' \<and>
              ar_status a = ''running''))) (\<lambda>_.
     bindE (insert_agent (new_agent fresh rid None ''review'' model now
              [''issue_id'' \<mapsto> JId (ci_id (cs_issue ctx)),
               ''evidence_hash'' \<mapsto> JStr (rs_evidence_hash snapshot),
               ''required_commands'' \<mapsto> JStrs (required_commands required)]) d) (\<lambda>d'.
     Inr (d', fresh, snapshot))))"

definition final_decision ::
  "review_decision \<Rightarrow> bool \<Rightarrow> string option \<Rightarrow> review_decision" where
  "final_decision decision changed error =
     (let errors = rd_mechanical_errors decision @
            (if changed then [''execution_changed_during_review''] else [])
      in decision\<lparr>rd_mechanical_errors := from_keys errors,
           rd_approved := rd_approved decision \<and> errors = [] \<and> error = None\<rparr>)"

definition review_finish ::
  "(evidence \<Rightarrow> string) \<Rightarrow> uuid \<Rightarrow> uuid \<Rightarrow> issue_context \<Rightarrow> repository_test_config \<Rightarrow> review_snapshot \<Rightarrow>
    review_decision \<Rightarrow> token_usage option \<Rightarrow> string option \<Rightarrow> time \<Rightarrow> db \<Rightarrow>
    service_error + db \<times> review_decision" where
  "review_finish digest rid aid ctx required snapshot decision usage error now d =
     bindE (review_load digest rid ctx required d) (\<lambda>current.
     bindE (someE (InvalidTransition ''review_state_changed'') (find_agent aid d)) (\<lambda>agent.
     bindE (requireE (InvalidTransition ''review_state_changed'')
              (ar_status agent = ''running'' \<and> ar_execution_run_id agent = rid)) (\<lambda>_.
     let final = final_decision decision (rs_evidence_hash current \<noteq> rs_evidence_hash snapshot) error in
     bindE (agent_state agent (if or_empty error \<noteq> [] then ''failed'' else ''completed'')) (\<lambda>a1.
     Inr (save_agent (set_usage usage (a1\<lparr>ar_completed_at := Some now,
            ar_output_metadata := [''decision'' \<mapsto> JDecision final, ''error_code'' \<mapsto> jopt error]\<rparr>)) d,
          final)))))"

section \<open>What the reviews keep\<close>

lemma review_start_inv:
  assumes "exec_inv d"
    and "review_start digest rid ctx required model fresh now d = Inr (d', aid, snapshot)"
  shows "exec_inv d'" and "agents_kept {''review''} d d'"
    and "review_load digest rid ctx required d = Inr snapshot"
    and "\<not> (\<exists>a \<in> set (db_agent_runs d). ar_execution_run_id a = rid \<and> ar_agent_type a = ''review'' \<and>
              ar_status a = ''running'')"
    and "insert_agent (new_agent fresh rid None ''review'' model now
              [''issue_id'' \<mapsto> JId (ci_id (cs_issue ctx)),
               ''evidence_hash'' \<mapsto> JStr (rs_evidence_hash snapshot),
               ''required_commands'' \<mapsto> JStrs (required_commands required)]) d = Inr d'"
proof -
  from assms(2) show l: "review_load digest rid ctx required d = Inr snapshot"
    and "\<not> (\<exists>a \<in> set (db_agent_runs d). ar_execution_run_id a = rid \<and> ar_agent_type a = ''review'' \<and>
              ar_status a = ''running'')"
    and ins: "insert_agent (new_agent fresh rid None ''review'' model now
              [''issue_id'' \<mapsto> JId (ci_id (cs_issue ctx)),
               ''evidence_hash'' \<mapsto> JStr (rs_evidence_hash snapshot),
               ''required_commands'' \<mapsto> JStrs (required_commands required)]) d = Inr d'"
    unfolding review_start_def by (elim block_elims; simp; fail)+
  from assms(1) ins show "exec_inv d'" by (rule exec_inv_insert_agent)
  from agents_kept_insert [OF ins] show "agents_kept {''review''} d d'" by simp
qed

lemma review_finish_Inr:
  assumes "review_finish digest rid aid ctx required snapshot decision usage error now d = Inr (d', final)"
  obtains current agent a1 where "review_load digest rid ctx required d = Inr current"
    and "find_agent aid d = Some agent" and "ar_status agent = ''running''"
    and "ar_execution_run_id agent = rid"
    and "agent_state agent (if or_empty error \<noteq> [] then ''failed'' else ''completed'') = Inr a1"
    and "final = final_decision decision (rs_evidence_hash current \<noteq> rs_evidence_hash snapshot) error"
    and "d' = save_agent (set_usage usage (a1\<lparr>ar_completed_at := Some now,
            ar_output_metadata := [''decision'' \<mapsto> JDecision final, ''error_code'' \<mapsto> jopt error]\<rparr>)) d"
proof -
  from assms show thesis
    unfolding review_finish_def Let_def
    by (elim block_elims, unfold sum.inject prod.inject, elim conjE)
      (rule that, (assumption | simp only:)+)
qed

lemma review_finish_inv:
  assumes "exec_inv d"
    and "review_finish digest rid aid ctx required snapshot decision usage error now d = Inr (d', final)"
  shows "exec_inv d'" and "agents_kept {} d d'"
proof -
  from assms(2) obtain current agent a1 where a: "find_agent aid d = Some agent"
    and a1: "agent_state agent (if or_empty error \<noteq> [] then ''failed'' else ''completed'') = Inr a1"
    and d': "d' = save_agent (set_usage usage (a1\<lparr>ar_completed_at := Some now,
            ar_output_metadata := [''decision'' \<mapsto> JDecision final, ''error_code'' \<mapsto> jopt error]\<rparr>)) d"
    by (rule review_finish_Inr) (rule that; assumption)
  show "exec_inv d'" unfolding d' using assms(1) by (rule exec_inv_save_agent)
  show "agents_kept {} d d'" unfolding d'
    by (rule agents_kept_save [OF a exec_inv_ids(3) [OF assms(1)] agent_evolves_finish(1) [OF a1]]) simp
qed

lemma review_load_Inr:
  assumes "review_load digest rid ctx required d = Inr rs"
  obtains run s ts where "load rid d = Inr (run, s, ts)"
    and "context_matches ctx (issue_of_run run d)"
    and "\<exists>errors evidence. test_evidence ts (implementation_agents rid d) required =
           (evidence, errors, rs_tested_diff_hash rs) \<and>
         ri_test_results (rs_inputs rs) = evidence \<and>
         rs_errors rs = errors @ (if run_status run \<noteq> ''completed'' then [''execution_incomplete''] else [])"
    and "rs_evidence_hash rs = digest (rs_inputs rs, rs_errors rs, rs_tested_diff_hash rs, required)"
    and "ri_context (rs_inputs rs) = ctx" and "ri_plan (rs_inputs rs) = snap_proposal s"
proof -
  from assms obtain run s ts where l: "load rid d = Inr (run, s, ts)"
    by (auto simp: review_load_def)
  obtain ev er fp where t: "test_evidence ts (implementation_agents rid d) required = (ev, er, fp)"
    by (metis prod_cases3)
  from assms l t show thesis
    by (intro that [OF l]) (auto simp: review_load_def Let_def)
qed

text \<open>
  A review without errors saw a completed run whose every task the gate accepts.
\<close>

lemma review_load_ok:
  assumes "review_load digest rid ctx required d = Inr rs" and "rs_errors rs = []"
  obtains run s ts where "load rid d = Inr (run, s, ts)" and "run_status run = ''completed''"
    and "\<forall>task \<in> snd ` set ts.
      task_proved (expected_commands required) (implementation_agents rid d) task"
    and "\<forall>a \<in> set (implementation_agents rid d). ar_status a \<noteq> ''running''"
    and "rs_tested_diff_hash rs \<noteq> None"
    and "context_matches ctx (issue_of_run run d)"
proof -
  from assms(1) obtain run s ts where l: "load rid d = Inr (run, s, ts)"
    and c: "context_matches ctx (issue_of_run run d)"
    and t: "\<exists>errors evidence. test_evidence ts (implementation_agents rid d) required =
           (evidence, errors, rs_tested_diff_hash rs) \<and>
         ri_test_results (rs_inputs rs) = evidence \<and>
         rs_errors rs = errors @ (if run_status run \<noteq> ''completed'' then [''execution_incomplete''] else [])"
    by (rule review_load_Inr) (rule that; assumption)
  from t assms(2) obtain evidence where
    te: "test_evidence ts (implementation_agents rid d) required = (evidence, [], rs_tested_diff_hash rs)"
    and st: "run_status run = ''completed''"
    by (auto split: if_splits)
  from that [OF l st] test_evidence_ok [OF te] c show thesis by blast
qed

end
