(* ===== verification/Publication_Records.thy ===== *)
theory Publication_Records
  imports Review_Records
begin

text \<open>
  \<^verbatim>\<open>app/pull_requests/records.py\<close>: the last check before anything leaves the machine,
  the journal of a publication and its outcome. A publication is journalled once; a different one
  for the same run is refused, and so is a pull request other than the recorded one.
\<close>

section \<open>The last check\<close>

record publication_evidence =
  pe_snapshot :: review_snapshot
  pe_decision :: review_decision
  pe_review_id :: uuid
  pe_owner :: string
  pe_repository :: string
  pe_source :: string
  pe_base :: string
  pe_issue_number :: int
  pe_issue_url :: string
  pe_title :: string

definition latest_review :: "uuid \<Rightarrow> db \<Rightarrow> agent_run option" where
  "latest_review rid d = newest_agent (filter
     (\<lambda>a. ar_execution_run_id a = rid \<and> ar_agent_type a = ''review'') (db_agent_runs d))"

definition stored_decision :: "agent_run \<Rightarrow> review_decision option" where
  "stored_decision a = (case ar_output_metadata a ''decision'' of
     Some (JDecision r) \<Rightarrow> Some r | _ \<Rightarrow> None)"

definition review_refused :: "agent_run \<Rightarrow> review_decision \<Rightarrow> review_snapshot \<Rightarrow> bool" where
  "review_refused review decision snapshot \<longleftrightarrow>
     \<not> rd_approved decision \<or> rd_mechanical_errors decision \<noteq> [] \<or>
     (case rd_review decision of None \<Rightarrow> True
      | Some r \<Rightarrow> \<not> rr_approved r \<or> (\<exists>f \<in> set (rr_findings r). rf_severity f = ''blocking'')) \<or>
     ar_input_metadata review ''evidence_hash'' \<noteq> Some (JStr (rs_evidence_hash snapshot)) \<or>
     rd_diff_hash decision \<noteq> rs_tested_diff_hash snapshot \<or>
     \<not> stored_null (ar_output_metadata review ''error_code'')"

definition publication_check ::
  "(evidence \<Rightarrow> string) \<Rightarrow> uuid \<Rightarrow> issue_context \<Rightarrow> repository_test_config \<Rightarrow> db \<Rightarrow>
    service_error + publication_evidence" where
  "publication_check digest rid ctx required d =
     bindE (review_load digest rid ctx required d) (\<lambda>snapshot.
     bindE (requireE (PublicationError ''publication_requirements_not_met'') (rs_errors snapshot = [])) (\<lambda>_.
     bindE (someE (PublicationError ''publication_requirements_not_met'') (latest_review rid d)) (\<lambda>review.
     bindE (requireE (PublicationError ''publication_requirements_not_met'')
              (ar_status review = ''completed'')) (\<lambda>_.
     bindE (someE (ValueError ''decision'') (stored_decision review)) (\<lambda>decision.
     bindE (requireE (PublicationError ''publication_review_not_approved'')
              (\<not> review_refused review decision snapshot)) (\<lambda>_.
     bindE (someE (PublicationError ''publication_repository_missing'')
              (fetch repo_id (cr_id (cs_repository ctx)) (db_repositories d))) (\<lambda>repository.
     bindE (someE (PublicationError ''publication_repository_missing'')
              (fetch iss_id (ci_id (cs_issue ctx)) (db_issues d))) (\<lambda>issue.
     Inr \<lparr>pe_snapshot = snapshot, pe_decision = decision, pe_review_id = ar_id review,
          pe_owner = repo_github_owner repository, pe_repository = repo_github_name repository,
          pe_source = repo_clone_url repository, pe_base = repo_default_branch repository,
          pe_issue_number = iss_github_issue_number issue, pe_issue_url = iss_source_url issue,
          pe_title = iss_title issue\<rparr>))))))))"

section \<open>The journal\<close>

text \<open>\<open>publication.model_dump(mode="json")\<close>: every field under its name.\<close>

definition publication_dump :: "publication \<Rightarrow> metadata" where
  "publication_dump p =
     [''execution_id'' \<mapsto> JId (pub_execution_id p), ''review_id'' \<mapsto> JId (pub_review_id p),
      ''owner'' \<mapsto> JStr (pub_owner p), ''repository'' \<mapsto> JStr (pub_repository p),
      ''source'' \<mapsto> JStr (pub_source p), ''base'' \<mapsto> JStr (pub_base p),
      ''branch'' \<mapsto> JStr (pub_branch p), ''parent'' \<mapsto> JStr (pub_parent p),
      ''commit'' \<mapsto> JStr (pub_commit p), ''diff_hash'' \<mapsto> JStr (pub_diff_hash p),
      ''title'' \<mapsto> JStr (pub_title p), ''body'' \<mapsto> JStr (pub_body p)]"

definition journal_of :: "uuid \<Rightarrow> db \<Rightarrow> agent_run option" where
  "journal_of rid d = List.find (\<lambda>a. ar_execution_run_id a = rid \<and> ar_agent_type a = ''pull_request'')
     (db_agent_runs d)"

definition journal_entry :: "publication \<Rightarrow> uuid \<Rightarrow> time \<Rightarrow> db \<Rightarrow> service_error + db \<times> uuid" where
  "journal_entry p fresh now d = (case journal_of (pub_execution_id p) d of
     None \<Rightarrow> bindE (insert_agent (new_agent fresh (pub_execution_id p) None ''pull_request'' None now
                (publication_dump p)) d) (\<lambda>d'. Inr (d', fresh))
   | Some agent \<Rightarrow> if ar_input_metadata agent \<noteq> publication_dump p
       then Inl (PublicationError ''publication_snapshot_changed'') else Inr (d, ar_id agent))"

definition publication_journal :: "publication \<Rightarrow> uuid \<Rightarrow> time \<Rightarrow> db \<Rightarrow> service_error + db \<times> uuid" where
  "publication_journal p fresh now d =
     bindE (someE (PublicationError ''publication_execution_missing'')
              (find_run (pub_execution_id p) d)) (\<lambda>run.
     bindE (journal_entry p fresh now d) (\<lambda>(d1, aid).
     Inr (save_run now (run\<lparr>run_branch_name := Some (pub_branch p)\<rparr>) d1, aid)))"

definition save_pull_request :: "pull_request_row \<Rightarrow> db \<Rightarrow> db" where
  "save_pull_request r d = d\<lparr>db_pull_requests := put prr_id r (db_pull_requests d)\<rparr>"

text \<open>The column \<open>execution_run_id\<close> is unique.\<close>

definition insert_pull_request :: "pull_request_row \<Rightarrow> db \<Rightarrow> service_error + db" where
  "insert_pull_request r d =
     (if prr_id r \<in> prr_id ` set (db_pull_requests d) \<or>
         prr_execution_run_id r \<in> prr_execution_run_id ` set (db_pull_requests d)
      then Inl IntegrityError else Inr (d\<lparr>db_pull_requests := db_pull_requests d @ [r]\<rparr>))"

definition pull_request_of :: "uuid \<Rightarrow> db \<Rightarrow> pull_request_row option" where
  "pull_request_of rid d = List.find (\<lambda>r. prr_execution_run_id r = rid) (db_pull_requests d)"

definition record_pull_request ::
  "uuid \<Rightarrow> published_pr \<Rightarrow> uuid \<Rightarrow> db \<Rightarrow> service_error + db" where
  "record_pull_request rid remote fresh d = (case pull_request_of rid d of
     None \<Rightarrow> insert_pull_request
       \<lparr>prr_id = fresh, prr_execution_run_id = rid, prr_github_pr_number = ppr_number remote,
        prr_github_url = ppr_html_url remote, prr_status = ppr_state remote\<rparr> d
   | Some r \<Rightarrow> if prr_github_pr_number r \<noteq> ppr_number remote \<or> prr_github_url r \<noteq> ppr_html_url remote
       then Inl (PublicationError ''publication_pr_collision'')
       else Inr (save_pull_request (r\<lparr>prr_status := ppr_state remote\<rparr>) d))"

definition publication_finish ::
  "publication \<Rightarrow> uuid \<Rightarrow> published_pr \<Rightarrow> uuid \<Rightarrow> time \<Rightarrow> db \<Rightarrow> service_error + db" where
  "publication_finish p journal_id remote fresh now d =
     bindE (record_pull_request (pub_execution_id p) remote fresh d) (\<lambda>d1.
     bindE (someE (PublicationError ''publication_journal_missing'') (find_agent journal_id d1)) (\<lambda>agent.
     bindE (agent_state agent ''completed'') (\<lambda>a1.
     Inr (save_agent (a1\<lparr>ar_completed_at := Some now, ar_output_metadata :=
            (ar_output_metadata agent)(''pull_request'' \<mapsto> JPullRequest remote)\<rparr>) d1))))"

definition publication_failed :: "uuid \<Rightarrow> string \<Rightarrow> db \<Rightarrow> service_error + db" where
  "publication_failed journal_id error_code d =
     bindE (someE (PublicationError ''publication_journal_missing'') (find_agent journal_id d)) (\<lambda>agent.
     let errors = (case ar_output_metadata agent ''errors'' of Some (JStrs es) \<Rightarrow> es | _ \<Rightarrow> []) in
     bindE (if ar_status agent \<noteq> ''completed'' then agent_state agent ''failed'' else Inr agent) (\<lambda>a1.
     Inr (save_agent (a1\<lparr>ar_output_metadata :=
            (ar_output_metadata agent)(''errors'' \<mapsto> JStrs (errors @ [error_code]))\<rparr>) d)))"

section \<open>What the check and the journal guarantee\<close>

lemma find_append:
  "List.find P (xs @ ys) = (case List.find P xs of None \<Rightarrow> List.find P ys | Some x \<Rightarrow> Some x)"
  by (induction xs) auto

lemma publication_dump_inj: "publication_dump p = publication_dump q \<Longrightarrow> p = q"
proof -
  assume eq: "publication_dump p = publication_dump q"
  have "publication_dump p k = publication_dump q k" for k using eq by simp
  from this [of "''execution_id''"] this [of "''review_id''"] this [of "''owner''"]
    this [of "''repository''"] this [of "''source''"] this [of "''base''"] this [of "''branch''"]
    this [of "''parent''"] this [of "''commit''"] this [of "''diff_hash''"] this [of "''title''"]
    this [of "''body''"]
  show "p = q" by (simp add: publication_dump_def)
qed

lemma publication_check_Inr:
  assumes "publication_check digest rid ctx required d = Inr e"
  obtains review where "review_load digest rid ctx required d = Inr (pe_snapshot e)"
    and "rs_errors (pe_snapshot e) = []"
    and "latest_review rid d = Some review" and "ar_status review = ''completed''"
    and "stored_decision review = Some (pe_decision e)" and "pe_review_id e = ar_id review"
    and "\<not> review_refused review (pe_decision e) (pe_snapshot e)"
  using assms by (auto simp: publication_check_def)

lemma exec_inv_save_run:
  assumes inv: "exec_inv d" and r: "find_run rid d = Some run" and same: "same_run run run'"
    and st: "run_status run' = run_status run"
  shows "exec_inv (save_run now run' d)"
proof -
  have rid: "run_id run' = rid" using r same by (auto simp: find_run_def same_run_def dest: fetch_key)
  then have r': "\<exists>u. find_run rid (save_run now run' d) = Some (run'\<lparr>run_updated_at := u\<rparr>)"
    using find_run_save_run [of run' d rid now] r by (auto intro: exI [of _ "run_updated_at run'"])
  then obtain u where u: "find_run rid (save_run now run' d) = Some (run'\<lparr>run_updated_at := u\<rparr>)" ..
  have "load rid (save_run now run' d) =
      bindE (load rid d) (\<lambda>(_, s, ts). Inr (run'\<lparr>run_updated_at := u\<rparr>, s, ts))"
    using r u by (rule load_same_run) (use same in \<open>simp_all add: same_run_def\<close>)
  note own = this
  have other: "load i (save_run now run' d) = load i d" if "i \<noteq> rid" for i
    using find_run_save_run [of run' d i now] r rid that by (intro load_other) simp_all
  have "distinct (map fst ts) \<and> run_inv (run_status q) (snapshot_dag s) (state_of (statuses ts))"
    if l: "load i (save_run now run' d) = Inr (q, s, ts)" for i q s ts
  proof (cases "i = rid")
    case True
    with l own obtain q0 where q0: "load rid d = Inr (q0, s, ts)" and q: "q = run'\<lparr>run_updated_at := u\<rparr>"
      by auto
    from q0 r have "q0 = run" by (auto simp: load_iff loaded_from_def)
    with exec_inv_load [OF inv q0] q st show ?thesis by simp
  next
    case False
    with l other exec_inv_load [OF inv] show ?thesis by simp
  qed
  moreover have "map run_id (db_runs (save_run now run' d)) = map run_id (db_runs d)"
    by (simp add: save_run_def)
  ultimately show ?thesis using exec_inv_ids [OF inv] unfolding exec_inv_def by simp
qed

lemma journal_entry_inv:
  assumes "exec_inv d" and "journal_entry p fresh now d = Inr (d', aid)"
  shows "exec_inv d'" and "agents_kept {''pull_request''} d d'" and "db_runs d' = db_runs d"
    and "\<exists>a. journal_of (pub_execution_id p) d' = Some a \<and> ar_id a = aid \<and>
           ar_input_metadata a = publication_dump p"
proof -
  have "exec_inv d' \<and> agents_kept {''pull_request''} d d' \<and> db_runs d' = db_runs d \<and>
      (\<exists>a. journal_of (pub_execution_id p) d' = Some a \<and> ar_id a = aid \<and>
           ar_input_metadata a = publication_dump p)"
  proof (cases "journal_of (pub_execution_id p) d")
    case None
    let ?a = "new_agent fresh (pub_execution_id p) None ''pull_request'' None now (publication_dump p)"
    from assms(2) None have ins: "insert_agent ?a d = Inr d'" and "aid = fresh"
      by (auto simp: journal_entry_def)
    moreover have "journal_of (pub_execution_id p) d' = Some ?a"
      using None ins by (auto simp: journal_of_def insert_agent_Inr find_append new_agent_def
          split: option.split)
    ultimately show ?thesis
      using exec_inv_insert_agent [OF assms(1) ins] agents_kept_insert [OF ins]
      by (auto simp: insert_agent_Inr new_agent_def)
  next
    case (Some a)
    with assms show ?thesis by (auto simp: journal_entry_def split: if_splits)
  qed
  then show "exec_inv d'" and "agents_kept {''pull_request''} d d'" and "db_runs d' = db_runs d"
    and "\<exists>a. journal_of (pub_execution_id p) d' = Some a \<and> ar_id a = aid \<and>
           ar_input_metadata a = publication_dump p" by blast+
qed

lemma publication_journal_inv:
  assumes "exec_inv d" and "publication_journal p fresh now d = Inr (d', aid)"
  shows "exec_inv d'" and "agents_kept {''pull_request''} d d'"
    and "\<exists>a. journal_of (pub_execution_id p) d' = Some a \<and> ar_id a = aid \<and>
           ar_input_metadata a = publication_dump p"
proof -
  from assms(2) obtain run d1 where r: "find_run (pub_execution_id p) d = Some run"
    and j: "journal_entry p fresh now d = Inr (d1, aid)"
    and d': "d' = save_run now (run\<lparr>run_branch_name := Some (pub_branch p)\<rparr>) d1"
    by (auto simp: publication_journal_def)
  note entry = journal_entry_inv [OF assms(1) j]
  have "find_run (pub_execution_id p) d1 = Some run" using r entry(3) by (simp add: find_run_def)
  then show "exec_inv d'" unfolding d'
    by (rule exec_inv_save_run [OF entry(1)]) (simp_all add: same_run_def)
  show "agents_kept {''pull_request''} d d'" using entry(2) by (simp add: d' agents_kept_def)
  show "\<exists>a. journal_of (pub_execution_id p) d' = Some a \<and> ar_id a = aid \<and>
           ar_input_metadata a = publication_dump p"
    using entry(4) by (simp add: d' journal_of_def)
qed

lemma record_pull_request_frame:
  assumes "record_pull_request rid remote fresh d = Inr d'"
  shows "db_runs d' = db_runs d" "db_task_executions d' = db_task_executions d"
    "db_agent_runs d' = db_agent_runs d"
  using assms by (auto simp: record_pull_request_def insert_pull_request_def save_pull_request_def
      split: option.splits if_splits)

lemma publication_finish_inv:
  assumes "exec_inv d" and "publication_finish p journal_id remote fresh now d = Inr d'"
  shows "exec_inv d'" and "agents_kept {} d d'"
proof -
  from assms(2) obtain d1 agent a1 where rec: "record_pull_request (pub_execution_id p) remote fresh d = Inr d1"
    and a: "find_agent journal_id d1 = Some agent" and a1: "agent_state agent ''completed'' = Inr a1"
    and d': "d' = save_agent (a1\<lparr>ar_completed_at := Some now, ar_output_metadata :=
            (ar_output_metadata agent)(''pull_request'' \<mapsto> JPullRequest remote)\<rparr>) d1"
    by (auto simp: publication_finish_def)
  note frame = record_pull_request_frame [OF rec]
  have inv: "exec_inv d1" using assms(1) by (rule exec_inv_cong) (simp_all add: frame exec_inv_ids [OF assms(1)])
  then show "exec_inv d'" unfolding d' by (rule exec_inv_save_agent)
  have "agents_kept {} d1 d'" unfolding d'
    by (rule agents_kept_save [OF a exec_inv_ids(3) [OF inv] agent_evolves_finish(2) [OF a1]]) simp
  then show "agents_kept {} d d'" using frame(3) by (simp add: agents_kept_def)
qed

lemma publication_failed_inv:
  assumes "exec_inv d" and "publication_failed journal_id error_code d = Inr d'"
  shows "exec_inv d'" and "agents_kept {} d d'"
proof -
  from assms(2) obtain agent a1 m where a: "find_agent journal_id d = Some agent"
    and a1: "(if ar_status agent \<noteq> ''completed'' then agent_state agent ''failed'' else Inr agent) = Inr a1"
    and d': "d' = save_agent (a1\<lparr>ar_output_metadata := m\<rparr>) d"
    by (auto simp: publication_failed_def Let_def)
  show "exec_inv d'" unfolding d' using assms(1) by (rule exec_inv_save_agent)
  have "agent_evolves agent (a1\<lparr>ar_output_metadata := m\<rparr>)"
    using a1 by (auto simp: agent_evolves_def agent_origin_def agent_state_Inr split: if_splits)
  then show "agents_kept {} d d'" unfolding d'
    using a exec_inv_ids(3) [OF assms(1)] by (intro agents_kept_save)
qed

text \<open>A recorded pull request keeps its number and address.\<close>

definition one_pull_request :: "db \<Rightarrow> bool" where
  "one_pull_request d \<longleftrightarrow> distinct (map prr_execution_run_id (db_pull_requests d)) \<and>
     distinct (map prr_id (db_pull_requests d))"

lemma record_pull_request_inv:
  assumes "one_pull_request d" and "record_pull_request rid remote fresh d = Inr d'"
  shows "one_pull_request d'"
    and "\<exists>r. pull_request_of rid d' = Some r \<and> prr_github_pr_number r = ppr_number remote \<and>
           prr_github_url r = ppr_html_url remote \<and> prr_status r = ppr_state remote"
    and "pull_request_of rid d = Some r \<Longrightarrow>
           prr_github_pr_number r = ppr_number remote \<and> prr_github_url r = ppr_html_url remote"
proof -
  show "pull_request_of rid d = Some r \<Longrightarrow>
           prr_github_pr_number r = ppr_number remote \<and> prr_github_url r = ppr_html_url remote"
    using assms(2) by (auto simp: record_pull_request_def split: if_splits)
  have "one_pull_request d' \<and> (\<exists>r. pull_request_of rid d' = Some r \<and>
      prr_github_pr_number r = ppr_number remote \<and> prr_github_url r = ppr_html_url remote \<and>
      prr_status r = ppr_state remote)"
  proof (cases "pull_request_of rid d")
    case None
    then have find: "List.find (\<lambda>r. prr_execution_run_id r = rid) (db_pull_requests d) = None"
      by (simp add: pull_request_of_def)
    from None assms(2) have new: "fresh \<notin> prr_id ` set (db_pull_requests d)"
      "rid \<notin> prr_execution_run_id ` set (db_pull_requests d)"
      and d': "d' = d\<lparr>db_pull_requests := db_pull_requests d @ [\<lparr>prr_id = fresh,
        prr_execution_run_id = rid, prr_github_pr_number = ppr_number remote,
        prr_github_url = ppr_html_url remote, prr_status = ppr_state remote\<rparr>]\<rparr>"
      by (auto simp: record_pull_request_def insert_pull_request_def split: if_splits)
    show ?thesis
      using assms(1) new by (simp add: d' one_pull_request_def pull_request_of_def find_append find)
  next
    case (Some r)
    let ?r = "r\<lparr>prr_status := ppr_state remote\<rparr>"
    let ?rows = "db_pull_requests d"
    from Some have r: "r \<in> set ?rows" "prr_execution_run_id r = rid"
      by (auto simp: pull_request_of_def find_Some_iff)
    from Some assms(2) have d': "d' = save_pull_request ?r d"
      and eq: "prr_github_pr_number r = ppr_number remote" "prr_github_url r = ppr_html_url remote"
      by (auto simp: record_pull_request_def split: if_splits)
    have only: "x = r" if "x \<in> set ?rows" "prr_execution_run_id x = rid \<or> prr_id x = prr_id r" for x
      using assms(1) r that unfolding one_pull_request_def by (metis distinct_map inj_onD)
    have keys: "map prr_execution_run_id (put prr_id ?r ?rows) = map prr_execution_run_id ?rows"
      unfolding put_def map_map by (rule map_cong [OF refl]) (use only in auto)
    have "?r \<in> set (put prr_id ?r ?rows)" and "prr_execution_run_id ?r = rid"
      using r by (auto simp: set_put)
    then have "List.find (\<lambda>r. prr_execution_run_id r = rid) (put prr_id ?r ?rows) \<noteq> None"
      unfolding find_None_iff by blast
    then obtain x where x: "List.find (\<lambda>r. prr_execution_run_id r = rid) (put prr_id ?r ?rows) = Some x"
      by blast
    then have "x \<in> set (put prr_id ?r ?rows)" "prr_execution_run_id x = rid"
      by (auto simp: find_Some_iff)
    then have "x = ?r" using only by (auto simp: set_put split: if_splits)
    with x keys assms(1) eq show ?thesis
      by (simp add: d' one_pull_request_def save_pull_request_def pull_request_of_def)
  qed
  then show "one_pull_request d'" and "\<exists>r. pull_request_of rid d' = Some r \<and>
      prr_github_pr_number r = ppr_number remote \<and> prr_github_url r = ppr_html_url remote \<and>
      prr_status r = ppr_state remote" by simp_all
qed

end
