(* ===== verification/Execution_Trace.thy ===== *)
theory Execution_Trace
  imports Publication_Records
begin

text \<open>
  Every sequence of transactions of the execution services: a step is one committed transaction
  of one of them, on any arguments, or a transaction of another part of the program, which
  leaves the three execution tables alone. What all steps keep holds in every reachable
  database.
\<close>

section \<open>Systems with an invariant\<close>

locale invariant_system =
  fixes init :: "'s \<Rightarrow> bool" and step :: "'s \<Rightarrow> 's \<Rightarrow> bool" and inv :: "'s \<Rightarrow> bool"
  assumes init_inv: "init s \<Longrightarrow> inv s"
    and step_inv: "inv s \<Longrightarrow> step s t \<Longrightarrow> inv t"
begin

lemma steps_inv: "step\<^sup>*\<^sup>* s t \<Longrightarrow> inv s \<Longrightarrow> inv t"
  by (induction rule: rtranclp_induct) (auto intro: step_inv)

lemma reach_inv: "init s \<Longrightarrow> step\<^sup>*\<^sup>* s t \<Longrightarrow> inv t"
  using init_inv steps_inv by blast

end

section \<open>The transactions\<close>

inductive exec_step :: "db \<Rightarrow> db \<Rightarrow> bool" where
  step_create: "create pid identifier fresh now d = Inr (d', rid) \<Longrightarrow> exec_step d d'"
| step_reconcile: "reconcile rid now d = Inr (d', resp) \<Longrightarrow> exec_step d d'"
| step_transition: "transition rid tid status summary now d = Inr (d', changed) \<Longrightarrow> exec_step d d'"
| step_stop: "stop_locked rid cancelled now d = Inr d' \<Longrightarrow> exec_step d d'"
| step_recover: "recover_stale secs locked now d = Inr (d', n) \<Longrightarrow> exec_step d d'"
| step_coding_start: "coding_start rid tid ctx model fresh now d = Inr (d', aid, inputs) \<Longrightarrow> exec_step d d'"
| step_coding_finish: "coding_finish rid tid aid success meta usage now d = Inr d' \<Longrightarrow> exec_step d d'"
| step_test_start: "test_start rid tid config recovery_id fresh now d = Inr (d', aid, tests) \<Longrightarrow> exec_step d d'"
| step_test_finish:
    "test_finish rid tid aid report error recovery_id diff_hash now d = Inr d' \<Longrightarrow> exec_step d d'"
| step_recovery_open:
    "recovery_open rid tid ctx config limit fresh now d = Inr (d', aid, task, coding) \<Longrightarrow> exec_step d d'"
| step_claim_debug: "claim_debug render recovery model fresh now d = Inr (d', aid, history) \<Longrightarrow> exec_step d d'"
| step_reserve_patch: "reserve_patch sha recovery aid fingerprint d = Inr (d', new) \<Longrightarrow> exec_step d d'"
| step_finish_debug: "finish_debug recovery aid meta success usage now d = Inr d' \<Longrightarrow> exec_step d d'"
| step_recovery_finish: "recovery_finish recovery passed error now d = Inr d' \<Longrightarrow> exec_step d d'"
| step_review_start:
    "review_start digest rid ctx required model fresh now d = Inr (d', aid, snapshot) \<Longrightarrow> exec_step d d'"
| step_review_finish:
    "review_finish digest rid aid ctx required snapshot decision usage error now d = Inr (d', final) \<Longrightarrow>
      exec_step d d'"
| step_journal: "publication_journal p fresh now d = Inr (d', aid) \<Longrightarrow> exec_step d d'"
| step_published: "publication_finish p journal_id remote fresh now d = Inr d' \<Longrightarrow> exec_step d d'"
| step_publication_failed: "publication_failed journal_id error_code d = Inr d' \<Longrightarrow> exec_step d d'"
| step_other: "db_runs d' = db_runs d \<Longrightarrow> db_task_executions d' = db_task_executions d \<Longrightarrow>
    db_agent_runs d' = db_agent_runs d \<Longrightarrow> db_pull_requests d' = db_pull_requests d \<Longrightarrow> exec_step d d'"

definition no_executions :: "db \<Rightarrow> bool" where
  "no_executions d \<longleftrightarrow> db_runs d = [] \<and> db_task_executions d = [] \<and> db_agent_runs d = [] \<and>
     db_pull_requests d = []"

section \<open>The agent table under the execution operations\<close>

lemma advance_ops_agents:
  "create pid identifier fresh now d = Inr (d', rid) \<Longrightarrow> db_agent_runs d' = db_agent_runs d"
  "reconcile rid now d = Inr (d', resp) \<Longrightarrow> db_agent_runs d' = db_agent_runs d"
  "transition rid tid status summary now d = Inr (d', changed) \<Longrightarrow> db_agent_runs d' = db_agent_runs d"
  "create pid identifier fresh now d = Inr (d', rid) \<Longrightarrow> db_pull_requests d' = db_pull_requests d"
  "reconcile rid now d = Inr (d', resp) \<Longrightarrow> db_pull_requests d' = db_pull_requests d"
  "transition rid tid status summary now d = Inr (d', changed) \<Longrightarrow>
     db_pull_requests d' = db_pull_requests d"
  by (auto elim!: create_Inr) (auto simp: reconcile_def transition_def move_task_def split: if_splits)

lemma evolves_put_all:
  assumes "distinct (map ar_id rows)" and "distinct (map ar_id bs)"
    and "\<forall>b \<in> set bs. \<exists>a \<in> set rows. agent_evolves a b"
  shows "list_all2 agent_evolves rows (put_all ar_id bs rows)"
  unfolding put_all_overwrite [OF assms(2)] list_all2_map2
proof (rule list.rel_refl_strong)
  fix x assume x: "x \<in> set rows"
  show "agent_evolves x (overwrite ar_id bs x)"
  proof (cases "fetch ar_id (ar_id x) bs")
    case None
    then show ?thesis by (simp add: overwrite_def)
  next
    case (Some b)
    then have b: "b \<in> set bs" "ar_id b = ar_id x" by (auto dest: fetch_SomeD)
    with assms(3) obtain a where a: "a \<in> set rows" "agent_evolves a b" by blast
    then have "ar_id a = ar_id x" using b by (simp add: agent_evolves_def agent_origin_def)
    with a x assms(1) have "a = x" by (metis distinct_map inj_onD)
    with a Some show ?thesis by (simp add: overwrite_def)
  qed
qed

lemma stop_agents_evolve:
  assumes "mapE (stop_agent reason now) as = Inr bs"
  shows "map ar_id bs = map ar_id as" and "\<forall>b \<in> set bs. \<exists>a \<in> set as. agent_evolves a b"
proof -
  have stop: "ar_id b = ar_id a \<and> agent_evolves a b" if "stop_agent reason now a = Inr b" for a b
    using that by (auto simp: stop_agent_def agent_state_Inr agent_evolves_def agent_origin_def)
  from assms have m: "list_all2 (\<lambda>a b. stop_agent reason now a = Inr b) as bs" by (simp add: mapE_eq_Inr)
  then show "map ar_id bs = map ar_id as"
    by (induction rule: list_all2_induct) (auto dest: stop)
  from m show "\<forall>b \<in> set bs. \<exists>a \<in> set as. agent_evolves a b"
    by (induction rule: list_all2_induct) (auto dest: stop)
qed

lemma agents_kept_empty:
  "agents_kept {} d d' \<longleftrightarrow> list_all2 agent_evolves (db_agent_runs d) (db_agent_runs d')"
proof
  assume "agents_kept {} d d'"
  then obtain old new where "db_agent_runs d' = old @ new" and "new = []"
    and "list_all2 agent_evolves (db_agent_runs d) old"
    unfolding agents_kept_def by fastforce
  then show "list_all2 agent_evolves (db_agent_runs d) (db_agent_runs d')" by simp
next
  assume "list_all2 agent_evolves (db_agent_runs d) (db_agent_runs d')"
  then show "agents_kept {} d d'"
    unfolding agents_kept_def by (intro exI [of _ "db_agent_runs d'"] exI [of _ "[]"]) simp
qed

lemma stop_locked_agents:
  assumes inv: "exec_inv d" and stop: "stop_locked rid c now d = Inr d'"
  shows "agents_kept {} d d'" and "db_pull_requests d' = db_pull_requests d"
proof -
  have "agents_kept {} d d' \<and> db_pull_requests d' = db_pull_requests d"
  proof (cases "d' = d")
    case False
    with stop obtain run ts reason where
      u: "stop_unfinished c reason now run (running_agents rid d) ts d = Inr d'"
      by (auto simp: stop_locked_def Let_def split: if_splits)
    from u obtain bs ts' run' where bs: "mapE (stop_agent reason now) (running_agents rid d) = Inr bs"
      and d': "d' = save now run' ts' (d\<lparr>db_agent_runs := put_all ar_id bs (db_agent_runs d)\<rparr>)"
      unfolding stop_unfinished_def by (simp only: bindE_eq_Inr sum.inject) metis
    have "list_all2 agent_evolves (db_agent_runs d) (put_all ar_id bs (db_agent_runs d))"
    proof (rule evolves_put_all)
      show "distinct (map ar_id (db_agent_runs d))" using inv by (rule exec_inv_ids)
      then show "distinct (map ar_id bs)"
        unfolding stop_agents_evolve(1) [OF bs] by (simp add: running_agents_def distinct_map_filter)
      show "\<forall>b \<in> set bs. \<exists>a \<in> set (db_agent_runs d). agent_evolves a b"
        using stop_agents_evolve(2) [OF bs] by (fastforce simp: running_agents_def)
    qed
    then show ?thesis unfolding agents_kept_empty d' by simp
  qed simp
  then show "agents_kept {} d d'" and "db_pull_requests d' = db_pull_requests d" by simp_all
qed

lemma agent_evolves_trans: "agent_evolves a b \<Longrightarrow> agent_evolves b c \<Longrightarrow> agent_evolves a c"
  by (auto simp: agent_evolves_def)

lemma agents_kept_trans:
  assumes "agents_kept {} a b" and "agents_kept {} b c"
  shows "agents_kept {} a c"
  using assms unfolding agents_kept_empty
  by (rule list_all2_trans [rotated]) (rule agent_evolves_trans)

lemma recover_stale_agents:
  assumes "exec_inv d" and "recover_stale secs locked now d = Inr (d', n)"
  shows "agents_kept {} d d'" and "db_pull_requests d' = db_pull_requests d"
proof -
  define P where "P st \<longleftrightarrow> exec_inv (fst st) \<and> agents_kept {} d (fst st) \<and>
    db_pull_requests (fst st) = db_pull_requests d" for st :: "db \<times> nat"
  have step: "P st'" if "P st" and "recover_one cutoff now rid st = Inr st'" for st st' cutoff rid
  proof (cases "fst st' = fst st")
    case False
    with that(2) have stop: "stop_locked rid False now (fst st) = Inr (fst st')"
      by (cases st) (auto simp: recover_one_def split: if_splits)
    from that(1) have inv: "exec_inv (fst st)" and kept: "agents_kept {} d (fst st)"
      and pr: "db_pull_requests (fst st) = db_pull_requests d" by (simp_all add: P_def)
    from agents_kept_trans [OF kept stop_locked_agents(1) [OF inv stop]]
      stop_locked_inv [OF inv stop] stop_locked_agents(2) [OF inv stop] pr
    show ?thesis by (simp add: P_def)
  qed (use that in \<open>simp add: P_def\<close>)
  have "P (d, 0)" using assms(1) by (simp add: P_def)
  with assms(2) have "P (d', n)"
    unfolding recover_stale_def Let_def by (rule foldE_invariant) (rule step)
  then have "agents_kept {} d d' \<and> db_pull_requests d' = db_pull_requests d" by (simp add: P_def)
  then show "agents_kept {} d d'" and "db_pull_requests d' = db_pull_requests d" by simp_all
qed

section \<open>What holds in every reachable database\<close>

definition single :: "(agent_run \<Rightarrow> bool) \<Rightarrow> db \<Rightarrow> bool" where
  "single P d \<longleftrightarrow> length (filter P (db_agent_runs d)) \<le> 1"

definition running_review :: "uuid \<Rightarrow> agent_run \<Rightarrow> bool" where
  "running_review rid a \<longleftrightarrow> ar_execution_run_id a = rid \<and> ar_agent_type a = ''review'' \<and>
     ar_status a = ''running''"

definition journal_agent :: "uuid \<Rightarrow> agent_run \<Rightarrow> bool" where
  "journal_agent rid a \<longleftrightarrow> ar_execution_run_id a = rid \<and> ar_agent_type a = ''pull_request''"

definition within_budget :: "uuid \<Rightarrow> db \<Rightarrow> bool" where
  "within_budget recovery d \<longleftrightarrow> attempts recovery d = [] \<or>
     (\<exists>parent limit n. find_agent recovery d = Some parent \<and>
        ar_input_metadata parent ''limit'' = Some limit \<and> limit_value limit = Some n \<and>
        int (length (attempts recovery d)) \<le> n)"

definition platform_inv :: "db \<Rightarrow> bool" where
  "platform_inv d \<longleftrightarrow> exec_inv d \<and> (\<forall>tid. single (owns_recovery tid) d) \<and>
     (\<forall>rid. single (running_review rid) d) \<and> (\<forall>rid. single (journal_agent rid) d) \<and>
     (\<forall>recovery. within_budget recovery d) \<and> one_pull_request d"

lemma evolves_origin:
  "agent_evolves a b \<Longrightarrow> ar_id b = ar_id a \<and> ar_execution_run_id b = ar_execution_run_id a \<and>
    ar_task_execution_id b = ar_task_execution_id a \<and> ar_agent_type b = ar_agent_type a \<and>
    ar_input_metadata b = ar_input_metadata a \<and> (ar_status b = ''running'' \<longrightarrow> ar_status a = ''running'')"
  by (simp add: agent_evolves_def agent_origin_def)

lemma filter_evolves:
  "list_all2 agent_evolves xs ys \<Longrightarrow> (\<And>a b. agent_evolves a b \<Longrightarrow> P b \<Longrightarrow> P a) \<Longrightarrow>
    length (filter P ys) \<le> length (filter P xs)"
  by (induction rule: list_all2_induct) (auto intro: le_SucI)

lemma single_kept:
  assumes "single P d" and "agents_kept K d d'"
    and "\<And>a b. agent_evolves a b \<Longrightarrow> P b \<Longrightarrow> P a" and "\<And>a. P a \<Longrightarrow> ar_agent_type a \<notin> K"
  shows "single P d'"
proof -
  from assms(2) obtain old new where "db_agent_runs d' = old @ new"
    and "list_all2 agent_evolves (db_agent_runs d) old" and "\<forall>a \<in> set new. ar_agent_type a \<in> K"
    by (auto simp: agents_kept_def)
  moreover from this(3) assms(4) have "filter P new = []" by (auto simp: filter_empty_conv)
  moreover have "length (filter P old) \<le> length (filter P (db_agent_runs d))"
    using \<open>list_all2 agent_evolves (db_agent_runs d) old\<close> assms(3) by (rule filter_evolves)
  ultimately show ?thesis using assms(1) by (simp add: single_def)
qed

lemma single_insert:
  assumes "single P d" and "insert_agent a d = Inr d'" and "P a \<Longrightarrow> \<forall>b \<in> set (db_agent_runs d). \<not> P b"
  shows "single P d'"
  using assms by (cases "P a") (auto simp: single_def insert_agent_Inr)

lemma attempts_kept:
  assumes "agents_kept K d d'" and "''debug'' \<notin> K"
  shows "length (attempts recovery d') = length (attempts recovery d)"
proof -
  from assms(1) obtain old new where d': "db_agent_runs d' = old @ new"
    and ev: "list_all2 agent_evolves (db_agent_runs d) old" and "\<forall>a \<in> set new. ar_agent_type a \<in> K"
    by (auto simp: agents_kept_def)
  from this(3) assms(2) have "filter (attempt_of recovery) new = []"
    by (auto simp: filter_empty_conv attempt_of_def)
  moreover from ev have "length (filter (attempt_of recovery) old) =
      length (filter (attempt_of recovery) (db_agent_runs d))"
    by (induction rule: list_all2_induct) (auto simp: attempt_of_def dest!: evolves_origin)
  ultimately show ?thesis by (simp add: length_attempts d')
qed

lemma find_agent_kept:
  assumes "agents_kept K d d'" and "find_agent i d = Some a"
  shows "\<exists>b. find_agent i d' = Some b \<and> agent_evolves a b"
proof -
  from assms(1) obtain old new where d': "db_agent_runs d' = old @ new"
    and ev: "list_all2 agent_evolves (db_agent_runs d) old" by (auto simp: agents_kept_def)
  have "list_all2 agent_evolves xs ys \<Longrightarrow> fetch ar_id i xs = Some a \<Longrightarrow>
      \<exists>b. fetch ar_id i ys = Some b \<and> agent_evolves a b" for xs ys
    by (induction rule: list_all2_induct) (auto dest: evolves_origin split: if_splits)
  from this [OF ev] assms(2) show ?thesis by (auto simp: find_agent_def d')
qed

lemma within_budget_kept:
  assumes "within_budget recovery d" and "agents_kept K d d'" and "''debug'' \<notin> K"
  shows "within_budget recovery d'"
proof (cases "attempts recovery d = []")
  case True
  with attempts_kept [OF assms(2,3), of recovery] show ?thesis by (simp add: within_budget_def)
next
  case False
  with assms(1) obtain parent limit n where p: "find_agent recovery d = Some parent"
    and "ar_input_metadata parent ''limit'' = Some limit" "limit_value limit = Some n"
    "int (length (attempts recovery d)) \<le> n" by (auto simp: within_budget_def)
  moreover obtain b where "find_agent recovery d' = Some b" "agent_evolves parent b"
    using find_agent_kept [OF assms(2) p] by blast
  ultimately show ?thesis
    using attempts_kept [OF assms(2,3), of recovery]
    by (auto simp: within_budget_def dest!: evolves_origin)
qed

lemma platform_parts:
  assumes "platform_inv d"
  shows "exec_inv d" and "single (owns_recovery tid) d" and "single (running_review rid) d"
    and "single (journal_agent rid) d" and "within_budget recovery d" and "one_pull_request d"
  using assms by (simp_all add: platform_inv_def)

lemma roles_evolve:
  "agent_evolves a b \<Longrightarrow> owns_recovery tid b \<Longrightarrow> owns_recovery tid a"
  "agent_evolves a b \<Longrightarrow> running_review rid b \<Longrightarrow> running_review rid a"
  "agent_evolves a b \<Longrightarrow> journal_agent rid b \<Longrightarrow> journal_agent rid a"
  by (auto simp: owns_recovery_def running_review_def journal_agent_def dest: evolves_origin)

lemma platform_kept:
  assumes inv: "platform_inv d" and "exec_inv d'" and kept: "agents_kept K d d'"
    and K: "K \<subseteq> {''coding'', ''test''}" and "one_pull_request d'"
  shows "platform_inv d'"
proof -
  have "single (owns_recovery tid) d'" for tid
    by (rule single_kept [OF platform_parts(2) [OF inv] kept roles_evolve(1)])
      (use K in \<open>auto simp: owns_recovery_def\<close>)
  moreover have "single (running_review rid) d'" for rid
    by (rule single_kept [OF platform_parts(3) [OF inv] kept roles_evolve(2)])
      (use K in \<open>auto simp: running_review_def\<close>)
  moreover have "single (journal_agent rid) d'" for rid
    by (rule single_kept [OF platform_parts(4) [OF inv] kept roles_evolve(3)])
      (use K in \<open>auto simp: journal_agent_def\<close>)
  moreover have "within_budget recovery d'" for recovery
    by (rule within_budget_kept [OF platform_parts(5) [OF inv] kept]) (use K in auto)
  ultimately show ?thesis using assms(2,5) by (simp add: platform_inv_def)
qed

text \<open>A step that adds one owner, review or journal entry.\<close>

lemma platform_insert:
  assumes inv: "platform_inv d" and ins: "insert_agent a d = Inr d'" and ty: "ar_agent_type a \<noteq> ''debug''"
    and "\<And>tid. owns_recovery tid a \<Longrightarrow> \<forall>b \<in> set (db_agent_runs d). \<not> owns_recovery tid b"
    and "\<And>rid. running_review rid a \<Longrightarrow> \<forall>b \<in> set (db_agent_runs d). \<not> running_review rid b"
    and "\<And>rid. journal_agent rid a \<Longrightarrow> \<forall>b \<in> set (db_agent_runs d). \<not> journal_agent rid b"
  shows "platform_inv d'"
proof -
  have "within_budget recovery d'" for recovery
    by (rule within_budget_kept [OF platform_parts(5) [OF inv] agents_kept_insert [OF ins]])
      (use ty in auto)
  moreover have "one_pull_request d'"
    using platform_parts(6) [OF inv] ins by (auto simp: insert_agent_Inr one_pull_request_def)
  moreover have "exec_inv d'" using platform_parts(1) [OF inv] ins by (rule exec_inv_insert_agent)
  moreover have "single (owns_recovery tid) d'" for tid
    using platform_parts(2) [OF inv] ins assms(4) by (rule single_insert)
  moreover have "single (running_review rid) d'" for rid
    using platform_parts(3) [OF inv] ins assms(5) by (rule single_insert)
  moreover have "single (journal_agent rid) d'" for rid
    using platform_parts(4) [OF inv] ins assms(6) by (rule single_insert)
  ultimately show ?thesis by (simp add: platform_inv_def)
qed

lemma claim_debug_budget:
  assumes inv: "platform_inv d"
    and c: "claim_debug render recovery model fresh now d = Inr (d', aid, history)"
  shows "within_budget r d'"
proof -
  from c obtain parent run s ts key target limit
    where l: "recovery_locked recovery d = Inr (parent, (run, s, ts), (key, target))"
      and limit: "ar_input_metadata parent ''limit'' = Some limit"
      and av: "debug_available limit (length (attempts recovery d)) target"
      and ins: "insert_agent (new_agent fresh (ar_execution_run_id parent) (Some (te_id target)) ''debug''
              model now [''recovery_id'' \<mapsto> JId recovery,
                         ''attempt'' \<mapsto> JInt (int (length (attempts recovery d)) + 1)])
              (save now run (aset key (target\<lparr>te_output_summary := Some ''debug_running''\<rparr>) ts) d)
         = Inr d'"
    by (rule claim_debug_Inr) (rule that; assumption)
  let ?a = "new_agent fresh (ar_execution_run_id parent) (Some (te_id target)) ''debug''
              model now [''recovery_id'' \<mapsto> JId recovery,
                         ''attempt'' \<mapsto> JInt (int (length (attempts recovery d)) + 1)]"
  have agents: "db_agent_runs d' = db_agent_runs d @ [?a]" using ins by (auto simp: insert_agent_Inr)
  have "attempt_of x ?a \<longleftrightarrow> x = recovery" for x by (auto simp: attempt_of_def)
  then have len: "length (attempts x d') = length (attempts x d) + (if x = recovery then 1 else 0)" for x
    by (simp add: length_attempts agents)
  have find: "find_agent x d = Some p \<Longrightarrow> find_agent x d' = Some p" for x p
    by (simp add: find_agent_def agents)
  show ?thesis
  proof (cases "r = recovery")
    case True
    from av obtain n where "limit_value limit = Some n" "int (length (attempts recovery d)) < n"
      by (auto simp: debug_available_def split: option.splits)
    then have "int (length (attempts recovery d')) \<le> n" using len [of recovery] by simp
    moreover have "find_agent recovery d' = Some parent"
      using recovery_locked_Inr(1) [OF l] by (rule find)
    ultimately show ?thesis
      using True limit \<open>limit_value limit = Some n\<close> by (auto simp: within_budget_def)
  next
    case False
    then have "length (attempts r d') = length (attempts r d)" using len by simp
    then show ?thesis
      using platform_parts(5) [OF inv, of r] find by (fastforce simp: within_budget_def)
  qed
qed

lemma claim_debug_platform:
  assumes inv: "platform_inv d"
    and c: "claim_debug render recovery model fresh now d = Inr (d', aid, history)"
  shows "platform_inv d'"
proof -
  note kept = claim_debug_inv [OF platform_parts(1) [OF inv] c]
  have "single (owns_recovery tid) d'" for tid
    by (rule single_kept [OF platform_parts(2) [OF inv] kept(2) roles_evolve(1)])
      (auto simp: owns_recovery_def)
  moreover have "single (running_review rid) d'" for rid
    by (rule single_kept [OF platform_parts(3) [OF inv] kept(2) roles_evolve(2)])
      (auto simp: running_review_def)
  moreover have "single (journal_agent rid) d'" for rid
    by (rule single_kept [OF platform_parts(4) [OF inv] kept(2) roles_evolve(3)])
      (auto simp: journal_agent_def)
  moreover have "db_pull_requests d' = db_pull_requests d"
    using c by (rule claim_debug_Inr) (auto simp: insert_agent_Inr)
  then have "one_pull_request d'" using platform_parts(6) [OF inv] by (simp add: one_pull_request_def)
  ultimately show ?thesis using kept(1) claim_debug_budget [OF assms] by (simp add: platform_inv_def)
qed

lemma recovery_open_platform:
  assumes inv: "platform_inv d"
    and c: "recovery_open rid tid ctx config limit fresh now d = Inr (d', aid, task, coding)"
  shows "platform_inv d'"
proof -
  note opened = recovery_open_inv [OF platform_parts(1) [OF inv] c]
  from opened(4) have "\<forall>b \<in> set (db_agent_runs d). \<not> owns_recovery tid b"
    by (auto simp: active_recovery_def find_None_iff)
  then show ?thesis
    by (intro platform_insert [OF inv opened(3)])
      (auto simp: owns_recovery_def running_review_def journal_agent_def)
qed

lemma review_start_platform:
  assumes inv: "platform_inv d"
    and c: "review_start digest rid ctx required model fresh now d = Inr (d', aid, snapshot)"
  shows "platform_inv d'"
proof -
  note started = review_start_inv [OF platform_parts(1) [OF inv] c]
  from started(4) show ?thesis
    by (intro platform_insert [OF inv started(5)])
      (auto simp: owns_recovery_def running_review_def journal_agent_def)
qed

lemma journal_platform:
  assumes inv: "platform_inv d" and c: "publication_journal p fresh now d = Inr (d', aid)"
  shows "platform_inv d'"
proof -
  from c obtain run d1 where r: "find_run (pub_execution_id p) d = Some run"
    and j: "journal_entry p fresh now d = Inr (d1, aid)"
    and d': "d' = save_run now (run\<lparr>run_branch_name := Some (pub_branch p)\<rparr>) d1"
    by (auto simp: publication_journal_def)
  have "platform_inv d1"
  proof (cases "journal_of (pub_execution_id p) d")
    case None
    then have "\<forall>b \<in> set (db_agent_runs d). \<not> journal_agent (pub_execution_id p) b"
      by (auto simp: journal_of_def find_None_iff journal_agent_def)
    with None j show ?thesis
      by (auto simp: journal_entry_def journal_agent_def owns_recovery_def running_review_def
          intro!: platform_insert [OF inv])
  next
    case (Some a)
    with j inv show ?thesis by (auto simp: journal_entry_def split: if_splits)
  qed
  moreover have "exec_inv d'" using platform_parts(1) [OF inv] c by (rule publication_journal_inv)
  ultimately show ?thesis
    by (intro platform_kept [of d1 d' "{}"]) (auto simp: d' agents_kept_same dest: platform_parts(6)
        simp: one_pull_request_def)
qed

lemma published_platform:
  assumes inv: "platform_inv d" and c: "publication_finish p journal_id remote fresh now d = Inr d'"
  shows "platform_inv d'"
proof -
  from c obtain d1 where "record_pull_request (pub_execution_id p) remote fresh d = Inr d1"
    and "db_pull_requests d' = db_pull_requests d1"
    by (auto simp: publication_finish_def)
  then have "one_pull_request d'"
    using record_pull_request_inv(1) [OF platform_parts(6) [OF inv]] by (auto simp: one_pull_request_def)
  with publication_finish_inv [OF platform_parts(1) [OF inv] c] show ?thesis
    by (intro platform_kept [OF inv]) auto
qed

section \<open>The invariant of the platform\<close>

text \<open>The operations that leave the pull requests alone.\<close>

lemma pull_requests_frame:
  "coding_start rid tid ctx model fresh now d = Inr (d', aid, inputs) \<Longrightarrow>
     db_pull_requests d' = db_pull_requests d"
  "coding_finish rid tid aid success meta usage now d = Inr d' \<Longrightarrow>
     db_pull_requests d' = db_pull_requests d"
  "test_start rid tid config recovery_id fresh now d = Inr (d', aid, tests) \<Longrightarrow>
     db_pull_requests d' = db_pull_requests d"
  "test_finish rid tid aid report error recovery_id diff_hash now d = Inr d' \<Longrightarrow>
     db_pull_requests d' = db_pull_requests d"
  "reserve_patch sha recovery aid fingerprint d = Inr (d', new) \<Longrightarrow>
     db_pull_requests d' = db_pull_requests d"
  "finish_debug recovery aid meta success usage now d = Inr d' \<Longrightarrow>
     db_pull_requests d' = db_pull_requests d"
  "recovery_finish recovery passed error now d = Inr d' \<Longrightarrow> db_pull_requests d' = db_pull_requests d"
  "review_finish digest rid aid ctx required snapshot decision usage error now d = Inr (d', final) \<Longrightarrow>
     db_pull_requests d' = db_pull_requests d"
  "publication_failed journal_id error_code d = Inr d' \<Longrightarrow> db_pull_requests d' = db_pull_requests d"
  by (auto elim!: coding_start_Inr simp: insert_agent_Inr)
    (auto elim!: test_start_Inr test_finish_Inr recovery_finish_Inr review_finish_Inr
      simp: insert_agent_Inr coding_finish_def reserve_patch_def finish_debug_def publication_failed_def
        Let_def)

lemma step_platform:
  assumes step: "exec_step d d'" and inv: "platform_inv d"
  shows "platform_inv d'"
proof -
  note ex = platform_parts(1) [OF inv]
  have pr: "one_pull_request d'" if "db_pull_requests d' = db_pull_requests d" for d'
    using that platform_parts(6) [OF inv] by (simp add: one_pull_request_def)
  note keep = platform_kept [OF inv]
  from step show ?thesis
  proof cases
    case step_create
    then show ?thesis using create_inv [OF ex] advance_ops_agents
      by (intro keep [of d' "{}"] agents_kept_same pr) auto
  next
    case step_reconcile
    then show ?thesis using reconcile_inv [OF ex] advance_ops_agents
      by (intro keep [of d' "{}"] agents_kept_same pr) auto
  next
    case step_transition
    then show ?thesis using transition_inv [OF ex] advance_ops_agents
      by (intro keep [of d' "{}"] agents_kept_same pr) auto
  next
    case step_stop
    then show ?thesis using stop_locked_inv [OF ex] stop_locked_agents [OF ex]
      by (intro keep [of d' "{}"] pr) auto
  next
    case step_recover
    then show ?thesis using recover_stale_inv [OF ex] recover_stale_agents [OF ex]
      by (intro keep [of d' "{}"] pr) auto
  next
    case step_coding_start
    from keep [OF coding_start_inv [OF ex step_coding_start] _ pr [OF pull_requests_frame(1) [OF step_coding_start]]]
    show ?thesis by simp
  next
    case step_coding_finish
    from keep [OF coding_finish_inv [OF ex step_coding_finish] _ pr [OF pull_requests_frame(2) [OF step_coding_finish]]]
    show ?thesis by simp
  next
    case step_test_start
    from keep [OF test_start_inv [OF ex step_test_start] _ pr [OF pull_requests_frame(3) [OF step_test_start]]]
    show ?thesis by simp
  next
    case step_test_finish
    from keep [OF test_finish_inv [OF ex step_test_finish] _ pr [OF pull_requests_frame(4) [OF step_test_finish]]]
    show ?thesis by simp
  next
    case step_recovery_open
    with inv show ?thesis by (rule recovery_open_platform)
  next
    case step_claim_debug
    with inv show ?thesis by (rule claim_debug_platform)
  next
    case step_reserve_patch
    from keep [OF reserve_patch_inv [OF ex step_reserve_patch] _ pr [OF pull_requests_frame(5) [OF step_reserve_patch]]]
    show ?thesis by simp
  next
    case step_finish_debug
    from keep [OF finish_debug_inv [OF ex step_finish_debug] _ pr [OF pull_requests_frame(6) [OF step_finish_debug]]]
    show ?thesis by simp
  next
    case step_recovery_finish
    from keep [OF recovery_finish_inv [OF ex step_recovery_finish] _
        pr [OF pull_requests_frame(7) [OF step_recovery_finish]]]
    show ?thesis by simp
  next
    case step_review_start
    with inv show ?thesis by (rule review_start_platform)
  next
    case step_review_finish
    from keep [OF review_finish_inv [OF ex step_review_finish] _
        pr [OF pull_requests_frame(8) [OF step_review_finish]]]
    show ?thesis by simp
  next
    case step_journal
    with inv show ?thesis by (rule journal_platform)
  next
    case step_published
    with inv show ?thesis by (rule published_platform)
  next
    case step_publication_failed
    from keep [OF publication_failed_inv [OF ex step_publication_failed] _
        pr [OF pull_requests_frame(9) [OF step_publication_failed]]]
    show ?thesis by simp
  next
    case step_other
    then have "exec_inv d'" using exec_inv_ids(3) [OF ex] by (intro exec_inv_cong [OF ex]) simp_all
    with step_other show ?thesis by (intro keep [of d' "{}"] agents_kept_same pr) simp_all
  qed
qed

lemma no_executions_platform: "no_executions d \<Longrightarrow> platform_inv d"
  by (auto simp: no_executions_def platform_inv_def exec_inv_def load_def find_run_def single_def
      within_budget_def attempts_def one_pull_request_def)

interpretation executions: invariant_system no_executions exec_step platform_inv
  by unfold_locales (auto intro: no_executions_platform step_platform)

lemmas reachable_parts = executions.reach_inv [THEN platform_parts(1)]
  executions.reach_inv [THEN platform_parts(2)] executions.reach_inv [THEN platform_parts(3)]
  executions.reach_inv [THEN platform_parts(4)] executions.reach_inv [THEN platform_parts(5)]
  executions.reach_inv [THEN platform_parts(6)]

end
