(* ===== verification/Example_Run.thy ===== *)
theory Example_Run
  imports Execution_Trace
begin

text \<open>
  One execution from the plan to the pull request: two tasks, the second depending on the first;
  the first patch fails its tests and is repaired by one debug attempt. The databases of this
  theory are the states after each transaction. They are reachable by construction; the theories
  that instantiate a property at a concrete input evaluate them.
\<close>

section \<open>Data\<close>

definition example_task :: "string \<Rightarrow> string list \<Rightarrow> uuid \<Rightarrow> nat \<Rightarrow> plan_task_row" where
  "example_task key deps i n =
     \<lparr>pt_id = i, pt_plan_id = 3, pt_task_key = key, pt_title = ''t'', pt_description = Some ''d'',
      pt_rationale = Some ''r'', pt_acceptance_criteria = [''ok''], pt_suggested_tests = [],
      pt_status = ''pending'', pt_dependencies = deps, pt_target_files = [], pt_sequence = n\<rparr>"

definition example_db :: db where
  "example_db =
     \<lparr>db_repositories = [\<lparr>repo_id = 1, repo_github_owner = ''o'', repo_github_name = ''n'',
        repo_clone_url = ''https://github.com/o/n.git'', repo_default_branch = ''main'',
        repo_local_status = ''ready'', repo_index_status = ''ready'', repo_embedding_status = ''ready''\<rparr>],
      db_issues = [\<lparr>iss_id = 2, iss_repository_id = 1, iss_github_issue_number = 7, iss_title = ''bug'',
        iss_body = None, iss_state = ''open'', iss_source_url = ''u''\<rparr>],
      db_plans = [\<lparr>plan_id = 3, plan_issue_id = 2, plan_status = ''draft'', plan_row_summary = Some ''s''\<rparr>],
      db_plan_tasks = [example_task ''a'' [] 4 0, example_task ''b'' [''a''] 5 1],
      db_runs = [], db_task_executions = [], db_agent_runs = [], db_pull_requests = [], db_chunks = []\<rparr>"

definition example_context :: issue_context where
  "example_context =
     \<lparr>cs_repository = \<lparr>cr_id = 1, cr_github_owner = ''o'', cr_github_name = ''n'',
        cr_default_branch = ''main'', cr_index_status = ''ready'', cr_embedding_status = ''ready''\<rparr>,
      cs_issue = \<lparr>ci_id = 2, ci_github_issue_number = 7, ci_title = ''bug'', ci_body = None,
        ci_truncated = False\<rparr>,
      ic_queries = [''bug''], ic_relevant_files = [], ic_snippets = [], ic_code_chars = 0,
      ic_limited = False\<rparr>"

definition example_config :: repository_test_config where
  "example_config = \<lparr>required_commands = [''pytest'']\<rparr>"

definition example_report :: "int \<Rightarrow> test_report" where
  "example_report code =
     \<lparr>rep_results = [\<lparr>tr_command = [''pytest''], tr_exit_code = Some code, tr_stdout = [], tr_stderr = [],
        tr_duration = 1, tr_passed = (code = 0), tr_timeout = False, tr_output_truncated = False\<rparr>],
      rep_passed = (code = 0)\<rparr>"

definition example_patch :: "string \<Rightarrow> code_change_proposal" where
  "example_patch diff =
     \<lparr>ccp_summary = ''s'', ccp_files_changed = [''app.py''], ccp_unified_diff = diff,
      ccp_assumptions = [], ccp_tests_to_run = []\<rparr>"

definition example_result :: "string \<Rightarrow> metadata" where
  "example_result diff =
     [''proposal'' \<mapsto> JProposal (example_patch diff), ''git_diff'' \<mapsto> JStr ''d'']"

definition example_decision :: review_decision where
  "example_decision =
     \<lparr>rd_review = Some \<lparr>rr_summary = ''good'', rr_approved = True, rr_findings = []\<rparr>,
      rd_mechanical_errors = [], rd_approved = True, rd_diff_hash = Some ''h2''\<rparr>"

definition example_publication :: publication where
  "example_publication =
     \<lparr>pub_execution_id = 10, pub_review_id = 40, pub_owner = ''o'', pub_repository = ''n'',
      pub_source = ''https://github.com/o/n.git'', pub_base = ''main'', pub_branch = ''b7'',
      pub_parent = ''p'', pub_commit = ''c'', pub_diff_hash = ''h2'', pub_title = ''t'', pub_body = ''x''\<rparr>"

definition example_remote :: published_pr where
  "example_remote = \<lparr>ppr_number = 5, ppr_html_url = ''https://github.com/o/n/pull/5'', ppr_state = ''open''\<rparr>"

definition example_digest :: "evidence \<Rightarrow> string" where
  "example_digest e = (if snd (snd (snd e)) = example_config then ''e'' else ''f'')"

section \<open>The transactions\<close>

text \<open>A transaction that raises leaves the database as it was.\<close>

definition committed :: "('a \<Rightarrow> db) \<Rightarrow> (db \<Rightarrow> service_error + 'a) \<Rightarrow> db \<Rightarrow> db" where
  "committed f op d = (case op d of Inl _ \<Rightarrow> d | Inr x \<Rightarrow> f x)"

lemma committed_step:
  assumes "exec_step\<^sup>*\<^sup>* d0 d" and "\<And>x. op d = Inr x \<Longrightarrow> exec_step d (f x)"
  shows "exec_step\<^sup>*\<^sup>* d0 (committed f op d)"
  using assms by (auto simp: committed_def split: sum.split)

definition db_created :: db where
  "db_created = committed fst (create 3 (Some 10) (\<lambda>i. 10 + i) 100) example_db"

definition db_ready :: db where
  "db_ready = committed fst (reconcile 10 101) db_created"

definition db_opened :: db where
  "db_opened = committed fst (recovery_open 10 11 example_context example_config 2 20 102) db_ready"

definition db_coding :: db where
  "db_coding = committed fst (coding_start 10 11 example_context None 21 103) db_opened"

definition db_coded :: db where
  "db_coded = committed id (coding_finish 10 11 21 True (example_result ''p1'') None 104) db_coding"

definition db_testing :: db where
  "db_testing = committed fst (test_start 10 11 example_config (Some 20) 22 105) db_coded"

definition db_tested :: db where
  "db_tested = committed id (test_finish 10 11 22 (example_report 1) None (Some 20) (Some ''h0'') 106)
     db_testing"

definition db_debugging :: db where
  "db_debugging = committed fst (claim_debug (\<lambda>_. []) 20 None 23 107) db_tested"

definition db_reserved :: db where
  "db_reserved = committed fst (reserve_patch id 20 23 ''p2'') db_debugging"

definition db_debugged :: db where
  "db_debugged = committed id (finish_debug 20 23 (example_result ''p2'') True None 108) db_reserved"

definition db_retesting :: db where
  "db_retesting = committed fst (test_start 10 11 example_config (Some 20) 24 109) db_debugged"

definition db_retested :: db where
  "db_retested = committed id (test_finish 10 11 24 (example_report 0) None (Some 20) (Some ''h1'') 110)
     db_retesting"

definition db_recovered :: db where
  "db_recovered = committed id (recovery_finish 20 True None 111) db_retested"

definition db_second :: db where
  "db_second = committed id (coding_finish 10 12 31 True (example_result ''p3'') None 114)
     (committed fst (coding_start 10 12 example_context None 31 113)
       (committed fst (recovery_open 10 12 example_context example_config 2 30 112) db_recovered))"

definition db_completed :: db where
  "db_completed = committed id (recovery_finish 30 True None 117)
     (committed id (test_finish 10 12 32 (example_report 0) None (Some 30) (Some ''h2'') 116)
       (committed fst (test_start 10 12 example_config (Some 30) 32 115) db_second))"

definition db_reviewing :: db where
  "db_reviewing = committed fst
     (review_start example_digest 10 example_context example_config None 40 118) db_completed"

definition example_snapshot :: review_snapshot where
  "example_snapshot = (case review_load example_digest 10 example_context example_config db_completed of
     Inr rs \<Rightarrow> rs | Inl _ \<Rightarrow> undefined)"

definition db_reviewed :: db where
  "db_reviewed = committed fst (review_finish example_digest 10 40 example_context example_config
     example_snapshot example_decision None None 119) db_reviewing"

definition db_journalled :: db where
  "db_journalled = committed fst (publication_journal example_publication 50 120) db_reviewed"

definition db_published :: db where
  "db_published = committed id (publication_finish example_publication 50 example_remote 60 121)
     db_journalled"

section \<open>Every one of them is reachable\<close>

lemma example_no_executions: "no_executions example_db"
  by (simp add: no_executions_def example_db_def)

lemma reach_created: "exec_step\<^sup>*\<^sup>* example_db db_created"
  unfolding db_created_def by (rule committed_step) (auto intro: step_create)

lemma reach_ready: "exec_step\<^sup>*\<^sup>* example_db db_ready"
  unfolding db_ready_def by (rule committed_step [OF reach_created]) (auto intro: step_reconcile)

lemma reach_opened: "exec_step\<^sup>*\<^sup>* example_db db_opened"
  unfolding db_opened_def by (rule committed_step [OF reach_ready]) (auto intro: step_recovery_open)

lemma reach_coding: "exec_step\<^sup>*\<^sup>* example_db db_coding"
  unfolding db_coding_def by (rule committed_step [OF reach_opened]) (auto intro: step_coding_start)

lemma reach_coded: "exec_step\<^sup>*\<^sup>* example_db db_coded"
  unfolding db_coded_def by (rule committed_step [OF reach_coding]) (simp add: step_coding_finish)

lemma reach_testing: "exec_step\<^sup>*\<^sup>* example_db db_testing"
  unfolding db_testing_def by (rule committed_step [OF reach_coded]) (auto intro: step_test_start)

lemma reach_tested: "exec_step\<^sup>*\<^sup>* example_db db_tested"
  unfolding db_tested_def by (rule committed_step [OF reach_testing]) (simp add: step_test_finish)

lemma reach_debugging: "exec_step\<^sup>*\<^sup>* example_db db_debugging"
  unfolding db_debugging_def by (rule committed_step [OF reach_tested]) (auto intro: step_claim_debug)

lemma reach_reserved: "exec_step\<^sup>*\<^sup>* example_db db_reserved"
  unfolding db_reserved_def by (rule committed_step [OF reach_debugging]) (auto intro: step_reserve_patch)

lemma reach_debugged: "exec_step\<^sup>*\<^sup>* example_db db_debugged"
  unfolding db_debugged_def by (rule committed_step [OF reach_reserved]) (simp add: step_finish_debug)

lemma reach_retesting: "exec_step\<^sup>*\<^sup>* example_db db_retesting"
  unfolding db_retesting_def by (rule committed_step [OF reach_debugged]) (auto intro: step_test_start)

lemma reach_retested: "exec_step\<^sup>*\<^sup>* example_db db_retested"
  unfolding db_retested_def by (rule committed_step [OF reach_retesting]) (simp add: step_test_finish)

lemma reach_recovered: "exec_step\<^sup>*\<^sup>* example_db db_recovered"
  unfolding db_recovered_def by (rule committed_step [OF reach_retested]) (simp add: step_recovery_finish)

lemma reach_second: "exec_step\<^sup>*\<^sup>* example_db db_second"
  unfolding db_second_def
  by (intro committed_step reach_recovered)
    (auto intro: step_recovery_open step_coding_start step_coding_finish)

lemma reach_completed: "exec_step\<^sup>*\<^sup>* example_db db_completed"
  unfolding db_completed_def
  by (intro committed_step reach_second)
    (auto intro: step_test_start step_test_finish step_recovery_finish)

lemma reach_reviewing: "exec_step\<^sup>*\<^sup>* example_db db_reviewing"
  unfolding db_reviewing_def by (rule committed_step [OF reach_completed]) (auto intro: step_review_start)

lemma reach_reviewed: "exec_step\<^sup>*\<^sup>* example_db db_reviewed"
  unfolding db_reviewed_def by (rule committed_step [OF reach_reviewing]) (auto intro: step_review_finish)

lemma reach_journalled: "exec_step\<^sup>*\<^sup>* example_db db_journalled"
  unfolding db_journalled_def by (rule committed_step [OF reach_reviewed]) (auto intro: step_journal)

lemma reach_published: "exec_step\<^sup>*\<^sup>* example_db db_published"
  unfolding db_published_def by (rule committed_step [OF reach_journalled]) (simp add: step_published)

end
