(* ===== verification/Execution_Properties.thy ===== *)
theory Execution_Properties
  imports Example_Run
begin

text \<open>
  What the execution services guarantee in every database their transactions can reach, and what
  one transaction does. The invariant comes from the interpretation \<open>executions\<close>; each property
  is followed by an instance on the run of \<open>Example_Run\<close>.
\<close>

section \<open>Facts about the example\<close>

lemma recovered_facts:
  "(case load 10 db_recovered of Inl _ \<Rightarrow> False | Inr (run, s, ts) \<Rightarrow>
      run_status run = ''running'' \<and> statuses ts = [(''a'', ''completed''), (''b'', ''queued'')] \<and>
      parents_of (snapshot_dag s) ''b'' = [''a''])"
  by code_simp

lemma recovered_load:
  obtains run s t u where "load 10 db_recovered = Inr (run, s, [(''a'', t), (''b'', u)])"
    and "run_status run = ''running''" and "te_status t = ''completed''" and "te_status u = ''queued''"
    and "parents_of (snapshot_dag s) ''b'' = [''a'']"
proof -
  from recovered_facts obtain run s ts where l: "load 10 db_recovered = Inr (run, s, ts)"
    and "run_status run = ''running''" and st: "statuses ts = [(''a'', ''completed''), (''b'', ''queued'')]"
    and "parents_of (snapshot_dag s) ''b'' = [''a'']"
    by (auto split: sum.splits)
  moreover from st obtain t u where "ts = [(''a'', t), (''b'', u)]" "te_status t = ''completed''"
    "te_status u = ''queued''"
    by (auto simp: statuses_def map_eq_Cons_conv)
  ultimately show thesis using that by blast
qed

section \<open>Order of execution\<close>

text \<open>
  C1. No task of a run is queued, running, completed or failed before every prerequisite in the
  snapshot of its plan has completed: in every database the transactions of the services reach,
  in any order and with any arguments.
\<close>

theorem started_tasks_ready:
  assumes "no_executions d0" and "exec_step\<^sup>*\<^sup>* d0 d" and "load rid d = Inr (run, s, ts)"
    and "(k, t) \<in> set ts" and "started (te_status t)" and "p \<in> set (parents_of (snapshot_dag s) k)"
  shows "\<exists>u. (p, u) \<in> set ts \<and> te_status u = ''completed''"
proof -
  note loaded = exec_inv_load [OF reachable_parts(1) [OF assms(1,2)] assms(3)]
  have k: "k \<in> fst ` set (snapshot_dag s)"
    using assms(4) load_fst_dag [OF assms(3)] by force
  have "state_of (statuses ts) p = ''completed''"
    using loaded(1) k _ assms(6) by (rule run_inv_started) (use assms(4,5) loaded(2) in \<open>simp add: state_of_statuses\<close>)
  moreover have "p \<in> fst ` set ts"
    using load_parents [OF assms(3) k] assms(6) load_fst_dag [OF assms(3)] by blast
  ultimately show ?thesis using state_of_statuses_ex [OF loaded(2), of p] by metis
qed

lemma started_tasks_ready_witness:
  "\<exists>run s ts u. load 10 db_recovered = Inr (run, s, ts) \<and> (''a'', u) \<in> set ts \<and> te_status u = ''completed''"
proof -
  obtain run s t u where l: "load 10 db_recovered = Inr (run, s, [(''a'', t), (''b'', u)])"
    and u: "te_status u = ''queued''" and p: "parents_of (snapshot_dag s) ''b'' = [''a'']"
    by (rule recovered_load)
  have "\<exists>v. (''a'', v) \<in> set [(''a'', t), (''b'', u)] \<and> te_status v = ''completed''"
    by (rule started_tasks_ready [OF example_no_executions reach_recovered l, where k = "''b''" and t = u])
      (simp_all add: u p started_def)
  with l show ?thesis by blast
qed

text \<open>
  The status of a run agrees with its tasks in every reachable database: the tasks of a
  pending run are pending, those of a completed run completed, those of a failed run have ended,
  and a task is cancelled only in a cancelled run.
\<close>

theorem run_status_agrees:
  assumes "no_executions d0" and "exec_step\<^sup>*\<^sup>* d0 d" and "load rid d = Inr (run, s, ts)"
    and "(k, t) \<in> set ts"
  shows "(run_status run = ''pending'' \<longrightarrow> te_status t = ''pending'') \<and>
    (run_status run = ''completed'' \<longrightarrow> te_status t = ''completed'') \<and>
    (run_status run = ''failed'' \<longrightarrow> te_status t \<in> {''completed'', ''failed'', ''blocked''}) \<and>
    (te_status t = ''cancelled'' \<longrightarrow> run_status run = ''cancelled'')"
proof -
  note loaded = exec_inv_load [OF reachable_parts(1) [OF assms(1,2)] assms(3)]
  have "k \<in> fst ` set (snapshot_dag s)" using assms(4) load_fst_dag [OF assms(3)] by force
  from run_inv_agrees [OF loaded(1) this] have "agrees (run_status run) (te_status t)"
    using assms(4) loaded(2) by (simp add: state_of_statuses)
  then show ?thesis by (auto simp: agrees_def TERMINAL_def split: if_splits)
qed

lemma run_status_agrees_witness:
  "\<exists>run s ts t. load 10 db_recovered = Inr (run, s, ts) \<and> (''a'', t) \<in> set ts \<and> te_status t \<noteq> ''cancelled''"
proof -
  obtain run s t u where l: "load 10 db_recovered = Inr (run, s, [(''a'', t), (''b'', u)])"
    and r: "run_status run = ''running''"
    by (rule recovered_load)
  have "te_status t \<noteq> ''cancelled''"
    using run_status_agrees [OF example_no_executions reach_recovered l, where k = "''a''" and t = t] r
    by auto
  with l show ?thesis by (intro exI conjI) (assumption, simp_all)
qed

section \<open>Reconciliation\<close>

lemma response_tasks:
  assumes "response run s ts = Inr resp" and "fst ` set ts = fst ` set (snapshot_dag s)"
    and "distinct (map fst ts)"
  shows "er_status resp = run_status run"
    and "ter_status ` set (er_tasks resp) = te_status ` snd ` set ts"
proof -
  from assms(1) obtain ks where ks: "plan_order (snap_proposal s) = Inr ks"
    and resp: "er_status resp = run_status run"
    and tasks: "er_tasks resp = map (\<lambda>key. let t = the (map_of ts key) in
             \<lparr>ter_id = te_id t, ter_plan_task_id = te_plan_task_id t, ter_task_key = key,
              ter_dependencies = parents_of (snapshot_dag s) key,
              ter_status = te_status t, ter_attempt = te_attempt t,
              ter_output_summary = te_output_summary t\<rparr>) ks"
    by (auto simp: response_def split: sum.splits)
  show "er_status resp = run_status run" by (rule resp)
  have "set ks = fst ` set ts"
    using plan_order_set [OF ks] assms(2) by (simp add: snapshot_dag_def)
  then have "ter_status ` set (er_tasks resp) = (\<lambda>k. te_status (the (map_of ts k))) ` fst ` set ts"
    by (simp add: tasks Let_def image_image)
  also have "\<dots> = te_status ` snd ` set ts"
    using assms(3) by (force simp: image_iff)
  finally show "ter_status ` set (er_tasks resp) = te_status ` snd ` set ts" .
qed

text \<open>
  C37. Reconciliation never leaves a run stuck: when it answers that the run is running, some task
  is queued or running, so there is work to dispatch or to wait for.
\<close>

theorem reconcile_not_stuck:
  assumes "no_executions d0" and "exec_step\<^sup>*\<^sup>* d0 d" and "reconcile rid now d = Inr (d', resp)"
    and "er_status resp = ''running''"
  shows "\<exists>t \<in> set (er_tasks resp). ter_status t \<in> {''queued'', ''running''}"
proof -
  from assms(3) obtain run s ts run' ts' where l: "load rid d = Inr (run, s, ts)"
    and adv: "advance_run now run s ts = Inr (run', ts')" and resp: "response run' s ts' = Inr resp"
    by (auto simp: reconcile_def)
  note loaded = exec_inv_load [OF reachable_parts(1) [OF assms(1,2)] l]
  note dist = load_valid_plan(3) [OF l] and keys = load_fst_dag [OF l]
  note kept = advance_run_inv [OF adv dist keys loaded(2) loaded(1)]
  have keys': "fst ` set ts' = fst ` set (snapshot_dag s)" and dist': "distinct (map fst ts')"
    using same_tasks_proj [OF kept(2)] keys loaded(2) by (metis list.set_map)+
  note resp' = response_tasks [OF resp keys' dist']
  have st: "run_status run' = ''running''" using assms(4) resp'(1) by simp
  then have run: "run_status run \<notin> {''failed'', ''cancelled''}"
    using adv by (auto simp: advance_run_finished)
  from advance_run_Inr [OF adv run keys loaded(2)] obtain states
    where a: "advance (snapshot_dag s) (statuses ts) = Inr states"
      and app: "apply_states states ts = Inr ts'"
      and next': "run_status run' = next_run (snapshot_dag s) (state_of states)" .
  have "\<exists>k \<in> fst ` set (snapshot_dag s). state_of states k \<in> {''queued'', ''running''}"
    using dist a
  proof (rule advance_not_stuck)
    show "\<forall>k \<in> fst ` set (snapshot_dag s). state_of (statuses ts) k \<in> set (known TASK_EDGES) - {''cancelled''}"
      using run_inv_agrees [OF loaded(1)] run
      by (fastforce simp: agrees_def task_known TERMINAL_def split: if_splits)
    show "\<exists>k \<in> fst ` set (snapshot_dag s). state_of states k \<notin> set TERMINAL"
      using next' st by (auto simp: next_run_def split: if_splits)
  qed
  then obtain k where k: "k \<in> fst ` set ts" and q: "state_of states k \<in> {''queued'', ''running''}"
    using keys by auto
  from k keys keys' obtain t where t: "(k, t) \<in> set ts'" and "state_of (statuses ts') k = te_status t"
    using state_of_statuses_ex [OF dist'] by metis
  with q apply_states_state_of [OF app k] have "te_status t \<in> {''queued'', ''running''}" by simp
  with t have "\<exists>x \<in> ter_status ` set (er_tasks resp). x \<in> {''queued'', ''running''}"
    unfolding resp'(2) by force
  then show ?thesis by blast
qed

lemma reconcile_not_stuck_witness:
  "\<exists>d' resp. reconcile 10 200 db_recovered = Inr (d', resp) \<and>
     (\<exists>t \<in> set (er_tasks resp). ter_status t \<in> {''queued'', ''running''})"
proof -
  have "(case reconcile 10 200 db_recovered of Inl _ \<Rightarrow> False | Inr (d', resp) \<Rightarrow> er_status resp = ''running'')"
    by code_simp
  then obtain d' resp where r: "reconcile 10 200 db_recovered = Inr (d', resp)"
    and "er_status resp = ''running''"
    by (auto split: sum.splits)
  with reconcile_not_stuck [OF example_no_executions reach_recovered r] show ?thesis by blast
qed

text \<open>What advancing a run leaves is a fixed point of advancing it.\<close>

lemma apply_states_fixed:
  assumes app: "apply_states states ts = Inr ts'" and dist: "distinct (map fst ts)"
    and keys: "map fst states = map fst ts"
  shows "statuses ts' = states" and "apply_states states ts' = Inr ts'"
proof -
  have keys': "map fst ts' = map fst ts" using same_tasks_proj [OF apply_states_Inr(1) [OF app]] by simp
  show "statuses ts' = states"
  proof (rule alist_eqI)
    show "map fst (statuses ts') = map fst states" "distinct (map fst (statuses ts'))"
      using keys keys' dist by simp_all
    fix k assume "k \<in> fst ` set (statuses ts')"
    then have k: "k \<in> fst ` set ts" using keys' by (metis list.set_map map_fst_statuses)
    then have "k \<in> fst ` set states" using keys by (metis list.set_map)
    then obtain x where x: "map_of states k = Some x" by (metis domD dom_map_of_conv_image_fst)
    have "map_of (map (\<lambda>(k, t). (k, state_of states k)) ts) k = Some (state_of states k)"
      using k by (induction ts) auto
    then show "map_of (statuses ts') k = map_of states k"
      by (simp add: apply_states_Inr(2) [OF app] x state_of_def)
  qed
  have "task_state t' (state_of states k) = Inr t'" if "(k, t') \<in> set ts'" for k t'
  proof -
    from that obtain i where i: "i < length ts'" "ts' ! i = (k, t')" by (metis in_set_conv_nth)
    from app have "list_all2 (\<lambda>(k, t) (k', t'). k' = k \<and> task_state t (state_of states k) = Inr t') ts ts'"
      unfolding apply_states_def mapE_eq_Inr by (rule list_all2_mono) auto
    with i obtain t where "task_state t (state_of states k) = Inr t'"
      by (cases "ts ! i") (auto simp: list_all2_conv_all_nth)
    then show ?thesis by (auto simp: task_state_Inr)
  qed
  then show "apply_states states ts' = Inr ts'"
    unfolding apply_states_def mapE_eq_Inr list_all2_same by auto
qed

lemma advance_run_idem:
  assumes adv: "advance_run now run s ts = Inr (run', ts')" and dag: "distinct (map fst (snapshot_dag s))"
    and keys: "distinct (map fst ts)" and u: "run'' = run'\<lparr>run_updated_at := v\<rparr>"
  shows "advance_run now' run'' s ts' = Inr (run'', ts')"
proof (cases "run_status run \<in> {''failed'', ''cancelled''}")
  case True
  with adv u show ?thesis by (simp add: advance_run_finished)
next
  case False
  from adv False obtain states where a: "advance (snapshot_dag s) (statuses ts) = Inr states"
    and app: "apply_states states ts = Inr ts'"
    by (auto simp: advance_run_def Let_def split: if_splits)
  define ended where "ended = (\<forall>x \<in> snd ` set states. x \<in> set TERMINAL)"
  define good where "good = (\<forall>x \<in> snd ` set states. x = ''completed'')"
  define run1 where "run1 = (if run_started_at run = None then run\<lparr>run_started_at := Some now\<rparr> else run)"
  have run': "(if ended
      then bindE (execution_state run1 (if good then ''completed'' else ''failed''))
        (\<lambda>run2. Inr (if run_completed_at run2 = None
           then run2\<lparr>run_completed_at := Some now\<rparr> else run2, ts'))
      else bindE (execution_state run1 ''running'') (\<lambda>run2. Inr (run2, ts'))) = Inr (run', ts')"
    using adv False by (simp only: advance_run_def a app bindE_Inr ended_def good_def run1_def Let_def if_False)
  have fsts: "map fst states = map fst ts" using advance_keys [OF a] by simp
  note fixed = apply_states_fixed [OF app keys fsts]
  have again: "advance (snapshot_dag s) states = Inr states"
    using dag _ a by (rule advance_idem) (simp add: keys)
  have began: "run_started_at run'' \<noteq> None" and status: "run_status run'' = (if ended then
      if good then ''completed'' else ''failed'' else ''running'')"
    and ended_at: "ended \<Longrightarrow> run_completed_at run'' \<noteq> None"
    using run' u by (auto simp: run1_def execution_state_Inr split: if_splits)
  have same: "execution_state run'' (run_status run'') = Inr run''"
    using status by (auto simp: execution_state_Inr run_known)
  show ?thesis
  proof (cases "ended \<and> \<not> good")
    case True
    with status show ?thesis by (simp add: advance_run_finished)
  next
    case False
    with status have "run_status run'' \<notin> {''failed'', ''cancelled''}" by auto
    then have "advance_run now' run'' s ts' =
        (if ended then bindE (execution_state run'' (if good then ''completed'' else ''failed''))
           (\<lambda>run2. Inr (if run_completed_at run2 = None
              then run2\<lparr>run_completed_at := Some now'\<rparr> else run2, ts'))
         else bindE (execution_state run'' ''running'') (\<lambda>run2. Inr (run2, ts')))"
      using began
      by (simp only: advance_run_def fixed again bindE_Inr ended_def good_def Let_def if_False)
    with False status same ended_at show ?thesis by (auto split: if_splits)
  qed
qed

lemma put_same: "fetch key (key r) rows = Some r \<Longrightarrow> distinct (map key rows) \<Longrightarrow> put key r rows = rows"
  unfolding put_def by (rule map_idI) (auto dest!: fetch_SomeD simp: distinct_map inj_on_def)

lemma put_all_same:
  assumes "distinct (map key rows)" and "set rs \<subseteq> set rows"
  shows "put_all key rs rows = rows"
  using assms(2) by (induction rs) (simp_all add: put_same fetch_distinct assms(1))

lemma save_same:
  assumes inv: "exec_inv d" and l: "load rid d = Inr (run, s, ts)"
  shows "save now run ts d = d"
proof -
  have "find_run (run_id run) d = Some run"
    using l load_run_id [OF l] by (simp add: load_iff loaded_from_def)
  then have "save_run now run d' = d'" if "db_runs d' = db_runs d" for d'
    using that by (simp add: save_run_def find_run_def)
  moreover have "set (map snd ts) \<subseteq> set (db_task_executions d)"
    using load_task_in [OF l] by auto
  then have "save_tasks (map snd ts) d = d"
    by (simp add: save_tasks_def put_all_same exec_inv_ids [OF inv])
  ultimately show ?thesis by (simp add: save_def)
qed

text \<open>
  Reconciling again changes nothing: the second reconciliation leaves the database as it is,
  whatever its clock reads, and answers the same. Duplicate deliveries are harmless.
\<close>

theorem reconcile_idempotent:
  assumes "no_executions d0" and "exec_step\<^sup>*\<^sup>* d0 d" and "reconcile rid now d = Inr (d', resp)"
  shows "reconcile rid later d' = Inr (d', resp)"
proof -
  from assms(3) obtain run s ts run' ts' where l: "load rid d = Inr (run, s, ts)"
    and adv: "advance_run now run s ts = Inr (run', ts')" and resp: "response run' s ts' = Inr resp"
    and d': "d' = save now run' ts' d"
    by (auto simp: reconcile_def)
  note inv = reachable_parts(1) [OF assms(1,2)]
  note loaded = exec_inv_load [OF inv l] and dist = load_valid_plan(3) [OF l] and keys = load_fst_dag [OF l]
  note kept = advance_run_inv [OF adv dist keys loaded(2) loaded(1)]
  obtain u where l': "load rid d' = Inr (run'\<lparr>run_updated_at := u\<rparr>, s, ts')"
    using load_save(1) [OF l exec_inv_ids(2) [OF inv] kept(1,2)] unfolding d' by blast
  have "response (run'\<lparr>run_updated_at := u\<rparr>) s ts' = Inr resp"
    using resp by (auto simp: response_def split: sum.splits)
  moreover have "save later (run'\<lparr>run_updated_at := u\<rparr>) ts' d' = d'"
    using reconcile_inv [OF inv assms(3)] l' by (rule save_same)
  ultimately show ?thesis
    by (simp add: reconcile_def l' advance_run_idem [OF adv dist loaded(2) refl])
qed

lemma reconcile_idempotent_witness:
  "\<exists>d' resp. reconcile 10 101 db_created = Inr (d', resp) \<and> reconcile 10 500 d' = Inr (d', resp)"
proof -
  have "\<not> isl (reconcile 10 101 db_created)" by code_simp
  then obtain d' resp where r: "reconcile 10 101 db_created = Inr (d', resp)"
    by (cases "reconcile 10 101 db_created") auto
  with reconcile_idempotent [OF example_no_executions reach_created r] show ?thesis by blast
qed

section \<open>Moving and stopping\<close>

lemma advance_run_moved:
  assumes adv: "advance_run now run s ts = Inr (run', ts')" and dag: "distinct (map fst (snapshot_dag s))"
    and keys: "fst ` set ts = fst ` set (snapshot_dag s)" "distinct (map fst ts)"
    and k: "k \<in> fst ` set ts" and st: "state_of (statuses ts) k \<noteq> ''pending''"
  shows "state_of (statuses ts') k = state_of (statuses ts) k"
proof (cases "run_status run \<in> {''failed'', ''cancelled''}")
  case True
  with adv show ?thesis by (simp add: advance_run_finished)
next
  case False
  from adv False obtain states where a: "advance (snapshot_dag s) (statuses ts) = Inr states"
    and app: "apply_states states ts = Inr ts'"
    by (auto simp: advance_run_def Let_def split: if_splits)
  have "state_of states k = state_of (statuses ts) k"
    using dag a _ st by (rule advance_not_pending) (use k keys in simp)
  with apply_states_state_of [OF app k] show ?thesis by simp
qed

lemma same_tasks_lookup:
  "same_tasks ts ts' \<Longrightarrow> (k, t) \<in> set ts \<Longrightarrow> \<exists>t'. (k, t') \<in> set ts' \<and> same_task t t'"
  unfolding same_tasks_def by (induction rule: list_all2_induct) auto

lemma loaded_in_tasks: "load rid d = Inr (run, s, ts) \<Longrightarrow> (k, t) \<in> set ts \<Longrightarrow> t \<in> set (run_tasks rid d)"
  by (auto simp: run_tasks_def dest: load_task_in)

text \<open>
  A transition that reports a change leaves the task in the requested state, moved along an
  edge from \<open>queued\<close> or \<open>running\<close>; one that reports none leaves the database untouched. So of two
  workers that claim the same queued task only the first is told that it owns it.
\<close>

theorem transition_effect:
  assumes "no_executions d0" and "exec_step\<^sup>*\<^sup>* d0 d"
    and "transition rid tid status summary now d = Inr (d', changed)"
  shows "if changed
    then (\<exists>t t'. t \<in> set (run_tasks rid d) \<and> te_id t = tid \<and>
            te_status t = (if status = ''running'' then ''queued'' else ''running'') \<and>
            t' \<in> set (run_tasks rid d') \<and> te_id t' = tid \<and> te_status t' = status)
    else d' = d"
proof (cases changed)
  case False
  with assms(3) show ?thesis
    by (auto simp: transition_def move_task_def split: if_splits)
next
  case True
  note inv = reachable_parts(1) [OF assms(1,2)]
  from assms(3) True obtain run s ts key target where l: "load rid d = Inr (run, s, ts)"
    and f: "find_task tid ts = Some (key, target)"
    and was: "te_status target = (if status = ''running'' then ''queued'' else ''running'')"
    and to: "status \<in> {''running'', ''completed'', ''failed''}"
    and m: "move_task now (run, s, ts) key target status summary d = Inr (d', True)"
    by (auto simp: transition_def split: if_splits)
  from m obtain t1 run' ts' where t1: "task_state target status = Inr t1"
    and adv: "advance_run now run s (aset key (t1\<lparr>te_output_summary := clip_summary summary\<rparr>) ts) = Inr (run', ts')"
    and d': "d' = save now run' ts' d"
    by (auto simp: move_task_def)
  let ?t = "t1\<lparr>te_output_summary := clip_summary summary\<rparr>" and ?ts = "aset key (t1\<lparr>te_output_summary := clip_summary summary\<rparr>) ts"
  from f have kt: "(key, target) \<in> set ts" "te_id target = tid" by (simp_all add: find_task_Some)
  have mv: "moved target ?t" using t1 to by (rule moved_task_state)
  note loaded = exec_inv_load [OF inv l]
  note ml = moved_loaded [OF inv l kt(1) mv]
  have keys: "fst ` set ?ts = fst ` set (snapshot_dag s)" "distinct (map fst ?ts)"
    using loaded(2) load_fst_dag [OF l] by simp_all
  have key: "key \<in> fst ` set ts" using kt(1) by force
  have st: "state_of (statuses ?ts) key = status"
    using t1 by (auto simp: state_of_aset [OF key] task_state_Inr)
  have "state_of (statuses ts') key = status"
    using advance_run_moved [OF adv load_valid_plan(3) [OF l] keys, of key] key st to by auto
  note kept = advance_run_inv [OF adv load_valid_plan(3) [OF l] keys ml(2)]
  have same: "same_tasks ts ts'" using ml(1) kept(2) by (rule same_tasks_trans)
  then obtain t' where t': "(key, t') \<in> set ts'" and "same_task target t'"
    using same_tasks_lookup kt(1) by blast
  then have "te_id t' = tid" using kt(2) by (simp add: same_task_def)
  moreover have "distinct (map fst ts')" using same_tasks_proj [OF same] loaded(2) by simp
  then have "te_status t' = status"
    using state_of_statuses t' \<open>state_of (statuses ts') key = status\<close> by metis
  moreover obtain u where "load rid d' = Inr (run'\<lparr>run_updated_at := u\<rparr>, s, ts')"
    using load_save(1) [OF l exec_inv_ids(2) [OF inv] kept(1) same] unfolding d' by blast
  then have "t' \<in> set (run_tasks rid d')" using t' by (rule loaded_in_tasks)
  ultimately show ?thesis using True was kt loaded_in_tasks [OF l kt(1)] by auto
qed

lemma transition_effect_witness:
  "\<exists>d' t'. transition 10 11 ''running'' None 102 db_ready = Inr (d', True) \<and>
     t' \<in> set (run_tasks 10 d') \<and> te_id t' = 11 \<and> te_status t' = ''running''"
proof -
  have "(case transition 10 11 ''running'' None 102 db_ready of Inl _ \<Rightarrow> False | Inr (_, changed) \<Rightarrow> changed)"
    by code_simp
  then obtain d' where t: "transition 10 11 ''running'' None 102 db_ready = Inr (d', True)"
    by (auto split: sum.splits)
  with transition_effect [OF example_no_executions reach_ready t] show ?thesis by auto
qed

lemma stopped_agents_gone:
  assumes "distinct (map ar_id (db_agent_runs d))"
    and "mapE (stop_agent reason now) (running_agents rid d) = Inr as"
    and "db_agent_runs d' = put_all ar_id as (db_agent_runs d)"
  shows "running_agents rid d' = []"
proof -
  have "\<forall>b \<in> set as. ar_status b = ''failed''"
    using assms(2) unfolding mapE_eq_Inr
    by (induction rule: list_all2_induct) (auto simp: stop_agent_def agent_state_Inr)
  then have failed: "ar_status b = ''failed''" if "b \<in> set as" for b using that by blast
  have ids: "map ar_id as = map ar_id (running_agents rid d)" using assms(2) by (rule stop_agents_evolve)
  then have dist: "distinct (map ar_id as)"
    using assms(1) by (simp add: running_agents_def distinct_map_filter)
  have "\<not> (ar_execution_run_id (overwrite ar_id as x) = rid \<and> ar_status (overwrite ar_id as x) = ''running'')"
    if "x \<in> set (db_agent_runs d)" for x
  proof (cases "fetch ar_id (ar_id x) as")
    case (Some b)
    then show ?thesis using failed by (auto simp: overwrite_def dest: fetch_SomeD)
  next
    case None
    then have "ar_id x \<notin> ar_id ` set (running_agents rid d)"
      using ids by (metis fetch_None list.set_map)
    with that None show ?thesis by (auto simp: overwrite_def running_agents_def)
  qed
  then show ?thesis
    by (auto simp: running_agents_def assms(3) put_all_overwrite [OF dist] filter_empty_conv)
qed

lemma stop_locked_cases:
  assumes "stop_locked rid cancelled now d = Inr d'"
  obtains (finished) run s ts where "load rid d = Inr (run, s, ts)" and "finished_run (run_status run)"
      and "running_agents rid d = []" and "d' = d"
  | (stopped) run s ts reason where "load rid d = Inr (run, s, ts)"
      and "stop_unfinished cancelled reason now run (running_agents rid d) ts d = Inr d'"
  using assms by (auto simp: stop_locked_def Let_def split: if_splits)

lemma known_ended: "s \<in> set (known TASK_EDGES) \<Longrightarrow> stopped_task c s \<in> set TERMINAL \<union> {''cancelled''}"
  by (auto simp: stopped_task_def task_known)

text \<open>
  Stopping a run ends all of it at once: afterwards the run is finished, no task is pending,
  queued or running, and no agent of the run is running.
\<close>

theorem stop_ends_run:
  assumes "no_executions d0" and "exec_step\<^sup>*\<^sup>* d0 d" and "stop_locked rid cancelled now d = Inr d'"
  shows "\<exists>run s ts. load rid d' = Inr (run, s, ts) \<and> finished_run (run_status run) \<and>
    (\<forall>(k, t) \<in> set ts. te_status t \<in> {''completed'', ''failed'', ''blocked'', ''cancelled''}) \<and>
    running_agents rid d' = []"
proof -
  note inv = reachable_parts(1) [OF assms(1,2)]
  have "exec_inv d'" using inv assms(3) by (rule stop_locked_inv)
  moreover have "\<exists>run s ts. load rid d' = Inr (run, s, ts) \<and> finished_run (run_status run) \<and>
      running_agents rid d' = []"
    using assms(3)
  proof (cases rule: stop_locked_cases)
    case finished
    then show ?thesis by blast
  next
    case (stopped run s ts reason)
    then obtain as ts' run' where as: "mapE (stop_agent reason now) (running_agents rid d) = Inr as"
      and ts': "mapE (\<lambda>(k, t). bindE (stop_task cancelled reason t) (\<lambda>t'. Inr (k, t'))) ts = Inr ts'"
      and run': "(if finished_run (run_status run) then Inr run
        else bindE (execution_state run (if cancelled then ''cancelled'' else ''failed''))
               (\<lambda>r. Inr (r\<lparr>run_completed_at := Some now\<rparr>))) = Inr run'"
      and d': "d' = save now run' ts' (d\<lparr>db_agent_runs := put_all ar_id as (db_agent_runs d)\<rparr>)"
      unfolding stop_unfinished_def by (simp only: bindE_eq_Inr sum.inject) metis
    let ?d = "d\<lparr>db_agent_runs := put_all ar_id as (db_agent_runs d)\<rparr>"
    have "same_run run run'" and "finished_run (run_status run')"
      using run' by (auto simp: same_run_def execution_state_Inr finished_run_def split: if_splits)
    moreover have "load rid ?d = Inr (run, s, ts)" using stopped(1) by (simp add: load_agents)
    moreover have "distinct (map te_id (db_task_executions ?d))" using exec_inv_ids(2) [OF inv] by simp
    ultimately obtain u where "load rid d' = Inr (run'\<lparr>run_updated_at := u\<rparr>, s, ts')"
      using load_save(1) [OF _ _ _ stop_tasks_Inr(1) [OF ts']] unfolding d' by blast
    moreover have "running_agents rid d' = []"
      using exec_inv_ids(3) [OF inv] as by (rule stopped_agents_gone) (simp add: d' save_def)
    ultimately show ?thesis using \<open>finished_run (run_status run')\<close> by auto
  qed
  ultimately obtain run s ts where l: "load rid d' = Inr (run, s, ts)"
    and fin: "finished_run (run_status run)" and none: "running_agents rid d' = []"
    and loaded: "run_inv (run_status run) (snapshot_dag s) (state_of (statuses ts))" "distinct (map fst ts)"
    using exec_inv_load by metis
  have "te_status t \<in> {''completed'', ''failed'', ''blocked'', ''cancelled''}" if "(k, t) \<in> set ts" for k t
  proof -
    have "k \<in> fst ` set (snapshot_dag s)" using that load_fst_dag [OF l] by force
    from run_inv_agrees [OF loaded(1) this] have "agrees (run_status run) (te_status t)"
      using that loaded(2) by (simp add: state_of_statuses)
    with fin show ?thesis by (auto simp: agrees_def finished_run_def TERMINAL_def split: if_splits)
  qed
  with l fin none show ?thesis by auto
qed

lemma stop_ends_run_witness:
  "\<exists>d'. stop_locked 10 False 300 db_tested = Inr d' \<and> running_agents 10 d' = [] \<and>
     running_agents 10 db_tested \<noteq> []"
proof -
  have "\<not> isl (stop_locked 10 False 300 db_tested) \<and> running_agents 10 db_tested \<noteq> []" by code_simp
  then obtain d' where s: "stop_locked 10 False 300 db_tested = Inr d'" and "running_agents 10 db_tested \<noteq> []"
    by (cases "stop_locked 10 False 300 db_tested") auto
  with stop_ends_run [OF example_no_executions reach_tested s] show ?thesis by blast
qed

section \<open>Creating and recovering\<close>

text \<open>
  A run that is created can be loaded: the load returns the new run with the validated
  snapshot of its plan and one pending task, on its first attempt, for every task of the plan.
\<close>

theorem create_then_load:
  assumes "create pid identifier fresh now d = Inr (d', rid)" and "run_tasks rid d = []"
  shows "\<exists>snapshot ts. load rid d' = Inr (new_run rid pid snapshot now, snapshot, ts) \<and>
    map fst ts = map pt_task_key (plan_rows pid d) \<and>
    map (te_plan_task_id \<circ> snd) ts = map pt_id (plan_rows pid d) \<and>
    (\<forall>(k, t) \<in> set ts. te_status t = ''pending'' \<and> te_attempt t = 1 \<and> te_execution_run_id t = rid)"
proof -
  obtain snapshot ts where l: "load rid d' = Inr (new_run rid pid snapshot now, snapshot, ts)"
    and tasks: "snd ` set ts = set (created_tasks fresh rid (plan_rows pid d))"
    and ids: "snap_task_ids snapshot = row_ids (plan_rows pid d)"
    using assms by (rule create_loads)
  have "map (\<lambda>(k, t). (k, te_plan_task_id t)) ts = row_ids (plan_rows pid d)"
    using l ids by (simp add: load_iff loaded_from_def)
  then have "map fst ts = map pt_task_key (plan_rows pid d)"
    and "map (te_plan_task_id \<circ> snd) ts = map pt_id (plan_rows pid d)"
    by (auto simp: row_ids_def comp_def case_prod_unfold dest: arg_cong [where f = "map fst"] arg_cong [where f = "map snd"])
  moreover have "te_status t = ''pending'' \<and> te_attempt t = 1 \<and> te_execution_run_id t = rid" if "(k, t) \<in> set ts" for k t
  proof -
    from that have "t \<in> snd ` set ts" by force
    then show ?thesis using created_tasks_props(3) unfolding tasks by blast
  qed
  ultimately show ?thesis using l by blast
qed

lemma create_then_load_witness:
  "\<exists>d' snapshot ts. create 3 (Some 10) (\<lambda>i. 10 + i) 100 example_db = Inr (d', 10) \<and>
     load 10 d' = Inr (new_run 10 3 snapshot 100, snapshot, ts) \<and> map fst ts = [''a'', ''b'']"
proof -
  have "(case create 3 (Some 10) (\<lambda>i. 10 + i) 100 example_db of Inl _ \<Rightarrow> False | Inr (_, rid) \<Rightarrow> rid = 10) \<and>
      run_tasks 10 example_db = [] \<and> map pt_task_key (plan_rows 3 example_db) = [''a'', ''b'']"
    by code_simp
  then obtain d' where c: "create 3 (Some 10) (\<lambda>i. 10 + i) 100 example_db = Inr (d', 10)"
    and none: "run_tasks 10 example_db = []" and "map pt_task_key (plan_rows 3 example_db) = [''a'', ''b'']"
    by (auto split: sum.splits)
  with create_then_load [OF c none] show ?thesis by auto
qed

lemma save_run_snapshot:
  assumes "find_run rid d = Some run" and "run_id r \<noteq> rid"
  shows "find_run rid (save now r ts d) = Some run"
  using assms by (auto simp: save_def save_run_def find_run_def fetch_put)

lemma stop_locked_other:
  assumes "stop_locked i c now d = Inr d'" and "i \<noteq> rid" and "find_run rid d = Some run"
  shows "find_run rid d' = Some run"
  using assms(1)
proof (cases rule: stop_locked_cases)
  case finished
  with assms(3) show ?thesis by simp
next
  case (stopped r s ts reason)
  then obtain as ts' r' where r': "(if finished_run (run_status r) then Inr r
        else bindE (execution_state r (if c then ''cancelled'' else ''failed''))
               (\<lambda>r. Inr (r\<lparr>run_completed_at := Some now\<rparr>))) = Inr r'"
      and d': "d' = save now r' ts' (d\<lparr>db_agent_runs := put_all ar_id as (db_agent_runs d)\<rparr>)"
    unfolding stop_unfinished_def by (simp only: bindE_eq_Inr sum.inject) metis
  have "run_id r' = i"
    using r' load_run_id [OF stopped(1)] by (auto simp: execution_state_Inr split: if_splits)
  with assms(2,3) show ?thesis unfolding d' by (intro save_run_snapshot) (simp_all add: find_run_def)
qed

text \<open>
  One stale run without a snapshot blocks the recovery of all: \<open>recover_stale\<close> selects it, its
  load raises, and the whole transaction is rolled back, so no other stale run is recovered
  either. \<open>active_ids\<close> excludes such runs; \<open>recover_stale\<close> does not.
\<close>

theorem stale_run_blocks_recovery:
  assumes "find_run rid d = Some run" and "run_plan_snapshot run = None"
    and "rid \<in> set (stale_runs (now - seconds secs) locked d)"
  shows "\<exists>e. recover_stale secs locked now d = Inl e"
proof (cases "recover_stale secs locked now d")
  case (Inr st)
  let ?step = "recover_one (now - seconds secs) now"
  have bad: "\<exists>e. ?step rid (d', n) = Inl e" if "find_run rid d' = Some run" for d' n
    using that assms(2) by (simp add: recover_one_def load_def load_snapshot_def)
  have "foldE ?step xs (d', n) \<noteq> Inr st" if "rid \<in> set xs" and "find_run rid d' = Some run" for xs d' n
    using that
  proof (induction xs arbitrary: d' n)
    case (Cons i xs)
    show ?case
    proof (cases "i = rid")
      case True
      with bad [OF Cons.prems(2)] show ?thesis by (metis bindE_Inl foldE.simps(2) sum.distinct(1))
    next
      case False
      have "find_run rid d2 = Some run" if "?step i (d', n) = Inr (d2, m)" for d2 m
        using that False Cons.prems(2) by (auto simp: recover_one_def intro: stop_locked_other split: if_splits)
      with Cons False show ?thesis by auto
    qed
  qed simp
  with assms(1,3) Inr show ?thesis by (auto simp: recover_stale_def Let_def)
qed simp

definition poisoned_db :: db where
  "poisoned_db = db_tested\<lparr>db_runs := db_runs db_tested @
     [\<lparr>run_id = 9, run_plan_id = 3, run_status = ''pending'', run_branch_name = None,
       run_plan_snapshot = None, run_started_at = None, run_completed_at = None, run_updated_at = 0\<rparr>]\<rparr>"

lemma stale_run_blocks_recovery_witness:
  "(\<exists>e. recover_stale 60 [] 100000000 poisoned_db = Inl e) \<and>
   10 \<in> set (stale_runs (100000000 - seconds 60) [] poisoned_db)"
proof -
  have facts: "(case find_run 9 poisoned_db of None \<Rightarrow> False | Some run \<Rightarrow> run_plan_snapshot run = None) \<and>
      {9, 10} \<subseteq> set (stale_runs (100000000 - seconds 60) [] poisoned_db)"
    by code_simp
  then obtain run where "find_run 9 poisoned_db = Some run" and "run_plan_snapshot run = None"
    by (auto split: option.splits)
  from stale_run_blocks_recovery [OF this] facts show ?thesis by simp
qed

end
