(* ===== verification/Agent_Properties.thy ===== *)
theory Agent_Properties
  imports Example_Run
begin

text \<open>
  What the records of the agents guarantee: the repair budget and its owner, the evidence a
  review accepts, and the journal that stands between an approved review and GitHub.
\<close>

section \<open>Repair\<close>

text \<open>
  C32. The debug attempts of a recovery never exceed the limit it was opened with, in every
  reachable database: the budget survives crashes, restarts and concurrent claims, because each
  claim counts the attempts stored.
\<close>

theorem debug_attempts_bounded:
  assumes "no_executions d0" and "exec_step\<^sup>*\<^sup>* d0 d" and "find_agent recovery d = Some parent"
    and "ar_input_metadata parent ''limit'' = Some (JInt limit)"
  shows "int (length (attempts recovery d)) \<le> max 0 limit"
  using reachable_parts(5) [OF assms(1,2), of recovery] assms(3,4)
  by (auto simp: within_budget_def limit_value_def)

lemma debug_attempts_bounded_witness:
  "\<exists>parent. find_agent 20 db_debugging = Some parent \<and> ar_input_metadata parent ''limit'' = Some (JInt 2) \<and>
     length (attempts 20 db_debugging) \<le> 2 \<and> attempts 20 db_debugging \<noteq> []"
proof -
  have "(case find_agent 20 db_debugging of None \<Rightarrow> False
      | Some parent \<Rightarrow> ar_input_metadata parent ''limit'' = Some (JInt 2)) \<and> attempts 20 db_debugging \<noteq> []"
    by code_simp
  then obtain parent where f: "find_agent 20 db_debugging = Some parent"
    and l: "ar_input_metadata parent ''limit'' = Some (JInt 2)" and "attempts 20 db_debugging \<noteq> []"
    by (auto split: option.splits)
  with debug_attempts_bounded [OF example_no_executions reach_debugging f l] show ?thesis by auto
qed

text \<open>
  At every moment a task has at most one running recovery, a run at most one running review
  and at most one publication journal, and a pull request belongs to one run.
\<close>

theorem single_owners:
  assumes "no_executions d0" and "exec_step\<^sup>*\<^sup>* d0 d"
  shows "length (filter (owns_recovery tid) (db_agent_runs d)) \<le> 1 \<and>
    length (filter (running_review rid) (db_agent_runs d)) \<le> 1 \<and>
    length (filter (journal_agent rid) (db_agent_runs d)) \<le> 1 \<and>
    distinct (map prr_execution_run_id (db_pull_requests d))"
  using reachable_parts(2-4,6) [OF assms] by (simp add: single_def one_pull_request_def)

lemma single_owners_witness:
  "length (filter (owns_recovery 11) (db_agent_runs db_debugging)) = 1"
proof -
  have "filter (owns_recovery 11) (db_agent_runs db_debugging) \<noteq> []" by code_simp
  moreover have "length (filter (owns_recovery 11) (db_agent_runs db_debugging)) \<le> 1"
    using single_owners [OF example_no_executions reach_debugging, of 11 0] by blast
  ultimately show ?thesis by (simp add: le_Suc_eq)
qed

text \<open>
  A recovery never applies the same patch twice: once \<open>reserve_patch\<close> has recorded a
  fingerprint for an attempt, reserving it again, by any later attempt of the recovery, answers
  that it is not new; the patch of a coding agent of the task is not new either.
\<close>

theorem reserve_patch_once:
  assumes "reserve_patch sha recovery aid fingerprint d = Inr (d1, first)"
    and "reserve_patch sha recovery aid' fingerprint d1 = Inr (d2, again)"
    and "distinct (map ar_id (db_agent_runs d))"
  shows "\<not> again \<and>
    (first \<longrightarrow> (\<forall>parent. find_agent recovery d = Some parent \<longrightarrow>
        fingerprint \<notin> set (coding_fingerprints sha (ar_task_execution_id parent) d)))"
proof -
  obtain parent loaded target agent where l: "recovery_locked recovery d = Inr (parent, loaded, target)"
    and f: "List.find (\<lambda>a. ar_id a = aid) (attempts recovery d) = Some agent"
    and d1: "d1 = save_agent (agent\<lparr>ar_output_metadata :=
               (ar_output_metadata agent)(''patch_hash'' \<mapsto> JStr fingerprint)\<rparr>) d"
    and first: "first = (\<not> ((\<exists>a \<in> set (attempts recovery d).
          ar_output_metadata a ''patch_hash'' = Some (JStr fingerprint)) \<or>
        fingerprint \<in> set (coding_fingerprints sha (ar_task_execution_id parent) d)))"
  proof -
    from assms(1) show thesis
      unfolding reserve_patch_def Let_def
      by (elim block_elims, unfold sum.inject prod.inject, elim conjE)
        (rule that, (assumption | rule sym, assumption | simp only:)+)
  qed
  let ?agent = "agent\<lparr>ar_output_metadata := (ar_output_metadata agent)(''patch_hash'' \<mapsto> JStr fingerprint)\<rparr>"
  from f have a: "agent \<in> set (db_agent_runs d)" "attempt_of recovery agent"
    by (auto simp: find_Some_iff set_attempts dest: nth_mem)
  then have "?agent \<in> set (db_agent_runs d1)" by (auto simp: d1 save_agent_def set_put)
  with a(2) have "?agent \<in> set (attempts recovery d1)" by (simp add: set_attempts attempt_of_def)
  then have "\<exists>a \<in> set (attempts recovery d1). ar_output_metadata a ''patch_hash'' = Some (JStr fingerprint)"
    by (rule bexI [rotated]) simp
  with assms(2) have "\<not> again" by (auto simp: reserve_patch_def Let_def)
  moreover have "find_agent recovery d = Some parent"
    using l recovery_locked_Inr(1) by (metis prod.exhaust)
  ultimately show ?thesis using first by simp
qed

lemma reserve_patch_once_witness:
  "\<exists>d1. reserve_patch id 20 23 ''p2'' db_debugging = Inr (d1, True) \<and>
     (\<exists>d2. reserve_patch id 20 23 ''p2'' d1 = Inr (d2, False))"
proof -
  have "(case reserve_patch id 20 23 ''p2'' db_debugging of Inl _ \<Rightarrow> False | Inr (d1, first) \<Rightarrow>
      first \<and> \<not> isl (reserve_patch id 20 23 ''p2'' d1)) \<and> distinct (map ar_id (db_agent_runs db_debugging))"
    by code_simp
  then obtain d1 d2 again where r: "reserve_patch id 20 23 ''p2'' db_debugging = Inr (d1, True)"
    and r2: "reserve_patch id 20 23 ''p2'' d1 = Inr (d2, again)"
    and "distinct (map ar_id (db_agent_runs db_debugging))"
    by (auto simp: isl_def split: sum.splits) (metis old.sum.exhaust surj_pair)
  from reserve_patch_once [OF this] r r2 show ?thesis by auto
qed

section \<open>Test commands\<close>

text \<open>
  Untrusted suggestions never choose a command: every selected test is one of the fixed
  profiles, selected because trusted configuration requires it and policy allows it, each once;
  and two inputs with the same configuration select the same tests.
\<close>

theorem select_tests_fixed:
  assumes "select_tests allowed inputs = Inr tests"
  shows "set (required_commands (ti_configuration inputs)) \<subseteq> set allowed \<and>
    map at_command tests = map argv_of (from_keys (required_commands (ti_configuration inputs))) \<and>
    (\<forall>t \<in> set tests. (at_image t, at_command t) \<in> snd ` set COMMANDS) \<and>
    (\<forall>other. ti_configuration other = ti_configuration inputs \<longrightarrow> select_tests allowed other = Inr tests)"
  using select_tests_Inr [OF assms] assms by (simp add: select_tests_def)

definition example_tests :: test_input where
  "example_tests = \<lparr>ti_repository = cs_repository example_context,
     ti_task = proposal_of_row (example_task ''a'' [] 4 0), ti_coding_diff = [],
     ti_suggested_tests = [''rm -rf /''],
     ti_configuration = \<lparr>required_commands = [''npm test'', ''pytest'', ''npm test'']\<rparr>\<rparr>"

lemma select_tests_fixed_witness:
  "\<exists>tests. select_tests [''pytest'', ''npm test''] example_tests = Inr tests \<and>
     map at_command tests = [[''npm'', ''test''], [''pytest'']]"
proof -
  have "\<not> isl (select_tests [''pytest'', ''npm test''] example_tests)" by code_simp
  then obtain tests where t: "select_tests [''pytest'', ''npm test''] example_tests = Inr tests"
    by (cases "select_tests [''pytest'', ''npm test''] example_tests") auto
  have "map argv_of (from_keys (required_commands (ti_configuration example_tests))) =
      [[''npm'', ''test''], [''pytest'']]"
    by code_simp
  with t select_tests_fixed [OF t] show ?thesis by auto
qed

section \<open>Reviews\<close>

text \<open>
  C30. A review without mechanical errors rests on evidence: the run completed, and every task has
  a completed test run, of exactly the required commands, all passing, started after the last
  patch of the task had completed and naming that patch; no implementation agent is running and
  the tested workspace has a fingerprint.
\<close>

theorem review_evidence_sound:
  assumes "review_load digest rid ctx required d = Inr rs" and "rs_errors rs = []"
  shows "\<exists>run s ts. load rid d = Inr (run, s, ts) \<and> run_status run = ''completed'' \<and>
    (\<forall>(k, t) \<in> set ts. task_proved (expected_commands required) (implementation_agents rid d) t) \<and>
    (\<forall>a \<in> set (implementation_agents rid d). ar_status a \<noteq> ''running'') \<and>
    rs_tested_diff_hash rs \<noteq> None"
proof -
  obtain run s ts where "load rid d = Inr (run, s, ts)" and "run_status run = ''completed''"
    and "\<forall>task \<in> snd ` set ts.
      task_proved (expected_commands required) (implementation_agents rid d) task"
    and "\<forall>a \<in> set (implementation_agents rid d). ar_status a \<noteq> ''running''"
    and "rs_tested_diff_hash rs \<noteq> None"
    using assms by (rule review_load_ok)
  then show ?thesis by fastforce
qed

lemma completed_facts:
  "(case review_load example_digest 10 example_context example_config db_completed of
      Inl _ \<Rightarrow> False | Inr rs \<Rightarrow> rs_errors rs = [])"
  by code_simp

lemma review_evidence_sound_witness:
  "\<exists>run s ts. load 10 db_completed = Inr (run, s, ts) \<and> run_status run = ''completed''"
proof -
  from completed_facts obtain rs
    where r: "review_load example_digest 10 example_context example_config db_completed = Inr rs"
      and "rs_errors rs = []"
    by (auto split: sum.splits)
  from review_evidence_sound [OF this] show ?thesis by blast
qed

text \<open>
  C7. What the end of a review writes is the decision the publication reads back: the row of the review
  holds, as its stored decision, the decision that is returned, and no other row of an agent changes. It
  says \<open>approved\<close> exactly if the reviewer approved, no mechanical check had failed, nothing went wrong, and
  the evidence collected at the end has the hash of the evidence the review was given; a change of the
  evidence is added to the mechanical errors. The review itself and the hash of the diff are those of the
  reviewer's decision, and the row is completed exactly if there was no error.
\<close>

theorem review_approval_sound:
  assumes "review_finish digest rid aid ctx required snapshot decision usage error now d = Inr (d', final)"
  shows "(\<exists>row. find_agent aid d' = Some row \<and> stored_decision row = Some final \<and> ar_execution_run_id row = rid \<and>
      ar_status row = (if or_empty error \<noteq> [] then ''failed'' else ''completed'')) \<and>
    (\<forall>i. i \<noteq> aid \<longrightarrow> find_agent i d' = find_agent i d) \<and>
    (\<exists>rs. review_load digest rid ctx required d = Inr rs \<and>
      (rd_approved final \<longleftrightarrow> rd_approved decision \<and> rd_mechanical_errors decision = [] \<and> error = None \<and>
        rs_evidence_hash rs = rs_evidence_hash snapshot) \<and>
      set (rd_mechanical_errors final) = set (rd_mechanical_errors decision) \<union>
        (if rs_evidence_hash rs = rs_evidence_hash snapshot then {} else {''execution_changed_during_review''})) \<and>
    rd_review final = rd_review decision \<and> rd_diff_hash final = rd_diff_hash decision"
proof -
  from assms obtain current agent a1 where c: "review_load digest rid ctx required d = Inr current"
    and agent: "find_agent aid d = Some agent" and rid: "ar_execution_run_id agent = rid"
    and a1: "agent_state agent (if or_empty error \<noteq> [] then ''failed'' else ''completed'') = Inr a1"
    and f: "final = final_decision decision (rs_evidence_hash current \<noteq> rs_evidence_hash snapshot) error"
    and d': "d' = save_agent (set_usage usage (a1\<lparr>ar_completed_at := Some now,
            ar_output_metadata := [''decision'' \<mapsto> JDecision final, ''error_code'' \<mapsto> jopt error]\<rparr>)) d"
    by (rule review_finish_Inr) (rule that; assumption)
  define row where "row = set_usage usage (a1\<lparr>ar_completed_at := Some now,
            ar_output_metadata := [''decision'' \<mapsto> JDecision final, ''error_code'' \<mapsto> jopt error]\<rparr>)"
  have row: "ar_id row = aid" "ar_execution_run_id row = rid" "stored_decision row = Some final"
      "ar_status row = (if or_empty error \<noteq> [] then ''failed'' else ''completed'')"
    using a1 rid agent by (auto simp: row_def agent_state_Inr set_usage_def stored_decision_def find_agent_def
        dest!: fetch_key split: option.split)
  have found: "find_agent aid d' = Some row" and others: "\<forall>i. i \<noteq> aid \<longrightarrow> find_agent i d' = find_agent i d"
    using agent row(1) by (auto simp: d' row_def [symmetric] save_agent_def find_agent_def fetch_put)
  have decided: "(rd_approved final \<longleftrightarrow> rd_approved decision \<and> rd_mechanical_errors decision = [] \<and> error = None \<and>
        rs_evidence_hash current = rs_evidence_hash snapshot) \<and>
      set (rd_mechanical_errors final) = set (rd_mechanical_errors decision) \<union>
        (if rs_evidence_hash current = rs_evidence_hash snapshot then {} else {''execution_changed_during_review''})"
    and same: "rd_review final = rd_review decision" "rd_diff_hash final = rd_diff_hash decision"
    by (simp_all add: f final_decision_def Let_def set_from_keys)
  from decided c have "\<exists>rs. review_load digest rid ctx required d = Inr rs \<and>
      (rd_approved final \<longleftrightarrow> rd_approved decision \<and> rd_mechanical_errors decision = [] \<and> error = None \<and>
        rs_evidence_hash rs = rs_evidence_hash snapshot) \<and>
      set (rd_mechanical_errors final) = set (rd_mechanical_errors decision) \<union>
        (if rs_evidence_hash rs = rs_evidence_hash snapshot then {} else {''execution_changed_during_review''})"
    by (rule_tac exI [of _ current]) (rule conjI)
  moreover have "\<exists>row. find_agent aid d' = Some row \<and> stored_decision row = Some final \<and> ar_execution_run_id row = rid \<and>
      ar_status row = (if or_empty error \<noteq> [] then ''failed'' else ''completed'')"
    using found row by (intro exI [of _ row] conjI)
  ultimately show ?thesis using others same by (intro conjI)
qed

lemma reviewed_facts:
  "(case review_finish example_digest 10 40 example_context example_config
       example_snapshot example_decision None None 119 db_reviewing of
      Inl _ \<Rightarrow> False
    | Inr (d', final) \<Rightarrow> rd_approved final \<and>
        \<not> isl (publication_check example_digest 10 example_context example_config d') \<and>
        50 \<notin> ar_id ` set (db_agent_runs d') \<and>
        (case find_run 10 d' of None \<Rightarrow> False | Some _ \<Rightarrow> True) \<and>
        list_all (\<lambda>a. ar_agent_type a \<noteq> ''pull_request'') (db_agent_runs d') \<and>
        length (db_pull_requests d') = 0)"
  by code_simp

lemma reviewed_final:
  obtains final e where "review_finish example_digest 10 40 example_context example_config
       example_snapshot example_decision None None 119 db_reviewing = Inr (db_reviewed, final)"
    and "rd_approved final"
    and "publication_check example_digest 10 example_context example_config db_reviewed = Inr e"
    and "50 \<notin> ar_id ` set (db_agent_runs db_reviewed)"
    and "\<exists>run. find_run 10 db_reviewed = Some run" and "journal_of 10 db_reviewed = None"
    and "db_pull_requests db_reviewed = []"
proof -
  let ?r = "review_finish example_digest 10 40 example_context example_config
       example_snapshot example_decision None None 119 db_reviewing"
  obtain d' final where r: "?r = Inr (d', final)"
    using reviewed_facts by (cases ?r) auto
  then have "db_reviewed = d'" by (simp add: db_reviewed_def committed_def)
  with reviewed_facts r that show thesis
    by (auto simp: isl_def journal_of_def find_None_iff list_all_iff split: option.splits)
      (metis old.sum.exhaust)
qed

lemma review_approval_sound_witness:
  "\<exists>final row. review_finish example_digest 10 40 example_context example_config
       example_snapshot example_decision None None 119 db_reviewing = Inr (db_reviewed, final) \<and>
     rd_approved final \<and> find_agent 40 db_reviewed = Some row \<and> stored_decision row = Some final"
proof -
  obtain final e where r: "review_finish example_digest 10 40 example_context example_config
       example_snapshot example_decision None None 119 db_reviewing = Inr (db_reviewed, final)"
    and f: "rd_approved final"
    by (rule reviewed_final)
  from review_approval_sound [OF r] r f show ?thesis by blast
qed

section \<open>Publication\<close>

text \<open>
  C6. Nothing is published without evidence: when the last check passes, the run completed with
  every task proved by its tests, the latest review is completed and approved by the reviewer
  without blocking findings or mechanical errors, it was made on the present evidence, and the
  diff it approved is the diff the tests ran on.
\<close>

theorem publication_check_sound:
  assumes "publication_check digest rid ctx required d = Inr e"
  shows "(\<exists>run s ts. load rid d = Inr (run, s, ts) \<and> run_status run = ''completed'' \<and>
      (\<forall>(k, t) \<in> set ts. task_proved (expected_commands required) (implementation_agents rid d) t)) \<and>
    (\<exists>review result. latest_review rid d = Some review \<and> ar_status review = ''completed'' \<and>
      ar_input_metadata review ''evidence_hash'' = Some (JStr (rs_evidence_hash (pe_snapshot e))) \<and>
      stored_decision review = Some (pe_decision e) \<and> rd_approved (pe_decision e) \<and>
      rd_mechanical_errors (pe_decision e) = [] \<and> rd_review (pe_decision e) = Some result \<and>
      rr_approved result \<and> (\<forall>f \<in> set (rr_findings result). rf_severity f \<noteq> ''blocking'')) \<and>
    rd_diff_hash (pe_decision e) = rs_tested_diff_hash (pe_snapshot e) \<and>
    rs_tested_diff_hash (pe_snapshot e) \<noteq> None"
proof -
  from assms obtain review where l: "review_load digest rid ctx required d = Inr (pe_snapshot e)"
    and ok: "rs_errors (pe_snapshot e) = []" and rv: "latest_review rid d = Some review"
    and "ar_status review = ''completed''" and "stored_decision review = Some (pe_decision e)"
    and accepted: "\<not> review_refused review (pe_decision e) (pe_snapshot e)"
    by (rule publication_check_Inr) (rule that; assumption)
  moreover obtain run s ts where "load rid d = Inr (run, s, ts)" and "run_status run = ''completed''"
    and "\<forall>task \<in> snd ` set ts.
      task_proved (expected_commands required) (implementation_agents rid d) task"
    and "rs_tested_diff_hash (pe_snapshot e) \<noteq> None"
    using l ok by (rule review_load_ok)
  moreover from accepted obtain result where "rd_review (pe_decision e) = Some result"
    by (auto simp: review_refused_def split: option.splits)
  ultimately show ?thesis by (fastforce simp: review_refused_def)
qed

lemma publication_check_sound_witness:
  "\<exists>e. publication_check example_digest 10 example_context example_config db_reviewed = Inr e \<and>
     rd_approved (pe_decision e)"
proof -
  obtain final e where c: "publication_check example_digest 10 example_context example_config db_reviewed = Inr e"
    by (rule reviewed_final)
  with publication_check_sound [OF c] show ?thesis by blast
qed

lemma journal_entry_recorded:
  assumes "journal_entry p fresh now d = Inr (d', aid)"
  shows "\<exists>a. journal_of (pub_execution_id p) d' = Some a \<and> ar_id a = aid \<and>
           ar_input_metadata a = publication_dump p"
  using assms
  by (cases "journal_of (pub_execution_id p) d")
    (auto simp: journal_entry_def journal_of_def insert_agent_Inr find_append new_agent_def
      split: if_splits option.splits)

text \<open>
  A run is published in one way only: after a publication is journalled, journalling the same
  one again returns the same entry and adds none, and a different publication of the run is
  refused.
\<close>

theorem journal_once:
  assumes "publication_journal p fresh now d = Inr (d', aid)"
    and "pub_execution_id q = pub_execution_id p"
  shows "if q = p
    then (\<exists>d''. publication_journal q fresh' later d' = Inr (d'', aid) \<and> db_agent_runs d'' = db_agent_runs d')
    else publication_journal q fresh' later d' = Inl (PublicationError ''publication_snapshot_changed'')"
proof -
  from assms(1) obtain run d1 where r: "find_run (pub_execution_id p) d = Some run"
    and j: "journal_entry p fresh now d = Inr (d1, aid)"
    and d': "d' = save_run now (run\<lparr>run_branch_name := Some (pub_branch p)\<rparr>) d1"
    by (auto simp: publication_journal_def)
  from journal_entry_recorded [OF j] obtain a where a: "journal_of (pub_execution_id p) d' = Some a"
    and id: "ar_id a = aid" and dump: "ar_input_metadata a = publication_dump p"
    by (auto simp: d' journal_of_def)
  have "db_runs d1 = db_runs d"
    using j by (auto simp: journal_entry_def insert_agent_Inr split: option.splits if_splits)
  then have r1: "find_run (pub_execution_id p) d1 = Some run" using r by (simp add: find_run_def)
  moreover have "run_id run = pub_execution_id p" using r by (auto simp: find_run_def dest: fetch_key)
  ultimately obtain run2 where "find_run (pub_execution_id p) d' = Some run2"
    using find_run_save_run [of "run\<lparr>run_branch_name := Some (pub_branch p)\<rparr>" d1 "pub_execution_id p" now]
    by (auto simp: d' split: if_splits)
  with a id dump assms(2) show ?thesis
    by (auto simp: publication_journal_def journal_entry_def dest: publication_dump_inj)
qed

lemma journal_once_witness:
  "\<exists>d'. publication_journal example_publication 50 120 db_reviewed = Inr (d', 50) \<and>
     (\<exists>d''. publication_journal example_publication 51 121 d' = Inr (d'', 50)) \<and>
     publication_journal (example_publication\<lparr>pub_commit := ''other''\<rparr>) 51 121 d' =
       Inl (PublicationError ''publication_snapshot_changed'')"
proof -
  obtain run where "50 \<notin> ar_id ` set (db_agent_runs db_reviewed)" "find_run 10 db_reviewed = Some run"
    "journal_of 10 db_reviewed = None"
    by (rule reviewed_final) blast
  then obtain d' where j: "publication_journal example_publication 50 120 db_reviewed = Inr (d', 50)"
    by (auto simp: publication_journal_def journal_entry_def insert_agent_def new_agent_def
        example_publication_def)
  let ?other = "example_publication\<lparr>pub_commit := ''other''\<rparr>"
  have "pub_commit ?other \<noteq> pub_commit example_publication"
    by (simp add: example_publication_def)
  then have "?other \<noteq> example_publication" by metis
  with journal_once [OF j, of example_publication 51 121] journal_once [OF j, of ?other 51 121] j
  show ?thesis by auto
qed

lemma step_pull_requests:
  assumes "exec_step d d'" and "exec_inv d"
  shows "db_pull_requests d' = db_pull_requests d \<or>
    (\<exists>rid remote fresh d1. record_pull_request rid remote fresh d = Inr d1 \<and>
       db_pull_requests d' = db_pull_requests d1)"
  using assms(1)
proof cases
  case step_stop
  then show ?thesis using stop_locked_agents(2) [OF assms(2)] by simp
next
  case step_recover
  then show ?thesis using recover_stale_agents(2) [OF assms(2)] by simp
next
  case (step_published p journal_id remote fresh now)
  then obtain d1 where "record_pull_request (pub_execution_id p) remote fresh d = Inr d1"
    and "db_pull_requests d' = db_pull_requests d1"
    by (auto simp: publication_finish_def)
  then show ?thesis by blast
next
  case step_recovery_open
  then show ?thesis using recovery_open_inv(3) [OF assms(2)] by (fastforce simp: insert_agent_Inr)
next
  case step_claim_debug
  then show ?thesis by (elim claim_debug_Inr) (auto simp: insert_agent_Inr)
next
  case step_review_start
  then show ?thesis using review_start_inv(5) [OF assms(2)] by (fastforce simp: insert_agent_Inr)
next
  case step_journal
  then show ?thesis
    by (auto simp: publication_journal_def journal_entry_def insert_agent_Inr split: option.splits if_splits)
qed (simp_all add: advance_ops_agents pull_requests_frame)

lemma find_map_same:
  "(\<And>x. x \<in> set xs \<Longrightarrow> P (f x) = P x \<and> (P x \<longrightarrow> f x = x)) \<Longrightarrow> List.find P (map f xs) = List.find P xs"
  by (induction xs) auto

lemma record_pull_request_keeps:
  assumes one: "one_pull_request d" and rec: "record_pull_request i remote fresh d = Inr d'"
    and r: "pull_request_of rid d = Some r"
  shows "\<exists>r'. pull_request_of rid d' = Some r' \<and> prr_github_pr_number r' = prr_github_pr_number r \<and>
    prr_github_url r' = prr_github_url r"
proof (cases "i = rid")
  case True
  with record_pull_request_inv(2,3) [OF one rec] r show ?thesis by metis
next
  case other: False
  show ?thesis
  proof (cases "pull_request_of i d")
    case None
    with rec r show ?thesis
      by (auto simp: record_pull_request_def insert_pull_request_def pull_request_of_def find_append
          split: if_splits)
  next
    case (Some q)
    let ?q = "q\<lparr>prr_status := ppr_state remote\<rparr>"
    from Some have q: "q \<in> set (db_pull_requests d)" "prr_execution_run_id q = i"
      by (auto simp: pull_request_of_def find_Some_iff)
    from Some rec have d': "d' = save_pull_request ?q d"
      by (auto simp: record_pull_request_def split: if_splits)
    have only: "x = q" if "x \<in> set (db_pull_requests d)" "prr_id x = prr_id q" for x
      using one q that unfolding one_pull_request_def by (metis distinct_map inj_onD)
    have "pull_request_of rid d' = pull_request_of rid d"
      unfolding pull_request_of_def d' save_pull_request_def put_def
      by (simp, rule find_map_same) (use only q other in auto)
    with r show ?thesis by simp
  qed
qed

text \<open>
  The pull request of a run never changes: once one is recorded for a run, every database
  reached later records one with the same number and address, whatever GitHub answers.
\<close>

theorem pull_request_stable:
  assumes "no_executions d0" and "exec_step\<^sup>*\<^sup>* d0 d" and "exec_step\<^sup>*\<^sup>* d d'"
    and "pull_request_of rid d = Some r"
  shows "\<exists>r'. pull_request_of rid d' = Some r' \<and> prr_github_pr_number r' = prr_github_pr_number r \<and>
    prr_github_url r' = prr_github_url r"
  using assms(3)
proof (induction rule: rtranclp_induct)
  case base
  with assms(4) show ?case by blast
next
  case (step a b)
  from step.IH obtain r' where r': "pull_request_of rid a = Some r'"
    and same: "prr_github_pr_number r' = prr_github_pr_number r" "prr_github_url r' = prr_github_url r"
    by blast
  have reach: "exec_step\<^sup>*\<^sup>* d0 a" using assms(2) step.hyps(1) by simp
  have inv: "exec_inv a" "one_pull_request a"
    using reachable_parts(1,6) [OF assms(1) reach] by blast+
  from step_pull_requests [OF step.hyps(2) inv(1)] show ?case
  proof (elim disjE exE conjE)
    assume "db_pull_requests b = db_pull_requests a"
    with r' same show ?thesis by (simp add: pull_request_of_def)
  next
    fix i remote fresh d1
    assume rec: "record_pull_request i remote fresh a = Inr d1" and "db_pull_requests b = db_pull_requests d1"
    with record_pull_request_keeps [OF inv(2) rec r'] same show ?thesis
      by (simp add: pull_request_of_def)
  qed
qed

lemma published_row:
  "\<exists>r. pull_request_of 10 db_published = Some r \<and> prr_github_pr_number r = 5"
proof -
  obtain run where new: "50 \<notin> ar_id ` set (db_agent_runs db_reviewed)" and run: "find_run 10 db_reviewed = Some run"
    and none: "journal_of 10 db_reviewed = None" and pr: "db_pull_requests db_reviewed = []"
    by (rule reviewed_final) blast
  let ?a = "new_agent 50 10 None ''pull_request'' None 120 (publication_dump example_publication)"
  have "pub_execution_id example_publication = 10" by (simp add: example_publication_def)
  then have j: "db_agent_runs db_journalled = db_agent_runs db_reviewed @ [?a]"
    "db_pull_requests db_journalled = []"
    using new run none pr
    by (simp_all add: db_journalled_def committed_def publication_journal_def journal_entry_def insert_agent_def
        new_agent_def)
  have "fetch ar_id 50 (db_agent_runs db_journalled) = Some ?a"
    using new by (simp add: j(1) new_agent_def)
  then have "find_agent 50 (db_journalled\<lparr>db_pull_requests := x\<rparr>) = Some ?a" for x
    by (simp add: find_agent_def)
  moreover have "agent_state ?a ''completed'' = Inr (?a\<lparr>ar_status := ''completed''\<rparr>)"
    by (simp add: agent_state_Inr agent_known agent_successors new_agent_def)
  ultimately show ?thesis
    using \<open>pub_execution_id example_publication = 10\<close>
    by (simp add: db_published_def committed_def publication_finish_def record_pull_request_def
        pull_request_of_def insert_pull_request_def j(2) example_remote_def)
qed

lemma pull_request_stable_witness:
  "\<exists>r. pull_request_of 10 (committed id (publication_failed 50 ''x'') db_published) = Some r \<and>
     prr_github_pr_number r = 5"
proof -
  obtain r where r: "pull_request_of 10 db_published = Some r" and n: "prr_github_pr_number r = 5"
    using published_row by blast
  have "exec_step\<^sup>*\<^sup>* db_published (committed id (publication_failed 50 ''x'') db_published)"
    by (rule committed_step) (auto intro: step_publication_failed)
  from pull_request_stable [OF example_no_executions reach_published this r] n show ?thesis by auto
qed

end
