(* ===== verification/Workflow_Records.thy ===== *)
theory Workflow_Records
  imports Execution_Trace
begin

text \<open>
  \<^verbatim>\<open>app/orchestration/workflow_records.py\<close>: the durable checkpoint of an end-to-end
  workflow. A claim hands one stage of one workflow to one worker, under a token that fences off
  every earlier claim; a failed stage is retried only while attempts are left.
\<close>

section \<open>Stages\<close>

datatype stage =
    Repository | Sync | Index | Embed | Issue | Context | Plan | Execution | Workspace
  | Implement | Review | Publish | Done

definition STAGES :: "stage list" where
  "STAGES = [Repository, Sync, Index, Embed, Issue, Context, Plan, Execution, Workspace,
     Implement, Review, Publish, Done]"

fun stage_name :: "stage \<Rightarrow> string" where
  "stage_name Repository = ''repository''"
| "stage_name Sync = ''sync''"
| "stage_name Index = ''index''"
| "stage_name Embed = ''embed''"
| "stage_name Issue = ''issue''"
| "stage_name Context = ''context''"
| "stage_name Plan = ''plan''"
| "stage_name Execution = ''execution''"
| "stage_name Workspace = ''workspace''"
| "stage_name Implement = ''implement''"
| "stage_name Review = ''review''"
| "stage_name Publish = ''publish''"
| "stage_name Done = ''done''"

text \<open>\<open>STAGES.index(stage)\<close>, and the order of the stages it induces.\<close>

fun position :: "stage list \<Rightarrow> stage \<Rightarrow> nat" where
  "position [] s = 0"
| "position (t # ts) s = (if t = s then 0 else Suc (position ts s))"

definition stage_index :: "stage \<Rightarrow> nat" where
  "stage_index = position STAGES"

lemma stage_index_inj: "stage_index s = stage_index t \<Longrightarrow> s = t"
  by (cases s; cases t; simp add: stage_index_def STAGES_def)

instantiation stage :: linorder
begin

definition less_eq_stage :: "stage \<Rightarrow> stage \<Rightarrow> bool" where
  "less_eq_stage s t \<longleftrightarrow> stage_index s \<le> stage_index t"

definition less_stage :: "stage \<Rightarrow> stage \<Rightarrow> bool" where
  "less_stage s t \<longleftrightarrow> stage_index s < stage_index t"

instance
  by standard (auto simp: less_eq_stage_def less_stage_def intro: stage_index_inj)

end

definition next_stage :: "stage \<Rightarrow> service_error + stage" where
  "next_stage s = (if Suc (stage_index s) < length STAGES then Inr (STAGES ! Suc (stage_index s))
     else Inl (ValueError ''tuple index out of range''))"

lemma next_stage_simps [simp]:
  "next_stage Repository = Inr Sync" "next_stage Sync = Inr Index" "next_stage Index = Inr Embed"
  "next_stage Embed = Inr Issue" "next_stage Issue = Inr Context" "next_stage Context = Inr Plan"
  "next_stage Plan = Inr Execution" "next_stage Execution = Inr Workspace"
  "next_stage Workspace = Inr Implement" "next_stage Implement = Inr Review"
  "next_stage Review = Inr Publish" "next_stage Publish = Inr Done"
  "next_stage Done = Inl (ValueError ''tuple index out of range'')"
  by (simp_all add: next_stage_def stage_index_def STAGES_def)

lemma next_stage_less: "next_stage s = Inr t \<Longrightarrow> s < t"
  by (cases s) (auto simp: less_stage_def stage_index_def STAGES_def)

lemma stage_le_Done: "s \<le> Done"
  by (cases s) (simp_all add: less_eq_stage_def stage_index_def STAGES_def)

section \<open>The state\<close>

record workflow_request =
  wr_request_id :: uuid
  wr_github_owner :: string
  wr_github_name :: string
  wr_issue_number :: int
  wr_publish_pull_request :: bool

record workflow_run =
  wf_id :: uuid
  wf_request :: workflow_request
  wf_data :: metadata
  wf_history :: "metadata list"
  wf_stage :: stage
  wf_status :: string
  wf_claim_token :: "uuid option"
  wf_lease_until :: "time option"
  wf_generation :: nat
  wf_retry_at :: "time option"
  wf_attempts :: nat
  wf_error_code :: "string option"
  wf_updated_at :: time

text \<open>The database with the workflow table.\<close>

record platform =
  pf_db :: db
  pf_workflows :: "workflow_run list"

record workflow_settings =
  set_required_tests :: "string list"
  set_retry_seconds :: int
  set_stage_attempts :: nat

definition workflow_state :: "workflow_run \<Rightarrow> string \<Rightarrow> service_error + workflow_run" where
  "workflow_state r target =
     bindE (check (wf_status r) target WORKFLOW_EDGES) (\<lambda>_. Inr (r\<lparr>wf_status := target\<rparr>))"

definition find_workflow :: "uuid \<Rightarrow> platform \<Rightarrow> workflow_run option" where
  "find_workflow i p = fetch wf_id i (pf_workflows p)"

definition save_workflow :: "time \<Rightarrow> workflow_run \<Rightarrow> platform \<Rightarrow> platform" where
  "save_workflow now r p =
     (if find_workflow (wf_id r) p = Some r then p
      else p\<lparr>pf_workflows := put wf_id (r\<lparr>wf_updated_at := now\<rparr>) (pf_workflows p)\<rparr>)"

section \<open>Starting and reading\<close>

definition new_workflow ::
  "workflow_settings \<Rightarrow> string \<Rightarrow> workflow_request \<Rightarrow> time \<Rightarrow> workflow_run" where
  "new_workflow settings correlation request now =
     \<lparr>wf_id = wr_request_id request, wf_request = request,
      wf_data = [''required_commands'' \<mapsto> JStrs (set_required_tests settings),
                 ''correlation_id'' \<mapsto> JStr correlation],
      wf_history = [], wf_stage = Repository, wf_status = ''pending'', wf_claim_token = None,
      wf_lease_until = None, wf_generation = 0, wf_retry_at = None, wf_attempts = 0,
      wf_error_code = None, wf_updated_at = now\<rparr>"

text \<open>\<open>INSERT ... ON CONFLICT DO NOTHING\<close>, then the row that is there must be of this request.\<close>

definition workflow_start ::
  "workflow_settings \<Rightarrow> string \<Rightarrow> workflow_request \<Rightarrow> time \<Rightarrow> platform \<Rightarrow> service_error + platform" where
  "workflow_start settings correlation request now p =
     (let p1 = (if find_workflow (wr_request_id request) p = None
                then p\<lparr>pf_workflows := pf_workflows p @ [new_workflow settings correlation request now]\<rparr>
                else p)
      in case find_workflow (wr_request_id request) p1 of
           None \<Rightarrow> Inl (WorkflowError ''workflow_idempotency_conflict'')
         | Some r \<Rightarrow> if wf_request r \<noteq> request then Inl (WorkflowError ''workflow_idempotency_conflict'')
             else Inr p1)"

record workflow_status =
  ws_id :: uuid
  ws_stage :: stage
  ws_status :: string
  ws_attempts :: nat
  ws_generation :: nat
  ws_retry_at :: "time option"
  ws_error_code :: "string option"
  ws_history :: "metadata list"
  ws_updated_at :: time
  ws_public :: metadata

definition public_keys :: "string set" where
  "public_keys = {''correlation_id'', ''repository_id'', ''issue_id'', ''plan_id'', ''execution_id'',
     ''pull_request_url''}"

definition workflow_get :: "uuid \<Rightarrow> platform \<Rightarrow> service_error + workflow_status" where
  "workflow_get i p = bindE (someE RecordNotFound (find_workflow i p)) (\<lambda>r.
     Inr \<lparr>ws_id = wf_id r, ws_stage = wf_stage r, ws_status = wf_status r, ws_attempts = wf_attempts r,
          ws_generation = wf_generation r, ws_retry_at = wf_retry_at r, ws_error_code = wf_error_code r,
          ws_history = wf_history r, ws_updated_at = wf_updated_at r,
          ws_public = wf_data r |` public_keys\<rparr>)"

section \<open>Claims\<close>

record stage_claim =
  wc_id :: uuid
  wc_token :: uuid
  wc_stage :: stage
  wc_request :: workflow_request
  wc_data :: metadata

definition history_entry :: "stage \<Rightarrow> string \<Rightarrow> time \<Rightarrow> metadata" where
  "history_entry s status now =
     [''stage'' \<mapsto> JStr (stage_name s), ''status'' \<mapsto> JStr status, ''at'' \<mapsto> JInt now]"

definition claimable :: "string option \<Rightarrow> nat option \<Rightarrow> time \<Rightarrow> workflow_run \<Rightarrow> bool" where
  "claimable expected_stage expected_generation now r \<longleftrightarrow>
     wf_status r = ''pending'' \<and>
     (case expected_stage of None \<Rightarrow> True | Some s \<Rightarrow> stage_name (wf_stage r) = s) \<and>
     (case expected_generation of None \<Rightarrow> True | Some g \<Rightarrow> wf_generation r = g) \<and>
     (case wf_retry_at r of None \<Rightarrow> True | Some t \<Rightarrow> t \<le> now)"

definition workflow_claim ::
  "uuid \<Rightarrow> string option \<Rightarrow> nat option \<Rightarrow> uuid \<Rightarrow> time \<Rightarrow> platform \<Rightarrow>
    service_error + platform \<times> stage_claim option" where
  "workflow_claim i expected_stage expected_generation token now p =
     bindE (someE RecordNotFound (find_workflow i p)) (\<lambda>r.
     if \<not> claimable expected_stage expected_generation now r then Inr (p, None)
     else bindE (workflow_state r ''running'') (\<lambda>r1.
       Inr (save_workflow now (r1
              \<lparr>wf_claim_token := Some token, wf_retry_at := None, wf_attempts := wf_attempts r1 + 1,
               wf_lease_until := Some (now + seconds 1800),
               wf_history := wf_history r1 @ [history_entry (wf_stage r1) ''running'' now]\<rparr>) p,
            Some \<lparr>wc_id = wf_id r1, wc_token = token, wc_stage = wf_stage r1,
                  wc_request = wf_request r1, wc_data = wf_data r1\<rparr>)))"

text \<open>The three endings of a claimed stage.\<close>

definition finish_stage ::
  "workflow_settings \<Rightarrow> stage_claim \<Rightarrow> bool \<Rightarrow> string option \<Rightarrow> bool \<Rightarrow> int option \<Rightarrow> time \<Rightarrow>
    workflow_run \<Rightarrow> service_error + workflow_run" where
  "finish_stage settings claim repeat error blocked retry_seconds now r =
     (if or_empty error \<noteq> []
      then if \<not> blocked \<and> retry_seconds \<noteq> None \<and> wf_attempts r < set_stage_attempts settings
        then bindE (workflow_state r ''pending'') (\<lambda>r1.
               Inr (r1\<lparr>wf_retry_at := Some (now + seconds (the retry_seconds))\<rparr>))
        else workflow_state r (if blocked then ''blocked'' else ''failed'')
      else bindE (if repeat then Inr (wc_stage claim) else next_stage (wc_stage claim)) (\<lambda>s.
        let s' = (if s = Publish \<and> \<not> wr_publish_pull_request (wc_request claim) then Done else s) in
        bindE (workflow_state (r\<lparr>wf_stage := s'\<rparr>) (if s' = Done then ''completed'' else ''pending''))
          (\<lambda>r1. Inr (r1\<lparr>wf_attempts := 0\<rparr>))))"

definition workflow_finish ::
  "workflow_settings \<Rightarrow> stage_claim \<Rightarrow> metadata \<Rightarrow> bool \<Rightarrow> string option \<Rightarrow> bool \<Rightarrow> int option \<Rightarrow> time \<Rightarrow>
    platform \<Rightarrow> service_error + platform" where
  "workflow_finish settings claim data repeat error blocked retry_seconds now p =
     bindE (someE (WorkflowError ''workflow_claim_lost'') (find_workflow (wc_id claim) p)) (\<lambda>r.
     bindE (requireE (WorkflowError ''workflow_claim_lost'')
              (wf_claim_token r = Some (wc_token claim) \<and> wf_status r = ''running'')) (\<lambda>_.
     bindE (finish_stage settings claim repeat error blocked retry_seconds now (r
              \<lparr>wf_history := wf_history r @ [(history_entry (wc_stage claim)
                  (if or_empty error \<noteq> [] then ''failed'' else ''completed'') now)(''error_code'' \<mapsto> jopt error)],
               wf_data := wf_data r ++ data, wf_error_code := error, wf_claim_token := None,
               wf_lease_until := None, wf_generation := wf_generation r + 1\<rparr>)) (\<lambda>r1.
     Inr (save_workflow now r1 p))))"

section \<open>Resuming and cancelling\<close>

definition workflow_resume ::
  "workflow_settings \<Rightarrow> uuid \<Rightarrow> time \<Rightarrow> platform \<Rightarrow> service_error + platform" where
  "workflow_resume settings i now p =
     bindE (someE RecordNotFound (find_workflow i p)) (\<lambda>r.
     if wf_status r = ''failed'' \<and> wf_attempts r < set_stage_attempts settings
     then bindE (workflow_state r ''pending'') (\<lambda>r1.
       Inr (save_workflow now (r1\<lparr>wf_error_code := None, wf_retry_at := None,
              wf_generation := wf_generation r1 + 1\<rparr>) p))
     else if wf_status r \<noteq> ''pending'' then Inl (WorkflowError ''workflow_resume_not_allowed'')
     else Inr p)"

text \<open>The run of a workflow is stopped in the transaction that cancels the workflow.\<close>

definition stop_execution :: "metadata \<Rightarrow> bool \<Rightarrow> time \<Rightarrow> db \<Rightarrow> service_error + db" where
  "stop_execution data cancelled now d = (case data ''execution_id'' of
     Some (JId rid) \<Rightarrow> stop_locked rid cancelled now d
   | Some (JStr _) \<Rightarrow> Inl (ValueError ''badly formed hexadecimal UUID string'')
   | _ \<Rightarrow> Inr d)"

definition workflow_cancel :: "uuid \<Rightarrow> time \<Rightarrow> platform \<Rightarrow> service_error + platform" where
  "workflow_cancel i now p =
     bindE (someE RecordNotFound (find_workflow i p)) (\<lambda>r.
     if wf_status r \<notin> {''pending'', ''failed'', ''blocked'', ''cancelled''}
     then Inl (WorkflowError ''workflow_cancel_not_allowed'')
     else if wf_status r = ''cancelled'' then Inr p
     else bindE (stop_execution (wf_data r) True now (pf_db p)) (\<lambda>d.
       bindE (workflow_state r ''cancelled'') (\<lambda>r1.
       Inr (save_workflow now (r1
              \<lparr>wf_generation := wf_generation r1 + 1, wf_retry_at := None,
               wf_error_code := Some ''workflow_cancelled'',
               wf_history := wf_history r1 @ [(history_entry (wf_stage r1) ''cancelled'' now)
                 (''error_code'' \<mapsto> JStr ''workflow_cancelled'')]\<rparr>) (p\<lparr>pf_db := d\<rparr>)))))"

section \<open>Recovery of expired claims\<close>

definition expired_workflows :: "uuid list \<Rightarrow> time \<Rightarrow> platform \<Rightarrow> workflow_run list" where
  "expired_workflows locked now p =
     take 100 (filter (\<lambda>r. wf_id r \<notin> set locked) (filter (\<lambda>r. wf_status r = ''running'' \<and>
       (case wf_lease_until r of None \<Rightarrow> False | Some t \<Rightarrow> t < now)) (pf_workflows p)))"

definition expire_one :: "time \<Rightarrow> workflow_run \<Rightarrow> platform \<Rightarrow> service_error + platform" where
  "expire_one now r p =
     bindE (workflow_state r (if wf_stage r \<in> {Implement, Review} then ''blocked'' else ''failed'')) (\<lambda>r1.
     bindE (if wf_stage r1 \<in> {Implement, Review}
            then stop_execution (wf_data r1) False now (pf_db p)
            else Inr (pf_db p)) (\<lambda>d.
     Inr (save_workflow now (r1
            \<lparr>wf_generation := wf_generation r1 + 1, wf_error_code := Some ''workflow_worker_interrupted'',
             wf_claim_token := None, wf_lease_until := None,
             wf_history := wf_history r1 @ [(history_entry (wf_stage r1) (wf_status r1) now)
               (''error_code'' \<mapsto> JStr ''workflow_worker_interrupted'')]\<rparr>) (p\<lparr>pf_db := d\<rparr>))))"

definition dispatchable :: "time \<Rightarrow> platform \<Rightarrow> uuid list" where
  "dispatchable now p =
     take 100 (map wf_id (sort_key wf_updated_at (filter (\<lambda>r. wf_status r = ''pending'' \<and>
       (case wf_retry_at r of None \<Rightarrow> True | Some t \<Rightarrow> t \<le> now)) (pf_workflows p))))"

definition workflow_recoverable ::
  "uuid list \<Rightarrow> time \<Rightarrow> platform \<Rightarrow> service_error + platform \<times> uuid list" where
  "workflow_recoverable locked now p =
     bindE (foldE (expire_one now) (expired_workflows locked now p) p) (\<lambda>p'.
     Inr (p', dispatchable now p'))"

end
