(* ===== verification/Workflow_Invariants.thy ===== *)
theory Workflow_Invariants
  imports Workflow_Records
begin

text \<open>
  What every transaction on workflows keeps: a running workflow is held by exactly one claim,
  attempts stay within the configured bound, the workflow is at the last stage exactly when it is
  completed, and a workflow only moves forward. The state of the system is the platform with the
  claims handed out so far.
\<close>

section \<open>The system\<close>

record wf_system =
  sys_platform :: platform
  sys_claims :: "stage_claim list"

inductive wf_step :: "workflow_settings \<Rightarrow> wf_system \<Rightarrow> wf_system \<Rightarrow> bool"
  for settings :: workflow_settings where
  wf_start: "workflow_start settings correlation request now (sys_platform s) = Inr p \<Longrightarrow>
    wf_step settings s (s\<lparr>sys_platform := p\<rparr>)"
| wf_claim: "workflow_claim i expected_stage expected_generation token now (sys_platform s) = Inr (p, Some c) \<Longrightarrow>
    token \<notin> wc_token ` set (sys_claims s) \<Longrightarrow>
    wf_step settings s \<lparr>sys_platform = p, sys_claims = sys_claims s @ [c]\<rparr>"
| wf_finish: "c \<in> set (sys_claims s) \<Longrightarrow>
    workflow_finish settings c data repeat error blocked retry now (sys_platform s) = Inr p \<Longrightarrow>
    wf_step settings s (s\<lparr>sys_platform := p\<rparr>)"
| wf_resume: "workflow_resume settings i now (sys_platform s) = Inr p \<Longrightarrow>
    wf_step settings s (s\<lparr>sys_platform := p\<rparr>)"
| wf_cancel: "workflow_cancel i now (sys_platform s) = Inr p \<Longrightarrow>
    wf_step settings s (s\<lparr>sys_platform := p\<rparr>)"
| wf_recover: "workflow_recoverable locked now (sys_platform s) = Inr (p, ids) \<Longrightarrow>
    wf_step settings s (s\<lparr>sys_platform := p\<rparr>)"
| wf_exec: "exec_step (pf_db (sys_platform s)) d \<Longrightarrow>
    wf_step settings s (s\<lparr>sys_platform := (sys_platform s)\<lparr>pf_db := d\<rparr>\<rparr>)"

definition wf_init :: "workflow_settings \<Rightarrow> wf_system \<Rightarrow> bool" where
  "wf_init settings s \<longleftrightarrow> 1 \<le> set_stage_attempts settings \<and> no_executions (pf_db (sys_platform s)) \<and>
     pf_workflows (sys_platform s) = [] \<and> sys_claims s = []"

section \<open>The invariant\<close>

definition row_ok :: "nat \<Rightarrow> workflow_run \<Rightarrow> bool" where
  "row_ok limit r \<longleftrightarrow>
     wf_status r \<in> set (known WORKFLOW_EDGES) \<and>
     (wf_status r = ''running'' \<longleftrightarrow> wf_claim_token r \<noteq> None) \<and>
     (wf_status r = ''running'' \<longleftrightarrow> wf_lease_until r \<noteq> None) \<and>
     (wf_retry_at r \<noteq> None \<longrightarrow> wf_status r = ''pending'') \<and>
     (wf_status r = ''pending'' \<longrightarrow> wf_attempts r < limit) \<and>
     (wf_status r = ''running'' \<longrightarrow> 0 < wf_attempts r) \<and> wf_attempts r \<le> limit \<and>
     (wf_status r = ''completed'' \<longleftrightarrow> wf_stage r = Done)"

definition held_by :: "stage_claim list \<Rightarrow> workflow_run \<Rightarrow> bool" where
  "held_by claims r \<longleftrightarrow> (\<forall>t. wf_claim_token r = Some t \<longrightarrow>
     (\<exists>c \<in> set claims. wc_token c = t \<and> wc_id c = wf_id r \<and> wc_stage c = wf_stage r \<and>
        wc_request c = wf_request r))"

definition wf_inv :: "workflow_settings \<Rightarrow> wf_system \<Rightarrow> bool" where
  "wf_inv settings s \<longleftrightarrow>
     1 \<le> set_stage_attempts settings \<and> platform_inv (pf_db (sys_platform s)) \<and>
     distinct (map wf_id (pf_workflows (sys_platform s))) \<and>
     distinct (map wc_token (sys_claims s)) \<and>
     (\<forall>r \<in> set (pf_workflows (sys_platform s)).
        row_ok (set_stage_attempts settings) r \<and> held_by (sys_claims s) r)"

lemma workflow_successors:
  "successors WORKFLOW_EDGES s =
    (if s = ''pending'' then [''running'', ''cancelled'']
     else if s = ''running'' then [''pending'', ''failed'', ''blocked'', ''completed'']
     else if s = ''failed'' then [''pending'', ''cancelled'']
     else if s = ''blocked'' then [''cancelled''] else [])"
  by (simp add: successors_def WORKFLOW_EDGES_def)

lemma workflow_known: "set (known WORKFLOW_EDGES) =
    {''pending'', ''running'', ''failed'', ''blocked'', ''completed'', ''cancelled''}"
  by (auto simp: known_def WORKFLOW_EDGES_def)

lemma workflow_state_Inr:
  "workflow_state r t = Inr r' \<longleftrightarrow>
    r' = r\<lparr>wf_status := t\<rparr> \<and> t \<in> set (known WORKFLOW_EDGES) \<and>
    (t = wf_status r \<or> t \<in> set (successors WORKFLOW_EDGES (wf_status r)))"
  by (auto simp: workflow_state_def check_eq_Inr)

lemma find_workflow_in: "find_workflow i p = Some r \<Longrightarrow> r \<in> set (pf_workflows p) \<and> wf_id r = i"
  by (auto simp: find_workflow_def dest: fetch_SomeD)

lemma row_ok_stamp [simp]: "row_ok limit (r\<lparr>wf_updated_at := u\<rparr>) = row_ok limit r"
  by (simp add: row_ok_def)

lemma held_by_stamp [simp]: "held_by claims (r\<lparr>wf_updated_at := u\<rparr>) = held_by claims r"
  by (simp add: held_by_def)

lemma save_workflow_rows:
  "r \<in> set (pf_workflows (save_workflow now r' p)) \<Longrightarrow>
    r \<in> set (pf_workflows p) \<or> (\<exists>u. r = r'\<lparr>wf_updated_at := u\<rparr>)"
  by (auto simp: save_workflow_def set_put split: if_splits)

lemma save_workflow_ids [simp]:
  "map wf_id (pf_workflows (save_workflow now r p)) = map wf_id (pf_workflows p)"
  by (simp add: save_workflow_def)

lemma save_workflow_db [simp]: "pf_db (save_workflow now r p) = pf_db p"
  by (simp add: save_workflow_def)

lemma save_workflow_with_db:
  "save_workflow now r (p\<lparr>pf_db := d\<rparr>) = (save_workflow now r p)\<lparr>pf_db := d\<rparr>"
  by (simp add: save_workflow_def find_workflow_def)

lemma find_save_workflow:
  assumes "find_workflow (wf_id r) p \<noteq> None"
  shows "\<exists>u. find_workflow (wf_id r) (save_workflow now r p) = Some (r\<lparr>wf_updated_at := u\<rparr>)"
    and "i \<noteq> wf_id r \<Longrightarrow> find_workflow i (save_workflow now r p) = find_workflow i p"
proof -
  show "\<exists>u. find_workflow (wf_id r) (save_workflow now r p) = Some (r\<lparr>wf_updated_at := u\<rparr>)"
  proof (cases "find_workflow (wf_id r) p = Some r")
    case True
    then show ?thesis by (auto simp: save_workflow_def intro: exI [of _ "wf_updated_at r"])
  next
    case False
    with assms show ?thesis
      by (auto simp: save_workflow_def find_workflow_def fetch_put fetch_None)
  qed
  show "find_workflow i (save_workflow now r p) = find_workflow i p" if "i \<noteq> wf_id r"
    using that by (simp add: save_workflow_def find_workflow_def)
qed

lemma wf_inv_save:
  assumes inv: "wf_inv settings s" and "platform_inv d"
    and "row_ok (set_stage_attempts settings) r'" and "held_by claims r'"
    and "set (sys_claims s) \<subseteq> set claims" and "distinct (map wc_token claims)"
  shows "wf_inv settings \<lparr>sys_platform = (save_workflow now r' (sys_platform s))\<lparr>pf_db := d\<rparr>,
           sys_claims = claims\<rparr>"
proof -
  have "held_by claims r" if "held_by (sys_claims s) r" for r
    using that assms(5) by (fastforce simp: held_by_def)
  with assms show ?thesis
    unfolding wf_inv_def by (auto dest!: save_workflow_rows)
qed

section \<open>Each transaction keeps it\<close>

lemma workflow_start_inv:
  assumes inv: "wf_inv settings s"
    and start: "workflow_start settings correlation request now (sys_platform s) = Inr p"
  shows "wf_inv settings (s\<lparr>sys_platform := p\<rparr>)"
proof (cases "find_workflow (wr_request_id request) (sys_platform s)")
  case None
  let ?r = "new_workflow settings correlation request now"
  from None start have p: "p = (sys_platform s)\<lparr>pf_workflows := pf_workflows (sys_platform s) @ [?r]\<rparr>"
    by (auto simp: workflow_start_def Let_def split: option.splits if_splits)
  from None have "wf_id ?r \<notin> wf_id ` set (pf_workflows (sys_platform s))"
    by (simp add: find_workflow_def fetch_None new_workflow_def)
  moreover have "row_ok (set_stage_attempts settings) ?r" and "held_by (sys_claims s) ?r"
    using inv by (simp_all add: wf_inv_def row_ok_def held_by_def new_workflow_def workflow_known)
  ultimately show ?thesis using inv by (auto simp: p wf_inv_def)
next
  case (Some r)
  with start have "p = sys_platform s" by (auto simp: workflow_start_def split: if_splits)
  with inv show ?thesis by simp
qed

lemma workflow_claim_Some:
  assumes "workflow_claim i stg g token now p = Inr (p', Some c)"
  obtains r r' where "find_workflow i p = Some r" and "claimable stg g now r"
    and "r' = r\<lparr>wf_status := ''running'', wf_claim_token := Some token, wf_retry_at := None,
           wf_attempts := wf_attempts r + 1, wf_lease_until := Some (now + seconds 1800),
           wf_history := wf_history r @ [history_entry (wf_stage r) ''running'' now]\<rparr>"
    and "p' = save_workflow now r' p"
    and "c = \<lparr>wc_id = wf_id r, wc_token = token, wc_stage = wf_stage r, wc_request = wf_request r,
           wc_data = wf_data r\<rparr>"
  using assms by (auto simp: workflow_claim_def workflow_state_Inr split: if_splits)

lemma wf_inv_rows:
  "wf_inv settings s \<Longrightarrow> find_workflow i (sys_platform s) = Some r \<Longrightarrow>
    row_ok (set_stage_attempts settings) r \<and> held_by (sys_claims s) r \<and> wf_id r = i"
  by (auto simp: wf_inv_def dest!: find_workflow_in)

lemma workflow_claim_inv:
  assumes inv: "wf_inv settings s"
    and claim: "workflow_claim i stg g token now (sys_platform s) = Inr (p, Some c)"
    and fresh: "token \<notin> wc_token ` set (sys_claims s)"
  shows "wf_inv settings \<lparr>sys_platform = p, sys_claims = sys_claims s @ [c]\<rparr>"
proof -
  from claim obtain r r' where r: "find_workflow i (sys_platform s) = Some r"
    and cl: "claimable stg g now r"
    and r': "r' = r\<lparr>wf_status := ''running'', wf_claim_token := Some token, wf_retry_at := None,
           wf_attempts := wf_attempts r + 1, wf_lease_until := Some (now + seconds 1800),
           wf_history := wf_history r @ [history_entry (wf_stage r) ''running'' now]\<rparr>"
    and p: "p = save_workflow now r' (sys_platform s)"
    and c: "c = \<lparr>wc_id = wf_id r, wc_token = token, wc_stage = wf_stage r, wc_request = wf_request r,
           wc_data = wf_data r\<rparr>"
    by (rule workflow_claim_Some)
  note row = wf_inv_rows [OF inv r]
  have "row_ok (set_stage_attempts settings) r'"
    using row cl by (auto simp: r' row_ok_def claimable_def workflow_known)
  moreover have "held_by (sys_claims s @ [c]) r'" by (simp add: held_by_def r' c)
  moreover have "p = p\<lparr>pf_db := pf_db (sys_platform s)\<rparr>" by (simp add: p save_workflow_def)
  ultimately show ?thesis
    using wf_inv_save [OF inv, of "pf_db (sys_platform s)" r' "sys_claims s @ [c]" now] inv fresh
    by (auto simp: p c wf_inv_def)
qed

lemma workflow_finish_Inr:
  assumes "workflow_finish settings c data repeat error blocked retry now p = Inr p'"
  obtains r r0 r' where "find_workflow (wc_id c) p = Some r"
    and "wf_claim_token r = Some (wc_token c)" and "wf_status r = ''running''"
    and "r0 = r\<lparr>wf_history := wf_history r @ [(history_entry (wc_stage c)
                  (if or_empty error \<noteq> [] then ''failed'' else ''completed'') now)(''error_code'' \<mapsto> jopt error)],
               wf_data := wf_data r ++ data, wf_error_code := error, wf_claim_token := None,
               wf_lease_until := None, wf_generation := wf_generation r + 1\<rparr>"
    and "finish_stage settings c repeat error blocked retry now r0 = Inr r'"
    and "p' = save_workflow now r' p"
proof -
  from assms show thesis
    unfolding workflow_finish_def
    by (elim block_elims, unfold sum.inject, elim conjE)
      (rule that [OF _ _ _ refl], (assumption | simp only:)+)
qed

lemma finish_stage_ok:
  assumes "finish_stage settings c repeat error blocked retry now r = Inr r'"
    and "wf_status r = ''running''" and "wf_claim_token r = None" and "wf_lease_until r = None"
    and "wf_retry_at r = None" and "wf_attempts r \<le> set_stage_attempts settings"
    and "1 \<le> set_stage_attempts settings" and "wc_stage c = wf_stage r" and "wf_stage r \<noteq> Done"
  shows "row_ok (set_stage_attempts settings) r'" and "wf_id r' = wf_id r"
    and "wf_claim_token r' = None" and "wf_stage r \<le> wf_stage r'"
    and "wf_generation r' = wf_generation r" and "wf_request r' = wf_request r"
proof -
  have "row_ok (set_stage_attempts settings) r' \<and> wf_id r' = wf_id r \<and> wf_claim_token r' = None \<and>
      wf_stage r \<le> wf_stage r' \<and> wf_generation r' = wf_generation r \<and> wf_request r' = wf_request r"
  proof (cases "or_empty error = []")
    case False
    with assms show ?thesis
      by (auto simp: finish_stage_def workflow_state_Inr row_ok_def workflow_known split: if_splits)
  next
    case True
    then have "finish_stage settings c repeat error blocked retry now r =
        bindE (if repeat then Inr (wc_stage c) else next_stage (wc_stage c)) (\<lambda>st.
          bindE (workflow_state (r\<lparr>wf_stage := if st = Publish \<and> \<not> wr_publish_pull_request (wc_request c)
              then Done else st\<rparr>) (if (if st = Publish \<and> \<not> wr_publish_pull_request (wc_request c)
              then Done else st) = Done then ''completed'' else ''pending''))
          (\<lambda>r1. Inr (r1\<lparr>wf_attempts := 0\<rparr>)))"
      by (simp only: finish_stage_def Let_def simp_thms if_False)
    from assms(1) [unfolded this] obtain st where n: "(if repeat then Inr (wc_stage c) else next_stage (wc_stage c)) = Inr st"
      and r': "bindE (workflow_state (r\<lparr>wf_stage := if st = Publish \<and> \<not> wr_publish_pull_request (wc_request c)
              then Done else st\<rparr>) (if (if st = Publish \<and> \<not> wr_publish_pull_request (wc_request c)
              then Done else st) = Done then ''completed'' else ''pending''))
          (\<lambda>r1. Inr (r1\<lparr>wf_attempts := 0\<rparr>)) = Inr r'"
      by (rule bindE_InrE) (rule that; assumption)
    define s' where "s' = (if st = Publish \<and> \<not> wr_publish_pull_request (wc_request c) then Done else st)"
    have "wf_stage r \<le> st"
      using n assms(8) next_stage_less [of "wc_stage c" st] by (auto split: if_splits)
    then have "wf_stage r \<le> s'" using stage_le_Done by (auto simp: s'_def)
    moreover from r' have "r' = r\<lparr>wf_stage := s', wf_status := if s' = Done then ''completed'' else ''pending'',
        wf_attempts := 0\<rparr>"
      unfolding s'_def [symmetric] by (auto simp: workflow_state_Inr)
    ultimately show ?thesis
      using assms(3-7) by (cases "s' = Done") (simp_all add: row_ok_def workflow_known)
  qed
  then show "row_ok (set_stage_attempts settings) r'" and "wf_id r' = wf_id r"
    and "wf_claim_token r' = None" and "wf_stage r \<le> wf_stage r'"
    and "wf_generation r' = wf_generation r" and "wf_request r' = wf_request r" by simp_all
qed

text \<open>A live claim describes the row it was handed out for.\<close>

lemma live_claim:
  assumes inv: "wf_inv settings s" and c: "c \<in> set (sys_claims s)"
    and r: "find_workflow (wc_id c) (sys_platform s) = Some r" and t: "wf_claim_token r = Some (wc_token c)"
  shows "wc_stage c = wf_stage r" and "wc_request c = wf_request r"
proof -
  from wf_inv_rows [OF inv r] t obtain c' where c': "c' \<in> set (sys_claims s)" "wc_token c' = wc_token c"
    "wc_stage c' = wf_stage r" "wc_request c' = wf_request r"
    by (auto simp: held_by_def)
  moreover from inv c c' have "c' = c" by (metis distinct_map inj_onD wf_inv_def)
  ultimately show "wc_stage c = wf_stage r" and "wc_request c = wf_request r" by simp_all
qed

lemma workflow_finish_row:
  assumes inv: "wf_inv settings s" and c: "c \<in> set (sys_claims s)"
    and fin: "workflow_finish settings c data repeat error blocked retry now (sys_platform s) = Inr p"
  obtains r r' where "find_workflow (wc_id c) (sys_platform s) = Some r"
    and "p = save_workflow now r' (sys_platform s)" and "wf_id r' = wf_id r"
    and "row_ok (set_stage_attempts settings) r'" and "wf_claim_token r' = None"
    and "wf_stage r \<le> wf_stage r'" and "wf_generation r' = wf_generation r + 1"
    and "wf_request r' = wf_request r"
proof -
  from fin obtain r r0 r' where r: "find_workflow (wc_id c) (sys_platform s) = Some r"
    and t: "wf_claim_token r = Some (wc_token c)" and st: "wf_status r = ''running''"
    and r0: "r0 = r\<lparr>wf_history := wf_history r @ [(history_entry (wc_stage c)
                  (if or_empty error \<noteq> [] then ''failed'' else ''completed'') now)(''error_code'' \<mapsto> jopt error)],
               wf_data := wf_data r ++ data, wf_error_code := error, wf_claim_token := None,
               wf_lease_until := None, wf_generation := wf_generation r + 1\<rparr>"
    and f: "finish_stage settings c repeat error blocked retry now r0 = Inr r'"
    and p: "p = save_workflow now r' (sys_platform s)"
    by (rule workflow_finish_Inr) (rule that; assumption)
  have ok: "row_ok (set_stage_attempts settings) r" using wf_inv_rows [OF inv r] by simp
  have lim: "1 \<le> set_stage_attempts settings" using inv by (simp add: wf_inv_def)
  have "wf_status r0 = ''running''" "wf_claim_token r0 = None" "wf_lease_until r0 = None"
    "wf_retry_at r0 = None" "wf_attempts r0 \<le> set_stage_attempts settings" "wc_stage c = wf_stage r0"
    "wf_stage r0 \<noteq> Done"
    using ok st live_claim [OF inv c r t] by (auto simp: r0 row_ok_def)
  from finish_stage_ok [OF f this(1-5) lim this(6,7)]
  show thesis by (intro that [OF r p]) (simp_all add: r0)
qed

lemma workflow_finish_inv:
  assumes inv: "wf_inv settings s" and c: "c \<in> set (sys_claims s)"
    and fin: "workflow_finish settings c data repeat error blocked retry now (sys_platform s) = Inr p"
  shows "wf_inv settings (s\<lparr>sys_platform := p\<rparr>)"
proof -
  from workflow_finish_row [OF assms] obtain r r' where
    p: "p = save_workflow now r' (sys_platform s)" and ok: "row_ok (set_stage_attempts settings) r'"
    and t: "wf_claim_token r' = None" by metis
  have "s\<lparr>sys_platform := p\<rparr> = \<lparr>sys_platform = p\<lparr>pf_db := pf_db (sys_platform s)\<rparr>, sys_claims = sys_claims s\<rparr>"
    by (simp add: p save_workflow_def)
  also have "wf_inv settings \<dots>"
    unfolding p using inv ok t by (intro wf_inv_save [OF inv]) (simp_all add: wf_inv_def held_by_def)
  finally show ?thesis .
qed

text \<open>Resuming, cancelling and expiring a claim: the row goes on without a holder.\<close>

lemma wf_inv_release:
  assumes inv: "wf_inv settings s" and "platform_inv d" and "row_ok (set_stage_attempts settings) r'"
    and "wf_claim_token r' = None"
  shows "wf_inv settings (s\<lparr>sys_platform := save_workflow now r' ((sys_platform s)\<lparr>pf_db := d\<rparr>)\<rparr>)"
proof -
  have "s\<lparr>sys_platform := save_workflow now r' ((sys_platform s)\<lparr>pf_db := d\<rparr>)\<rparr> =
      \<lparr>sys_platform = (save_workflow now r' (sys_platform s))\<lparr>pf_db := d\<rparr>, sys_claims = sys_claims s\<rparr>"
    unfolding save_workflow_with_db by simp
  also have "wf_inv settings \<dots>"
    using assms inv by (intro wf_inv_save [OF inv]) (simp_all add: wf_inv_def held_by_def)
  finally show ?thesis .
qed

lemma stop_execution_inv:
  assumes "platform_inv d" and "stop_execution data c now d = Inr d'"
  shows "platform_inv d'"
  using assms by (auto simp: stop_execution_def intro: step_platform [OF step_stop] split: option.splits jval.splits)

lemma workflow_resume_inv:
  assumes inv: "wf_inv settings s" and res: "workflow_resume settings i now (sys_platform s) = Inr p"
  shows "wf_inv settings (s\<lparr>sys_platform := p\<rparr>)"
proof (cases "p = sys_platform s")
  case False
  with res obtain r where r: "find_workflow i (sys_platform s) = Some r"
    and st: "wf_status r = ''failed''" "wf_attempts r < set_stage_attempts settings"
    and p: "p = save_workflow now (r\<lparr>wf_status := ''pending'', wf_error_code := None, wf_retry_at := None,
              wf_generation := wf_generation r + 1\<rparr>) (sys_platform s)"
    by (auto simp: workflow_resume_def workflow_state_Inr split: if_splits)
  let ?r = "r\<lparr>wf_status := ''pending'', wf_error_code := None, wf_retry_at := None,
              wf_generation := wf_generation r + 1\<rparr>"
  from wf_inv_rows [OF inv r] st have "row_ok (set_stage_attempts settings) ?r"
    and "wf_claim_token ?r = None"
    by (auto simp: row_ok_def workflow_known)
  moreover have "platform_inv (pf_db (sys_platform s))" using inv by (simp add: wf_inv_def)
  ultimately have "wf_inv settings (s\<lparr>sys_platform :=
      save_workflow now ?r ((sys_platform s)\<lparr>pf_db := pf_db (sys_platform s)\<rparr>)\<rparr>)"
    by (intro wf_inv_release [OF inv])
  then show ?thesis by (simp add: p)
qed (use inv in simp)

lemma workflow_cancel_Inr:
  assumes "workflow_cancel i now p = Inr p'" and "p' \<noteq> p"
  obtains r d where "find_workflow i p = Some r" and "wf_status r \<in> {''pending'', ''failed'', ''blocked''}"
    and "stop_execution (wf_data r) True now (pf_db p) = Inr d"
    and "p' = save_workflow now (r
              \<lparr>wf_status := ''cancelled'', wf_generation := wf_generation r + 1, wf_retry_at := None,
               wf_error_code := Some ''workflow_cancelled'',
               wf_history := wf_history r @ [(history_entry (wf_stage r) ''cancelled'' now)
                 (''error_code'' \<mapsto> JStr ''workflow_cancelled'')]\<rparr>) (p\<lparr>pf_db := d\<rparr>)"
proof -
  from assms(1) obtain r where r: "find_workflow i p = Some r" by (auto simp: workflow_cancel_def)
  with assms have st: "wf_status r \<in> {''pending'', ''failed'', ''blocked''}"
    by (auto simp: workflow_cancel_def split: if_splits)
  with assms(1) r have "bindE (stop_execution (wf_data r) True now (pf_db p)) (\<lambda>d.
       bindE (workflow_state r ''cancelled'') (\<lambda>r1.
       Inr (save_workflow now (r1
              \<lparr>wf_generation := wf_generation r1 + 1, wf_retry_at := None,
               wf_error_code := Some ''workflow_cancelled'',
               wf_history := wf_history r1 @ [(history_entry (wf_stage r1) ''cancelled'' now)
                 (''error_code'' \<mapsto> JStr ''workflow_cancelled'')]\<rparr>) (p\<lparr>pf_db := d\<rparr>)))) = Inr p'"
    by (auto simp: workflow_cancel_def)
  then obtain d where d: "stop_execution (wf_data r) True now (pf_db p) = Inr d"
    and "p' = save_workflow now (r
              \<lparr>wf_status := ''cancelled'', wf_generation := wf_generation r + 1, wf_retry_at := None,
               wf_error_code := Some ''workflow_cancelled'',
               wf_history := wf_history r @ [(history_entry (wf_stage r) ''cancelled'' now)
                 (''error_code'' \<mapsto> JStr ''workflow_cancelled'')]\<rparr>) (p\<lparr>pf_db := d\<rparr>)"
    by (auto simp: workflow_state_Inr)
  with r st show thesis by (intro that)
qed

lemma workflow_cancel_inv:
  assumes inv: "wf_inv settings s" and can: "workflow_cancel i now (sys_platform s) = Inr p"
  shows "wf_inv settings (s\<lparr>sys_platform := p\<rparr>)"
proof (cases "p = sys_platform s")
  case False
  from can False show ?thesis
  proof (rule workflow_cancel_Inr)
    fix r d
    assume r: "find_workflow i (sys_platform s) = Some r"
      and st: "wf_status r \<in> {''pending'', ''failed'', ''blocked''}"
      and d: "stop_execution (wf_data r) True now (pf_db (sys_platform s)) = Inr d"
      and p: "p = save_workflow now (r
              \<lparr>wf_status := ''cancelled'', wf_generation := wf_generation r + 1, wf_retry_at := None,
               wf_error_code := Some ''workflow_cancelled'',
               wf_history := wf_history r @ [(history_entry (wf_stage r) ''cancelled'' now)
                 (''error_code'' \<mapsto> JStr ''workflow_cancelled'')]\<rparr>) ((sys_platform s)\<lparr>pf_db := d\<rparr>)"
    have "platform_inv d" using inv d by (auto simp: wf_inv_def intro: stop_execution_inv)
    moreover from wf_inv_rows [OF inv r] st have "row_ok (set_stage_attempts settings) r"
      and "wf_claim_token r = None" and "wf_lease_until r = None" and "wf_stage r \<noteq> Done"
      by (auto simp: row_ok_def)
    ultimately show ?thesis
      unfolding p by (intro wf_inv_release [OF inv]) (simp_all add: row_ok_def workflow_known)
  qed
qed (use inv in simp)

lemma expire_one_Inr:
  assumes "expire_one now r p = Inr p'"
  obtains d r1 where "wf_status r1 \<in> {''blocked'', ''failed''}"
    and "wf_status r1 = wf_status r \<or> wf_status r1 \<in> set (successors WORKFLOW_EDGES (wf_status r))"
    and "r1 = r\<lparr>wf_status := wf_status r1, wf_generation := wf_generation r + 1,
               wf_error_code := Some ''workflow_worker_interrupted'',
               wf_claim_token := None, wf_lease_until := None, wf_history := wf_history r1\<rparr>"
    and "p' = save_workflow now r1 (p\<lparr>pf_db := d\<rparr>)"
    and "d = pf_db p \<or> stop_execution (wf_data r) False now (pf_db p) = Inr d"
proof -
  from assms obtain r0 d where r0: "workflow_state r (if wf_stage r \<in> {Implement, Review} then ''blocked'' else ''failed'') = Inr r0"
    and d: "(if wf_stage r0 \<in> {Implement, Review} then stop_execution (wf_data r0) False now (pf_db p)
        else Inr (pf_db p)) = Inr d"
    and p': "p' = save_workflow now (r0
            \<lparr>wf_generation := wf_generation r0 + 1, wf_error_code := Some ''workflow_worker_interrupted'',
             wf_claim_token := None, wf_lease_until := None,
             wf_history := wf_history r0 @ [(history_entry (wf_stage r0) (wf_status r0) now)
               (''error_code'' \<mapsto> JStr ''workflow_worker_interrupted'')]\<rparr>) (p\<lparr>pf_db := d\<rparr>)"
    unfolding expire_one_def by (elim block_elims) (rule that, (assumption | simp)+)
  from r0 have "r0 = r\<lparr>wf_status := wf_status r0\<rparr>" "wf_status r0 \<in> {''blocked'', ''failed''}"
    "wf_status r0 = wf_status r \<or> wf_status r0 \<in> set (successors WORKFLOW_EDGES (wf_status r))"
    by (auto simp: workflow_state_Inr)
  with d p' show thesis
    by (intro that [of "r0
            \<lparr>wf_generation := wf_generation r0 + 1, wf_error_code := Some ''workflow_worker_interrupted'',
             wf_claim_token := None, wf_lease_until := None,
             wf_history := wf_history r0 @ [(history_entry (wf_stage r0) (wf_status r0) now)
               (''error_code'' \<mapsto> JStr ''workflow_worker_interrupted'')]\<rparr>" d]) (auto split: if_splits)
qed

section \<open>Workflows only move forward\<close>

definition wf_moves :: "workflow_run \<Rightarrow> workflow_run \<Rightarrow> bool" where
  "wf_moves r r' \<longleftrightarrow> wf_id r' = wf_id r \<and> wf_request r' = wf_request r \<and>
     wf_stage r \<le> wf_stage r' \<and> wf_generation r \<le> wf_generation r' \<and>
     (wf_status r \<in> {''completed'', ''cancelled''} \<longrightarrow> wf_status r' = wf_status r)"

definition advanced :: "platform \<Rightarrow> platform \<Rightarrow> bool" where
  "advanced p p' \<longleftrightarrow> (\<forall>i r. find_workflow i p = Some r \<longrightarrow>
     (\<exists>r'. find_workflow i p' = Some r' \<and> wf_moves r r'))"

lemma wf_moves_refl [simp]: "wf_moves r r"
  by (simp add: wf_moves_def)

lemma wf_moves_trans: "wf_moves a b \<Longrightarrow> wf_moves b c \<Longrightarrow> wf_moves a c"
  unfolding wf_moves_def by auto

lemma advanced_refl [simp]: "advanced p p"
  by (simp add: advanced_def)

lemma advanced_trans: "advanced p q \<Longrightarrow> advanced q r \<Longrightarrow> advanced p r"
  unfolding advanced_def by (meson wf_moves_trans)

lemma find_workflow_db [simp]: "find_workflow i (p\<lparr>pf_db := d\<rparr>) = find_workflow i p"
  by (simp add: find_workflow_def)

lemma advanced_save:
  assumes "find_workflow i p = Some r" and "wf_moves r r'"
  shows "advanced p (save_workflow now r' (p\<lparr>pf_db := d\<rparr>))"
proof -
  have i: "wf_id r' = i" using assms find_workflow_in by (auto simp: wf_moves_def)
  have "find_workflow (wf_id r') (p\<lparr>pf_db := d\<rparr>) \<noteq> None" using assms i by simp
  note found = find_save_workflow [OF this]
  show ?thesis
    unfolding advanced_def
  proof (intro allI impI)
    fix j q assume q: "find_workflow j p = Some q"
    show "\<exists>q'. find_workflow j (save_workflow now r' (p\<lparr>pf_db := d\<rparr>)) = Some q' \<and> wf_moves q q'"
    proof (cases "j = i")
      case True
      with found(1) i obtain u where
        "find_workflow j (save_workflow now r' (p\<lparr>pf_db := d\<rparr>)) = Some (r'\<lparr>wf_updated_at := u\<rparr>)" by auto
      moreover have "wf_moves q (r'\<lparr>wf_updated_at := u\<rparr>)"
        using assms q True by (simp add: wf_moves_def)
      ultimately show ?thesis by blast
    next
      case False
      with found(2) [of j] i q show ?thesis by auto
    qed
  qed
qed

lemma advanced_save_same: "find_workflow i p = Some r \<Longrightarrow> wf_moves r r' \<Longrightarrow> advanced p (save_workflow now r' p)"
  using advanced_save [of i p r r' now "pf_db p"] by simp

lemma expire_one_moves:
  assumes "expire_one now r p = Inr p'" and "find_workflow (wf_id r) p = Some r"
    and "wf_status r = ''running''"
  shows "advanced p p'" and "i \<noteq> wf_id r \<Longrightarrow> find_workflow i p' = find_workflow i p"
proof -
  from assms(1) obtain d r1 where
    r1: "r1 = r\<lparr>wf_status := wf_status r1, wf_generation := wf_generation r + 1,
               wf_error_code := Some ''workflow_worker_interrupted'',
               wf_claim_token := None, wf_lease_until := None, wf_history := wf_history r1\<rparr>"
    and p': "p' = save_workflow now r1 (p\<lparr>pf_db := d\<rparr>)"
    by (rule expire_one_Inr) (rule that; assumption)
  have sel: "wf_id r1 = wf_id r" "wf_request r1 = wf_request r" "wf_stage r1 = wf_stage r"
    "wf_generation r1 = wf_generation r + 1"
    by (subst r1, simp)+
  then have "wf_moves r r1" using assms(3) by (simp add: wf_moves_def)
  with assms(2) show "advanced p p'" unfolding p' by (rule advanced_save)
  show "find_workflow i p' = find_workflow i p" if "i \<noteq> wf_id r"
    unfolding p' using find_save_workflow(2) [of r1 "p\<lparr>pf_db := d\<rparr>" i now] that assms(2) by (simp add: sel)
qed

lemma expire_fold_moves:
  "foldE (expire_one now) rs p = Inr p' \<Longrightarrow> distinct (map wf_id rs) \<Longrightarrow>
    \<forall>r \<in> set rs. find_workflow (wf_id r) p = Some r \<and> wf_status r = ''running'' \<Longrightarrow> advanced p p'"
proof (induction rs arbitrary: p)
  case Nil
  then show ?case by simp
next
  case (Cons r rs)
  from Cons.prems(1) obtain q where q: "expire_one now r p = Inr q" and rest: "foldE (expire_one now) rs q = Inr p'"
    by auto
  from Cons.prems(3) have r: "find_workflow (wf_id r) p = Some r" "wf_status r = ''running''" by auto
  note moved = expire_one_moves [OF q r]
  have "find_workflow (wf_id x) q = Some x \<and> wf_status x = ''running''" if "x \<in> set rs" for x
    using Cons.prems(2,3) that moved(2) [of "wf_id x"] by fastforce
  then have "advanced q p'" using Cons.IH [OF rest] Cons.prems(2) by simp
  with moved(1) show ?case by (rule advanced_trans)
qed

lemma expired_rows:
  assumes "wf_inv settings s" and "r \<in> set (expired_workflows locked now (sys_platform s))"
  shows "find_workflow (wf_id r) (sys_platform s) = Some r" and "wf_status r = ''running''"
    and "row_ok (set_stage_attempts settings) r"
proof -
  from assms(2) have r: "r \<in> set (pf_workflows (sys_platform s))" "wf_status r = ''running''"
    by (auto simp: expired_workflows_def dest!: in_set_takeD)
  with assms(1) show "find_workflow (wf_id r) (sys_platform s) = Some r" and "wf_status r = ''running''"
    and "row_ok (set_stage_attempts settings) r"
    by (simp_all add: wf_inv_def find_workflow_def fetch_distinct)
qed

lemma expired_distinct:
  "wf_inv settings s \<Longrightarrow> distinct (map wf_id (expired_workflows locked now (sys_platform s)))"
  unfolding expired_workflows_def wf_inv_def
  by (auto simp: take_map [symmetric] distinct_map_filter intro!: distinct_take)

lemma workflow_recoverable_inv:
  assumes inv: "wf_inv settings s"
    and rec: "workflow_recoverable locked now (sys_platform s) = Inr (p, ids)"
  shows "wf_inv settings (s\<lparr>sys_platform := p\<rparr>)" and "advanced (sys_platform s) p"
proof -
  let ?rs = "expired_workflows locked now (sys_platform s)"
  from rec have fold: "foldE (expire_one now) ?rs (sys_platform s) = Inr p"
    by (auto simp: workflow_recoverable_def)
  show "wf_inv settings (s\<lparr>sys_platform := p\<rparr>)"
  proof (rule foldE_invariant [OF fold, where P = "\<lambda>p. wf_inv settings (s\<lparr>sys_platform := p\<rparr>)"])
    show "wf_inv settings (s\<lparr>sys_platform := sys_platform s\<rparr>)" using inv by simp
    fix r q q'
    assume r: "r \<in> set ?rs" and q: "wf_inv settings (s\<lparr>sys_platform := q\<rparr>)" and e: "expire_one now r q = Inr q'"
    from e obtain d r1 where st: "wf_status r1 \<in> {''blocked'', ''failed''}"
      and r1: "r1 = r\<lparr>wf_status := wf_status r1, wf_generation := wf_generation r + 1,
               wf_error_code := Some ''workflow_worker_interrupted'',
               wf_claim_token := None, wf_lease_until := None, wf_history := wf_history r1\<rparr>"
      and q': "q' = save_workflow now r1 (q\<lparr>pf_db := d\<rparr>)"
      and d: "d = pf_db q \<or> stop_execution (wf_data r) False now (pf_db q) = Inr d"
      by (rule expire_one_Inr) (rule that; assumption)
    have sel: "wf_claim_token r1 = None" "wf_lease_until r1 = None" "wf_retry_at r1 = wf_retry_at r"
      "wf_attempts r1 = wf_attempts r" "wf_stage r1 = wf_stage r"
      by (subst r1, simp)+
    have "row_ok (set_stage_attempts settings) r1"
      using expired_rows(2,3) [OF inv r] st by (auto simp: row_ok_def sel workflow_known)
    moreover have "platform_inv d"
      using d q by (auto simp: wf_inv_def intro: stop_execution_inv)
    ultimately show "wf_inv settings (s\<lparr>sys_platform := q'\<rparr>)"
      using wf_inv_release [OF q, of d r1 now] sel by (simp add: q')
  qed
  show "advanced (sys_platform s) p"
    using fold expired_distinct [OF inv] expired_rows(1,2) [OF inv] by (intro expire_fold_moves) auto
qed

lemma workflow_start_advanced:
  "workflow_start settings correlation request now p = Inr p' \<Longrightarrow> advanced p p'"
  by (auto simp: workflow_start_def Let_def advanced_def find_workflow_def split: option.splits if_splits)

text \<open>A claim that is refused changes nothing, so only granted claims are steps.\<close>

lemma workflow_claim_None: "workflow_claim i stg g token now p = Inr (p', None) \<Longrightarrow> p' = p"
  by (auto simp: workflow_claim_def split: if_splits)

lemma workflow_resume_advanced:
  assumes "workflow_resume settings i now p = Inr p'"
  shows "advanced p p'"
proof (cases "p' = p")
  case False
  with assms obtain r where "find_workflow i p = Some r" and "wf_status r = ''failed''"
    and "p' = save_workflow now (r\<lparr>wf_status := ''pending'', wf_error_code := None, wf_retry_at := None,
              wf_generation := wf_generation r + 1\<rparr>) p"
    by (auto simp: workflow_resume_def workflow_state_Inr split: if_splits)
  then show ?thesis by (auto simp: wf_moves_def intro!: advanced_save_same)
qed simp

lemma wf_step_inv:
  assumes inv: "wf_inv settings s" and step: "wf_step settings s s'"
  shows "wf_inv settings s'" and "advanced (sys_platform s) (sys_platform s')"
proof -
  have "wf_inv settings s' \<and> advanced (sys_platform s) (sys_platform s')"
    using step
  proof cases
    case (wf_start correlation request now p)
    with workflow_start_inv [OF inv] workflow_start_advanced show ?thesis by simp
  next
    case (wf_claim i stg g token now p c)
    from wf_claim(2) obtain r r' where r: "find_workflow i (sys_platform s) = Some r"
      and "claimable stg g now r" and r': "r' = r\<lparr>wf_status := ''running'', wf_claim_token := Some token,
           wf_retry_at := None, wf_attempts := wf_attempts r + 1,
           wf_lease_until := Some (now + seconds 1800),
           wf_history := wf_history r @ [history_entry (wf_stage r) ''running'' now]\<rparr>"
      and p: "p = save_workflow now r' (sys_platform s)"
      by (rule workflow_claim_Some)
    then have "wf_moves r r'" by (simp add: wf_moves_def claimable_def)
    with r p have "advanced (sys_platform s) p" by (auto intro: advanced_save_same)
    with wf_claim workflow_claim_inv [OF inv] show ?thesis by simp
  next
    case (wf_finish c data repeat error blocked retry now p)
    from workflow_finish_row [OF inv wf_finish(2,3)] obtain r r' where
      r: "find_workflow (wc_id c) (sys_platform s) = Some r" and p: "p = save_workflow now r' (sys_platform s)"
      and "wf_id r' = wf_id r" "wf_stage r \<le> wf_stage r'" "wf_generation r' = wf_generation r + 1"
      "wf_request r' = wf_request r" by metis
    moreover have "wf_status r = ''running''"
      using wf_finish(3) r by (auto simp: workflow_finish_def)
    ultimately have "wf_moves r r'" by (simp add: wf_moves_def)
    with r p have "advanced (sys_platform s) p" by (auto intro: advanced_save_same)
    with wf_finish workflow_finish_inv [OF inv] show ?thesis by simp
  next
    case (wf_resume i now p)
    with workflow_resume_inv [OF inv] workflow_resume_advanced show ?thesis by simp
  next
    case (wf_cancel i now p)
    have "advanced (sys_platform s) p"
    proof (cases "p = sys_platform s")
      case False
      from wf_cancel(2) False show ?thesis
        by (rule workflow_cancel_Inr) (auto simp: wf_moves_def intro!: advanced_save)
    qed simp
    with wf_cancel workflow_cancel_inv [OF inv] show ?thesis by simp
  next
    case (wf_recover locked now p ids)
    with workflow_recoverable_inv [OF inv] show ?thesis by simp
  next
    case (wf_exec d)
    with inv step_platform [OF wf_exec(2)] show ?thesis by (simp add: wf_inv_def advanced_def)
  qed
  then show "wf_inv settings s'" and "advanced (sys_platform s) (sys_platform s')" by simp_all
qed

lemma wf_init_inv: "wf_init settings s \<Longrightarrow> wf_inv settings s"
  by (simp add: wf_init_def wf_inv_def no_executions_platform)

interpretation workflows: invariant_system "wf_init settings" "wf_step settings" "wf_inv settings"
  for settings
  by unfold_locales (auto intro: wf_init_inv wf_step_inv)

lemma steps_advanced:
  "(wf_step settings)\<^sup>*\<^sup>* s s' \<Longrightarrow> wf_inv settings s \<Longrightarrow> advanced (sys_platform s) (sys_platform s')"
proof (induction rule: rtranclp_induct)
  case base
  then show ?case by simp
next
  case (step t u)
  then have "wf_inv settings t" using workflows.steps_inv by blast
  with step show ?case using wf_step_inv(2) advanced_trans by blast
qed

section \<open>Fencing\<close>

text \<open>
  A token that was issued and is held by no row can never be held again: whoever comes back with
  it, after finishing, after its lease expired or after a cancellation, is refused.
\<close>

definition held_tokens :: "platform \<Rightarrow> uuid set" where
  "held_tokens p = {t. \<exists>r \<in> set (pf_workflows p). wf_claim_token r = Some t}"

definition spent :: "uuid \<Rightarrow> wf_system \<Rightarrow> bool" where
  "spent t s \<longleftrightarrow> t \<in> wc_token ` set (sys_claims s) \<and> t \<notin> held_tokens (sys_platform s)"

lemma held_tokens_save:
  "held_tokens (save_workflow now r (p\<lparr>pf_db := d\<rparr>)) \<subseteq>
    held_tokens p \<union> {t. wf_claim_token r = Some t}"
  by (auto simp: held_tokens_def save_workflow_with_db dest!: save_workflow_rows)

lemma held_tokens_save_same:
  "held_tokens (save_workflow now r p) \<subseteq> held_tokens p \<union> {t. wf_claim_token r = Some t}"
  using held_tokens_save [where p = p and d = "pf_db p"] by simp

lemma held_tokens_expire:
  assumes "foldE (expire_one now) rs p = Inr p'"
  shows "held_tokens p' \<subseteq> held_tokens p"
proof (rule foldE_invariant [OF assms, where P = "\<lambda>q. held_tokens q \<subseteq> held_tokens p"])
  fix r q q' assume sub: "held_tokens q \<subseteq> held_tokens p" and e: "expire_one now r q = Inr q'"
  from e obtain d r1 where r1: "r1 = r\<lparr>wf_status := wf_status r1, wf_generation := wf_generation r + 1,
               wf_error_code := Some ''workflow_worker_interrupted'',
               wf_claim_token := None, wf_lease_until := None, wf_history := wf_history r1\<rparr>"
    and q': "q' = save_workflow now r1 (q\<lparr>pf_db := d\<rparr>)"
    by (rule expire_one_Inr) (rule that; assumption)
  have "wf_claim_token r1 = None" by (subst r1) simp
  with held_tokens_save [where r = r1 and p = q and d = d and now = now] sub show "held_tokens q' \<subseteq> held_tokens p" by (auto simp: q')
qed simp

lemma wf_step_tokens:
  assumes inv: "wf_inv settings s" and step: "wf_step settings s s'"
  shows "wc_token ` set (sys_claims s) \<subseteq> wc_token ` set (sys_claims s')"
    and "held_tokens (sys_platform s') \<inter> wc_token ` set (sys_claims s) \<subseteq> held_tokens (sys_platform s)"
proof -
  have "wc_token ` set (sys_claims s) \<subseteq> wc_token ` set (sys_claims s') \<and>
      held_tokens (sys_platform s') \<inter> wc_token ` set (sys_claims s) \<subseteq> held_tokens (sys_platform s)"
    using step
  proof cases
    case (wf_start correlation request now p)
    have "held_tokens p \<subseteq> held_tokens (sys_platform s)"
      using wf_start(2) by (auto simp: workflow_start_def Let_def held_tokens_def new_workflow_def
          split: option.splits if_splits)
    with wf_start show ?thesis by auto
  next
    case (wf_claim i stg g token now p c)
    from wf_claim(2) obtain r r' where "r' = r\<lparr>wf_status := ''running'', wf_claim_token := Some token,
           wf_retry_at := None, wf_attempts := wf_attempts r + 1,
           wf_lease_until := Some (now + seconds 1800),
           wf_history := wf_history r @ [history_entry (wf_stage r) ''running'' now]\<rparr>"
      and p: "p = save_workflow now r' (sys_platform s)"
      by (rule workflow_claim_Some)
    with held_tokens_save_same [of now r' "sys_platform s"]
    have "held_tokens p \<subseteq> held_tokens (sys_platform s) \<union> {token}" by auto
    with wf_claim show ?thesis by auto
  next
    case (wf_finish c data repeat error blocked retry now p)
    from workflow_finish_row [OF inv wf_finish(2,3)] obtain r r' where
      "p = save_workflow now r' (sys_platform s)" and "wf_claim_token r' = None" by metis
    with held_tokens_save_same [of now r' "sys_platform s"] wf_finish show ?thesis by auto
  next
    case (wf_resume i now p)
    have "held_tokens p \<subseteq> held_tokens (sys_platform s)"
    proof (cases "p = sys_platform s")
      case False
      with wf_resume(2) obtain r where r: "find_workflow i (sys_platform s) = Some r"
        and p: "p = save_workflow now (r\<lparr>wf_status := ''pending'', wf_error_code := None,
                  wf_retry_at := None, wf_generation := wf_generation r + 1\<rparr>) (sys_platform s)"
        by (auto simp: workflow_resume_def workflow_state_Inr split: if_splits)
      have "{t. wf_claim_token r = Some t} \<subseteq> held_tokens (sys_platform s)"
        using find_workflow_in [OF r] by (auto simp: held_tokens_def)
      with held_tokens_save_same show ?thesis unfolding p by fastforce
    qed simp
    with wf_resume show ?thesis by auto
  next
    case (wf_cancel i now p)
    have "held_tokens p \<subseteq> held_tokens (sys_platform s)"
    proof (cases "p = sys_platform s")
      case False
      from wf_cancel(2) False show ?thesis
      proof (rule workflow_cancel_Inr)
        fix r d assume r: "find_workflow i (sys_platform s) = Some r"
          and p: "p = save_workflow now (r
              \<lparr>wf_status := ''cancelled'', wf_generation := wf_generation r + 1, wf_retry_at := None,
               wf_error_code := Some ''workflow_cancelled'',
               wf_history := wf_history r @ [(history_entry (wf_stage r) ''cancelled'' now)
                 (''error_code'' \<mapsto> JStr ''workflow_cancelled'')]\<rparr>) ((sys_platform s)\<lparr>pf_db := d\<rparr>)"
        have "{t. wf_claim_token r = Some t} \<subseteq> held_tokens (sys_platform s)"
          using find_workflow_in [OF r] by (auto simp: held_tokens_def)
        with held_tokens_save show ?thesis unfolding p by fastforce
      qed
    qed simp
    with wf_cancel show ?thesis by auto
  next
    case (wf_recover locked now p ids)
    then have "held_tokens p \<subseteq> held_tokens (sys_platform s)"
      by (auto simp: workflow_recoverable_def dest: held_tokens_expire)
    with wf_recover show ?thesis by auto
  next
    case (wf_exec d)
    then show ?thesis by (auto simp: held_tokens_def)
  qed
  then show "wc_token ` set (sys_claims s) \<subseteq> wc_token ` set (sys_claims s')"
    and "held_tokens (sys_platform s') \<inter> wc_token ` set (sys_claims s) \<subseteq> held_tokens (sys_platform s)"
    by simp_all
qed

lemma steps_spent:
  "(wf_step settings)\<^sup>*\<^sup>* s s' \<Longrightarrow> wf_inv settings s \<Longrightarrow> spent t s \<Longrightarrow> spent t s'"
proof (induction rule: rtranclp_induct)
  case base
  then show ?case by simp
next
  case (step u v)
  then have "wf_inv settings u" using workflows.steps_inv by blast
  from wf_step_tokens [OF this step(2)] step show ?case by (auto simp: spent_def)
qed

lemma spent_refused:
  assumes "spent (wc_token c) s"
  shows "workflow_finish settings c data repeat error blocked retry now (sys_platform s) =
    Inl (WorkflowError ''workflow_claim_lost'')"
proof (cases "find_workflow (wc_id c) (sys_platform s)")
  case None
  then show ?thesis by (simp add: workflow_finish_def)
next
  case (Some r)
  with assms have "wf_claim_token r \<noteq> Some (wc_token c)"
    by (auto simp: spent_def held_tokens_def dest!: find_workflow_in)
  with Some show ?thesis by (simp add: workflow_finish_def)
qed

lemma finish_spends:
  assumes inv: "wf_inv settings s" and c: "c \<in> set (sys_claims s)"
    and fin: "workflow_finish settings c data repeat error blocked retry now (sys_platform s) = Inr p"
  shows "spent (wc_token c) (s\<lparr>sys_platform := p\<rparr>)"
proof -
  from workflow_finish_row [OF assms] obtain r r' where r: "find_workflow (wc_id c) (sys_platform s) = Some r"
    and p: "p = save_workflow now r' (sys_platform s)" and id: "wf_id r' = wf_id r"
    and t: "wf_claim_token r' = None" by metis
  have "wf_claim_token q \<noteq> Some (wc_token c)" if q: "q \<in> set (pf_workflows p)" for q
  proof
    assume held: "wf_claim_token q = Some (wc_token c)"
    with q t have old: "q \<in> set (pf_workflows (sys_platform s))"
      by (auto simp: p dest!: save_workflow_rows)
    from inv old held obtain c' where "c' \<in> set (sys_claims s)" "wc_token c' = wc_token c" "wc_id c' = wf_id q"
      by (fastforce simp: wf_inv_def held_by_def)
    moreover from this inv c have "c' = c" by (metis distinct_map inj_onD wf_inv_def)
    ultimately have "wf_id q = wf_id r" using find_workflow_in [OF r] by simp
    moreover have "find_workflow (wf_id r') (sys_platform s) \<noteq> None" using r id find_workflow_in [OF r] by simp
    from find_save_workflow(1) [OF this, of now] obtain u where
      "find_workflow (wf_id r') p = Some (r'\<lparr>wf_updated_at := u\<rparr>)" unfolding p by blast
    moreover have "distinct (map wf_id (pf_workflows p))" using inv by (simp add: p wf_inv_def)
    then have "find_workflow (wf_id q) p = Some q" using q by (simp add: find_workflow_def fetch_distinct)
    ultimately have "q = r'\<lparr>wf_updated_at := u\<rparr>" using id by simp
    with held t show False by simp
  qed
  with c show ?thesis by (auto simp: spent_def held_tokens_def)
qed

end
