(* ===== verification/Workflow_Engine.thy ===== *)
theory Workflow_Engine
  imports Workflow_Invariants
begin

text \<open>
  \<^verbatim>\<open>app/orchestration/failures.py\<close> and \<^verbatim>\<open>app/orchestration/workflow.py\<close>: one
  delivery claims at most one stage, runs it, and records how it ended. The stage itself is an
  argument: a function from the claim and the platform to the platform it leaves and an outcome.
\<close>

section \<open>Classifying failures\<close>

datatype stage_error =
    LLMError string
  | GitHubError string int "int option"
  | TimeoutError
  | WorkflowFailure string
  | OtherError

definition SAFE_RETRY_STAGES :: "stage set" where
  "SAFE_RETRY_STAGES = {Repository, Issue, Context, Plan}"

definition github_codes :: "string list" where
  "github_codes =
     [''github_unavailable'', ''github_rate_limited'', ''github_response_error'',
      ''github_authentication_failed'', ''github_unauthorized'', ''github_forbidden'',
      ''github_not_found'', ''github_invalid_response'', ''github_issue_is_pull_request'']"

definition provider_failure :: "stage_error \<Rightarrow> string \<times> bool \<times> int" where
  "provider_failure e = (case e of
     LLMError c \<Rightarrow> (c, c \<in> {''llm_timeout'', ''llm_unavailable'', ''llm_rate_limited''}, 0)
   | GitHubError c status retry_after \<Rightarrow>
       (let error_code = (if c \<in> set github_codes then c else ''github_request_failed'');
            delay = max 0 (case retry_after of None \<Rightarrow> 0 | Some n \<Rightarrow> n)
        in (error_code,
            error_code \<in> {''github_unavailable'', ''github_rate_limited'', ''github_response_error''} \<and>
              status \<in> {429, 502, 503, 504} \<and> delay \<le> 3600,
            delay))
   | TimeoutError \<Rightarrow> (''workflow_timeout'', True, 0)
   | _ \<Rightarrow> (''workflow_stage_failed'', False, 0))"

section \<open>Advancing one stage\<close>

record stage_result =
  sr_data :: metadata
  sr_repeat :: bool

type_synonym stage_runner = "stage_claim \<Rightarrow> platform \<Rightarrow> platform \<times> (stage_error + stage_result)"

text \<open>The code, the block and the delay of a failed stage; \<open>tries\<close> is at least one.\<close>

definition retry_delay :: "workflow_settings \<Rightarrow> nat \<Rightarrow> int \<Rightarrow> int" where
  "retry_delay settings tries minimum_delay =
     max minimum_delay (min 3600 (set_retry_seconds settings * 2 ^ (tries - 1)))"

definition stage_failure ::
  "workflow_settings \<Rightarrow> stage \<Rightarrow> nat \<Rightarrow> stage_error \<Rightarrow> string \<times> bool \<times> int option" where
  "stage_failure settings s tries e = (case provider_failure e of (code0, retryable, minimum_delay) \<Rightarrow>
     let error_code = (case e of WorkflowFailure c \<Rightarrow> c | _ \<Rightarrow> code0);
         blocked0 = (s \<in> {Implement, Review} \<or> (case e of WorkflowFailure _ \<Rightarrow> True | _ \<Rightarrow> False));
         blocked = (if error_code \<in> {''llm_unconfigured'', ''workflow_embeddings_unconfigured''} then False
                    else blocked0);
         delay = (if retryable \<and> s \<in> SAFE_RETRY_STAGES \<and> \<not> blocked
                  then Some (retry_delay settings tries minimum_delay) else None)
     in (error_code, blocked, delay))"

text \<open>
  The end of \<open>advance\<close>: how the outcome of the stage is recorded. The attempts are read in a
  transaction of their own, only when a delay is computed.
\<close>

definition record_outcome ::
  "workflow_settings \<Rightarrow> stage_claim \<Rightarrow> stage_error + stage_result \<Rightarrow> time \<Rightarrow> platform \<Rightarrow>
    service_error + platform" where
  "record_outcome settings c outcome now p = (case outcome of
     Inr result \<Rightarrow> workflow_finish settings c (sr_data result) (sr_repeat result) None False None now p
   | Inl e \<Rightarrow>
       (case provider_failure e of (_, retryable, _) \<Rightarrow>
        bindE (if retryable \<and> wc_stage c \<in> SAFE_RETRY_STAGES
               then bindE (workflow_get (wc_id c) p) (\<lambda>status. Inr (ws_attempts status)) else Inr 1) (\<lambda>tries.
        case stage_failure settings (wc_stage c) tries e of (error_code, blocked, delay) \<Rightarrow>
        workflow_finish settings c Map.empty False (Some error_code) blocked delay now p)))"

text \<open>
  One delivery. A committed transaction stays even when a later one raises; the result is the
  platform left behind, the status or the error, and \<open>did_advance\<close>.
\<close>

definition engine_advance ::
  "workflow_settings \<Rightarrow> stage_runner \<Rightarrow> uuid \<Rightarrow> string option \<Rightarrow> nat option \<Rightarrow> uuid \<Rightarrow> time \<Rightarrow> time \<Rightarrow>
    platform \<Rightarrow> platform \<times> (service_error + workflow_status) \<times> bool" where
  "engine_advance settings run i expected_stage expected_generation token now later p =
     (case workflow_claim i expected_stage expected_generation token now p of
        Inl e \<Rightarrow> (p, Inl e, False)
      | Inr (p1, None) \<Rightarrow> (p1, workflow_get i p1, False)
      | Inr (p1, Some c) \<Rightarrow>
          (case run c p1 of (p2, outcome) \<Rightarrow>
           (case record_outcome settings c outcome later p2 of
              Inl e \<Rightarrow> (p2, Inl e, True)
            | Inr p3 \<Rightarrow> (p3, workflow_get i p3, True))))"

section \<open>What the classification guarantees\<close>

lemma provider_failure_delay:
  "provider_failure e = (c, True, d) \<Longrightarrow> 0 \<le> d \<and> d \<le> 3600"
  by (auto simp: provider_failure_def Let_def split: stage_error.splits)

lemma stage_failure_delay:
  assumes "stage_failure settings s tries e = (c, blocked, Some d)"
  shows "s \<in> SAFE_RETRY_STAGES" and "\<not> blocked" and "0 \<le> d" and "d \<le> 3600"
    and "min 3600 (set_retry_seconds settings * 2 ^ (tries - 1)) \<le> d"
  using assms provider_failure_delay [of e]
  by (auto simp: stage_failure_def retry_delay_def Let_def split: prod.splits if_splits)

text \<open>Side effects on source code or outside the machine are never retried automatically.\<close>

lemma stage_failure_unsafe:
  "s \<notin> SAFE_RETRY_STAGES \<Longrightarrow> snd (snd (stage_failure settings s tries e)) = None"
  by (auto simp: stage_failure_def Let_def split: prod.split)

lemma record_outcome_failed:
  assumes "record_outcome settings c (Inl e) now p = Inr p'"
  obtains tries error_code blocked delay
  where "stage_failure settings (wc_stage c) tries e = (error_code, blocked, delay)"
    and "workflow_finish settings c Map.empty False (Some error_code) blocked delay now p = Inr p'"
proof -
  from assms obtain tries where "(case stage_failure settings (wc_stage c) tries e of (error_code, blocked, delay) \<Rightarrow>
        workflow_finish settings c Map.empty False (Some error_code) blocked delay now p) = Inr p'"
    unfolding record_outcome_def sum.case by (cases "provider_failure e") (auto elim!: bindE_InrE)
  with that show thesis by (cases "stage_failure settings (wc_stage c) tries e") auto
qed

lemma finish_failed_status:
  assumes inv: "wf_inv settings s" and c: "c \<in> set (sys_claims s)" and error: "or_empty error \<noteq> []"
    and fin: "workflow_finish settings c data repeat error blocked delay now (sys_platform s) = Inr p"
  shows "\<exists>r. find_workflow (wc_id c) p = Some r \<and> wf_stage r = wc_stage c \<and>
    (if \<not> blocked \<and> delay \<noteq> None \<and> wf_status r = ''pending''
     then wf_retry_at r = Some (now + seconds (the delay))
     else wf_status r = (if blocked then ''blocked'' else ''failed'') \<and> wf_retry_at r = None)"
proof -
  from fin obtain r r0 r' where r: "find_workflow (wc_id c) (sys_platform s) = Some r"
    and t: "wf_claim_token r = Some (wc_token c)" and st: "wf_status r = ''running''"
    and r0: "r0 = r\<lparr>wf_history := wf_history r @ [(history_entry (wc_stage c)
                  (if or_empty error \<noteq> [] then ''failed'' else ''completed'') now)(''error_code'' \<mapsto> jopt error)],
               wf_data := wf_data r ++ data, wf_error_code := error, wf_claim_token := None,
               wf_lease_until := None, wf_generation := wf_generation r + 1\<rparr>"
    and f: "finish_stage settings c repeat error blocked delay now r0 = Inr r'"
    and p: "p = save_workflow now r' (sys_platform s)"
    by (rule workflow_finish_Inr) (rule that; assumption)
  have stage: "wf_stage r = wc_stage c" using live_claim [OF inv c r t] by simp
  have retry: "wf_retry_at r = None" using wf_inv_rows [OF inv r] st by (auto simp: row_ok_def)
  have id: "wf_id r' = wf_id r" "wf_stage r' = wf_stage r"
    and out: "if \<not> blocked \<and> delay \<noteq> None \<and> wf_status r' = ''pending''
     then wf_retry_at r' = Some (now + seconds (the delay))
     else wf_status r' = (if blocked then ''blocked'' else ''failed'') \<and> wf_retry_at r' = None"
    using f error retry
    by (auto simp: finish_stage_def r0 workflow_state_Inr split: if_splits)
  have "find_workflow (wf_id r') (sys_platform s) \<noteq> None" using r id find_workflow_in [OF r] by simp
  from find_save_workflow(1) [OF this] obtain u
    where "find_workflow (wf_id r') p = Some (r'\<lparr>wf_updated_at := u\<rparr>)" unfolding p by blast
  with id out stage find_workflow_in [OF r] show ?thesis by auto
qed

end
