(* ===== verification/Deliveries.thy ===== *)
theory Deliveries
  imports Execution_Trace
begin

text \<open>
  \<^verbatim>\<open>app/orchestration/deliveries.py\<close>: a queue may deliver a message twice, but the
  operation behind it runs once. The row of a delivery is written before the operation starts and
  is never removed; a second delivery reads its outcome, and an uncertain one is not replayed.
\<close>

section \<open>The table\<close>

record worker_delivery =
  wd_id :: uuid
  wd_task_name :: string
  wd_repository_id :: uuid
  wd_status :: string
  wd_lease_until :: time
  wd_result :: metadata
  wd_error_code :: "string option"

type_synonym deliveries = "worker_delivery list"

definition find_delivery :: "uuid \<Rightarrow> deliveries \<Rightarrow> worker_delivery option" where
  "find_delivery i ds = fetch wd_id i ds"

record delivery_view =
  dv_id :: uuid
  dv_task_name :: string
  dv_repository_id :: uuid
  dv_status :: string
  dv_error_code :: "string option"
  dv_result :: metadata

definition delivery_get :: "uuid \<Rightarrow> deliveries \<Rightarrow> service_error + delivery_view" where
  "delivery_get i ds = bindE (someE RecordNotFound (find_delivery i ds)) (\<lambda>r.
     Inr \<lparr>dv_id = wd_id r, dv_task_name = wd_task_name r, dv_repository_id = wd_repository_id r,
          dv_status = wd_status r, dv_error_code = wd_error_code r, dv_result = wd_result r\<rparr>)"

section \<open>Executing a delivery\<close>

text \<open>The first transaction grants the operation, or answers without it.\<close>

datatype grant = Granted | Answer metadata

definition delivery_claim ::
  "uuid \<Rightarrow> string \<Rightarrow> uuid \<Rightarrow> time \<Rightarrow> deliveries \<Rightarrow> service_error + deliveries \<times> grant" where
  "delivery_claim i task repository now ds = (case find_delivery i ds of
     None \<Rightarrow> Inr (ds @ [\<lparr>wd_id = i, wd_task_name = task, wd_repository_id = repository,
               wd_status = ''running'', wd_lease_until = now + seconds 1800, wd_result = Map.empty,
               wd_error_code = None\<rparr>], Granted)
   | Some r \<Rightarrow>
       if wd_task_name r \<noteq> task \<or> wd_repository_id r \<noteq> repository
       then Inl (InvalidTransition ''delivery_identity_conflict'')
       else if wd_status r = ''completed'' then Inr (ds, Answer (wd_result r))
       else if wd_status r = ''failed'' then Inl (InvalidTransition ''delivery_failed_requires_inspection'')
       else Inr (ds, Answer [''repository_id'' \<mapsto> JId repository, ''status'' \<mapsto> JStr ''running'',
              ''duplicate'' \<mapsto> JBool True]))"

definition delivery_finish ::
  "uuid \<Rightarrow> metadata \<Rightarrow> string option \<Rightarrow> deliveries \<Rightarrow> service_error + deliveries" where
  "delivery_finish i outcome error ds =
     bindE (someE (InvalidTransition ''delivery_claim_lost'') (find_delivery i ds)) (\<lambda>r.
     bindE (requireE (InvalidTransition ''delivery_claim_lost'') (wd_status r = ''running'')) (\<lambda>_.
     Inr (put wd_id (r\<lparr>wd_status := if or_empty error \<noteq> [] then ''failed'' else ''completed'',
                       wd_result := outcome, wd_error_code := error\<rparr>) ds)))"

text \<open>
  The operation is a function on the rest of the world that may see and change the table too (other
  workers run meanwhile); its failures are those the code tells apart.
\<close>

datatype operation_error = Embedding_unconfigured | Operation_failed

type_synonym 'w operation = "deliveries \<times> 'w \<Rightarrow> (deliveries \<times> 'w) \<times> (operation_error + metadata)"

definition delivery_settle ::
  "uuid \<Rightarrow> operation_error + metadata \<Rightarrow> deliveries \<Rightarrow> deliveries \<times> (service_error + metadata)" where
  "delivery_settle i outcome ds = (case outcome of
     Inl Embedding_unconfigured \<Rightarrow> (case delivery_finish i Map.empty (Some ''embedding_unconfigured'') ds of
        Inl e \<Rightarrow> (ds, Inl e) | Inr ds' \<Rightarrow> (ds', Inl (EmbeddingUnconfigured
          ''embedding_unconfigured: set LLM_API_KEY and EMBEDDING_MODEL'')))
   | Inl Operation_failed \<Rightarrow> (case delivery_finish i Map.empty (Some ''repository_delivery_failed'') ds of
        Inl e \<Rightarrow> (ds, Inl e) | Inr ds' \<Rightarrow> (ds', Inl (RuntimeError ''repository_delivery_failed'')))
   | Inr m \<Rightarrow> (case delivery_finish i m None ds of Inl e \<Rightarrow> (ds, Inl e) | Inr ds' \<Rightarrow> (ds', Inr m)))"

definition delivery_execute ::
  "uuid \<Rightarrow> string \<Rightarrow> uuid \<Rightarrow> 'w operation \<Rightarrow> time \<Rightarrow> deliveries \<times> 'w \<Rightarrow>
    (deliveries \<times> 'w) \<times> (service_error + metadata)" where
  "delivery_execute i task repository operation now st = (case st of (ds, w) \<Rightarrow>
     case delivery_claim i task repository now ds of
       Inl e \<Rightarrow> ((ds, w), Inl e)
     | Inr (ds1, Answer m) \<Rightarrow> ((ds1, w), Inr m)
     | Inr (ds1, Granted) \<Rightarrow>
         (case operation (ds1, w) of ((ds2, w2), outcome) \<Rightarrow>
          case delivery_settle i outcome ds2 of (ds3, answer) \<Rightarrow> ((ds3, w2), answer)))"

definition expired_delivery :: "time \<Rightarrow> worker_delivery \<Rightarrow> bool" where
  "expired_delivery now r \<longleftrightarrow> wd_status r = ''running'' \<and> wd_lease_until r < now"

definition delivery_recover :: "uuid list \<Rightarrow> time \<Rightarrow> deliveries \<Rightarrow> deliveries \<times> nat" where
  "delivery_recover locked now ds =
     (let rows = take 100 (filter (\<lambda>r. wd_id r \<notin> set locked) (filter (expired_delivery now) ds))
      in (put_all wd_id (map (\<lambda>r. r\<lparr>wd_status := ''failed'', wd_error_code := Some ''worker_interrupted''\<rparr>) rows) ds,
          length rows))"

section \<open>Every sequence of transactions\<close>

text \<open>The table together with the deliveries granted so far, in order.\<close>

record dl_system =
  dl_table :: deliveries
  dl_granted :: "uuid list"

inductive dl_step :: "dl_system \<Rightarrow> dl_system \<Rightarrow> bool" where
  dl_claim: "delivery_claim i task repository now (dl_table s) = Inr (ds, g) \<Longrightarrow>
    dl_step s \<lparr>dl_table = ds, dl_granted = dl_granted s @ (if g = Granted then [i] else [])\<rparr>"
| dl_finish: "delivery_finish i outcome error (dl_table s) = Inr ds \<Longrightarrow> dl_step s (s\<lparr>dl_table := ds\<rparr>)"
| dl_recover: "delivery_recover locked now (dl_table s) = (ds, n) \<Longrightarrow> dl_step s (s\<lparr>dl_table := ds\<rparr>)"

definition dl_inv :: "dl_system \<Rightarrow> bool" where
  "dl_inv s \<longleftrightarrow> map wd_id (dl_table s) = dl_granted s \<and> distinct (dl_granted s) \<and>
     (\<forall>r \<in> set (dl_table s). wd_status r \<in> {''running'', ''completed'', ''failed''} \<and>
        (wd_status r = ''completed'' \<longrightarrow> or_empty (wd_error_code r) = []))"

lemma dl_step_inv:
  assumes inv: "dl_inv s" and step: "dl_step s s'"
  shows "dl_inv s'"
  using step
proof cases
  case (dl_claim i task repository now ds g)
  show ?thesis
  proof (cases "find_delivery i (dl_table s)")
    case None
    then have "i \<notin> set (map wd_id (dl_table s))" by (simp add: find_delivery_def fetch_None)
    moreover have "set (map wd_id (dl_table s)) = set (dl_granted s)" using inv by (simp add: dl_inv_def)
    ultimately have "i \<notin> set (dl_granted s)" by simp
    with None dl_claim inv show ?thesis by (auto simp: dl_inv_def delivery_claim_def or_empty_def)
  next
    case (Some r)
    with dl_claim inv show ?thesis by (auto simp: dl_inv_def delivery_claim_def split: if_splits)
  qed
next
  case (dl_finish i outcome error ds)
  from dl_finish(2) obtain r where r: "find_delivery i (dl_table s) = Some r"
    and ds: "ds = put wd_id (r\<lparr>wd_status := if or_empty error \<noteq> [] then ''failed'' else ''completed'',
                       wd_result := outcome, wd_error_code := error\<rparr>) (dl_table s)"
    by (auto simp: delivery_finish_def)
  have "\<forall>x \<in> set ds. wd_status x \<in> {''running'', ''completed'', ''failed''} \<and>
        (wd_status x = ''completed'' \<longrightarrow> or_empty (wd_error_code x) = [])"
    using inv unfolding ds dl_inv_def by (auto dest!: in_set_putD)
  with inv dl_finish(1) show ?thesis by (auto simp: dl_inv_def ds)
next
  case (dl_recover locked now ds n)
  let ?rows = "take 100 (filter (\<lambda>r. wd_id r \<notin> set locked) (filter (expired_delivery now) (dl_table s)))"
  let ?new = "map (\<lambda>r. r\<lparr>wd_status := ''failed'', wd_error_code := Some ''worker_interrupted''\<rparr>) ?rows"
  from dl_recover(2) have ds: "ds = put_all wd_id ?new (dl_table s)"
    by (simp add: delivery_recover_def Let_def)
  have "distinct (map wd_id (dl_table s))" using inv by (simp add: dl_inv_def)
  then have "distinct (map wd_id ?rows)"
    unfolding take_map [symmetric] by (intro distinct_take) (simp add: distinct_map_filter)
  then have "distinct (map wd_id ?new)" by (simp add: comp_def)
  then have mapped: "ds = map (overwrite wd_id ?new) (dl_table s)" unfolding ds by (rule put_all_overwrite)
  have changed: "overwrite wd_id ?new x = x \<or> wd_status (overwrite wd_id ?new x) = ''failed''" for x
  proof (cases "fetch wd_id (wd_id x) ?new")
    case (Some r)
    then have "r \<in> set ?new" by (auto dest: fetch_SomeD)
    with Some show ?thesis by (auto simp: overwrite_def)
  qed (simp add: overwrite_def)
  have "\<forall>x \<in> set ds. x \<in> set (dl_table s) \<or> wd_status x = ''failed''"
  proof
    fix x assume "x \<in> set ds"
    then obtain y where y: "y \<in> set (dl_table s)" and "x = overwrite wd_id ?new y"
      unfolding mapped set_map by (rule imageE)
    with changed [of y] show "x \<in> set (dl_table s) \<or> wd_status x = ''failed''" by metis
  qed
  with inv have "\<forall>x \<in> set ds. wd_status x \<in> {''running'', ''completed'', ''failed''} \<and>
        (wd_status x = ''completed'' \<longrightarrow> or_empty (wd_error_code x) = [])"
    unfolding dl_inv_def by fastforce
  with inv dl_recover(1) show ?thesis by (auto simp: dl_inv_def ds)
qed

interpretation deliveries: invariant_system "\<lambda>s. dl_table s = [] \<and> dl_granted s = []" dl_step dl_inv
  by unfold_locales (simp add: dl_inv_def, rule dl_step_inv)

text \<open>A repeated delivery after a completed one returns the stored result and changes nothing.\<close>

lemma delivery_claim_replay:
  assumes "find_delivery i ds = Some r" and "wd_status r = ''completed''"
    and "wd_task_name r = task" and "wd_repository_id r = repository"
  shows "delivery_execute i task repository operation now (ds, w) = ((ds, w), Inr (wd_result r))"
  using assms by (simp add: delivery_execute_def delivery_claim_def)

end
