(* ===== verification/Workflow_Properties.thy ===== *)
theory Workflow_Properties
  imports Workflow_Engine Deliveries Example_Run
begin

text \<open>
  The properties of workflows and deliveries, over every sequence of their transactions: a claim
  ends once, attempts stay within the limit, stages only move forward, a failure in a stage with
  effects is never retried automatically, a stale message does nothing, and a delivery runs its
  operation at most once. The example is one workflow whose first stage fails once and succeeds
  when it is retried.
\<close>

section \<open>An example\<close>

definition sample_settings :: workflow_settings where
  "sample_settings = \<lparr>set_required_tests = [''pytest''], set_retry_seconds = 30, set_stage_attempts = 2\<rparr>"

definition sample_request :: workflow_request where
  "sample_request = \<lparr>wr_request_id = 60, wr_github_owner = ''o'', wr_github_name = ''n'',
     wr_issue_number = 7, wr_publish_pull_request = False\<rparr>"

definition sample_row :: workflow_run where
  "sample_row = new_workflow sample_settings ''corr'' sample_request 100"

definition sample_claimed :: workflow_run where
  "sample_claimed = sample_row\<lparr>wf_status := ''running'', wf_claim_token := Some 61, wf_attempts := 1,
     wf_lease_until := Some (110 + seconds 1800),
     wf_history := [history_entry Repository ''running'' 110], wf_updated_at := 110\<rparr>"

definition sample_claim :: stage_claim where
  "sample_claim = \<lparr>wc_id = 60, wc_token = 61, wc_stage = Repository, wc_request = sample_request,
     wc_data = wf_data sample_row\<rparr>"

definition sample_waiting :: workflow_run where
  "sample_waiting = sample_claimed\<lparr>wf_status := ''pending'', wf_claim_token := None,
     wf_lease_until := None, wf_generation := 1, wf_retry_at := Some (120 + seconds 30),
     wf_error_code := Some ''github_unavailable'',
     wf_history := [history_entry Repository ''running'' 110,
       (history_entry Repository ''failed'' 120)(''error_code'' \<mapsto> JStr ''github_unavailable'')],
     wf_updated_at := 120\<rparr>"

definition with_rows :: "workflow_run list \<Rightarrow> platform" where
  "with_rows rs = \<lparr>pf_db = example_db, pf_workflows = rs\<rparr>"

definition system_empty :: wf_system where
  "system_empty = \<lparr>sys_platform = with_rows [], sys_claims = []\<rparr>"

definition system_claimed :: wf_system where
  "system_claimed = \<lparr>sys_platform = with_rows [sample_claimed], sys_claims = [sample_claim]\<rparr>"

definition system_waiting :: wf_system where
  "system_waiting = \<lparr>sys_platform = with_rows [sample_waiting], sys_claims = [sample_claim]\<rparr>"

lemmas sample_defs = sample_settings_def sample_request_def sample_row_def sample_claimed_def
  sample_claim_def sample_waiting_def with_rows_def new_workflow_def

lemma sample_start:
  "workflow_start sample_settings ''corr'' sample_request 100 (with_rows []) = Inr (with_rows [sample_row])"
  by (simp add: workflow_start_def sample_defs find_workflow_def fetch_def)

lemma sample_claiming:
  "workflow_claim 60 (Some ''repository'') (Some 0) 61 110 (with_rows [sample_row]) =
     Inr (with_rows [sample_claimed], Some sample_claim)"
  by (simp add: workflow_claim_def sample_defs find_workflow_def fetch_def claimable_def
      workflow_state_def check_def edge_simps save_workflow_def put_def)

lemma sample_failing:
  "record_outcome sample_settings sample_claim (Inl (GitHubError ''github_unavailable'' 503 None)) 120
     (with_rows [sample_claimed]) = Inr (with_rows [sample_waiting])"
  by (simp add: record_outcome_def provider_failure_def github_codes_def stage_failure_def
      SAFE_RETRY_STAGES_def retry_delay_def workflow_get_def workflow_finish_def finish_stage_def
      sample_defs find_workflow_def fetch_def or_empty_def workflow_state_def check_def edge_simps
      save_workflow_def put_def jopt_def)

lemma sample_finish:
  "workflow_finish sample_settings sample_claim Map.empty False (Some ''github_unavailable'') False
     (Some 30) 120 (with_rows [sample_claimed]) = Inr (with_rows [sample_waiting])"
  by (simp add: workflow_finish_def finish_stage_def
      sample_defs find_workflow_def fetch_def or_empty_def workflow_state_def check_def edge_simps
      save_workflow_def put_def jopt_def)

lemma sample_init: "wf_init sample_settings system_empty"
  by (simp add: wf_init_def system_empty_def with_rows_def sample_settings_def example_no_executions)

lemma reach_claimed: "(wf_step sample_settings)\<^sup>*\<^sup>* system_empty system_claimed"
proof -
  have "wf_step sample_settings system_empty (system_empty\<lparr>sys_platform := with_rows [sample_row]\<rparr>)"
    using wf_start [of sample_settings "''corr''" sample_request 100 system_empty]
    by (simp add: system_empty_def sample_start)
  moreover have "wf_step sample_settings (system_empty\<lparr>sys_platform := with_rows [sample_row]\<rparr>) system_claimed"
    using wf_claim [of 60 "Some ''repository''" "Some 0" 61 110
        "system_empty\<lparr>sys_platform := with_rows [sample_row]\<rparr>"]
    by (simp add: system_empty_def system_claimed_def sample_claiming)
  ultimately show ?thesis by (meson converse_rtranclp_into_rtranclp rtranclp.rtrancl_refl)
qed

lemma step_waiting: "wf_step sample_settings system_claimed system_waiting"
  using wf_finish [of sample_claim system_claimed] sample_finish
  by (simp add: system_claimed_def system_waiting_def)

lemma reach_waiting: "(wf_step sample_settings)\<^sup>*\<^sup>* system_empty system_waiting"
  using reach_claimed step_waiting by (rule rtranclp.rtrancl_into_rtrancl)

section \<open>Claims\<close>

text \<open>A claim whose row does not run under its token is spent.\<close>

lemma lost_claim_spent:
  assumes inv: "wf_inv settings s" and c: "c \<in> set (sys_claims s)"
    and lost: "\<forall>r. find_workflow (wc_id c) (sys_platform s) = Some r \<longrightarrow> wf_status r \<noteq> ''running''"
  shows "spent (wc_token c) s"
proof -
  have "wf_claim_token q \<noteq> Some (wc_token c)" if q: "q \<in> set (pf_workflows (sys_platform s))" for q
  proof
    assume held: "wf_claim_token q = Some (wc_token c)"
    with inv q obtain c' where "c' \<in> set (sys_claims s)" "wc_token c' = wc_token c" "wc_id c' = wf_id q"
      by (fastforce simp: wf_inv_def held_by_def)
    moreover from this inv c have "c' = c" by (metis distinct_map inj_onD wf_inv_def)
    moreover from inv q have "find_workflow (wf_id q) (sys_platform s) = Some q"
      by (simp add: wf_inv_def find_workflow_def fetch_distinct)
    ultimately have "wf_status q \<noteq> ''running''" using lost by simp
    with inv q held show False by (auto simp: wf_inv_def row_ok_def)
  qed
  with c show ?thesis by (auto simp: spent_def held_tokens_def)
qed

text \<open>C13. Fencing: once the workflow of an issued claim is not running any more (the claim was
  finished, its lease expired and recovery took it, or the workflow was cancelled), no later sequence
  of transactions, other claims of the same workflow included, lets a finish under that claim be
  accepted.\<close>

theorem lost_claim_refused:
  assumes init: "wf_init settings s0" and steps: "(wf_step settings)\<^sup>*\<^sup>* s0 s"
    and c: "c \<in> set (sys_claims s)"
    and lost: "\<forall>r. find_workflow (wc_id c) (sys_platform s) = Some r \<longrightarrow> wf_status r \<noteq> ''running''"
    and later: "(wf_step settings)\<^sup>*\<^sup>* s s'"
  shows "workflow_finish settings c data repeat error blocked retry now (sys_platform s') =
    Inl (WorkflowError ''workflow_claim_lost'')"
proof (rule spent_refused)
  have inv: "wf_inv settings s" using init steps by (rule workflows.reach_inv)
  from later inv lost_claim_spent [OF inv c lost] show "spent (wc_token c) s'" by (rule steps_spent)
qed

theorem lost_claim_refused_witness:
  "workflow_finish sample_settings sample_claim Map.empty False None False None 130
     (sys_platform system_waiting) = Inl (WorkflowError ''workflow_claim_lost'')"
  by (rule lost_claim_refused [OF sample_init reach_waiting])
    (simp_all add: system_waiting_def with_rows_def sample_claim_def find_workflow_def fetch_def
      sample_waiting_def)

text \<open>A claim ends at most once: after a finish under it was accepted, every later one is
  refused, whatever happened in between.\<close>

theorem claim_finishes_once:
  assumes init: "wf_init settings s0" and steps: "(wf_step settings)\<^sup>*\<^sup>* s0 s"
    and c: "c \<in> set (sys_claims s)"
    and fin: "workflow_finish settings c data repeat error blocked retry now (sys_platform s) = Inr p"
    and later: "(wf_step settings)\<^sup>*\<^sup>* (s\<lparr>sys_platform := p\<rparr>) s'"
  shows "workflow_finish settings c data2 repeat2 error2 blocked2 retry2 now2 (sys_platform s') =
    Inl (WorkflowError ''workflow_claim_lost'')"
proof (rule spent_refused)
  have inv: "wf_inv settings s" using init steps by (rule workflows.reach_inv)
  have "wf_step settings s (s\<lparr>sys_platform := p\<rparr>)" using c fin by (rule wf_finish)
  with inv have "wf_inv settings (s\<lparr>sys_platform := p\<rparr>)" by (rule wf_step_inv)
  from later this finish_spends [OF inv c fin] show "spent (wc_token c) s'" by (rule steps_spent)
qed

theorem claim_finishes_once_witness:
  "workflow_finish sample_settings sample_claim [''repository_id'' \<mapsto> JId 1] False None False None 130
     (with_rows [sample_waiting]) = Inl (WorkflowError ''workflow_claim_lost'')"
proof -
  have c: "sample_claim \<in> set (sys_claims system_claimed)" by (simp add: system_claimed_def)
  have fin: "workflow_finish sample_settings sample_claim Map.empty False (Some ''github_unavailable'')
      False (Some 30) 120 (sys_platform system_claimed) = Inr (with_rows [sample_waiting])"
    by (simp add: system_claimed_def sample_finish)
  from claim_finishes_once [OF sample_init reach_claimed c fin rtranclp.rtrancl_refl]
  show ?thesis by simp
qed

section \<open>Rows\<close>

text \<open>C35. In every reachable state a workflow row is consistent: its status is one of the six, it
  carries a claim token and a lease exactly while it runs, it has a retry time only while it is
  pending, its attempts never exceed the configured limit and are below it while it is pending, and
  it is completed exactly when its stage is the last.\<close>

theorem workflow_rows_consistent:
  assumes "wf_init settings s0" and "(wf_step settings)\<^sup>*\<^sup>* s0 s"
    and "r \<in> set (pf_workflows (sys_platform s))"
  shows "wf_status r \<in> {''pending'', ''running'', ''failed'', ''blocked'', ''completed'', ''cancelled''} \<and>
    (wf_status r = ''running'' \<longleftrightarrow> wf_claim_token r \<noteq> None) \<and>
    (wf_status r = ''running'' \<longleftrightarrow> wf_lease_until r \<noteq> None) \<and>
    (wf_retry_at r \<noteq> None \<longrightarrow> wf_status r = ''pending'') \<and>
    wf_attempts r \<le> set_stage_attempts settings \<and>
    (wf_status r = ''pending'' \<longrightarrow> wf_attempts r < set_stage_attempts settings) \<and>
    (wf_status r = ''completed'' \<longleftrightarrow> wf_stage r = Done)"
proof -
  have "wf_inv settings s" using assms(1,2) by (rule workflows.reach_inv)
  with assms(3) have "row_ok (set_stage_attempts settings) r" by (simp add: wf_inv_def)
  then show ?thesis unfolding row_ok_def workflow_known by blast
qed

theorem workflow_rows_consistent_witness:
  "wf_attempts sample_waiting < set_stage_attempts sample_settings"
proof -
  have "sample_waiting \<in> set (pf_workflows (sys_platform system_waiting))"
    by (simp add: system_waiting_def with_rows_def)
  from workflow_rows_consistent [OF sample_init reach_waiting this] show ?thesis
    by (simp add: sample_waiting_def)
qed

text \<open>Workflows only move forward: in every sequence of transactions from a reachable state a
  workflow is never removed, keeps its request, its stage and its generation never go back, and a
  completed or cancelled workflow stays so.\<close>

theorem workflow_moves_forward:
  assumes "wf_init settings s0" and "(wf_step settings)\<^sup>*\<^sup>* s0 s" and "(wf_step settings)\<^sup>*\<^sup>* s s'"
    and "find_workflow i (sys_platform s) = Some r"
  shows "\<exists>r'. find_workflow i (sys_platform s') = Some r' \<and> wf_request r' = wf_request r \<and>
    wf_stage r \<le> wf_stage r' \<and> wf_generation r \<le> wf_generation r' \<and>
    (wf_status r \<in> {''completed'', ''cancelled''} \<longrightarrow> wf_status r' = wf_status r)"
proof -
  have "wf_inv settings s" using assms(1,2) by (rule workflows.reach_inv)
  with assms(3) have "advanced (sys_platform s) (sys_platform s')" by (rule steps_advanced)
  with assms(4) show ?thesis by (fastforce simp: advanced_def wf_moves_def)
qed

theorem workflow_moves_forward_witness:
  "\<exists>r. find_workflow 60 (sys_platform system_waiting) = Some r \<and> wf_request r = sample_request \<and>
     Repository \<le> wf_stage r"
proof -
  have "find_workflow 60 (sys_platform system_claimed) = Some sample_claimed"
    by (simp add: system_claimed_def with_rows_def find_workflow_def fetch_def sample_claimed_def
        sample_row_def new_workflow_def sample_request_def)
  moreover have "(wf_step sample_settings)\<^sup>*\<^sup>* system_claimed system_waiting"
    using step_waiting by (rule r_into_rtranclp)
  ultimately show ?thesis using workflow_moves_forward [OF sample_init reach_claimed]
    by (fastforce simp: sample_claimed_def sample_row_def new_workflow_def)
qed

section \<open>Failures\<close>

text \<open>How a failed stage is left: outside the stages repository, issue, context and plan it is
  never pending again by itself; in these it is retried, after a delay of at most an hour and at least
  the exponential backoff, only while attempts are left; otherwise the workflow is failed, or blocked,
  with no retry time. The stage does not change.\<close>

theorem failed_stage_outcome:
  assumes init: "wf_init settings s0" and steps: "(wf_step settings)\<^sup>*\<^sup>* s0 s"
    and c: "c \<in> set (sys_claims s)"
    and fin: "record_outcome settings c (Inl e) now (sys_platform s) = Inr p"
    and code: "e \<noteq> LLMError []" "e \<noteq> WorkflowFailure []"
  shows "\<exists>r. find_workflow (wc_id c) p = Some r \<and> wf_stage r = wc_stage c \<and>
    (if wf_status r = ''pending''
     then wc_stage c \<in> SAFE_RETRY_STAGES \<and> wf_attempts r < set_stage_attempts settings \<and>
       (\<exists>delay tries. wf_retry_at r = Some (now + seconds delay) \<and> 0 \<le> delay \<and> delay \<le> 3600 \<and>
          min 3600 (set_retry_seconds settings * 2 ^ (tries - 1)) \<le> delay)
     else wf_status r \<in> {''failed'', ''blocked''} \<and> wf_retry_at r = None)"
proof -
  have inv: "wf_inv settings s" using init steps by (rule workflows.reach_inv)
  from fin obtain tries error_code blocked delay
    where f: "stage_failure settings (wc_stage c) tries e = (error_code, blocked, delay)"
      and w: "workflow_finish settings c Map.empty False (Some error_code) blocked delay now
        (sys_platform s) = Inr p"
    by (rule record_outcome_failed)
  have error: "or_empty (Some error_code) \<noteq> []"
    using f code by (auto simp: stage_failure_def provider_failure_def or_empty_def github_codes_def Let_def
        split: stage_error.splits if_splits)
  from finish_failed_status [OF inv c error w] obtain r
    where r: "find_workflow (wc_id c) p = Some r" "wf_stage r = wc_stage c"
      and out: "if \<not> blocked \<and> delay \<noteq> None \<and> wf_status r = ''pending''
        then wf_retry_at r = Some (now + seconds (the delay))
        else wf_status r = (if blocked then ''blocked'' else ''failed'') \<and> wf_retry_at r = None"
    by blast
  have "wf_step settings s (s\<lparr>sys_platform := p\<rparr>)" using c w by (rule wf_finish)
  with inv have "wf_inv settings (s\<lparr>sys_platform := p\<rparr>)" by (rule wf_step_inv)
  then have row: "wf_status r = ''pending'' \<Longrightarrow> wf_attempts r < set_stage_attempts settings"
    using find_workflow_in [OF r(1)] by (simp add: wf_inv_def row_ok_def)
  show ?thesis
  proof (cases "wf_status r = ''pending''")
    case True
    with out obtain d where d: "delay = Some d" and "wf_retry_at r = Some (now + seconds d)"
      by (auto split: if_splits)
    with r True row stage_failure_delay [OF f [unfolded d]] show ?thesis by auto
  next
    case False
    with r out show ?thesis by (auto split: if_splits)
  qed
qed

theorem failed_stage_outcome_witness:
  "\<exists>r. find_workflow 60 (with_rows [sample_waiting]) = Some r \<and> wf_stage r = Repository"
proof -
  have c: "sample_claim \<in> set (sys_claims system_claimed)" by (simp add: system_claimed_def)
  have fin: "record_outcome sample_settings sample_claim (Inl (GitHubError ''github_unavailable'' 503 None))
      120 (sys_platform system_claimed) = Inr (with_rows [sample_waiting])"
    by (simp add: system_claimed_def sample_failing)
  from failed_stage_outcome [OF sample_init reach_claimed c fin] show ?thesis
    by (auto simp: sample_claim_def)
qed

text \<open>A message of the queue is a hint: when the workflow is not pending, or is at another stage
  or generation than the message says, or its retry time has not come, a delivery runs no stage and
  leaves the whole platform as it was.\<close>

theorem stale_message_ignored:
  assumes "find_workflow i p = Some r"
    and "wf_status r \<noteq> ''pending'' \<or> (\<exists>s. expected_stage = Some s \<and> stage_name (wf_stage r) \<noteq> s) \<or>
      (\<exists>g. expected_generation = Some g \<and> wf_generation r \<noteq> g) \<or> (\<exists>t. wf_retry_at r = Some t \<and> now < t)"
  shows "engine_advance settings run i expected_stage expected_generation token now later p =
    (p, workflow_get i p, False)"
proof -
  from assms(2) have "\<not> claimable expected_stage expected_generation now r"
    by (auto simp: claimable_def)
  with assms(1) show ?thesis by (simp add: engine_advance_def workflow_claim_def)
qed

theorem stale_message_ignored_witness:
  "\<forall>run. engine_advance sample_settings run 60 None (Some 0) 62 200 210 (with_rows [sample_waiting]) =
    (with_rows [sample_waiting], workflow_get 60 (with_rows [sample_waiting]), False)"
proof
  fix run
  have "find_workflow 60 (with_rows [sample_waiting]) = Some sample_waiting"
    "wf_generation sample_waiting = 1"
    by (simp_all add: sample_defs find_workflow_def fetch_def)
  then show "engine_advance sample_settings run 60 None (Some 0) 62 200 210 (with_rows [sample_waiting]) =
    (with_rows [sample_waiting], workflow_get 60 (with_rows [sample_waiting]), False)"
    by (intro stale_message_ignored) auto
qed

section \<open>Deliveries\<close>

text \<open>C38. At most once: over every sequence of claims, endings and recoveries of standalone
  deliveries, no delivery is granted its operation twice, and a delivery that was granted once never
  runs an operation again: the answer of a repeated one depends on the table only, and neither the
  table nor the rest of the world changes.\<close>

theorem delivery_operates_once:
  assumes "dl_table s0 = [] \<and> dl_granted s0 = []" and "dl_step\<^sup>*\<^sup>* s0 s"
  shows "distinct (dl_granted s) \<and>
    (\<forall>i \<in> set (dl_granted s). \<exists>answer. \<forall>operation w.
       delivery_execute i task repository operation now (dl_table s, w) = ((dl_table s, w), answer))"
proof (intro conjI ballI)
  have inv: "dl_inv s" using assms by (rule deliveries.reach_inv)
  then show "distinct (dl_granted s)" by (simp add: dl_inv_def)
  fix i assume "i \<in> set (dl_granted s)"
  with inv have "i \<in> wd_id ` set (dl_table s)" by (metis dl_inv_def list.set_map)
  then have "find_delivery i (dl_table s) \<noteq> None" by (auto simp: find_delivery_def fetch_None)
  then obtain r where "find_delivery i (dl_table s) = Some r" by blast
  then show "\<exists>answer. \<forall>operation w.
      delivery_execute i task repository operation now (dl_table s, w) = ((dl_table s, w), answer)"
    by (auto simp: delivery_execute_def delivery_claim_def)
qed

definition sample_delivery :: worker_delivery where
  "sample_delivery = \<lparr>wd_id = 70, wd_task_name = ''embed'', wd_repository_id = 3,
     wd_status = ''running'', wd_lease_until = seconds 1800, wd_result = Map.empty, wd_error_code = None\<rparr>"

theorem delivery_operates_once_witness:
  "\<exists>answer. \<forall>operation (w :: unit).
     delivery_execute 70 ''embed'' 3 operation 5 ([sample_delivery], w) = (([sample_delivery], w), answer)"
proof -
  let ?s = "\<lparr>dl_table = [], dl_granted = []\<rparr>"
  have "delivery_claim 70 ''embed'' 3 0 (dl_table ?s) = Inr ([sample_delivery], Granted)"
    by (simp add: delivery_claim_def find_delivery_def fetch_def sample_delivery_def)
  then have "dl_step ?s \<lparr>dl_table = [sample_delivery], dl_granted = [70]\<rparr>"
    using dl_claim [of 70 "''embed''" 3 0 ?s "[sample_delivery]" Granted] by simp
  then have reach: "dl_step\<^sup>*\<^sup>* ?s \<lparr>dl_table = [sample_delivery], dl_granted = [70]\<rparr>"
    by (rule r_into_rtranclp)
  have "distinct (dl_granted \<lparr>dl_table = [sample_delivery], dl_granted = [70]\<rparr>) \<and>
    (\<forall>i \<in> set (dl_granted \<lparr>dl_table = [sample_delivery], dl_granted = [70]\<rparr>). \<exists>answer. \<forall>operation (w :: unit).
      delivery_execute i ''embed'' 3 operation 5 (dl_table \<lparr>dl_table = [sample_delivery], dl_granted = [70]\<rparr>, w) =
      ((dl_table \<lparr>dl_table = [sample_delivery], dl_granted = [70]\<rparr>, w), answer))"
    by (rule delivery_operates_once [OF _ reach]) simp
  then show ?thesis by simp
qed

end
