(* ===== verification/Effects.thy ===== *)
theory Effects
  imports Text Models
begin

text \<open>
  The services outside the transactions: they run commands, call models and hold locks, and
  what they did before an exception stays done. An effect is a function from the state to an
  outcome and the state it leaves, so \<open>try\<close>, \<open>except\<close> and \<open>finally\<close> are ordinary
  combinators and the order of the side effects is the order of the code. The rules for
  \<open>holds\<close> are the proof system every service is verified with.
\<close>

section \<open>Exceptions\<close>

text \<open>
  The exception classes the services raise or test for, with the codes they carry. A
  \<open>PatchError\<close> has a diagnostic besides its code. \<open>LLMInvalid\<close> is \<open>LLMValidationError\<close>, the
  \<open>LLMError\<close> of code \<^verbatim>\<open>llm_invalid_response\<close> that carries feedback. \<open>Cancelled\<close> is
  \<open>asyncio.CancelledError\<close>, which \<open>except Exception\<close> does not catch. \<open>StillRunning\<close> is no
  exception: a loop of the model that was given too little fuel has not ended yet.
\<close>

datatype exc =
    ServiceFailure service_error
  | PatchFailure string string
  | SandboxFailure string
  | WorkspaceFailure string
  | LLMFailure string
  | LLMInvalid "string list"
  | GitHubFailure string int "int option"
  | CodingFailure string
  | TestExecutionFailure string
  | RecoveryFailure string
  | ReviewFailure string
  | PolicyFailure string
  | TimedOut
  | Cancelled
  | UnicodeFailure
  | ValueFailure
  | AttributeFailure
  | OSFailure
  | FileExistsFailure
  | IndexingFailure string
  | EmbeddingFailure string
  | ContextNotReady
  | RepositoryNotFound
  | PlannerFailure string
  | StillRunning

section \<open>The monad\<close>

type_synonym ('s, 'a) eff = "'s \<Rightarrow> (exc + 'a) \<times> 's"

definition ret :: "'a \<Rightarrow> ('s, 'a) eff" where
  "ret x = (\<lambda>s. (Inr x, s))"

definition raise :: "exc \<Rightarrow> ('s, 'a) eff" where
  "raise e = (\<lambda>s. (Inl e, s))"

definition bindM :: "('s, 'a) eff \<Rightarrow> ('a \<Rightarrow> ('s, 'b) eff) \<Rightarrow> ('s, 'b) eff" where
  "bindM m f = (\<lambda>s. case m s of (Inl e, t) \<Rightarrow> (Inl e, t) | (Inr x, t) \<Rightarrow> f x t)"

definition seqM :: "('s, 'a) eff \<Rightarrow> ('s, 'b) eff \<Rightarrow> ('s, 'b) eff" where
  "seqM m n = bindM m (\<lambda>_. n)"

definition ensure :: "exc \<Rightarrow> bool \<Rightarrow> ('s, unit) eff" where
  "ensure e b = (if b then ret () else raise e)"

definition liftE :: "exc + 'a \<Rightarrow> ('s, 'a) eff" where
  "liftE r = (\<lambda>s. (r, s))"

definition asks :: "('s \<Rightarrow> 'a) \<Rightarrow> ('s, 'a) eff" where
  "asks f = (\<lambda>s. (Inr (f s), s))"

definition catchM :: "('s, 'a) eff \<Rightarrow> (exc \<Rightarrow> ('s, 'a) eff) \<Rightarrow> ('s, 'a) eff" where
  "catchM m h = (\<lambda>s. case m s of (Inl e, t) \<Rightarrow> h e t | (Inr x, t) \<Rightarrow> (Inr x, t))"

definition finallyM :: "('s, 'a) eff \<Rightarrow> ('s, unit) eff \<Rightarrow> ('s, 'a) eff" where
  "finallyM m c = (\<lambda>s. case m s of (r, t) \<Rightarrow> (case c t of (Inl e, u) \<Rightarrow> (Inl e, u) | (Inr _, u) \<Rightarrow> (r, u)))"

fun foldM :: "('a \<Rightarrow> 'b \<Rightarrow> ('s, 'b) eff) \<Rightarrow> 'a list \<Rightarrow> 'b \<Rightarrow> ('s, 'b) eff" where
  "foldM f [] b = ret b"
| "foldM f (x # xs) b = bindM (f x b) (foldM f xs)"

definition eachM :: "('a \<Rightarrow> ('s, unit) eff) \<Rightarrow> 'a list \<Rightarrow> ('s, unit) eff" where
  "eachM f xs = foldM (\<lambda>x _. f x) xs ()"

section \<open>Triples\<close>

text \<open>
  \<open>holds P m Q R\<close>: from a state with \<open>P\<close> the effect either returns with \<open>Q\<close> or raises
  with \<open>R\<close>. Effects are total functions, so this is total correctness.
\<close>

definition holds ::
  "('s \<Rightarrow> bool) \<Rightarrow> ('s, 'a) eff \<Rightarrow> ('a \<Rightarrow> 's \<Rightarrow> bool) \<Rightarrow> (exc \<Rightarrow> 's \<Rightarrow> bool) \<Rightarrow> bool" where
  "holds P m Q R \<longleftrightarrow> (\<forall>s. P s \<longrightarrow> (case m s of (Inr x, t) \<Rightarrow> Q x t | (Inl e, t) \<Rightarrow> R e t))"

lemma holdsI: "(\<And>s r t. P s \<Longrightarrow> m s = (r, t) \<Longrightarrow> (case r of Inr x \<Rightarrow> Q x t | Inl e \<Rightarrow> R e t)) \<Longrightarrow> holds P m Q R"
  by (auto simp: holds_def split: prod.split sum.split)

lemma holds_InrD: "holds P m Q R \<Longrightarrow> P s \<Longrightarrow> m s = (Inr x, t) \<Longrightarrow> Q x t"
  by (auto simp: holds_def dest: spec [where x = s])

lemma holds_InlD: "holds P m Q R \<Longrightarrow> P s \<Longrightarrow> m s = (Inl e, t) \<Longrightarrow> R e t"
  by (auto simp: holds_def dest: spec [where x = s])

lemma holds_conseq:
  "holds P' m Q' R' \<Longrightarrow> (\<And>s. P s \<Longrightarrow> P' s) \<Longrightarrow> (\<And>x t. Q' x t \<Longrightarrow> Q x t) \<Longrightarrow>
    (\<And>e t. R' e t \<Longrightarrow> R e t) \<Longrightarrow> holds P m Q R"
  by (fastforce simp: holds_def split: prod.splits sum.splits)

lemma holds_ret [intro!]: "(\<And>s. P s \<Longrightarrow> Q x s) \<Longrightarrow> holds P (ret x) Q R"
  by (simp add: holds_def ret_def)

lemma holds_raise [intro!]: "(\<And>s. P s \<Longrightarrow> R e s) \<Longrightarrow> holds P (raise e) Q R"
  by (simp add: holds_def raise_def)

lemma holds_asks [intro!]: "(\<And>s. P s \<Longrightarrow> Q (f s) s) \<Longrightarrow> holds P (asks f) Q R"
  by (simp add: holds_def asks_def)

lemma holds_liftE:
  "(\<And>x s. r = Inr x \<Longrightarrow> P s \<Longrightarrow> Q x s) \<Longrightarrow> (\<And>e s. r = Inl e \<Longrightarrow> P s \<Longrightarrow> R e s) \<Longrightarrow>
    holds P (liftE r) Q R"
  by (auto simp: holds_def liftE_def split: sum.split)

lemma holds_ensure:
  "(\<And>s. b \<Longrightarrow> P s \<Longrightarrow> Q () s) \<Longrightarrow> (\<And>s. \<not> b \<Longrightarrow> P s \<Longrightarrow> R e s) \<Longrightarrow> holds P (ensure e b) Q R"
  by (auto simp: ensure_def)

lemma holds_bind:
  "holds P m Q' R \<Longrightarrow> (\<And>x. holds (Q' x) (f x) Q R) \<Longrightarrow> holds P (bindM m f) Q R"
  by (fastforce simp: holds_def bindM_def split: prod.splits sum.splits)

lemma holds_seq: "holds P m (\<lambda>_. P') R \<Longrightarrow> holds P' n Q R \<Longrightarrow> holds P (seqM m n) Q R"
  unfolding seqM_def by (rule holds_bind)

lemma holds_catch:
  "holds P m Q R' \<Longrightarrow> (\<And>e. holds (R' e) (h e) Q R) \<Longrightarrow> holds P (catchM m h) Q R"
  by (fastforce simp: holds_def catchM_def split: prod.splits sum.splits)

lemma holds_finally:
  assumes "holds P m Q' R'" and "\<And>x. holds (Q' x) c (\<lambda>_. Q x) R" and "\<And>e. holds (R' e) c (\<lambda>_. R e) R"
  shows "holds P (finallyM m c) Q R"
proof (rule holdsI)
  fix s r u
  assume "P s" and run: "finallyM m c s = (r, u)"
  obtain r0 t where m: "m s = (r0, t)" by (cases "m s")
  obtain r1 u1 where c: "c t = (r1, u1)" by (cases "c t")
  show "case r of Inr x \<Rightarrow> Q x u | Inl e \<Rightarrow> R e u"
  proof (cases r0)
    case (Inl e)
    then have "R' e t" using holds_InlD [OF assms(1) \<open>P s\<close>] m by blast
    with c run m Inl show ?thesis
      by (cases r1) (auto simp: finallyM_def dest: holds_InrD [OF assms(3)] holds_InlD [OF assms(3)])
  next
    case (Inr x)
    then have "Q' x t" using holds_InrD [OF assms(1) \<open>P s\<close>] m by blast
    with c run m Inr show ?thesis
      by (cases r1) (auto simp: finallyM_def dest: holds_InrD [OF assms(2)] holds_InlD [OF assms(2)])
  qed
qed

lemma holds_if:
  "(b \<Longrightarrow> holds P m Q R) \<Longrightarrow> (\<not> b \<Longrightarrow> holds P n Q R) \<Longrightarrow> holds P (if b then m else n) Q R"
  by simp

lemma holds_fold:
  assumes "\<And>x b. x \<in> set xs \<Longrightarrow> holds (I b) (f x b) I R"
  shows "holds (I b) (foldM f xs b) I R"
  using assms
proof (induction xs arbitrary: b)
  case Nil
  then show ?case by auto
next
  case (Cons x xs)
  then show ?case unfolding foldM.simps by (intro holds_bind [of _ _ I]) simp_all
qed

lemma holds_each:
  "(\<And>x. x \<in> set xs \<Longrightarrow> holds I (f x) (\<lambda>_. I) R) \<Longrightarrow> holds I (eachM f xs) (\<lambda>_. I) R"
  unfolding eachM_def by (rule holds_fold [where I = "\<lambda>_. I"])

text \<open>\<open>keeps I m\<close>: whatever happens, \<open>I\<close> still holds afterwards.\<close>

definition keeps :: "('s \<Rightarrow> bool) \<Rightarrow> ('s, 'a) eff \<Rightarrow> bool" where
  "keeps I m \<longleftrightarrow> holds I m (\<lambda>_. I) (\<lambda>_. I)"

named_theorems keeps_rules \<open>what every effect keeps\<close>

lemma keeps_iff: "keeps I m \<longleftrightarrow> (\<forall>s. I s \<longrightarrow> I (snd (m s)))"
proof -
  have "(case m s of (Inr x, t) \<Rightarrow> I t | (Inl e, t) \<Rightarrow> I t) = I (snd (m s))" for s
    by (cases "m s"; cases "fst (m s)") auto
  then show ?thesis by (simp add: keeps_def holds_def)
qed

lemma keepsI: "(\<And>s. I s \<Longrightarrow> I (snd (m s))) \<Longrightarrow> keeps I m"
  by (simp add: keeps_iff)

lemma keepsD: "keeps I m \<Longrightarrow> I s \<Longrightarrow> I (snd (m s))"
  by (simp add: keeps_iff)

lemma keeps_pure [keeps_rules]:
  "keeps I (ret x)" "keeps I (raise e)" "keeps I (asks f)" "keeps I (liftE r)" "keeps I (ensure e b)"
  by (auto simp: keeps_def intro: holds_liftE holds_ensure)

lemma keeps_bind [keeps_rules]: "keeps I m \<Longrightarrow> (\<And>x. keeps I (f x)) \<Longrightarrow> keeps I (bindM m f)"
  unfolding keeps_def by (rule holds_bind)

lemma keeps_seq [keeps_rules]: "keeps I m \<Longrightarrow> keeps I n \<Longrightarrow> keeps I (seqM m n)"
  unfolding keeps_def by (rule holds_seq)

lemma keeps_catch [keeps_rules]: "keeps I m \<Longrightarrow> (\<And>e. keeps I (h e)) \<Longrightarrow> keeps I (catchM m h)"
  unfolding keeps_def by (rule holds_catch)

lemma keeps_finally [keeps_rules]: "keeps I m \<Longrightarrow> keeps I c \<Longrightarrow> keeps I (finallyM m c)"
  unfolding keeps_def by (rule holds_finally)

lemma keeps_fold [keeps_rules]: "(\<And>x b. x \<in> set xs \<Longrightarrow> keeps I (f x b)) \<Longrightarrow> keeps I (foldM f xs b)"
  unfolding keeps_def by (rule holds_fold [where I = "\<lambda>_. I"])

lemma keeps_each [keeps_rules]: "(\<And>x. x \<in> set xs \<Longrightarrow> keeps I (f x)) \<Longrightarrow> keeps I (eachM f xs)"
  unfolding keeps_def by (rule holds_each)

lemma keeps_if [keeps_rules]:
  "(b \<Longrightarrow> keeps I m) \<Longrightarrow> (\<not> b \<Longrightarrow> keeps I n) \<Longrightarrow> keeps I (if b then m else n)"
  by simp


text \<open>The continuation of a guard, or of a checked value, is reached only when the check succeeds.\<close>

lemma keeps_guard: "(b \<Longrightarrow> keeps I m) \<Longrightarrow> keeps I (seqM (ensure e b) m)"
  by (cases b) (simp_all add: keeps_iff seqM_def bindM_def ensure_def ret_def raise_def)

lemma keeps_lift: "(\<And>x. r = Inr x \<Longrightarrow> keeps I (f x)) \<Longrightarrow> keeps I (bindM (liftE r) f)"
  by (cases r) (simp_all add: keeps_iff bindM_def liftE_def)

lemma keeps_option [keeps_rules]:
  "keeps I m \<Longrightarrow> (\<And>x. keeps I (f x)) \<Longrightarrow> keeps I (case v of None \<Rightarrow> m | Some x \<Rightarrow> f x)"
  by (cases v) auto


section \<open>Successful runs\<close>

text \<open>What a run that returns has gone through.\<close>

lemma bindM_Inr: "bindM m f s = (Inr y, t) \<longleftrightarrow> (\<exists>x u. m s = (Inr x, u) \<and> f x u = (Inr y, t))"
  by (auto simp: bindM_def split: prod.splits sum.splits)

lemma seqM_Inr: "seqM m n s = (Inr y, t) \<longleftrightarrow> (\<exists>x u. m s = (Inr x, u) \<and> n u = (Inr y, t))"
  by (simp add: seqM_def bindM_Inr)

lemma finallyM_Inr: "finallyM m c s = (Inr y, t) \<longleftrightarrow> (\<exists>u x. m s = (Inr y, u) \<and> c u = (Inr x, t))"
  by (auto simp: finallyM_def split: prod.splits sum.splits)

lemma pure_Inr:
  "ret x s = (Inr y, t) \<longleftrightarrow> y = x \<and> t = s" "raise e s = (Inr y, t) \<longleftrightarrow> False"
  "liftE r s = (Inr y, t) \<longleftrightarrow> r = Inr y \<and> t = s" "asks f s = (Inr y, t) \<longleftrightarrow> y = f s \<and> t = s"
  "ensure e b s = (Inr u, t) \<longleftrightarrow> b \<and> t = s"
  by (auto simp: ret_def raise_def liftE_def asks_def ensure_def)

lemma catchM_Inr:
  "(\<And>e s. h e s \<noteq> (Inr y, t)) \<Longrightarrow> catchM m h s = (Inr y, t) \<longleftrightarrow> m s = (Inr y, t)"
  by (auto simp: catchM_def split: prod.splits sum.splits)

lemmas runs_Inr = bindM_Inr seqM_Inr finallyM_Inr pure_Inr

lemma foldM_value:
  assumes "foldM f xs b s = (Inr c, t)" and "P b"
    and "\<And>x b s c t. x \<in> set xs \<Longrightarrow> P b \<Longrightarrow> f x b s = (Inr c, t) \<Longrightarrow> P c"
  shows "P c"
  using assms
proof (induction xs arbitrary: b s)
  case (Cons x xs)
  from Cons.prems(1) obtain y u where y: "f x b s = (Inr y, u)" and rest: "foldM f xs y u = (Inr c, t)"
    by (auto simp: bindM_Inr)
  have "P y" by (rule Cons.prems(3) [OF _ Cons.prems(2) y]) simp
  with rest show ?case by (rule Cons.IH) (rule Cons.prems(3); simp)
qed (simp add: pure_Inr)

end
