(* ===== verification/Patch_Format.thy ===== *)
theory Patch_Format
  imports Effects
begin

text \<open>
  \<^verbatim>\<open>app/services/patch_format.py\<close>: the strict subset of Git unified diffs a model may
  propose. The parser works on the lines of the text; every loop consumes lines, and what it
  accepts names exactly the declared files, none of them outside the repository or protected.
\<close>

section \<open>Paths\<close>

definition path_char :: "nat \<Rightarrow> bool" where
  "path_char c \<longleftrightarrow> 65 \<le> c \<and> c \<le> 90 \<or> 97 \<le> c \<and> c \<le> 122 \<or> 48 \<le> c \<and> c \<le> 57 \<or> c = 95 \<or> c = 46 \<or>
     c = 47 \<or> c = 45"

definition unsafe_path :: "pystr \<Rightarrow> bool" where
  "unsafe_path path \<longleftrightarrow> length path > 512 \<or> starts_with (pytext ''/'') path \<or>
     (\<exists>part \<in> set (split_on 47 path). part = [] \<or> part = pytext ''.'' \<or> part = pytext ''..'') \<or>
     path = [] \<or> \<not> list_all path_char path"

definition protected_names :: "string list" where
  "protected_names =
     [''.git'', ''.gitmodules'', ''.gitattributes'', ''.gitconfig'', ''.ssh'', ''.aws'', ''.kube'',
      ''.docker'', ''.netrc'', ''.npmrc'', ''.pypirc'', ''credentials'', ''credentials.json'',
      ''secrets.json'', ''secrets.yaml'', ''secrets.yml'']"

definition protected_stems :: "string list" where
  "protected_stems =
     [''con'', ''prn'', ''aux'', ''nul'',
      ''com1'', ''com2'', ''com3'', ''com4'', ''com5'', ''com6'', ''com7'', ''com8'', ''com9'',
      ''lpt1'', ''lpt2'', ''lpt3'', ''lpt4'', ''lpt5'', ''lpt6'', ''lpt7'', ''lpt8'', ''lpt9'']"

text \<open>One component of a path; by now it consists of ASCII characters.\<close>

definition protected_part :: "pystr \<Rightarrow> bool" where
  "protected_part part \<longleftrightarrow>
     (let name = map lower_ascii part; stem = hd (split_on 46 name)
      in ends_with (pytext ''.'') name \<or> starts_with (pytext ''.env'') name \<or>
         name \<in> set (map pytext protected_names) \<or>
         (\<exists>suffix \<in> set [''.pem'', ''.key'', ''.p12'', ''.pfx'']. ends_with (pytext suffix) name) \<or>
         stem \<in> set (map pytext protected_stems))"

definition validate_path :: "pystr \<Rightarrow> exc + pystr" where
  "validate_path path =
     (if unsafe_path path then Inl (PatchFailure ''unsafe_patch_path'' [])
      else if \<exists>part \<in> set (split_on 47 path). protected_part part
      then Inl (PatchFailure ''protected_patch_path'' [])
      else Inr path)"

section \<open>Lines\<close>

text \<open>
  \<^verbatim>\<open>diff --git a/(\S+) b/(\S+)\n\<close>: a group of \<^verbatim>\<open>\S\<close> cannot cross a space, so each is
  the longest run of characters that are not white space.
\<close>

definition nonspaces :: "pystr \<Rightarrow> (pystr \<times> pystr) option" where
  "nonspaces s = (let w = takeWhile (\<lambda>c. \<not> py_space c) s
     in if w = [] then None else Some (w, dropWhile (\<lambda>c. \<not> py_space c) s))"

definition match_header :: "pystr \<Rightarrow> (pystr \<times> pystr) option" where
  "match_header line =
     Option.bind (strip_prefix (pytext ''diff --git a/'') line) (\<lambda>s.
     Option.bind (nonspaces s) (\<lambda>(a, s).
     Option.bind (strip_prefix (pytext '' b/'') s) (\<lambda>s.
     Option.bind (nonspaces s) (\<lambda>(b, s).
     if s = [10] then Some (a, b) else None))))"

definition hex_digit :: "nat \<Rightarrow> bool" where
  "hex_digit c \<longleftrightarrow> 48 \<le> c \<and> c \<le> 57 \<or> 97 \<le> c \<and> c \<le> 102"

definition hex_run :: "pystr \<Rightarrow> pystr option" where
  "hex_run s = (if takeWhile hex_digit s = [] then None else Some (dropWhile hex_digit s))"

definition match_index :: "pystr \<Rightarrow> bool" where
  "match_index line \<longleftrightarrow>
     Option.bind (strip_prefix (pytext ''index '') line) (\<lambda>s.
     Option.bind (hex_run s) (\<lambda>s.
     Option.bind (strip_prefix (pytext ''..'') s) hex_run))
     \<in> {Some [10], Some (pytext '' 100644'' @ [10]), Some (pytext '' 100755'' @ [10])}"

text \<open>
  \<^verbatim>\<open>@@ -(\d+)(?:,(\d+))? \+(\d+)(?:,(\d+))? @@[^\n]*\n\<close>. The digits are those of Unicode;
  \<open>int\<close> reads them and raises a \<open>ValueError\<close> beyond 4300 of them.
\<close>

definition digit_run :: "pystr \<Rightarrow> (pystr \<times> pystr) option" where
  "digit_run s = (let w = takeWhile (\<lambda>c. digit_value c \<noteq> None) s
     in if w = [] then None else Some (w, dropWhile (\<lambda>c. digit_value c \<noteq> None) s))"

definition optional_run :: "pystr \<Rightarrow> (pystr option \<times> pystr) option" where
  "optional_run s = (case strip_prefix (pytext '','') s of None \<Rightarrow> Some (None, s)
     | Some s' \<Rightarrow> (case digit_run s' of None \<Rightarrow> Some (None, s) | Some (w, rest) \<Rightarrow> Some (Some w, rest)))"

definition match_hunk :: "pystr \<Rightarrow> (pystr option \<times> pystr option) option" where
  "match_hunk line =
     Option.bind (strip_prefix (pytext ''@@ -'') line) (\<lambda>s.
     Option.bind (digit_run s) (\<lambda>(_, s).
     Option.bind (optional_run s) (\<lambda>(old, s).
     Option.bind (strip_prefix (pytext '' +'') s) (\<lambda>s.
     Option.bind (digit_run s) (\<lambda>(_, s).
     Option.bind (optional_run s) (\<lambda>(new, s).
     Option.bind (strip_prefix (pytext '' @@'') s) (\<lambda>s.
     if s \<noteq> [] \<and> last s = 10 \<and> 10 \<notin> set (butlast s) then Some (old, new) else None)))))))"

definition digits_value :: "pystr \<Rightarrow> nat" where
  "digits_value w = foldl (\<lambda>n c. 10 * n + the (digit_value c)) 0 w"

definition max_digits :: nat where
  "max_digits = 4300"

definition count_of :: "pystr option \<Rightarrow> exc + nat" where
  "count_of w = (case w of None \<Rightarrow> Inr 1
     | Some ds \<Rightarrow> if length ds > max_digits then Inl ValueFailure else Inr (digits_value ds))"

section \<open>Hunks\<close>

definition no_newline :: pystr where
  "no_newline = 92 # pytext '' No newline at end of file'' @ [10]"

definition skip_marker :: "pystr list \<Rightarrow> pystr list" where
  "skip_marker rest = (case rest of [] \<Rightarrow> [] | l # ls \<Rightarrow> if l = no_newline then ls else rest)"

lemma length_skip_marker: "length (skip_marker rest) \<le> length rest"
  by (simp add: skip_marker_def split: list.split)

abbreviation invalid_hunk :: exc where
  "invalid_hunk \<equiv> PatchFailure ''invalid_patch_hunk'' []"

function hunk_body :: "nat \<Rightarrow> nat \<Rightarrow> nat \<Rightarrow> nat \<Rightarrow> pystr list \<Rightarrow> exc + pystr list" where
  "hunk_body oc nc old added rest =
     (if rest \<noteq> [] \<and> (old < oc \<or> added < nc)
      then let line = hd rest
           in if line = [] \<or> hd line \<notin> set (pytext '' +-'') then Inl invalid_hunk
              else hunk_body oc nc (old + (if hd line \<in> set (pytext '' -'') then 1 else 0))
                     (added + (if hd line \<in> set (pytext '' +'') then 1 else 0)) (skip_marker (tl rest))
      else if old \<noteq> oc \<or> added \<noteq> nc then Inl invalid_hunk else Inr rest)"
  by pat_completeness auto
termination
proof (relation "measure (\<lambda>(_, _, _, _, rest). length rest)")
  fix oc nc old added :: nat and rest :: "pystr list" and x
  assume "rest \<noteq> [] \<and> (old < oc \<or> added < nc)"
  then have "length (skip_marker (tl rest)) < length rest"
    using length_skip_marker [of "tl rest"] by (cases rest) auto
  then show "((oc, nc, old + (if hd x \<in> set (pytext '' -'') then 1 else 0),
       added + (if hd x \<in> set (pytext '' +'') then 1 else 0), skip_marker (tl rest)),
       oc, nc, old, added, rest) \<in> measure (\<lambda>(_, _, _, _, rest). length rest)"
    by simp
qed auto

declare hunk_body.simps [simp del]

lemma hunk_body_length: "hunk_body oc nc old added rest = Inr rest' \<Longrightarrow> length rest' \<le> length rest"
proof (induction oc nc old added rest rule: hunk_body.induct)
  case (1 oc nc old added rest)
  show ?case
  proof (cases "rest \<noteq> [] \<and> (old < oc \<or> added < nc)")
    case True
    with 1 have "length rest' \<le> length (skip_marker (tl rest))"
      by (subst (asm) (2) hunk_body.simps) (auto simp: Let_def split: if_splits)
    with length_skip_marker [of "tl rest"] show ?thesis by simp
  next
    case False
    with 1(2) show ?thesis by (subst (asm) hunk_body.simps) (auto split: if_splits)
  qed
qed

text \<open>The hunks of one file: how many there are, and the lines after them.\<close>

function hunks :: "nat \<Rightarrow> pystr list \<Rightarrow> exc + nat \<times> pystr list" where
  "hunks n rest =
     (if rest \<noteq> [] \<and> starts_with (pytext ''@@ '') (hd rest)
      then case match_hunk (hd rest) of None \<Rightarrow> Inl invalid_hunk
         | Some (old, new) \<Rightarrow>
             (case count_of old of Inl e \<Rightarrow> Inl e | Inr oc \<Rightarrow>
             (case count_of new of Inl e \<Rightarrow> Inl e | Inr nc \<Rightarrow>
             (case hunk_body oc nc 0 0 (tl rest) of Inl e \<Rightarrow> Inl e
              | Inr rest' \<Rightarrow> hunks (n + 1) rest')))
      else Inr (n, rest))"
  by pat_completeness auto
termination
  by (relation "measure (\<lambda>(_, rest). length rest)")
    (auto dest!: hunk_body_length simp: neq_Nil_conv)

declare hunks.simps [simp del]

lemma hunks_length: "hunks n rest = Inr (m, rest') \<Longrightarrow> length rest' \<le> length rest"
proof (induction n rest rule: hunks.induct)
  case (1 n rest)
  then show ?case
    by (subst (asm) (2) hunks.simps)
      (fastforce split: if_splits option.splits sum.splits dest: hunk_body_length)
qed

section \<open>Files\<close>

record patch_file =
  pf_path :: pystr
  pf_new :: bool
  pf_deleted :: bool

definition new_mode :: pystr where
  "new_mode = pytext ''new file mode 100644'' @ [10]"

definition deleted_mode :: pystr where
  "deleted_mode = pytext ''deleted file mode 100644'' @ [10]"

fun decimal :: "nat \<Rightarrow> string" where
  "decimal n = (if n < 10 then [char_of (48 + n)] else decimal (n div 10) @ [char_of (48 + n mod 10)])"

declare decimal.simps [simp del]

definition header_error :: "nat \<Rightarrow> exc" where
  "header_error i = PatchFailure ''unsupported_patch_header''
     (''Invalid file header at patch line '' @ decimal (i + 1))"

definition file_names :: "pystr \<Rightarrow> bool \<Rightarrow> bool \<Rightarrow> pystr list" where
  "file_names path new deleted =
     [pytext ''--- '' @ (if new then pytext ''/dev/null'' else pytext ''a/'' @ path) @ [10],
      pytext ''+++ '' @ (if deleted then pytext ''/dev/null'' else pytext ''b/'' @ path) @ [10]]"

text \<open>The lines of one file, from its \<open>diff\<close> line, which is line \<open>i\<close> of the patch.\<close>

definition patch_section :: "nat \<Rightarrow> pystr list \<Rightarrow> exc + patch_file \<times> pystr list" where
  "patch_section i rest = (case match_header (hd rest) of None \<Rightarrow> Inl (header_error i)
     | Some (a, b) \<Rightarrow>
       bindE (requireE (header_error i) (a = b)) (\<lambda>_.
       bindE (validate_path a) (\<lambda>path.
       let rest1 = tl rest;
           moded = rest1 \<noteq> [] \<and> hd rest1 \<in> {new_mode, deleted_mode};
           new = (moded \<and> starts_with (pytext ''new'') (hd rest1));
           deleted = (moded \<and> starts_with (pytext ''deleted'') (hd rest1));
           rest2 = (if moded then tl rest1 else rest1);
           rest3 = (if rest2 \<noteq> [] \<and> match_index (hd rest2) then tl rest2 else rest2)
       in bindE (requireE (PatchFailure ''unsupported_patch_header'' [])
                   (take 2 rest3 = file_names path new deleted)) (\<lambda>_.
          bindE (hunks 0 (drop 2 rest3)) (\<lambda>(n, rest4).
          bindE (requireE (PatchFailure ''empty_patch_file'' []) (n \<noteq> 0)) (\<lambda>_.
          Inr (\<lparr>pf_path = path, pf_new = new, pf_deleted = deleted\<rparr>, rest4)))))))"

lemma patch_section_Inr:
  assumes "patch_section i rest = Inr (f, rest')"
  obtains a n rest1 new deleted where "match_header (hd rest) = Some (a, a)" and "validate_path a = Inr (pf_path f)"
    and "length rest1 < length rest \<or> rest = []" and "take 2 rest1 = file_names (pf_path f) new deleted"
    and "pf_new f = new" and "pf_deleted f = deleted"
    and "hunks 0 (drop 2 rest1) = Inr (n, rest')" and "n \<noteq> 0"
proof -
  from assms obtain a b where m: "match_header (hd rest) = Some (a, b)"
    by (auto simp: patch_section_def split: option.splits)
  from assms show thesis
    unfolding patch_section_def m option.case prod.case Let_def
    by (elim block_elims, unfold sum.inject prod.inject, elim conjE)
      (rule that; (assumption | force simp: m)?)
qed

lemma patch_section_length: "patch_section i rest = Inr (f, rest') \<Longrightarrow> rest \<noteq> [] \<Longrightarrow> length rest' < length rest"
proof (elim patch_section_Inr)
  fix rest1 n
  assume "length rest1 < length rest \<or> rest = []" and "rest \<noteq> []" and "hunks 0 (drop 2 rest1) = Inr (n, rest')"
  then show ?thesis using hunks_length by fastforce
qed

function patch_files :: "nat \<Rightarrow> pystr list \<Rightarrow> exc + patch_file list" where
  "patch_files n rest = (if rest = [] then Inr []
     else case patch_section (n - length rest) rest of Inl e \<Rightarrow> Inl e
        | Inr (f, rest') \<Rightarrow> bindE (patch_files n rest') (\<lambda>fs. Inr (f # fs)))"
  by pat_completeness auto
termination
  by (relation "measure (\<lambda>(_, rest). length rest)") (auto dest: patch_section_length)

declare patch_files.simps [simp del]

definition oversized :: "pystr \<Rightarrow> exc + bool" where
  "oversized patch = (if 0 \<in> set patch then Inr True
     else case utf8_length patch of None \<Rightarrow> Inl UnicodeFailure | Some n \<Rightarrow> Inr (n > 262144))"

definition parse_patch :: "pystr \<Rightarrow> pystr list \<Rightarrow> exc + patch_file list" where
  "parse_patch patch files =
     bindE (oversized patch) (\<lambda>bad.
     bindE (requireE (PatchFailure ''invalid_patch_format'' []) (\<not> bad)) (\<lambda>_.
     bindE (mapE validate_path files) (\<lambda>declared.
     bindE (requireE (PatchFailure ''duplicate_patch_paths'' [])
              (distinct (map (map lower_ascii) declared))) (\<lambda>_.
     let rest = split_lines patch
     in bindE (patch_files (length rest) rest) (\<lambda>output.
        bindE (requireE (PatchFailure ''patch_file_list_mismatch'' [])
                 (length output = length declared \<and> set (map pf_path output) = set declared)) (\<lambda>_.
        Inr output))))))"

section \<open>What is accepted\<close>

text \<open>
  A path that stays inside the repository and names nothing that is protected. What is protected is spelled
  out once more: by the ASCII lower case of a component, its last character, its beginning, its last four
  characters, or what stands before its first dot.
\<close>

definition harmless_part :: "pystr \<Rightarrow> bool" where
  "harmless_part part \<longleftrightarrow> (let name = map lower_ascii part in
     name \<noteq> [] \<and> name \<noteq> pytext ''.'' \<and> name \<noteq> pytext ''..'' \<and> last name \<noteq> 46 \<and> take 4 name \<noteq> pytext ''.env'' \<and>
     list_all (\<lambda>n. name \<noteq> pytext n)
       [''.git'', ''.gitmodules'', ''.gitattributes'', ''.gitconfig'', ''.ssh'', ''.aws'', ''.kube'', ''.docker'',
        ''.netrc'', ''.npmrc'', ''.pypirc'', ''credentials'', ''credentials.json'', ''secrets.json'', ''secrets.yaml'',
        ''secrets.yml''] \<and>
     list_all (\<lambda>e. drop (length name - 4) name \<noteq> pytext e) [''.pem'', ''.key'', ''.p12'', ''.pfx''] \<and>
     list_all (\<lambda>n. takeWhile (\<lambda>c. c \<noteq> 46) name \<noteq> pytext n)
       ([''con'', ''prn'', ''aux'', ''nul''] @ concat (map (\<lambda>d. [''com'' @ [d], ''lpt'' @ [d]]) ''123456789'')))"

definition safe_path :: "pystr \<Rightarrow> bool" where
  "safe_path path \<longleftrightarrow> path \<noteq> [] \<and> hd path \<noteq> 47 \<and> length path \<le> 512 \<and>
     (\<forall>part \<in> set (split_on 47 path). harmless_part part) \<and>
     (\<forall>c \<in> set path. path_char c)"

lemma split_on_hd: "hd (split_on sep s) = takeWhile (\<lambda>c. c \<noteq> sep) s"
  by (induction s) (auto split: list.splits)

lemma ends_with_drop: "length e \<le> length s \<Longrightarrow> ends_with e s \<longleftrightarrow> drop (length s - length e) s = e"
  by (simp add: ends_with_def starts_with_def take_rev rev_swap)

lemma not_protected:
  assumes "\<not> protected_part part" and "part \<noteq> []" and "part \<noteq> pytext ''.''" and "part \<noteq> pytext ''..''"
  shows "harmless_part part"
proof -
  let ?name = "map lower_ascii part"
  from assms(1) have last_dot: "\<not> ends_with (pytext ''.'') ?name" and env: "\<not> starts_with (pytext ''.env'') ?name"
    and names: "?name \<notin> set (map pytext protected_names)"
    and suffix: "\<And>e. e \<in> set [''.pem'', ''.key'', ''.p12'', ''.pfx''] \<Longrightarrow> \<not> ends_with (pytext e) ?name"
    and stem: "takeWhile (\<lambda>c. c \<noteq> 46) ?name \<notin> set (map pytext protected_stems)"
    by (auto simp: protected_part_def Let_def split_on_hd)
  have some: "?name \<noteq> []" using assms(2) by simp
  have dot: "last ?name \<noteq> 46"
    using last_dot some by (cases ?name rule: rev_cases) (auto simp: ends_with_def starts_with_def pytext_def)
  then have dots: "?name \<noteq> pytext ''.''" "?name \<noteq> pytext ''..''" by (auto simp: pytext_def)
  have "take 4 ?name \<noteq> pytext ''.env''" using env by (simp add: starts_with_def pytext_def eval_nat_numeral)
  moreover have "list_all (\<lambda>n. ?name \<noteq> pytext n)
       [''.git'', ''.gitmodules'', ''.gitattributes'', ''.gitconfig'', ''.ssh'', ''.aws'', ''.kube'', ''.docker'',
        ''.netrc'', ''.npmrc'', ''.pypirc'', ''credentials'', ''credentials.json'', ''secrets.json'', ''secrets.yaml'',
        ''secrets.yml'']"
    using names unfolding list_all_iff protected_names_def by auto
  moreover have "drop (length ?name - 4) ?name \<noteq> pytext e" if "e \<in> set [''.pem'', ''.key'', ''.p12'', ''.pfx'']" for e
  proof
    assume d: "drop (length ?name - 4) ?name = pytext e"
    from that have four: "length (pytext e) = 4" by (auto simp: pytext_def)
    with arg_cong [OF d, of length] have "4 \<le> length ?name" by simp
    with d four ends_with_drop [of "pytext e" ?name] suffix [OF that] show False by simp
  qed
  moreover have "list_all (\<lambda>n. takeWhile (\<lambda>c. c \<noteq> 46) ?name \<noteq> pytext n)
       ([''con'', ''prn'', ''aux'', ''nul''] @ concat (map (\<lambda>d. [''com'' @ [d], ''lpt'' @ [d]]) ''123456789''))"
    using stem unfolding list_all_iff protected_stems_def by simp
  ultimately show ?thesis
    unfolding harmless_part_def Let_def using some dot dots by (simp only: list_all_iff) blast
qed

lemma validate_path_Inr:
  assumes "validate_path path = Inr p"
  shows "p = path \<and> safe_path path"
proof -
  from assms have "p = path" and u: "\<not> unsafe_path path"
    and parts: "\<And>part. part \<in> set (split_on 47 path) \<Longrightarrow> \<not> protected_part part"
    by (auto simp: validate_path_def split: if_splits)
  from u have "hd path \<noteq> 47"
    by (cases path) (auto simp: unsafe_path_def starts_with_def pytext_def)
  with u not_protected [OF parts] \<open>p = path\<close> show ?thesis
    unfolding unsafe_path_def safe_path_def by (auto simp: list_all_iff)
qed

lemma mapE_validate: "mapE validate_path files = Inr declared \<Longrightarrow> declared = files \<and> (\<forall>p \<in> set files. safe_path p)"
proof (induction files arbitrary: declared)
  case (Cons p files)
  then show ?case by (auto dest: validate_path_Inr)
qed simp

lemma parse_patch_Inr:
  assumes "parse_patch patch files = Inr output"
  shows "set (map pf_path output) = set files" and "distinct (map pf_path output)"
    and "distinct (map (map lower_ascii) files)" and "\<forall>p \<in> set files. safe_path p"
    and "patch_files (length (split_lines patch)) (split_lines patch) = Inr output"
    and "\<exists>n \<le> 262144. utf8_length patch = Some n"
proof -
  from assms obtain declared where d: "mapE validate_path files = Inr declared"
    and dist: "distinct (map (map lower_ascii) declared)"
    and len: "length output = length declared" and set: "set (map pf_path output) = set declared"
    and size: "oversized patch = Inr False"
    and files: "patch_files (length (split_lines patch)) (split_lines patch) = Inr output"
    by (auto simp: parse_patch_def Let_def)
  from d have same: "declared = files" and "\<forall>p \<in> set files. safe_path p" using mapE_validate by blast+
  then show "set (map pf_path output) = set files" and "distinct (map (map lower_ascii) files)"
    and "\<forall>p \<in> set files. safe_path p"
    using set dist by simp_all
  from dist same have "distinct files" by (simp add: distinct_map)
  with set len same show "distinct (map pf_path output)"
    by (metis card_distinct distinct_card length_map)
  show "patch_files (length (split_lines patch)) (split_lines patch) = Inr output" by (rule files)
  from size show "\<exists>n \<le> 262144. utf8_length patch = Some n"
    by (auto simp: oversized_def split: if_splits option.splits)
qed

end
