(* ===== verification/Patch_Roundtrip.thy ===== *)
theory Patch_Roundtrip
  imports Patch_Format
begin

text \<open>
  Every patch in the subset is accepted: an abstract syntax of patches, the text Git writes for
  it, and the theorem that \<open>parse_patch\<close> reads back the files it changes.
\<close>

section \<open>The abstract syntax and its text\<close>

record body_line =
  bl_mark :: nat
  bl_text :: pystr
  bl_bare :: bool

text \<open>
  What Git leaves to choice is part of the syntax: whether a count of one is written, the heading behind a hunk's
  range, and the \<open>index\<close> line of a file with its two abbreviated hashes and the mode.
\<close>

record hunk =
  hk_old :: nat
  hk_new :: nat
  hk_full :: bool
  hk_heading :: pystr
  hk_body :: "body_line list"

record file_change =
  fc_file :: patch_file
  fc_index :: "(pystr \<times> pystr \<times> pystr) option"
  fc_hunks :: "hunk list"

definition render_line :: "body_line \<Rightarrow> pystr list" where
  "render_line l = (bl_mark l # bl_text l @ [10]) # (if bl_bare l then [no_newline] else [])"

definition old_count :: "body_line list \<Rightarrow> nat" where
  "old_count ls = length (filter (\<lambda>l. bl_mark l \<noteq> 43) ls)"

definition new_count :: "body_line list \<Rightarrow> nat" where
  "new_count ls = length (filter (\<lambda>l. bl_mark l \<noteq> 45) ls)"

definition render_range :: "bool \<Rightarrow> nat \<Rightarrow> nat \<Rightarrow> pystr" where
  "render_range full start n =
     pytext (decimal start) @ (if n = 1 \<and> \<not> full then [] else pytext '','' @ pytext (decimal n))"

definition render_hunk :: "hunk \<Rightarrow> pystr list" where
  "render_hunk h =
     (pytext ''@@ -'' @ render_range (hk_full h) (hk_old h) (old_count (hk_body h)) @
      pytext '' +'' @ render_range (hk_full h) (hk_new h) (new_count (hk_body h)) @
      pytext '' @@'' @ hk_heading h @ [10])
     # concat (map render_line (hk_body h))"

definition render_index :: "(pystr \<times> pystr \<times> pystr) option \<Rightarrow> pystr list" where
  "render_index i = (case i of None \<Rightarrow> []
     | Some (old, new, mode) \<Rightarrow> [pytext ''index '' @ old @ pytext ''..'' @ new @ mode @ [10]])"

definition render_change :: "file_change \<Rightarrow> pystr list" where
  "render_change c = (let f = fc_file c; path = pf_path f in
     [pytext ''diff --git a/'' @ path @ pytext '' b/'' @ path @ [10]] @
     (if pf_new f then [new_mode] else if pf_deleted f then [deleted_mode] else []) @
     render_index (fc_index c) @ file_names path (pf_new f) (pf_deleted f) @ concat (map render_hunk (fc_hunks c)))"

definition render_patch :: "file_change list \<Rightarrow> pystr" where
  "render_patch cs = concat (concat (map render_change cs))"

definition plain :: "pystr \<Rightarrow> bool" where
  "plain s \<longleftrightarrow> (\<forall>c \<in> set s. \<not> line_break c)"

definition valid_line :: "body_line \<Rightarrow> bool" where
  "valid_line l \<longleftrightarrow> bl_mark l \<in> {32, 43, 45} \<and> plain (bl_text l)"

definition valid_index :: "(pystr \<times> pystr \<times> pystr) option \<Rightarrow> bool" where
  "valid_index i \<longleftrightarrow> (case i of None \<Rightarrow> True
     | Some (old, new, mode) \<Rightarrow> old \<noteq> [] \<and> list_all hex_digit old \<and> new \<noteq> [] \<and> list_all hex_digit new \<and>
         mode \<in> {[], pytext '' 100644'', pytext '' 100755''})"

definition valid_change :: "file_change \<Rightarrow> bool" where
  "valid_change c \<longleftrightarrow> validate_path (pf_path (fc_file c)) = Inr (pf_path (fc_file c)) \<and>
     \<not> (pf_new (fc_file c) \<and> pf_deleted (fc_file c)) \<and> valid_index (fc_index c) \<and> fc_hunks c \<noteq> [] \<and>
     (\<forall>h \<in> set (fc_hunks c). plain (hk_heading h) \<and> (\<forall>l \<in> set (hk_body h). valid_line l) \<and>
        old_count (hk_body h) < 10 ^ max_digits \<and> new_count (hk_body h) < 10 ^ max_digits)"

section \<open>Numbers\<close>

lemma pytext_append [simp]: "pytext (s @ t) = pytext s @ pytext t"
  by (simp add: pytext_def)

lemma length_pytext [simp]: "length (pytext s) = length s"
  by (simp add: pytext_def)

lemma digit_mod [simp]: "n < (10::nat) \<Longrightarrow> (48 + n) mod 256 = 48 + n"
  by simp

lemma of_char_digit: "n < 10 \<Longrightarrow> (of_char (char_of (48 + n) :: char) :: nat) = 48 + n"
  by simp

lemma digit_value_ascii [simp]: "n < 10 \<Longrightarrow> digit_value (48 + n) = Some n"
  by (simp add: digit_value_def digit_zeros_def)

lemma digit_value_other [simp]: "digit_value 44 = None" "digit_value 32 = None"
  by (simp_all add: digit_value_def digit_zeros_def)

lemma decimal_digits: "\<forall>c \<in> set (pytext (decimal n)). 48 \<le> c \<and> c < 58"
proof (induction n rule: decimal.induct)
  case (1 n)
  then show ?case
    by (subst decimal.simps) (auto simp: pytext_def of_char_digit [simplified])
qed

lemma decimal_not_Nil [simp]: "decimal n \<noteq> []"
  by (subst decimal.simps) simp

lemma length_decimal: "n < 10 ^ k \<Longrightarrow> 0 < k \<Longrightarrow> length (decimal n) \<le> k"
proof (induction n arbitrary: k rule: decimal.induct)
  case (1 n)
  show ?case
  proof (cases "n < 10")
    case True
    with 1(3) show ?thesis by (subst decimal.simps) simp
  next
    case False
    then obtain k' where k: "k = Suc k'" and "0 < k'" using 1(2,3)
      by (cases k; cases "k - 1") auto
    with 1(2) have "n div 10 < 10 ^ k'" by (simp add: less_mult_imp_div_less mult.commute)
    with 1(1) [of k'] False \<open>0 < k'\<close> show ?thesis by (subst decimal.simps) (simp add: k)
  qed
qed

lemma max_digits_pos: "0 < max_digits"
  by (simp add: max_digits_def)

lemma digits_value_snoc: "digits_value (w @ [c]) = 10 * digits_value w + the (digit_value c)"
  by (simp add: digits_value_def)

lemma digits_value_decimal [simp]: "digits_value (pytext (decimal n)) = n"
proof (induction n rule: decimal.induct)
  case (1 n)
  show ?case
  proof (cases "n < 10")
    case True
    have "pytext (decimal n) = [] @ [48 + n]" by (subst decimal.simps) (use True in \<open>simp add: pytext_def\<close>)
    with True show ?thesis by (simp only: digits_value_snoc) (simp add: digits_value_def)
  next
    case False
    then have "pytext (decimal n) = pytext (decimal (n div 10)) @ [48 + n mod 10]"
      by (subst decimal.simps) (simp add: pytext_def)
    with False 1 show ?thesis by (simp only: digits_value_snoc) simp
  qed
qed

lemma digit_value_decimal: "c \<in> set (pytext (decimal n)) \<Longrightarrow> digit_value c \<noteq> None"
  using decimal_digits [of n] digit_value_ascii [of "c - 48"] by force

lemma digit_run_stop:
  assumes "digit_value c = None"
  shows "digit_run (pytext (decimal n) @ c # s) = Some (pytext (decimal n), c # s)"
proof -
  have "takeWhile (\<lambda>c. digit_value c \<noteq> None) (pytext (decimal n) @ c # s) = pytext (decimal n)"
    and "dropWhile (\<lambda>c. digit_value c \<noteq> None) (pytext (decimal n) @ c # s) = c # s"
    using digit_value_decimal [of _ n] assms by (simp_all add: takeWhile_append2 dropWhile_append2)
  moreover have "pytext (decimal n) \<noteq> []" by (simp add: pytext_def)
  ultimately show ?thesis by (simp add: digit_run_def)
qed

lemma digit_run_decimal [simp]:
  "digit_run (pytext (decimal n) @ 44 # s) = Some (pytext (decimal n), 44 # s)"
  "digit_run (pytext (decimal n) @ 32 # s) = Some (pytext (decimal n), 32 # s)"
  by (simp_all add: digit_run_stop)

section \<open>Lines\<close>

lemma split_lines_plain: "plain w \<Longrightarrow> split_lines (w @ 10 # rest) = (w @ [10]) # split_lines rest"
proof (induction w)
  case Nil
  have "line_break 10" by (simp add: line_break_def)
  then show ?case by simp
next
  case (Cons c w)
  have "line_break 13" by (simp add: line_break_def)
  with Cons.prems have "\<not> line_break c" and "c \<noteq> 13" and "plain w" by (auto simp: plain_def)
  with Cons.IH show ?case by simp
qed

definition complete_line :: "pystr \<Rightarrow> bool" where
  "complete_line l \<longleftrightarrow> (\<exists>w. plain w \<and> l = w @ [10])"

lemma split_lines_complete: "\<forall>l \<in> set ls. complete_line l \<Longrightarrow> split_lines (concat ls) = ls"
proof (induction ls)
  case (Cons l ls)
  then obtain w where "plain w" and "l = w @ [10]" by (auto simp: complete_line_def)
  with Cons show ?case by (simp add: split_lines_plain)
qed simp

lemma complete_lineI: "plain w \<Longrightarrow> complete_line (w @ [10])"
  by (auto simp: complete_line_def)

lemma plain_append [simp]: "plain (v @ w) \<longleftrightarrow> plain v \<and> plain w"
  by (auto simp: plain_def)

lemma plain_path: "safe_path path \<Longrightarrow> plain path"
  by (auto simp: safe_path_def plain_def path_char_def line_break_def)

lemma plain_decimal: "plain (pytext (decimal n))"
  using decimal_digits [of n] by (fastforce simp: plain_def line_break_def)

lemma plain_literals:
  "plain (pytext ''diff --git a/'')" "plain (pytext '' b/'')" "plain (pytext ''--- '')"
  "plain (pytext ''+++ '')" "plain (pytext ''/dev/null'')" "plain (pytext ''a/'')"
  "plain (pytext ''b/'')" "plain (pytext ''@@ -'')" "plain (pytext '' +'')" "plain (pytext '','')"
  "plain (pytext '' @@'')"
  by (simp_all add: plain_def pytext_def line_break_def)

lemma complete_modes: "complete_line new_mode" "complete_line deleted_mode" "complete_line no_newline"
proof -
  show "complete_line new_mode" unfolding new_mode_def
    by (rule complete_lineI) (simp add: plain_def pytext_def line_break_def)
  show "complete_line deleted_mode" unfolding deleted_mode_def
    by (rule complete_lineI) (simp add: plain_def pytext_def line_break_def)
  have "complete_line ((92 # pytext '' No newline at end of file'') @ [10])"
    by (rule complete_lineI) (simp add: plain_def pytext_def line_break_def)
  then show "complete_line no_newline" by (simp add: no_newline_def)
qed

section \<open>Hunks\<close>

lemma skip_marker_render:
  assumes "rest = [] \<or> hd rest \<noteq> no_newline"
  shows "skip_marker ((if b then [no_newline] else []) @ rest) = rest"
  using assms by (cases rest) (auto simp: skip_marker_def)

lemma hd_render_lines:
  assumes "\<forall>l \<in> set ls. valid_line l" and "rest = [] \<or> hd rest \<noteq> no_newline"
  shows "concat (map render_line ls) @ rest = [] \<or> hd (concat (map render_line ls) @ rest) \<noteq> no_newline"
  using assms by (cases ls) (auto simp: render_line_def valid_line_def no_newline_def)

lemma hunk_body_render:
  assumes "\<forall>l \<in> set ls. valid_line l" and "rest = [] \<or> hd rest \<noteq> no_newline"
  shows "hunk_body (old + old_count ls) (added + new_count ls) old added
     (concat (map render_line ls) @ rest) = Inr rest"
  using assms
proof (induction ls arbitrary: old added)
  case Nil
  then show ?case by (subst hunk_body.simps) (simp add: old_count_def new_count_def)
next
  case (Cons l ls)
  let ?old = "if bl_mark l \<noteq> 43 then 1 else (0::nat)" and ?new = "if bl_mark l \<noteq> 45 then 1 else (0::nat)"
  let ?tail = "concat (map render_line ls) @ rest"
  have counts: "old_count (l # ls) = ?old + old_count ls" "new_count (l # ls) = ?new + new_count ls"
    by (simp_all add: old_count_def new_count_def)
  from Cons.prems(1) have mark: "bl_mark l \<in> {32, 43, 45}" by (simp add: valid_line_def)
  have chars: "set (pytext '' +-'') = {32, 43, 45}" "set (pytext '' -'') = {32, 45}"
    "set (pytext '' +'') = {32, 43}"
    by (simp_all add: pytext_def)
  have skip: "skip_marker ((if bl_bare l then [no_newline] else []) @ ?tail) = ?tail"
    by (rule skip_marker_render) (rule hd_render_lines, use Cons.prems in auto)
  have IH: "hunk_body (old + ?old + old_count ls) (added + ?new + new_count ls) (old + ?old) (added + ?new) ?tail = Inr rest"
    using Cons.prems by (intro Cons.IH) auto
  have "old < old + old_count (l # ls) \<or> added < added + new_count (l # ls)"
    using mark by (auto simp: counts)
  moreover have "concat (map render_line (l # ls)) @ rest =
      (bl_mark l # bl_text l @ [10]) # ((if bl_bare l then [no_newline] else []) @ ?tail)"
    by (simp add: render_line_def)
  moreover have "old + (if bl_mark l \<in> {32, 45} then 1 else 0) = old + ?old"
    and "added + (if bl_mark l \<in> {32, 43} then 1 else 0) = added + ?new"
    using mark by auto
  ultimately show ?case
    using mark skip IH
    by (subst hunk_body.simps) (simp only: Let_def chars counts add.assoc list.sel list.distinct simp_thms if_True if_False)
qed

lemma strip_prefix_append [simp]: "strip_prefix p (p @ s) = Some s"
  by (simp add: strip_prefix_Some)

definition count_text :: "bool \<Rightarrow> nat \<Rightarrow> pystr option" where
  "count_text full n = (if n = 1 \<and> \<not> full then None else Some (pytext (decimal n)))"

lemma count_text_value: "n < 10 ^ max_digits \<Longrightarrow> count_of (count_text full n) = Inr n"
  using length_decimal [of n max_digits] by (simp add: count_text_def count_of_def max_digits_pos)

lemma render_range_run:
  "\<exists>w t. digit_run (render_range full start n @ 32 # s) = Some (w, t) \<and>
     optional_run t = Some (count_text full n, 32 # s)"
proof (cases "n = 1 \<and> \<not> full")
  case True
  moreover have "optional_run (32 # s) = Some (None, 32 # s)"
    by (simp add: optional_run_def strip_prefix_def starts_with_def pytext_def)
  ultimately show ?thesis by (simp add: render_range_def count_text_def)
next
  case False
  have comma: "pytext '','' @ s = 44 # s" for s by (simp add: pytext_def)
  have "optional_run (44 # pytext (decimal n) @ 32 # s) = Some (Some (pytext (decimal n)), 32 # s)"
    using strip_prefix_append [of "pytext '',''" "pytext (decimal n) @ 32 # s"]
    by (simp add: optional_run_def comma)
  with False show ?thesis by (auto simp: render_range_def count_text_def comma)
qed

lemma match_hunk_render:
  assumes "plain (hk_heading h)"
  shows "match_hunk (hd (render_hunk h)) =
     Some (count_text (hk_full h) (old_count (hk_body h)), count_text (hk_full h) (new_count (hk_body h)))"
proof -
  let ?old = "render_range (hk_full h) (hk_old h) (old_count (hk_body h))"
  let ?new = "render_range (hk_full h) (hk_new h) (new_count (hk_body h))"
  let ?rest = "hk_heading h @ [10]"
  have plus: "pytext '' +'' @ s = 32 # 43 # s" and ats: "pytext '' @@'' @ s = 32 # 64 # 64 # s" for s
    by (simp_all add: pytext_def)
  have p: "strip_prefix (pytext '' +'') (32 # 43 # s) = Some s"
    and a: "strip_prefix (pytext '' @@'') (32 # 64 # 64 # s) = Some s" for s
    using strip_prefix_append [of "pytext '' +''" s] strip_prefix_append [of "pytext '' @@''" s]
    by (simp_all only: plus ats)
  obtain w t where 1: "digit_run (?old @ 32 # 43 # ?new @ 32 # 64 # 64 # ?rest) = Some (w, t)"
    "optional_run t = Some (count_text (hk_full h) (old_count (hk_body h)), 32 # 43 # ?new @ 32 # 64 # 64 # ?rest)"
    using render_range_run by blast
  obtain w' t' where 2: "digit_run (?new @ 32 # 64 # 64 # ?rest) = Some (w', t')"
    "optional_run t' = Some (count_text (hk_full h) (new_count (hk_body h)), 32 # 64 # 64 # ?rest)"
    using render_range_run by blast
  have "10 \<notin> set (hk_heading h)" using assms by (auto simp: plain_def line_break_def)
  then have e: "?rest \<noteq> [] \<and> last ?rest = 10 \<and> 10 \<notin> set (butlast ?rest)" by (simp add: butlast_append)
  have head: "hd (render_hunk h) = pytext ''@@ -'' @ ?old @ 32 # 43 # ?new @ 32 # 64 # 64 # ?rest"
    by (simp add: render_hunk_def plus ats)
  show ?thesis
    unfolding head match_hunk_def strip_prefix_append Option.bind.simps 1 2 prod.case p a if_P [OF e] ..
qed

text \<open>What may follow the hunks of a file: the end, or a line that belongs to no hunk.\<close>

definition after_hunks :: "pystr list \<Rightarrow> bool" where
  "after_hunks rest \<longleftrightarrow> rest = [] \<or> hd rest \<noteq> no_newline \<and> \<not> starts_with (pytext ''@@ '') (hd rest)"

lemma render_hunk_Cons: "render_hunk h = hd (render_hunk h) # concat (map render_line (hk_body h))"
  by (simp add: render_hunk_def)

lemma hunk_line_starts: "starts_with (pytext ''@@ '') (hd (render_hunk h))"
  by (simp add: render_hunk_def starts_with_def pytext_def)

lemma hunk_line_not_marker: "hd (render_hunk h) \<noteq> no_newline"
  by (simp add: render_hunk_def no_newline_def pytext_def)

lemma hunks_render:
  assumes "\<forall>h \<in> set hs. plain (hk_heading h) \<and> (\<forall>l \<in> set (hk_body h). valid_line l) \<and>
      old_count (hk_body h) < 10 ^ max_digits \<and> new_count (hk_body h) < 10 ^ max_digits"
    and "after_hunks rest"
  shows "hunks n (concat (map render_hunk hs) @ rest) = Inr (n + length hs, rest)"
  using assms(1)
proof (induction hs arbitrary: n)
  case Nil
  with assms(2) show ?case by (subst hunks.simps) (auto simp: after_hunks_def)
next
  case (Cons h hs)
  let ?tail = "concat (map render_hunk hs) @ rest" and ?body = "hk_body h"
  from Cons.prems have valid: "\<forall>l \<in> set ?body. valid_line l" and heading: "plain (hk_heading h)" by simp_all
  have "?tail = [] \<or> hd ?tail \<noteq> no_newline"
    using assms(2) hunk_line_not_marker
    by (cases hs) (auto simp: after_hunks_def hd_append render_hunk_def)
  from hunk_body_render [OF valid this, of 0 0]
  have body: "hunk_body (old_count ?body) (new_count ?body) 0 0 (concat (map render_line ?body) @ ?tail) = Inr ?tail"
    by simp
  have cons: "concat (map render_hunk (h # hs)) @ rest =
      hd (render_hunk h) # concat (map render_line ?body) @ ?tail"
    by (subst render_hunk_Cons) (simp add: render_hunk_def)
  have counts: "count_of (count_text (hk_full h) (old_count ?body)) = Inr (old_count ?body)"
    "count_of (count_text (hk_full h) (new_count ?body)) = Inr (new_count ?body)"
    using Cons.prems by (simp_all add: count_text_value)
  have IH: "hunks (n + 1) ?tail = Inr (n + 1 + length hs, rest)"
    using Cons.prems by (intro Cons.IH) simp
  have "hunks n (hd (render_hunk h) # concat (map render_line ?body) @ ?tail) = hunks (n + 1) ?tail"
    by (subst hunks.simps)
      (simp only: list.sel list.distinct hunk_line_starts match_hunk_render [OF heading] counts body simp_thms if_True
        option.case prod.case sum.case)
  with IH show ?case unfolding cons by simp
qed

lemma nonspaces_path:
  assumes "safe_path path" and "py_space c"
  shows "nonspaces (path @ c # s) = Some (path, c # s)"
proof -
  have "\<not> py_space x" if "x \<in> set path" for x
    using assms(1) that by (auto simp: safe_path_def path_char_def py_space_def)
  with assms have "takeWhile (\<lambda>c. \<not> py_space c) (path @ c # s) = path"
    and "dropWhile (\<lambda>c. \<not> py_space c) (path @ c # s) = c # s"
    by (simp_all add: takeWhile_append2 dropWhile_append2)
  with assms(1) show ?thesis by (simp add: nonspaces_def safe_path_def)
qed

lemma match_header_render:
  assumes "safe_path path"
  shows "match_header (pytext ''diff --git a/'' @ path @ pytext '' b/'' @ path @ [10]) = Some (path, path)"
proof -
  have b: "pytext '' b/'' @ s = 32 # 98 # 47 # s" for s by (simp add: pytext_def)
  have p: "strip_prefix (pytext '' b/'') (32 # 98 # 47 # s) = Some s" for s
    using strip_prefix_append [of "pytext '' b/''" s] by (simp only: b)
  have "py_space 32" "py_space 10" by (simp_all add: py_space_def)
  with assms show ?thesis
    by (simp add: match_header_def b nonspaces_path p)
qed

lemma file_names_not_index: "\<not> match_index (hd (file_names path new deleted))"
  by (simp add: match_index_def file_names_def strip_prefix_def starts_with_def pytext_def)

lemma hex_run_stop:
  assumes "w \<noteq> []" and "list_all hex_digit w" and "\<not> hex_digit c"
  shows "hex_run (w @ c # s) = Some (c # s)"
  using assms by (auto simp: hex_run_def list_all_iff takeWhile_append2 dropWhile_append2)

lemma match_index_render:
  assumes "valid_index (Some (old, new, mode))"
  shows "match_index (pytext ''index '' @ old @ pytext ''..'' @ new @ mode @ [10])"
proof -
  from assms have w: "old \<noteq> []" "list_all hex_digit old" "new \<noteq> []" "list_all hex_digit new"
    and mode: "mode \<in> {[], pytext '' 100644'', pytext '' 100755''}" by (simp_all add: valid_index_def)
  have other: "\<not> hex_digit 46" "\<not> hex_digit 32" "\<not> hex_digit 10" by (simp_all add: hex_digit_def)
  have dots: "pytext ''..'' @ s = 46 # 46 # s" for s by (simp add: pytext_def)
  have d: "strip_prefix (pytext ''..'') (46 # 46 # s) = Some s" for s
    using strip_prefix_append [of "pytext ''..''" s] by (simp only: dots)
  obtain c t where "mode @ [10] = c # t" and "\<not> hex_digit c"
    using mode other by (auto simp: pytext_def)
  then have "hex_run (new @ mode @ [10]) = Some (mode @ [10])" using hex_run_stop [of new c t] w by simp
  moreover have "hex_run (old @ 46 # 46 # new @ mode @ [10]) = Some (46 # 46 # new @ mode @ [10])"
    using hex_run_stop w other by blast
  ultimately show ?thesis
    unfolding match_index_def dots using mode by (auto simp: d)
qed

lemma index_not_mode: "pytext ''index '' @ s \<noteq> new_mode" "pytext ''index '' @ s \<noteq> deleted_mode"
  by (simp_all add: new_mode_def deleted_mode_def pytext_def)

lemma file_names_not_mode: "hd (file_names path new deleted) \<notin> {new_mode, deleted_mode}"
  by (simp add: file_names_def new_mode_def deleted_mode_def pytext_def)

lemma mode_prefixes:
  "starts_with (pytext ''new'') new_mode" "\<not> starts_with (pytext ''new'') deleted_mode"
  "starts_with (pytext ''deleted'') deleted_mode" "\<not> starts_with (pytext ''deleted'') new_mode"
  "new_mode \<noteq> deleted_mode"
  by (simp_all add: new_mode_def deleted_mode_def starts_with_def pytext_def)

lemma patch_section_render:
  assumes "valid_change c" and "after_hunks rest"
  shows "patch_section i (render_change c @ rest) = Inr (fc_file c, rest)"
proof -
  let ?path = "pf_path (fc_file c)" and ?new = "pf_new (fc_file c)" and ?del = "pf_deleted (fc_file c)"
  let ?hunks = "concat (map render_hunk (fc_hunks c)) @ rest"
  let ?names = "file_names ?path ?new ?del"
  from assms(1) have path: "validate_path ?path = Inr ?path" and safe: "safe_path ?path"
    and once: "\<not> (?new \<and> ?del)" and some: "fc_hunks c \<noteq> []"
    by (auto simp: valid_change_def dest: validate_path_Inr)
  have hs: "hunks 0 ?hunks = Inr (length (fc_hunks c), rest)"
    using hunks_render [of "fc_hunks c" rest 0] assms by (simp add: valid_change_def)
  obtain n1 n2 where names: "?names = [n1, n2]" by (simp add: file_names_def)
  with file_names_not_index [of ?path ?new ?del] file_names_not_mode [of ?path ?new ?del]
  have n1: "\<not> match_index n1" "n1 \<noteq> new_mode" "n1 \<noteq> deleted_mode" by simp_all
  show ?thesis
  proof (cases "fc_index c")
    case None
    then have lns: "render_change c @ rest =
        (pytext ''diff --git a/'' @ ?path @ pytext '' b/'' @ ?path @ [10]) #
        (if ?new then [new_mode] else if ?del then [deleted_mode] else []) @ n1 # n2 # ?hunks"
      by (simp add: render_change_def Let_def names render_index_def)
    show ?thesis
      unfolding lns patch_section_def list.sel match_header_render [OF safe] option.case prod.case
      using once some names n1 path hs mode_prefixes
      by (cases ?new; cases ?del) (simp_all add: Let_def eval_nat_numeral)
  next
    case (Some i)
    obtain old new mode where i: "i = (old, new, mode)" by (cases i)
    let ?index = "pytext ''index '' @ old @ pytext ''..'' @ new @ mode @ [10]"
    have lns: "render_change c @ rest =
        (pytext ''diff --git a/'' @ ?path @ pytext '' b/'' @ ?path @ [10]) #
        (if ?new then [new_mode] else if ?del then [deleted_mode] else []) @ ?index # n1 # n2 # ?hunks"
      by (simp add: render_change_def Let_def names render_index_def Some i)
    have "valid_index (Some (old, new, mode))" using assms(1) Some i by (simp add: valid_change_def)
    note index = match_index_render [OF this] index_not_mode [of "old @ pytext ''..'' @ new @ mode @ [10]"]
    show ?thesis
      unfolding lns patch_section_def list.sel match_header_render [OF safe] option.case prod.case
      using once some names n1 path hs mode_prefixes index
      by (cases ?new; cases ?del) (simp_all add: Let_def eval_nat_numeral)
  qed
qed

lemma after_hunks_changes: "after_hunks (concat (map render_change cs))"
  by (cases cs) (simp_all add: after_hunks_def render_change_def Let_def no_newline_def starts_with_def pytext_def)

lemma patch_files_render:
  "\<forall>c \<in> set cs. valid_change c \<Longrightarrow> patch_files n (concat (map render_change cs)) = Inr (map fc_file cs)"
proof (induction cs)
  case Nil
  then show ?case by (subst patch_files.simps) simp
next
  case (Cons c cs)
  have "patch_section i (render_change c @ concat (map render_change cs)) =
      Inr (fc_file c, concat (map render_change cs))" for i
    using Cons.prems by (intro patch_section_render after_hunks_changes) simp
  moreover have "render_change c @ concat (map render_change cs) \<noteq> []"
    by (simp add: render_change_def Let_def)
  moreover have "patch_files n (concat (map render_change cs)) = Inr (map fc_file cs)"
    using Cons by simp
  ultimately have "patch_files n (render_change c @ concat (map render_change cs)) =
      Inr (fc_file c # map fc_file cs)"
    by (subst patch_files.simps) (simp only: if_False sum.case prod.case bindE_Inr)
  then show ?case by simp
qed

lemma render_hunk_complete:
  assumes "\<forall>l \<in> set (hk_body h). valid_line l" and heading: "plain (hk_heading h)"
  shows "\<forall>l \<in> set (render_hunk h). complete_line l"
proof -
  have "plain (render_range full start n)" for full start n
    by (simp add: render_range_def plain_literals plain_decimal) (simp add: plain_def)
  then have "complete_line (hd (render_hunk h))"
    by (simp add: render_hunk_def flip: append_assoc)
      (rule complete_lineI, simp add: plain_literals heading)
  moreover have "complete_line l" if "l \<in> set (concat (map render_line (hk_body h)))" for l
  proof -
    from that obtain b where b: "b \<in> set (hk_body h)" and l: "l = (bl_mark b # bl_text b) @ [10] \<or> l = no_newline"
      by (auto simp: render_line_def split: if_splits)
    from assms(1) b have "plain (bl_mark b # bl_text b)"
      by (auto simp: valid_line_def plain_def line_break_def)
    with l show ?thesis using complete_modes complete_lineI by blast
  qed
  ultimately show ?thesis by (subst render_hunk_Cons) auto
qed

lemma index_complete:
  assumes "valid_index i"
  shows "\<forall>l \<in> set (render_index i). complete_line l"
proof (cases i)
  case (Some x)
  obtain old new mode where x: "x = (old, new, mode)" by (cases x)
  have "plain w" if "list_all hex_digit w" for w
    using that by (auto simp: list_all_iff plain_def hex_digit_def line_break_def)
  moreover have "plain (pytext ''index '')" "plain (pytext ''..'')" "plain []" "plain (pytext '' 100644'')" "plain (pytext '' 100755'')"
    by (simp_all add: plain_def pytext_def line_break_def)
  ultimately have "complete_line ((pytext ''index '' @ old @ pytext ''..'' @ new @ mode) @ [10])"
    using assms by (intro complete_lineI) (auto simp: valid_index_def Some x)
  then show ?thesis by (simp add: render_index_def Some x)
qed (simp add: render_index_def)

lemma render_change_complete:
  assumes "valid_change c"
  shows "\<forall>l \<in> set (render_change c). complete_line l"
proof -
  let ?path = "pf_path (fc_file c)"
  from assms have plain: "plain ?path" by (auto simp: valid_change_def dest: validate_path_Inr intro: plain_path)
  have head: "complete_line ((pytext ''diff --git a/'' @ ?path @ pytext '' b/'' @ ?path) @ [10])"
    using plain by (intro complete_lineI) (simp add: plain_literals)
  have "complete_line ((pytext ''--- '' @ (if new then pytext ''/dev/null'' else pytext ''a/'' @ ?path)) @ [10])"
    and "complete_line ((pytext ''+++ '' @ (if del then pytext ''/dev/null'' else pytext ''b/'' @ ?path)) @ [10])"
    for new del
    using plain by (intro complete_lineI; simp add: plain_literals)+
  then have names: "\<forall>l \<in> set (file_names ?path new del). complete_line l" for new del
    by (simp add: file_names_def)
  have "\<forall>h \<in> set (fc_hunks c). \<forall>l \<in> set (render_hunk h). complete_line l"
    using assms render_hunk_complete by (auto simp: valid_change_def)
  moreover have "\<forall>l \<in> set (render_index (fc_index c)). complete_line l"
    using assms by (intro index_complete) (simp add: valid_change_def)
  ultimately show ?thesis using head names complete_modes by (auto simp: render_change_def Let_def)
qed

lemma split_lines_render:
  "\<forall>c \<in> set cs. valid_change c \<Longrightarrow> split_lines (render_patch cs) = concat (map render_change cs)"
  unfolding render_patch_def using render_change_complete by (intro split_lines_complete) auto

section \<open>Properties\<close>

text \<open>
  C26. Every well-formed patch is accepted: \<open>parse_patch\<close>, given the text Git writes for a list
  of file changes and the list of their paths, returns exactly the files with their flags. The text may have an
  \<open>index\<close> line with or without the mode, counts of one written or left out, headings behind the ranges and lines
  without a final line feed.
\<close>

theorem parse_patch_render:
  assumes "\<forall>c \<in> set cs. valid_change c"
    and "distinct (map (\<lambda>c. map lower_ascii (pf_path (fc_file c))) cs)"
    and "0 \<notin> set (render_patch cs)" and "utf8_length (render_patch cs) = Some n" and "n \<le> 262144"
  shows "parse_patch (render_patch cs) (map (\<lambda>c. pf_path (fc_file c)) cs) = Inr (map fc_file cs)"
proof -
  let ?files = "map (\<lambda>c. pf_path (fc_file c)) cs"
  have valid: "mapE validate_path ?files = Inr ?files"
    using assms(1) by (simp add: mapE_eq_Inr list_all2_map1 list_all2_map2 list_all2_same valid_change_def)
  have "oversized (render_patch cs) = Inr False" using assms(3-5) by (simp add: oversized_def)
  moreover have "distinct (map (map lower_ascii) ?files)" using assms(2) by (simp add: comp_def)
  moreover have "patch_files (length (split_lines (render_patch cs))) (split_lines (render_patch cs))
      = Inr (map fc_file cs)"
    using assms(1) patch_files_render by (simp add: split_lines_render)
  ultimately show ?thesis by (simp add: parse_patch_def valid comp_def image_image)
qed

definition sample_change :: file_change where
  "sample_change = \<lparr>fc_file = \<lparr>pf_path = pytext ''app/a.py'', pf_new = False, pf_deleted = False\<rparr>,
     fc_index = Some (pytext ''0a1b2c3'', pytext ''d4e5f60'', pytext '' 100644''),
     fc_hunks = [\<lparr>hk_old = 1, hk_new = 1, hk_full = False, hk_heading = pytext '' def f():'', hk_body =
       [\<lparr>bl_mark = 45, bl_text = pytext ''w'', bl_bare = False\<rparr>, \<lparr>bl_mark = 43, bl_text = pytext ''v'', bl_bare = False\<rparr>]\<rparr>,
       \<lparr>hk_old = 3, hk_new = 3, hk_full = False, hk_heading = [], hk_body =
       [\<lparr>bl_mark = 32, bl_text = pytext ''x = 1'', bl_bare = False\<rparr>,
        \<lparr>bl_mark = 45, bl_text = pytext ''y = 1'', bl_bare = False\<rparr>,
        \<lparr>bl_mark = 43, bl_text = pytext ''y = 2'', bl_bare = True\<rparr>]\<rparr>]\<rparr>"

lemma sample_valid: "valid_change sample_change"
proof -
  have "(2::nat) < 10 ^ max_digits" "(1::nat) < 10 ^ max_digits"
    using max_digits_pos power_increasing [of 1 max_digits "10::nat"] by simp_all
  moreover have "validate_path (pytext ''app/a.py'') = Inr (pytext ''app/a.py'')" by code_simp
  ultimately show ?thesis
    by (simp add: valid_change_def sample_change_def valid_line_def valid_index_def hex_digit_def plain_def pytext_def
        line_break_def old_count_def new_count_def)
qed

lemma parse_patch_render_witness:
  "parse_patch (render_patch [sample_change]) [pytext ''app/a.py''] = Inr [fc_file sample_change]"
proof -
  have "utf8_length (render_patch [sample_change]) = Some 185" by code_simp
  moreover have "0 \<notin> set (render_patch [sample_change])" by code_simp
  ultimately have "parse_patch (render_patch [sample_change]) (map (\<lambda>c. pf_path (fc_file c)) [sample_change])
      = Inr (map fc_file [sample_change])"
    by (intro parse_patch_render [where n = 185]) (auto simp: sample_valid)
  then show ?thesis by (simp add: sample_change_def)
qed

text \<open>
  C28. What \<open>parse_patch\<close> accepts changes exactly the declared files: one section per file, the
  paths distinct without regard to case, and none of them absolute, outside the repository or in
  a protected place: no component is empty, a dot or two, ends with a dot, begins with \<open>.env\<close>, is one of the
  names of version control, credentials and secrets, has the suffix of a key or certificate, or is a device
  of Windows before its first dot, all without regard to case.
\<close>

theorem parse_patch_safe:
  assumes "parse_patch patch files = Inr output"
  shows "set (map pf_path output) = set files \<and> length output = length files \<and>
    distinct (map (map lower_ascii) (map pf_path output)) \<and> (\<forall>f \<in> set output. safe_path (pf_path f))"
proof -
  note accepted = parse_patch_Inr [OF assms]
  have "distinct files" using accepted(3) by (simp add: distinct_map)
  then have "length output = length files"
    using accepted(1,2) by (metis distinct_card length_map)
  moreover have "distinct (map (map lower_ascii) (map pf_path output))"
    using accepted(1-3) by (auto simp: distinct_map comp_inj_on)
  moreover have "\<forall>p \<in> set (map pf_path output). safe_path p" using accepted(1,4) by simp
  ultimately show ?thesis using accepted(1) by auto
qed

lemma parse_patch_safe_witness:
  "\<exists>output. parse_patch (render_patch [sample_change]) [pytext ''app/a.py''] = Inr output \<and>
     set (map pf_path output) = {pytext ''app/a.py''}"
proof -
  have "parse_patch (render_patch [sample_change]) [pytext ''app/a.py''] =
      Inr [\<lparr>pf_path = pytext ''app/a.py'', pf_new = False, pf_deleted = False\<rparr>]"
    by code_simp
  from this parse_patch_safe [OF this] show ?thesis by auto
qed

end
