(* ===== verification/Chunking.thy ===== *)
theory Chunking
  imports Text
begin

text \<open>
  \<^verbatim>\<open>app/indexing/chunking.py\<close>: a source file is cut into chunks of whole lines, each within a
  number of lines and of characters; a cut prefers the start of a Python definition, then a blank
  line, in the second half of the chunk. The loop makes progress only because of its earlier checks,
  so it is a partial function here, and that it returns is a theorem.
\<close>

section \<open>The code\<close>

record source_file =
  src_path :: pystr
  src_language :: string
  src_content :: pystr

record chunk =
  chunk_file_path :: pystr
  chunk_language :: string
  chunk_start_line :: nat
  chunk_end_line :: nat
  chunk_content :: pystr
  chunk_content_hash :: string

datatype chunk_error = Invalid_chunk_limits | Line_exceeds_limit | Unicode_encode_error

text \<open>
  \<open>ast.parse\<close> is an argument: the numbers of the line of a top-level definition and of its
  decorators, for every one of them, or \<open>None\<close> for a syntax error.
\<close>

definition definition_boundaries :: "(pystr \<Rightarrow> nat list list option) \<Rightarrow> source_file \<Rightarrow> nat list" where
  "definition_boundaries parse source =
     (if src_language source = ''python''
      then case parse (src_content source) of None \<Rightarrow> [] | Some nodes \<Rightarrow> map (\<lambda>ls. Min (set ls) - 1) nodes
      else [])"

text \<open>The inner loop: how many of the lines that are left fit.\<close>

fun fitting :: "int \<Rightarrow> int \<Rightarrow> nat \<Rightarrow> nat \<Rightarrow> pystr list \<Rightarrow> nat" where
  "fitting max_lines max_chars n used [] = n"
| "fitting max_lines max_chars n used (l # ls) =
     (if int n < max_lines \<and> int (used + length l) \<le> max_chars
      then fitting max_lines max_chars (Suc n) (used + length l) ls else n)"

definition blank_line :: "pystr \<Rightarrow> bool" where
  "blank_line l \<longleftrightarrow> (\<forall>c \<in> set l. py_space c)"

definition preferred_ends :: "nat list \<Rightarrow> pystr list \<Rightarrow> nat \<Rightarrow> nat \<Rightarrow> nat list" where
  "preferred_ends boundaries lines lowest end =
     (let marked = filter (\<lambda>p. lowest \<le> p \<and> p \<le> end) boundaries
      in if marked = [] then filter (\<lambda>p. blank_line (lines ! (p - 1))) [lowest..<Suc end] else marked)"

definition chunk_end :: "int \<Rightarrow> int \<Rightarrow> nat list \<Rightarrow> pystr list \<Rightarrow> nat \<Rightarrow> nat" where
  "chunk_end max_lines max_chars boundaries lines start =
     (let end = start + fitting max_lines max_chars 0 0 (drop start lines)
      in if end < length lines
         then let preferred = preferred_ends boundaries lines (start + max 1 ((end - start) div 2)) end
              in if preferred = [] then end else Max (set preferred)
         else end)"

definition make_chunk :: "(pystr \<Rightarrow> string) \<Rightarrow> source_file \<Rightarrow> pystr list \<Rightarrow> nat \<Rightarrow> nat \<Rightarrow> chunk" where
  "make_chunk sha source lines start end =
     (let content = concat (take (end - start) (drop start lines))
      in \<lparr>chunk_file_path = src_path source, chunk_language = src_language source,
          chunk_start_line = start + 1, chunk_end_line = end, chunk_content = content,
          chunk_content_hash = sha content\<rparr>)"

text \<open>The outer loop. Hashing encodes the content, which fails on a surrogate.\<close>

partial_function (option) chunk_loop ::
  "(pystr \<Rightarrow> string) \<Rightarrow> int \<Rightarrow> int \<Rightarrow> nat list \<Rightarrow> source_file \<Rightarrow> pystr list \<Rightarrow> nat \<Rightarrow>
    (chunk_error + chunk list) option" where
  "chunk_loop sha max_lines max_chars boundaries source lines start =
     (if start < length lines
      then let end = chunk_end max_lines max_chars boundaries lines start;
               c = make_chunk sha source lines start end
           in if utf8_length (chunk_content c) = None then Some (Inl Unicode_encode_error)
              else Option.bind (chunk_loop sha max_lines max_chars boundaries source lines end)
                     (\<lambda>rest. Some (bindE rest (\<lambda>cs. Inr (c # cs))))
      else Some (Inr []))"

definition chunk_source ::
  "(pystr \<Rightarrow> nat list list option) \<Rightarrow> (pystr \<Rightarrow> string) \<Rightarrow> source_file \<Rightarrow> int \<Rightarrow> int \<Rightarrow>
    (chunk_error + chunk list) option" where
  "chunk_source parse sha source max_lines max_chars =
     (if max_lines < 1 \<or> max_chars < 1 then Some (Inl Invalid_chunk_limits)
      else let lines = split_lines (src_content source)
        in if \<exists>l \<in> set lines. int (length l) > max_chars then Some (Inl Line_exceeds_limit)
           else chunk_loop sha max_lines max_chars (definition_boundaries parse source) source lines 0)"

section \<open>One cut\<close>

lemma fitting_bounds:
  "int n \<le> max_lines \<Longrightarrow> int used \<le> max_chars \<Longrightarrow>
    n \<le> fitting max_lines max_chars n used ls \<and>
    fitting max_lines max_chars n used ls \<le> n + length ls \<and>
    int (fitting max_lines max_chars n used ls) \<le> max_lines \<and>
    int (used + length (concat (take (fitting max_lines max_chars n used ls - n) ls))) \<le> max_chars"
proof (induction ls arbitrary: n used)
  case (Cons l ls)
  show ?case
  proof (cases "int n < max_lines \<and> int (used + length l) \<le> max_chars")
    case True
    let ?m = "fitting max_lines max_chars (Suc n) (used + length l) ls"
    from True Cons.IH [of "Suc n" "used + length l"]
    have m: "Suc n \<le> ?m" "?m \<le> Suc n + length ls" "int ?m \<le> max_lines"
      "int (used + length l + length (concat (take (?m - Suc n) ls))) \<le> max_chars"
      by simp_all
    then have "?m - n = Suc (?m - Suc n)" by linarith
    then have "take (?m - n) (l # ls) = l # take (?m - Suc n) ls" by simp
    with True m show ?thesis by simp
  next
    case False
    with Cons.prems show ?thesis by auto
  qed
qed simp

lemma fitting_first:
  assumes "1 \<le> max_lines" and "ls \<noteq> []" and "\<forall>l \<in> set ls. int (length l) \<le> max_chars"
  shows "1 \<le> fitting max_lines max_chars 0 0 ls"
proof (cases ls)
  case (Cons l ls')
  with assms fitting_bounds [of 1 max_lines "length l" max_chars ls'] show ?thesis by auto
qed (use assms in simp)

lemma preferred_ends_range:
  "p \<in> set (preferred_ends boundaries lines lowest end) \<Longrightarrow> lowest \<le> p \<and> p \<le> end"
  by (auto simp: preferred_ends_def Let_def split: if_splits)

text \<open>Every cut takes at least one line and at most what fits.\<close>

lemma chunk_end_range:
  assumes "1 \<le> max_lines" and "start < length lines" and "\<forall>l \<in> set lines. int (length l) \<le> max_chars"
  shows "start < chunk_end max_lines max_chars boundaries lines start"
    and "chunk_end max_lines max_chars boundaries lines start \<le>
      start + fitting max_lines max_chars 0 0 (drop start lines)"
proof -
  let ?stop = "start + fitting max_lines max_chars 0 0 (drop start lines)"
  let ?ps = "preferred_ends boundaries lines (start + max 1 ((?stop - start) div 2)) ?stop"
  have first: "1 \<le> fitting max_lines max_chars 0 0 (drop start lines)"
    using assms by (intro fitting_first) (auto dest: in_set_dropD)
  show "start < chunk_end max_lines max_chars boundaries lines start"
  proof (cases "?stop < length lines \<and> ?ps \<noteq> []")
    case True
    then have "Max (set ?ps) \<in> set ?ps" by simp
    with preferred_ends_range have "start + max 1 ((?stop - start) div 2) \<le> Max (set ?ps)" by blast
    with True show ?thesis by (simp add: chunk_end_def Let_def)
  next
    case False
    with first show ?thesis by (auto simp: chunk_end_def Let_def)
  qed
  show "chunk_end max_lines max_chars boundaries lines start \<le> ?stop"
  proof (cases "?stop < length lines \<and> ?ps \<noteq> []")
    case True
    then have "Max (set ?ps) \<in> set ?ps" by simp
    with preferred_ends_range have "Max (set ?ps) \<le> ?stop" by blast
    with True show ?thesis by (simp add: chunk_end_def Let_def)
  next
    case False
    then show ?thesis by (auto simp: chunk_end_def Let_def)
  qed
qed

section \<open>The whole file\<close>

text \<open>What a list of chunks of the lines from \<open>start\<close> on has to satisfy.\<close>

fun tiles :: "(pystr \<Rightarrow> string) \<Rightarrow> int \<Rightarrow> int \<Rightarrow> source_file \<Rightarrow> pystr list \<Rightarrow> nat \<Rightarrow> chunk list \<Rightarrow> bool" where
  "tiles sha max_lines max_chars source lines start [] \<longleftrightarrow> start = length lines"
| "tiles sha max_lines max_chars source lines start (c # cs) \<longleftrightarrow>
     start < chunk_end_line c \<and> chunk_end_line c \<le> length lines \<and>
     int (chunk_end_line c - start) \<le> max_lines \<and> int (length (chunk_content c)) \<le> max_chars \<and>
     c = make_chunk sha source lines start (chunk_end_line c) \<and>
     tiles sha max_lines max_chars source lines (chunk_end_line c) cs"

lemma utf8_length_append:
  "utf8_length (xs @ ys) = Some n \<Longrightarrow> (\<exists>a b. utf8_length xs = Some a \<and> utf8_length ys = Some b)"
  by (induction xs arbitrary: n) (fastforce split: if_splits)+

lemma utf8_length_append_None:
  "utf8_length xs = None \<or> utf8_length ys = None \<Longrightarrow> utf8_length (xs @ ys) = None"
  by (cases "utf8_length (xs @ ys)") (auto dest: utf8_length_append)

lemma concat_drop_split:
  "a \<le> b \<Longrightarrow> concat (drop a ls) = concat (take (b - a) (drop a ls)) @ concat (drop b ls)"
  by (metis append_take_drop_id concat_append drop_drop le_add_diff_inverse2)

lemma chunk_loop_tiles:
  assumes limits: "1 \<le> max_lines" "1 \<le> max_chars" and short: "\<forall>l \<in> set lines. int (length l) \<le> max_chars"
    and start: "start \<le> length lines"
  shows "\<exists>r. chunk_loop sha max_lines max_chars boundaries source lines start = Some r \<and>
    (case r of Inl e \<Rightarrow> e = Unicode_encode_error \<and> utf8_length (concat (drop start lines)) = None
     | Inr cs \<Rightarrow> tiles sha max_lines max_chars source lines start cs)"
  using start
proof (induction "length lines - start" arbitrary: start rule: less_induct)
  case less
  note loop = chunk_loop.simps [of sha max_lines max_chars boundaries source lines start]
  show ?case
  proof (cases "start < length lines")
    case False
    with less.prems show ?thesis by (subst loop) simp
  next
    case True
    let ?stop = "chunk_end max_lines max_chars boundaries lines start"
    let ?c = "make_chunk sha source lines start ?stop"
    let ?n = "fitting max_lines max_chars 0 0 (drop start lines)"
    have more: "start < ?stop" and up: "?stop \<le> start + ?n"
      using chunk_end_range [OF limits(1) True short] by auto
    have n: "?n \<le> length lines - start" "int ?n \<le> max_lines"
      "int (length (concat (take ?n (drop start lines)))) \<le> max_chars"
      using fitting_bounds [of 0 max_lines 0 max_chars "drop start lines"] limits by auto
    have le: "?stop \<le> length lines" using up n(1) True by linarith
    have content: "chunk_content ?c = concat (take (?stop - start) (drop start lines))"
      and last: "chunk_end_line ?c = ?stop" by (simp_all add: make_chunk_def Let_def)
    have split: "concat (drop start lines) = chunk_content ?c @ concat (drop ?stop lines)"
      using more unfolding content by (intro concat_drop_split) simp
    have "?stop - start \<le> ?n" using up by linarith
    then have "take (?stop - start) (take ?n (drop start lines)) = take (?stop - start) (drop start lines)"
      by (simp add: take_take min_def)
    then have "take ?n (drop start lines) =
        take (?stop - start) (drop start lines) @ drop (?stop - start) (take ?n (drop start lines))"
      by (metis append_take_drop_id)
    then have "length (chunk_content ?c) \<le> length (concat (take ?n (drop start lines)))"
      unfolding content by (metis concat_append length_append le_add1)
    with n(3) have size: "int (length (chunk_content ?c)) \<le> max_chars" by linarith
    show ?thesis
    proof (cases "utf8_length (chunk_content ?c) = None")
      case bad: True
      then have "utf8_length (concat (drop start lines)) = None"
        unfolding split by (simp add: utf8_length_append_None)
      with bad True show ?thesis by (subst loop) (simp add: Let_def)
    next
      case False
      have "length lines - ?stop < length lines - start" using more le by simp
      from less.hyps [OF this le] obtain r
        where r: "chunk_loop sha max_lines max_chars boundaries source lines ?stop = Some r"
          and ok: "case r of Inl e \<Rightarrow> e = Unicode_encode_error \<and> utf8_length (concat (drop ?stop lines)) = None
            | Inr cs \<Rightarrow> tiles sha max_lines max_chars source lines ?stop cs" by blast
      have eq: "chunk_loop sha max_lines max_chars boundaries source lines start =
          Some (bindE r (\<lambda>cs. Inr (?c # cs)))"
        using True False r by (subst loop) (auto simp: Let_def)
      show ?thesis
      proof (cases r)
        case (Inl e)
        with ok have "utf8_length (concat (drop start lines)) = None"
          unfolding split by (simp add: utf8_length_append_None)
        with eq Inl ok show ?thesis by simp
      next
        case (Inr cs)
        with eq ok more le up n(2) size last show ?thesis by simp
      qed
    qed
  qed
qed

lemma tiles_cover:
  "tiles sha max_lines max_chars source lines start cs \<Longrightarrow>
    concat (map chunk_content cs) = concat (drop start lines)"
proof (induction cs arbitrary: start)
  case (Cons c cs)
  then have c: "c = make_chunk sha source lines start (chunk_end_line c)" and more: "start < chunk_end_line c"
    and rest: "concat (map chunk_content cs) = concat (drop (chunk_end_line c) lines)" by auto
  have "chunk_content c = concat (take (chunk_end_line c - start) (drop start lines))"
    by (subst c) (simp add: make_chunk_def Let_def)
  with rest concat_drop_split [of start "chunk_end_line c" lines] more show ?case by simp
qed simp

lemma tiles_nth:
  assumes "tiles sha max_lines max_chars source lines start cs" and "i < length cs"
  shows "chunk_start_line (cs ! i) = Suc (if i = 0 then start else chunk_end_line (cs ! (i - 1)))"
    and "chunk_start_line (cs ! i) \<le> chunk_end_line (cs ! i)"
    and "int (Suc (chunk_end_line (cs ! i)) - chunk_start_line (cs ! i)) \<le> max_lines"
    and "int (length (chunk_content (cs ! i))) \<le> max_chars"
    and "cs ! i = make_chunk sha source lines (chunk_start_line (cs ! i) - 1) (chunk_end_line (cs ! i))"
proof -
  have "\<exists>a. a = (if i = 0 then start else chunk_end_line (cs ! (i - 1))) \<and> a < chunk_end_line (cs ! i) \<and>
      int (chunk_end_line (cs ! i) - a) \<le> max_lines \<and> int (length (chunk_content (cs ! i))) \<le> max_chars \<and>
      cs ! i = make_chunk sha source lines a (chunk_end_line (cs ! i))"
    using assms
  proof (induction cs arbitrary: start i)
    case (Cons c cs)
    show ?case
    proof (cases i)
      case 0
      with Cons.prems(1) show ?thesis by (auto simp: of_nat_diff)
    next
      case (Suc j)
      with Cons.prems have "tiles sha max_lines max_chars source lines (chunk_end_line c) cs" "j < length cs"
        by simp_all
      from Cons.IH [OF this] Suc show ?thesis by (cases j) (auto simp: of_nat_diff)
    qed
  qed simp
  then obtain a where a: "a = (if i = 0 then start else chunk_end_line (cs ! (i - 1)))"
    "a < chunk_end_line (cs ! i)" "int (chunk_end_line (cs ! i) - a) \<le> max_lines"
    "int (length (chunk_content (cs ! i))) \<le> max_chars"
    and c: "cs ! i = make_chunk sha source lines a (chunk_end_line (cs ! i))" by blast
  have start: "chunk_start_line (cs ! i) = Suc a" by (subst c) (simp add: make_chunk_def Let_def)
  with a c show "chunk_start_line (cs ! i) = Suc (if i = 0 then start else chunk_end_line (cs ! (i - 1)))"
    and "chunk_start_line (cs ! i) \<le> chunk_end_line (cs ! i)"
    and "int (Suc (chunk_end_line (cs ! i)) - chunk_start_line (cs ! i)) \<le> max_lines"
    and "int (length (chunk_content (cs ! i))) \<le> max_chars"
    and "cs ! i = make_chunk sha source lines (chunk_start_line (cs ! i) - 1) (chunk_end_line (cs ! i))"
    by simp_all
qed

lemma tiles_last:
  "tiles sha max_lines max_chars source lines start cs \<Longrightarrow> cs \<noteq> [] \<Longrightarrow>
    chunk_end_line (last cs) = length lines"
  by (induction cs arbitrary: start) auto

section \<open>Correctness\<close>

lemma chunk_source_outcome:
  "\<exists>r. chunk_source parse sha source max_lines max_chars = Some r \<and>
    (case r of
       Inl Invalid_chunk_limits \<Rightarrow> max_lines < 1 \<or> max_chars < 1
     | Inl Line_exceeds_limit \<Rightarrow> \<exists>l \<in> set (split_lines (src_content source)). int (length l) > max_chars
     | Inl Unicode_encode_error \<Rightarrow> utf8_length (src_content source) = None
     | Inr cs \<Rightarrow> concat (map chunk_content cs) = src_content source \<and>
         (cs \<noteq> [] \<longrightarrow> chunk_end_line (last cs) = length (split_lines (src_content source))) \<and>
         (\<forall>i < length cs.
            chunk_start_line (cs ! i) = Suc (if i = 0 then 0 else chunk_end_line (cs ! (i - 1))) \<and>
            chunk_start_line (cs ! i) \<le> chunk_end_line (cs ! i) \<and>
            int (Suc (chunk_end_line (cs ! i)) - chunk_start_line (cs ! i)) \<le> max_lines \<and>
            int (length (chunk_content (cs ! i))) \<le> max_chars \<and>
            chunk_content_hash (cs ! i) = sha (chunk_content (cs ! i)) \<and>
            chunk_file_path (cs ! i) = src_path source))"
proof (cases "max_lines < 1 \<or> max_chars < 1 \<or>
    (\<exists>l \<in> set (split_lines (src_content source)). int (length l) > max_chars)")
  case True
  then show ?thesis by (auto simp: chunk_source_def Let_def)
next
  case False
  let ?lines = "split_lines (src_content source)"
  let ?loop = "chunk_loop sha max_lines max_chars (definition_boundaries parse source) source ?lines 0"
  from False have "1 \<le> max_lines" "1 \<le> max_chars" "\<forall>l \<in> set ?lines. int (length l) \<le> max_chars" by auto
  from chunk_loop_tiles [OF this le0] obtain r where r: "?loop = Some r"
    and ok: "case r of Inl e \<Rightarrow> e = Unicode_encode_error \<and> utf8_length (concat (drop 0 ?lines)) = None
      | Inr cs \<Rightarrow> tiles sha max_lines max_chars source ?lines 0 cs" by blast
  have src: "chunk_source parse sha source max_lines max_chars = Some r"
    using False r by (auto simp: chunk_source_def Let_def)
  show ?thesis
  proof (cases r)
    case (Inl e)
    with ok src show ?thesis by simp
  next
    case (Inr cs)
    with ok have t: "tiles sha max_lines max_chars source ?lines 0 cs" by simp
    have "chunk_content_hash c = sha (chunk_content c) \<and> chunk_file_path c = src_path source"
      if "c = make_chunk sha source ?lines a b" for a b c
      unfolding that by (simp add: make_chunk_def Let_def)
    with tiles_nth [OF t] have "\<forall>i < length cs.
        chunk_start_line (cs ! i) = Suc (if i = 0 then 0 else chunk_end_line (cs ! (i - 1))) \<and>
        chunk_start_line (cs ! i) \<le> chunk_end_line (cs ! i) \<and>
        int (Suc (chunk_end_line (cs ! i)) - chunk_start_line (cs ! i)) \<le> max_lines \<and>
        int (length (chunk_content (cs ! i))) \<le> max_chars \<and>
        chunk_content_hash (cs ! i) = sha (chunk_content (cs ! i)) \<and>
        chunk_file_path (cs ! i) = src_path source" by blast
    moreover have "concat (map chunk_content cs) = src_content source"
      "cs \<noteq> [] \<longrightarrow> chunk_end_line (last cs) = length ?lines"
      using tiles_cover [OF t] tiles_last [OF t] by simp_all
    moreover have "chunk_source parse sha source max_lines max_chars = Some (Inr cs)" using src Inr by simp
    ultimately show ?thesis by (intro exI [of _ "Inr cs"]) (simp only: sum.case simp_thms)
  qed
qed

text \<open>C40. Chunking always returns. Limits below one are refused, then a file with a line that is too
  long; otherwise, unless the file holds a surrogate, its chunks in order concatenate to exactly the
  file, number its lines consecutively from one to the last, hold at least one and at most the allowed
  lines and at most the allowed characters, and carry the hash of their content.\<close>

theorem chunk_source_correct:
  "\<exists>r. chunk_source parse sha source max_lines max_chars = Some r \<and>
    (case r of
       Inl Invalid_chunk_limits \<Rightarrow> max_lines < 1 \<or> max_chars < 1
     | Inl Line_exceeds_limit \<Rightarrow> \<exists>l \<in> set (split_lines (src_content source)). int (length l) > max_chars
     | Inl Unicode_encode_error \<Rightarrow> utf8_length (src_content source) = None
     | Inr cs \<Rightarrow> concat (map chunk_content cs) = src_content source \<and>
         (cs \<noteq> [] \<longrightarrow> chunk_end_line (last cs) = length (split_lines (src_content source))) \<and>
         (\<forall>i < length cs.
            chunk_start_line (cs ! i) = Suc (if i = 0 then 0 else chunk_end_line (cs ! (i - 1))) \<and>
            chunk_start_line (cs ! i) \<le> chunk_end_line (cs ! i) \<and>
            int (Suc (chunk_end_line (cs ! i)) - chunk_start_line (cs ! i)) \<le> max_lines \<and>
            int (length (chunk_content (cs ! i))) \<le> max_chars \<and>
            chunk_content_hash (cs ! i) = sha (chunk_content (cs ! i)) \<and>
            chunk_file_path (cs ! i) = src_path source))"
  by (rule chunk_source_outcome)

definition sample_source :: source_file where
  "sample_source = \<lparr>src_path = pytext ''m.py'', src_language = ''python'',
     src_content = [97, 10, 98, 10, 100, 101, 102, 10, 32, 112]\<rparr>"

declare chunk_loop.simps [code]

text \<open>With at most three lines to a chunk the cut falls before the definition on line three.\<close>

lemma sample_chunks:
  "map_option (map_sum id (map (\<lambda>c. (chunk_start_line c, chunk_end_line c))))
     (chunk_source (\<lambda>_. Some [[3]]) (\<lambda>_. []) sample_source 3 100) = Some (Inr [(1, 2), (3, 4)])"
  by code_simp

theorem chunk_source_correct_witness:
  "\<exists>cs. chunk_source (\<lambda>_. Some [[3]]) (\<lambda>_. []) sample_source 3 100 = Some (Inr cs) \<and>
    concat (map chunk_content cs) = src_content sample_source \<and>
    chunk_end_line (last cs) = length (split_lines (src_content sample_source))"
proof -
  from sample_chunks obtain cs
    where cs: "chunk_source (\<lambda>_. Some [[3]]) (\<lambda>_. []) sample_source 3 100 = Some (Inr cs)" and "cs \<noteq> []"
    by (cases "the (chunk_source (\<lambda>_. Some [[3]]) (\<lambda>_. []) sample_source 3 100)") fastforce+
  with chunk_source_correct [of "\<lambda>_. Some [[3]]" "\<lambda>_. []" sample_source 3 100] show ?thesis by simp
qed

end
