(* ===== verification/Urls.thy ===== *)
theory Urls
  imports Effects
begin

text \<open>
  The URLs the program accepts. \<open>urlsplit\<close> is \<^verbatim>\<open>urllib.parse.urlsplit\<close> with the attributes of
  its result; the record \<open>url_rules\<close> stands for the two tables it consults, the address check of a
  bracketed host (\<^verbatim>\<open>ipaddress\<close>) and the NFKC check of a host that is not ASCII (\<^verbatim>\<open>unicodedata\<close>).
\<close>

record url =
  u_scheme :: string
  u_netloc :: string
  u_path :: string
  u_query :: string
  u_fragment :: string

record url_rules =
  bracketed_host_valid :: "string \<Rightarrow> bool"
  nfkc_valid :: "string \<Rightarrow> bool"

section \<open>Text\<close>

definition ascii_letter :: "char \<Rightarrow> bool" where
  "ascii_letter c \<longleftrightarrow> CHR ''A'' \<le> c \<and> c \<le> CHR ''Z'' \<or> CHR ''a'' \<le> c \<and> c \<le> CHR ''z''"

definition ascii_digit :: "char \<Rightarrow> bool" where
  "ascii_digit c \<longleftrightarrow> CHR ''0'' \<le> c \<and> c \<le> CHR ''9''"

text \<open>\<open>str.lower\<close> and \<open>str.isspace\<close> on the first 256 code points.\<close>

definition lower_char :: "char \<Rightarrow> char" where
  "lower_char c = (let n = of_char c :: nat
     in if 65 \<le> n \<and> n \<le> 90 \<or> 192 \<le> n \<and> n \<le> 222 \<and> n \<noteq> 215 then char_of (n + 32) else c)"

definition space_char :: "char \<Rightarrow> bool" where
  "space_char c = py_space (of_char c)"

text \<open>\<open>str.strip\<close>, which removes more than pydantic's constraint does.\<close>

definition strip :: "string \<Rightarrow> string" where
  "strip s = rev (dropWhile space_char (rev (dropWhile space_char s)))"

text \<open>\<open>s.partition(sep)\<close> for one character: what is before, whether it occurs, what is after.\<close>

definition partition_at :: "char \<Rightarrow> string \<Rightarrow> string \<times> bool \<times> string" where
  "partition_at sep s =
     (takeWhile (\<lambda>c. c \<noteq> sep) s, sep \<in> set s, drop 1 (dropWhile (\<lambda>c. c \<noteq> sep) s))"

definition rpartition_at :: "char \<Rightarrow> string \<Rightarrow> string \<times> bool \<times> string" where
  "rpartition_at sep s =
     (if sep \<in> set s
      then (rev (drop 1 (dropWhile (\<lambda>c. c \<noteq> sep) (rev s))), True, rev (takeWhile (\<lambda>c. c \<noteq> sep) (rev s)))
      else ([], False, s))"

section \<open>Splitting\<close>

definition clean_url :: "string \<Rightarrow> string" where
  "clean_url s = filter (\<lambda>c. c \<notin> {CHR 0x09, CHR 0x0A, CHR 0x0D})
     (dropWhile (\<lambda>c. (of_char c :: nat) \<le> 32) s)"

definition split_scheme :: "string \<Rightarrow> string \<times> string" where
  "split_scheme s = (case partition_at (CHR '':'') s of (scheme, found, rest) \<Rightarrow>
     if found \<and> scheme \<noteq> [] \<and> ascii_letter (hd scheme) \<and>
        (\<forall>c \<in> set scheme. ascii_letter c \<or> ascii_digit c \<or> c \<in> set ''+-.'')
     then (map lower_char scheme, rest) else ([], s))"

definition netloc_end :: "char \<Rightarrow> bool" where
  "netloc_end c \<longleftrightarrow> c \<in> set ''/?#''"

definition bracket_host :: "string \<Rightarrow> string" where
  "bracket_host netloc = fst (partition_at (CHR '']'') (snd (snd (partition_at (CHR ''['') netloc))))"

definition netloc_valid :: "url_rules \<Rightarrow> string \<Rightarrow> bool" where
  "netloc_valid rules netloc \<longleftrightarrow>
     (CHR ''['' \<in> set netloc \<longleftrightarrow> CHR '']'' \<in> set netloc) \<and>
     (CHR ''['' \<in> set netloc \<longrightarrow> bracketed_host_valid rules (bracket_host netloc)) \<and>
     ((\<exists>c \<in> set netloc. 128 \<le> (of_char c :: nat)) \<longrightarrow> nfkc_valid rules netloc)"

definition urlsplit :: "url_rules \<Rightarrow> string \<Rightarrow> exc + url" where
  "urlsplit rules s0 = (case split_scheme (clean_url s0) of (scheme, s) \<Rightarrow>
     let netloc = (if starts_with ''//'' s then takeWhile (\<lambda>c. \<not> netloc_end c) (drop 2 s) else []);
         rest = (if starts_with ''//'' s then dropWhile (\<lambda>c. \<not> netloc_end c) (drop 2 s) else s)
     in case partition_at (CHR ''#'') rest of (rest1, _, fragment) \<Rightarrow>
        case partition_at (CHR ''?'') rest1 of (p, _, query) \<Rightarrow>
        if netloc_valid rules netloc
        then Inr \<lparr>u_scheme = scheme, u_netloc = netloc, u_path = p, u_query = query, u_fragment = fragment\<rparr>
        else Inl ValueFailure)"

section \<open>The attributes of the result\<close>

definition user_info :: "url \<Rightarrow> string option \<times> string option" where
  "user_info u = (case rpartition_at (CHR ''@'') (u_netloc u) of (info, found, _) \<Rightarrow>
     if \<not> found then (None, None)
     else case partition_at (CHR '':'') info of (name, has_password, password) \<Rightarrow>
       (Some name, if has_password then Some password else None))"

definition host_info :: "url \<Rightarrow> string \<times> string" where
  "host_info u = (case rpartition_at (CHR ''@'') (u_netloc u) of (_, _, info) \<Rightarrow>
     case partition_at (CHR ''['') info of (_, bracketed, inner) \<Rightarrow>
     if bracketed
     then (case partition_at (CHR '']'') inner of (host, _, after) \<Rightarrow>
             (host, snd (snd (partition_at (CHR '':'') after))))
     else (case partition_at (CHR '':'') info of (host, _, number) \<Rightarrow> (host, number)))"

definition url_hostname :: "url \<Rightarrow> string option" where
  "url_hostname u = (let host = fst (host_info u) in
     if host = [] then None
     else case partition_at (CHR ''%'') host of (name, found, zone) \<Rightarrow>
       Some (map lower_char name @ (if found then ''%'' else []) @ zone))"

definition url_port :: "url \<Rightarrow> exc + nat option" where
  "url_port u = (let number = snd (host_info u) in
     if number = [] then Inr None
     else if \<forall>c \<in> set number. ascii_digit c
     then (let n = foldl (\<lambda>n c. 10 * n + (of_char c - 48)) 0 number
           in if n \<le> 65535 then Inr (Some n) else Inl ValueFailure)
     else Inl ValueFailure)"

end
