(* ===== verification/Hybrid_Retrieval.thy ===== *)
theory Hybrid_Retrieval
  imports Urls "HOL-Library.Product_Lexorder"
begin

text \<open>
  \<^verbatim>\<open>app/retrieval/hybrid.py\<close>: the results of the lexical and of the semantic retriever are
  fused by reciprocal rank. The two retrievers are arguments (\<open>RankedRetriever\<close> is a protocol);
  ranks are natural numbers, because both implementations number their results from one, and
  scores are rational numbers where the program has floating point.
\<close>

section \<open>The code\<close>

record search_result =
  hit_chunk_id :: uuid
  hit_file_path :: pystr
  hit_start_line :: nat
  hit_end_line :: nat
  hit_content :: pystr
  hit_score :: rat
  hit_rank :: nat

record hybrid_result = search_result +
  hy_snippet :: pystr
  hy_bm25_rank :: "nat option"
  hy_bm25_score :: "rat option"
  hy_vector_rank :: "nat option"
  hy_vector_score :: "rat option"

definition valid_search :: "string \<Rightarrow> int \<Rightarrow> bool" where
  "valid_search query top_k \<longleftrightarrow> 1 \<le> length query \<and> length query \<le> 2000 \<and> 1 \<le> top_k \<and> top_k \<le> 100 \<and>
     strip query \<noteq> []"

definition valid_fusion :: "int \<Rightarrow> int \<Rightarrow> bool" where
  "valid_fusion candidate_limit rrf_k \<longleftrightarrow> 1 \<le> candidate_limit \<and> candidate_limit \<le> 100 \<and> 1 \<le> rrf_k"

text \<open>\<open>dict.setdefault\<close>, and the dictionary of the first hit of every chunk.\<close>

definition setdefault :: "'k \<Rightarrow> 'v \<Rightarrow> ('k \<times> 'v) list \<Rightarrow> ('k \<times> 'v) list" where
  "setdefault k v m = (if k \<in> fst ` set m then m else m @ [(k, v)])"

definition first_hits :: "search_result list \<Rightarrow> (uuid \<times> search_result) list" where
  "first_hits hits = fold (\<lambda>h. setdefault (hit_chunk_id h) h) hits []"

definition by_rank :: "search_result list \<Rightarrow> search_result list" where
  "by_rank = sort_key hit_rank"

definition reciprocal :: "int \<Rightarrow> search_result option \<Rightarrow> rat" where
  "reciprocal rrf_k hit = (case hit of None \<Rightarrow> 0 | Some h \<Rightarrow> 1 / of_int (rrf_k + int (hit_rank h)))"

definition fuse :: "int \<Rightarrow> (uuid \<times> search_result) list \<Rightarrow> (uuid \<times> search_result) list \<Rightarrow>
    uuid \<times> search_result \<Rightarrow> hybrid_result" where
  "fuse rrf_k lexicals semantics document = (case document of (i, d) \<Rightarrow>
     let lexical = map_of lexicals i; semantic = map_of semantics i
     in \<lparr>hit_chunk_id = i, hit_file_path = hit_file_path d, hit_start_line = hit_start_line d,
         hit_end_line = hit_end_line d, hit_content = hit_content d,
         hit_score = reciprocal rrf_k lexical + reciprocal rrf_k semantic, hit_rank = 0,
         hy_snippet = hit_content d,
         hy_bm25_rank = map_option hit_rank lexical, hy_bm25_score = map_option hit_score lexical,
         hy_vector_rank = map_option hit_rank semantic, hy_vector_score = map_option hit_score semantic\<rparr>)"

definition fused_order :: "hybrid_result \<Rightarrow> rat \<times> pystr \<times> nat \<times> nat \<times> uuid" where
  "fused_order h = (- hit_score h, hit_file_path h, hit_start_line h, hit_end_line h, hit_chunk_id h)"

definition fusion :: "int \<Rightarrow> search_result list \<Rightarrow> search_result list \<Rightarrow> hybrid_result list" where
  "fusion rrf_k lexical_hits semantic_hits =
     sort_key fused_order
       (map (fuse rrf_k (first_hits (by_rank lexical_hits)) (first_hits (by_rank semantic_hits)))
          (first_hits (by_rank lexical_hits @ by_rank semantic_hits)))"

definition with_ranks :: "hybrid_result list \<Rightarrow> hybrid_result list" where
  "with_ranks hits = map (\<lambda>(n, h). h\<lparr>hit_rank := n\<rparr>) (enumerate 1 hits)"

type_synonym retriever = "uuid \<Rightarrow> string \<Rightarrow> int \<Rightarrow> exc + search_result list"

definition hybrid_search ::
  "retriever \<Rightarrow> retriever \<Rightarrow> int \<Rightarrow> int \<Rightarrow> uuid \<Rightarrow> string \<Rightarrow> int \<Rightarrow> exc + hybrid_result list" where
  "hybrid_search bm25 vector candidate_limit rrf_k repository query top_k =
     (if \<not> valid_fusion candidate_limit rrf_k \<or> \<not> valid_search query top_k then Inl ValueFailure
      else let depth = max candidate_limit top_k
        in bindE (bm25 repository query depth) (\<lambda>lexical_hits.
           bindE (vector repository query depth) (\<lambda>semantic_hits.
           Inr (with_ranks (take (nat top_k) (fusion rrf_k lexical_hits semantic_hits))))))"

section \<open>First hits\<close>

lemma fst_setdefault [simp]: "fst ` set (setdefault k v m) = insert k (fst ` set m)"
  by (auto simp: setdefault_def)

lemma distinct_setdefault: "distinct (map fst m) \<Longrightarrow> distinct (map fst (setdefault k v m))"
  by (auto simp: setdefault_def)

lemma map_of_setdefault:
  "map_of (setdefault k v m) i =
    (case map_of m i of Some x \<Rightarrow> Some x | None \<Rightarrow> if i = k then Some v else None)"
proof (cases "k \<in> fst ` set m")
  case True
  then have "map_of m k \<noteq> None" by (simp add: map_of_eq_None_iff)
  with True show ?thesis by (auto simp: setdefault_def split: option.split)
next
  case False
  then show ?thesis by (auto simp: setdefault_def map_add_def split: option.split)
qed

lemma first_hits_fold:
  "fst ` set (fold (\<lambda>h. setdefault (hit_chunk_id h) h) hits m) = fst ` set m \<union> hit_chunk_id ` set hits"
  "distinct (map fst m) \<Longrightarrow> distinct (map fst (fold (\<lambda>h. setdefault (hit_chunk_id h) h) hits m))"
  "map_of (fold (\<lambda>h. setdefault (hit_chunk_id h) h) hits m) i =
     (case map_of m i of Some v \<Rightarrow> Some v | None \<Rightarrow> List.find (\<lambda>h. hit_chunk_id h = i) hits)"
proof (induction hits arbitrary: m)
  case (Cons h hs)
  {
    case 1
    show ?case using Cons.IH(1) [of "setdefault (hit_chunk_id h) h m"] by auto
  next
    case 2
    then show ?case using Cons.IH(2) [of "setdefault (hit_chunk_id h) h m"] by (simp add: distinct_setdefault)
  next
    case 3
    show ?case using Cons.IH(3) [of "setdefault (hit_chunk_id h) h m"]
      by (auto simp: map_of_setdefault split: option.split)
  }
qed (auto split: option.split)

lemma first_hits:
  "fst ` set (first_hits hits) = hit_chunk_id ` set hits"
  "distinct (map fst (first_hits hits))"
  "map_of (first_hits hits) i = List.find (\<lambda>h. hit_chunk_id h = i) hits"
  by (simp_all add: first_hits_def first_hits_fold)

text \<open>After sorting by rank the first hit of a chunk is one of least rank.\<close>

definition best_rank :: "search_result list \<Rightarrow> uuid \<Rightarrow> nat" where
  "best_rank hits i = Min (hit_rank ` {h \<in> set hits. hit_chunk_id h = i})"

definition rrf :: "int \<Rightarrow> search_result list \<Rightarrow> uuid \<Rightarrow> rat" where
  "rrf rrf_k hits i = (if i \<in> hit_chunk_id ` set hits
     then 1 / of_int (rrf_k + int (best_rank hits i)) else 0)"

lemma find_sorted:
  "sorted (map hit_rank hits) \<Longrightarrow> List.find (\<lambda>h. hit_chunk_id h = i) hits = Some h \<Longrightarrow>
    x \<in> set hits \<Longrightarrow> hit_chunk_id x = i \<Longrightarrow> hit_rank h \<le> hit_rank x"
  by (induction hits) (auto split: if_splits)

lemma reciprocal_best:
  "reciprocal rrf_k (map_of (first_hits (by_rank hits)) i) = rrf rrf_k hits i"
proof (cases "List.find (\<lambda>h. hit_chunk_id h = i) (by_rank hits)")
  case None
  then have "i \<notin> hit_chunk_id ` set hits" by (auto simp: by_rank_def find_None_iff)
  with None show ?thesis by (simp add: first_hits reciprocal_def rrf_def)
next
  case (Some h)
  then have "h \<in> set (by_rank hits)" and id: "hit_chunk_id h = i" by (auto simp: find_Some_iff)
  then have h: "h \<in> set hits" "hit_chunk_id h = i" by (simp_all add: by_rank_def)
  have "hit_rank h \<le> hit_rank x" if "x \<in> set hits" "hit_chunk_id x = i" for x
    using find_sorted [OF _ Some] that by (simp add: by_rank_def)
  with h have "best_rank hits i = hit_rank h"
    unfolding best_rank_def by (intro Min_eqI) auto
  with Some h show ?thesis by (auto simp: first_hits reciprocal_def rrf_def)
qed

section \<open>Correctness\<close>

definition fused_score :: "int \<Rightarrow> search_result list \<Rightarrow> search_result list \<Rightarrow> uuid \<Rightarrow> rat" where
  "fused_score rrf_k lexical_hits semantic_hits i = rrf rrf_k lexical_hits i + rrf rrf_k semantic_hits i"

lemma fusion_ids:
  "mset (map hit_chunk_id (fusion rrf_k ls vs)) = mset (map fst (first_hits (by_rank ls @ by_rank vs)))"
  unfolding fusion_def mset_map mset_sort
  by (simp add: fuse_def Let_def case_prod_unfold image_mset.compositionality comp_def)

lemma fusion_score:
  "h \<in> set (fusion rrf_k ls vs) \<Longrightarrow> hit_score h = fused_score rrf_k ls vs (hit_chunk_id h)"
  by (auto simp: fusion_def fuse_def Let_def reciprocal_best fused_score_def)

lemma fusion_sorted: "sorted_wrt (\<lambda>a b. hit_score b \<le> hit_score a) (fusion rrf_k ls vs)"
proof -
  have "sorted_wrt (\<lambda>a b. fused_order a \<le> fused_order b) (fusion rrf_k ls vs)"
    using sorted_sort_key [of fused_order] unfolding fusion_def sorted_map .
  then show ?thesis by (rule sorted_wrt_mono_rel [rotated]) (auto simp: fused_order_def less_eq_prod_def)
qed

lemma ranked_from:
  "map hit_rank (map (\<lambda>(n, h). h\<lparr>hit_rank := n\<rparr>) (enumerate n hs)) = [n..<n + length hs]"
  "map hit_chunk_id (map (\<lambda>(n, h). h\<lparr>hit_rank := n\<rparr>) (enumerate n hs)) = map hit_chunk_id hs"
  "map hit_score (map (\<lambda>(n, h). h\<lparr>hit_rank := n\<rparr>) (enumerate n hs)) = map hit_score hs"
  by (induction hs arbitrary: n) (simp_all add: upt_conv_Cons del: upt_Suc)

lemma with_ranks_map:
  "map hit_rank (with_ranks hs) = [1..<Suc (length hs)]"
  "map hit_chunk_id (with_ranks hs) = map hit_chunk_id hs"
  "map hit_score (with_ranks hs) = map hit_score hs"
  unfolding with_ranks_def ranked_from by simp_all

text \<open>The fused ranking: every chunk found by a retriever appears at most once, as many as asked
  for appear, ranked from one; the score of a chunk is the sum, over the retrievers that found it, of
  the reciprocal of the constant plus its best rank there; the scores never increase down the list,
  and no chunk left out scores higher than a chunk in it.\<close>

theorem hybrid_ranking:
  assumes search: "hybrid_search bm25 vector candidate_limit rrf_k repository query top_k = Inr hits"
    and "bm25 repository query (max candidate_limit top_k) = Inr ls"
    and "vector repository query (max candidate_limit top_k) = Inr vs"
  shows "distinct (map hit_chunk_id hits) \<and>
    set (map hit_chunk_id hits) \<subseteq> hit_chunk_id ` (set ls \<union> set vs) \<and>
    length hits = min (nat top_k) (card (hit_chunk_id ` (set ls \<union> set vs))) \<and>
    map hit_rank hits = [1..<Suc (length hits)] \<and>
    map hit_score hits = map (fused_score rrf_k ls vs) (map hit_chunk_id hits) \<and>
    sorted (rev (map hit_score hits)) \<and>
    (\<forall>i \<in> hit_chunk_id ` (set ls \<union> set vs) - set (map hit_chunk_id hits). \<forall>h \<in> set hits.
       fused_score rrf_k ls vs i \<le> hit_score h)"
proof -
  let ?all = "fusion rrf_k ls vs"
  let ?top = "take (nat top_k) ?all"
  have hits: "hits = with_ranks ?top" using assms by (auto simp: hybrid_search_def Let_def split: if_splits)
  have ids: "mset (map hit_chunk_id ?all) = mset (map fst (first_hits (by_rank ls @ by_rank vs)))"
    by (rule fusion_ids)
  have dist: "distinct (map hit_chunk_id ?all)"
    using first_hits(2) ids mset_eq_imp_distinct_iff by blast
  have set: "hit_chunk_id ` set ?all = hit_chunk_id ` (set ls \<union> set vs)"
    using mset_eq_setD [OF ids] first_hits(1) [of "by_rank ls @ by_rank vs"] by (simp add: by_rank_def image_Un)
  have len: "length ?all = card (hit_chunk_id ` (set ls \<union> set vs))"
    using distinct_card [OF dist] set by simp
  have score: "map hit_score ?top = map (fused_score rrf_k ls vs) (map hit_chunk_id ?top)"
    using fusion_score by (auto dest: in_set_takeD)
  have top: "distinct (map hit_chunk_id ?top)"
    unfolding take_map [symmetric] using dist by (rule distinct_take)
  have sub: "set (map hit_chunk_id ?top) \<subseteq> hit_chunk_id ` (set ls \<union> set vs)"
    unfolding set [symmetric] by (auto dest: in_set_takeD)
  have ord: "sorted (rev (map hit_score ?top))"
    using fusion_sorted [of rrf_k ls vs]
    by (simp add: sorted_wrt_rev sorted_wrt_map sorted_wrt_take)
  have left_out: "fused_score rrf_k ls vs i \<le> hit_score h"
    if "i \<in> hit_chunk_id ` (set ls \<union> set vs) - set (map hit_chunk_id ?top)" "h \<in> set ?top" for i h
  proof -
    from that(1) set obtain x where x: "x \<in> set ?all" "hit_chunk_id x = i" by (metis DiffD1 imageE)
    have "x \<in> set ?top \<union> set (drop (nat top_k) ?all)"
      using x(1) by (metis append_take_drop_id set_append)
    with x(2) that(1) have "x \<in> set (drop (nat top_k) ?all)" by auto
    with that(2) fusion_sorted [of rrf_k ls vs] have "hit_score x \<le> hit_score h"
      by (metis append_take_drop_id sorted_wrt_append)
    with x fusion_score [of x rrf_k ls vs] show ?thesis by simp
  qed
  have same: "map hit_chunk_id hits = map hit_chunk_id ?top" "map hit_score hits = map hit_score ?top"
    "map hit_rank hits = [1..<Suc (length ?top)]" "length hits = length ?top"
    unfolding hits with_ranks_map by (simp_all add: with_ranks_def)
  have lower: "fused_score rrf_k ls vs i \<le> hit_score h"
    if "i \<in> hit_chunk_id ` (set ls \<union> set vs) - set (map hit_chunk_id ?top)" "h \<in> set hits" for i h
  proof -
    from that(2) have "hit_score h \<in> set (map hit_score ?top)" unfolding same(2) [symmetric] by simp
    then obtain g where "g \<in> set ?top" "hit_score h = hit_score g" by auto
    with left_out [OF that(1)] show ?thesis by simp
  qed
  have size: "length ?top = min (nat top_k) (card (hit_chunk_id ` (set ls \<union> set vs)))"
    using len by (simp add: min.commute)
  show ?thesis
    unfolding same(1,2,3,4) using score top sub ord lower size by blast
qed

definition sample_hit :: "uuid \<Rightarrow> nat \<Rightarrow> search_result" where
  "sample_hit i r = \<lparr>hit_chunk_id = i, hit_file_path = pytext ''m.py'', hit_start_line = i, hit_end_line = i,
     hit_content = pytext ''x'', hit_score = 1, hit_rank = r\<rparr>"

lemma sample_hit_valid: "valid_fusion 50 60" "valid_search ''cache'' 2"
  by code_simp+

lemma sample_first_hits:
  "first_hits (by_rank [sample_hit 1 1, sample_hit 2 2]) = [(1, sample_hit 1 1), (2, sample_hit 2 2)]"
  "first_hits (by_rank [sample_hit 2 1, sample_hit 3 2]) = [(2, sample_hit 2 1), (3, sample_hit 3 2)]"
  "first_hits (by_rank [sample_hit 1 1, sample_hit 2 2] @ by_rank [sample_hit 2 1, sample_hit 3 2]) =
    [(1, sample_hit 1 1), (2, sample_hit 2 2), (3, sample_hit 3 2)]"
  by (simp_all add: first_hits_def by_rank_def sample_hit_def setdefault_def sort_key_def)

lemma sample_fusion:
  "map hit_chunk_id (fusion 60 [sample_hit 1 1, sample_hit 2 2] [sample_hit 2 1, sample_hit 3 2]) = [2, 1, 3]"
  "map hit_score (fusion 60 [sample_hit 1 1, sample_hit 2 2] [sample_hit 2 1, sample_hit 3 2]) =
    [123 / 3782, 1 / 61, 1 / 62]"
  unfolding fusion_def sample_first_hits
  by (simp_all add: fuse_def reciprocal_def sample_hit_def sort_key_def fused_order_def)

lemma sample_search:
  "\<exists>hits. hybrid_search (\<lambda>_ _ _. Inr [sample_hit 1 1, sample_hit 2 2]) (\<lambda>_ _ _. Inr [sample_hit 2 1, sample_hit 3 2])
     50 60 9 ''cache'' 2 = Inr hits \<and> map hit_chunk_id hits = [2, 1] \<and>
     map hit_score hits = [123 / 3782, 1 / 61]"
  by (simp add: hybrid_search_def sample_hit_valid with_ranks_map sample_fusion del: One_nat_def flip: take_map)

theorem hybrid_ranking_witness:
  "\<exists>hits. hybrid_search (\<lambda>_ _ _. Inr [sample_hit 1 1, sample_hit 2 2])
     (\<lambda>_ _ _. Inr [sample_hit 2 1, sample_hit 3 2]) 50 60 9 ''cache'' 2 = Inr hits \<and>
   map hit_chunk_id hits = [2, 1] \<and> map hit_rank hits = [1, 2] \<and>
   fused_score 60 [sample_hit 1 1, sample_hit 2 2] [sample_hit 2 1, sample_hit 3 2] 3 \<le> 1 / 61"
proof -
  from sample_search obtain hits where
    h: "hybrid_search (\<lambda>_ _ _. Inr [sample_hit 1 1, sample_hit 2 2])
     (\<lambda>_ _ _. Inr [sample_hit 2 1, sample_hit 3 2]) 50 60 9 ''cache'' 2 = Inr hits"
    and ids: "map hit_chunk_id hits = [2, 1]" and scores: "map hit_score hits = [123 / 3782, 1 / 61]"
    by (elim exE conjE) (rule that, assumption+)
  note ranking = hybrid_ranking [OF h refl refl]
  have "length (map hit_chunk_id hits) = 2" using ids by simp
  then have two: "length hits = 2" by simp
  from ranking have "map hit_rank hits = [1..<Suc (length hits)]" by blast
  then have ranks: "map hit_rank hits = [1, 2]" unfolding two by (simp add: upt_rec)
  have "1 / 61 \<in> set (map hit_score hits)" by (simp add: scores)
  then obtain g where g: "g \<in> set hits" "hit_score g = 1 / 61" by auto
  have three: "3 \<in> hit_chunk_id ` (set [sample_hit 1 1, sample_hit 2 2] \<union> set [sample_hit 2 1, sample_hit 3 2])"
    by (simp add: sample_hit_def)
  have "3 \<notin> set (map hit_chunk_id hits)" by (simp add: ids)
  with three g ranking
  have "fused_score 60 [sample_hit 1 1, sample_hit 2 2] [sample_hit 2 1, sample_hit 3 2] 3 \<le> 1 / 61"
    by (metis DiffI)
  with h ids ranks show ?thesis by (intro exI [of _ hits] conjI)
qed

end
