(* ===== verification/Sandbox_Policy.thy ===== *)
theory Sandbox_Policy
  imports Effects
begin

text \<open>
  \<^verbatim>\<open>app/sandbox/policy.py\<close>: what a workspace must look like before Git, a test container or a
  reader may touch it, and which environment a container gets. A path is the list of its parts; what
  the operating system says of paths is a record of functions, the argument \<open>fs\<close>.
\<close>

section \<open>The file system as the code asks it\<close>

type_synonym path = "string list"

datatype file_kind = Regular_file | Directory | Special_file

text \<open>One entry of \<open>os.walk\<close>: a name with what \<open>is_symlink\<close>, \<open>is_mount\<close> and \<open>lstat\<close> say.\<close>

record walk_entry =
  we_name :: string
  we_linked :: bool
  we_kind :: file_kind
  we_links :: nat

record file_status =
  st_exists :: bool
  st_is_file :: bool
  st_is_dir :: bool
  st_size :: nat

text \<open>
  \<open>fs_resolve\<close> is \<open>resolve(strict=True)\<close>, \<open>fs_target\<close> the \<open>resolve()\<close> of a path that need not
  exist, \<open>fs_walk\<close> all the entries below a directory in the order of the walk; \<open>None\<close> is an
  \<open>OSError\<close>.
\<close>

record filesystem =
  fs_linked :: "path \<Rightarrow> bool"
  fs_resolve :: "path \<Rightarrow> path option"
  fs_target :: "path \<Rightarrow> path"
  fs_status :: "path \<Rightarrow> file_status"
  fs_walk :: "path \<Rightarrow> walk_entry list option"

section \<open>Names\<close>

definition lower :: "string \<Rightarrow> string" where
  "lower = map (\<lambda>c. if CHR ''A'' \<le> c \<and> c \<le> CHR ''Z'' then char_of (of_char c + 32 :: nat) else c)"

definition hex_digits :: string where
  "hex_digits = ''0123456789abcdef''"

text \<open>\<open>str(UUID(part)) == part\<close>: the canonical text form.\<close>

definition canonical_uuid :: "string \<Rightarrow> bool" where
  "canonical_uuid s \<longleftrightarrow> length s = 36 \<and>
     (\<forall>i < 36. if i \<in> {8, 13, 18, 23} then s ! i = CHR ''-'' else s ! i \<in> set hex_digits)"

definition sensitive_names :: "string list" where
  "sensitive_names = [''.ssh'', ''.aws'', ''.kube'', ''credentials'', ''credentials.json'',
     ''secrets.json'', ''secrets.yaml'', ''.netrc'']"

definition sensitive_name :: "string \<Rightarrow> bool" where
  "sensitive_name name \<longleftrightarrow>
     (let lowered = lower name
      in starts_with ''.env'' lowered \<or> lowered \<in> set sensitive_names \<or>
         (\<exists>e \<in> set [''.pem'', ''.key'', ''.p12'', ''.pfx'']. ends_with e lowered))"

section \<open>The workspace\<close>

definition relative_to :: "path \<Rightarrow> path \<Rightarrow> bool" where
  "relative_to home p \<longleftrightarrow> starts_with home p"

definition entry_problem :: "walk_entry \<Rightarrow> string option" where
  "entry_problem e =
     (if sensitive_name (we_name e) then Some ''workspace_contains_sensitive_files''
      else if we_linked e then Some ''unsafe_workspace''
      else if we_kind e = Special_file then Some ''unsafe_workspace''
      else if we_kind e = Regular_file \<and> 1 < we_links e then Some ''unsafe_workspace''
      else None)"

definition managed_layout :: "path \<Rightarrow> bool" where
  "managed_layout relative \<longleftrightarrow> length relative = 3 \<and> relative ! 0 = ''executions'' \<and>
     (\<forall>part \<in> set (tl relative). canonical_uuid part)"

definition unsafe :: "exc + 'a" where
  "unsafe = Inl (SandboxFailure ''unsafe_workspace'')"

text \<open>The parents of a path and itself, as \<open>(workspace, *workspace.parents)\<close>.\<close>

definition ancestors :: "path \<Rightarrow> path list" where
  "ancestors p = map (\<lambda>n. take n p) (rev [0..<Suc (length p)])"

definition workspace_path :: "filesystem \<Rightarrow> path \<Rightarrow> path \<Rightarrow> exc + path" where
  "workspace_path fs home workspace =
     (if home = [] \<or> workspace = home \<or> \<not> relative_to home workspace then unsafe
      else if \<exists>part \<in> set (ancestors workspace). fs_linked fs part then unsafe
      else case (fs_resolve fs workspace, fs_resolve fs home) of
        (Some resolved, Some base) \<Rightarrow>
          (if \<not> st_is_dir (fs_status fs resolved) \<or> resolved = base \<or> \<not> relative_to base resolved
           then unsafe
           else if \<not> managed_layout (drop (length base) resolved) then unsafe
           else if \<exists>part \<in> set resolved. \<exists>c \<in> set part. c \<in> {CHR '','', CHR 0x0A, CHR 0x0D, CHR 0x00}
           then unsafe
           else case fs_walk fs resolved of
             None \<Rightarrow> unsafe
           | Some entries \<Rightarrow>
               (case first_error entry_problem entries of
                  Some e \<Rightarrow> Inl (SandboxFailure e)
                | None \<Rightarrow> Inr resolved))
      | _ \<Rightarrow> unsafe)"

section \<open>The environment of a container\<close>

definition SAFE_ENVIRONMENT :: "string list" where
  "SAFE_ENVIRONMENT = [''CI'', ''LANG'', ''LC_ALL'', ''TZ'', ''PYTHONHASHSEED'', ''PYTHONDONTWRITEBYTECODE'']"

definition environment_char :: "char \<Rightarrow> bool" where
  "environment_char c \<longleftrightarrow> CHR ''A'' \<le> c \<and> c \<le> CHR ''Z'' \<or> CHR ''a'' \<le> c \<and> c \<le> CHR ''z'' \<or>
     CHR ''0'' \<le> c \<and> c \<le> CHR ''9'' \<or> c \<in> set ''_.:/+ -''"

definition environment_values :: "(string \<times> string) list \<Rightarrow> string list \<Rightarrow> exc + string list" where
  "environment_values environment allowlist =
     (if \<not> set allowlist \<subseteq> set SAFE_ENVIRONMENT \<or> \<not> fst ` set environment \<subseteq> set allowlist
      then Inl (SandboxFailure ''environment_not_allowed'')
      else bindE (mapE (\<lambda>(key, value).
               if 128 < length value \<or> (\<exists>c \<in> set value. \<not> environment_char c)
               then Inl (SandboxFailure ''environment_not_allowed'')
               else Inr (key @ ''='' @ value)) (sort_key fst environment))
             (\<lambda>vs. Inr ([''PATH=/usr/local/bin:/usr/bin:/bin'', ''HOME=/tmp'', ''TMPDIR=/tmp''] @ vs)))"

section \<open>What an accepted workspace is\<close>

lemma workspace_path_Inr:
  assumes "workspace_path fs home workspace = Inr safe"
  obtains base entries where "fs_resolve fs workspace = Some safe" and "fs_resolve fs home = Some base"
    and "home \<noteq> []" and "relative_to home workspace" and "\<forall>part \<in> set (ancestors workspace). \<not> fs_linked fs part"
    and "st_is_dir (fs_status fs safe)" and "relative_to base safe"
    and "managed_layout (drop (length base) safe)"
    and "fs_walk fs safe = Some entries" and "\<forall>e \<in> set entries. entry_problem e = None"
  using assms
  by (auto simp: workspace_path_def unsafe_def split: if_splits option.splits)

lemma relative_split: "relative_to base p \<longleftrightarrow> (\<exists>r. p = base @ r)"
  by (auto simp: relative_to_def starts_with_def) (metis append_take_drop_id)

text \<open>A workspace that passes the policy is a directory \<open>executions/<repository>/<execution>\<close>
  below the managed home, both names canonical UUIDs, no part of its path is a link, and nothing
  below it has a sensitive name, is a link, a mount point or a special file, or is a file with a
  second hard link. Every refusal is one of the two fixed sandbox errors.\<close>

theorem workspace_path_safe:
  "case workspace_path fs home workspace of
     Inr safe \<Rightarrow> \<exists>base repository execution entries.
       fs_resolve fs home = Some base \<and> fs_resolve fs workspace = Some safe \<and>
       safe = base @ [''executions'', repository, execution] \<and>
       canonical_uuid repository \<and> canonical_uuid execution \<and>
       list_all (\<lambda>part. \<not> fs_linked fs part) (ancestors workspace) \<and>
       fs_walk fs safe = Some entries \<and>
       list_all (\<lambda>e. \<not> sensitive_name (we_name e) \<and> \<not> we_linked e \<and>
          (we_kind e = Directory \<or> we_kind e = Regular_file \<and> we_links e \<le> 1)) entries
   | Inl e \<Rightarrow> e \<in> {SandboxFailure ''unsafe_workspace'', SandboxFailure ''workspace_contains_sensitive_files''}"
proof (cases "workspace_path fs home workspace")
  case (Inl e)
  have "entry_problem x = Some p \<Longrightarrow> p = ''unsafe_workspace'' \<or> p = ''workspace_contains_sensitive_files''" for x p
    by (auto simp: entry_problem_def split: if_splits)
  moreover have "\<exists>x. entry_problem x = Some p" if "first_error entry_problem xs = Some p" for xs p
    using that by (induction xs) (auto split: option.splits)
  ultimately have "first_error entry_problem xs = Some p \<Longrightarrow>
      p = ''unsafe_workspace'' \<or> p = ''workspace_contains_sensitive_files''" for xs p
    by blast
  with Inl show ?thesis
    by (auto simp: workspace_path_def unsafe_def split: if_splits option.splits)
next
  case (Inr safe)
  from Inr obtain base entries where b: "fs_resolve fs home = Some base" "fs_resolve fs workspace = Some safe"
    "\<forall>part \<in> set (ancestors workspace). \<not> fs_linked fs part" "fs_walk fs safe = Some entries"
    and rel: "relative_to base safe" and lay: "managed_layout (drop (length base) safe)"
    and ok: "\<forall>e \<in> set entries. entry_problem e = None"
    by (rule workspace_path_Inr)
  from rel obtain r where r: "safe = base @ r" by (auto simp: relative_split)
  with lay have len: "length r = 3" and parts: "r ! 0 = ''executions''" "\<forall>part \<in> set (tl r). canonical_uuid part"
    by (simp_all add: managed_layout_def)
  from len obtain a c d where "r = [a, c, d]"
    by (auto simp: numeral_3_eq_3 length_Suc_conv)
  with parts r have s: "safe = base @ [''executions'', c, d]" "canonical_uuid c" "canonical_uuid d" by simp_all
  have "\<not> sensitive_name (we_name e) \<and> \<not> we_linked e \<and>
      (we_kind e = Directory \<or> we_kind e = Regular_file \<and> we_links e \<le> 1)" if "e \<in> set entries" for e
    using ok that by (cases "we_kind e") (auto simp: entry_problem_def split: if_splits)
  with b s show ?thesis unfolding Inr list_all_iff by auto
qed

end
