(* ===== verification/Settings.thy ===== *)
theory Settings
  imports Urls Complex_Main
begin

text \<open>
  \<^verbatim>\<open>app/core/config.py\<close>: the settings the services read, their defaults, the bounds their
  declarations impose and the validators of the URLs. Secrets are their text; a floating point
  setting is a rational number.
\<close>

record service_settings =
  ss_github_token :: "string option"
  ss_github_api_url :: string
  ss_github_git_host :: string
  ss_git_commit_name :: string
  ss_git_commit_email :: string
  ss_database_url :: "string option"
  ss_redis_url :: "string option"
  ss_llm_api_key :: "string option"
  ss_llm_model :: "string option"
  ss_llm_timeout_seconds :: rat
  ss_llm_max_retries :: int
  ss_llm_max_output_tokens :: int
  ss_planner_validation_retries :: int
  ss_max_recovery_attempts :: int
  ss_review_max_input_chars :: int
  ss_orchestration_recovery_seconds :: int
  ss_workflow_required_tests :: "string list"
  ss_workflow_retry_seconds :: int
  ss_execution_stale_seconds :: int
  ss_workflow_stage_attempts :: int
  ss_embedding_dim :: int
  ss_embedding_batch_size :: int
  ss_embedding_max_retries :: int
  ss_embedding_timeout_seconds :: int
  ss_dependency_timeout_seconds :: int
  ss_workspace_root :: "string list"
  ss_sandbox_images :: "(string \<times> string) list"
  ss_sandbox_timeout_seconds :: int
  ss_sandbox_cpu_limit :: rat
  ss_sandbox_memory_mb :: int
  ss_sandbox_pid_limit :: int
  ss_sandbox_output_bytes :: int
  ss_sandbox_user :: string
  ss_test_allowed_commands :: "string list"
  ss_index_max_file_bytes :: int
  ss_index_chunk_max_lines :: int
  ss_index_chunk_max_chars :: int
  ss_context_max_issue_chars :: int
  ss_context_max_code_chars :: int
  ss_context_max_chunks :: int
  ss_context_max_files :: int
  ss_context_max_queries :: int
  ss_context_query_chars :: int
  ss_context_include_neighbors :: bool

definition between :: "'a :: linorder \<Rightarrow> 'a \<Rightarrow> 'a \<Rightarrow> bool" where
  "between low high x \<longleftrightarrow> low \<le> x \<and> x \<le> high"

text \<open>The pattern \<^verbatim>\<open>^[1-9][0-9]{0,8}:[1-9][0-9]{0,8}$\<close> of pydantic, which has no trailing newline.\<close>

definition user_number :: "string \<Rightarrow> bool" where
  "user_number s \<longleftrightarrow> between 1 9 (length s) \<and> s ! 0 \<noteq> CHR ''0'' \<and> (\<forall>c \<in> set s. ascii_digit c)"

definition valid_user :: "string \<Rightarrow> bool" where
  "valid_user s = (case partition_at (CHR '':'') s of (user, found, members) \<Rightarrow>
     found \<and> user_number user \<and> user_number members)"

definition field_bounds :: "service_settings \<Rightarrow> bool" where
  "field_bounds st \<longleftrightarrow>
     1 \<le> length (ss_git_commit_name st) \<and> 1 \<le> length (ss_git_commit_email st) \<and>
     between 1 300 (ss_llm_timeout_seconds st) \<and> between 0 5 (ss_llm_max_retries st) \<and>
     between 1 32768 (ss_llm_max_output_tokens st) \<and> between 0 3 (ss_planner_validation_retries st) \<and>
     between 0 10 (ss_max_recovery_attempts st) \<and> between 1000 2000000 (ss_review_max_input_chars st) \<and>
     between 5 3600 (ss_orchestration_recovery_seconds st) \<and>
     between 1 8 (length (ss_workflow_required_tests st)) \<and>
     between 1 3600 (ss_workflow_retry_seconds st) \<and> between 1800 86400 (ss_execution_stale_seconds st) \<and>
     between 1 10 (ss_workflow_stage_attempts st) \<and> 0 < ss_embedding_dim st \<and>
     between 1 128 (ss_embedding_batch_size st) \<and> between 0 5 (ss_embedding_max_retries st) \<and>
     between 1 120 (ss_embedding_timeout_seconds st) \<and> between 1 30 (ss_dependency_timeout_seconds st) \<and>
     between 1 900 (ss_sandbox_timeout_seconds st) \<and> between (1 / 10) 4 (ss_sandbox_cpu_limit st) \<and>
     between 64 2048 (ss_sandbox_memory_mb st) \<and> between 16 256 (ss_sandbox_pid_limit st) \<and>
     between 1024 4194304 (ss_sandbox_output_bytes st) \<and> valid_user (ss_sandbox_user st) \<and>
     between 1 10485760 (ss_index_max_file_bytes st) \<and> between 1 1000 (ss_index_chunk_max_lines st) \<and>
     between 1 100000 (ss_index_chunk_max_chars st) \<and> between 512 50000 (ss_context_max_issue_chars st) \<and>
     between 1 100000 (ss_context_max_code_chars st) \<and> between 1 50 (ss_context_max_chunks st) \<and>
     between 1 50 (ss_context_max_files st) \<and> between 1 5 (ss_context_max_queries st) \<and>
     between 32 2000 (ss_context_query_chars st)"

definition default_settings :: service_settings where
  "default_settings =
     \<lparr>ss_github_token = None, ss_github_api_url = ''https://api.github.com'',
      ss_github_git_host = ''github.com'',
      ss_git_commit_name = ''AI Software Engineering Platform'',
      ss_git_commit_email = ''ai-platform@example.invalid'',
      ss_database_url = None, ss_redis_url = None, ss_llm_api_key = None, ss_llm_model = None,
      ss_llm_timeout_seconds = 30, ss_llm_max_retries = 3, ss_llm_max_output_tokens = 2048,
      ss_planner_validation_retries = 2, ss_max_recovery_attempts = 3,
      ss_review_max_input_chars = 200000, ss_orchestration_recovery_seconds = 30,
      ss_workflow_required_tests = [''python -m unittest''], ss_workflow_retry_seconds = 30,
      ss_execution_stale_seconds = 3600, ss_workflow_stage_attempts = 3,
      ss_embedding_dim = 1536, ss_embedding_batch_size = 16, ss_embedding_max_retries = 3,
      ss_embedding_timeout_seconds = 30, ss_dependency_timeout_seconds = 2,
      ss_workspace_root = [''workspaces''],
      ss_sandbox_images = [(''python'', ''python:3.12-slim'')],
      ss_sandbox_timeout_seconds = 60, ss_sandbox_cpu_limit = 1, ss_sandbox_memory_mb = 256,
      ss_sandbox_pid_limit = 64, ss_sandbox_output_bytes = 1048576, ss_sandbox_user = ''1000:1000'',
      ss_test_allowed_commands = [''pytest'', ''python -m pytest'', ''python -m unittest'', ''npm test'',
        ''npm run test'', ''npm run lint'', ''pnpm test'', ''yarn test'', ''go test'', ''cargo test''],
      ss_index_max_file_bytes = 262144, ss_index_chunk_max_lines = 120, ss_index_chunk_max_chars = 8000,
      ss_context_max_issue_chars = 12000, ss_context_max_code_chars = 24000, ss_context_max_chunks = 12,
      ss_context_max_files = 8, ss_context_max_queries = 3, ss_context_query_chars = 1000,
      ss_context_include_neighbors = True\<rparr>"

section \<open>Validators\<close>

definition validate_github_api_url :: "url_rules \<Rightarrow> string \<Rightarrow> exc + string" where
  "validate_github_api_url rules s = bindE (urlsplit rules s) (\<lambda>u.
     if u_scheme u \<noteq> ''https'' \<or> url_hostname u = None \<or> fst (user_info u) \<noteq> None \<or>
        snd (user_info u) \<noteq> None \<or> u_query u \<noteq> [] \<or> u_fragment u \<noteq> []
     then Inl ValueFailure else Inr s)"

definition validate_connection_url :: "string option \<Rightarrow> string option" where
  "validate_connection_url v = (case v of None \<Rightarrow> None
     | Some s \<Rightarrow> if \<forall>c \<in> set s. space_char c then None else Some s)"

definition validate_database_url :: "url_rules \<Rightarrow> string option \<Rightarrow> exc + string option" where
  "validate_database_url rules v = (case v of None \<Rightarrow> Inr None
     | Some s \<Rightarrow> bindE (urlsplit rules s) (\<lambda>u.
         if u_scheme u \<noteq> ''postgresql+psycopg'' \<or> url_hostname u = None then Inl ValueFailure
         else Inr v))"

definition validate_redis_url :: "url_rules \<Rightarrow> string option \<Rightarrow> exc + string option" where
  "validate_redis_url rules v = (case v of None \<Rightarrow> Inr None
     | Some s \<Rightarrow> bindE (urlsplit rules s) (\<lambda>u.
         if u_scheme u \<notin> {''redis'', ''rediss''} \<or> url_hostname u = None then Inl ValueFailure
         else Inr v))"

definition validate_settings :: "url_rules \<Rightarrow> service_settings \<Rightarrow> exc + service_settings" where
  "validate_settings rules st =
     bindE (validate_github_api_url rules (ss_github_api_url st)) (\<lambda>api.
     bindE (validate_database_url rules (validate_connection_url (ss_database_url st))) (\<lambda>database.
     bindE (validate_redis_url rules (validate_connection_url (ss_redis_url st))) (\<lambda>redis.
     if field_bounds st
     then Inr (st\<lparr>ss_github_api_url := api, ss_database_url := database, ss_redis_url := redis\<rparr>)
     else Inl ValueFailure)))"

text \<open>The configured secrets, in the order the services try them.\<close>

definition ss_secrets :: "service_settings \<Rightarrow> string option list" where
  "ss_secrets st = [ss_github_token st, ss_llm_api_key st, ss_database_url st, ss_redis_url st]"

lemma default_bounds: "field_bounds default_settings"
  by (simp add: field_bounds_def default_settings_def between_def valid_user_def partition_at_def
      user_number_def ascii_digit_def less_eq_char_def)

end
