(* ===== verification/Service_World.thy ===== *)
theory Service_World
  imports Execution_Trace Patch_Format Sandbox_Policy Settings
begin

text \<open>
  The state the services run in and the boundary they run against. The world is the database, the
  lock files the services hold, everything else outside (\<open>'x\<close>), and the log of the calls that
  crossed the boundary, in order. The environment is what is not under \<^verbatim>\<open>src\<close>: processes, the file
  system, models, containers, GitHub, serialisation and hashing, the clock and fresh identifiers. Each
  service method is an effect on the world; a transaction runs on the database as other workers
  left it in the meantime.
\<close>

section \<open>The boundary\<close>

text \<open>
  A JSON value as \<open>json.loads\<close> returns it, the keys of an object distinct. The numbers that are no
  numbers of JSON (\<^verbatim>\<open>NaN\<close>, \<^verbatim>\<open>Infinity\<close>) are left out.
\<close>

datatype json =
    Json_null
  | Json_bool bool
  | Json_int int
  | Json_float rat
  | Json_text string
  | Json_list "json list"
  | Json_object "(string \<times> json) list"

definition json_truthy :: "json \<Rightarrow> bool" where
  "json_truthy v = (case v of Json_null \<Rightarrow> False | Json_bool b \<Rightarrow> b | Json_int n \<Rightarrow> n \<noteq> 0
     | Json_float x \<Rightarrow> x \<noteq> 0 | Json_text s \<Rightarrow> s \<noteq> [] | Json_list vs \<Rightarrow> vs \<noteq> [] | Json_object kvs \<Rightarrow> kvs \<noteq> [])"

definition json_field :: "string \<Rightarrow> json \<Rightarrow> json option" where
  "json_field key v = (case v of Json_object kvs \<Rightarrow> map_of kvs key | _ \<Rightarrow> None)"

datatype process_outcome =
    Process_exit int string string
  | Process_timeout
  | Process_unavailable

record git_result =
  gr_code :: int
  gr_stdout :: string
  gr_stderr :: string

record sandbox_request =
  sbr_workspace :: path
  sbr_image :: string
  sbr_command :: "string list"
  sbr_timeout :: int
  sbr_environment :: "(string \<times> string) list"
  sbr_environment_allowlist :: "string list"

record sandbox_result =
  sbx_exit_code :: "int option"
  sbx_stdout :: string
  sbx_stderr :: string
  sbx_elapsed_seconds :: int
  sbx_timed_out :: bool
  sbx_output_truncated :: bool

record debug_input =
  di_context :: issue_context
  di_task :: plan_task_proposal
  di_current_diff :: string
  di_failing_tests :: "test_result list"
  di_previous_attempts :: "debug_attempt list"

text \<open>What the services do to files themselves, and a finished Docker command.\<close>

datatype file_action =
    Make_directory path
  | Write_new path string
  | Rename path path
  | Restore path "string option"

record command_result =
  cmr_code :: int
  cmr_stdout :: string
  cmr_stderr :: string
  cmr_timed_out :: bool
  cmr_truncated :: bool

text \<open>The calls that cross the boundary, with what the properties need to know of their outcome.\<close>

datatype call =
    Git_call "string list" "string option" "int option"
  | Propose_call coding_input
  | Repair_call debug_input
  | Review_call review_input
  | Branch_call string "exc + string"
  | Remote_call "string list" "string option" bool
  | File_call file_action
  | Docker_call "string list" "int option"
  | Find_call string
  | Create_call string
  | Embed_call "pystr list"
  | Plan_call "string list"
  | Lookup_call "string list"
  | Execute_call uuid

record 'x world =
  w_db :: db
  w_locks :: "path list"
  w_ext :: 'x
  w_tick :: nat
  w_calls :: "call list"

record 'x environment =
  env_now :: "nat \<Rightarrow> time"
  env_uuid :: "nat \<Rightarrow> uuid"
  env_others :: "nat \<Rightarrow> db \<Rightarrow> db"
  env_uuid_text :: "uuid \<Rightarrow> string"
  env_sha :: "string \<Rightarrow> string"
  env_fs :: "'x \<Rightarrow> filesystem"
  env_variables :: "(string \<times> string) list"
  env_process :: "string list \<Rightarrow> (string \<times> string) list \<Rightarrow> path \<Rightarrow> string option \<Rightarrow> 'x \<Rightarrow> process_outcome \<times> 'x"
  env_decode :: "string \<Rightarrow> string"
  env_coding_json :: "coding_input \<Rightarrow> string"
  env_proposal_json :: "code_change_proposal \<Rightarrow> string"
  env_debug_json :: "debug_input \<Rightarrow> string"
  env_review_input_json :: "review_input \<Rightarrow> string"
  env_review_json :: "review_result \<Rightarrow> string"
  env_publication_json :: "publication \<Rightarrow> string"
  env_propose :: "coding_input \<Rightarrow> 'x \<Rightarrow> (exc + code_change_proposal \<times> token_usage) \<times> 'x"
  env_repair :: "debug_input \<Rightarrow> 'x \<Rightarrow> (exc + code_change_proposal \<times> token_usage) \<times> 'x"
  env_review :: "review_input \<Rightarrow> 'x \<Rightarrow> (exc + review_result \<times> token_usage) \<times> 'x"
  env_url_rules :: url_rules
  env_float_text :: "rat \<Rightarrow> string"
  env_duration_text :: "int \<Rightarrow> string"
  env_json_text :: "json \<Rightarrow> string"
  env_monotonic :: "nat \<Rightarrow> int"
  env_branch_sha :: "string \<Rightarrow> string \<Rightarrow> string \<Rightarrow> 'x \<Rightarrow> (exc + string) \<times> 'x"
  env_find_pulls :: "string \<Rightarrow> string \<Rightarrow> string \<Rightarrow> string \<Rightarrow> 'x \<Rightarrow> (exc + json list) \<times> 'x"
  env_create_pull :: "string \<Rightarrow> string \<Rightarrow> string \<Rightarrow> string \<Rightarrow> string \<Rightarrow> string \<Rightarrow> 'x \<Rightarrow> (exc + json) \<times> 'x"
  env_files :: "file_action \<Rightarrow> 'x \<Rightarrow> (exc + unit) \<times> 'x"
  env_content :: "'x \<Rightarrow> path \<Rightarrow> string option"
  env_entries :: "'x \<Rightarrow> path \<Rightarrow> path list"
  env_python :: string
  env_helper :: string
  env_askpass :: "nat \<Rightarrow> string"
  env_docker :: "string list \<Rightarrow> int \<Rightarrow> nat \<Rightarrow> 'x \<Rightarrow> (exc + command_result) \<times> 'x"
  env_json :: "string \<Rightarrow> json option"

section \<open>Effects on the world\<close>

text \<open>
  One transaction, with one reading of the clock and one fresh identifier. Between two transactions
  of a service other workers may have committed theirs: \<open>env_others\<close>.
\<close>

definition transaction ::
  "'x environment \<Rightarrow> (uuid \<Rightarrow> time \<Rightarrow> db \<Rightarrow> service_error + db \<times> 'a) \<Rightarrow> ('x world, 'a) eff" where
  "transaction env op = (\<lambda>w.
     let d = env_others env (w_tick w) (w_db w); w1 = w\<lparr>w_db := d, w_tick := Suc (w_tick w)\<rparr>
     in case op (env_uuid env (w_tick w)) (env_now env (w_tick w)) d of
          Inl e \<Rightarrow> (Inl (ServiceFailure e), w1)
        | Inr (d', x) \<Rightarrow> (Inr x, w1\<lparr>w_db := d'\<rparr>))"

definition unit_result :: "service_error + db \<Rightarrow> service_error + db \<times> unit" where
  "unit_result r = bindE r (\<lambda>d. Inr (d, ()))"

text \<open>A call across the boundary, logged with its outcome.\<close>

definition external :: "('x \<Rightarrow> (exc + 'a) \<times> 'x) \<Rightarrow> (exc + 'a \<Rightarrow> call) \<Rightarrow> ('x world, 'a) eff" where
  "external f note_call = (\<lambda>w. case f (w_ext w) of
     (r, x) \<Rightarrow> (r, w\<lparr>w_ext := x, w_calls := w_calls w @ [note_call r]\<rparr>))"

text \<open>A reading of the monotonic clock, and \<open>uuid4()\<close>, outside a transaction.\<close>

definition clock :: "'x environment \<Rightarrow> ('x world, int) eff" where
  "clock env = (\<lambda>w. (Inr (env_monotonic env (w_tick w)), w\<lparr>w_tick := Suc (w_tick w)\<rparr>))"

definition fresh_uuid :: "'x environment \<Rightarrow> ('x world, uuid) eff" where
  "fresh_uuid env = (\<lambda>w. (Inr (env_uuid env (w_tick w)), w\<lparr>w_tick := Suc (w_tick w)\<rparr>))"

definition uuid_hex :: "'x environment \<Rightarrow> uuid \<Rightarrow> string" where
  "uuid_hex env i = filter (\<lambda>c. c \<noteq> CHR ''-'') (env_uuid_text env i)"

definition path_text :: "path \<Rightarrow> string" where
  "path_text p = concat (map (\<lambda>part. ''/'' @ part) p)"

definition in_files :: "'x environment \<Rightarrow> (filesystem \<Rightarrow> 'a) \<Rightarrow> ('x world, 'a) eff" where
  "in_files env f = asks (\<lambda>w. f (env_fs env (w_ext w)))"

text \<open>
  The local variables of a method that its \<open>except\<close> clause reads: the body runs on the world
  together with them.
\<close>

definition scoped :: "'l \<Rightarrow> ('s \<times> 'l, 'a) eff \<Rightarrow> ('l \<Rightarrow> exc \<Rightarrow> ('s, 'a) eff) \<Rightarrow> ('s, 'a) eff" where
  "scoped l m h = (\<lambda>s. case m (s, l) of
     (Inr x, (t, _)) \<Rightarrow> (Inr x, t) | (Inl e, (t, l')) \<Rightarrow> h l' e t)"

definition on_world :: "('s, 'a) eff \<Rightarrow> ('s \<times> 'l, 'a) eff" where
  "on_world m = (\<lambda>(s, l). case m s of (r, t) \<Rightarrow> (r, (t, l)))"

definition assign :: "('l \<Rightarrow> 'l) \<Rightarrow> ('s \<times> 'l, unit) eff" where
  "assign f = (\<lambda>(s, l). (Inr (), (s, f l)))"

definition local_value :: "('l \<Rightarrow> 'a) \<Rightarrow> ('s \<times> 'l, 'a) eff" where
  "local_value f = (\<lambda>(s, l). (Inr (f l), (s, l)))"

section \<open>Shared text operations\<close>

text \<open>\<open>text.replace(old, new)\<close> for a non-empty \<open>old\<close>.\<close>

function replace_all :: "string \<Rightarrow> string \<Rightarrow> string \<Rightarrow> string" where
  "replace_all old new s =
     (if old = [] \<or> s = [] then s
      else if starts_with old s then new @ replace_all old new (drop (length old) s)
      else hd s # replace_all old new (tl s))"
  by pat_completeness auto
termination
  by (relation "measure (\<lambda>(_, _, s). length s)") auto

declare replace_all.simps [simp del]

definition set_secrets :: "service_settings \<Rightarrow> string list" where
  "set_secrets settings = filter (\<lambda>s. s \<noteq> []) (map (\<lambda>s. or_empty s) (ss_secrets settings))"

definition redact :: "service_settings \<Rightarrow> string \<Rightarrow> string" where
  "redact settings s = fold (\<lambda>secret. replace_all secret ''[REDACTED]'') (set_secrets settings) s"

definition occurs_in :: "string \<Rightarrow> string \<Rightarrow> bool" where
  "occurs_in needle s \<longleftrightarrow> (\<exists>n \<in> set [0..<Suc (length s)]. starts_with needle (drop n s))"

definition contains_secret :: "service_settings \<Rightarrow> string \<Rightarrow> bool" where
  "contains_secret settings s \<longleftrightarrow> (\<exists>secret \<in> set (set_secrets settings). occurs_in secret s)"

definition execution_workspace :: "'x environment \<Rightarrow> service_settings \<Rightarrow> uuid \<Rightarrow> uuid \<Rightarrow> path" where
  "execution_workspace env settings repository rid =
     ss_workspace_root settings @ [''executions'', env_uuid_text env repository, env_uuid_text env rid]"

section \<open>What every effect keeps\<close>

definition only_world :: "('s \<Rightarrow> bool) \<Rightarrow> 's \<times> 'l \<Rightarrow> bool" where
  "only_world I p \<longleftrightarrow> I (fst p)"

lemma only_world_iff [simp]: "only_world I (s, l) = I s"
  by (simp add: only_world_def)

lemma keeps_on_world [keeps_rules]: "keeps I m \<Longrightarrow> keeps (only_world I) (on_world m)"
  by (fastforce simp: keeps_iff on_world_def only_world_def split: prod.split)

lemma keeps_assign [keeps_rules]: "keeps (only_world I) (assign f)" "keeps (only_world I) (local_value g)"
  by (auto simp: keeps_iff assign_def local_value_def)

lemma keeps_scoped [keeps_rules]:
  assumes "keeps (only_world I) m" and "\<And>l e. keeps I (h l e)"
  shows "keeps I (scoped l m h)"
proof (rule keepsI)
  fix s assume I: "I s"
  obtain r t l' where m: "m (s, l) = (r, (t, l'))" by (metis surj_pair)
  with keepsD [OF assms(1), of "(s, l)"] I have "I t" by simp
  with m keepsD [OF assms(2)] show "I (snd (scoped l m h s))"
    by (cases r) (simp_all add: scoped_def)
qed

lemma keeps_in_files [keeps_rules]: "keeps I (in_files env f)"
  unfolding in_files_def by (rule keeps_pure)

text \<open>
  The database of a service moves along the transactions of the library, whatever the service does:
  this is what its runs have to be proved to keep.
\<close>

definition reached_from :: "db \<Rightarrow> 'x world \<Rightarrow> bool" where
  "reached_from d w \<longleftrightarrow> exec_step\<^sup>*\<^sup>* d (w_db w)"

definition others_step :: "'x environment \<Rightarrow> bool" where
  "others_step env \<longleftrightarrow> (\<forall>n d. exec_step\<^sup>*\<^sup>* d (env_others env n d))"

lemma keeps_external [keeps_rules]:
  "keeps (reached_from d) (external f c)" "keeps (\<lambda>w. w_locks w = L) (external f c)"
  by (auto simp: keeps_iff external_def reached_from_def split: prod.split)

lemma keeps_ticks [keeps_rules]:
  "keeps (reached_from d) (clock env)" "keeps (\<lambda>w. w_locks w = L) (clock env)"
  "keeps (reached_from d) (fresh_uuid env)" "keeps (\<lambda>w. w_locks w = L) (fresh_uuid env)"
  by (auto simp: keeps_iff clock_def fresh_uuid_def reached_from_def)

lemma transaction_db:
  "w_db (snd (transaction env op w)) =
    (let d = env_others env (w_tick w) (w_db w)
     in case op (env_uuid env (w_tick w)) (env_now env (w_tick w)) d of Inl e \<Rightarrow> d | Inr (d', x) \<Rightarrow> d')"
  by (auto simp: transaction_def Let_def split: sum.split)

lemma keeps_transaction:
  fixes env :: "'x environment"
  assumes "others_step env" and "\<And>i t d d' x. op i t d = Inr (d', x) \<Longrightarrow> exec_step d d' \<or> d' = d"
  shows "keeps (reached_from d0) (transaction env op)"
proof (rule keepsI)
  fix w :: "'x world" assume "reached_from d0 w"
  then have o: "exec_step\<^sup>*\<^sup>* d0 (env_others env (w_tick w) (w_db w))"
    using assms(1) unfolding reached_from_def others_step_def by (meson rtranclp_trans)
  then show "reached_from d0 (snd (transaction env op w))"
    unfolding reached_from_def transaction_db Let_def
    by (auto split: sum.split dest!: assms(2) intro: rtranclp.rtrancl_into_rtrancl)
qed

lemma keeps_transaction_locks [keeps_rules]: "keeps (\<lambda>w. w_locks w = L) (transaction env op)"
  by (auto simp: keeps_iff transaction_def Let_def split: sum.split)

lemma unit_result_Inr [simp]: "unit_result r = Inr (d, x) \<longleftrightarrow> r = Inr d"
  by (cases r) (auto simp: unit_result_def)


section \<open>The log of calls\<close>

text \<open>What the log has gained since it was \<open>base\<close>.\<close>

definition grown :: "call list \<Rightarrow> (call list \<Rightarrow> bool) \<Rightarrow> 'x world \<Rightarrow> bool" where
  "grown base P w \<longleftrightarrow> (\<exists>cs. w_calls w = base @ cs \<and> P cs)"

lemma grown_mono: "grown base P w \<Longrightarrow> (\<And>cs. P cs \<Longrightarrow> Q cs) \<Longrightarrow> grown base Q w"
  by (auto simp: grown_def)

lemma grown_external:
  "(\<And>cs r. P cs \<Longrightarrow> P (cs @ [c r])) \<Longrightarrow> keeps (grown base P) (external f c)"
  by (fastforce simp: keeps_iff external_def grown_def split: prod.split)

text \<open>Every call of one kind comes directly after a call it needs.\<close>

definition directly_after :: "(call \<Rightarrow> bool) \<Rightarrow> (call \<Rightarrow> call \<Rightarrow> bool) \<Rightarrow> call list \<Rightarrow> bool" where
  "directly_after kind needs cs \<longleftrightarrow>
     (\<forall>i < length cs. kind (cs ! i) \<longrightarrow> 0 < i \<and> needs (cs ! (i - 1)) (cs ! i))"

lemma directly_after_Nil [simp]: "directly_after kind needs []"
  by (simp add: directly_after_def)

lemma directly_after_append:
  assumes "directly_after kind needs cs" and "kind c \<Longrightarrow> cs \<noteq> [] \<and> needs (last cs) c"
  shows "directly_after kind needs (cs @ [c])"
  unfolding directly_after_def
proof (intro allI impI)
  fix i assume i: "i < length (cs @ [c])" and k: "kind ((cs @ [c]) ! i)"
  show "0 < i \<and> needs ((cs @ [c]) ! (i - 1)) ((cs @ [c]) ! i)"
  proof (cases "i < length cs")
    case True
    moreover from True have "i - 1 < length cs" by linarith
    ultimately have "(cs @ [c]) ! i = cs ! i" "(cs @ [c]) ! (i - 1) = cs ! (i - 1)" by (simp_all only: nth_append if_True)
    with True k assms(1) show ?thesis by (simp add: directly_after_def)
  next
    case False
    with i have "i = length cs" by simp
    with k assms(2) show ?thesis by (auto simp: nth_append last_conv_nth)
  qed
qed

lemma keeps_grown [keeps_rules]:
  "keeps (grown base P) (transaction env op)" "keeps (grown base P) (clock env)"
  "keeps (grown base P) (fresh_uuid env)"
  by (auto simp: keeps_iff grown_def transaction_def clock_def fresh_uuid_def Let_def split: sum.split)


section \<open>Successful runs\<close>

lemma on_world_Inr: "on_world m (s, l) = (Inr x, (t, l')) \<longleftrightarrow> m s = (Inr x, t) \<and> l' = l"
  by (auto simp: on_world_def split: prod.splits)

lemma locals_Inr:
  "assign f (s, l) = (Inr u, (t, l')) \<longleftrightarrow> t = s \<and> l' = f l"
  "local_value g (s, l) = (Inr x, (t, l')) \<longleftrightarrow> x = g l \<and> t = s \<and> l' = l"
  by (auto simp: assign_def local_value_def)

lemma scoped_Inr:
  assumes "scoped l m h s = (Inr x, t)" and "\<And>l e s y u. h l e s \<noteq> (Inr y, u)"
  obtains l' where "m (s, l) = (Inr x, (t, l'))"
  using assms by (auto simp: scoped_def split: prod.splits sum.splits)

lemma transaction_Inr:
  assumes "transaction env op w = (Inr x, w')"
  obtains d d' where "op (env_uuid env (w_tick w)) (env_now env (w_tick w)) d = Inr (d', x)"
    and "d = env_others env (w_tick w) (w_db w)" and "w' = w\<lparr>w_tick := Suc (w_tick w), w_db := d'\<rparr>"
  using assms by (auto simp: transaction_def Let_def split: sum.splits)

end
