(* ===== verification/Code_Patches.thy ===== *)
theory Code_Patches
  imports Service_World
begin

text \<open>
  \<^verbatim>\<open>app/integrations/git/patches.py\<close> and \<^verbatim>\<open>app/services/code_patches.py\<close>: the local Git
  command with its fixed options and environment, the lock on a workspace, the verification that it
  is a plain repository, the diff of the working tree, and the application of a proposed patch.
\<close>

section \<open>Local Git\<close>

definition patch_error :: "string \<Rightarrow> string \<Rightarrow> exc" where
  "patch_error error_code diagnostic = PatchFailure error_code (take 4000 diagnostic)"

definition git_variables :: "(string \<times> string) list \<Rightarrow> (string \<times> string) list" where
  "git_variables inherited =
     filter (\<lambda>(k, _). k \<in> {''PATH'', ''SystemRoot'', ''SYSTEMROOT'', ''TEMP'', ''TMP''}) inherited @
     [(''GIT_CONFIG_NOSYSTEM'', ''1''), (''GIT_CONFIG_GLOBAL'', ''/dev/null''),
      (''GIT_TERMINAL_PROMPT'', ''0''), (''GIT_OPTIONAL_LOCKS'', ''0''), (''LC_ALL'', ''C'')]"

definition git_command :: "string list \<Rightarrow> string list" where
  "git_command args =
     [''git'', ''-c'', ''core.hooksPath=/dev/null'', ''-c'', ''core.fsmonitor=false'',
      ''-c'', ''core.autocrlf=false'', ''-c'', ''protocol.allow=never''] @ args"

definition git_outcome :: "'x environment \<Rightarrow> process_outcome \<Rightarrow> exc + git_result" where
  "git_outcome env outcome = (case outcome of
     Process_timeout \<Rightarrow> Inl (patch_error ''patch_git_timeout'' [])
   | Process_unavailable \<Rightarrow> Inl (patch_error ''patch_git_unavailable'' [])
   | Process_exit code_number out err \<Rightarrow>
       if 1048576 < length out then Inl (patch_error ''patch_diff_too_large'' [])
       else Inr \<lparr>gr_code = code_number, gr_stdout = env_decode env out,
                 gr_stderr = env_decode env (take 4000 err)\<rparr>)"

definition local_git :: "'x environment \<Rightarrow> string list \<Rightarrow> path \<Rightarrow> string option \<Rightarrow> ('x world, git_result) eff" where
  "local_git env args workspace patch =
     external (\<lambda>x. case env_process env (git_command args) (git_variables (env_variables env)) workspace patch x of
                 (outcome, x') \<Rightarrow> (git_outcome env outcome, x'))
       (\<lambda>r. Git_call args patch (case r of Inl _ \<Rightarrow> None | Inr g \<Rightarrow> Some (gr_code g)))"

section \<open>Text\<close>

text \<open>\<open>s.splitlines()\<close> of a string, and the parts of a path given as text.\<close>

definition chomp :: "pystr \<Rightarrow> pystr" where
  "chomp l = (if ends_with [13, 10] l then butlast (butlast l)
     else if l \<noteq> [] \<and> line_break (last l) then butlast l else l)"

definition str_lines :: "string \<Rightarrow> string list" where
  "str_lines s = map (\<lambda>l. map char_of (chomp l)) (split_lines (pytext s))"

definition path_parts :: "string \<Rightarrow> path" where
  "path_parts s = filter (\<lambda>part. part \<noteq> [] \<and> part \<noteq> ''.'') (split_on (CHR ''/'') s)"

section \<open>The lock\<close>

definition lock_of :: "path \<Rightarrow> path" where
  "lock_of safe = butlast safe @ [''.'' @ last safe @ ''.coding.lock'']"

definition acquire :: "path \<Rightarrow> ('x world, unit) eff" where
  "acquire lock = (\<lambda>w. if lock \<in> set (w_locks w) then (Inl (patch_error ''coding_workspace_busy'' []), w)
     else (Inr (), w\<lparr>w_locks := lock # w_locks w\<rparr>))"

definition release :: "path \<Rightarrow> ('x world, unit) eff" where
  "release lock = (\<lambda>w. if lock \<in> set (w_locks w) then (Inr (), w\<lparr>w_locks := remove1 lock (w_locks w)\<rparr>)
     else (Inl OSFailure, w))"

definition permitted_keys :: "string list" where
  "permitted_keys = [''core.repositoryformatversion'', ''core.filemode'', ''core.bare'',
     ''core.logallrefupdates'', ''core.symlinks'', ''core.ignorecase'', ''user.name'', ''user.email'']"

definition verify :: "'x environment \<Rightarrow> path \<Rightarrow> ('x world, unit) eff" where
  "verify env workspace =
     bindM (in_files env (\<lambda>fs. st_is_dir (fs_status fs (workspace @ [''.git''])))) (\<lambda>git_dir.
     seqM (ensure (patch_error ''standalone_git_repository_required'' []) git_dir)
     (bindM (local_git env [''config'', ''--local'', ''--no-includes'', ''--name-only'', ''--list''] workspace None) (\<lambda>keys.
     seqM (ensure (patch_error ''unsafe_local_git_configuration'' [])
             (gr_code keys = 0 \<and> (\<forall>key \<in> set (str_lines (gr_stdout keys)). lower key \<in> set permitted_keys)))
     (bindM (local_git env [''rev-parse'', ''--show-toplevel''] workspace None) (\<lambda>toplevel.
     bindM (in_files env (\<lambda>fs. fs_target fs (path_parts (strip (gr_stdout toplevel))) = fs_target fs workspace)) (\<lambda>same.
     seqM (ensure (patch_error ''invalid_git_workspace'' []) (gr_code toplevel = 0 \<and> same))
     (bindM (in_files env (\<lambda>fs. st_exists (fs_status fs (workspace @ [''.git'', ''objects'', ''info'', ''alternates''])))) (\<lambda>alternates.
     ensure (patch_error ''unsafe_git_alternates'' []) (\<not> alternates)))))))))"

definition checked_path :: "'x environment \<Rightarrow> service_settings \<Rightarrow> path \<Rightarrow> ('x world, path) eff" where
  "checked_path env settings workspace =
     bindM (in_files env (\<lambda>fs. workspace_path fs (ss_workspace_root settings) workspace)) liftE"

text \<open>\<open>with self.locked(workspace) as safe\<close> around a body that may use local variables.\<close>

definition locked ::
  "'x environment \<Rightarrow> service_settings \<Rightarrow> path \<Rightarrow> (path \<Rightarrow> ('x world \<times> 'l, 'a) eff) \<Rightarrow> ('x world \<times> 'l, 'a) eff" where
  "locked env settings workspace body =
     bindM (on_world (checked_path env settings workspace)) (\<lambda>safe.
     seqM (on_world (acquire (lock_of safe)))
       (finallyM (seqM (on_world (verify env safe)) (body safe)) (on_world (release (lock_of safe)))))"

section \<open>Reading the workspace\<close>

definition status :: "'x environment \<Rightarrow> path \<Rightarrow> ('x world, string) eff" where
  "status env workspace =
     bindM (local_git env [''status'', ''--porcelain'', ''--untracked-files=all''] workspace None) (\<lambda>r.
     seqM (ensure (patch_error ''patch_status_failed'' (gr_stderr r)) (gr_code r = 0))
       (ret (if strip (gr_stdout r) = [] then ''clean'' else ''modified'')))"

definition diff_options :: "string list" where
  "diff_options = [''diff'', ''--no-ext-diff'', ''--no-textconv'']"

definition addition :: "'x environment \<Rightarrow> path \<Rightarrow> string \<Rightarrow> string \<Rightarrow> ('x world, string) eff" where
  "addition env workspace name output =
     bindM (local_git env (diff_options @ [''--no-index'', ''--'', ''/dev/null'', name]) workspace None) (\<lambda>r.
     seqM (ensure (patch_error ''patch_diff_failed'' (gr_stderr r)) (gr_code r \<in> {0, 1}))
       (ret (output @ gr_stdout r)))"

definition encoded_within :: "nat \<Rightarrow> string \<Rightarrow> bool" where
  "encoded_within limit s \<longleftrightarrow> (case utf8_length (pytext s) of None \<Rightarrow> False | Some n \<Rightarrow> n \<le> limit)"

definition current_diff :: "'x environment \<Rightarrow> path \<Rightarrow> ('x world, string) eff" where
  "current_diff env workspace =
     bindM (local_git env (diff_options @ [''HEAD'']) workspace None) (\<lambda>tracked.
     bindM (local_git env [''ls-files'', ''--others'', ''--exclude-standard'', ''-z''] workspace None) (\<lambda>untracked.
     seqM (ensure (patch_error ''patch_diff_failed'' []) (gr_code tracked = 0 \<and> gr_code untracked = 0))
     (let names = filter (\<lambda>name. name \<noteq> []) (split_on (CHR 0x00) (gr_stdout untracked))
      in seqM (ensure (patch_error ''patch_diff_too_large'' []) (length names \<le> 50))
         (foldM (\<lambda>name output.
            seqM (liftE (validate_path (pytext name)))
            (bindM (addition env workspace name output) (\<lambda>more.
             seqM (ensure (patch_error ''patch_diff_too_large'' []) (encoded_within 1048576 more)) (ret more))))
           names (gr_stdout tracked)))))"

section \<open>Applying a proposal\<close>

definition valid_proposal :: "code_change_proposal \<Rightarrow> bool" where
  "valid_proposal p \<longleftrightarrow>
     1 \<le> length (ccp_summary p) \<and> length (ccp_summary p) \<le> 10000 \<and>
     1 \<le> length (ccp_files_changed p) \<and> length (ccp_files_changed p) \<le> 50 \<and>
     1 \<le> length (ccp_unified_diff p) \<and> length (ccp_unified_diff p) \<le> 262144 \<and>
     length (ccp_assumptions p) \<le> 50 \<and> length (ccp_tests_to_run p) \<le> 50 \<and>
     (\<forall>s \<in> set (ccp_assumptions p) \<union> set (ccp_tests_to_run p). 1 \<le> length s \<and> length s \<le> 2000)"

definition item_name :: "patch_file \<Rightarrow> string" where
  "item_name f = map char_of (pf_path f)"

definition item_target :: "path \<Rightarrow> patch_file \<Rightarrow> path" where
  "item_target workspace f = workspace @ path_parts (item_name f)"

definition check_target :: "'x environment \<Rightarrow> path \<Rightarrow> patch_file \<Rightarrow> ('x world, unit) eff" where
  "check_target env workspace f =
     bindM (in_files env (\<lambda>fs. (fs_status fs (item_target workspace f),
              relative_to (fs_target fs workspace) (fs_target fs (item_target workspace f))))) (\<lambda>(st, inside).
     seqM (ensure (patch_error ''new_file_already_exists'' []) (\<not> (pf_new f \<and> st_exists st)))
     (seqM (ensure (patch_error ''patch_file_missing'' []) (pf_new f \<or> st_is_file st))
     (seqM (ensure (patch_error ''patch_file_too_large'' []) (\<not> (st_exists st \<and> 1048576 < st_size st)))
       (ensure (patch_error ''unsafe_patch_path'' []) inside))))"

definition added_diff :: "'x environment \<Rightarrow> path \<Rightarrow> patch_file \<Rightarrow> string \<Rightarrow> ('x world, string) eff" where
  "added_diff env workspace f output =
     bindM (local_git env [''ls-files'', ''--'', item_name f] workspace None) (\<lambda>tracked.
     seqM (ensure (patch_error ''patch_diff_failed'' (gr_stderr tracked)) (gr_code tracked = 0))
     (bindM (in_files env (\<lambda>fs. st_is_file (fs_status fs (item_target workspace f)))) (\<lambda>present.
      if strip (gr_stdout tracked) = [] \<and> present
      then addition env workspace (item_name f) output else ret output)))"

definition git_apply :: "'x environment \<Rightarrow> path \<Rightarrow> string \<Rightarrow> ('x world, unit) eff" where
  "git_apply env workspace patch =
     bindM (local_git env [''apply'', ''--check'', ''--whitespace=nowarn'', ''-''] workspace (Some patch)) (\<lambda>checked.
     seqM (ensure (patch_error ''patch_check_failed'' (gr_stderr checked)) (gr_code checked = 0))
     (bindM (local_git env [''apply'', ''--whitespace=nowarn'', ''-''] workspace (Some patch)) (\<lambda>applied.
     ensure (patch_error ''patch_apply_failed'' (gr_stderr applied)) (gr_code applied = 0))))"

definition apply_patch ::
  "'x environment \<Rightarrow> service_settings \<Rightarrow> path \<Rightarrow> code_change_proposal \<Rightarrow> ('x world, string) eff" where
  "apply_patch env settings workspace proposal =
     seqM (ensure ValueFailure (valid_proposal proposal))
     (bindM (liftE (parse_patch (pytext (ccp_unified_diff proposal)) (map pytext (ccp_files_changed proposal)))) (\<lambda>files.
     seqM (checked_path env settings workspace)
     (seqM (verify env workspace)
     (seqM (eachM (check_target env workspace) files)
     (seqM (git_apply env workspace (ccp_unified_diff proposal))
     (bindM (local_git env (diff_options @ [''HEAD'', ''--''] @ ccp_files_changed proposal) workspace None) (\<lambda>diff.
     seqM (ensure (patch_error ''patch_diff_failed'' (gr_stderr diff)) (gr_code diff = 0))
       (foldM (added_diff env workspace) files (gr_stdout diff)))))))))"

section \<open>Locks and the database\<close>

lemma keeps_local_git [keeps_rules]:
  "keeps (reached_from d) (local_git env args workspace patch)"
  "keeps (\<lambda>w. w_locks w = L) (local_git env args workspace patch)"
  unfolding local_git_def by (rule keeps_rules)+

text \<open>
  Reading and patching keep what a single Git command keeps, and what the checked application of a
  parsed patch keeps.
\<close>

locale quiet =
  fixes I :: "'x world \<Rightarrow> bool"
  assumes git_quiet: "hd args \<noteq> ''apply'' \<Longrightarrow> keeps I (local_git env args workspace input)"
    and patch_quiet: "parse_patch (pytext patch) names = Inr files \<Longrightarrow> keeps I (git_apply env workspace patch)"
begin

lemma verify_quiet: "keeps I (verify env workspace)"
  unfolding verify_def by (intro keeps_rules git_quiet) simp_all

lemma checked_path_quiet: "keeps I (checked_path env settings workspace)"
  unfolding checked_path_def by (intro keeps_rules)

lemma status_quiet: "keeps I (status env workspace)"
  unfolding status_def by (intro keeps_rules git_quiet) simp

lemma addition_quiet: "keeps I (addition env workspace name output)"
  unfolding addition_def diff_options_def by (intro keeps_rules git_quiet) simp

lemma current_diff_quiet: "keeps I (current_diff env workspace)"
  unfolding current_diff_def diff_options_def Let_def
  by (intro keeps_rules git_quiet addition_quiet) simp_all

lemma check_target_quiet: "keeps I (check_target env workspace f)"
  unfolding check_target_def case_prod_unfold by (intro keeps_rules)

lemma added_diff_quiet: "keeps I (added_diff env workspace f output)"
  unfolding added_diff_def by (intro keeps_rules git_quiet addition_quiet) simp

lemma apply_patch_quiet: "keeps I (apply_patch env settings workspace proposal)"
  unfolding apply_patch_def diff_options_def
  by (intro keeps_guard keeps_lift keeps_rules git_quiet checked_path_quiet verify_quiet check_target_quiet
      patch_quiet added_diff_quiet) simp_all

lemma locked_quiet:
  assumes "\<And>lock. keeps I (acquire lock)" and "\<And>lock. keeps I (release lock)"
    and "\<And>checkout. keeps (only_world I) (body checkout)"
  shows "keeps (only_world I) (locked env settings workspace body)"
  unfolding locked_def by (intro keeps_rules verify_quiet checked_path_quiet assms)

lemmas quiet_rules = verify_quiet checked_path_quiet status_quiet current_diff_quiet apply_patch_quiet

end

lemma git_apply_steps:
  assumes "\<And>args p. keeps I (local_git env args workspace p)"
  shows "keeps I (git_apply env workspace patch)"
  unfolding git_apply_def by (intro keeps_rules assms)

interpretation reading_db: quiet "reached_from d" for d
  by unfold_locales (rule git_apply_steps keeps_rules)+

interpretation reading_locks: quiet "\<lambda>w. w_locks w = L" for L
  by unfold_locales (rule git_apply_steps keeps_rules)+

text \<open>The lock is held exactly while the body runs, whatever the body does with the rest.\<close>

lemma keeps_lock_db [keeps_rules]:
  "keeps (reached_from d) (acquire lock)" "keeps (reached_from d) (release lock)"
  by (auto simp: keeps_iff acquire_def release_def reached_from_def)

lemma keeps_locked_db [keeps_rules]:
  assumes "\<And>safe. keeps (only_world (reached_from d)) (body safe)"
  shows "keeps (only_world (reached_from d)) (locked env settings workspace body)"
  by (intro reading_db.locked_quiet keeps_rules assms)

lemma holds_on_world:
  "holds P m Q R \<Longrightarrow> holds (only_world P) (on_world m) (\<lambda>x. only_world (Q x)) (\<lambda>e. only_world (R e))"
  by (fastforce simp: holds_def on_world_def only_world_def split: prod.splits sum.splits)

lemma keeps_locked_locks [keeps_rules]:
  assumes "\<And>safe L'. keeps (only_world (\<lambda>w. w_locks w = L')) (body safe)"
  shows "keeps (only_world (\<lambda>w. w_locks w = L)) (locked env settings workspace body)"
proof -
  have acquired: "holds (\<lambda>w. w_locks w = L) (acquire lock)
      (\<lambda>_ w. w_locks w = lock # L) (\<lambda>_ w. w_locks w = L)" for lock
    by (auto simp: holds_def acquire_def)
  have released: "holds (\<lambda>w. w_locks w = lock # L) (release lock)
      (\<lambda>_ w. w_locks w = L) (\<lambda>_ w. w_locks w = L)" for lock
    by (auto simp: holds_def release_def)
  have inner: "keeps (only_world (\<lambda>w. w_locks w = L')) (seqM (on_world (verify env safe)) (body safe))" for safe L'
    by (intro keeps_rules reading_locks.quiet_rules assms)
  have checked: "keeps (only_world (\<lambda>w. w_locks w = L)) (on_world (checked_path env settings workspace))"
    by (intro keeps_rules reading_locks.quiet_rules)
  show ?thesis
    unfolding locked_def keeps_def
    by (rule holds_bind [OF checked [unfolded keeps_def]],
        rule holds_seq [OF holds_on_world [OF acquired]],
        rule holds_finally [OF inner [unfolded keeps_def]])
      (rule holds_on_world [OF released])+
qed


text \<open>The lock leaves the local variables to the body.\<close>

lemma locked_Inr:
  assumes "locked env settings workspace body (s, l) = (Inr x, (t, l'))"
  obtains checkout s1 t1 where "body checkout (s1, l) = (Inr x, (t1, l'))"
  using assms unfolding locked_def
  by (auto simp: runs_Inr on_world_Inr)

end
