(* ===== verification/Coding_Service.thy ===== *)
theory Coding_Service
  imports Code_Patches
begin

text \<open>
  \<^verbatim>\<open>app/services/coding.py\<close> with the agent of \<^verbatim>\<open>app/agents/coding.py\<close>: claim the task, lock the
  workspace, ask the model for a patch, apply it, and record the outcome in the same claim whatever
  happens.
\<close>

section \<open>The agent\<close>

text \<open>\<open>propose\<close>: the provider's output is validated once more against the schema.\<close>

definition propose ::
  "'x environment \<Rightarrow> coding_input \<Rightarrow> ('x world, code_change_proposal \<times> token_usage) eff" where
  "propose env inputs =
     bindM (external (env_propose env inputs) (\<lambda>_. Propose_call inputs)) (\<lambda>(proposal, usage).
     seqM (ensure ValueFailure (valid_proposal proposal)) (ret (proposal, usage)))"

section \<open>One coding attempt\<close>

definition coding_error_code :: "exc \<Rightarrow> string" where
  "coding_error_code e = (case e of PatchFailure c _ \<Rightarrow> c | LLMFailure c \<Rightarrow> c | LLMInvalid _ \<Rightarrow> ''llm_invalid_response''
     | SandboxFailure c \<Rightarrow> c
     | _ \<Rightarrow> ''coding_failed'')"

definition error_diagnostic :: "service_settings \<Rightarrow> exc \<Rightarrow> string" where
  "error_diagnostic st e = (case e of PatchFailure _ diagnostic \<Rightarrow> redact st diagnostic | _ \<Rightarrow> [])"

definition sendable :: "service_settings \<Rightarrow> int \<Rightarrow> string \<Rightarrow> bool" where
  "sendable st limit serialized \<longleftrightarrow> int (length serialized) \<le> limit \<and> redact st serialized = serialized"

text \<open>The body of \<open>with self.patches.locked(workspace) as safe\<close>; its local variable is \<open>usage\<close>.\<close>

definition coding_attempt ::
  "'x environment \<Rightarrow> service_settings \<Rightarrow> uuid \<Rightarrow> uuid \<Rightarrow> uuid \<Rightarrow> coding_input \<Rightarrow> path \<Rightarrow>
    ('x world \<times> token_usage option, code_change_proposal) eff" where
  "coding_attempt env st rid tid aid inputs0 safe =
     bindM (on_world (status env safe)) (\<lambda>workspace_status.
     let inputs = inputs0\<lparr>ci_workspace_status := workspace_status\<rparr> in
     seqM (ensure (PatchFailure ''unsafe_or_oversized_coding_input'' [])
             (sendable st 100000 (env_coding_json env inputs)))
     (bindM (on_world (propose env inputs)) (\<lambda>(proposal, usage).
     seqM (assign (\<lambda>_. Some usage))
     (seqM (ensure (PatchFailure ''secret_in_code_proposal'' [])
              (redact st (env_proposal_json env proposal) = env_proposal_json env proposal))
     (bindM (on_world (apply_patch env st safe proposal)) (\<lambda>diff.
     seqM (on_world (transaction env (\<lambda>_ t d. unit_result (coding_finish rid tid aid True
             [''proposal'' \<mapsto> JProposal proposal, ''git_diff'' \<mapsto> JStr (redact st diff),
              ''validation'' \<mapsto> JStr ''not_run''] (Some usage) t d))))
       (ret proposal)))))))"

definition coding_failure ::
  "'x environment \<Rightarrow> service_settings \<Rightarrow> uuid \<Rightarrow> uuid \<Rightarrow> uuid \<Rightarrow> token_usage option \<Rightarrow> exc \<Rightarrow>
    ('x world, code_change_proposal) eff" where
  "coding_failure env st rid tid aid usage e =
     (if e = Cancelled
      then seqM (transaction env (\<lambda>_ t d. unit_result (coding_finish rid tid aid False
                   [''error_code'' \<mapsto> JStr ''coding_cancelled''] usage t d))) (raise Cancelled)
      else seqM (transaction env (\<lambda>_ t d. unit_result (coding_finish rid tid aid False
                   [''error_code'' \<mapsto> JStr (coding_error_code e), ''diagnostic'' \<mapsto> JStr (error_diagnostic st e),
                    ''workspace_may_be_modified'' \<mapsto> JBool True] usage t d)))
             (raise (CodingFailure (coding_error_code e))))"

definition coding_run ::
  "'x environment \<Rightarrow> service_settings \<Rightarrow> uuid \<Rightarrow> uuid \<Rightarrow> issue_context \<Rightarrow>
    ('x world, code_change_proposal) eff" where
  "coding_run env st rid tid ctx =
     bindM (transaction env (coding_start rid tid ctx (ss_llm_model st))) (\<lambda>(aid, inputs).
     scoped None
       (locked env st (execution_workspace env st (cr_id (cs_repository ctx)) rid)
          (coding_attempt env st rid tid aid inputs))
       (coding_failure env st rid tid aid))"

section \<open>The database\<close>

lemma keeps_propose [keeps_rules]:
  "keeps (reached_from d) (propose env inputs)" "keeps (\<lambda>w. w_locks w = L) (propose env inputs)"
  unfolding propose_def case_prod_unfold by (intro keeps_rules)+

lemma coding_finish_steps:
  "others_step env \<Longrightarrow>
    keeps (reached_from d) (transaction env (\<lambda>_ t d. unit_result (coding_finish rid tid aid ok meta usage t d)))"
  by (erule keeps_transaction) (auto intro: exec_step.step_coding_finish)

lemma coding_start_steps:
  "others_step env \<Longrightarrow> keeps (reached_from d) (transaction env (coding_start rid tid ctx model))"
  by (erule keeps_transaction) (metis exec_step.step_coding_start prod.exhaust)

lemma coding_run_db:
  assumes "others_step env"
  shows "keeps (reached_from d) (coding_run env st rid tid ctx)"
  unfolding coding_run_def coding_attempt_def coding_failure_def case_prod_unfold Let_def
  by (intro keeps_rules reading_db.quiet_rules coding_start_steps coding_finish_steps assms)

lemma coding_run_locks: "keeps (\<lambda>w. w_locks w = L) (coding_run env st rid tid ctx)"
  unfolding coding_run_def coding_attempt_def coding_failure_def case_prod_unfold Let_def
  by (intro keeps_rules reading_locks.quiet_rules)

end
