(* ===== verification/Docker_Sandbox.thy ===== *)
theory Docker_Sandbox
  imports Service_World
begin

text \<open>
  \<^verbatim>\<open>app/sandbox/docker.py\<close>: one command in a temporary container. Everything is checked before
  the container is created, and the container is removed whatever happens after that. The Docker
  command line of \<^verbatim>\<open>app/sandbox/runner.py\<close> is the boundary.
\<close>

section \<open>Docker\<close>

definition docker_call ::
  "'x environment \<Rightarrow> string list \<Rightarrow> int \<Rightarrow> nat \<Rightarrow> ('x world, command_result) eff" where
  "docker_call env args timeout limit = external (env_docker env args timeout limit)
     (\<lambda>r. Docker_call args (case r of Inl _ \<Rightarrow> None | Inr c \<Rightarrow> Some (cmr_code c)))"

definition control :: "'x environment \<Rightarrow> string list \<Rightarrow> ('x world, string) eff" where
  "control env args =
     bindM (catchM (docker_call env args 15 1048576) (\<lambda>_. raise (SandboxFailure ''docker_operation_failed''))) (\<lambda>r.
     seqM (ensure (SandboxFailure ''docker_operation_failed'')
             (cmr_code r = 0 \<and> \<not> cmr_timed_out r \<and> \<not> cmr_truncated r))
       (ret (strip (cmr_stdout r))))"

section \<open>What is refused before a container exists\<close>

definition secret_in_request :: "service_settings \<Rightarrow> sandbox_request \<Rightarrow> bool" where
  "secret_in_request st request \<longleftrightarrow>
     (\<exists>secret \<in> {ss_github_token st, ss_llm_api_key st}. or_empty secret \<noteq> [] \<and>
       (\<exists>v \<in> set (sbr_command request @ map snd (sbr_environment request)). occurs_in (or_empty secret) v))"

definition invalid_command :: "string list \<Rightarrow> bool" where
  "invalid_command command \<longleftrightarrow> command = [] \<or> starts_with ''-'' (hd command) \<or>
     (\<exists>part \<in> set command. part = [] \<or> CHR 0x00 \<in> set part \<or> 16384 < length part)"

definition untrusted_reference :: "string \<Rightarrow> bool" where
  "untrusted_reference reference \<longleftrightarrow>
     reference = [] \<or> starts_with ''-'' reference \<or> (\<exists>c \<in> set reference. space_char c)"

definition image_digest :: "string \<Rightarrow> bool" where
  "image_digest s \<longleftrightarrow> starts_with ''sha256:'' s \<and> length (drop 7 s) = 64 \<and>
     (\<forall>c \<in> set (drop 7 s). c \<in> set hex_digits)"

text \<open>The identifier of an inspected image that may be used; every other answer is refused.\<close>

definition image_of :: "json option \<Rightarrow> string option" where
  "image_of answer = (case answer of None \<Rightarrow> None
     | Some metadata \<Rightarrow> (case (json_field ''Id'' metadata, json_field ''Os'' metadata, json_field ''Config'' metadata) of
         (Some (Json_text image_id), Some (Json_text os), Some (Json_object config)) \<Rightarrow>
           (if image_digest image_id \<and> os = ''linux'' \<and>
               (case map_of config ''Volumes'' of None \<Rightarrow> True | Some v \<Rightarrow> \<not> json_truthy v)
            then Some image_id else None)
       | _ \<Rightarrow> None))"

definition sandbox_image :: "'x environment \<Rightarrow> service_settings \<Rightarrow> sandbox_request \<Rightarrow> ('x world, string) eff" where
  "sandbox_image env st request =
     seqM (ensure (SandboxFailure ''secret_in_sandbox_input'') (\<not> secret_in_request st request))
     (seqM (ensure (SandboxFailure ''invalid_command'') (\<not> invalid_command (sbr_command request)))
     (let reference = or_empty (map_of (ss_sandbox_images st) (sbr_image request)) in
      seqM (ensure (SandboxFailure ''untrusted_image'') (\<not> untrusted_reference reference))
     (bindM (control env [''info'', ''--format'', ''{{.OSType}}'']) (\<lambda>os.
     seqM (ensure (SandboxFailure ''linux_docker_required'') (os = ''linux''))
     (bindM (control env [''image'', ''inspect'', ''--format'', ''{{json .}}'', reference]) (\<lambda>out.
     case image_of (env_json env out) of
       None \<Rightarrow> raise (SandboxFailure ''unsafe_image'')
     | Some image_id \<Rightarrow> ret image_id))))))"

section \<open>The container\<close>

definition proxy_options :: "string list" where
  "proxy_options = concat (map (\<lambda>proxy. [''--env'', proxy @ ''='', ''--env'', lower proxy @ ''=''])
     [''HTTP_PROXY'', ''HTTPS_PROXY'', ''FTP_PROXY'', ''ALL_PROXY'', ''NO_PROXY''])"

definition create_arguments ::
  "'x environment \<Rightarrow> service_settings \<Rightarrow> string \<Rightarrow> path \<Rightarrow> string \<Rightarrow> string list \<Rightarrow> string list \<Rightarrow> string list" where
  "create_arguments env st name workspace image_id environment command =
     (let memory = decimal (nat (ss_sandbox_memory_mb st)) @ ''m'' in
      [''create'', ''--name'', name, ''--label'', ''platform.sandbox=true'', ''--pull=never'',
       ''--network=none'', ''--cap-drop=ALL'', ''--security-opt=no-new-privileges:true'',
       ''--user'', ss_sandbox_user st, ''--read-only'', ''--init'', ''--no-healthcheck'',
       ''--cpus'', env_float_text env (ss_sandbox_cpu_limit st), ''--memory'', memory,
       ''--memory-swap'', memory, ''--pids-limit'', decimal (nat (ss_sandbox_pid_limit st)),
       ''--restart=no'', ''--ipc=private'', ''--tmpfs'',
       ''/tmp:rw,noexec,nosuid,nodev,size=64m,mode=1777'', ''--shm-size=16m'', ''--log-driver=none'',
       ''--workdir=/workspace'', ''--mount'',
       ''type=bind,src='' @ path_text workspace @
         '',dst=/workspace,bind-propagation=rprivate,bind-recursive=disabled'',
       ''--entrypoint=/usr/bin/env''] @ proxy_options @ [image_id, ''-i''] @ environment @ command)"

definition exit_code_of :: "json option \<Rightarrow> exc + int" where
  "exit_code_of answer = (case answer of None \<Rightarrow> Inl ValueFailure
     | Some state \<Rightarrow> (case json_field ''Status'' state of None \<Rightarrow> Inl ValueFailure
         | Some status \<Rightarrow> if status \<noteq> Json_text ''exited'' then Inl (SandboxFailure ''sandbox_start_failed'')
             else (case json_field ''ExitCode'' state of None \<Rightarrow> Inl ValueFailure
               | Some (Json_int n) \<Rightarrow> Inr n
               | Some (Json_bool b) \<Rightarrow> Inr (if b then 1 else 0)
               | Some _ \<Rightarrow> Inl (SandboxFailure ''sandbox_start_failed''))))"

definition run_container ::
  "'x environment \<Rightarrow> service_settings \<Rightarrow> sandbox_request \<Rightarrow> int \<Rightarrow> string \<Rightarrow> string list \<Rightarrow>
    ('x world, sandbox_result) eff" where
  "run_container env st request begun name args =
     seqM (control env args)
     (bindM (docker_call env [''start'', ''--attach'', name]
              (min (sbr_timeout request) (ss_sandbox_timeout_seconds st)) (nat (ss_sandbox_output_bytes st))) (\<lambda>attached.
     bindM (if cmr_timed_out attached then ret None
            else bindM (control env [''inspect'', ''--format'', ''{{json .State}}'', name]) (\<lambda>out.
                 bindM (liftE (exit_code_of (env_json env out))) (\<lambda>n. ret (Some n)))) (\<lambda>exit_code.
     bindM (clock env) (\<lambda>ended.
     ret \<lparr>sbx_exit_code = exit_code, sbx_stdout = cmr_stdout attached, sbx_stderr = cmr_stderr attached,
          sbx_elapsed_seconds = ended - begun, sbx_timed_out = cmr_timed_out attached,
          sbx_output_truncated = cmr_truncated attached\<rparr>))))"

definition container_failure :: "exc \<Rightarrow> ('x world, sandbox_result) eff" where
  "container_failure e = (case e of SandboxFailure c \<Rightarrow> raise (SandboxFailure c)
     | _ \<Rightarrow> raise (SandboxFailure ''sandbox_operation_failed''))"

definition remove_container :: "'x environment \<Rightarrow> string \<Rightarrow> ('x world, unit) eff" where
  "remove_container env name =
     bindM (catchM (docker_call env [''rm'', ''--force'', ''--volumes'', name] 15 1024)
              (\<lambda>_. raise (SandboxFailure ''sandbox_cleanup_failed''))) (\<lambda>cleanup.
     ensure (SandboxFailure ''sandbox_cleanup_failed'') (cmr_code cleanup = 0 \<and> \<not> cmr_timed_out cleanup))"

definition container ::
  "'x environment \<Rightarrow> service_settings \<Rightarrow> sandbox_request \<Rightarrow> int \<Rightarrow> path \<Rightarrow> string list \<Rightarrow> string \<Rightarrow>
    ('x world, sandbox_result) eff" where
  "container env st request begun workspace environment image_id =
     bindM (fresh_uuid env) (\<lambda>i.
     let name = ''platform-sandbox-'' @ uuid_hex env i in
     finallyM
       (catchM (run_container env st request begun name
                  (create_arguments env st name workspace image_id environment (sbr_command request)))
          container_failure)
       (remove_container env name))"

definition docker_execute ::
  "'x environment \<Rightarrow> service_settings \<Rightarrow> sandbox_request \<Rightarrow> ('x world, sandbox_result) eff" where
  "docker_execute env st request =
     bindM (clock env) (\<lambda>begun.
     bindM (in_files env (\<lambda>fs. workspace_path fs (ss_workspace_root st) (sbr_workspace request))) (\<lambda>checked.
     bindM (liftE checked) (\<lambda>workspace.
     bindM (liftE (environment_values (sbr_environment request) (sbr_environment_allowlist request))) (\<lambda>environment.
     bindM (sandbox_image env st request)
       (container env st request begun workspace environment)))))"

section \<open>What a sandbox promises its callers\<close>

text \<open>
  The services see a sandbox through this contract: it neither touches the database nor the locks,
  and what it logs are Docker calls.
\<close>

locale sandbox =
  fixes run_sandbox :: "sandbox_request \<Rightarrow> ('x world, sandbox_result) eff"
  assumes sandbox_db: "keeps (reached_from d) (run_sandbox request)"
    and sandbox_locks: "keeps (\<lambda>w. w_locks w = L) (run_sandbox request)"
    and sandbox_calls: "(\<And>cs args n. P cs \<Longrightarrow> P (cs @ [Docker_call args n])) \<Longrightarrow>
      keeps (grown base P) (run_sandbox request)"

lemma keeps_container_failure [keeps_rules]: "keeps I (container_failure e)"
  unfolding container_failure_def by (cases e) (simp_all add: keeps_pure)

lemmas docker_parts = docker_execute_def container_def sandbox_image_def run_container_def
  remove_container_def control_def

lemma docker_execute_quiet:
  assumes "\<And>args timeout limit. keeps I (docker_call env args timeout limit)"
    and "keeps I (clock env)" and "keeps I (fresh_uuid env)"
  shows "keeps I (docker_execute env st request)"
  unfolding docker_parts Let_def by (intro keeps_rules assms)

interpretation docker: sandbox "docker_execute env st"
  by unfold_locales ((rule docker_execute_quiet, unfold docker_call_def)[1]; (rule keeps_rules | rule grown_external, blast))+

section \<open>The life of a container\<close>

definition creates :: "call \<Rightarrow> bool" where
  "creates c = (case c of Docker_call (verb # _) _ \<Rightarrow> verb = ''create'' | _ \<Rightarrow> False)"

definition no_container :: "call list \<Rightarrow> bool" where
  "no_container cs \<longleftrightarrow> (\<forall>c \<in> set cs. \<not> creates c)"

definition one_container :: "string list \<Rightarrow> call list \<Rightarrow> bool" where
  "one_container args cs \<longleftrightarrow> (\<exists>before n after. cs = before @ Docker_call args n # after \<and>
     no_container before \<and> no_container after)"

lemma holds_docker_call:
  assumes "\<And>cs r. P cs \<Longrightarrow> Q r (cs @ [Docker_call args (Some (cmr_code r))])"
    and "\<And>cs. P cs \<Longrightarrow> R (cs @ [Docker_call args None])"
  shows "holds (grown base P) (docker_call env args timeout limit) (\<lambda>r. grown base (Q r)) (\<lambda>_. grown base R)"
proof (rule holdsI)
  fix w :: "'a world" and r t
  assume "grown base P w" and run: "docker_call env args timeout limit w = (r, t)"
  then obtain cs where cs: "w_calls w = base @ cs" "P cs" by (auto simp: grown_def)
  from run have "w_calls t = base @ cs @ [Docker_call args (case r of Inl _ \<Rightarrow> None | Inr c \<Rightarrow> Some (cmr_code c))]"
    using cs by (auto simp: docker_call_def external_def split: prod.splits)
  with cs assms show "case r of Inr x \<Rightarrow> grown base (Q x) t | Inl e \<Rightarrow> grown base R t"
    by (cases r) (auto simp: grown_def)
qed

lemma holds_control:
  assumes "\<And>cs n. P cs \<Longrightarrow> Q (cs @ [Docker_call args n])"
  shows "holds (grown base P) (control env args) (\<lambda>_. grown base Q) (\<lambda>_. grown base Q)"
  unfolding control_def
  by (rule holds_bind [where Q' = "\<lambda>_. grown base Q"],
      rule holds_catch [where R' = "\<lambda>_. grown base Q"],
      rule holds_docker_call [where Q = "\<lambda>_. Q"])
    (auto intro: assms holds_seq holds_ensure)

lemma quiet_control:
  "\<not> creates (Docker_call args None) \<Longrightarrow> keeps (grown base no_container) (control env args)"
  unfolding keeps_def
  by (rule holds_control) (auto simp: no_container_def creates_def split: list.splits)

lemma quiet_sandbox_image: "keeps (grown base no_container) (sandbox_image env st request)"
  unfolding sandbox_image_def Let_def
  by (intro keeps_rules quiet_control) (simp_all add: creates_def)

lemma one_container_more:
  "one_container args cs \<Longrightarrow> \<not> creates (Docker_call argv None) \<Longrightarrow> one_container args (cs @ [Docker_call argv n])"
  unfolding one_container_def
  by (elim exE conjE, rule exI, rule exI, rule exI [of _ "after @ [Docker_call argv n]" for after])
    (auto simp: no_container_def creates_def split: list.splits)

lemma run_container_log:
  "holds (grown base no_container) (run_container env st request begun name args)
     (\<lambda>_. grown base (one_container args)) (\<lambda>_. grown base (one_container args))"
proof -
  let ?I = "grown base (one_container args)"
  have step: "keeps ?I (control env argv)" if "\<not> creates (Docker_call argv None)" for argv
    unfolding keeps_def by (rule holds_control) (rule one_container_more [OF _ that])
  have start: "keeps ?I (docker_call env argv timeout limit)"
    if "\<not> creates (Docker_call argv None)" for argv timeout limit
    unfolding keeps_def by (rule holds_docker_call) (rule one_container_more [OF _ that], assumption)+
  have tick: "keeps ?I (clock env)"
    by (auto simp: keeps_iff clock_def grown_def)
  have rest: "keeps ?I (bindM (docker_call env [''start'', ''--attach'', name] timeout limit) f)"
    if "\<And>attached. keeps ?I (f attached)" for timeout limit and f :: "_ \<Rightarrow> ('a world, sandbox_result) eff"
    by (intro keeps_rules start that) (simp add: creates_def)
  show ?thesis
    unfolding run_container_def
    by (rule holds_seq [OF holds_control], unfold one_container_def, fastforce simp: no_container_def,
        fold one_container_def keeps_def, intro rest keeps_rules step tick)
      (simp add: creates_def)
qed


definition container_log ::
  "'x environment \<Rightarrow> service_settings \<Rightarrow> sandbox_request \<Rightarrow> bool \<Rightarrow> call list \<Rightarrow> bool" where
  "container_log env st request ok cs \<longleftrightarrow>
     (\<exists>fs workspace image_id environment name before n during removed.
        workspace_path fs (ss_workspace_root st) (sbr_workspace request) = Inr workspace \<and>
        image_digest image_id \<and> no_container before \<and> no_container during \<and>
        cs = before @ Docker_call (create_arguments env st name workspace image_id environment
               (sbr_command request)) n #
             during @ [Docker_call [''rm'', ''--force'', ''--volumes'', name] removed] \<and>
        (ok \<longrightarrow> removed = Some 0))"

lemma image_of_digest: "image_of answer = Some image_id \<Longrightarrow> image_digest image_id"
  by (auto simp: image_of_def split: option.splits json.splits if_splits)

lemma sandbox_image_digest:
  "holds (\<lambda>_. True) (sandbox_image env st request) (\<lambda>image_id _. image_digest image_id) (\<lambda>_ _. True)"
proof -
  have c: "holds (\<lambda>_. True) (control env argv) (\<lambda>_ _. True) (\<lambda>_ _. True)" for argv
    by (auto simp: holds_def split: sum.splits prod.splits)
  have e: "holds (\<lambda>_. True) (ensure x b) (\<lambda>_ _. True) (\<lambda>_ _. True)" for x b
    by (auto simp: holds_def split: sum.splits prod.splits)
  have o: "holds (\<lambda>_. True)
      (case image_of answer of None \<Rightarrow> raise (SandboxFailure ''unsafe_image'') | Some image_id \<Rightarrow> ret image_id)
      (\<lambda>image_id _. image_digest image_id) (\<lambda>_ _. True)" for answer
    by (auto split: option.splits dest: image_of_digest)
  show ?thesis
    unfolding sandbox_image_def Let_def by (intro holds_seq [OF e] holds_bind [OF c] o)
qed

lemma holds_conj:
  "holds P m Q R \<Longrightarrow> holds P' m Q' R' \<Longrightarrow>
    holds (\<lambda>s. P s \<and> P' s) m (\<lambda>x s. Q x s \<and> Q' x s) (\<lambda>e s. R e s \<and> R' e s)"
  by (fastforce simp: holds_def split: sum.splits prod.splits)

lemma remove_container_log:
  assumes "\<And>cs removed. P cs \<Longrightarrow> container_log env st request False (cs @
      [Docker_call [''rm'', ''--force'', ''--volumes'', name] removed])"
    and "\<And>cs. P cs \<Longrightarrow> container_log env st request True (cs @
      [Docker_call [''rm'', ''--force'', ''--volumes'', name] (Some 0)])"
  shows "holds (grown base P) (remove_container env name)
     (\<lambda>_. grown base (container_log env st request True)) (\<lambda>_. grown base (container_log env st request False))"
proof -
  let ?Q = "\<lambda>r cs. container_log env st request False cs \<and>
    (cmr_code r = 0 \<longrightarrow> container_log env st request True cs)"
  have final: "holds (grown base (?Q r)) (ensure (SandboxFailure ''sandbox_cleanup_failed'')
      (cmr_code r = 0 \<and> \<not> cmr_timed_out r))
      (\<lambda>_. grown base (container_log env st request True)) (\<lambda>_. grown base (container_log env st request False))" for r
    by (rule holds_ensure) (auto elim: grown_mono)
  show ?thesis
    unfolding remove_container_def
    by (rule holds_bind [OF _ final],
        rule holds_catch [where R' = "\<lambda>_. grown base (container_log env st request False)"],
        rule holds_docker_call)
      (auto intro: assms)
qed

lemma container_session_log:
  assumes "workspace_path fs (ss_workspace_root st) (sbr_workspace request) = Inr workspace"
    and "image_digest image_id"
  shows "holds (grown base no_container) (container env st request begun workspace environment image_id)
     (\<lambda>_. grown base (container_log env st request True)) (\<lambda>_. grown base (container_log env st request False))"
proof -
  let ?args = "\<lambda>name. create_arguments env st name workspace image_id environment (sbr_command request)"
  have log: "container_log env st request ok (cs @
      [Docker_call [''rm'', ''--force'', ''--volumes'', name] removed])"
    if "one_container (?args name) cs" "ok \<Longrightarrow> removed = Some 0" for ok cs removed name
  proof -
    from that(1) obtain before n after where "no_container before" "no_container after"
      "cs = before @ Docker_call (?args name) n # after"
      by (auto simp: one_container_def)
    then show ?thesis
      unfolding container_log_def using that(2) assms
      by (intro exI [of _ fs] exI [of _ workspace] exI [of _ image_id] exI [of _ environment]
          exI [of _ name] exI [of _ before] exI [of _ n] exI [of _ after] exI [of _ removed]) simp
  qed
  have failed: "holds (grown base (one_container (?args name))) (container_failure e)
      (\<lambda>_. grown base (one_container (?args name))) (\<lambda>_. grown base (one_container (?args name)))" for e name
    using keeps_container_failure [unfolded keeps_def] .
  have removed: "holds (grown base (one_container (?args name))) (remove_container env name)
      (\<lambda>_. grown base (container_log env st request True))
      (\<lambda>_. grown base (container_log env st request False))" for name
    by (rule remove_container_log) (auto intro: log)
  have weaker: "container_log env st request True cs \<Longrightarrow> container_log env st request False cs" for cs
    unfolding container_log_def by (elim ex_forward conj_forward) simp_all
  have tick: "holds (grown base no_container) (fresh_uuid env) (\<lambda>_. grown base no_container) R" for R
    by (auto simp: holds_def fresh_uuid_def grown_def)
  show ?thesis
    unfolding container_def Let_def
    by (rule holds_bind [OF tick], rule holds_finally [OF holds_catch [OF run_container_log failed]])
      (rule removed, rule holds_conseq [OF removed], assumption, erule grown_mono, erule weaker, assumption)
qed

lemma docker_execute_log:
  "holds (grown base no_container) (docker_execute env st request)
     (\<lambda>_. grown base (container_log env st request True))
     (\<lambda>_ w. grown base no_container w \<or> grown base (container_log env st request False) w)"
proof -
  let ?P = "grown base no_container"
  let ?Q = "\<lambda>_. grown base (container_log env st request True)"
  let ?R = "\<lambda>_ w. ?P w \<or> grown base (container_log env st request False) w"
  let ?path = "\<lambda>fs. workspace_path fs (ss_workspace_root st) (sbr_workspace request)"
  have tick: "holds ?P (clock env) (\<lambda>_. ?P) ?R"
    by (auto simp: holds_def clock_def grown_def)
  have files: "holds ?P (in_files env ?path) (\<lambda>checked w. ?P w \<and> (\<exists>fs. checked = ?path fs)) ?R"
    unfolding in_files_def by blast
  have lift: "holds (\<lambda>w. ?P w \<and> (\<exists>fs. checked = ?path fs)) (liftE checked)
      (\<lambda>workspace w. ?P w \<and> (\<exists>fs. ?path fs = Inr workspace)) ?R" for checked
    by (rule holds_liftE) auto
  have env: "holds (\<lambda>w. ?P w \<and> A) (liftE r) (\<lambda>_ w. ?P w \<and> A) ?R" for A and r :: "exc + string list"
    by (rule holds_liftE) auto
  have image: "holds (\<lambda>w. ?P w \<and> A) (sandbox_image env st request)
      (\<lambda>image_id w. ?P w \<and> A \<and> image_digest image_id) ?R" for A
  proof (cases A)
    case True
    with holds_conj [OF quiet_sandbox_image [of base env st request, unfolded keeps_def] sandbox_image_digest]
    show ?thesis by simp (rule holds_conseq, assumption, simp_all)
  qed (simp add: holds_def)
  have session: "holds (\<lambda>w. ?P w \<and> (\<exists>fs. ?path fs = Inr workspace) \<and> image_digest image_id)
      (container env st request begun workspace environment image_id) ?Q ?R"
    for begun workspace environment image_id
  proof (cases "(\<exists>fs. ?path fs = Inr workspace) \<and> image_digest image_id")
    case True
    then obtain fs where "?path fs = Inr workspace" "image_digest image_id" by blast
    from container_session_log [OF this] show ?thesis by (rule holds_conseq) auto
  qed (auto simp: holds_def)
  show ?thesis
    unfolding docker_execute_def
    by (rule holds_bind [OF tick], rule holds_bind [OF files], rule holds_bind [OF lift],
        rule holds_bind [OF env], rule holds_bind [OF image session])
qed


lemma sandbox_errors_only:
  "holds (\<lambda>_. True) (docker_execute env st request) (\<lambda>_ _. True) (\<lambda>e _. \<exists>c. e = SandboxFailure c)"
proof -
  let ?R = "\<lambda>e (_ :: 'a world). \<exists>c. e = SandboxFailure c"
  note T = holds_seq [where P' = "\<lambda>_. True"] holds_bind [where Q' = "\<lambda>_ _. True"]
  have pure: "holds (\<lambda>_. True) (ensure (SandboxFailure c) b) (\<lambda>_ _. True) ?R" for c b
    by (rule holds_ensure) auto
  have caught: "holds (\<lambda>_. True) (catchM m (\<lambda>_. raise (SandboxFailure c))) (\<lambda>_ _. True) ?R"
    for c and m :: "('a world, command_result) eff"
    by (rule holds_catch [where R' = "\<lambda>_ _. True"]) (auto simp: holds_def raise_def split: sum.splits prod.splits)
  have ctl: "holds (\<lambda>_. True) (control env argv) (\<lambda>_ _. True) ?R" for argv
    unfolding control_def by (intro T caught pure) auto
  have image: "holds (\<lambda>_. True) (sandbox_image env st request) (\<lambda>_ _. True) ?R"
    unfolding sandbox_image_def Let_def by (intro T ctl pure) (auto split: option.splits)
  have removed: "holds (\<lambda>_. True) (remove_container env name) (\<lambda>_ _. True) ?R" for name
    unfolding remove_container_def by (intro T caught pure)
  have removed': "holds (\<lambda>_. A) (remove_container env name) (\<lambda>_ _. A) ?R" for A name
    using removed by (cases A) (simp_all add: holds_def)
  have session: "holds (\<lambda>_. True) (container env st request begun workspace environment image_id) (\<lambda>_ _. True) ?R"
    for begun workspace environment image_id
    unfolding container_def Let_def
  proof (intro T)
    fix i
    show "holds (\<lambda>_. True) (finallyM (catchM m container_failure) (remove_container env name)) (\<lambda>_ _. True) ?R"
      for m :: "('a world, sandbox_result) eff" and name
      by (rule holds_finally [where Q' = "\<lambda>_ _. True" and R' = ?R], rule holds_catch [where R' = "\<lambda>_ _. True"],
          rule_tac [3] removed, rule_tac [3] removed')
        (auto simp: holds_def container_failure_def raise_def split: sum.splits prod.splits exc.splits)
  qed (simp add: holds_def fresh_uuid_def)
  have checked: "workspace_path fs home p = Inl e \<Longrightarrow> \<exists>c. e = SandboxFailure c" for fs home p e
    by (auto simp: workspace_path_def unsafe_def split: if_splits option.splits)
  have env_error: "environment_values vs allowed = Inl e \<Longrightarrow> \<exists>c. e = SandboxFailure c" for vs allowed e
    by (auto simp: environment_values_def dest!: mapE_InlD split: if_splits prod.splits)
  show ?thesis
    unfolding docker_execute_def
    by (rule holds_bind [where Q' = "\<lambda>_ _. True"], simp add: holds_def clock_def,
        rule holds_bind [where Q' = "\<lambda>r _. \<exists>fs. r = workspace_path fs (ss_workspace_root st) (sbr_workspace request)"],
        unfold in_files_def, blast,
        rule holds_bind [where Q' = "\<lambda>_ _. True"], rule holds_liftE, simp, metis checked,
        rule holds_bind [where Q' = "\<lambda>_ _. True"], rule holds_liftE, simp, metis env_error,
        rule holds_bind [OF image session])
qed


end
