(* ===== verification/Testing_Service.thy ===== *)
theory Testing_Service
  imports Coding_Service Docker_Sandbox
begin

text \<open>
  \<^verbatim>\<open>app/services/testing.py\<close>: run the required commands of a task in the sandbox, one after the
  other under the lock of the workspace, and record the report whatever happens. The sandbox is an
  argument, as it is one of the service.
\<close>

text \<open>\<open>TestAgent(allowed).select(inputs)\<close>, and the check of the configured images.\<close>

definition approved_tests :: "service_settings \<Rightarrow> test_input \<Rightarrow> exc + approved_test list" where
  "approved_tests st inputs =
     (if \<not> valid_policy (ss_test_allowed_commands st) then Inl (PolicyFailure ''invalid_test_policy'')
      else case select_tests (ss_test_allowed_commands st) inputs of
        Inl _ \<Rightarrow> Inl (PolicyFailure ''test_command_not_allowed'')
      | Inr commands \<Rightarrow>
          if \<exists>item \<in> set commands. at_image item \<notin> fst ` set (ss_sandbox_images st)
          then Inl (PolicyFailure ''test_image_not_configured'') else Inr commands)"

definition valid_request :: "sandbox_request \<Rightarrow> bool" where
  "valid_request request \<longleftrightarrow> between 1 64 (length (sbr_image request)) \<and>
     between 1 128 (length (sbr_command request)) \<and> 0 < sbr_timeout request \<and> sbr_timeout request \<le> 900"

definition test_request :: "service_settings \<Rightarrow> path \<Rightarrow> approved_test \<Rightarrow> sandbox_request" where
  "test_request st workspace item =
     \<lparr>sbr_workspace = workspace, sbr_image = at_image item, sbr_command = at_command item,
      sbr_timeout = ss_sandbox_timeout_seconds st, sbr_environment = [], sbr_environment_allowlist = []\<rparr>"

definition redact_output :: "service_settings \<Rightarrow> string \<Rightarrow> string" where
  "redact_output st s = take (nat (ss_sandbox_output_bytes st)) (redact st s)"

definition test_result_of :: "service_settings \<Rightarrow> approved_test \<Rightarrow> sandbox_result \<Rightarrow> test_result" where
  "test_result_of st item r =
     \<lparr>tr_command = at_command item, tr_exit_code = sbx_exit_code r,
      tr_stdout = redact_output st (sbx_stdout r), tr_stderr = redact_output st (sbx_stderr r),
      tr_duration = sbx_elapsed_seconds r,
      tr_passed = (sbx_exit_code r = Some 0 \<and> \<not> sbx_timed_out r),
      tr_timeout = sbx_timed_out r, tr_output_truncated = sbx_output_truncated r\<rparr>"

definition all_passed :: "test_result list \<Rightarrow> bool" where
  "all_passed results \<longleftrightarrow> results \<noteq> [] \<and> (\<forall>r \<in> set results. tr_passed r)"

text \<open>The body of \<open>try\<close>; its local variable is \<open>report\<close>.\<close>

definition test_one ::
  "service_settings \<Rightarrow> (sandbox_request \<Rightarrow> ('x world, sandbox_result) eff) \<Rightarrow> path \<Rightarrow> approved_test \<Rightarrow>
    ('x world \<times> test_report, unit) eff" where
  "test_one st run_sandbox workspace item =
     (let request = test_request st workspace item in
      seqM (ensure ValueFailure (valid_request request))
      (bindM (on_world (run_sandbox request)) (\<lambda>r.
       assign (\<lambda>report. report\<lparr>rep_results := rep_results report @ [test_result_of st item r]\<rparr>))))"

definition test_attempt ::
  "'x environment \<Rightarrow> service_settings \<Rightarrow> (sandbox_request \<Rightarrow> ('x world, sandbox_result) eff) \<Rightarrow>
    uuid \<Rightarrow> uuid \<Rightarrow> uuid \<Rightarrow> test_input \<Rightarrow> uuid option \<Rightarrow> path \<Rightarrow> ('x world \<times> test_report, test_report) eff" where
  "test_attempt env st run_sandbox rid tid aid inputs recovery_id workspace =
     bindM (liftE (approved_tests st inputs)) (\<lambda>commands.
     seqM (locked env st workspace (\<lambda>_.
       seqM (eachM (test_one st run_sandbox workspace) commands)
       (seqM (assign (\<lambda>report. report\<lparr>rep_passed := all_passed (rep_results report)\<rparr>))
       (bindM (on_world (current_diff env workspace)) (\<lambda>diff.
        bindM (local_value id) (\<lambda>report.
        on_world (transaction env (\<lambda>_ t d. unit_result (test_finish rid tid aid report None recovery_id
          (Some (env_sha env diff)) t d)))))))))
     (local_value id))"

definition test_error_code :: "exc \<Rightarrow> string" where
  "test_error_code e = (case e of PolicyFailure c \<Rightarrow> c | _ \<Rightarrow> ''test_execution_failed'')"

definition test_failure ::
  "'x environment \<Rightarrow> uuid \<Rightarrow> uuid \<Rightarrow> uuid \<Rightarrow> uuid option \<Rightarrow> test_report \<Rightarrow> exc \<Rightarrow> ('x world, test_report) eff" where
  "test_failure env rid tid aid recovery_id report e =
     seqM (transaction env (\<lambda>_ t d. unit_result (test_finish rid tid aid (report\<lparr>rep_passed := False\<rparr>)
             (Some (test_error_code e)) recovery_id None t d)))
       (raise (TestExecutionFailure (test_error_code e)))"

definition test_run ::
  "'x environment \<Rightarrow> service_settings \<Rightarrow> (sandbox_request \<Rightarrow> ('x world, sandbox_result) eff) \<Rightarrow>
    uuid \<Rightarrow> uuid \<Rightarrow> repository_test_config \<Rightarrow> uuid option \<Rightarrow> ('x world, test_report) eff" where
  "test_run env st run_sandbox rid tid config recovery_id =
     bindM (transaction env (test_start rid tid config recovery_id)) (\<lambda>(aid, inputs).
     scoped \<lparr>rep_results = [], rep_passed = False\<rparr>
       (test_attempt env st run_sandbox rid tid aid inputs recovery_id
          (execution_workspace env st (cr_id (ti_repository inputs)) rid))
       (test_failure env rid tid aid recovery_id))"

section \<open>The database and the locks\<close>

lemma test_finish_steps:
  "others_step env \<Longrightarrow> keeps (reached_from d) (transaction env (\<lambda>_ t d. unit_result
    (test_finish rid tid aid report error recovery_id diff_hash t d)))"
  by (erule keeps_transaction) (auto intro: exec_step.step_test_finish)

lemma test_start_steps:
  "others_step env \<Longrightarrow> keeps (reached_from d) (transaction env (test_start rid tid config recovery_id))"
  by (erule keeps_transaction) (metis exec_step.step_test_start prod.exhaust)

context sandbox
begin

lemma test_run_db:
  assumes "others_step env"
  shows "keeps (reached_from d) (test_run env st run_sandbox rid tid config recovery_id)"
  unfolding test_run_def test_attempt_def test_one_def test_failure_def case_prod_unfold Let_def
  by (intro keeps_rules reading_db.quiet_rules sandbox_db test_start_steps test_finish_steps assms)

lemma test_run_locks: "keeps (\<lambda>w. w_locks w = L) (test_run env st run_sandbox rid tid config recovery_id)"
  unfolding test_run_def test_attempt_def test_one_def test_failure_def case_prod_unfold Let_def
  by (intro keeps_rules reading_locks.quiet_rules sandbox_locks)

end

end
