(* ===== verification/Recovery_Service.thy ===== *)
theory Recovery_Service
  imports Testing_Service
begin

text \<open>
  \<^verbatim>\<open>app/services/recovery.py\<close> with the agent of \<^verbatim>\<open>app/agents/debugging.py\<close>: code a task, test it, and
  repair it while the tests fail, at most as often as the settings allow; every repair is a persisted
  attempt.
\<close>

record recovery_report =
  rcr_passed :: bool
  rcr_debug_attempts :: nat
  rcr_tests :: "test_report list"
  rcr_error :: "string option"

section \<open>One repair\<close>

definition propose_repair ::
  "'x environment \<Rightarrow> debug_input \<Rightarrow> ('x world, code_change_proposal \<times> token_usage) eff" where
  "propose_repair env inputs =
     bindM (external (env_repair env inputs) (\<lambda>_. Repair_call inputs)) (\<lambda>(proposal, usage).
     seqM (ensure ValueFailure (valid_proposal proposal)) (ret (proposal, usage)))"

text \<open>\<open>[r.model_copy(update=...) for r in failed.results if not r.passed]\<close>.\<close>

definition failing_tests :: "test_report \<Rightarrow> test_result list" where
  "failing_tests failed = map (\<lambda>r. r\<lparr>tr_stdout := take 4000 (tr_stdout r), tr_stderr := take 4000 (tr_stderr r)\<rparr>)
     (filter (\<lambda>r. \<not> tr_passed r) (rep_results failed))"

record debug_locals =
  dl_usage :: "token_usage option"
  dl_applying :: bool

definition debug_attempt_body ::
  "'x environment \<Rightarrow> service_settings \<Rightarrow> uuid \<Rightarrow> uuid \<Rightarrow> issue_context \<Rightarrow> plan_task_proposal \<Rightarrow> test_report \<Rightarrow>
    debug_attempt list \<Rightarrow> path \<Rightarrow> ('x world \<times> debug_locals, unit) eff" where
  "debug_attempt_body env st recovery aid ctx task failed history safe =
     bindM (on_world (current_diff env safe)) (\<lambda>before.
     let inputs = \<lparr>di_context = ctx, di_task = task, di_current_diff = before,
                   di_failing_tests = failing_tests failed, di_previous_attempts = history\<rparr> in
     seqM (ensure (PatchFailure ''unsafe_or_oversized_debug_input'' [])
             (sendable st 200000 (env_debug_json env inputs)))
     (bindM (on_world (propose_repair env inputs)) (\<lambda>(proposal, usage).
     seqM (assign (\<lambda>l. l\<lparr>dl_usage := Some usage\<rparr>))
     (seqM (ensure (PatchFailure ''secret_in_debug_proposal'' [])
              (redact st (env_proposal_json env proposal) = env_proposal_json env proposal))
     (bindM (on_world (transaction env (\<lambda>_ _. reserve_patch (env_sha env) recovery aid
               (env_sha env (ccp_unified_diff proposal))))) (\<lambda>new.
     seqM (ensure (PatchFailure ''identical_debug_patch'' []) new)
     (seqM (assign (\<lambda>l. l\<lparr>dl_applying := True\<rparr>))
     (seqM (on_world (apply_patch env st safe proposal))
     (bindM (on_world (current_diff env safe)) (\<lambda>diff.
     on_world (transaction env (\<lambda>_ t d. unit_result (finish_debug recovery aid
       [''summary'' \<mapsto> JStr (ccp_summary proposal), ''proposal'' \<mapsto> JProposal proposal,
        ''git_diff'' \<mapsto> JStr (redact st diff), ''validation'' \<mapsto> JStr ''not_run''] True (Some usage) t d)))))))))))))"

definition debug_error_code :: "exc \<Rightarrow> string" where
  "debug_error_code e = (case e of PatchFailure c _ \<Rightarrow> c | LLMFailure c \<Rightarrow> c | LLMInvalid _ \<Rightarrow> ''llm_invalid_response''
     | TimedOut \<Rightarrow> ''llm_timeout''
     | _ \<Rightarrow> ''debug_operation_failed'')"

definition must_stop :: "bool \<Rightarrow> string \<Rightarrow> bool" where
  "must_stop applying c \<longleftrightarrow> c \<in> {''patch_diff_failed'', ''patch_diff_too_large'', ''debug_operation_failed''} \<or>
     applying \<and> c \<in> {''patch_apply_failed'', ''patch_git_timeout'', ''patch_git_unavailable''}"

definition debug_failure ::
  "'x environment \<Rightarrow> service_settings \<Rightarrow> uuid \<Rightarrow> uuid \<Rightarrow> debug_locals \<Rightarrow> exc \<Rightarrow> ('x world, bool) eff" where
  "debug_failure env st recovery aid l e =
     (if e = Cancelled
      then seqM (transaction env (\<lambda>_ t d. unit_result (finish_debug recovery aid
                   [''error'' \<mapsto> JStr ''debug_cancelled''] False (dl_usage l) t d))) (raise Cancelled)
      else seqM (transaction env (\<lambda>_ t d. unit_result (finish_debug recovery aid
                   [''error'' \<mapsto> JStr (debug_error_code e), ''diagnostic'' \<mapsto> JStr (error_diagnostic st e),
                    ''workspace_may_be_modified'' \<mapsto> JBool True] False (dl_usage l) t d)))
             (if must_stop (dl_applying l) (debug_error_code e) then raise e else ret False))"

definition debug_once ::
  "'x environment \<Rightarrow> service_settings \<Rightarrow> (jval \<Rightarrow> string) \<Rightarrow> uuid \<Rightarrow> uuid \<Rightarrow> issue_context \<Rightarrow>
    plan_task_proposal \<Rightarrow> test_report \<Rightarrow> ('x world, bool) eff" where
  "debug_once env st render recovery rid ctx task failed =
     bindM (transaction env (claim_debug render recovery (ss_llm_model st))) (\<lambda>(aid, history).
     scoped \<lparr>dl_usage = None, dl_applying = False\<rparr>
       (seqM (locked env st (execution_workspace env st (cr_id (cs_repository ctx)) rid)
                (debug_attempt_body env st recovery aid ctx task failed history))
          (ret True))
       (debug_failure env st recovery aid))"

section \<open>The loop\<close>

text \<open>\<open>for _ in range(limit)\<close>: the argument counts the rounds left.\<close>

fun repair_rounds ::
  "(test_report \<Rightarrow> ('s, bool) eff) \<Rightarrow> ('s, test_report) eff \<Rightarrow> nat \<Rightarrow> recovery_report \<Rightarrow>
    ('s, recovery_report) eff" where
  "repair_rounds repair retest 0 report = ret report"
| "repair_rounds repair retest (Suc n) report =
     (if rep_passed (last (rcr_tests report)) then ret report
      else bindM (repair (last (rcr_tests report))) (\<lambda>applied.
           let report1 = report\<lparr>rcr_debug_attempts := rcr_debug_attempts report + 1\<rparr> in
           if applied
           then bindM retest (\<lambda>r. repair_rounds repair retest n
                  (report1\<lparr>rcr_tests := rcr_tests report1 @ [r]\<rparr>))
           else repair_rounds repair retest n report1))"

definition close_report :: "recovery_report \<Rightarrow> recovery_report" where
  "close_report report = (let passed = rep_passed (last (rcr_tests report))
     in report\<lparr>rcr_passed := passed,
               rcr_error := if passed then None else Some ''debug_attempts_exhausted''\<rparr>)"

definition recovery_body ::
  "'x environment \<Rightarrow> service_settings \<Rightarrow> (jval \<Rightarrow> string) \<Rightarrow>
    (sandbox_request \<Rightarrow> ('x world, sandbox_result) eff) \<Rightarrow> uuid \<Rightarrow> uuid \<Rightarrow> issue_context \<Rightarrow>
    repository_test_config \<Rightarrow> uuid \<Rightarrow> plan_task_proposal \<Rightarrow> bool \<Rightarrow> ('x world, recovery_report) eff" where
  "recovery_body env st render run_sandbox rid tid ctx config recovery task needs_coding =
     seqM (if needs_coding then bindM (coding_run env st rid tid ctx) (\<lambda>_. ret ()) else ret ())
     (bindM (test_run env st run_sandbox rid tid config (Some recovery)) (\<lambda>initial.
     bindM (repair_rounds (debug_once env st render recovery rid ctx task)
              (test_run env st run_sandbox rid tid config (Some recovery))
              (nat (ss_max_recovery_attempts st))
              \<lparr>rcr_passed = False, rcr_debug_attempts = 0, rcr_tests = [initial], rcr_error = None\<rparr>) (\<lambda>report0.
     let report = close_report report0 in
     seqM (transaction env (\<lambda>_ t d. unit_result
             (recovery_finish recovery (rcr_passed report) (rcr_error report) t d)))
       (ret report))))"

definition recovery_failure :: "'x environment \<Rightarrow> uuid \<Rightarrow> exc \<Rightarrow> ('x world, recovery_report) eff" where
  "recovery_failure env recovery e =
     (if e = Cancelled
      then seqM (transaction env (\<lambda>_ t d. unit_result
                   (recovery_finish recovery False (Some ''recovery_cancelled'') t d))) (raise Cancelled)
      else seqM (transaction env (\<lambda>_ t d. unit_result
                   (recovery_finish recovery False (Some ''recovery_operation_failed'') t d)))
             (raise (RecoveryFailure ''recovery_operation_failed'')))"

definition recovery_run ::
  "'x environment \<Rightarrow> service_settings \<Rightarrow> (jval \<Rightarrow> string) \<Rightarrow>
    (sandbox_request \<Rightarrow> ('x world, sandbox_result) eff) \<Rightarrow> uuid \<Rightarrow> uuid \<Rightarrow> issue_context \<Rightarrow>
    repository_test_config \<Rightarrow> ('x world, recovery_report) eff" where
  "recovery_run env st render run_sandbox rid tid ctx config =
     bindM (transaction env (recovery_open rid tid ctx config (nat (ss_max_recovery_attempts st))))
       (\<lambda>(recovery, task, needs_coding).
     catchM (recovery_body env st render run_sandbox rid tid ctx config recovery task needs_coding)
       (recovery_failure env recovery))"

section \<open>The database and the locks\<close>

lemma keeps_propose_repair [keeps_rules]:
  "keeps (reached_from d) (propose_repair env inputs)" "keeps (\<lambda>w. w_locks w = L) (propose_repair env inputs)"
  unfolding propose_repair_def case_prod_unfold by (intro keeps_rules)+

lemma recovery_steps:
  assumes "others_step env"
  shows "keeps (reached_from d) (transaction env (\<lambda>_ _. reserve_patch sha recovery aid fingerprint))"
    and "keeps (reached_from d) (transaction env (\<lambda>_ t d. unit_result (finish_debug recovery aid meta ok usage t d)))"
    and "keeps (reached_from d) (transaction env (claim_debug render recovery model))"
    and "keeps (reached_from d) (transaction env (\<lambda>_ t d. unit_result (recovery_finish recovery passed error t d)))"
    and "keeps (reached_from d) (transaction env (recovery_open rid tid ctx config limit))"
proof -
  note k = keeps_transaction [OF assms]
  show "keeps (reached_from d) (transaction env (\<lambda>_ _. reserve_patch sha recovery aid fingerprint))"
    by (rule k) (auto intro: exec_step.step_reserve_patch)
  show "keeps (reached_from d) (transaction env (\<lambda>_ t d. unit_result (finish_debug recovery aid meta ok usage t d)))"
    by (rule k) (auto intro: exec_step.step_finish_debug)
  show "keeps (reached_from d) (transaction env (claim_debug render recovery model))"
    by (rule k) (metis exec_step.step_claim_debug prod.exhaust)
  show "keeps (reached_from d) (transaction env (\<lambda>_ t d. unit_result (recovery_finish recovery passed error t d)))"
    by (rule k) (auto intro: exec_step.step_recovery_finish)
  show "keeps (reached_from d) (transaction env (recovery_open rid tid ctx config limit))"
    by (rule k) (metis exec_step.step_recovery_open prod.exhaust)
qed

lemma keeps_repair_rounds:
  "(\<And>failed. keeps I (repair failed)) \<Longrightarrow> keeps I retest \<Longrightarrow> keeps I (repair_rounds repair retest n report)"
  by (induction n arbitrary: report) (auto simp: Let_def intro!: keeps_rules)

lemma debug_once_db:
  assumes "others_step env"
  shows "keeps (reached_from d) (debug_once env st render recovery rid ctx task failed)"
  unfolding debug_once_def debug_attempt_body_def debug_failure_def case_prod_unfold Let_def
  by (intro keeps_rules reading_db.quiet_rules recovery_steps assms)

lemma debug_once_locks: "keeps (\<lambda>w. w_locks w = L) (debug_once env st render recovery rid ctx task failed)"
  unfolding debug_once_def debug_attempt_body_def debug_failure_def case_prod_unfold Let_def
  by (intro keeps_rules reading_locks.quiet_rules)

context sandbox
begin

lemma recovery_run_db:
  assumes "others_step env"
  shows "keeps (reached_from d) (recovery_run env st render run_sandbox rid tid ctx config)"
  unfolding recovery_run_def recovery_body_def recovery_failure_def case_prod_unfold Let_def
  by (intro keeps_rules keeps_repair_rounds recovery_steps coding_run_db test_run_db debug_once_db assms)

lemma recovery_run_locks:
  "keeps (\<lambda>w. w_locks w = L) (recovery_run env st render run_sandbox rid tid ctx config)"
  unfolding recovery_run_def recovery_body_def recovery_failure_def case_prod_unfold Let_def
  by (intro keeps_rules keeps_repair_rounds coding_run_locks test_run_locks debug_once_locks)

end

end
