(* ===== verification/Review_Service.thy ===== *)
theory Review_Service
  imports Coding_Service
begin

text \<open>
  \<^verbatim>\<open>app/services/review.py\<close> with the agent of \<^verbatim>\<open>app/agents/review.py\<close>: the mechanical gates come
  before the model is asked, the workspace is read again after it has answered, and the decision is
  recorded whatever happens.
\<close>

section \<open>What a review must look like\<close>

definition relative_reference :: "string \<Rightarrow> bool" where
  "relative_reference s \<longleftrightarrow> s \<noteq> [] \<and> CHR 0x5C \<notin> set s \<and> CHR '':'' \<notin> set s \<and> \<not> starts_with ''/'' s \<and>
     (\<forall>part \<in> set (split_on (CHR ''/'') s). part \<notin> {[], ''.'', ''..''})"

definition valid_finding :: "review_finding \<Rightarrow> bool" where
  "valid_finding f \<longleftrightarrow> rf_severity f \<in> {''info'', ''warning'', ''blocking''} \<and>
     (case rf_file_path f of None \<Rightarrow> True | Some p \<Rightarrow> length p \<le> 1024 \<and> relative_reference p) \<and>
     (case rf_line f of None \<Rightarrow> True | Some n \<Rightarrow> 0 < n) \<and>
     (case rf_reference f of None \<Rightarrow> True | Some r \<Rightarrow> length r \<le> 1000) \<and>
     between 1 4000 (length (rf_description f)) \<and> between 1 4000 (length (rf_recommendation f))"

definition valid_review :: "review_result \<Rightarrow> bool" where
  "valid_review r \<longleftrightarrow> between 1 10000 (length (rr_summary r)) \<and> length (rr_findings r) \<le> 100 \<and>
     (\<forall>f \<in> set (rr_findings r). valid_finding f)"

definition ask_review ::
  "'x environment \<Rightarrow> review_input \<Rightarrow> ('x world, review_result \<times> token_usage) eff" where
  "ask_review env inputs =
     bindM (external (env_review env inputs) (\<lambda>_. Review_call inputs)) (\<lambda>(review, usage).
     seqM (ensure ValueFailure (valid_review review)) (ret (review, usage)))"

record review_locals =
  rl_snapshot :: review_snapshot
  rl_decision :: review_decision
  rl_usage :: "token_usage option"

section \<open>One review\<close>

definition diff_errors :: "service_settings \<Rightarrow> repository_test_config \<Rightarrow> review_snapshot \<Rightarrow> string \<Rightarrow> string \<Rightarrow> string list" where
  "diff_errors st required snapshot diff diff_hash =
     (if Some diff_hash \<noteq> rs_tested_diff_hash snapshot then [''workspace_changed_since_tests''] else []) @
     (if diff = [] then [''no_changes_to_review''] else []) @
     (if \<exists>name \<in> set (required_commands required). name \<notin> set (ss_test_allowed_commands st)
      then [''required_command_disabled''] else [])"

definition input_errors :: "service_settings \<Rightarrow> string \<Rightarrow> string list" where
  "input_errors st serialized =
     (if ss_review_max_input_chars st < int (length serialized) then [''review_input_too_large''] else []) @
     (if contains_secret st serialized then [''secret_in_review_input''] else [])"

definition set_decision :: "(review_decision \<Rightarrow> review_decision) \<Rightarrow> review_locals \<Rightarrow> review_locals" where
  "set_decision f l = l\<lparr>rl_decision := f (rl_decision l)\<rparr>"

text \<open>The model's part, reached only without mechanical errors; it returns the errors it adds.\<close>

definition reviewed ::
  "'x environment \<Rightarrow> service_settings \<Rightarrow> path \<Rightarrow> string \<Rightarrow> review_input \<Rightarrow>
    ('x world \<times> review_locals, string list) eff" where
  "reviewed env st safe diff inputs =
     bindM (on_world (ask_review env inputs)) (\<lambda>(review, usage).
     seqM (assign (\<lambda>l. l\<lparr>rl_usage := Some usage\<rparr>))
     (seqM (ensure (ReviewFailure ''secret_in_review_output'')
              (\<not> contains_secret st (env_review_json env review)))
     (seqM (assign (set_decision (\<lambda>d. d\<lparr>rd_review := Some review\<rparr>)))
     (bindM (on_world (current_diff env safe)) (\<lambda>now.
      ret (if now \<noteq> diff then [''workspace_changed_during_review''] else []))))))"

definition approval :: "string list \<Rightarrow> review_decision \<Rightarrow> bool" where
  "approval errors decision \<longleftrightarrow> errors = [] \<and>
     (case rd_review decision of None \<Rightarrow> False
      | Some r \<Rightarrow> rr_approved r \<and> \<not> (\<exists>f \<in> set (rr_findings r). rf_severity f = ''blocking''))"

definition finish_review ::
  "'x environment \<Rightarrow> (evidence \<Rightarrow> string) \<Rightarrow> uuid \<Rightarrow> uuid \<Rightarrow> issue_context \<Rightarrow> repository_test_config \<Rightarrow>
    string option \<Rightarrow> review_locals \<Rightarrow> ('x world, review_decision) eff" where
  "finish_review env digest rid aid ctx required error l =
     transaction env (\<lambda>_ t. review_finish digest rid aid ctx required (rl_snapshot l) (rl_decision l)
       (rl_usage l) error t)"

definition review_attempt ::
  "'x environment \<Rightarrow> service_settings \<Rightarrow> (evidence \<Rightarrow> string) \<Rightarrow> uuid \<Rightarrow> uuid \<Rightarrow> issue_context \<Rightarrow>
    repository_test_config \<Rightarrow> review_snapshot \<Rightarrow> path \<Rightarrow> ('x world \<times> review_locals, review_decision) eff" where
  "review_attempt env st digest rid aid ctx required snapshot safe =
     bindM (on_world (current_diff env safe)) (\<lambda>diff.
     let diff_hash = env_sha env diff;
         inputs = (rs_inputs snapshot)\<lparr>ri_full_diff := diff\<rparr>;
         errors0 = diff_errors st required snapshot diff diff_hash @
                   input_errors st (env_review_input_json env inputs) in
     seqM (assign (set_decision (\<lambda>d. d\<lparr>rd_diff_hash := Some diff_hash\<rparr>)))
     (seqM (assign (\<lambda>l. l\<lparr>rl_snapshot := snapshot\<lparr>rs_inputs := inputs\<rparr>\<rparr>))
     (bindM (if errors0 = [] then reviewed env st safe diff inputs else ret []) (\<lambda>more_errors.
     let errors = errors0 @ more_errors in
     seqM (assign (set_decision (\<lambda>d. d\<lparr>rd_mechanical_errors := errors, rd_approved := approval errors d\<rparr>)))
     (bindM (local_value id) (\<lambda>l.
      on_world (finish_review env digest rid aid ctx required None l)))))))"

definition review_error_code :: "exc \<Rightarrow> string" where
  "review_error_code e = (case e of LLMFailure c \<Rightarrow> c | LLMInvalid _ \<Rightarrow> ''llm_invalid_response''
     | TimedOut \<Rightarrow> ''llm_timeout''
     | _ \<Rightarrow> ''review_operation_failed'')"

definition review_failure ::
  "'x environment \<Rightarrow> (evidence \<Rightarrow> string) \<Rightarrow> uuid \<Rightarrow> uuid \<Rightarrow> issue_context \<Rightarrow> repository_test_config \<Rightarrow>
    review_locals \<Rightarrow> exc \<Rightarrow> ('x world, review_decision) eff" where
  "review_failure env digest rid aid ctx required l e =
     (if e = Cancelled
      then seqM (finish_review env digest rid aid ctx required (Some ''review_cancelled'') l) (raise Cancelled)
      else seqM (finish_review env digest rid aid ctx required (Some (review_error_code e)) l)
             (raise (ReviewFailure (review_error_code e))))"

definition review_run ::
  "'x environment \<Rightarrow> service_settings \<Rightarrow> (evidence \<Rightarrow> string) \<Rightarrow> uuid \<Rightarrow> issue_context \<Rightarrow>
    repository_test_config \<Rightarrow> ('x world, review_decision) eff" where
  "review_run env st digest rid ctx required =
     bindM (transaction env (review_start digest rid ctx required (ss_llm_model st))) (\<lambda>(aid, snapshot).
     scoped \<lparr>rl_snapshot = snapshot,
             rl_decision = \<lparr>rd_review = None, rd_mechanical_errors = rs_errors snapshot,
                            rd_approved = False, rd_diff_hash = None\<rparr>,
             rl_usage = None\<rparr>
       (if rs_errors snapshot \<noteq> []
        then bindM (local_value id) (\<lambda>l. on_world (finish_review env digest rid aid ctx required None l))
        else locked env st (execution_workspace env st (cr_id (cs_repository ctx)) rid)
               (review_attempt env st digest rid aid ctx required snapshot))
       (review_failure env digest rid aid ctx required))"

section \<open>The database and the locks\<close>

lemma keeps_ask_review [keeps_rules]:
  "keeps (reached_from d) (ask_review env inputs)" "keeps (\<lambda>w. w_locks w = L) (ask_review env inputs)"
  unfolding ask_review_def case_prod_unfold by (intro keeps_rules)+

lemma finish_review_locks [keeps_rules]:
  "keeps (\<lambda>w. w_locks w = L) (finish_review env digest rid aid ctx required error l)"
  unfolding finish_review_def by (rule keeps_rules)

lemma finish_review_steps:
  "others_step env \<Longrightarrow> keeps (reached_from d) (finish_review env digest rid aid ctx required error l)"
  unfolding finish_review_def
  by (erule keeps_transaction) (metis exec_step.step_review_finish)

lemma review_start_steps:
  "others_step env \<Longrightarrow> keeps (reached_from d) (transaction env (review_start digest rid ctx required model))"
  by (erule keeps_transaction) (metis exec_step.step_review_start prod.exhaust)

lemma review_run_db:
  assumes "others_step env"
  shows "keeps (reached_from d) (review_run env st digest rid ctx required)"
  unfolding review_run_def review_attempt_def reviewed_def review_failure_def case_prod_unfold Let_def
  by (intro keeps_rules reading_db.quiet_rules review_start_steps finish_review_steps assms)

lemma review_run_locks: "keeps (\<lambda>w. w_locks w = L) (review_run env st digest rid ctx required)"
  unfolding review_run_def review_attempt_def reviewed_def review_failure_def case_prod_unfold Let_def
  by (intro keeps_rules reading_locks.quiet_rules)

end
