(* ===== verification/Workspace_Service.thy ===== *)
theory Workspace_Service
  imports Code_Patches
begin

text \<open>
  \<^verbatim>\<open>app/integrations/git/runner.py\<close>, \<^verbatim>\<open>app/services/workspace.py\<close> and
  \<^verbatim>\<open>app/services/workspace_sync.py\<close>: Git with its fixed options and credentials, and the managed
  checkouts: one lock per repository, every path checked before it is used, clones staged before they
  become the repository, and the state of a synchronisation in the database.
\<close>

section \<open>The Git runner\<close>

definition upper_char :: "char \<Rightarrow> char" where
  "upper_char c = (if CHR ''a'' \<le> c \<and> c \<le> CHR ''z'' then char_of (of_char c - 32 :: nat) else c)"

definition private_variable :: "string \<Rightarrow> bool" where
  "private_variable key \<longleftrightarrow>
     (\<exists>p \<in> {''GIT_'', ''GITHUB_'', ''PLATFORM_GIT_''}. starts_with p (map upper_char key))"

definition updated :: "('k \<times> 'v) list \<Rightarrow> ('k \<times> 'v) list \<Rightarrow> ('k \<times> 'v) list" where
  "updated old new = filter (\<lambda>(k, _). k \<notin> fst ` set new) old @ new"

definition credential_variables :: "'x environment \<Rightarrow> nat \<Rightarrow> string option \<Rightarrow> (string \<times> string) list" where
  "credential_variables env n token =
     updated (filter (\<lambda>(k, _). \<not> private_variable k) (env_variables env))
       ([(''GIT_TERMINAL_PROMPT'', ''0''), (''GIT_CONFIG_NOSYSTEM'', ''1''),
         (''GIT_CONFIG_GLOBAL'', ''/dev/null''), (''GCM_INTERACTIVE'', ''never''),
         (''GIT_LFS_SKIP_SMUDGE'', ''1''), (''LC_ALL'', ''C''),
         (''PLATFORM_GIT_PYTHON'', env_python env), (''PLATFORM_GIT_HELPER'', env_helper env)] @
        (case token of None \<Rightarrow> [] | Some t \<Rightarrow> [(''PLATFORM_GIT_TOKEN'', t)]) @
        [(''GIT_ASKPASS'', env_askpass env n)])"

definition runner_command :: "bool \<Rightarrow> string list \<Rightarrow> string list" where
  "runner_command local args =
     [''git'', ''-c'', ''credential.helper='', ''-c'', ''core.hooksPath=/dev/null'',
      ''-c'', ''http.followRedirects=false'', ''-c'', ''protocol.allow=never'',
      ''-c'', ''protocol.https.allow=always'',
      ''-c'', ''protocol.file.allow='' @ (if local then ''always'' else ''never''),
      ''-c'', ''submodule.recurse=false'', ''-c'', ''core.symlinks=false'', ''-c'', ''core.fsmonitor=false'',
      ''-c'', ''maintenance.auto=false''] @ args"

text \<open>Text mode reads every line end as a line feed.\<close>

fun universal_newlines :: "string \<Rightarrow> string" where
  "universal_newlines [] = []"
| "universal_newlines (c # cs) =
     (if c = CHR 0x0D then CHR 0x0A # universal_newlines (if starts_with [CHR 0x0A] cs then tl cs else cs)
      else c # universal_newlines cs)"

definition runner_outcome :: "'x environment \<Rightarrow> process_outcome \<Rightarrow> exc + string" where
  "runner_outcome env outcome = (case outcome of
     Process_timeout \<Rightarrow> Inl (WorkspaceFailure ''git_timeout'')
   | Process_unavailable \<Rightarrow> Inl (WorkspaceFailure ''git_unavailable'')
   | Process_exit exit_code out _ \<Rightarrow>
       if exit_code \<noteq> 0 then Inl (WorkspaceFailure ''git_operation_failed'')
       else Inr (strip (universal_newlines (env_decode env out))))"

definition remote_git ::
  "'x environment \<Rightarrow> string list \<Rightarrow> path \<Rightarrow> string option \<Rightarrow> bool \<Rightarrow> ('x world, string) eff" where
  "remote_git env args cwd token local = (\<lambda>w.
     external (\<lambda>x. case env_process env (runner_command local args)
                       (credential_variables env (w_tick w) token) cwd None x of
                 (outcome, x') \<Rightarrow> (runner_outcome env outcome, x'))
       (\<lambda>_. Remote_call args token local) w)"

section \<open>Paths\<close>

record workspace_config =
  wc_root :: path
  wc_github_host :: string
  wc_token :: "string option"
  wc_allow_local :: bool

definition files_call :: "'x environment \<Rightarrow> file_action \<Rightarrow> ('x world, unit) eff" where
  "files_call env action = external (env_files env action) (\<lambda>_. File_call action)"

definition safe_in :: "filesystem \<Rightarrow> path \<Rightarrow> path \<Rightarrow> bool" where
  "safe_in fs home p \<longleftrightarrow> relative_to home p \<and> (\<forall>part \<in> set (ancestors p). \<not> fs_linked fs part) \<and>
     relative_to (fs_target fs home) (fs_target fs p)"

definition safe :: "'x environment \<Rightarrow> workspace_config \<Rightarrow> path \<Rightarrow> ('x world, path) eff" where
  "safe env wc p =
     bindM (in_files env (\<lambda>fs. safe_in fs (wc_root wc) p)) (\<lambda>ok.
     seqM (ensure (WorkspaceFailure ''unsafe_workspace_path'') ok) (ret p))"

definition path_exists :: "'x environment \<Rightarrow> path \<Rightarrow> ('x world, bool) eff" where
  "path_exists env p = in_files env (\<lambda>fs. st_exists (fs_status fs p))"

definition repository_path :: "'x environment \<Rightarrow> workspace_config \<Rightarrow> uuid \<Rightarrow> ('x world, path) eff" where
  "repository_path env wc repository =
     safe env wc (wc_root wc @ [''repositories'', env_uuid_text env repository])"

definition initialize :: "'x environment \<Rightarrow> workspace_config \<Rightarrow> ('x world, unit) eff" where
  "initialize env wc =
     seqM (safe env wc (wc_root wc))
     (seqM (files_call env (Make_directory (wc_root wc)))
     (bindM (safe env wc (wc_root wc @ [''.gitignore''])) (\<lambda>ignore.
     bindM (path_exists env ignore) (\<lambda>present.
     if present then ret ()
     else catchM (files_call env (Write_new ignore (''*'' @ [CHR 0x0A] @ ''!.gitignore'' @ [CHR 0x0A])))
            (\<lambda>e. if e = FileExistsFailure then bindM (safe env wc ignore) (\<lambda>_. ret ()) else raise e)))))"

section \<open>The lock of a repository\<close>

definition lock_repository :: "path \<Rightarrow> ('x world, unit) eff" where
  "lock_repository p = (\<lambda>w. if p \<in> set (w_locks w) then (Inl (WorkspaceFailure ''workspace_busy''), w)
     else (Inr (), w\<lparr>w_locks := p # w_locks w\<rparr>))"

definition with_lock ::
  "'x environment \<Rightarrow> workspace_config \<Rightarrow> uuid \<Rightarrow> ('x world, 'a) eff \<Rightarrow> ('x world, 'a) eff" where
  "with_lock env wc repository body =
     seqM (initialize env wc)
     (bindM (safe env wc (wc_root wc @ [''locks''])) (\<lambda>directory.
     seqM (files_call env (Make_directory directory))
     (bindM (safe env wc (directory @ [env_uuid_text env repository @ ''.lock''])) (\<lambda>p.
     seqM (lock_repository p)
       (finallyM body (seqM (safe env wc p) (release p)))))))"

definition locked_repository ::
  "'x environment \<Rightarrow> workspace_config \<Rightarrow> uuid \<Rightarrow> (path \<Rightarrow> ('x world, 'a) eff) \<Rightarrow> ('x world, 'a) eff" where
  "locked_repository env wc repository body =
     with_lock env wc repository (bindM (repository_path env wc repository) body)"

section \<open>Sources and checkouts\<close>

definition trusted_source :: "url_rules \<Rightarrow> string \<Rightarrow> string \<Rightarrow> exc + unit" where
  "trusted_source rules host source = bindE (urlsplit rules source) (\<lambda>u.
     if u_scheme u \<noteq> ''https'' \<or> url_hostname u \<noteq> Some host \<or> fst (user_info u) \<noteq> None \<or>
        snd (user_info u) \<noteq> None then Inl (WorkspaceFailure ''untrusted_clone_url'')
     else bindE (url_port u) (\<lambda>number.
       if number \<notin> {None, Some 443} \<or> u_query u \<noteq> [] \<or> u_fragment u \<noteq> [] \<or>
          (\<exists>c \<in> set source. space_char c)
       then Inl (WorkspaceFailure ''untrusted_clone_url'') else Inr ()))"

text \<open>\<open>_source\<close>: whether the source is a local directory, which only tests may allow.\<close>

definition source_kind :: "'x environment \<Rightarrow> workspace_config \<Rightarrow> string \<Rightarrow> ('x world, bool) eff" where
  "source_kind env wc source =
     seqM (bindM (liftE (urlsplit (env_url_rules env) source)) (\<lambda>_. ret ()))
     (bindM (in_files env (\<lambda>fs. st_is_dir (fs_status fs (path_parts source)))) (\<lambda>directory.
      if wc_allow_local wc \<and> starts_with ''/'' source \<and> directory then ret True
      else bindM (liftE (trusted_source (env_url_rules env) (wc_github_host wc) source)) (\<lambda>_. ret False)))"

definition verify_checkout :: "'x environment \<Rightarrow> workspace_config \<Rightarrow> path \<Rightarrow> ('x world, string) eff" where
  "verify_checkout env wc p =
     seqM (safe env wc p)
     (bindM (safe env wc (p @ [''.git''])) (\<lambda>metadata.
     bindM (in_files env (\<lambda>fs. st_is_dir (fs_status fs metadata))) (\<lambda>directory.
     seqM (ensure (WorkspaceFailure ''invalid_workspace_repository'') directory)
     (bindM (asks (\<lambda>w. env_entries env (w_ext w) metadata)) (\<lambda>entries.
     seqM (eachM (\<lambda>entry. bindM (safe env wc entry) (\<lambda>_. ret ())) entries)
     (bindM (path_exists env (metadata @ [''objects'', ''info'', ''alternates''])) (\<lambda>alternates.
     seqM (ensure (WorkspaceFailure ''shared_git_objects'') (\<not> alternates))
     (bindM (remote_git env [''rev-parse'', ''--show-toplevel''] p None False) (\<lambda>toplevel.
     bindM (in_files env (\<lambda>fs. fs_target fs (path_parts toplevel) = fs_target fs p)) (\<lambda>same.
     seqM (ensure (WorkspaceFailure ''invalid_workspace_repository'') same)
     (seqM (remote_git env [''fsck'', ''--full'', ''--no-reflogs''] p None False)
       (remote_git env [''rev-parse'', ''--verify'', ''HEAD^{commit}''] p None False))))))))))))"

definition reset_checkout :: "'x environment \<Rightarrow> workspace_config \<Rightarrow> path \<Rightarrow> string \<Rightarrow> ('x world, string) eff" where
  "reset_checkout env wc p revision =
     seqM (verify_checkout env wc p)
     (bindM (remote_git env [''rev-parse'', ''--verify'', revision @ ''^{commit}''] p None False) (\<lambda>commit.
     seqM (safe env wc p)
     (bindM (asks (\<lambda>w. env_entries env (w_ext w) p)) (\<lambda>entries.
     seqM (eachM (\<lambda>entry. bindM (safe env wc entry) (\<lambda>_. ret ())) entries)
     (seqM (remote_git env [''reset'', ''--hard'', commit] p None False)
     (seqM (remote_git env [''clean'', ''-ffdx''] p None False)
     (bindM (remote_git env [''status'', ''--porcelain''] p None False) (\<lambda>dirty.
     seqM (ensure (WorkspaceFailure ''workspace_not_clean'') (dirty = []))
       (verify_checkout env wc p)))))))))"

definition full_commit :: "string \<Rightarrow> bool" where
  "full_commit s \<longleftrightarrow> length s \<in> {40, 64} \<and> (\<forall>c \<in> set s. c \<in> set hex_digits)"

definition reset_workspace ::
  "'x environment \<Rightarrow> workspace_config \<Rightarrow> uuid \<Rightarrow> string \<Rightarrow> ('x world, path \<times> string) eff" where
  "reset_workspace env wc repository commit =
     seqM (ensure (WorkspaceFailure ''invalid_commit'') (full_commit commit))
       (with_lock env wc repository
         (bindM (repository_path env wc repository) (\<lambda>p.
          bindM (reset_checkout env wc p commit) (\<lambda>c. ret (p, c)))))"

section \<open>Synchronisation\<close>

definition clone_options :: "string list" where
  "clone_options = [''clone'', ''--no-local'', ''--no-checkout'', ''--template='', ''--'']"

definition fetch_checkout ::
  "'x environment \<Rightarrow> workspace_config \<Rightarrow> path \<Rightarrow> string \<Rightarrow> string option \<Rightarrow> bool \<Rightarrow> ('x world, unit) eff" where
  "fetch_checkout env wc target source token local =
     seqM (verify_checkout env wc target)
     (seqM (remote_git env [''remote'', ''set-url'', ''origin'', source] target None False)
     (bindM (remote_git env [''fetch'', ''--prune'', ''--no-tags'', ''origin'',
         ''+refs/heads/*:refs/remotes/origin/*''] target token local) (\<lambda>_. ret ())))"

definition clone_checkout ::
  "'x environment \<Rightarrow> workspace_config \<Rightarrow> path \<Rightarrow> string \<Rightarrow> string option \<Rightarrow> bool \<Rightarrow> ('x world, unit) eff" where
  "clone_checkout env wc target source token local =
     bindM (fresh_uuid env) (\<lambda>i.
     bindM (safe env wc (butlast target @ [''.partial-'' @ uuid_hex env i])) (\<lambda>staging.
     seqM (remote_git env (clone_options @ [source, path_text staging]) (wc_root wc) token local)
     (seqM (verify_checkout env wc staging)
     (seqM (safe env wc staging)
     (seqM (safe env wc target)
       (files_call env (Rename staging target)))))))"

definition prepare_body ::
  "'x environment \<Rightarrow> workspace_config \<Rightarrow> uuid \<Rightarrow> string \<Rightarrow> string \<Rightarrow> (string \<Rightarrow> ('x world, unit) eff) \<Rightarrow>
    ('x world, path \<times> string) eff" where
  "prepare_body env wc repository source branch on_status =
     seqM (on_status ''syncing'')
     (bindM (source_kind env wc source) (\<lambda>local.
     seqM (remote_git env [''check-ref-format'', ''refs/heads/'' @ branch] (wc_root wc) None False)
     (seqM (ensure (WorkspaceFailure ''invalid_default_branch'') (\<not> starts_with ''-'' branch))
     (bindM (repository_path env wc repository) (\<lambda>target.
     seqM (files_call env (Make_directory (butlast target)))
     (bindM (path_exists env target) (\<lambda>present.
     let token = (if local then None else wc_token wc); revision = ''refs/remotes/origin/'' @ branch in
     seqM (if present then fetch_checkout env wc target source token local
           else clone_checkout env wc target source token local)
     (seqM (reset_checkout env wc target revision)
     (seqM (remote_git env [''checkout'', ''-B'', branch, revision, ''--''] target None False)
     (bindM (verify_checkout env wc target) (\<lambda>commit.
     seqM (on_status ''ready'') (ret (target, commit)))))))))))))"

definition prepare_workspace ::
  "'x environment \<Rightarrow> workspace_config \<Rightarrow> uuid \<Rightarrow> string \<Rightarrow> string \<Rightarrow> (string \<Rightarrow> ('x world, unit) eff) \<Rightarrow>
    ('x world, path \<times> string) eff" where
  "prepare_workspace env wc repository source branch on_status =
     with_lock env wc repository
       (catchM (prepare_body env wc repository source branch on_status)
         (\<lambda>e. seqM (on_status ''error'') (raise e)))"

definition create_execution_workspace ::
  "'x environment \<Rightarrow> workspace_config \<Rightarrow> uuid \<Rightarrow> uuid \<Rightarrow> ('x world, path \<times> string) eff" where
  "create_execution_workspace env wc repository rid =
     with_lock env wc repository
       (bindM (repository_path env wc repository) (\<lambda>source.
        bindM (verify_checkout env wc source) (\<lambda>commit.
        bindM (safe env wc (wc_root wc @ [''executions'', env_uuid_text env repository, env_uuid_text env rid])) (\<lambda>target.
        bindM (path_exists env target) (\<lambda>present.
        seqM (ensure (WorkspaceFailure ''execution_workspace_exists'') (\<not> present))
        (seqM (files_call env (Make_directory (butlast target)))
        (seqM (remote_git env (clone_options @ [path_text source, path_text target]) (wc_root wc) None True)
        (seqM (remote_git env [''remote'', ''remove'', ''origin''] target None False)
        (seqM (remote_git env [''checkout'', ''--detach'', commit, ''--''] target None False)
        (bindM (reset_checkout env wc target commit) (\<lambda>c. ret (target, c))))))))))))"

section \<open>The registered repository\<close>

definition registered_source :: "uuid \<Rightarrow> db \<Rightarrow> exc + string \<times> string" where
  "registered_source repository d = (case fetch repo_id repository (db_repositories d) of
     None \<Rightarrow> Inl (WorkspaceFailure ''repository_not_registered'')
   | Some r \<Rightarrow> Inr (repo_clone_url r, repo_default_branch r))"

definition set_sync_status :: "uuid \<Rightarrow> string \<Rightarrow> db \<Rightarrow> exc + db" where
  "set_sync_status repository progress d = (case fetch repo_id repository (db_repositories d) of
     None \<Rightarrow> Inl (WorkspaceFailure ''repository_not_registered'')
   | Some r \<Rightarrow> Inr (d\<lparr>db_repositories := put repo_id (r\<lparr>repo_local_status := progress,
        repo_index_status := ''pending'', repo_embedding_status := ''pending''\<rparr>) (db_repositories d)\<rparr>))"

text \<open>A transaction that raises a failure of its own, in a session of its own.\<close>

definition session :: "'x environment \<Rightarrow> (db \<Rightarrow> exc + db \<times> 'a) \<Rightarrow> ('x world, 'a) eff" where
  "session env op = (\<lambda>w.
     let d = env_others env (w_tick w) (w_db w); w1 = w\<lparr>w_db := d, w_tick := Suc (w_tick w)\<rparr>
     in case op d of Inl e \<Rightarrow> (Inl e, w1) | Inr (d', x) \<Rightarrow> (Inr x, w1\<lparr>w_db := d'\<rparr>))"

definition prepare_registered_repository ::
  "'x environment \<Rightarrow> workspace_config \<Rightarrow> uuid \<Rightarrow> ('x world, path \<times> string) eff" where
  "prepare_registered_repository env wc repository =
     bindM (session env (\<lambda>d. bindE (registered_source repository d) (\<lambda>s. Inr (d, s)))) (\<lambda>(source, branch).
     prepare_workspace env wc repository source branch
       (\<lambda>progress. session env (\<lambda>d. bindE (set_sync_status repository progress d) (\<lambda>d'. Inr (d', ())))))"


section \<open>What the runner keeps\<close>

lemma keeps_remote_git [keeps_rules]:
  "keeps (reached_from d) (remote_git env args cwd token local)"
  "keeps (\<lambda>w. w_locks w = L) (remote_git env args cwd token local)"
  by (auto simp: keeps_iff remote_git_def external_def reached_from_def split: prod.splits)

lemma keeps_files_call [keeps_rules]:
  "keeps (reached_from d) (files_call env action)" "keeps (\<lambda>w. w_locks w = L) (files_call env action)"
  unfolding files_call_def by (rule keeps_rules)+

lemma keeps_source_kind [keeps_rules]: "keeps I (source_kind env wc source)"
  unfolding source_kind_def by (intro keeps_rules)

end
