(* ===== verification/Publication_Service.thy ===== *)
theory Publication_Service
  imports Workspace_Service "HOL-Library.List_Lexorder" "HOL-Library.Char_ord"
begin

text \<open>
  \<^verbatim>\<open>app/pull_requests/git.py\<close>, \<^verbatim>\<open>app/pull_requests/body.py\<close> and
  \<^verbatim>\<open>app/pull_requests/service.py\<close>: the commit of a reviewed workspace on a branch of its own, the text
  of the pull request, and the publication, which is journalled before the first remote change.
\<close>

definition publication_error :: "string \<Rightarrow> exc" where
  "publication_error c = ServiceFailure (PublicationError c)"

section \<open>The commit\<close>

definition local_output :: "'x environment \<Rightarrow> path \<Rightarrow> string list \<Rightarrow> ('x world, string) eff" where
  "local_output env workspace args =
     bindM (local_git env args workspace None) (\<lambda>r.
     seqM (ensure (publication_error ''publication_git_failed'') (gr_code r = 0)) (ret (strip (gr_stdout r))))"

text \<open>\<^verbatim>\<open>ai-platform/issue-[1-9][0-9]*-[0-9a-f]{32}\<close>.\<close>

definition branch_pattern :: "string \<Rightarrow> bool" where
  "branch_pattern branch = (case strip_prefix ''ai-platform/issue-'' branch of None \<Rightarrow> False
     | Some rest \<Rightarrow> (case partition_at (CHR ''-'') rest of (number, found, hex) \<Rightarrow>
         found \<and> number \<noteq> [] \<and> hd number \<noteq> CHR ''0'' \<and> (\<forall>c \<in> set number. ascii_digit c) \<and>
         length hex = 32 \<and> (\<forall>c \<in> set hex. c \<in> set hex_digits)))"

definition changed_files :: "string \<Rightarrow> string \<Rightarrow> string list" where
  "changed_files tracked untracked =
     sort (remdups (filter (\<lambda>name. name \<noteq> []) (split_on (CHR 0x00) (tracked @ [CHR 0x00] @ untracked))))"

definition lines_text :: "string list \<Rightarrow> string" where
  "lines_text = join_with (CHR 0x0A)"

definition commit_message :: "'x environment \<Rightarrow> uuid \<Rightarrow> string" where
  "commit_message env rid = ''Implement execution '' @ env_uuid_text env rid"

definition publication_commit ::
  "'x environment \<Rightarrow> service_settings \<Rightarrow> path \<Rightarrow> string \<Rightarrow> string \<Rightarrow> string \<Rightarrow> string \<Rightarrow> ('x world, string) eff" where
  "publication_commit env st workspace ref parent tree message =
     bindM (local_git env [''show-ref'', ''--verify'', ''--hash'', ref] workspace None) (\<lambda>existing.
     if gr_code existing = 0
     then (let commit = strip (gr_stdout existing) in
       bindM (local_output env workspace [''show'', ''-s'', ''--format=%T%n%P%n%B'', commit]) (\<lambda>identity.
       seqM (ensure (publication_error ''local_branch_collision'') (identity = lines_text [tree, parent, message]))
         (ret commit)))
     else
       bindM (local_output env workspace
         [''-c'', ''user.name='' @ ss_git_commit_name st, ''-c'', ''user.email='' @ ss_git_commit_email st,
          ''commit-tree'', tree, ''-p'', parent, ''-m'', message]) (\<lambda>commit.
       seqM (local_output env workspace [''update-ref'', ref, commit, replicate (length parent) (CHR ''0'')])
         (ret commit)))"

definition prepare_commit ::
  "'x environment \<Rightarrow> service_settings \<Rightarrow> path \<Rightarrow> string \<Rightarrow> uuid \<Rightarrow> ('x world, string \<times> string \<times> string list) eff" where
  "prepare_commit env st workspace branch rid =
     seqM (ensure (publication_error ''invalid_publication_branch'') (branch_pattern branch))
     (bindM (local_output env workspace [''rev-parse'', ''HEAD'']) (\<lambda>parent.
     bindM (local_output env workspace [''diff'', ''--name-only'', ''-z'', ''HEAD'']) (\<lambda>tracked.
     bindM (local_output env workspace [''ls-files'', ''--others'', ''--exclude-standard'', ''-z'']) (\<lambda>untracked.
     let files = changed_files tracked untracked in
     seqM (ensure (publication_error ''no_changes_to_publish'') (files \<noteq> []))
     (seqM (eachM (\<lambda>name. bindM (liftE (validate_path (pytext name))) (\<lambda>_. ret ())) files)
     (seqM (local_output env workspace ([''add'', ''--''] @ files))
     (bindM (local_output env workspace [''write-tree'']) (\<lambda>tree.
     bindM (local_output env workspace [''rev-parse'', ''HEAD^{tree}'']) (\<lambda>current.
     seqM (ensure (publication_error ''no_changes_to_publish'') (tree \<noteq> current))
     (bindM (publication_commit env st workspace (''refs/heads/'' @ branch) parent tree (commit_message env rid)) (\<lambda>commit.
     ret (parent, commit, files))))))))))))"

definition index_file :: "path \<Rightarrow> path" where
  "index_file workspace = workspace @ [''.git'', ''index'']"

definition prepare_publication ::
  "'x environment \<Rightarrow> service_settings \<Rightarrow> path \<Rightarrow> string \<Rightarrow> uuid \<Rightarrow> ('x world, string \<times> string \<times> string list) eff" where
  "prepare_publication env st workspace branch rid =
     bindM (asks (\<lambda>w. env_content env (w_ext w) (index_file workspace))) (\<lambda>previous.
     finallyM (prepare_commit env st workspace branch rid)
       (files_call env (Restore (index_file workspace) previous)))"

definition push_arguments :: "publication \<Rightarrow> string list" where
  "push_arguments p =
     [''push'', ''--no-verify'', ''--porcelain'', ''--force-with-lease=refs/heads/'' @ pub_branch p @ '':'',
      pub_source p, pub_commit p @ '':refs/heads/'' @ pub_branch p]"

definition push_publication ::
  "'x environment \<Rightarrow> service_settings \<Rightarrow> path \<Rightarrow> publication \<Rightarrow> ('x world, unit) eff" where
  "push_publication env st workspace p =
     seqM (ensure (publication_error ''default_branch_publication_forbidden'') (pub_branch p \<noteq> pub_base p))
     (seqM (ensure (publication_error ''github_token_required_for_publication'') (or_empty (ss_github_token st) \<noteq> []))
     (seqM (source_kind env \<lparr>wc_root = ss_workspace_root st, wc_github_host = ss_github_git_host st,
              wc_token = None, wc_allow_local = False\<rparr> (pub_source p))
     (bindM (remote_git env (push_arguments p) workspace (ss_github_token st) False) (\<lambda>_. ret ()))))"

section \<open>The text of the pull request\<close>

definition int_text :: "int \<Rightarrow> string" where
  "int_text n = (if n < 0 then ''-'' @ decimal (nat (- n)) else decimal (nat n))"

definition bool_text :: "bool \<Rightarrow> string" where
  "bool_text b = (if b then ''True'' else ''False'')"

text \<open>The program's em dash is beyond the characters of a string; this one stands for it.\<close>

definition em_dash :: char where
  "em_dash = CHR 0x97"

definition marker :: "'x environment \<Rightarrow> uuid \<Rightarrow> string" where
  "marker env rid = ''<!-- ai-platform-execution:'' @ env_uuid_text env rid @ '' -->''"

definition result_line :: "'x environment \<Rightarrow> string \<Rightarrow> test_result \<Rightarrow> string" where
  "result_line env key r =
     ''- '' @ key @ '': `'' @ join_with (CHR '' '') (tr_command r) @ ''` '' @ [em_dash] @ '' '' @
     (if tr_passed r then ''PASS'' else ''FAIL'') @ '', exit '' @
     (case tr_exit_code r of None \<Rightarrow> ''None'' | Some n \<Rightarrow> int_text n) @
     '', timeout='' @ bool_text (tr_timeout r) @ '', duration='' @ env_duration_text env (tr_duration r) @ ''s''"

definition heading :: "string \<Rightarrow> string" where
  "heading s = CHR 0x0A # ''## '' @ s"

definition render_body ::
  "'x environment \<Rightarrow> publication_evidence \<Rightarrow> uuid \<Rightarrow> string list \<Rightarrow> exc + string" where
  "render_body env evidence rid files =
     (case rd_review (pe_decision evidence) of None \<Rightarrow> Inl (publication_error ''publication_review_missing'')
      | Some review \<Rightarrow>
        let inputs = rs_inputs (pe_snapshot evidence);
            body = lines_text (
              [marker env rid,
               ''Issue: '' @ pe_owner evidence @ ''/'' @ pe_repository evidence @ ''#'' @ int_text (pe_issue_number evidence),
               pe_issue_url evidence,
               heading ''Implementation summary'', rr_summary review,
               heading ''Implementation plan'', plan_summary (ri_plan inputs)] @
              map (\<lambda>t. ''- '' @ task_key t @ '': '' @ title t) (plan_tasks (ri_plan inputs)) @
              [heading ''Changed areas/files''] @ map (\<lambda>f. ''- `'' @ f @ ''`'') files @
              [heading ''Tests executed and results''] @
              concat (map (\<lambda>chk. map (result_line env (rte_task_key chk)) (rep_results (rte_report chk)))
                (ri_test_results inputs)) @
              [heading ''Review summary'', rr_summary review, ''No blocking findings.'', heading ''Known limitations''] @
              map (\<lambda>f. ''- '' @ rf_severity f @ '': '' @ rf_description f @ '' Recommendation: '' @ rf_recommendation f)
                (rr_findings review) @
              [''- Automated review and passing tests do not guarantee correctness; human review required.'',
               CHR 0x0A # ''Execution ID: `'' @ env_uuid_text env rid @ ''`''])
        in if 60000 < length body then Inl (publication_error ''publication_body_too_large'') else Inr body)"

section \<open>What GitHub answers\<close>

text \<open>
  \<open>str.casefold\<close> on the first 256 code points (the micro sign, which folds to a Greek letter, stays),
  and the two reads of a JSON object the code uses; reading anything else raises
  \<open>AttributeError\<close>.
\<close>

definition casefold :: "string \<Rightarrow> string" where
  "casefold s = concat (map (\<lambda>c. if c = CHR 0xDF then ''ss'' else [lower_char c]) s)"

definition get_or :: "json \<Rightarrow> string \<Rightarrow> json \<Rightarrow> exc + json" where
  "get_or v key missing = (case v of
     Json_object kvs \<Rightarrow> Inr (case map_of kvs key of None \<Rightarrow> missing | Some x \<Rightarrow> x)
   | _ \<Rightarrow> Inl AttributeFailure)"

definition is_object :: "json \<Rightarrow> bool" where
  "is_object v = (case v of Json_object _ \<Rightarrow> True | _ \<Rightarrow> False)"

definition repository_named :: "json \<Rightarrow> string \<Rightarrow> exc + bool" where
  "repository_named side expected =
     bindE (get_or side ''repo'' (Json_object [])) (\<lambda>repo.
     bindE (get_or repo ''full_name'' (Json_text [])) (\<lambda>name.
     case name of Json_text s \<Rightarrow> Inr (casefold s = casefold expected) | _ \<Rightarrow> Inl AttributeFailure))"

definition json_str :: "'x environment \<Rightarrow> json \<Rightarrow> string" where
  "json_str env v = (case v of Json_text s \<Rightarrow> s | Json_null \<Rightarrow> ''None'' | _ \<Rightarrow> env_json_text env v)"

definition contains_text :: "string \<Rightarrow> string \<Rightarrow> bool" where
  "contains_text needle s = occurs_in needle s"

definition validate_published :: "json \<Rightarrow> exc + published_pr" where
  "validate_published data = (case (json_field ''number'' data, json_field ''html_url'' data, json_field ''state'' data) of
     (Some (Json_int n), Some (Json_text u), Some (Json_text s)) \<Rightarrow>
       (if 0 < n then Inr \<lparr>ppr_number = n, ppr_html_url = u, ppr_state = s\<rparr> else Inl ValueFailure)
   | _ \<Rightarrow> Inl ValueFailure)"

definition remote_pr ::
  "'x environment \<Rightarrow> service_settings \<Rightarrow> json \<Rightarrow> publication \<Rightarrow> exc + published_pr" where
  "remote_pr env st data p =
     (let expected = pub_owner p @ ''/'' @ pub_repository p;
          collision = (Inl (publication_error ''publication_pr_collision'') :: exc + published_pr) in
      bindE (get_or data ''head'' (Json_object [])) (\<lambda>hd.
      bindE (get_or data ''base'' (Json_object [])) (\<lambda>base.
      if \<not> is_object hd \<or> \<not> is_object base \<or>
         json_field ''ref'' hd \<noteq> Some (Json_text (pub_branch p)) \<or>
         json_field ''sha'' hd \<noteq> Some (Json_text (pub_commit p)) \<or>
         json_field ''ref'' base \<noteq> Some (Json_text (pub_base p)) then collision
      else bindE (repository_named hd expected) (\<lambda>head_ok. if \<not> head_ok then collision
      else bindE (repository_named base expected) (\<lambda>base_ok. if \<not> base_ok then collision
      else bindE (get_or data ''body'' (Json_text [])) (\<lambda>body.
      if \<not> contains_text (marker env (pub_execution_id p)) (json_str env body) then collision
      else bindE (validate_published data) (\<lambda>result.
      if ppr_html_url result \<noteq>
           ''https://'' @ ss_github_git_host st @ ''/'' @ expected @ ''/pull/'' @ int_text (ppr_number result) \<or>
         ppr_state result \<notin> {''open'', ''closed''}
      then Inl (publication_error ''publication_invalid_pr'') else Inr result)))))))"

section \<open>The remote side\<close>

definition branch_sha ::
  "'x environment \<Rightarrow> publication \<Rightarrow> ('x world, string option) eff" where
  "branch_sha env p =
     catchM (bindM (external (env_branch_sha env (pub_owner p) (pub_repository p) (pub_branch p))
                (\<lambda>r. Branch_call (pub_branch p) r)) (\<lambda>sha. ret (Some sha)))
       (\<lambda>e. case e of GitHubFailure _ code_number _ \<Rightarrow> if code_number \<noteq> 404 then raise e else ret None
            | _ \<Rightarrow> raise e)"

definition open_pull_request ::
  "'x environment \<Rightarrow> publication \<Rightarrow> ('x world, json) eff" where
  "open_pull_request env p =
     bindM (external (env_find_pulls env (pub_owner p) (pub_repository p) (pub_branch p) (pub_base p))
              (\<lambda>_. Find_call (pub_branch p))) (\<lambda>existing.
     seqM (ensure (publication_error ''publication_pr_collision'') (length existing \<le> 1))
       (case existing of data # _ \<Rightarrow> ret data
        | [] \<Rightarrow> external (env_create_pull env (pub_owner p) (pub_repository p) (pub_title p) (pub_branch p)
                  (pub_base p) (pub_body p)) (\<lambda>_. Create_call (pub_branch p))))"

definition publish_remote ::
  "'x environment \<Rightarrow> service_settings \<Rightarrow> path \<Rightarrow> publication \<Rightarrow> uuid \<Rightarrow> ('x world, published_pr) eff" where
  "publish_remote env st workspace p journal_id =
     bindM (branch_sha env p) (\<lambda>remote_sha.
     seqM (ensure (publication_error ''remote_branch_collision'') (remote_sha \<in> {None, Some (pub_commit p)}))
     (seqM (if remote_sha = None then push_publication env st workspace p else ret ())
     (bindM (open_pull_request env p) (\<lambda>data.
     bindM (liftE (remote_pr env st data p)) (\<lambda>remote.
     bindM (transaction env (\<lambda>i t d. unit_result (publication_finish p journal_id remote i t d))) (\<lambda>_.
     ret remote))))))"

definition publication_error_code :: "exc \<Rightarrow> string" where
  "publication_error_code e = (case e of ServiceFailure (PublicationError c) \<Rightarrow> c
     | _ \<Rightarrow> ''publication_retry_required'')"

definition publish_failure :: "'x environment \<Rightarrow> uuid \<Rightarrow> exc \<Rightarrow> ('x world, published_pr) eff" where
  "publish_failure env journal_id e =
     seqM (catchM (transaction env (\<lambda>_ _ d. unit_result
                    (publication_failed journal_id (publication_error_code e) d)))
             (\<lambda>_. raise (publication_error ''publication_journal_unavailable_retry_required'')))
       (raise (publication_error (publication_error_code e)))"

section \<open>The publication\<close>

definition repository_word :: "string \<Rightarrow> bool" where
  "repository_word s \<longleftrightarrow> s \<noteq> [] \<and> hd s \<noteq> CHR ''.'' \<and>
     (\<forall>c \<in> set s. ascii_letter c \<or> ascii_digit c \<or> c \<in> set ''_.-'')"

definition publication_branch :: "'x environment \<Rightarrow> publication_evidence \<Rightarrow> uuid \<Rightarrow> string" where
  "publication_branch env evidence rid =
     ''ai-platform/issue-'' @ int_text (pe_issue_number evidence) @ ''-'' @ uuid_hex env rid"

definition expected_source :: "service_settings \<Rightarrow> publication_evidence \<Rightarrow> string" where
  "expected_source st evidence =
     ''https://'' @ ss_github_git_host st @ ''/'' @ pe_owner evidence @ ''/'' @ pe_repository evidence @ ''.git''"

text \<open>The checks between the evidence and the commit.\<close>

definition publication_target ::
  "'x environment \<Rightarrow> service_settings \<Rightarrow> publication_evidence \<Rightarrow> uuid \<Rightarrow> string \<Rightarrow> exc + string" where
  "publication_target env st evidence rid diff =
     (let branch = publication_branch env evidence rid in
      if diff = [] \<or> Some (env_sha env diff) \<noteq> rd_diff_hash (pe_decision evidence)
      then Inl (publication_error ''publication_workspace_changed'')
      else if contains_secret st diff then Inl (publication_error ''publication_contains_secret'')
      else if \<not> repository_word (pe_owner evidence) \<or> \<not> repository_word (pe_repository evidence)
      then Inl (publication_error ''publication_invalid_repository'')
      else if branch = pe_base evidence then Inl (publication_error ''default_branch_publication_forbidden'')
      else if pe_source evidence \<noteq> expected_source st evidence
      then Inl (publication_error ''publication_untrusted_repository_url'')
      else bindE (urlsplit (env_url_rules env) (expected_source st evidence)) (\<lambda>u.
           if fst (user_info u) \<noteq> None then Inl (publication_error ''publication_untrusted_repository_url'')
           else Inr branch))"

definition publication_of ::
  "'x environment \<Rightarrow> publication_evidence \<Rightarrow> uuid \<Rightarrow> string \<Rightarrow> string \<Rightarrow> string \<times> string \<times> string list \<Rightarrow>
    exc + publication" where
  "publication_of env evidence rid branch digest commit =
     (case commit of (parent, sha, files) \<Rightarrow>
      bindE (render_body env evidence rid files) (\<lambda>body.
      Inr \<lparr>pub_execution_id = rid, pub_review_id = pe_review_id evidence, pub_owner = pe_owner evidence,
           pub_repository = pe_repository evidence, pub_source = pe_source evidence, pub_base = pe_base evidence,
           pub_branch = branch, pub_parent = parent, pub_commit = sha, pub_diff_hash = digest,
           pub_title = take 250 (''Resolve #'' @ int_text (pe_issue_number evidence) @ '': '' @ pe_title evidence),
           pub_body = body\<rparr>))"

definition check_publication ::
  "'x environment \<Rightarrow> (evidence \<Rightarrow> string) \<Rightarrow> uuid \<Rightarrow> issue_context \<Rightarrow> repository_test_config \<Rightarrow>
    ('x world, publication_evidence) eff" where
  "check_publication env digest rid ctx required =
     transaction env (\<lambda>_ _ d. bindE (publication_check digest rid ctx required d) (\<lambda>ev. Inr (d, ev)))"

definition publication_attempt ::
  "'x environment \<Rightarrow> service_settings \<Rightarrow> (evidence \<Rightarrow> string) \<Rightarrow> uuid \<Rightarrow> issue_context \<Rightarrow>
    repository_test_config \<Rightarrow> path \<Rightarrow> ('x world \<times> unit, published_pr) eff" where
  "publication_attempt env st digest rid ctx required checkout = on_world (
     bindM (check_publication env digest rid ctx required) (\<lambda>evidence.
     bindM (current_diff env checkout) (\<lambda>diff.
     bindM (liftE (publication_target env st evidence rid diff)) (\<lambda>branch.
     bindM (prepare_publication env st checkout branch rid) (\<lambda>commit.
     bindM (liftE (publication_of env evidence rid branch (env_sha env diff) commit)) (\<lambda>p.
     seqM (ensure (publication_error ''publication_contains_secret'')
             (\<not> contains_secret st (env_publication_json env p)))
     (bindM (current_diff env checkout) (\<lambda>again.
     seqM (ensure (publication_error ''publication_workspace_changed'') (again = diff))
     (seqM (check_publication env digest rid ctx required)
     (bindM (transaction env (publication_journal p)) (\<lambda>journal_id.
      catchM (publish_remote env st checkout p journal_id) (publish_failure env journal_id))))))))))))"

definition publication_run ::
  "'x environment \<Rightarrow> service_settings \<Rightarrow> (evidence \<Rightarrow> string) \<Rightarrow> uuid \<Rightarrow> issue_context \<Rightarrow>
    repository_test_config \<Rightarrow> ('x world, published_pr) eff" where
  "publication_run env st digest rid ctx required =
     seqM (ensure (publication_error ''publication_required_command_disabled'')
             (set (required_commands required) \<subseteq> set (ss_test_allowed_commands st)))
     (scoped () (locked env st (execution_workspace env st (cr_id (cs_repository ctx)) rid)
                  (publication_attempt env st digest rid ctx required))
        (\<lambda>_ e. raise e))"


section \<open>The database and the locks\<close>

lemma publication_steps:
  assumes "others_step env"
  shows "keeps (reached_from d) (check_publication env digest rid ctx required)"
    and "keeps (reached_from d) (transaction env (publication_journal p))"
    and "keeps (reached_from d) (transaction env (\<lambda>i t d. unit_result (publication_finish p journal_id remote i t d)))"
    and "keeps (reached_from d) (transaction env (\<lambda>_ _ d. unit_result (publication_failed journal_id c d)))"
proof -
  note k = keeps_transaction [OF assms]
  show "keeps (reached_from d) (check_publication env digest rid ctx required)"
    unfolding check_publication_def by (rule k) auto
  show "keeps (reached_from d) (transaction env (publication_journal p))"
    by (rule k) (metis exec_step.step_journal)
  show "keeps (reached_from d) (transaction env (\<lambda>i t d. unit_result (publication_finish p journal_id remote i t d)))"
    by (rule k) (auto intro: exec_step.step_published)
  show "keeps (reached_from d) (transaction env (\<lambda>_ _ d. unit_result (publication_failed journal_id c d)))"
    by (rule k) (auto intro: exec_step.step_publication_failed)
qed

lemma check_publication_locks [keeps_rules]:
  "keeps (\<lambda>w. w_locks w = L) (check_publication env digest rid ctx required)"
  unfolding check_publication_def by (rule keeps_rules)

lemma keeps_missing_branch [keeps_rules]:
  "keeps I (case e of GitHubFailure c n a \<Rightarrow> if n \<noteq> 404 then raise e else ret None | _ \<Rightarrow> raise e)"
  by (cases e) (auto intro: keeps_rules)

lemma keeps_first [keeps_rules]: "keeps I m \<Longrightarrow> keeps I (case xs of [] \<Rightarrow> m | x # _ \<Rightarrow> ret x)"
  by (cases xs) (auto intro: keeps_rules)

lemmas publication_parts = publication_run_def publication_attempt_def prepare_publication_def
  prepare_commit_def publication_commit_def local_output_def publish_remote_def publish_failure_def
  branch_sha_def open_pull_request_def push_publication_def

lemma publication_run_db:
  assumes "others_step env"
  shows "keeps (reached_from d) (publication_run env st digest rid ctx required)"
  unfolding publication_parts case_prod_unfold Let_def
  by (intro keeps_rules reading_db.quiet_rules publication_steps assms)

lemma publication_run_locks: "keeps (\<lambda>w. w_locks w = L) (publication_run env st digest rid ctx required)"
  unfolding publication_parts case_prod_unfold Let_def
  by (intro keeps_rules reading_locks.quiet_rules)

end
