(* ===== verification/Example_Services.thy ===== *)
theory Example_Services
  imports Service_World Example_Run
begin

text \<open>
  A concrete environment the services run in: Git answers as for a modified, plain repository, the
  model proposes the same small patch with a different line each time, the first test fails and
  every later one passes, and GitHub knows neither branch nor pull request. Its outside state counts
  the containers started.
\<close>

definition example_root :: path where
  "example_root = [''w'']"

definition example_uuid :: string where
  "example_uuid = ''00000000-0000-0000-0000-000000000001''"

definition example_settings :: service_settings where
  "example_settings = default_settings\<lparr>ss_workspace_root := example_root, ss_max_recovery_attempts := 2,
     ss_github_token := Some ''hunter2''\<rparr>"

definition example_diff :: "char \<Rightarrow> string" where
  "example_diff c = concat (map (\<lambda>l. l @ [CHR 0x0A])
     [''diff --git a/app.py b/app.py'', ''--- a/app.py'', ''+++ b/app.py'', ''@@ -1 +1 @@'', ''-a'', ''+'' @ [c]])"

definition example_fs :: filesystem where
  "example_fs =
     \<lparr>fs_linked = (\<lambda>_. False), fs_resolve = (\<lambda>p. Some p), fs_target = (\<lambda>p. p),
      fs_status = (\<lambda>p. \<lparr>st_exists = last p \<noteq> ''alternates'', st_is_file = last p = ''app.py'',
                        st_is_dir = last p \<noteq> ''app.py'', st_size = 10\<rparr>),
      fs_walk = (\<lambda>_. Some [])\<rparr>"

definition example_git :: "string list \<Rightarrow> path \<Rightarrow> string" where
  "example_git args cwd =
     (if ''--show-toplevel'' \<in> set args then path_text cwd
      else if ''--others'' \<in> set args then []
      else if ''--name-only'' \<in> set args then (if ''config'' \<in> set args then [] else ''app.py'')
      else if ''diff'' \<in> set args then ''d''
      else if ''ls-files'' \<in> set args then ''app.py''
      else if ''write-tree'' \<in> set args then ''t2''
      else if ''HEAD^{tree}'' \<in> set args then ''t1''
      else if ''commit-tree'' \<in> set args then ''c''
      else if ''rev-parse'' \<in> set args then ''p'' else [])"

definition example_docker :: "string list \<Rightarrow> nat \<Rightarrow> command_result \<times> nat" where
  "example_docker args n =
     (\<lparr>cmr_code = 0,
       cmr_stdout = (if hd args = ''info'' then ''linux'' else if hd args = ''image'' then ''image''
         else if hd args = ''inspect'' then (if n = 1 then ''failed'' else ''passed'') else []),
       cmr_stderr = [], cmr_timed_out = False, cmr_truncated = False\<rparr>,
      if hd args = ''start'' then n + 1 else n)"

definition example_json :: "string \<Rightarrow> json option" where
  "example_json s =
     (if s = ''image'' then Some (Json_object [(''Id'', Json_text (''sha256:'' @ replicate 64 (CHR ''0''))),
        (''Os'', Json_text ''linux''), (''Config'', Json_object [])])
      else Some (Json_object [(''Status'', Json_text ''exited''), (''ExitCode'', Json_int (if s = ''failed'' then 1 else 0))]))"

definition example_usage :: token_usage where
  "example_usage = \<lparr>tu_input_tokens = Some 1, tu_output_tokens = Some 2\<rparr>"

definition example_pull :: "string \<Rightarrow> string \<Rightarrow> json" where
  "example_pull branch body =
     (let repo = Json_object [(''full_name'', Json_text ''O/n'')] in
      Json_object
        [(''head'', Json_object [(''ref'', Json_text branch), (''sha'', Json_text ''c''), (''repo'', repo)]),
         (''base'', Json_object [(''ref'', Json_text ''main''), (''repo'', repo)]),
         (''body'', Json_text body), (''number'', Json_int 5),
         (''html_url'', Json_text ''https://github.com/o/n/pull/5''), (''state'', Json_text ''open'')])"

definition example_environment :: "nat environment" where
  "example_environment =
     \<lparr>env_now = (\<lambda>n. 1000 + int n), env_uuid = (\<lambda>n. 100 + n), env_others = (\<lambda>_ d. d),
      env_uuid_text = (\<lambda>_. example_uuid), env_sha = (\<lambda>s. s), env_fs = (\<lambda>_. example_fs),
      env_variables = [(''PATH'', ''/bin'')],
      env_process = (\<lambda>args _ cwd _ n.
        (if ''show-ref'' \<in> set args then Process_exit 1 [] [] else Process_exit 0 (example_git args cwd) [], n)),
      env_decode = (\<lambda>s. s), env_coding_json = (\<lambda>_. ''c''), env_proposal_json = ccp_unified_diff,
      env_debug_json = (\<lambda>_. ''d''), env_review_input_json = (\<lambda>_. ''r''), env_review_json = rr_summary,
      env_publication_json = pub_body,
      env_propose = (\<lambda>_ n. (Inr (example_patch (example_diff (CHR ''b'')), example_usage), n)),
      env_repair = (\<lambda>_ n. (Inr (example_patch (example_diff (CHR ''c'')), example_usage), n)),
      env_review = (\<lambda>_ n. (Inr (\<lparr>rr_summary = ''good'', rr_approved = True, rr_findings = []\<rparr>, example_usage), n)),
      env_url_rules = \<lparr>bracketed_host_valid = (\<lambda>_. False), nfkc_valid = (\<lambda>_. False)\<rparr>,
      env_float_text = (\<lambda>_. ''1''), env_duration_text = (\<lambda>_. ''1''), env_json_text = (\<lambda>_. []),
      env_monotonic = int,
      env_branch_sha = (\<lambda>_ _ _ n. (Inl (GitHubFailure ''github_not_found'' 404 None), n)),
      env_find_pulls = (\<lambda>_ _ _ _ n. (Inr [], n)),
      env_create_pull = (\<lambda>_ _ _ branch _ body n. (Inr (example_pull branch body), n)),
      env_files = (\<lambda>_ n. (Inr (), n)), env_content = (\<lambda>_ _. None), env_entries = (\<lambda>_ _. []),
      env_python = ''python'', env_helper = ''askpass.py'', env_askpass = (\<lambda>_. ''askpass.sh''),
      env_docker = (\<lambda>args _ _ n. case example_docker args n of (r, m) \<Rightarrow> (Inr r, m)),
      env_json = example_json\<rparr>"

definition example_world :: "db \<Rightarrow> nat world" where
  "example_world d = \<lparr>w_db = d, w_locks = [], w_ext = 0, w_tick = 0, w_calls = []\<rparr>"

lemma example_others: "others_step example_environment"
  by (simp add: others_step_def example_environment_def)

end
