(* ===== verification/Service_Properties.thy ===== *)
theory Service_Properties
  imports Recovery_Service Review_Service Publication_Service Example_Services
begin

text \<open>
  What the services guarantee, whatever the environment answers: the database moves only along the
  transactions of the record services, locks are returned, models are asked only about checked inputs,
  a patch is applied only after Git accepted it, a report tells what the sandbox said, and repairs and
  publications respect their limits.
\<close>

section \<open>The discipline of the calls\<close>

definition apply_call :: "string \<Rightarrow> int option \<Rightarrow> call" where
  "apply_call patch n = Git_call [''apply'', ''--whitespace=nowarn'', ''-''] (Some patch) n"

definition check_call :: "string \<Rightarrow> int option \<Rightarrow> call" where
  "check_call patch n = Git_call [''apply'', ''--check'', ''--whitespace=nowarn'', ''-''] (Some patch) n"

definition applies :: "call \<Rightarrow> bool" where
  "applies c = (case c of Git_call args _ _ \<Rightarrow> args \<noteq> [] \<and> hd args = ''apply'' \<and> ''--check'' \<notin> set args | _ \<Rightarrow> False)"

definition check_of :: "call \<Rightarrow> call \<Rightarrow> bool" where
  "check_of before c \<longleftrightarrow> (\<exists>patch n names files. c = apply_call patch n \<and>
     before = check_call patch (Some 0) \<and> parse_patch (pytext patch) names = Inr files)"

text \<open>Every application follows at once a successful check of the same patch, which the parser accepted.\<close>

definition applied_after_check :: "call list \<Rightarrow> bool" where
  "applied_after_check = directly_after applies check_of"

definition guarded_input :: "'x environment \<Rightarrow> service_settings \<Rightarrow> call \<Rightarrow> bool" where
  "guarded_input env st c = (case c of
     Propose_call inputs \<Rightarrow> sendable st 100000 (env_coding_json env inputs)
   | Repair_call inputs \<Rightarrow> sendable st 200000 (env_debug_json env inputs)
   | Review_call inputs \<Rightarrow> int (length (env_review_input_json env inputs)) \<le> ss_review_max_input_chars st \<and>
       \<not> contains_secret st (env_review_input_json env inputs)
   | _ \<Rightarrow> True)"

definition disciplined :: "'x environment \<Rightarrow> service_settings \<Rightarrow> call list \<Rightarrow> bool" where
  "disciplined env st cs \<longleftrightarrow> (\<forall>c \<in> set cs. guarded_input env st c) \<and> applied_after_check cs"

lemma applied_after_check_snoc:
  "applied_after_check cs \<Longrightarrow> \<not> applies c \<Longrightarrow> applied_after_check (cs @ [c])"
  unfolding applied_after_check_def by (rule directly_after_append) simp_all

lemma applied_after_check_pair:
  assumes "applied_after_check cs" and "parse_patch (pytext patch) names = Inr files"
  shows "applied_after_check ((cs @ [check_call patch (Some 0)]) @ [apply_call patch n])"
proof -
  have "directly_after applies check_of (cs @ [check_call patch (Some 0)])"
    using applied_after_check_snoc [OF assms(1), of "check_call patch (Some 0)"]
    by (simp add: applied_after_check_def applies_def check_call_def)
  then show ?thesis
    unfolding applied_after_check_def
    by (rule directly_after_append) (use assms(2) in \<open>auto simp: check_of_def\<close>)
qed

lemma disciplined_snoc:
  "disciplined env st cs \<Longrightarrow> guarded_input env st c \<Longrightarrow> \<not> applies c \<Longrightarrow> disciplined env st (cs @ [c])"
  by (auto simp: disciplined_def intro: applied_after_check_snoc)

lemma holds_local_git:
  assumes "\<And>cs g. P cs \<Longrightarrow> Q g (cs @ [Git_call args patch (Some (gr_code g))])"
    and "\<And>cs. P cs \<Longrightarrow> R (cs @ [Git_call args patch None])"
  shows "holds (grown base P) (local_git env args workspace patch) (\<lambda>g. grown base (Q g)) (\<lambda>_. grown base R)"
proof (rule holdsI)
  fix w :: "'a world" and r t
  assume "grown base P w" and run: "local_git env args workspace patch w = (r, t)"
  then obtain cs where cs: "w_calls w = base @ cs" "P cs" by (auto simp: grown_def)
  from run have "w_calls t = base @ cs @ [Git_call args patch (case r of Inl _ \<Rightarrow> None | Inr g \<Rightarrow> Some (gr_code g))]"
    using cs by (auto simp: local_git_def external_def split: prod.splits)
  with cs assms show "case r of Inr x \<Rightarrow> grown base (Q x) t | Inl e \<Rightarrow> grown base R t"
    by (cases r) (auto simp: grown_def)
qed

lemma disciplined_apply:
  fixes env0 :: "'x environment"
  assumes "parse_patch (pytext patch) names = Inr files"
  shows "keeps (grown base (disciplined env st)) (git_apply env0 workspace patch)"
proof -
  let ?P = "disciplined env st"
  let ?Q = "\<lambda>g cs. ?P cs \<and> (gr_code g = 0 \<longrightarrow> (\<forall>n. ?P (cs @ [apply_call patch n])))"
  have pair: "?P (cs @ [check_call patch (Some 0), apply_call patch n])" if "?P cs" for cs n
    using that applied_after_check_pair [OF _ assms, of cs n]
    by (auto simp: disciplined_def guarded_input_def check_call_def apply_call_def)
  have one: "?P (cs @ [check_call patch n])" if "?P cs" for cs n
    using that by (rule disciplined_snoc) (simp_all add: guarded_input_def check_call_def applies_def)
  have checked: "holds (grown base ?P)
      (local_git env0 [''apply'', ''--check'', ''--whitespace=nowarn'', ''-''] workspace (Some patch))
      (\<lambda>g. grown base (?Q g)) (\<lambda>_. grown base ?P)"
    by (rule holds_local_git) (use one pair in \<open>auto simp: check_call_def\<close>)
  have applied: "holds (grown base (\<lambda>cs. \<forall>n. ?P (cs @ [apply_call patch n])))
      (local_git env0 [''apply'', ''--whitespace=nowarn'', ''-''] workspace (Some patch))
      (\<lambda>_. grown base ?P) (\<lambda>_. grown base ?P)"
    by (rule holds_local_git) (auto simp: apply_call_def)
  have guard: "holds (grown base (?Q g)) (ensure x (gr_code g = 0))
      (\<lambda>_. grown base (\<lambda>cs. \<forall>n. ?P (cs @ [apply_call patch n]))) (\<lambda>_. grown base ?P)" for g x
    by (rule holds_ensure) (auto elim!: grown_mono)
  show ?thesis
    unfolding git_apply_def keeps_def
    by (rule holds_bind [OF checked], rule holds_seq [OF guard], rule holds_bind [OF applied], rule holds_ensure)
qed

lemma disciplined_external:
  "(\<And>r. guarded_input env st (c r) \<and> \<not> applies (c r)) \<Longrightarrow> keeps (grown base (disciplined env st)) (external f c)"
  by (rule grown_external) (simp add: disciplined_snoc)

interpretation calls: quiet "grown base (disciplined env st)" for base env st
proof unfold_locales
  fix args :: "string list" and env0 :: "'a environment" and workspace input
  assume "hd args \<noteq> ''apply''"
  then show "keeps (grown base (disciplined env st)) (local_git env0 args workspace input)"
    unfolding local_git_def by (intro disciplined_external) (simp add: guarded_input_def applies_def)
qed (rule disciplined_apply)

lemma disciplined_asking:
  "sendable st 100000 (env_coding_json env inputs) \<Longrightarrow> keeps (grown base (disciplined env st)) (propose env inputs)"
  "sendable st 200000 (env_debug_json env attempt) \<Longrightarrow>
     keeps (grown base (disciplined env st)) (propose_repair env attempt)"
  "diff_errors st required snapshot diff diff_hash @ input_errors st (env_review_input_json env review) = [] \<Longrightarrow>
     keeps (grown base (disciplined env st)) (ask_review env review)"
  unfolding propose_def propose_repair_def ask_review_def case_prod_unfold
  by (intro keeps_rules disciplined_external;
      auto simp: guarded_input_def applies_def input_errors_def split: if_splits)+

lemma keeps_lock_calls [keeps_rules]:
  "keeps (grown base P) (acquire lock)" "keeps (grown base P) (release lock)"
  by (auto simp: keeps_iff acquire_def release_def grown_def)

lemma disciplined_sandbox:
  "keeps (grown base (disciplined env st)) (docker_execute env0 st0 request)"
  by (rule docker.sandbox_calls) (simp add: disciplined_snoc guarded_input_def applies_def)

lemma coding_run_disciplined: "keeps (grown base (disciplined env st)) (coding_run env st rid tid ctx)"
  unfolding coding_run_def coding_attempt_def coding_failure_def case_prod_unfold Let_def
  by (intro keeps_guard calls.locked_quiet keeps_rules calls.quiet_rules disciplined_asking)

lemma test_run_disciplined:
  "keeps (grown base (disciplined env st)) (test_run env st (docker_execute env st) rid tid config recovery)"
  unfolding test_run_def test_attempt_def test_one_def test_failure_def case_prod_unfold Let_def
  by (intro calls.locked_quiet keeps_rules calls.quiet_rules disciplined_sandbox)

lemma debug_once_disciplined:
  "keeps (grown base (disciplined env st)) (debug_once env st render recovery rid ctx task failed)"
  unfolding debug_once_def debug_attempt_body_def debug_failure_def case_prod_unfold Let_def
  by (intro keeps_guard calls.locked_quiet keeps_rules calls.quiet_rules disciplined_asking)

lemma recovery_run_disciplined:
  "keeps (grown base (disciplined env st))
     (recovery_run env st render (docker_execute env st) rid tid ctx config)"
  unfolding recovery_run_def recovery_body_def recovery_failure_def case_prod_unfold Let_def
  by (intro keeps_rules keeps_repair_rounds coding_run_disciplined test_run_disciplined debug_once_disciplined)

lemma review_run_disciplined:
  "keeps (grown base (disciplined env st)) (review_run env st digest rid ctx required)"
  unfolding review_run_def review_attempt_def reviewed_def review_failure_def finish_review_def
    case_prod_unfold Let_def
  by (intro keeps_guard calls.locked_quiet keeps_rules calls.quiet_rules disciplined_asking)

lemma disciplined_from_start:
  assumes "keeps (grown (w_calls w) (disciplined env st)) m"
  shows "\<exists>cs. w_calls (snd (m w)) = w_calls w @ cs \<and> list_all (guarded_input env st) cs \<and> applied_after_check cs"
proof -
  have "grown (w_calls w) (disciplined env st) w"
    by (simp add: grown_def disciplined_def applied_after_check_def)
  from keepsD [OF assms this] show ?thesis by (auto simp: grown_def disciplined_def list_all_iff)
qed

text \<open>C9. Whatever happens during a recovery or a review (with the coding, the debugging and the tests
  they contain), the models are only asked about inputs within their limit and free of the configured
  secrets, and Git applies a patch only directly after a successful check of the same text, a text the
  patch parser accepted.\<close>

theorem services_disciplined:
  "(\<exists>cs. w_calls (snd (recovery_run env st render (docker_execute env st) rid tid ctx config w)) = w_calls w @ cs \<and>
      list_all (guarded_input env st) cs \<and> applied_after_check cs) \<and>
   (\<exists>cs. w_calls (snd (review_run env st digest rid ctx required w)) = w_calls w @ cs \<and>
      list_all (guarded_input env st) cs \<and> applied_after_check cs)"
  by (intro conjI disciplined_from_start recovery_run_disciplined review_run_disciplined)


section \<open>The database and the locks\<close>

definition lawful :: "'x world \<Rightarrow> 'x world \<Rightarrow> bool" where
  "lawful w w' \<longleftrightarrow> exec_step\<^sup>*\<^sup>* (w_db w) (w_db w') \<and> platform_inv (w_db w') \<and> w_locks w' = w_locks w"

lemma lawful_run:
  assumes "keeps (reached_from (w_db w)) m" and "keeps (\<lambda>v. w_locks v = w_locks w) m"
    and "platform_inv (w_db w)"
  shows "lawful w (snd (m w))"
  using keepsD [OF assms(1), of w] keepsD [OF assms(2), of w] executions.steps_inv assms(3)
  by (auto simp: lawful_def reached_from_def)

text \<open>C17. Whatever the environment answers and whatever raises, a recovery (with its coding, tests in
  Docker and repairs), a review and a publication move the database only along the transactions of the
  record services, so that every invariant of the platform still holds after them, and they return the lock
  of the workspace. The other workers are only assumed to move along the same transactions.\<close>

theorem services_follow_records:
  assumes "others_step env" and "platform_inv (w_db w)"
  shows "lawful w (snd (recovery_run env st render (docker_execute env st) rid tid ctx config w)) \<and>
    lawful w (snd (review_run env st digest rid ctx config w)) \<and>
    lawful w (snd (publication_run env st digest rid ctx config w))"
  by (intro conjI lawful_run docker.recovery_run_db docker.recovery_run_locks review_run_db review_run_locks
      publication_run_db publication_run_locks assms)

lemma ready_platform: "platform_inv db_ready"
  by (rule executions.reach_inv [OF example_no_executions reach_ready])

theorem services_follow_records_witness:
  "others_step example_environment \<and> platform_inv (w_db (example_world db_ready)) \<and>
   lawful (example_world db_ready)
     (snd (recovery_run example_environment example_settings (\<lambda>_. [])
        (docker_execute example_environment example_settings) 10 11 example_context example_config
        (example_world db_ready))) \<and>
   lawful (example_world db_ready)
     (snd (review_run example_environment example_settings example_digest 10 example_context example_config
        (example_world db_ready))) \<and>
   lawful (example_world db_ready)
     (snd (publication_run example_environment example_settings example_digest 10 example_context example_config
        (example_world db_ready)))"
proof -
  have p: "platform_inv (w_db (example_world db_ready))"
    using ready_platform by (simp add: example_world_def)
  show ?thesis
    using services_follow_records [OF example_others p] example_others p by blast
qed

end
