(* ===== verification/Recovery_Properties.thy ===== *)
theory Recovery_Properties
  imports Recovery_Service Example_Run
begin

text \<open>
  What a returned test report and a returned recovery report say, and the limits of a recovery.
\<close>

section \<open>Test reports\<close>

text \<open>The request for a required command: its profile's image and arguments, nothing of the model's.\<close>

definition required_request :: "service_settings \<Rightarrow> path \<Rightarrow> string \<Rightarrow> sandbox_request" where
  "required_request st workspace name =
     \<lparr>sbr_workspace = workspace, sbr_image = fst (the (map_of COMMANDS name)), sbr_command = argv_of name,
      sbr_timeout = ss_sandbox_timeout_seconds st, sbr_environment = [], sbr_environment_allowlist = []\<rparr>"

text \<open>Requests the sandbox answers one after the other, with nothing in between.\<close>

fun sandbox_session :: "(sandbox_request \<Rightarrow> ('x world, sandbox_result) eff) \<Rightarrow> sandbox_request list \<Rightarrow> 'x world \<Rightarrow>
    sandbox_result list \<Rightarrow> 'x world \<Rightarrow> bool" where
  "sandbox_session run [] w xs w' \<longleftrightarrow> xs = [] \<and> w' = w"
| "sandbox_session run (q # qs) w xs w' \<longleftrightarrow>
     (\<exists>x ys u. xs = x # ys \<and> run q w = (Inr x, u) \<and> sandbox_session run qs u ys w')"

definition reports_answer :: "service_settings \<Rightarrow> string \<Rightarrow> sandbox_result \<Rightarrow> test_result \<Rightarrow> bool" where
  "reports_answer st name x r \<longleftrightarrow> tr_command r = argv_of name \<and> tr_exit_code r = sbx_exit_code x \<and>
     tr_stdout r = take (nat (ss_sandbox_output_bytes st)) (redact st (sbx_stdout x)) \<and>
     tr_stderr r = take (nat (ss_sandbox_output_bytes st)) (redact st (sbx_stderr x)) \<and>
     tr_duration r = sbx_elapsed_seconds x \<and> tr_timeout r = sbx_timed_out x \<and>
     tr_output_truncated r = sbx_output_truncated x \<and>
     (tr_passed r \<longleftrightarrow> sbx_exit_code x = Some 0 \<and> \<not> sbx_timed_out x)"

text \<open>The workspace is checked, locked and verified.\<close>

definition workspace_opened :: "'x environment \<Rightarrow> service_settings \<Rightarrow> path \<Rightarrow> 'x world \<Rightarrow> 'x world \<Rightarrow> bool" where
  "workspace_opened env st workspace w s \<longleftrightarrow> (\<exists>checkout w1 w2. checked_path env st workspace w = (Inr checkout, w1) \<and>
     acquire (lock_of checkout) w1 = (Inr (), w2) \<and> verify env checkout w2 = (Inr (), s))"

lemma test_one_Inr:
  "test_one st run_sandbox workspace item (s, l) = (Inr u, (t, l')) \<Longrightarrow>
    \<exists>x. run_sandbox (test_request st workspace item) s = (Inr x, t) \<and>
      l' = l\<lparr>rep_results := rep_results l @ [test_result_of st item x]\<rparr>"
  by (auto simp: test_one_def Let_def runs_Inr on_world_Inr locals_Inr)

lemma test_each_Inr:
  "eachM (test_one st run_sandbox workspace) commands (s, l) = (Inr u, (t, l')) \<Longrightarrow>
    \<exists>xs. sandbox_session run_sandbox (map (test_request st workspace) commands) s xs t \<and> length xs = length commands \<and>
      l' = l\<lparr>rep_results := rep_results l @ map (\<lambda>(item, x). test_result_of st item x) (zip commands xs)\<rparr>"
proof (induction commands arbitrary: s l)
  case Nil
  then show ?case by (auto simp: eachM_def pure_Inr)
next
  case (Cons item commands)
  then obtain s1 l1 where one: "test_one st run_sandbox workspace item (s, l) = (Inr (), (s1, l1))"
    and rest: "eachM (test_one st run_sandbox workspace) commands (s1, l1) = (Inr u, (t, l'))"
    by (auto simp: eachM_def runs_Inr)
  from test_one_Inr [OF one] obtain x where x: "run_sandbox (test_request st workspace item) s = (Inr x, s1)"
    "l1 = l\<lparr>rep_results := rep_results l @ [test_result_of st item x]\<rparr>" by blast
  from Cons.IH [OF rest] obtain xs where "sandbox_session run_sandbox (map (test_request st workspace) commands) s1 xs t"
    and "length xs = length commands"
    and "l' = l1\<lparr>rep_results := rep_results l1 @ map (\<lambda>(item, x). test_result_of st item x) (zip commands xs)\<rparr>" by blast
  with x show ?case by (intro exI [of _ "x # xs"]) auto
qed

lemma test_failure_raises: "test_failure env rid tid aid recovery report e s \<noteq> (Inr y, u)"
  by (simp add: test_failure_def runs_Inr)

lemma approved_tests_Inr:
  assumes "approved_tests st inputs = Inr commands"
  shows "list_all2 (\<lambda>name item. test_request st workspace item = required_request st workspace name \<and>
      at_command item = argv_of name \<and> at_image item = fst (the (map_of COMMANDS name)))
      (from_keys (required_commands (ti_configuration inputs))) commands"
    and "set (required_commands (ti_configuration inputs)) \<subseteq> set (ss_test_allowed_commands st)"
    and "list_all (\<lambda>item. at_image item \<in> fst ` set (ss_sandbox_images st)) commands"
proof -
  let ?names = "required_commands (ti_configuration inputs)"
  from assms have sel: "select_tests (ss_test_allowed_commands st) inputs = Inr commands"
    and images: "\<forall>item \<in> set commands. at_image item \<in> fst ` set (ss_sandbox_images st)"
    by (auto simp: approved_tests_def split: if_splits sum.splits)
  from sel show allowed: "set ?names \<subseteq> set (ss_test_allowed_commands st)"
    by (auto simp: select_tests_def Let_def split: if_splits)
  from sel have "list_all2 (\<lambda>name item. approved_profile name = Inr item) (from_keys ?names) commands"
    by (auto simp: select_tests_def Let_def mapE_eq_Inr split: if_splits)
  then show "list_all2 (\<lambda>name item. test_request st workspace item = required_request st workspace name \<and>
      at_command item = argv_of name \<and> at_image item = fst (the (map_of COMMANDS name))) (from_keys ?names) commands"
    by (rule list_all2_mono)
      (auto simp: approved_profile_def argv_of_def test_request_def required_request_def split: option.splits)
  show "list_all (\<lambda>item. at_image item \<in> fst ` set (ss_sandbox_images st)) commands"
    using images by (simp add: list_all_iff)
qed

text \<open>What a returned report says, and of which run of the sandbox.\<close>

definition reported_run ::
  "'x environment \<Rightarrow> service_settings \<Rightarrow> (sandbox_request \<Rightarrow> ('x world, sandbox_result) eff) \<Rightarrow> uuid \<Rightarrow> uuid \<Rightarrow>
    repository_test_config \<Rightarrow> uuid option \<Rightarrow> test_report \<Rightarrow> 'x world \<Rightarrow> 'x world \<Rightarrow> bool" where
  "reported_run env st run_sandbox rid tid config recovery report w w' \<longleftrightarrow>
     (\<exists>aid inputs workspace w1 s answers t diff v v'. let names = from_keys (required_commands config) in
        transaction env (test_start rid tid config recovery) w = (Inr (aid, inputs), w1) \<and>
        workspace = execution_workspace env st (cr_id (ti_repository inputs)) rid \<and>
        workspace_opened env st workspace w1 s \<and>
        sandbox_session run_sandbox (map (required_request st workspace) names) s answers t \<and>
        length answers = length names \<and>
        list_all2 (\<lambda>(name, x) r. reports_answer st name x r) (zip names answers) (rep_results report) \<and>
        current_diff env workspace t = (Inr diff, v) \<and>
        transaction env (\<lambda>_ now d. unit_result (test_finish rid tid aid report None recovery (Some (env_sha env diff)) now d)) v =
          (Inr (), v') \<and> w_db w' = w_db v')"

lemma session_requests:
  "sandbox_session run qs w xs w' \<Longrightarrow> length xs = length qs"
  by (induction qs arbitrary: w xs) auto

lemma results_reported:
  assumes "list_all2 (\<lambda>name item. at_command item = argv_of name) names commands" and "length xs = length commands"
  shows "list_all2 (\<lambda>(name, x) r. reports_answer st name x r) (zip names xs)
    (map (\<lambda>(item, x). test_result_of st item x) (zip commands xs))"
  using assms
proof (induction arbitrary: xs rule: list_all2_induct)
  case (Cons name names item commands)
  then show ?case
    by (cases xs) (auto simp: reports_answer_def test_result_of_def redact_output_def)
qed simp

lemma test_run_report:
  assumes "test_run env st run_sandbox rid tid config recovery w = (Inr report, w')"
  shows "reported_run env st run_sandbox rid tid config recovery report w w'"
    and "rep_passed report = all_passed (rep_results report)"
    and "set (required_commands config) \<subseteq> set (ss_test_allowed_commands st)"
    and "fst ` the ` map_of COMMANDS ` set (required_commands config) \<subseteq> fst ` set (ss_sandbox_images st)"
proof -
  from assms obtain aid inputs w1 where start: "transaction env (test_start rid tid config recovery) w = (Inr (aid, inputs), w1)"
    and body: "scoped \<lparr>rep_results = [], rep_passed = False\<rparr>
       (test_attempt env st run_sandbox rid tid aid inputs recovery
          (execution_workspace env st (cr_id (ti_repository inputs)) rid))
       (test_failure env rid tid aid recovery) w1 = (Inr report, w')"
    by (auto simp: test_run_def bindM_Inr)
  let ?workspace = "execution_workspace env st (cr_id (ti_repository inputs)) rid"
  let ?names = "from_keys (required_commands config)"
  from start obtain i t0 d d' where "test_start rid tid config recovery i t0 d = Inr (d', aid, inputs)"
    by (rule transaction_Inr) (rule that)
  then have config: "ti_configuration inputs = config" by (rule test_start_Inr) simp
  from scoped_Inr [OF body test_failure_raises] obtain l' where
    "test_attempt env st run_sandbox rid tid aid inputs recovery ?workspace (w1, \<lparr>rep_results = [], rep_passed = False\<rparr>) =
       (Inr report, (w', l'))" .
  then obtain commands where ok: "approved_tests st inputs = Inr commands"
    and l: "report = l'"
    and lock: "locked env st ?workspace (\<lambda>_. seqM (eachM (test_one st run_sandbox ?workspace) commands)
       (seqM (assign (\<lambda>report. report\<lparr>rep_passed := all_passed (rep_results report)\<rparr>))
       (bindM (on_world (current_diff env ?workspace)) (\<lambda>diff.
        bindM (local_value id) (\<lambda>report.
        on_world (transaction env (\<lambda>_ t d. unit_result (test_finish rid tid aid report None recovery
          (Some (env_sha env diff)) t d))))))))
       (w1, \<lparr>rep_results = [], rep_passed = False\<rparr>) = (Inr (), (w', l'))"
    unfolding test_attempt_def by (auto simp: runs_Inr locals_Inr)
  from lock obtain checkout w2 w3 s t l1 diff v v' where
    opened: "checked_path env st ?workspace w1 = (Inr checkout, w2)" "acquire (lock_of checkout) w2 = (Inr (), w3)"
      "verify env checkout w3 = (Inr (), s)"
    and each: "eachM (test_one st run_sandbox ?workspace) commands (s, \<lparr>rep_results = [], rep_passed = False\<rparr>) = (Inr (), (t, l1))"
    and fin: "l' = l1\<lparr>rep_passed := all_passed (rep_results l1)\<rparr>"
    and diff: "current_diff env ?workspace t = (Inr diff, v)"
    and finish: "transaction env (\<lambda>_ now d. unit_result (test_finish rid tid aid l' None recovery (Some (env_sha env diff)) now d)) v =
          (Inr (), v')"
    and "release (lock_of checkout) v' = (Inr (), w')"
    unfolding locked_def by (auto simp: runs_Inr on_world_Inr locals_Inr)
  then have db: "w_db w' = w_db v'" by (auto simp: release_def split: if_splits)
  from test_each_Inr [OF each] obtain xs where
    session: "sandbox_session run_sandbox (map (test_request st ?workspace) commands) s xs t"
    and many: "length xs = length commands"
    and l1: "rep_results l1 = map (\<lambda>(item, x). test_result_of st item x) (zip commands xs)" by auto
  note approved = approved_tests_Inr(1) [OF ok, unfolded config, of ?workspace] approved_tests_Inr(2,3) [OF ok, unfolded config]
  have requests: "map (test_request st ?workspace) commands = map (required_request st ?workspace) ?names"
    using approved(1) by (induction rule: list_all2_induct) simp_all
  have "list_all2 (\<lambda>(name, x) r. reports_answer st name x r) (zip ?names xs) (rep_results report)"
    unfolding l fin using results_reported [OF list_all2_mono [OF approved(1)] many] by (simp add: l1)
  moreover have "length xs = length ?names"
    using approved(1) many by (simp add: list_all2_lengthD)
  ultimately show "reported_run env st run_sandbox rid tid config recovery report w w'"
    unfolding reported_run_def Let_def using start session [unfolded requests] opened diff finish db l
    by (intro exI conjI) (auto simp: workspace_opened_def)
  show "rep_passed report = all_passed (rep_results report)" by (simp add: l fin)
  show "set (required_commands config) \<subseteq> set (ss_test_allowed_commands st)" by (rule approved(2))
  have same: "set (map at_image commands) = set (map (\<lambda>name. fst (the (map_of COMMANDS name))) ?names)"
  proof -
    have "map at_image commands = map (\<lambda>name. fst (the (map_of COMMANDS name))) ?names"
      using approved(1) by (induction rule: list_all2_induct) simp_all
    then show ?thesis by simp
  qed
  have "set (map at_image commands) \<subseteq> fst ` set (ss_sandbox_images st)"
    using approved(3) by (auto simp: list_all_iff)
  then show "fst ` the ` map_of COMMANDS ` set (required_commands config) \<subseteq> fst ` set (ss_sandbox_images st)"
    unfolding same by (simp add: image_image)
qed

text \<open>C34. A test report that is returned is the sandbox's word. After the test run was recorded and the
  workspace opened, the sandbox was asked for each required command once, in order, with the image and the fixed
  arguments of its profile, the configured timeout and no variables, all of them allowed by the policy and
  their images configured; and each result carries what the sandbox answered to that request: exit
  code, timeout, duration, the outputs redacted and cut off. A result counts as passed exactly when the
  command exited with 0 in time, the report exactly when there are results and all of them passed, and
  this report was recorded with the hash of the diff of the workspace after the tests.\<close>

theorem test_report_faithful:
  "case test_run env st run_sandbox rid tid config recovery w of
     (Inr report, w') \<Rightarrow>
       reported_run env st run_sandbox rid tid config recovery report w w' \<and>
       (rep_passed report \<longleftrightarrow> rep_results report \<noteq> [] \<and> list_all tr_passed (rep_results report)) \<and>
       set (required_commands config) \<subseteq> set (ss_test_allowed_commands st) \<and>
       fst ` the ` map_of COMMANDS ` set (required_commands config) \<subseteq> fst ` set (ss_sandbox_images st)
   | (Inl _, _) \<Rightarrow> True"
proof (cases "test_run env st run_sandbox rid tid config recovery w")
  case (Pair r w')
  show ?thesis
  proof (cases r)
    case (Inr report)
    with Pair have "test_run env st run_sandbox rid tid config recovery w = (Inr report, w')" by simp
    from test_run_report [OF this] show ?thesis unfolding Pair Inr by (simp add: all_passed_def list_all_iff)
  qed (simp add: Pair)
qed

section \<open>The limits of a recovery\<close>

definition report_shape :: "nat \<Rightarrow> recovery_report \<Rightarrow> bool" where
  "report_shape limit report \<longleftrightarrow> rcr_debug_attempts report \<le> limit \<and> rcr_tests report \<noteq> [] \<and>
     length (rcr_tests report) \<le> Suc (rcr_debug_attempts report) \<and>
     list_all (\<lambda>t. \<not> rep_passed t) (butlast (rcr_tests report))"

lemma repair_rounds_shape:
  "repair_rounds repair retest n report s = (Inr final, t) \<Longrightarrow> report_shape m report \<Longrightarrow>
    report_shape (m + n) final \<and>
    (rep_passed (last (rcr_tests final)) \<or> rcr_debug_attempts final = rcr_debug_attempts report + n)"
proof (induction n arbitrary: m report s)
  case 0
  then show ?case by (auto simp: pure_Inr)
next
  case (Suc n)
  show ?case
  proof (cases "rep_passed (last (rcr_tests report))")
    case True
    with Suc.prems show ?thesis by (auto simp: pure_Inr report_shape_def)
  next
    case False
    let ?r1 = "report\<lparr>rcr_debug_attempts := rcr_debug_attempts report + 1\<rparr>"
    from False Suc.prems(1) obtain applied u where
      "(if applied then bindM retest (\<lambda>r. repair_rounds repair retest n (?r1\<lparr>rcr_tests := rcr_tests ?r1 @ [r]\<rparr>))
        else repair_rounds repair retest n ?r1) u = (Inr final, t)"
      by (simp only: repair_rounds.simps if_False bindM_Inr Let_def) blast
    then obtain r2 v where go: "repair_rounds repair retest n r2 v = (Inr final, t)"
      and r2: "r2 = ?r1 \<or> (\<exists>r. r2 = ?r1\<lparr>rcr_tests := rcr_tests ?r1 @ [r]\<rparr>)"
      by (cases applied) (auto simp: bindM_Inr)
    have split: "butlast (xs @ [x]) = butlast xs @ (if xs = [] then [] else [last xs])" for xs and x :: test_report
      by simp
    from r2 Suc.prems(2) False have "report_shape (Suc m) r2"
      and count: "rcr_debug_attempts r2 = Suc (rcr_debug_attempts report)"
      by (auto simp: report_shape_def list_all_iff) (metis append_butlast_last_id Un_iff empty_iff
          insert_iff list.set set_append)+
    from Suc.IH [OF go this(1)] count show ?thesis by simp
  qed
qed

lemma debug_rounds_report:
  assumes "recovery_run env st render run_sandbox rid tid ctx config w = (Inr report, w')"
  shows "report_shape (nat (ss_max_recovery_attempts st)) report"
    and "rcr_passed report = rep_passed (last (rcr_tests report))"
    and "rcr_error report = (if rcr_passed report then None else Some ''debug_attempts_exhausted'')"
    and "rcr_passed report \<or> rcr_debug_attempts report = nat (ss_max_recovery_attempts st)"
proof -
  have raises: "recovery_failure env recovery e s \<noteq> (Inr y, u)" for recovery e s y u
    by (simp add: recovery_failure_def runs_Inr)
  from assms obtain recovery task coding w1 where
    "recovery_body env st render run_sandbox rid tid ctx config recovery task coding w1 = (Inr report, w')"
    by (auto simp: recovery_run_def bindM_Inr catchM_Inr [OF raises])
  then obtain initial report0 s u where
    rounds: "repair_rounds (debug_once env st render recovery rid ctx task)
       (test_run env st run_sandbox rid tid config (Some recovery)) (nat (ss_max_recovery_attempts st))
       \<lparr>rcr_passed = False, rcr_debug_attempts = 0, rcr_tests = [initial], rcr_error = None\<rparr> s = (Inr report0, u)"
    and close: "report = close_report report0"
    by (auto simp: recovery_body_def runs_Inr Let_def)
  have "report_shape 0 \<lparr>rcr_passed = False, rcr_debug_attempts = 0, rcr_tests = [initial], rcr_error = None\<rparr>"
    by (simp add: report_shape_def)
  from repair_rounds_shape [OF rounds this] close
  show "report_shape (nat (ss_max_recovery_attempts st)) report"
    and "rcr_passed report = rep_passed (last (rcr_tests report))"
    and "rcr_error report = (if rcr_passed report then None else Some ''debug_attempts_exhausted'')"
    and "rcr_passed report \<or> rcr_debug_attempts report = nat (ss_max_recovery_attempts st)"
    by (auto simp: close_report_def Let_def report_shape_def)
qed

text \<open>C33. A recovery stops in time and stops only for a reason. Its report counts at most the configured
  number of repairs and at most one test run more than repairs; no test run followed a passed one; the
  report is passed exactly when its last test run is, it carries the error for exhausted attempts exactly
  otherwise, and then every allowed attempt has been used.\<close>

theorem recovery_bounded:
  "case recovery_run env st render run_sandbox rid tid ctx config w of
     (Inr report, _) \<Rightarrow> report_shape (nat (ss_max_recovery_attempts st)) report \<and>
       rcr_passed report = rep_passed (last (rcr_tests report)) \<and>
       rcr_error report = (if rcr_passed report then None else Some ''debug_attempts_exhausted'') \<and>
       (rcr_passed report \<or> rcr_debug_attempts report = nat (ss_max_recovery_attempts st))
   | (Inl _, _) \<Rightarrow> True"
  by (auto dest: debug_rounds_report split: prod.split sum.split)

end
