(* ===== verification/Publication_Properties.thy ===== *)
theory Publication_Properties
  imports Publication_Service
begin

text \<open>
  When the publication may change the remote repository: the push of a reviewed commit comes directly
  after GitHub has said that its branch does not exist.
\<close>

section \<open>Pushes\<close>

definition pushes :: "call \<Rightarrow> bool" where
  "pushes c = (case c of Remote_call args _ _ \<Rightarrow> args \<noteq> [] \<and> hd args = ''push'' | _ \<Rightarrow> False)"

definition publishable :: "'x environment \<Rightarrow> service_settings \<Rightarrow> publication \<Rightarrow> bool" where
  "publishable env st p \<longleftrightarrow> pub_branch p \<noteq> pub_base p \<and>
     repository_word (pub_owner p) \<and> repository_word (pub_repository p) \<and>
     pub_source p = ''https://'' @ ss_github_git_host st @ ''/'' @ pub_owner p @ ''/'' @ pub_repository p @ ''.git'' \<and>
     \<not> contains_secret st (env_publication_json env p)"

definition push_allowed :: "'x environment \<Rightarrow> service_settings \<Rightarrow> call \<Rightarrow> call \<Rightarrow> bool" where
  "push_allowed env st before c \<longleftrightarrow> (\<exists>p e after. publishable env st p \<and> or_empty (ss_github_token st) \<noteq> [] \<and>
     c = Remote_call (push_arguments p) (ss_github_token st) False \<and>
     before = Branch_call (pub_branch p) (Inl (GitHubFailure e 404 after)))"

definition pushes_guarded :: "'x environment \<Rightarrow> service_settings \<Rightarrow> call list \<Rightarrow> bool" where
  "pushes_guarded env st = directly_after pushes (push_allowed env st)"

lemma guarded_snoc: "pushes_guarded env st cs \<Longrightarrow> \<not> pushes c \<Longrightarrow> pushes_guarded env st (cs @ [c])"
  unfolding pushes_guarded_def by (rule directly_after_append) simp_all

lemma guarded_external:
  "(\<And>r. \<not> pushes (c r)) \<Longrightarrow> keeps (grown base (pushes_guarded env st)) (external f c)"
  by (rule grown_external) (simp add: guarded_snoc)

interpretation pushing: quiet "grown base (pushes_guarded env st)" for base env st
proof unfold_locales
  have git: "keeps (grown base (pushes_guarded env st)) (local_git env0 args workspace input)"
    for env0 :: "'a environment" and args workspace input
    unfolding local_git_def by (rule guarded_external) (simp add: pushes_def)
  then show "keeps (grown base (pushes_guarded env st)) (local_git env0 args workspace input)"
    for env0 :: "'a environment" and args workspace input .
  show "keeps (grown base (pushes_guarded env st)) (git_apply env0 workspace patch)"
    for env0 :: "'a environment" and workspace patch
    by (rule git_apply_steps) (rule git)
qed

lemma guarded_calls:
  "keeps (grown base (pushes_guarded env st)) (files_call env0 action)"
  "keeps (grown base (pushes_guarded env st)) (open_pull_request env0 p)"
  "keeps (grown base (pushes_guarded env st)) (acquire lock)"
  "keeps (grown base (pushes_guarded env st)) (release lock)"
  "keeps (grown base (pushes_guarded env st)) (local_git env0 args workspace input)"
proof -
  show "keeps (grown base (pushes_guarded env st)) (files_call env0 action)"
    unfolding files_call_def by (rule guarded_external) (simp add: pushes_def)
  show "keeps (grown base (pushes_guarded env st)) (open_pull_request env0 p)"
    unfolding open_pull_request_def by (intro keeps_rules guarded_external) (simp_all add: pushes_def)
  show "keeps (grown base (pushes_guarded env st)) (acquire lock)" "keeps (grown base (pushes_guarded env st)) (release lock)"
    by (auto simp: keeps_iff acquire_def release_def grown_def)
  show "keeps (grown base (pushes_guarded env st)) (local_git env0 args workspace input)"
    unfolding local_git_def by (rule guarded_external) (simp add: pushes_def)
qed

section \<open>The remote side\<close>

definition asked :: "'x environment \<Rightarrow> service_settings \<Rightarrow> publication \<Rightarrow> call list \<Rightarrow> bool" where
  "asked env st p cs \<longleftrightarrow> pushes_guarded env st cs \<and> cs \<noteq> [] \<and>
     (\<exists>e after. last cs = Branch_call (pub_branch p) (Inl (GitHubFailure e 404 after)))"

lemma branch_sha_log:
  "holds (grown base (pushes_guarded env st)) (branch_sha env p)
     (\<lambda>r. grown base (\<lambda>cs. pushes_guarded env st cs \<and> (r = None \<longrightarrow> asked env st p cs)))
     (\<lambda>_. grown base (pushes_guarded env st))"
proof (rule holdsI)
  fix w :: "'a world" and r t
  assume "grown base (pushes_guarded env st) w" and run: "branch_sha env p w = (r, t)"
  then obtain cs where cs: "w_calls w = base @ cs" "pushes_guarded env st cs" by (auto simp: grown_def)
  obtain a x where ext: "env_branch_sha env (pub_owner p) (pub_repository p) (pub_branch p) (w_ext w) = (a, x)"
    by fastforce
  let ?c = "Branch_call (pub_branch p) a"
  have g: "pushes_guarded env st (cs @ [?c])" using cs(2) by (rule guarded_snoc) (simp add: pushes_def)
  from run ext cs have "w_calls t = base @ cs @ [?c]" and
    r: "r = Inr None \<Longrightarrow> \<exists>e after. a = Inl (GitHubFailure e 404 after)"
    by (auto simp: branch_sha_def catchM_def bindM_def external_def ret_def raise_def
        split: sum.splits exc.splits if_splits)
  with g show "case r of Inr x \<Rightarrow> grown base (\<lambda>cs. pushes_guarded env st cs \<and> (x = None \<longrightarrow> asked env st p cs)) t
      | Inl e \<Rightarrow> grown base (pushes_guarded env st) t"
    by (cases r) (auto simp: grown_def asked_def)
qed

lemma push_log:
  fixes env :: "'a environment"
  assumes "publishable env st p"
  shows "holds (grown base (asked env st p)) (push_publication env st workspace p)
     (\<lambda>_. grown base (pushes_guarded env st)) (\<lambda>_. grown base (pushes_guarded env st))"
proof -
  let ?A = "grown base (asked env st p) :: 'a world \<Rightarrow> bool"
  let ?P = "grown base (pushes_guarded env st) :: 'a world \<Rightarrow> bool"
  have weaker: "?A w \<Longrightarrow> ?P w" for w :: "'a world"
    by (erule grown_mono) (simp add: asked_def)
  have kind: "holds ?A (source_kind env wc source) (\<lambda>_. ?A) (\<lambda>_. ?P)" for wc source
    using keeps_source_kind [of ?A env wc source, unfolded keeps_def]
    by (rule holds_conseq) (auto intro: weaker)
  have push: "holds ?A (remote_git env (push_arguments p) workspace (ss_github_token st) False) (\<lambda>_. ?P) (\<lambda>_. ?P)"
    if token: "or_empty (ss_github_token st) \<noteq> []"
  proof (rule holdsI)
    fix w :: "'a world" and r t
    assume "?A w" and run: "remote_git env (push_arguments p) workspace (ss_github_token st) False w = (r, t)"
    then obtain cs where cs: "w_calls w = base @ cs" "asked env st p cs" by (auto simp: grown_def)
    let ?c = "Remote_call (push_arguments p) (ss_github_token st) False"
    from cs(2) assms token have "pushes_guarded env st (cs @ [?c])"
      unfolding pushes_guarded_def asked_def
      by (intro directly_after_append) (auto simp: push_allowed_def)
    moreover from run cs(1) have "w_calls t = base @ cs @ [?c]"
      by (auto simp: remote_git_def external_def split: prod.splits)
    ultimately have "?P t" by (auto simp: grown_def)
    then show "case r of Inr x \<Rightarrow> ?P t | Inl e \<Rightarrow> ?P t" by (cases r) simp_all
  qed
  have last: "holds ?A (ensure e (or_empty (ss_github_token st) \<noteq> [])) (\<lambda>_. ?A) (\<lambda>_. ?P)" for e
    by (rule holds_ensure) (auto intro: weaker)
  have first: "holds ?A (ensure e b) (\<lambda>_. ?A) (\<lambda>_. ?P)" for e b
    by (rule holds_ensure) (auto intro: weaker)
  show ?thesis
  proof (cases "or_empty (ss_github_token st) \<noteq> []")
    case True
    have "holds ?A (bindM (remote_git env (push_arguments p) workspace (ss_github_token st) False) (\<lambda>_. ret ()))
        (\<lambda>_. ?P) (\<lambda>_. ?P)"
      by (rule holds_bind [OF push [OF True]]) (rule holds_ret)
    then show ?thesis
      unfolding push_publication_def
      by (rule holds_seq [OF first holds_seq [OF last holds_seq [OF kind]]])
  next
    case False
    then have "holds ?A (seqM (ensure e (or_empty (ss_github_token st) \<noteq> [])) m) (\<lambda>_. ?P) (\<lambda>_. ?P)"
      for e and m :: "('a world, unit) eff"
      by (auto simp: holds_def seqM_def bindM_def ensure_def raise_def intro: weaker)
    then show ?thesis
      unfolding push_publication_def by (rule holds_seq [OF first])
  qed
qed

lemma publish_remote_log:
  assumes "publishable env st p"
  shows "keeps (grown base (pushes_guarded env st)) (publish_remote env st workspace p journal_id)"
proof -
  let ?P = "grown base (pushes_guarded env st)"
  let ?Q = "\<lambda>r. grown base (\<lambda>cs. pushes_guarded env st cs \<and> (r = None \<longrightarrow> asked env st p cs))"
  have guard: "holds (?Q r) (ensure e b) (\<lambda>_. ?Q r) (\<lambda>_. ?P)" for r e b
    by (rule holds_ensure) (auto elim: grown_mono)
  have push: "holds (?Q r) (if r = None then push_publication env st workspace p else ret ()) (\<lambda>_. ?P) (\<lambda>_. ?P)" for r
    by (cases r) (auto intro!: holds_conseq [OF push_log [OF assms]] elim: grown_mono)
  have rest: "holds ?P (bindM (open_pull_request env p) (\<lambda>data. bindM (liftE (remote_pr env st data p)) (\<lambda>remote.
      bindM (transaction env (\<lambda>i t d. unit_result (publication_finish p journal_id remote i t d))) (\<lambda>_. ret remote))))
      (\<lambda>_. ?P) (\<lambda>_. ?P)"
    unfolding keeps_def [symmetric] by (intro keeps_rules guarded_calls)
  show ?thesis
    unfolding publish_remote_def keeps_def
    by (rule holds_bind [OF branch_sha_log], rule holds_seq [OF guard holds_seq [OF push rest]])
qed

section \<open>The publication\<close>

lemma publication_target_publishable:
  assumes "publication_target env st evidence rid diff = Inr branch"
    and "publication_of env evidence rid branch digest commit = Inr p"
    and "\<not> contains_secret st (env_publication_json env p)"
  shows "publishable env st p"
  using assms
  by (auto simp: publication_target_def publication_of_def publishable_def Let_def expected_source_def
      split: if_splits prod.splits)

lemma publication_run_guarded:
  "keeps (grown base (pushes_guarded env st)) (publication_run env st digest rid ctx required)"
  unfolding publication_run_def publication_attempt_def prepare_publication_def prepare_commit_def
    publication_commit_def local_output_def publish_failure_def check_publication_def case_prod_unfold Let_def
  by (intro keeps_guard keeps_lift pushing.locked_quiet keeps_rules pushing.quiet_rules guarded_calls
      publish_remote_log publication_target_publishable)


end
