(* ===== verification/Workspace_Properties.thy ===== *)
theory Workspace_Properties
  imports Workspace_Service
begin

text \<open>
  What a synchronisation leaves behind: the state of the repository in the database and the lock of
  its checkout.
\<close>

definition synced :: "uuid \<Rightarrow> db \<Rightarrow> bool" where
  "synced repository d \<longleftrightarrow> (\<exists>r. fetch repo_id repository (db_repositories d) = Some r \<and>
     repo_local_status r = ''ready'' \<and> repo_index_status r = ''pending'' \<and> repo_embedding_status r = ''pending'')"

section \<open>Locks\<close>

lemma keeps_safe [keeps_rules]:
  "keeps I (safe env wc p)" "keeps I (path_exists env p)" "keeps I (repository_path env wc repository)"
  unfolding safe_def path_exists_def repository_path_def by (intro keeps_rules)+

lemma keeps_session_locks [keeps_rules]: "keeps (\<lambda>w. w_locks w = L) (session env op)"
  by (auto simp: keeps_iff session_def Let_def split: sum.splits)

lemma keeps_verify_checkout [keeps_rules]: "keeps (\<lambda>w. w_locks w = L) (verify_checkout env wc p)"
  unfolding verify_checkout_def by (intro keeps_rules)

lemma keeps_reset_checkout [keeps_rules]: "keeps (\<lambda>w. w_locks w = L) (reset_checkout env wc p revision)"
  unfolding reset_checkout_def by (intro keeps_rules)

lemma prepare_body_locks:
  assumes "\<And>status. keeps (\<lambda>w. w_locks w = L) (on_status status)"
  shows "keeps (\<lambda>w. w_locks w = L) (prepare_body env wc repository source branch on_status)"
  unfolding prepare_body_def fetch_checkout_def clone_checkout_def Let_def by (intro keeps_rules assms)

lemma initialize_locks: "keeps (\<lambda>w. w_locks w = L) (initialize env wc)"
  unfolding initialize_def by (intro keeps_rules)

text \<open>
  The lock goes whatever the body does, unless the path of the lock file has become unsafe in the
  meantime; then the file stays and the error says so.
\<close>

lemma with_lock_locks:
  assumes "\<And>L. keeps (\<lambda>w. w_locks w = L) body"
  shows "holds (\<lambda>w. w_locks w = L) (with_lock env wc repository body) (\<lambda>_ w. w_locks w = L)
     (\<lambda>e w. w_locks w = L \<or> e = WorkspaceFailure ''unsafe_workspace_path'')"
proof -
  let ?P = "\<lambda>w :: 'a world. w_locks w = L"
  let ?R = "\<lambda>e (w :: 'a world). w_locks w = L \<or> e = WorkspaceFailure ''unsafe_workspace_path''"
  have kept: "holds ?P m (\<lambda>_. ?P) ?R" if "keeps ?P m" for m :: "('a world, 'b) eff"
    using that unfolding keeps_def by (rule holds_conseq) simp_all
  have kept': "holds ?P m (\<lambda>_. ?P) ?R" if "keeps ?P m" for m :: "('a world, unit) eff"
    using that unfolding keeps_def by (rule holds_conseq) simp_all
  have kept'': "holds ?P m (\<lambda>_. ?P) ?R" if "keeps ?P m" for m :: "('a world, path) eff"
    using that unfolding keeps_def by (rule holds_conseq) simp_all
  have taken: "holds ?P (lock_repository p) (\<lambda>_ w. w_locks w = p # L) ?R" for p
    by (auto simp: holds_def lock_repository_def)
  have checked: "holds (\<lambda>w. w_locks w = p # L) (safe env wc p) (\<lambda>_ w. w_locks w = p # L)
      (\<lambda>e _. e = WorkspaceFailure ''unsafe_workspace_path'')" for p
    by (auto simp: holds_def safe_def bindM_def seqM_def in_files_def asks_def ensure_def raise_def ret_def)
  have given_back: "holds (\<lambda>w. w_locks w = p # L) (seqM (safe env wc p) (release p)) (\<lambda>_. ?P) ?R" for p
    by (rule holds_seq [where P' = "\<lambda>w. w_locks w = p # L"], rule holds_conseq [OF checked])
      (auto simp: holds_def release_def)
  have given_back': "holds (\<lambda>w. w_locks w = p # L) (seqM (safe env wc p) (release p)) (\<lambda>_. ?R e) ?R" for p e
    using given_back by (rule holds_conseq) auto
  have held: "holds (\<lambda>w. w_locks w = p # L) body (\<lambda>_ w. w_locks w = p # L) (\<lambda>_ w. w_locks w = p # L)" for p
    using assms unfolding keeps_def .
  show ?thesis
    unfolding with_lock_def
    by (rule holds_seq [OF kept' [OF initialize_locks]], rule holds_bind [OF kept'' [OF keeps_safe(1)]],
        rule holds_seq [OF kept' [OF keeps_files_call(2)]], rule holds_bind [OF kept'' [OF keeps_safe(1)]],
        rule holds_seq [OF taken], rule holds_finally [OF held given_back given_back'])
qed

section \<open>The state of the repository\<close>

lemma keeps_synced:
  "keeps (\<lambda>w. synced i (w_db w)) (release p)"
  by (auto simp: keeps_iff release_def)

lemma session_ready:
  "holds (\<lambda>_. True) (session env (\<lambda>d. bindE (set_sync_status i ''ready'' d) (\<lambda>d'. Inr (d', ()))))
     (\<lambda>_ w. synced i (w_db w)) (\<lambda>_ _. True)"
  by (auto simp: holds_def session_def Let_def set_sync_status_def synced_def fetch_put dest!: fetch_SomeD
      split: option.splits sum.splits)

lemma with_lock_db:
  assumes "\<And>s t. body s = (Inr x, t) \<Longrightarrow> P (w_db t)"
    and "with_lock env wc repository body w = (Inr x, w')"
  shows "P (w_db w')"
  using assms(2) unfolding with_lock_def
  by (auto simp: runs_Inr safe_def in_files_def release_def split: if_splits dest!: assms(1))

lemma prepare_synced:
  assumes "prepare_registered_repository env wc i w = (Inr x, w')"
  shows "synced i (w_db w')"
proof -
  let ?status = "\<lambda>progress. session env (\<lambda>d. bindE (set_sync_status i progress d) (\<lambda>d'. Inr (d', ())))"
  have body: "synced i (w_db t)" if "prepare_body env wc i source branch ?status s = (Inr y, t)" for source branch s y t
    using that unfolding prepare_body_def Let_def
    by (auto simp: runs_Inr dest!: holds_InrD [OF session_ready TrueI])
  from assms obtain source branch w1 where
    "with_lock env wc i (catchM (prepare_body env wc i source branch ?status)
       (\<lambda>e. seqM (?status ''error'') (raise e))) w1 = (Inr x, w')"
    by (auto simp: prepare_registered_repository_def prepare_workspace_def bindM_Inr)
  then show ?thesis
    by (rule with_lock_db [where P = "synced i", rotated]) (auto simp: catchM_Inr runs_Inr intro: body)
qed

text \<open>C39. A synchronisation that returns has left the repository registered as ready, with its index and
  embeddings to be built anew, whatever other workers committed before its last transaction, and has
  returned the lock of the checkout. One that fails has returned the lock too, unless the path of the lock
  file itself has become unsafe.\<close>

theorem sync_outcome:
  "case prepare_registered_repository env wc i w of
     (Inr _, w') \<Rightarrow> synced i (w_db w') \<and> w_locks w' = w_locks w
   | (Inl e, w') \<Rightarrow> w_locks w' = w_locks w \<or> e = WorkspaceFailure ''unsafe_workspace_path''"
proof -
  let ?P = "\<lambda>v :: 'a world. w_locks v = w_locks w"
  have prepared: "holds ?P (prepare_workspace env wc i source branch (\<lambda>progress.
      session env (\<lambda>d. bindE (set_sync_status i progress d) (\<lambda>d'. Inr (d', ())))))
      (\<lambda>_. ?P) (\<lambda>e v. ?P v \<or> e = WorkspaceFailure ''unsafe_workspace_path'')" for source branch
    unfolding prepare_workspace_def
    by (rule with_lock_locks) (intro keeps_rules prepare_body_locks)
  have read: "holds ?P (session env op) (\<lambda>_. ?P) (\<lambda>e v. ?P v \<or> e = WorkspaceFailure ''unsafe_workspace_path'')"
    for op :: "db \<Rightarrow> exc + db \<times> string \<times> string"
    using keeps_session_locks [of "w_locks w" env op, unfolded keeps_def] by (rule holds_conseq) simp_all
  have all: "holds ?P (prepare_registered_repository env wc i) (\<lambda>_. ?P)
      (\<lambda>e v. ?P v \<or> e = WorkspaceFailure ''unsafe_workspace_path'')"
    unfolding prepare_registered_repository_def
    by (rule holds_bind [OF read]) (use prepared in \<open>auto split: prod.split\<close>)
  obtain r w' where run: "prepare_registered_repository env wc i w = (r, w')" by fastforce
  show ?thesis
    using holds_InrD [OF all refl] holds_InlD [OF all refl] prepare_synced [of env wc i w] run
    by (cases r) auto
qed

end
