(* ===== verification/Indexing.thy ===== *)
theory Indexing
  imports Workspace_Properties Chunking Example_Services "HOL-Library.Multiset"
begin

text \<open>
  \<^verbatim>\<open>app/indexing/service.py\<close>: the chunks of a repository are replaced by those of its checked-out
  files in one transaction, which keeps the rows (and so the embeddings) of unchanged chunks. The
  files are scanned under the lock of the checkout, outside any transaction.
\<close>

section \<open>Reconciliation\<close>

text \<open>The tuple a chunk is identified by.\<close>

datatype chunk_key = Chunk_key pystr nat nat string "string option" pystr

definition row_key :: "code_chunk_row \<Rightarrow> chunk_key" where
  "row_key r = Chunk_key (ch_file_path r) (ch_start_line r) (ch_end_line r) (ch_content_hash r)
     (ch_language r) (ch_content r)"

definition chunk_key :: "chunk \<Rightarrow> chunk_key" where
  "chunk_key c = Chunk_key (chunk_file_path c) (chunk_start_line c) (chunk_end_line c) (chunk_content_hash c)
     (Some (chunk_language c)) (chunk_content c)"

definition repository_chunks :: "uuid \<Rightarrow> db \<Rightarrow> code_chunk_row list" where
  "repository_chunks repository d = filter (\<lambda>r. ch_repository_id r = repository) (db_chunks d)"

text \<open>The dictionary of the rows by key, and the rows whose key it already had.\<close>

fun collect_existing ::
  "code_chunk_row list \<Rightarrow> (chunk_key \<times> code_chunk_row) list \<Rightarrow>
    (chunk_key \<times> code_chunk_row) list \<times> code_chunk_row list" where
  "collect_existing [] existing = (existing, [])"
| "collect_existing (r # rs) existing =
     (if row_key r \<in> fst ` set existing
      then case collect_existing rs existing of (e, duplicates) \<Rightarrow> (e, r # duplicates)
      else collect_existing rs (existing @ [(row_key r, r)]))"

text \<open>Every chunk takes a row out of the dictionary or is new; what is left is obsolete.\<close>

fun match_chunks ::
  "chunk list \<Rightarrow> (chunk_key \<times> code_chunk_row) list \<Rightarrow> (chunk_key \<times> code_chunk_row) list \<times> chunk list" where
  "match_chunks [] existing = (existing, [])"
| "match_chunks (c # cs) existing =
     (if chunk_key c \<in> fst ` set existing
      then match_chunks cs (filter (\<lambda>(k, _). k \<noteq> chunk_key c) existing)
      else case match_chunks cs existing of (obsolete, added) \<Rightarrow> (obsolete, c # added))"

definition new_chunk_row :: "uuid \<Rightarrow> uuid \<Rightarrow> chunk \<Rightarrow> code_chunk_row" where
  "new_chunk_row i repository c =
     \<lparr>ch_id = i, ch_repository_id = repository, ch_file_path = chunk_file_path c,
      ch_language = Some (chunk_language c), ch_start_line = chunk_start_line c,
      ch_end_line = chunk_end_line c, ch_content = chunk_content c,
      ch_content_hash = chunk_content_hash c, ch_embedding = None, ch_embedding_status = ''pending'',
      ch_embedding_profile = None, ch_embedding_content_hash = None\<rparr>"

definition new_chunk_rows :: "(nat \<Rightarrow> uuid) \<Rightarrow> uuid \<Rightarrow> chunk list \<Rightarrow> code_chunk_row list" where
  "new_chunk_rows fresh repository added =
     map (\<lambda>(n, c). new_chunk_row (fresh n) repository c) (enumerate 0 added)"

text \<open>The result carries the number of identifiers drawn.\<close>

definition index_persist ::
  "uuid \<Rightarrow> chunk list \<Rightarrow> (nat \<Rightarrow> uuid) \<Rightarrow> db \<Rightarrow> exc + db \<times> nat" where
  "index_persist repository chunks fresh d =
     (case fetch repo_id repository (db_repositories d) of
        None \<Rightarrow> Inl (IndexingFailure ''repository_not_registered'')
      | Some r \<Rightarrow>
          (case collect_existing (sort_key ch_id (repository_chunks repository d)) [] of (existing, duplicates) \<Rightarrow>
           case match_chunks chunks existing of (obsolete, added) \<Rightarrow>
           let gone = ch_id ` set (duplicates @ map snd obsolete);
               new = new_chunk_rows fresh repository added
           in if distinct (map ch_id (db_chunks d @ new))
              then Inr (d\<lparr>db_chunks := filter (\<lambda>x. ch_id x \<notin> gone) (db_chunks d) @ new,
                          db_repositories := put repo_id (r\<lparr>repo_index_status := ''ready'',
                            repo_embedding_status := ''pending''\<rparr>) (db_repositories d)\<rparr>, length added)
              else Inl (ServiceFailure IntegrityError)))"

section \<open>The service\<close>

definition index_progress :: "uuid \<Rightarrow> string \<Rightarrow> db \<Rightarrow> exc + db" where
  "index_progress repository progress d = (case fetch repo_id repository (db_repositories d) of
     None \<Rightarrow> Inl (IndexingFailure ''repository_not_registered'')
   | Some r \<Rightarrow>
       if progress = ''indexing'' \<and> repo_local_status r \<noteq> ''ready''
       then Inl (IndexingFailure ''workspace_not_ready'')
       else Inr (d\<lparr>db_repositories := put repo_id (r\<lparr>repo_index_status := progress\<rparr>) (db_repositories d)\<rparr>))"

text \<open>A session that draws identifiers: the clock moves past those it used.\<close>

definition inserting ::
  "'x environment \<Rightarrow> ((nat \<Rightarrow> uuid) \<Rightarrow> db \<Rightarrow> exc + db \<times> nat) \<Rightarrow> ('x world, unit) eff" where
  "inserting env op = (\<lambda>w.
     let d = env_others env (w_tick w) (w_db w); w1 = w\<lparr>w_db := d, w_tick := Suc (w_tick w)\<rparr>
     in case op (\<lambda>n. env_uuid env (w_tick w + n)) d of
          Inl e \<Rightarrow> (Inl e, w1)
        | Inr (d', used) \<Rightarrow> (Inr (), w1\<lparr>w_db := d', w_tick := Suc (w_tick w + used)\<rparr>))"

record chunker =
  cut_parse :: "pystr \<Rightarrow> nat list list option"
  cut_sha :: "pystr \<Rightarrow> string"
  cut_max_lines :: int
  cut_max_chars :: int

record index_report =
  ixr_files :: nat
  ixr_chunks :: nat
  ixr_commit :: string

definition chunk_failure :: "chunk_error \<Rightarrow> exc" where
  "chunk_failure e = (case e of Unicode_encode_error \<Rightarrow> UnicodeFailure | _ \<Rightarrow> ValueFailure)"

definition cut_source :: "chunker \<Rightarrow> source_file \<Rightarrow> ('s, chunk list) eff" where
  "cut_source limits source =
     (case the (chunk_source (cut_parse limits) (cut_sha limits) source (cut_max_lines limits) (cut_max_chars limits)) of
        Inl e \<Rightarrow> raise (chunk_failure e)
      | Inr cs \<Rightarrow> ret cs)"

definition cut_sources :: "chunker \<Rightarrow> source_file list \<Rightarrow> ('s, chunk list) eff" where
  "cut_sources limits sources = foldM (\<lambda>source cs. bindM (cut_source limits source) (\<lambda>more. ret (cs @ more))) sources []"

text \<open>The scanner is an argument; the stages of a workflow pass the one of theory \<open>Scanner\<close>.\<close>

definition index_body ::
  "'x environment \<Rightarrow> workspace_config \<Rightarrow> (path \<Rightarrow> ('x world, source_file list) eff) \<Rightarrow> chunker \<Rightarrow> uuid \<Rightarrow>
    path \<Rightarrow> ('x world, index_report) eff" where
  "index_body env wc scan limits repository home =
     bindM (verify_checkout env wc home) (\<lambda>commit.
     bindM (scan home) (\<lambda>sources.
     bindM (cut_sources limits sources) (\<lambda>chunks.
     bindM (verify_checkout env wc home) (\<lambda>later.
     seqM (ensure (IndexingFailure ''workspace_changed'') (later = commit))
     (seqM (inserting env (index_persist repository chunks))
       (ret \<lparr>ixr_files = length sources, ixr_chunks = length chunks, ixr_commit = commit\<rparr>))))))"

definition index_locked ::
  "'x environment \<Rightarrow> workspace_config \<Rightarrow> (path \<Rightarrow> ('x world, source_file list) eff) \<Rightarrow> chunker \<Rightarrow> uuid \<Rightarrow>
    path \<Rightarrow> ('x world, index_report) eff" where
  "index_locked env wc scan limits repository home =
     seqM (session env (\<lambda>d. bindE (index_progress repository ''indexing'' d) (\<lambda>d'. Inr (d', ()))))
     (catchM (index_body env wc scan limits repository home)
       (\<lambda>_. seqM (session env (\<lambda>d. bindE (index_progress repository ''error'' d) (\<lambda>d'. Inr (d', ()))))
              (raise (IndexingFailure ''repository_indexing_failed''))))"

definition index_source ::
  "'x environment \<Rightarrow> workspace_config \<Rightarrow> (path \<Rightarrow> ('x world, source_file list) eff) \<Rightarrow> chunker \<Rightarrow> uuid \<Rightarrow>
    ('x world, index_report) eff" where
  "index_source env wc scan limits repository =
     locked_repository env wc repository (index_locked env wc scan limits repository)"

section \<open>What reconciliation keeps\<close>

definition keyed :: "(chunk_key \<times> code_chunk_row) list \<Rightarrow> bool" where
  "keyed existing \<longleftrightarrow> distinct (map fst existing) \<and> (\<forall>x \<in> set existing. fst x = row_key (snd x))"

lemma keyed_Nil [simp]: "keyed []"
  by (simp add: keyed_def)

lemma collect_existing_spec:
  "collect_existing rs existing = (e, duplicates) \<Longrightarrow> keyed existing \<Longrightarrow>
    keyed e \<and> mset (map snd e) + mset duplicates = mset (map snd existing) + mset rs \<and>
    fst ` set e = fst ` set existing \<union> row_key ` set rs"
proof (induction rs arbitrary: existing e duplicates)
  case Nil
  then show ?case by simp
next
  case (Cons r rs)
  show ?case
  proof (cases "row_key r \<in> fst ` set existing")
    case True
    with Cons.prems obtain ds where "collect_existing rs existing = (e, ds)" and "duplicates = r # ds"
      by (auto split: prod.splits)
    with Cons.IH [OF this(1) Cons.prems(2)] True show ?thesis by auto
  next
    case False
    with Cons.prems(2) have "keyed (existing @ [(row_key r, r)])" by (auto simp: keyed_def)
    with Cons.IH [of "existing @ [(row_key r, r)]"] Cons.prems(1) False show ?thesis by auto
  qed
qed

lemma keyed_filter: "keyed existing \<Longrightarrow> keyed (filter P existing)"
  unfolding keyed_def by (simp add: distinct_map_filter)

lemma keyed_take_out:
  assumes "keyed existing" and "k \<in> fst ` set existing"
  obtains r where "mset existing = add_mset (k, r) (mset (filter (\<lambda>(k', _). k' \<noteq> k) existing))"
proof -
  from assms(2) obtain r where r: "(k, r) \<in> set existing" by auto
  from assms(1) have d: "distinct (map fst existing)" by (simp add: keyed_def)
  have "filter (\<lambda>(k', _). k' \<noteq> k) existing = remove1 (k, r) existing"
    using d r
  proof (induction existing)
    case (Cons x xs)
    show ?case
    proof (cases "x = (k, r)")
      case True
      with Cons.prems(1) have "\<forall>y \<in> set xs. fst y \<noteq> k" by force
      with True show ?thesis by (auto simp: filter_id_conv)
    next
      case False
      with Cons.prems(2) have "(k, r) \<in> set xs" by auto
      moreover from this have "k \<in> fst ` set xs" by force
      with Cons.prems(1) have "fst x \<noteq> k" by auto
      ultimately show ?thesis using Cons False by auto
    qed
  qed simp
  then have "mset existing = add_mset (k, r) (mset (filter (\<lambda>(k', _). k' \<noteq> k) existing))"
    using r by simp
  then show thesis by (rule that)
qed

lemma match_chunks_spec:
  "match_chunks cs existing = (obsolete, added) \<Longrightarrow> keyed existing \<Longrightarrow>
    \<exists>matched. mset existing = mset matched + mset obsolete \<and>
      mset (map chunk_key cs) = mset (map fst matched) + mset (map chunk_key added) \<and>
      fst ` set obsolete = fst ` set existing - chunk_key ` set cs"
proof (induction cs arbitrary: existing obsolete added)
  case Nil
  then show ?case by (intro exI [of _ "[]"]) simp
next
  case (Cons c cs)
  show ?case
  proof (cases "chunk_key c \<in> fst ` set existing")
    case True
    let ?rest = "filter (\<lambda>(k, _). k \<noteq> chunk_key c) existing"
    from keyed_take_out [OF Cons.prems(2) True] obtain r
      where r: "mset existing = add_mset (chunk_key c, r) (mset ?rest)" by blast
    from True Cons.prems(1) have "match_chunks cs ?rest = (obsolete, added)" by simp
    from Cons.IH [OF this keyed_filter [OF Cons.prems(2)]] obtain matched
      where m: "mset ?rest = mset matched + mset obsolete"
        "mset (map chunk_key cs) = mset (map fst matched) + mset (map chunk_key added)"
        "fst ` set obsolete = fst ` set ?rest - chunk_key ` set cs" by blast
    have f: "fst ` set ?rest = fst ` set existing - {chunk_key c}" by auto
    let ?m = "(chunk_key c, r) # matched"
    have "mset existing = mset ?m + mset obsolete" unfolding r m(1) by simp
    moreover have "mset (map chunk_key (c # cs)) = mset (map fst ?m) + mset (map chunk_key added)"
      using m(2) by simp
    moreover have "fst ` set obsolete = fst ` set existing - chunk_key ` set (c # cs)"
      unfolding m(3) f by auto
    ultimately show ?thesis by blast
  next
    case False
    with Cons.prems(1) obtain as where "match_chunks cs existing = (obsolete, as)" and "added = c # as"
      by (auto split: prod.splits)
    with Cons.IH [OF this(1) Cons.prems(2)] False show ?thesis by auto
  qed
qed

lemma new_chunk_rows_key [simp]: "map row_key (new_chunk_rows fresh repository added) = map chunk_key added"
proof -
  have "map (\<lambda>(n, c). chunk_key c) (enumerate 0 added) = map chunk_key added"
    using arg_cong [OF map_snd_enumerate [of 0 added], of "map chunk_key"]
    unfolding map_map comp_def case_prod_unfold .
  then show ?thesis
    by (simp add: new_chunk_rows_def new_chunk_row_def row_key_def chunk_key_def comp_def case_prod_unfold)
qed

definition never_embedded :: "code_chunk_row \<Rightarrow> bool" where
  "never_embedded r \<longleftrightarrow> ch_embedding r = None \<and> ch_embedding_status r = ''pending''"

lemma new_chunk_rows_new:
  "r \<in> set (new_chunk_rows fresh repository added) \<Longrightarrow> never_embedded r \<and> ch_repository_id r = repository"
  by (auto simp: new_chunk_rows_def new_chunk_row_def never_embedded_def)

lemma filter_gone:
  assumes "distinct (map ch_id rows)" and "mset rows = mset kept + mset removed"
  shows "mset (filter (\<lambda>x. ch_id x \<notin> ch_id ` set removed) rows) = mset kept"
proof -
  from assms(2) have "mset (map ch_id rows) = mset (map ch_id (kept @ removed))" by simp
  with assms(1) have "distinct (map ch_id (kept @ removed))" by (metis mset_eq_imp_distinct_iff)
  then have "filter (\<lambda>x. ch_id x \<notin> ch_id ` set removed) kept = kept"
    by (auto simp: filter_id_conv)
  moreover have "filter (\<lambda>x. ch_id x \<notin> ch_id ` set removed) removed = []"
    by (auto simp: filter_empty_conv)
  ultimately show ?thesis by (metis assms(2) filter_append append_Nil2 mset_append mset_filter)
qed

text \<open>The inversion of a transaction that committed.\<close>

lemma index_persist_Inr:
  assumes "index_persist repository chunks fresh d = Inr (d', used)"
  obtains row matched obsolete duplicates added
  where "fetch repo_id repository (db_repositories d) = Some row"
    and "mset (repository_chunks repository d) = mset (map snd matched) + mset (duplicates @ map snd obsolete)"
    and "mset (map chunk_key chunks) = mset (map fst matched) + mset (map chunk_key added)"
    and "row_key ` set (repository_chunks repository d) \<subseteq> fst ` set (matched @ obsolete)"
    and "fst ` set obsolete \<inter> chunk_key ` set chunks = {}" and "keyed (matched @ obsolete)"
    and "distinct (map ch_id (db_chunks d @ new_chunk_rows fresh repository added))"
    and "d' = d\<lparr>db_chunks := filter (\<lambda>x. ch_id x \<notin> ch_id ` set (duplicates @ map snd obsolete)) (db_chunks d) @
              new_chunk_rows fresh repository added,
            db_repositories := put repo_id (row\<lparr>repo_index_status := ''ready'',
              repo_embedding_status := ''pending''\<rparr>) (db_repositories d)\<rparr>"
proof -
  let ?rows = "sort_key ch_id (repository_chunks repository d)"
  from assms obtain row where row: "fetch repo_id repository (db_repositories d) = Some row"
    by (auto simp: index_persist_def split: option.splits)
  obtain e duplicates where e: "collect_existing ?rows [] = (e, duplicates)" by fastforce
  obtain obsolete added where o: "match_chunks chunks e = (obsolete, added)" by fastforce
  from collect_existing_spec [OF e] have k: "keyed e"
    and rows: "mset (map snd e) + mset duplicates = mset (repository_chunks repository d)"
    and keys: "fst ` set e = row_key ` set (repository_chunks repository d)" by auto
  from match_chunks_spec [OF o k] obtain matched where m: "mset e = mset matched + mset obsolete"
    and c: "mset (map chunk_key chunks) = mset (map fst matched) + mset (map chunk_key added)"
    and f: "fst ` set obsolete = fst ` set e - chunk_key ` set chunks" by blast
  from m have e': "mset e = mset (matched @ obsolete)" by simp
  with k have k': "keyed (matched @ obsolete)"
    unfolding keyed_def by (metis mset_eq_imp_distinct_iff mset_eq_setD mset_map)
  have keys': "row_key ` set (repository_chunks repository d) \<subseteq> fst ` set (matched @ obsolete)"
    using keys mset_eq_setD [OF e'] by simp
  have "mset (map snd e) = mset (map snd matched) + mset (map snd obsolete)"
    by (simp add: m)
  with rows have all: "mset (repository_chunks repository d) =
      mset (map snd matched) + mset (duplicates @ map snd obsolete)" by (simp add: ac_simps flip: rows)
  show thesis
    by (rule that [OF row all c keys' _ k'])
      (use assms row e o f keys in \<open>auto simp: index_persist_def Let_def split: if_splits\<close>)
qed

section \<open>What an index run leaves behind\<close>

definition other_chunks :: "uuid \<Rightarrow> db \<Rightarrow> code_chunk_row list" where
  "other_chunks repository d = filter (\<lambda>r. ch_repository_id r \<noteq> repository) (db_chunks d)"

text \<open>The state after a successful reconciliation of \<open>d\<close> with the chunks.\<close>

definition reconciled :: "uuid \<Rightarrow> chunk list \<Rightarrow> db \<Rightarrow> db \<Rightarrow> bool" where
  "reconciled repository chunks d d' \<longleftrightarrow>
     mset (map row_key (repository_chunks repository d')) = mset (map chunk_key chunks) \<and>
     other_chunks repository d' = other_chunks repository d \<and>
     (\<forall>r \<in> set (repository_chunks repository d'). r \<in> set (db_chunks d) \<or> never_embedded r) \<and>
     (\<forall>r \<in> set (repository_chunks repository d). row_key r \<in> chunk_key ` set chunks \<longrightarrow>
        (\<exists>r' \<in> set (repository_chunks repository d'). r' \<in> set (db_chunks d) \<and> row_key r' = row_key r)) \<and>
     (case fetch repo_id repository (db_repositories d') of
        None \<Rightarrow> False
      | Some r \<Rightarrow> repo_index_status r = ''ready'' \<and> repo_embedding_status r = ''pending'')"

lemma index_persist_reconciles:
  assumes "index_persist repository chunks fresh d = Inr (d', used)"
  shows "reconciled repository chunks d d'"
proof -
  from assms obtain row matched obsolete duplicates added
    where row: "fetch repo_id repository (db_repositories d) = Some row"
    and rows: "mset (repository_chunks repository d) = mset (map snd matched) + mset (duplicates @ map snd obsolete)"
    and c: "mset (map chunk_key chunks) = mset (map fst matched) + mset (map chunk_key added)"
    and keys: "row_key ` set (repository_chunks repository d) \<subseteq> fst ` set (matched @ obsolete)"
    and f: "fst ` set obsolete \<inter> chunk_key ` set chunks = {}" and k: "keyed (matched @ obsolete)"
    and ids: "distinct (map ch_id (db_chunks d @ new_chunk_rows fresh repository added))"
    and d': "d' = d\<lparr>db_chunks := filter (\<lambda>x. ch_id x \<notin> ch_id ` set (duplicates @ map snd obsolete)) (db_chunks d) @
              new_chunk_rows fresh repository added,
            db_repositories := put repo_id (row\<lparr>repo_index_status := ''ready'',
              repo_embedding_status := ''pending''\<rparr>) (db_repositories d)\<rparr>"
    by (rule index_persist_Inr)
  let ?gone = "duplicates @ map snd obsolete" and ?new = "new_chunk_rows fresh repository added"
  let ?kept = "filter (\<lambda>x. ch_id x \<notin> ch_id ` set ?gone) (repository_chunks repository d)"
  have "distinct (map ch_id (repository_chunks repository d))"
    using ids by (simp add: repository_chunks_def distinct_map_filter)
  from filter_gone [OF this rows] have kept: "mset ?kept = mset (map snd matched)" .
  have new: "filter (\<lambda>r. ch_repository_id r = repository) ?new = ?new"
    "filter (\<lambda>r. ch_repository_id r \<noteq> repository) ?new = []"
    using new_chunk_rows_new by (fastforce simp: filter_id_conv filter_empty_conv)+
  have repo: "repository_chunks repository d' = ?kept @ ?new"
    using new(1) by (simp add: d' repository_chunks_def conj_commute)
  have mk: "map row_key (map snd matched) = map fst matched"
    using k by (auto simp: keyed_def)
  have "mset (map row_key ?kept) = mset (map row_key (map snd matched))"
    using kept by (metis mset_map)
  then have "mset (map row_key ?kept) = mset (map fst matched)" unfolding mk .
  then have exact: "mset (map row_key (repository_chunks repository d')) = mset (map chunk_key chunks)"
    unfolding repo map_append new_chunk_rows_key c by simp
  have ids_other: "ch_id x \<notin> ch_id ` set ?gone" if x: "x \<in> set (db_chunks d)" "ch_repository_id x \<noteq> repository" for x
  proof
    assume "ch_id x \<in> ch_id ` set ?gone"
    then obtain y where y: "y \<in> set ?gone" "ch_id x = ch_id y" by blast
    from y(1) rows have "y \<in># mset (repository_chunks repository d)" by simp
    then have "y \<in> set (db_chunks d)" "ch_repository_id y = repository" by (auto simp: repository_chunks_def)
    with ids x y(2) show False by (auto simp: distinct_map dest: inj_onD)
  qed
  have others: "other_chunks repository d' = other_chunks repository d"
    using new(2) ids_other by (auto simp: d' other_chunks_def intro!: filter_cong)
  have survivors: "\<exists>r' \<in> set (repository_chunks repository d'). r' \<in> set (db_chunks d) \<and> row_key r' = row_key r"
    if r: "r \<in> set (repository_chunks repository d)" "row_key r \<in> chunk_key ` set chunks" for r
  proof -
    from r(1) keys have "row_key r \<in> fst ` set matched \<union> fst ` set obsolete" by (auto simp: image_Un)
    with r(2) f have "row_key r \<in> fst ` set matched" by blast
    then obtain r' where r': "(row_key r, r') \<in> set matched" by auto
    with k have "row_key r' = row_key r" by (force simp: keyed_def)
    moreover have "r' \<in> set ?kept" using r' mset_eq_setD [OF kept] by force
    ultimately show ?thesis unfolding repo by (auto simp: repository_chunks_def)
  qed
  have source: "r \<in> set (db_chunks d) \<or> never_embedded r" if "r \<in> set (repository_chunks repository d')" for r
    using that new_chunk_rows_new unfolding repo by (auto simp: repository_chunks_def)
  have "fetch repo_id repository (db_repositories d') =
      Some (row\<lparr>repo_index_status := ''ready'', repo_embedding_status := ''pending''\<rparr>)"
    using fetch_SomeD [OF row] by (auto simp: d' fetch_put)
  with exact others survivors source show ?thesis by (simp add: reconciled_def)
qed

section \<open>A run of the service\<close>

lemma chunk_source_cases:
  obtains (failed) e where "chunk_source parse sha source max_lines max_chars = Some (Inl e)"
  | (cut) cs where "chunk_source parse sha source max_lines max_chars = Some (Inr cs)"
      and "concat (map chunk_content cs) = src_content source"
proof -
  let ?lines = "split_lines (src_content source)"
  show thesis
  proof (cases "max_lines < 1 \<or> max_chars < 1 \<or> (\<exists>l \<in> set ?lines. int (length l) > max_chars)")
    case True
    then have "\<exists>e. chunk_source parse sha source max_lines max_chars = Some (Inl e)"
      by (cases "max_lines < 1 \<or> max_chars < 1") (simp_all add: chunk_source_def Let_def)
    then show thesis using failed by blast
  next
    case False
    then have limits: "1 \<le> max_lines" "1 \<le> max_chars" "\<forall>l \<in> set ?lines. int (length l) \<le> max_chars" by auto
    from chunk_loop_tiles [OF limits, of 0 sha "definition_boundaries parse source" source] obtain r
      where r: "chunk_loop sha max_lines max_chars (definition_boundaries parse source) source ?lines 0 = Some r"
      and t: "case r of Inl e \<Rightarrow> e = Unicode_encode_error \<and> utf8_length (concat (drop 0 ?lines)) = None
        | Inr cs \<Rightarrow> tiles sha max_lines max_chars source ?lines 0 cs"
      by auto
    from False r have s: "chunk_source parse sha source max_lines max_chars = Some r"
      by (auto simp: chunk_source_def Let_def)
    show thesis
    proof (cases r)
      case (Inl e)
      with s show thesis by (intro failed) simp
    next
      case (Inr cs)
      with t tiles_cover [of sha max_lines max_chars source ?lines 0 cs] s show thesis by (intro cut) simp_all
    qed
  qed
qed

definition cut_of :: "chunker \<Rightarrow> source_file \<Rightarrow> chunk list \<Rightarrow> bool" where
  "cut_of limits source cs \<longleftrightarrow>
     chunk_source (cut_parse limits) (cut_sha limits) source (cut_max_lines limits) (cut_max_chars limits) =
       Some (Inr cs) \<and> concat (map chunk_content cs) = src_content source"

lemma cut_source_Inr: "cut_source limits source s = (Inr cs, t) \<longleftrightarrow> cut_of limits source cs \<and> t = s"
  by (rule chunk_source_cases [of "cut_parse limits" "cut_sha limits" source "cut_max_lines limits" "cut_max_chars limits"])
    (auto simp: cut_source_def cut_of_def pure_Inr)

lemma cut_sources_fold:
  "foldM (\<lambda>source cs. bindM (cut_source limits source) (\<lambda>more. ret (cs @ more))) sources cs0 s = (Inr cs, t) \<Longrightarrow>
    \<exists>css. list_all2 (cut_of limits) sources css \<and> cs = cs0 @ concat css \<and> t = s"
proof (induction sources arbitrary: cs0)
  case Nil
  then show ?case by (auto simp: pure_Inr)
next
  case (Cons source sources)
  from Cons.prems obtain more where "cut_of limits source more"
    and "foldM (\<lambda>source cs. bindM (cut_source limits source) (\<lambda>more. ret (cs @ more))) sources (cs0 @ more) s = (Inr cs, t)"
    by (auto simp: runs_Inr cut_source_Inr)
  moreover from Cons.IH [OF this(2)] obtain css where "list_all2 (cut_of limits) sources css"
    and "cs = cs0 @ more @ concat css" and "t = s" by auto
  ultimately show ?case by (intro exI [of _ "more # css"]) simp
qed

lemma inserting_Inr:
  assumes "inserting env op w = (Inr u, w')"
  obtains fresh d used where "op fresh d = Inr (w_db w', used)"
  using assms by (auto simp: inserting_def Let_def split: sum.splits)

definition index_marked :: "uuid \<Rightarrow> string \<Rightarrow> db \<Rightarrow> bool" where
  "index_marked repository progress d \<longleftrightarrow>
     map_option repo_index_status (fetch repo_id repository (db_repositories d)) = Some progress"

lemma session_status:
  "session env (\<lambda>d. bindE (index_progress repository progress d) (\<lambda>d'. Inr (d', ()))) w = (r, w') \<Longrightarrow>
    (case r of
       Inr _ \<Rightarrow> index_marked repository progress (w_db w')
     | Inl e \<Rightarrow> e \<in> {IndexingFailure ''repository_not_registered'', IndexingFailure ''workspace_not_ready''})"
  by (auto simp: session_def Let_def index_progress_def index_marked_def fetch_put dest!: fetch_SomeD
      split: option.splits sum.splits if_splits)

section \<open>The chunks the others leave alone\<close>

text \<open>
  The chunks of a repository are written under the lock of its checkout only, which the run holds: what the
  other workers and the scanner do meanwhile leaves them alone. Of every other repository this may hold or not.
\<close>

definition chunks_left :: "'x environment \<Rightarrow> (path \<Rightarrow> ('x world, source_file list) eff) \<Rightarrow> uuid \<Rightarrow> bool" where
  "chunks_left env scan j \<longleftrightarrow>
     (\<forall>n d. repository_chunks j (env_others env n d) = repository_chunks j d) \<and>
     (\<forall>home w. repository_chunks j (w_db (snd (scan home w))) = repository_chunks j (w_db w))"

definition chunk_rows :: "uuid \<Rightarrow> code_chunk_row list \<Rightarrow> 'x world \<Rightarrow> bool" where
  "chunk_rows j rows w \<longleftrightarrow> repository_chunks j (w_db w) = rows"

lemma external_rows [keeps_rules]: "keeps (chunk_rows j rows) (external f c)"
  by (auto simp: keeps_iff external_def chunk_rows_def split: prod.split)

lemma git_rows [keeps_rules]: "keeps (chunk_rows j rows) (remote_git env args cwd token local)"
  by (auto simp: keeps_iff remote_git_def external_def chunk_rows_def split: prod.splits)

lemma checkout_rows: "keeps (chunk_rows j rows) (verify_checkout env wc p)"
  unfolding verify_checkout_def by (intro keeps_rules)

lemma cut_rows: "keeps I (cut_sources limits sources)"
  unfolding cut_sources_def cut_source_def by (intro keeps_rules) (auto simp: keeps_iff raise_def ret_def split: sum.split)

lemma progress_rows:
  assumes "chunks_left env scan j"
  shows "keeps (chunk_rows j rows) (session env (\<lambda>d. bindE (index_progress repository progress d) (\<lambda>d'. Inr (d', ()))))"
  using assms by (auto simp: keeps_iff session_def Let_def chunk_rows_def chunks_left_def index_progress_def
    repository_chunks_def split: sum.split option.splits if_splits)

lemma scan_rows: "chunks_left env scan j \<Longrightarrow> keeps (chunk_rows j rows) (scan home)"
  by (simp add: chunks_left_def keeps_iff chunk_rows_def)

text \<open>Until the transaction that replaces them, and when the run fails, the chunks are as they were.\<close>

lemma index_body_rows:
  assumes left: "chunks_left env scan j"
  shows "holds (chunk_rows j rows) (index_body env wc scan limits repository home)
    (\<lambda>_ w'. \<exists>d used fresh chunks. index_persist repository chunks fresh d = Inr (w_db w', used) \<and> repository_chunks j d = rows)
    (\<lambda>_. chunk_rows j rows)"
proof -
  have p: "holds (chunk_rows j rows) (inserting env (index_persist repository chunks))
    (\<lambda>_ w'. \<exists>d used fresh chunks. index_persist repository chunks fresh d = Inr (w_db w', used) \<and> repository_chunks j d = rows)
    (\<lambda>_. chunk_rows j rows)" for chunks
    using left by (fastforce simp: holds_def inserting_def Let_def chunk_rows_def chunks_left_def split: sum.splits)
  show ?thesis
    unfolding index_body_def
    by (rule holds_bind [OF checkout_rows [unfolded keeps_def]], rule holds_bind [OF scan_rows [OF left, unfolded keeps_def]],
      rule holds_bind [OF cut_rows [unfolded keeps_def]], rule holds_bind [OF checkout_rows [unfolded keeps_def]],
      rule holds_seq, rule holds_ensure, assumption, assumption, rule holds_seq [OF p], rule holds_ret)
qed

text \<open>What a run did to the chunks: exactly the new ones, in the old rows where they had one.\<close>

definition rebuilt :: "uuid \<Rightarrow> chunk list \<Rightarrow> db \<Rightarrow> db \<Rightarrow> bool" where
  "rebuilt repository chunks d d' \<longleftrightarrow>
     mset (map row_key (repository_chunks repository d')) = mset (map chunk_key chunks) \<and>
     (\<forall>r \<in> set (repository_chunks repository d'). r \<in> set (repository_chunks repository d) \<or> never_embedded r) \<and>
     (\<forall>r \<in> set (repository_chunks repository d). row_key r \<in> chunk_key ` set chunks \<longrightarrow>
        (\<exists>r' \<in> set (repository_chunks repository d'). r' \<in> set (repository_chunks repository d) \<and> row_key r' = row_key r)) \<and>
     (case fetch repo_id repository (db_repositories d') of
        None \<Rightarrow> False
      | Some r \<Rightarrow> repo_index_status r = ''ready'' \<and> repo_embedding_status r = ''pending'')"

lemma reconciled_rebuilt:
  assumes "reconciled repository chunks d d'" and same: "repository_chunks repository d = repository_chunks repository d0"
  shows "rebuilt repository chunks d0 d'"
proof -
  have member: "r \<in> set (db_chunks d) \<longleftrightarrow> r \<in> set (repository_chunks repository d0)"
    if "r \<in> set (repository_chunks repository d')" for r
    using that unfolding same [symmetric] by (auto simp: repository_chunks_def)
  from assms(1) show ?thesis
    unfolding reconciled_def rebuilt_def same by (intro conjI) (blast dest: member [THEN iffD1])+
qed

lemma reconciled_others:
  assumes "reconciled repository chunks d d'" and "j \<noteq> repository"
  shows "repository_chunks j d' = repository_chunks j d"
proof -
  have "repository_chunks j x = filter (\<lambda>r. ch_repository_id r = j) (other_chunks repository x)" for x
    using assms(2) by (auto simp: repository_chunks_def other_chunks_def intro: filter_cong)
  with assms(1) show ?thesis by (simp add: reconciled_def)
qed

lemma index_body_done:
  assumes left: "chunks_left env scan repository"
    and run: "index_body env wc scan limits repository home w = (Inr report, w')"
  shows "\<exists>u v sources css. scan home u = (Inr sources, v) \<and> list_all2 (cut_of limits) sources css \<and>
    rebuilt repository (concat css) (w_db w) (w_db w') \<and> ixr_files report = length sources \<and>
    ixr_chunks report = length (concat css)"
proof -
  from run obtain u v sources chunks s0 s1 commit later where v1: "verify_checkout env wc home w = (Inr commit, u)"
    and sc: "scan home u = (Inr sources, v)" and cs: "cut_sources limits sources v = (Inr chunks, s0)"
    and v2: "verify_checkout env wc home s0 = (Inr later, s1)"
    and ins: "inserting env (index_persist repository chunks) s1 = (Inr (), w')"
    and n: "ixr_files report = length sources" "ixr_chunks report = length chunks"
    unfolding index_body_def by (auto simp: runs_Inr)
  from cut_sources_fold [OF cs [unfolded cut_sources_def]] obtain css
    where css: "list_all2 (cut_of limits) sources css" "chunks = concat css" by auto
  let ?rows = "repository_chunks repository (w_db w)"
  have "chunk_rows repository ?rows s1"
    using keepsD [OF checkout_rows, of repository ?rows w env wc home] keepsD [OF scan_rows [OF left], of ?rows u home]
      keepsD [OF cut_rows, of "chunk_rows repository ?rows" v limits sources]
      keepsD [OF checkout_rows, of repository ?rows s0 env wc home]
    by (simp add: v1 sc cs v2) (simp add: chunk_rows_def)
  moreover from ins obtain fresh used where "index_persist repository chunks fresh (env_others env (w_tick s1) (w_db s1)) = Inr (w_db w', used)"
    by (auto simp: inserting_def Let_def split: sum.splits)
  ultimately have "rebuilt repository chunks (w_db w) (w_db w')"
    using left by (auto simp: chunks_left_def chunk_rows_def intro: reconciled_rebuilt dest: index_persist_reconciles)
  with sc css n show ?thesis by blast
qed

lemma index_run_rows:
  assumes left: "chunks_left env scan j"
  shows "holds (chunk_rows j rows) (index_locked env wc scan limits repository home)
    (\<lambda>_ w'. \<exists>d used fresh chunks. index_persist repository chunks fresh d = Inr (w_db w', used) \<and> repository_chunks j d = rows)
    (\<lambda>_. chunk_rows j rows)"
  unfolding index_locked_def
  by (rule holds_seq [OF progress_rows [OF left, unfolded keeps_def]], rule holds_catch [OF index_body_rows [OF left]],
    rule holds_seq [OF progress_rows [OF left, unfolded keeps_def]], rule holds_raise)

lemma index_run_others:
  assumes left: "chunks_left env scan j" and run: "index_locked env wc scan limits repository home w = (r, w')"
    and "isl r \<or> j \<noteq> repository"
  shows "repository_chunks j (w_db w') = repository_chunks j (w_db w)"
proof (cases r)
  case (Inl e)
  with holds_InlD [OF index_run_rows [OF left, of "repository_chunks j (w_db w)"], of w] run show ?thesis
    by (simp add: chunk_rows_def)
next
  case (Inr x)
  with run have "index_locked env wc scan limits repository home w = (Inr x, w')" by simp
  from holds_InrD [OF index_run_rows [OF left, of "repository_chunks j (w_db w)"] _ this] obtain d used fresh chunks
    where "index_persist repository chunks fresh d = Inr (w_db w', used)" and "repository_chunks j d = repository_chunks j (w_db w)"
    by (auto simp: chunk_rows_def)
  with reconciled_others [OF index_persist_reconciles] assms(3) Inr show ?thesis by simp
qed

text \<open>C22. An index run that returns has replaced the chunks of the repository by those of the files the
  scanner found under the lock, whose chunks concatenate to their contents: every stored chunk is one of
  them and the other way round, with multiplicity; a chunk the database already had keeps a row it had when
  the run began, so its embedding, and every other row is a new one without embedding. A run that fails
  leaves the chunks of the repository as they were and has marked the index as failed, unless the
  repository is not registered or its checkout was not ready. Either way the chunks of any other repository
  are those it had, unless another worker or the scanner changes them meanwhile. It is assumed that none
  of these writes chunks of the repository itself, whose lock the run holds.\<close>

theorem index_rebuilds:
  assumes left: "chunks_left env scan repository"
    and run: "index_locked env wc scan limits repository home w = (r, w')"
  shows "(case r of
       Inr report \<Rightarrow> \<exists>u v sources css. scan home u = (Inr sources, v) \<and>
         list_all2 (cut_of limits) sources css \<and> rebuilt repository (concat css) (w_db w) (w_db w') \<and>
         ixr_files report = length sources \<and> ixr_chunks report = length (concat css)
     | Inl e \<Rightarrow> repository_chunks repository (w_db w') = repository_chunks repository (w_db w) \<and>
         (e = IndexingFailure ''repository_not_registered'' \<or> e = IndexingFailure ''workspace_not_ready'' \<or>
          e = IndexingFailure ''repository_indexing_failed'' \<and> index_marked repository ''error'' (w_db w'))) \<and>
    (\<forall>j. j \<noteq> repository \<and> chunks_left env scan j \<longrightarrow> repository_chunks j (w_db w') = repository_chunks j (w_db w))"
proof -
  have others: "\<forall>j. j \<noteq> repository \<and> chunks_left env scan j \<longrightarrow> repository_chunks j (w_db w') = repository_chunks j (w_db w)"
    using index_run_others [OF _ run] by blast
  have same: "repository_chunks repository (w_db w') = repository_chunks repository (w_db w)" if "r = Inl e" for e
    using index_run_others [OF left run] that by simp
  let ?start = "session env (\<lambda>d. bindE (index_progress repository ''indexing'' d) (\<lambda>d'. Inr (d', ())))"
  let ?failed = "session env (\<lambda>d. bindE (index_progress repository ''error'' d) (\<lambda>d'. Inr (d', ())))"
  obtain r0 w1 where b: "?start w = (r0, w1)" by fastforce
  obtain r1 w2 where i: "index_body env wc scan limits repository home w1 = (r1, w2)" by fastforce
  obtain r2 w3 where f: "?failed w2 = (r2, w3)" by fastforce
  have old: "repository_chunks repository (w_db w1) = repository_chunks repository (w_db w)"
    using keepsD [OF progress_rows [OF left], of "repository_chunks repository (w_db w)" w repository "''indexing''"] b
    by (simp add: chunk_rows_def)
  show ?thesis
  proof (cases r0)
    case (Inl e)
    with b run have "r = Inl e" "w' = w1" by (simp_all add: index_locked_def seqM_def bindM_def)
    with Inl session_status [OF b] others same show ?thesis by auto
  next
    case start: (Inr u)
    show ?thesis
    proof (cases r1)
      case (Inl e)
      with b i f start run have "(r, w') = (case r2 of Inl e' \<Rightarrow> (Inl e', w3)
          | Inr _ \<Rightarrow> (Inl (IndexingFailure ''repository_indexing_failed''), w3))"
        by (auto simp: index_locked_def seqM_def bindM_def catchM_def raise_def split: sum.splits)
      with session_status [OF f] others same show ?thesis by (cases r2) auto
    next
      case (Inr report)
      with b i start run have "r = Inr report" "w' = w2" by (simp_all add: index_locked_def seqM_def bindM_def catchM_def)
      moreover have "rebuilt repository chunks (w_db w1) d' \<longleftrightarrow> rebuilt repository chunks (w_db w) d'" for chunks d'
        by (simp add: rebuilt_def old)
      ultimately show ?thesis using index_body_done [OF left, of wc limits home w1 report w2] i Inr others by simp
    qed
  qed
qed

section \<open>A concrete run\<close>

definition rerun_source :: source_file where
  "rerun_source = \<lparr>src_path = pytext ''m.py'', src_language = ''python'', src_content = pytext ''a''\<rparr>"

definition sample_stale :: "uuid \<Rightarrow> uuid \<Rightarrow> code_chunk_row" where
  "sample_stale i repository = new_chunk_row i repository \<lparr>chunk_file_path = pytext ''old.py'', chunk_language = ''python'',
     chunk_start_line = 1, chunk_end_line = 1, chunk_content = pytext ''x'', chunk_content_hash = ''h''\<rparr>"

definition rerun_config :: workspace_config where
  "rerun_config = \<lparr>wc_root = example_root, wc_github_host = ''github.com'', wc_token = None, wc_allow_local = False\<rparr>"

definition rerun_limits :: chunker where
  "rerun_limits = \<lparr>cut_parse = (\<lambda>_. None), cut_sha = (\<lambda>_. ''h''), cut_max_lines = 10, cut_max_chars = 100\<rparr>"

definition rerun_scan :: "path \<Rightarrow> (nat world, source_file list) eff" where
  "rerun_scan home = (\<lambda>w. (Inr [rerun_source], w))"

definition stale_world :: "nat world" where
  "stale_world = example_world (example_db\<lparr>db_chunks := [sample_stale 1 1, sample_stale 2 2]\<rparr>)"

lemma index_rebuilds_witness:
  "\<exists>report w' css. index_locked example_environment rerun_config rerun_scan rerun_limits 1 (example_root @ [''r'']) stale_world =
       (Inr report, w') \<and> rebuilt 1 (concat css) (w_db stale_world) (w_db w') \<and>
     list_all2 (cut_of rerun_limits) [rerun_source] css \<and> repository_chunks 2 (w_db w') = [sample_stale 2 2]"
proof -
  let ?run = "index_locked example_environment rerun_config rerun_scan rerun_limits 1 (example_root @ [''r'']) stale_world"
  have "\<not> isl (fst ?run)" by code_simp
  then obtain report w' where run: "?run = (Inr report, w')" by (cases ?run; cases "fst ?run") auto
  have left: "chunks_left example_environment rerun_scan j" for j
    by (simp add: chunks_left_def example_environment_def rerun_scan_def)
  have two: "repository_chunks 2 (w_db stale_world) = [sample_stale 2 2]"
    by (simp add: repository_chunks_def stale_world_def example_world_def sample_stale_def new_chunk_row_def)
  from index_rebuilds [OF left run] left obtain css where rebuilt: "rebuilt 1 (concat css) (w_db stale_world) (w_db w')"
    and tiles: "list_all2 (cut_of rerun_limits) [rerun_source] css"
    and rest: "repository_chunks 2 (w_db w') = repository_chunks 2 (w_db stale_world)"
    by (auto simp: rerun_scan_def simp del: One_nat_def)
  show ?thesis by (intro exI conjI) (rule run, rule rebuilt, rule tiles, simp only: rest two)
qed

end
