(* ===== verification/Embeddings.thy ===== *)
theory Embeddings
  imports Indexing Example_Services
begin

text \<open>
  \<^verbatim>\<open>app/integrations/llm/embeddings.py\<close> and \<^verbatim>\<open>app/indexing/embeddings.py\<close>: the check of the
  vectors a provider returns, and the generation of missing embeddings in batches. The provider is
  called between two transactions. The loop ends when no chunk is left, so it is given fuel here; the
  theorem says how much is enough.
\<close>

section \<open>Vectors\<close>

definition json_number :: "json \<Rightarrow> rat option" where
  "json_number v = (case v of Json_int n \<Rightarrow> Some (of_int n) | Json_float x \<Rightarrow> Some x | _ \<Rightarrow> None)"

definition is_number :: "json \<Rightarrow> bool" where
  "is_number v \<longleftrightarrow> json_number v \<noteq> None"

text \<open>
  \<open>hypot\<close> is the floating point norm of a list of numbers, \<open>None\<close> when a conversion overflows or the
  norm is not finite.
\<close>

definition validate_vector :: "(rat list \<Rightarrow> rat option) \<Rightarrow> nat \<Rightarrow> json \<Rightarrow> exc + rat list" where
  "validate_vector hypot dimensions v = (case v of
     Json_list vs \<Rightarrow>
       if length vs \<noteq> dimensions then Inl (EmbeddingFailure ''embedding_dimension_mismatch'')
       else if \<not> (\<forall>x \<in> set vs. is_number x) then Inl (EmbeddingFailure ''embedding_invalid_vector'')
       else let numbers = map (\<lambda>x. the (json_number x)) vs
            in (case hypot numbers of
                  None \<Rightarrow> Inl (EmbeddingFailure ''embedding_invalid_vector'')
                | Some len \<Rightarrow>
                    if len = 0 then Inl (EmbeddingFailure ''embedding_invalid_vector'')
                    else Inr (map (\<lambda>x. x / len) numbers))
   | _ \<Rightarrow> Inl (EmbeddingFailure ''embedding_dimension_mismatch''))"

definition validate_vectors ::
  "(rat list \<Rightarrow> rat option) \<Rightarrow> nat \<Rightarrow> nat \<Rightarrow> json \<Rightarrow> exc + rat list list" where
  "validate_vectors hypot expected dimensions vectors = (case vectors of
     Json_list vs \<Rightarrow>
       if length vs \<noteq> expected then Inl (EmbeddingFailure ''embedding_invalid_response'')
       else mapE (validate_vector hypot dimensions) vs
   | _ \<Rightarrow> Inl (EmbeddingFailure ''embedding_invalid_response''))"

section \<open>The transactions\<close>

definition EMBEDDING_DIMENSION :: nat where
  "EMBEDDING_DIMENSION = 1536"

definition needs_embedding :: "string \<Rightarrow> code_chunk_row \<Rightarrow> bool" where
  "needs_embedding profile r \<longleftrightarrow> ch_embedding r = None \<or> ch_embedding_status r \<noteq> ''ready'' \<or>
     ch_embedding_profile r \<noteq> Some profile \<or> ch_embedding_content_hash r \<noteq> Some (ch_content_hash r)"

definition missing_embeddings :: "uuid \<Rightarrow> string \<Rightarrow> db \<Rightarrow> code_chunk_row list" where
  "missing_embeddings repository profile d = filter (needs_embedding profile) (repository_chunks repository d)"

definition mark_chunks :: "uuid list \<Rightarrow> string \<Rightarrow> db \<Rightarrow> db" where
  "mark_chunks ids progress d = d\<lparr>db_chunks :=
     map (\<lambda>r. if ch_id r \<in> set ids then r\<lparr>ch_embedding_status := progress\<rparr> else r) (db_chunks d)\<rparr>"

definition mark_embedding :: "uuid \<Rightarrow> string \<Rightarrow> db \<Rightarrow> db" where
  "mark_embedding repository progress d = d\<lparr>db_repositories :=
     map (\<lambda>r. if repo_id r = repository then r\<lparr>repo_embedding_status := progress\<rparr> else r) (db_repositories d)\<rparr>"

definition embedding_begin :: "uuid \<Rightarrow> db \<Rightarrow> exc + db" where
  "embedding_begin repository d = (case fetch repo_id repository (db_repositories d) of
     None \<Rightarrow> Inl (EmbeddingFailure ''index_not_ready'')
   | Some r \<Rightarrow> if repo_index_status r \<noteq> ''ready'' then Inl (EmbeddingFailure ''index_not_ready'')
       else Inr (mark_embedding repository ''embedding'' d))"

definition claim_batch :: "uuid \<Rightarrow> string \<Rightarrow> nat \<Rightarrow> db \<Rightarrow> db \<times> code_chunk_row list" where
  "claim_batch repository profile many d =
     (let rows = take many (sort_key ch_id (missing_embeddings repository profile d))
      in (mark_chunks (map ch_id rows) ''embedding'' d, rows))"

definition store_vector :: "string \<Rightarrow> code_chunk_row \<times> rat list \<Rightarrow> db \<Rightarrow> exc + db" where
  "store_vector profile item d = (case item of (row, vector) \<Rightarrow>
     let same = (\<lambda>r. ch_id r = ch_id row \<and> ch_content_hash r = ch_content_hash row)
     in if \<exists>r \<in> set (db_chunks d). same r
        then Inr (d\<lparr>db_chunks := map (\<lambda>r. if same r
               then r\<lparr>ch_embedding := Some vector, ch_embedding_status := ''ready'',
                      ch_embedding_profile := Some profile,
                      ch_embedding_content_hash := Some (ch_content_hash row)\<rparr> else r) (db_chunks d)\<rparr>)
        else Inl (EmbeddingFailure ''chunk_changed_during_embedding''))"

section \<open>The service\<close>

record embedder =
  emb_profile :: string
  emb_batch_size :: nat
  emb_hypot :: "rat list \<Rightarrow> rat option"

definition embed_texts ::
  "(pystr list \<Rightarrow> 'x \<Rightarrow> (exc + json) \<times> 'x) \<Rightarrow> pystr list \<Rightarrow> ('x world, json) eff" where
  "embed_texts ask texts = external (ask texts) (\<lambda>_. Embed_call texts)"

text \<open>
  One round; its result is the number of chunks embedded. The rows claimed are the local variable the
  error handler reads.
\<close>

definition embed_round ::
  "'x environment \<Rightarrow> (pystr list \<Rightarrow> 'x \<Rightarrow> (exc + json) \<times> 'x) \<Rightarrow> embedder \<Rightarrow> uuid \<Rightarrow>
    ('x world \<times> uuid list, nat) eff" where
  "embed_round env ask em repository =
     bindM (on_world (session env (\<lambda>d. Inr (claim_batch repository (emb_profile em) (emb_batch_size em) d)))) (\<lambda>rows.
     seqM (assign (\<lambda>_. map ch_id rows))
     (if rows = [] then ret 0
      else bindM (on_world (embed_texts ask (map ch_content rows))) (\<lambda>answer.
           bindM (liftE (validate_vectors (emb_hypot em) (length rows) EMBEDDING_DIMENSION answer)) (\<lambda>vectors.
           seqM (on_world (session env (\<lambda>d. bindE (foldE (store_vector (emb_profile em)) (zip rows vectors) d)
                   (\<lambda>d'. Inr (d', ())))))
           (seqM (assign (\<lambda>_. []))
             (ret (length rows)))))))"

fun embed_rounds ::
  "('s, nat) eff \<Rightarrow> nat \<Rightarrow> nat \<Rightarrow> ('s, nat) eff" where
  "embed_rounds one 0 completed = raise StillRunning"
| "embed_rounds one (Suc fuel) completed =
     bindM one (\<lambda>n. if n = 0 then ret completed else embed_rounds one fuel (completed + n))"

definition embedding_failure :: "'x environment \<Rightarrow> uuid \<Rightarrow> uuid list \<Rightarrow> exc \<Rightarrow> ('x world, nat) eff" where
  "embedding_failure env repository active e =
     (if e = StillRunning then raise e
      else seqM (session env (\<lambda>d. Inr (mark_embedding repository ''error'' (mark_chunks active ''error'' d), ())))
             (raise (EmbeddingFailure ''embedding_generation_failed'')))"

definition embedding_locked ::
  "'x environment \<Rightarrow> (pystr list \<Rightarrow> 'x \<Rightarrow> (exc + json) \<times> 'x) \<Rightarrow> embedder \<Rightarrow> nat \<Rightarrow> uuid \<Rightarrow> ('x world, nat) eff" where
  "embedding_locked env ask em fuel repository =
     seqM (session env (\<lambda>d. bindE (embedding_begin repository d) (\<lambda>d'. Inr (d', ()))))
     (scoped []
        (bindM (embed_rounds (embed_round env ask em repository) fuel 0) (\<lambda>completed.
         seqM (on_world (session env (\<lambda>d. Inr (mark_embedding repository ''ready'' d, ()))))
           (ret completed)))
        (embedding_failure env repository))"

definition embedding_generate ::
  "'x environment \<Rightarrow> workspace_config \<Rightarrow> (pystr list \<Rightarrow> 'x \<Rightarrow> (exc + json) \<times> 'x) \<Rightarrow> embedder \<Rightarrow> nat \<Rightarrow> uuid \<Rightarrow>
    ('x world, nat) eff" where
  "embedding_generate env wc ask em fuel repository =
     locked_repository env wc repository (\<lambda>_. embedding_locked env ask em fuel repository)"

section \<open>One round\<close>

definition stored_text :: "code_chunk_row \<Rightarrow> uuid \<times> uuid \<times> chunk_key" where
  "stored_text r = (ch_id r, ch_repository_id r, row_key r)"

lemma stored_text_eq:
  "stored_text r = stored_text r' \<Longrightarrow> ch_id r = ch_id r' \<and> ch_repository_id r = ch_repository_id r' \<and>
    ch_content_hash r = ch_content_hash r'"
  by (simp add: stored_text_def row_key_def)

text \<open>What a step does to the chunks: the texts stay, and a row outside \<open>S\<close> stays as it is.\<close>

definition chunk_step :: "(code_chunk_row \<Rightarrow> bool) \<Rightarrow> (code_chunk_row \<Rightarrow> bool) \<Rightarrow> code_chunk_row \<Rightarrow> code_chunk_row \<Rightarrow> bool" where
  "chunk_step S P r r' \<longleftrightarrow> stored_text r' = stored_text r \<and> (if S r then P r' else r' = r)"

definition same_item :: "code_chunk_row \<Rightarrow> code_chunk_row \<Rightarrow> bool" where
  "same_item row r \<longleftrightarrow> ch_id r = ch_id row \<and> ch_content_hash r = ch_content_hash row"

lemma store_vector_step:
  assumes "store_vector profile (row, v) d = Inr d'"
  shows "list_all2 (chunk_step (same_item row) (\<lambda>r. \<not> needs_embedding profile r)) (db_chunks d) (db_chunks d')"
  using assms
  by (auto simp: store_vector_def Let_def list_all2_map2 chunk_step_def same_item_def stored_text_def row_key_def
      needs_embedding_def list_all2_same split: if_splits)

lemma store_batch_step:
  "foldE (store_vector profile) items d = Inr d' \<Longrightarrow>
    list_all2 (chunk_step (\<lambda>r. \<exists>x \<in> set items. same_item (fst x) r) (\<lambda>r. \<not> needs_embedding profile r))
      (db_chunks d) (db_chunks d')"
proof (induction items arbitrary: d)
  case Nil
  then show ?case by (simp add: list_all2_same chunk_step_def)
next
  case (Cons x items)
  obtain row v where x: "x = (row, v)" by (cases x)
  from Cons.prems obtain d1 where s: "store_vector profile (row, v) d = Inr d1"
    and r: "foldE (store_vector profile) items d1 = Inr d'" by (auto simp: x)
  have compose: "chunk_step (\<lambda>r. \<exists>y \<in> set (x # items). same_item (fst y) r) (\<lambda>r. \<not> needs_embedding profile r) a c"
    if "chunk_step (same_item row) (\<lambda>r. \<not> needs_embedding profile r) a b"
      and "chunk_step (\<lambda>r. \<exists>y \<in> set items. same_item (fst y) r) (\<lambda>r. \<not> needs_embedding profile r) b c" for a b c
    using that stored_text_eq [of b a] by (auto simp: chunk_step_def x same_item_def split: if_splits)
  from list_all2_trans [OF compose store_vector_step [OF s] Cons.IH [OF r]] show ?case .
qed

lemma missing_embeddings_cong:
  "db_chunks d = db_chunks d' \<Longrightarrow> missing_embeddings repository profile d = missing_embeddings repository profile d'"
  by (simp add: missing_embeddings_def repository_chunks_def)

text \<open>When a step embeds exactly the rows of a batch, those are the ones that are no longer missing.\<close>

lemma embedded_batch:
  assumes ids: "distinct (map ch_id (db_chunks d))"
    and batch: "batch = take many (sort_key ch_id (missing_embeddings repository profile d))"
    and step: "list_all2 (chunk_step (\<lambda>r. ch_id r \<in> ch_id ` set batch) (\<lambda>r. \<not> needs_embedding profile r))
      (db_chunks d) (db_chunks d')"
  shows "length (missing_embeddings repository profile d') + length batch =
    length (missing_embeddings repository profile d)"
proof -
  let ?M = "missing_embeddings repository profile d"
  let ?left = "drop many (sort_key ch_id ?M)"
  have m: "mset ?M = mset ?left + mset batch"
    unfolding batch by (metis append_take_drop_id mset_append add.commute mset_sort)
  have d: "distinct (map ch_id ?M)"
    using ids by (simp add: missing_embeddings_def repository_chunks_def distinct_map_filter)
  have "length (filter P xs) = length (filter Q ys)"
    if "list_all2 (chunk_step (\<lambda>r. ch_id r \<in> ch_id ` set batch) (\<lambda>r. \<not> needs_embedding profile r)) ys xs"
      and "P = (\<lambda>r. ch_repository_id r = repository \<and> needs_embedding profile r)"
      and "Q = (\<lambda>r. ch_id r \<notin> ch_id ` set batch \<and> ch_repository_id r = repository \<and> needs_embedding profile r)"
    for P Q xs ys
    using that by (induction rule: list_all2_induct) (auto simp: chunk_step_def dest!: stored_text_eq split: if_splits)
  from this [OF step refl refl]
  have "length (missing_embeddings repository profile d') = length (filter (\<lambda>r. ch_id r \<notin> ch_id ` set batch) ?M)"
    by (simp add: missing_embeddings_def repository_chunks_def conj_commute)
  also have "\<dots> = length ?left"
    using filter_gone [OF d m] by (metis size_mset)
  finally show ?thesis using m by (metis size_mset size_union)
qed

definition others_keep_chunks :: "'x environment \<Rightarrow> bool" where
  "others_keep_chunks env \<longleftrightarrow> (\<forall>n d. db_chunks (env_others env n d) = db_chunks d)"

lemma session_chunks:
  assumes "others_keep_chunks env" and "session env op w = (Inr x, w')"
  obtains d where "op d = Inr (w_db w', x)" and "db_chunks d = db_chunks (w_db w)"
  using assms by (auto simp: session_def Let_def others_keep_chunks_def split: sum.splits)

lemma embed_texts_db: "embed_texts ask texts w = (r, w') \<Longrightarrow> w_db w' = w_db w"
  by (auto simp: embed_texts_def external_def split: prod.splits)

lemma validate_vectors_length:
  "validate_vectors hypot n dims v = Inr vs \<Longrightarrow> length vs = n"
  by (auto simp: validate_vectors_def dest: mapE_length split: json.splits if_splits)

lemma mark_then_store:
  assumes ids: "distinct (map ch_id C)" and rows: "set rows \<subseteq> set C" and items: "fst ` set items = set rows"
    and marked: "C1 = map (\<lambda>r. if ch_id r \<in> ch_id ` set rows then r\<lparr>ch_embedding_status := progress\<rparr> else r) C"
    and stored: "list_all2 (chunk_step (\<lambda>r. \<exists>x \<in> set items. same_item (fst x) r) P) C1 C2"
  shows "list_all2 (chunk_step (\<lambda>r. ch_id r \<in> ch_id ` set rows) P) C C2"
proof -
  have one: "chunk_step (\<lambda>r. ch_id r \<in> ch_id ` set rows) P r r'"
    if r: "r \<in> set C" and s: "chunk_step (\<lambda>r. \<exists>x \<in> set items. same_item (fst x) r) P
      (if ch_id r \<in> ch_id ` set rows then r\<lparr>ch_embedding_status := progress\<rparr> else r) r'" for r r'
  proof (cases "ch_id r \<in> ch_id ` set rows")
    case True
    then obtain row where "row \<in> set rows" "ch_id r = ch_id row" by blast
    with ids rows r have "r \<in> set rows" by (metis distinct_map inj_onD subsetD)
    then obtain x where "x \<in> set items" "fst x = r" using items by (metis imageE)
    then have "\<exists>x \<in> set items. same_item (fst x) (r\<lparr>ch_embedding_status := progress\<rparr>)"
      by (auto simp: same_item_def)
    with s True have "stored_text r' = stored_text (r\<lparr>ch_embedding_status := progress\<rparr>) \<and> P r'"
      by (simp only: chunk_step_def if_True)
    with True show ?thesis by (simp add: chunk_step_def stored_text_def row_key_def)
  next
    case False
    have "\<not> (\<exists>x \<in> set items. same_item (fst x) r)"
    proof
      assume "\<exists>x \<in> set items. same_item (fst x) r"
      then obtain x where "x \<in> set items" "ch_id r = ch_id (fst x)" by (auto simp: same_item_def)
      with items False show False by (metis image_eqI)
    qed
    with s False show ?thesis by (auto simp: chunk_step_def)
  qed
  from stored have len: "length C = length C2"
    and nth: "\<forall>i < length C. chunk_step (\<lambda>r. \<exists>x \<in> set items. same_item (fst x) r) P
      (if ch_id (C ! i) \<in> ch_id ` set rows then (C ! i)\<lparr>ch_embedding_status := progress\<rparr> else C ! i) (C2 ! i)"
    by (simp_all add: marked list_all2_conv_all_nth)
  show ?thesis unfolding list_all2_conv_all_nth using len nth one by simp
qed

lemma chunk_step_texts:
  "list_all2 (chunk_step S P) C C' \<Longrightarrow> map stored_text C' = map stored_text C"
  by (induction rule: list_all2_induct) (auto simp: chunk_step_def)

lemma chunk_step_ids: "map stored_text C' = map stored_text C \<Longrightarrow> map ch_id C' = map ch_id C"
proof -
  have "map ch_id xs = map fst (map stored_text xs)" for xs by (simp add: stored_text_def)
  then show "map stored_text C' = map stored_text C \<Longrightarrow> map ch_id C' = map ch_id C" by metis
qed

text \<open>A round ends the loop when nothing is missing, and embeds its batch otherwise.\<close>

definition round_done :: "uuid \<Rightarrow> string \<Rightarrow> db \<Rightarrow> nat \<Rightarrow> db \<Rightarrow> bool" where
  "round_done repository profile d n d' \<longleftrightarrow> map stored_text (db_chunks d') = map stored_text (db_chunks d) \<and>
     length (missing_embeddings repository profile d') + n = length (missing_embeddings repository profile d) \<and>
     (n = 0 \<longrightarrow> missing_embeddings repository profile d' = [])"

lemma embed_round_Inr:
  assumes keep: "others_keep_chunks env" and many: "0 < emb_batch_size em"
    and ids: "distinct (map ch_id (db_chunks (w_db w)))"
    and run: "embed_round env ask em repository (w, l) = (Inr n, (w', l'))"
  shows "round_done repository (emb_profile em) (w_db w) n (w_db w')"
proof -
  let ?M = "missing_embeddings repository (emb_profile em)"
  from run obtain rows w1 where s: "session env (\<lambda>d. Inr (claim_batch repository (emb_profile em) (emb_batch_size em) d)) w = (Inr rows, w1)"
    and rest: "(rows = [] \<and> n = 0 \<and> w' = w1) \<or> (rows \<noteq> [] \<and> n = length rows \<and>
      (\<exists>vectors w2. length vectors = length rows \<and> w_db w2 = w_db w1 \<and>
        session env (\<lambda>d. bindE (foldE (store_vector (emb_profile em)) (zip rows vectors) d) (\<lambda>d'. Inr (d', ()))) w2 =
          (Inr (), w')))"
    unfolding embed_round_def
    by (auto simp: runs_Inr on_world_Inr locals_Inr
        dest!: validate_vectors_length embed_texts_db split: if_splits)
  from s obtain d where d: "claim_batch repository (emb_profile em) (emb_batch_size em) d = (w_db w1, rows)"
    and same: "db_chunks d = db_chunks (w_db w)"
    by (rule session_chunks [OF keep]) simp
  from d have rows: "rows = take (emb_batch_size em) (sort_key ch_id (?M (w_db w)))"
    and marked: "db_chunks (w_db w1) = map (\<lambda>r. if ch_id r \<in> ch_id ` set rows
      then r\<lparr>ch_embedding_status := ''embedding''\<rparr> else r) (db_chunks (w_db w))"
    using arg_cong [OF d, of snd] arg_cong [OF d, of "\<lambda>p. db_chunks (fst p)"]
    by (simp_all add: claim_batch_def Let_def mark_chunks_def same missing_embeddings_cong [OF same])
  show ?thesis
  proof (cases "rows = []")
    case True
    with rest have w': "n = 0" "db_chunks (w_db w') = db_chunks (w_db w)" using marked by auto
    from True many have "?M (w_db w) = []" by (auto simp: rows) (metis length_0_conv length_sort)
    with w' show ?thesis by (simp add: round_done_def missing_embeddings_cong [OF w'(2)])
  next
    case False
    with rest obtain vectors w2 where v: "length vectors = length rows" and w2: "w_db w2 = w_db w1"
      and s2: "session env (\<lambda>d. bindE (foldE (store_vector (emb_profile em)) (zip rows vectors) d) (\<lambda>d'. Inr (d', ()))) w2 =
          (Inr (), w')" and n: "n = length rows" by auto
    from s2 obtain d3 where f: "foldE (store_vector (emb_profile em)) (zip rows vectors) d3 = Inr (w_db w')"
      and same3: "db_chunks d3 = db_chunks (w_db w1)"
      by (rule session_chunks [OF keep]) (auto simp: w2)
    have sub: "set rows \<subseteq> set (db_chunks (w_db w))"
      using set_take_subset [of "emb_batch_size em" "sort_key ch_id (?M (w_db w))"]
      by (auto simp: rows missing_embeddings_def repository_chunks_def)
    have items: "fst ` set (zip rows vectors) = set rows"
      using v by (metis list.set_map map_fst_zip)
    have step: "list_all2 (chunk_step (\<lambda>r. ch_id r \<in> ch_id ` set rows) (\<lambda>r. \<not> needs_embedding (emb_profile em) r))
        (db_chunks (w_db w)) (db_chunks (w_db w'))"
      using store_batch_step [OF f] unfolding same3
      by (rule mark_then_store [OF ids sub items marked])
    from embedded_batch [OF ids rows step] chunk_step_texts [OF step] False show ?thesis
      by (simp add: round_done_def n)
  qed
qed

section \<open>The loop\<close>

text \<open>The provider answers or raises; only the model's own loops are still running.\<close>

definition provider_raises :: "(pystr list \<Rightarrow> 'x \<Rightarrow> (exc + json) \<times> 'x) \<Rightarrow> bool" where
  "provider_raises ask \<longleftrightarrow> (\<forall>texts x. fst (ask texts x) \<noteq> Inl StillRunning)"

lemma validate_vectors_Inl: "validate_vectors hypot n dims v = Inl e \<Longrightarrow> e \<noteq> StillRunning"
  by (auto simp: validate_vectors_def validate_vector_def Let_def dest!: mapE_InlD
      split: json.splits if_splits option.splits)

lemma store_batch_Inl: "foldE (store_vector profile) items d = Inl e \<Longrightarrow> e \<noteq> StillRunning"
  by (induction items arbitrary: d) (auto simp: store_vector_def Let_def split: if_splits)

definition not_running :: "exc \<Rightarrow> 's \<Rightarrow> bool" where
  "not_running e s \<longleftrightarrow> e \<noteq> StillRunning"

lemma session_not_running:
  "(\<And>d e. op d = Inl e \<Longrightarrow> e \<noteq> StillRunning) \<Longrightarrow>
    holds (\<lambda>_. True) (on_world (session env op)) (\<lambda>_ _. True) not_running"
  by (auto simp: holds_def on_world_def session_def not_running_def Let_def split: prod.splits sum.splits)

lemma ask_not_running:
  fixes ask :: "pystr list \<Rightarrow> 'x \<Rightarrow> (exc + json) \<times> 'x"
  assumes "provider_raises ask"
  shows "holds (\<lambda>_. True) (on_world (embed_texts ask texts)) (\<lambda>_ _. True) not_running"
proof (rule holdsI)
  fix s :: "'x world \<times> 'l" and r t
  assume run: "on_world (embed_texts ask texts) s = (r, t)"
  obtain w l where s: "s = (w, l)" by fastforce
  have "fst (ask texts (w_ext w)) \<noteq> Inl StillRunning" using assms by (simp add: provider_raises_def)
  with run s have "r \<noteq> Inl StillRunning"
    by (auto simp: on_world_def embed_texts_def external_def split: prod.splits)
  then show "case r of Inr x \<Rightarrow> True | Inl e \<Rightarrow> not_running e t"
    by (auto simp: not_running_def split: sum.splits)
qed

lemma embed_round_not_running:
  assumes "provider_raises ask"
  shows "holds (\<lambda>_. True) (embed_round env ask em repository) (\<lambda>_ _. True) not_running"
proof -
  have assign: "holds (\<lambda>_. True) (assign f) (\<lambda>_ _. True) not_running" for f :: "uuid list \<Rightarrow> uuid list"
    by (auto simp: holds_def assign_def)
  have valid: "holds (\<lambda>_. True) (liftE (validate_vectors h n dims v)) (\<lambda>_ _. True) not_running" for h n dims v
    by (rule holds_liftE) (auto simp: not_running_def dest: validate_vectors_Inl)
  have store: "holds (\<lambda>_. True) (on_world (session env (\<lambda>d. bindE (foldE (store_vector p) items d) (\<lambda>d'. Inr (d', ())))))
      (\<lambda>_ _. True) not_running" for p items
    by (rule session_not_running) (auto dest: store_batch_Inl)
  have claim: "holds (\<lambda>_. True) (on_world (session env (\<lambda>d. Inr (claim_batch r p n d)))) (\<lambda>_ _. True) not_running" for r p n
    by (rule session_not_running) simp
  have pure: "holds (\<lambda>_. True) (ret x) (\<lambda>_ _. True) not_running" for x :: nat
    by (rule holds_ret)
  show ?thesis
    unfolding embed_round_def
    by (intro holds_bind [OF claim] holds_seq [OF assign] holds_if pure holds_bind [OF ask_not_running [OF assms]]
        holds_bind [OF valid] holds_seq [OF store])
qed

lemma embed_rounds_end:
  assumes keep: "others_keep_chunks env" and many: "0 < emb_batch_size em" and ask: "provider_raises ask"
  shows "distinct (map ch_id (db_chunks (w_db w))) \<Longrightarrow>
    length (missing_embeddings repository (emb_profile em) (w_db w)) < fuel \<Longrightarrow>
    embed_rounds (embed_round env ask em repository) fuel completed (w, l) = (r, (w', l')) \<Longrightarrow>
    (case r of
       Inl e \<Rightarrow> e \<noteq> StillRunning
     | Inr m \<Rightarrow> m = completed + length (missing_embeddings repository (emb_profile em) (w_db w)) \<and>
         missing_embeddings repository (emb_profile em) (w_db w') = [] \<and>
         map stored_text (db_chunks (w_db w')) = map stored_text (db_chunks (w_db w)))"
proof (induction fuel arbitrary: completed w l)
  case 0
  then show ?case by simp
next
  case (Suc fuel)
  obtain r0 w1 l1 where one: "embed_round env ask em repository (w, l) = (r0, (w1, l1))"
    by (metis surj_pair)
  show ?case
  proof (cases r0)
    case (Inl e)
    with one holds_InlD [OF embed_round_not_running [OF ask, of env em repository] TrueI] have "e \<noteq> StillRunning"
      by (auto simp: not_running_def)
    with Inl one Suc.prems(3) show ?thesis by (auto simp: bindM_def)
  next
    case (Inr n)
    with embed_round_Inr [OF keep many Suc.prems(1), of ask repository l n w1 l1] one
    have fin: "round_done repository (emb_profile em) (w_db w) n (w_db w1)" by simp
    then have texts: "map stored_text (db_chunks (w_db w1)) = map stored_text (db_chunks (w_db w))"
      by (simp add: round_done_def)
    show ?thesis
    proof (cases "n = 0")
      case True
      with Inr one Suc.prems(3) fin show ?thesis by (auto simp: bindM_def ret_def round_done_def)
    next
      case False
      with Inr one Suc.prems(3) have
        "embed_rounds (embed_round env ask em repository) fuel (completed + n) (w1, l1) = (r, (w', l'))"
        by (simp add: bindM_def)
      from Suc.IH [OF _ _ this] chunk_step_ids [OF texts] Suc.prems(1,2) fin False texts
      show ?thesis by (auto simp: round_done_def split: sum.splits)
    qed
  qed
qed

section \<open>Correctness\<close>

definition embedding_marked :: "uuid \<Rightarrow> string \<Rightarrow> db \<Rightarrow> bool" where
  "embedding_marked repository progress d \<longleftrightarrow>
     list_all (\<lambda>r. repo_id r = repository \<longrightarrow> repo_embedding_status r = progress) (db_repositories d)"

lemma marked_embedding: "embedding_marked repository progress (mark_embedding repository progress d)"
  by (simp add: embedding_marked_def mark_embedding_def list_all_length)

lemma embedding_begin_chunks: "embedding_begin repository d = Inr d' \<Longrightarrow> db_chunks d' = db_chunks d"
  by (auto simp: embedding_begin_def mark_embedding_def split: option.splits if_splits)

lemma session_total:
  "session env (\<lambda>d. Inr (f d, ())) w = (r, w') \<Longrightarrow> r = Inr () \<and> (\<exists>d. w_db w' = f d \<and>
    d = env_others env (w_tick w) (w_db w))"
  by (auto simp: session_def Let_def)

text \<open>C27. Generating embeddings ends: when no other worker touches the chunks, which the lock of the
  checkout is for, as many rounds as there are chunks to embed and one more are enough, whatever the
  provider answers and however it fails. When it returns, every chunk of the repository has a current
  embedding, the number it reports is the number that were missing, and no chunk has changed otherwise;
  when it raises, the repository is marked as failed, unless its index was not ready.\<close>

theorem embedding_terminates:
  assumes keep: "others_keep_chunks env" and ask: "provider_raises ask" and many: "0 < emb_batch_size em"
    and ids: "distinct (map ch_id (db_chunks (w_db w)))"
    and fuel: "length (missing_embeddings repository (emb_profile em) (w_db w)) < fuel"
  shows "case embedding_locked env ask em fuel repository w of
     (Inr n, w') \<Rightarrow> n = length (missing_embeddings repository (emb_profile em) (w_db w)) \<and>
       missing_embeddings repository (emb_profile em) (w_db w') = [] \<and>
       map stored_text (db_chunks (w_db w')) = map stored_text (db_chunks (w_db w)) \<and>
       embedding_marked repository ''ready'' (w_db w')
   | (Inl e, w') \<Rightarrow> e = EmbeddingFailure ''index_not_ready'' \<or>
       e = EmbeddingFailure ''embedding_generation_failed'' \<and> embedding_marked repository ''error'' (w_db w')"
proof -
  let ?start = "session env (\<lambda>d. bindE (embedding_begin repository d) (\<lambda>d'. Inr (d', ())))"
  let ?one = "embed_round env ask em repository"
  obtain r w1 where b: "?start w = (r, w1)" by fastforce
  show ?thesis
  proof (cases r)
    case (Inl e)
    with b have "e = EmbeddingFailure ''index_not_ready''"
      by (auto simp: session_def Let_def embedding_begin_def split: sum.splits option.splits if_splits)
    with Inl b show ?thesis by (simp add: embedding_locked_def seqM_def bindM_def)
  next
    case (Inr u)
    with b obtain d where "bindE (embedding_begin repository d) (\<lambda>d'. Inr (d', ())) = Inr (w_db w1, ())"
      and d: "db_chunks d = db_chunks (w_db w)" by (auto elim: session_chunks [OF keep])
    then have same: "db_chunks (w_db w1) = db_chunks (w_db w)"
      by (auto dest: embedding_begin_chunks)
    obtain r2 w2 l2 where rounds: "embed_rounds ?one fuel 0 (w1, []) = (r2, (w2, l2))" by (metis surj_pair)
    from embed_rounds_end [OF keep many ask _ _ rounds, unfolded same missing_embeddings_cong [OF same] add_0] ids fuel
    have res: "case r2 of Inl e \<Rightarrow> e \<noteq> StillRunning
      | Inr m \<Rightarrow> m = length (missing_embeddings repository (emb_profile em) (w_db w)) \<and>
         missing_embeddings repository (emb_profile em) (w_db w2) = [] \<and>
         map stored_text (db_chunks (w_db w2)) = map stored_text (db_chunks (w_db w))"
      by simp
    show ?thesis
    proof (cases r2)
      case (Inl e)
      obtain r3 w3 where f: "session env (\<lambda>d. Inr (mark_embedding repository ''error'' (mark_chunks l2 ''error'' d), ())) w2 =
        (r3, w3)" by fastforce
      from session_total [OF f] have "r3 = Inr ()" "embedding_marked repository ''error'' (w_db w3)"
        by (auto simp: marked_embedding)
      with Inl res b rounds f \<open>r = Inr u\<close> show ?thesis
        by (simp add: embedding_locked_def embedding_failure_def seqM_def bindM_def scoped_def raise_def)
    next
      case (Inr m)
      obtain r3 w3 where f: "session env (\<lambda>d. Inr (mark_embedding repository ''ready'' d, ())) w2 = (r3, w3)" by fastforce
      from session_total [OF f] have "r3 = Inr ()" "embedding_marked repository ''ready'' (w_db w3)"
        by (auto simp: marked_embedding)
      moreover have "db_chunks (w_db w3) = db_chunks (w_db w2)"
        using session_total [OF f] keep by (auto simp: mark_embedding_def others_keep_chunks_def)
      ultimately show ?thesis
        using Inr res b rounds f \<open>r = Inr u\<close> missing_embeddings_cong [of "w_db w3" "w_db w2"]
        by (simp add: embedding_locked_def seqM_def bindM_def scoped_def on_world_def ret_def)
    qed
  qed
qed

section \<open>A concrete repository\<close>

definition sample_chunk :: "uuid \<Rightarrow> code_chunk_row" where
  "sample_chunk i = new_chunk_row i 1 \<lparr>chunk_file_path = pytext ''m.py'', chunk_language = ''python'',
     chunk_start_line = i, chunk_end_line = i, chunk_content = pytext ''x'', chunk_content_hash = ''h''\<rparr>"

definition sample_embedder :: embedder where
  "sample_embedder = \<lparr>emb_profile = ''p'', emb_batch_size = 1, emb_hypot = (\<lambda>_. Some 1)\<rparr>"

definition sample_provider :: "pystr list \<Rightarrow> nat \<Rightarrow> (exc + json) \<times> nat" where
  "sample_provider texts n =
     (Inr (Json_list (map (\<lambda>_. Json_list (replicate EMBEDDING_DIMENSION (Json_int 1))) texts)), n)"

definition sample_indexed :: db where
  "sample_indexed = example_db\<lparr>db_chunks := [sample_chunk 1, sample_chunk 2]\<rparr>"

theorem embedding_terminates_witness:
  "case embedding_locked example_environment sample_provider sample_embedder 3 1 (example_world sample_indexed) of
     (Inr n, w') \<Rightarrow> n = 2 \<and> missing_embeddings 1 ''p'' (w_db w') = []
   | (Inl e, w') \<Rightarrow> e = EmbeddingFailure ''index_not_ready'' \<or> e = EmbeddingFailure ''embedding_generation_failed''"
proof -
  have keep: "others_keep_chunks example_environment" by (simp add: others_keep_chunks_def example_environment_def)
  have ask: "provider_raises sample_provider" by (simp add: provider_raises_def sample_provider_def)
  have two: "missing_embeddings 1 ''p'' (w_db (example_world sample_indexed)) = [sample_chunk 1, sample_chunk 2]"
    by (simp add: missing_embeddings_def repository_chunks_def example_world_def sample_indexed_def
        sample_chunk_def new_chunk_row_def needs_embedding_def)
  have ids: "distinct (map ch_id (db_chunks (w_db (example_world sample_indexed))))"
    by (simp add: example_world_def sample_indexed_def sample_chunk_def new_chunk_row_def)
  from embedding_terminates [OF keep ask _ ids, of sample_embedder 1 3] two show ?thesis
    by (auto simp: sample_embedder_def split: sum.splits prod.splits)
qed

end
