(* ===== verification/Provider_Resources.thy ===== *)
theory Provider_Resources
  imports Embeddings Settings
begin

text \<open>
  \<^verbatim>\<open>app/services/llm_resources.py\<close>, \<^verbatim>\<open>app/services/embedding_resources.py\<close> and the
  wrapper of the latter in \<^verbatim>\<open>app/orchestration/workflow_resources.py\<close>: whether a provider can be
  opened with the settings. The settings of the base URL and of the embedding model are arguments.
\<close>

definition provider_base :: "string option \<Rightarrow> string" where
  "provider_base base = (if or_empty base = [] then ''https://api.openai.com/v1'' else or_empty base)"

definition provider_url :: "url \<Rightarrow> bool" where
  "provider_url u \<longleftrightarrow> u_scheme u = ''https'' \<and> or_empty (url_hostname u) \<noteq> [] \<and> fst (user_info u) = None \<and>
     snd (user_info u) = None \<and> u_query u = [] \<and> u_fragment u = []"

text \<open>The provider of the language model checks the port as well, and reports every malformed URL.\<close>

definition open_llm :: "url_rules \<Rightarrow> string option \<Rightarrow> service_settings \<Rightarrow> exc + unit" where
  "open_llm rules base st =
     (if strip (or_empty (ss_llm_api_key st)) = [] \<or> strip (or_empty (ss_llm_model st)) = []
      then Inl (LLMFailure ''llm_unconfigured'')
      else (case bindE (urlsplit rules (provider_base base)) (\<lambda>u. bindE (url_port u) (\<lambda>_. Inr u)) of
              Inl _ \<Rightarrow> Inl (LLMFailure ''llm_invalid_configuration'')
            | Inr u \<Rightarrow> if provider_url u then Inr () else Inl (LLMFailure ''llm_invalid_configuration'')))"

definition open_embeddings :: "url_rules \<Rightarrow> string option \<Rightarrow> string option \<Rightarrow> service_settings \<Rightarrow> exc + unit" where
  "open_embeddings rules base model st =
     (if ss_llm_api_key st = None \<or> or_empty model = []
      then Inl (ServiceFailure (WorkflowError ''workflow_embeddings_unconfigured''))
      else bindE (urlsplit rules (provider_base base)) (\<lambda>u.
           if provider_url u \<and> ss_embedding_dim st = int EMBEDDING_DIMENSION then Inr ()
           else Inl (EmbeddingFailure ''embedding_invalid_configuration'')))"

end
