(* ===== verification/Http.thy ===== *)
theory Http
  imports Service_World
begin

text \<open>
  What the clients of models and of GitHub share: the answer of an HTTP request, the digits of a
  header, and the loop that repeats a request with growing pauses. The HTTP library is an argument; the
  client's state counts the requests sent and lists the pauses slept.
\<close>

section \<open>Requests\<close>

text \<open>
  Header names are looked up in lower case. \<open>hr_json\<close> is the decoded body, \<open>None\<close> when it is no JSON.
\<close>

record http_response =
  hr_status :: int
  hr_headers :: "string \<Rightarrow> string option"
  hr_text :: pystr
  hr_json :: "json option"

datatype http_outcome = Response http_response | Http_timeout | Http_failed

definition is_success :: "http_response \<Rightarrow> bool" where
  "is_success r \<longleftrightarrow> 200 \<le> hr_status r \<and> hr_status r < 300"

definition header :: "string \<Rightarrow> http_response \<Rightarrow> string" where
  "header name r = (case hr_headers r name of None \<Rightarrow> [] | Some v \<Rightarrow> v)"

record 'x client =
  cl_ext :: 'x
  cl_requests :: nat
  cl_slept :: "rat list"

definition send_request :: "('q \<Rightarrow> 'x \<Rightarrow> http_outcome \<times> 'x) \<Rightarrow> 'q \<Rightarrow> ('x client, http_outcome) eff" where
  "send_request http q = (\<lambda>c. case http q (cl_ext c) of
     (answer, x) \<Rightarrow> (Inr answer, c\<lparr>cl_ext := x, cl_requests := Suc (cl_requests c)\<rparr>))"

definition pause :: "rat \<Rightarrow> ('x client, unit) eff" where
  "pause d = (\<lambda>c. (Inr (), c\<lparr>cl_slept := cl_slept c @ [d]\<rparr>))"

section \<open>Digits\<close>

text \<open>
  \<open>str.isdigit\<close> also accepts the superscripts, which neither \<open>int\<close> nor \<open>float\<close> does; \<open>int\<close> refuses more
  than 4300 digits.
\<close>

definition digit_char :: "char \<Rightarrow> bool" where
  "digit_char c \<longleftrightarrow> ascii_digit c \<or> of_char c \<in> {178 :: nat, 179, 185}"

definition is_digits :: "string \<Rightarrow> bool" where
  "is_digits s \<longleftrightarrow> s \<noteq> [] \<and> (\<forall>c \<in> set s. digit_char c)"

definition is_ascii :: "string \<Rightarrow> bool" where
  "is_ascii s \<longleftrightarrow> (\<forall>c \<in> set s. of_char c < (128 :: nat))"

definition digits_value :: "string \<Rightarrow> nat" where
  "digits_value s = fold (\<lambda>c n. 10 * n + (of_char c - 48)) s 0"

definition float_of_digits :: "string \<Rightarrow> exc + rat" where
  "float_of_digits s = (if \<forall>c \<in> set s. ascii_digit c then Inr (of_nat (digits_value s)) else Inl ValueFailure)"

definition int_of_digits :: "string \<Rightarrow> exc + int" where
  "int_of_digits s =
     (if (\<forall>c \<in> set s. ascii_digit c) \<and> length s \<le> 4300 then Inr (int (digits_value s)) else Inl ValueFailure)"

section \<open>Repeating a request\<close>

datatype attempt_result = Answered http_response | Refused exc | Try_again exc rat

text \<open>\<open>float(min(2**attempt, 8))\<close>.\<close>

definition backoff :: "nat \<Rightarrow> rat" where
  "backoff attempt = of_nat (min (2 ^ attempt) 8)"

text \<open>\<open>for attempt in range(max_retries + 1)\<close>: the attempts made and the ones left.\<close>

fun repeat_request ::
  "('s, http_outcome) eff \<Rightarrow> (rat \<Rightarrow> ('s, unit) eff) \<Rightarrow> (nat \<Rightarrow> http_outcome \<Rightarrow> attempt_result) \<Rightarrow>
    (http_response \<Rightarrow> exc + 'a) \<Rightarrow> nat \<Rightarrow> nat \<Rightarrow> ('s, 'a) eff" where
  "repeat_request request sleep judge decode attempt left = bindM request (\<lambda>answer.
     case judge attempt answer of
       Answered r \<Rightarrow> liftE (decode r)
     | Refused e \<Rightarrow> raise e
     | Try_again e delay \<Rightarrow> (case left of
           0 \<Rightarrow> raise e
         | Suc rest \<Rightarrow> if 60 < delay then raise e
             else seqM (sleep delay) (repeat_request request sleep judge decode (Suc attempt) rest)))"

declare repeat_request.simps [simp del]

lemma backoff_range: "1 \<le> backoff n" "backoff n \<le> 8"
proof -
  have "(1 :: nat) \<le> min (2 ^ n) 8" by simp
  then have "(of_nat 1 :: rat) \<le> of_nat (min (2 ^ n) 8)" by (simp only: of_nat_le_iff)
  then show "1 \<le> backoff n" by (simp add: backoff_def)
  have "(of_nat (min (2 ^ n) 8) :: rat) \<le> of_nat 8" by (simp only: of_nat_le_iff min.cobounded2)
  then show "backoff n \<le> 8" by (simp add: backoff_def)
qed

lemma send_bind:
  "http q (cl_ext c) = (answer, x) \<Longrightarrow>
    bindM (send_request http q) f c = f answer (c\<lparr>cl_ext := x, cl_requests := Suc (cl_requests c)\<rparr>)"
  by (simp add: bindM_def send_request_def)

lemma pause_seq: "seqM (pause d) m c = m (c\<lparr>cl_slept := cl_slept c @ [d]\<rparr>)"
  by (simp add: seqM_def bindM_def pause_def)

lemma repeat_request_decoded:
  "repeat_request (send_request http q) pause judge decode n left c = (Inr x, c') \<Longrightarrow> \<exists>r. decode r = Inr x"
proof (induction left arbitrary: n c)
  case 0
  obtain answer y where a: "http q (cl_ext c) = (answer, y)" by fastforce
  from 0 show ?case
    by (subst (asm) repeat_request.simps)
      (cases "judge n answer"; auto simp: send_bind [of http q, OF a] liftE_def raise_def)
next
  case (Suc left)
  obtain answer y where a: "http q (cl_ext c) = (answer, y)" by fastforce
  from Suc.prems show ?case
    by (subst (asm) repeat_request.simps)
      (cases "judge n answer"; auto simp: send_bind [of http q, OF a] pause_seq liftE_def raise_def
        intro: Suc.IH split: if_splits)
qed

text \<open>
  The contract of a provider's judgement: a request that is repeated waits at least as long as the
  backoff asks, and a failure is one of the provider's own.
\<close>

locale retrying =
  fixes judge :: "nat \<Rightarrow> http_outcome \<Rightarrow> attempt_result" and known :: "exc \<Rightarrow> bool"
  assumes patient: "judge n answer = Try_again e delay \<Longrightarrow> backoff n \<le> delay"
    and refusal: "judge n answer = Refused e \<Longrightarrow> known e"
    and failure: "judge n answer = Try_again e delay \<Longrightarrow> known e"
begin

lemma repeat_request_known:
  assumes "\<And>r e. decode r = Inl e \<Longrightarrow> known e"
    and "repeat_request (send_request http q) pause judge decode n left c = (Inl e, c')"
  shows "known e"
  using assms(2)
proof (induction left arbitrary: n c)
  case 0
  obtain answer x where a: "http q (cl_ext c) = (answer, x)" by fastforce
  from 0 show ?case
    by (subst (asm) repeat_request.simps)
      (cases "judge n answer"; auto simp: bindM_def send_request_def a liftE_def raise_def
        intro: assms(1) refusal failure)
next
  case (Suc left)
  obtain answer x where a: "http q (cl_ext c) = (answer, x)" by fastforce
  from Suc.prems show ?case
    by (subst (asm) repeat_request.simps)
      (cases "judge n answer"; auto simp: send_bind [of http q, OF a] pause_seq liftE_def raise_def
        intro: assms(1) refusal failure Suc.IH split: if_splits)
qed

lemma repeat_request_bounded:
  assumes "repeat_request (send_request http q) pause judge decode n left c = (r, c')"
  shows "\<exists>ds. cl_slept c' = cl_slept c @ ds \<and> cl_requests c' = cl_requests c + length ds + 1 \<and>
    length ds \<le> left \<and> (\<forall>i < length ds. backoff (n + i) \<le> ds ! i \<and> ds ! i \<le> 60)"
  using assms
proof (induction left arbitrary: n c)
  case 0
  then show ?case
    by (auto simp: repeat_request.simps bindM_def send_request_def liftE_def raise_def
        split: prod.splits attempt_result.splits)
next
  case (Suc left)
  obtain answer x where a: "http q (cl_ext c) = (answer, x)" by fastforce
  let ?c1 = "c\<lparr>cl_ext := x, cl_requests := Suc (cl_requests c)\<rparr>"
  show ?case
  proof (cases "\<exists>e delay. judge n answer = Try_again e delay \<and> delay \<le> 60")
    case True
    then obtain e delay where j: "judge n answer = Try_again e delay" "delay \<le> 60" by blast
    let ?c2 = "?c1\<lparr>cl_slept := cl_slept ?c1 @ [delay]\<rparr>"
    from Suc.prems j have "repeat_request (send_request http q) pause judge decode (Suc n) left ?c2 = (r, c')"
      by (subst (asm) repeat_request.simps) (simp add: bindM_def send_request_def a seqM_def pause_def not_less)
    from Suc.IH [OF this] obtain ds where ds: "cl_slept c' = cl_slept c @ delay # ds"
      "cl_requests c' = cl_requests c + length ds + 2" "length ds \<le> left"
      "\<forall>i < length ds. backoff (Suc n + i) \<le> ds ! i \<and> ds ! i \<le> 60" by auto
    have "\<forall>i < length (delay # ds). backoff (n + i) \<le> (delay # ds) ! i \<and> (delay # ds) ! i \<le> 60"
      using ds(4) j patient [OF j(1)] by (auto simp: nth_Cons split: nat.split)
    with ds show ?thesis by (intro exI [of _ "delay # ds"]) simp
  next
    case False
    with Suc.prems show ?thesis
      by (subst (asm) repeat_request.simps)
        (auto simp: bindM_def send_request_def a liftE_def raise_def not_le split: attempt_result.splits if_splits)
  qed
qed

end

end
