(* ===== verification/Github_Client.thy ===== *)
theory Github_Client
  imports Http Workflow_Engine
begin

text \<open>
  \<^verbatim>\<open>app/integrations/github/client.py\<close>: requests below a fixed base URL, and the reduction of every
  failure to a code, a status and a delay. There are no retries here; the workflow engine decides on them
  from the status.
\<close>

section \<open>Paths\<close>

text \<open>\<open>urllib.parse.quote(text, safe="")\<close>: the UTF-8 bytes of a character, unless it is unreserved.\<close>

definition unreserved :: "char \<Rightarrow> bool" where
  "unreserved c \<longleftrightarrow> ascii_letter c \<or> ascii_digit c \<or> c \<in> set ''_.-~''"

definition utf8_bytes :: "char \<Rightarrow> nat list" where
  "utf8_bytes c = (let n = of_char c :: nat in if n < 128 then [n] else [192 + n div 64, 128 + n mod 64])"

definition hex_char :: "nat \<Rightarrow> char" where
  "hex_char n = char_of (if n < 10 then 48 + n else 55 + n)"

definition percent :: "nat \<Rightarrow> string" where
  "percent b = [CHR ''%'', hex_char (b div 16), hex_char (b mod 16)]"

definition quote_char :: "char \<Rightarrow> string" where
  "quote_char c = (if unreserved c then [c] else concat (map percent (utf8_bytes c)))"

definition quote :: "string \<Rightarrow> string" where
  "quote s = concat (map quote_char s)"

definition github_path :: "string \<Rightarrow> string \<Rightarrow> string" where
  "github_path owner repo = ''repos/'' @ quote owner @ ''/'' @ quote repo"

section \<open>Requests\<close>

record github_request =
  gq_method :: string
  gq_path :: string
  gq_payload :: "json option"

definition mentions_rate_limit :: "pystr \<Rightarrow> bool" where
  "mentions_rate_limit s \<longleftrightarrow>
     (\<exists>n \<in> set [0..<Suc (length s)]. starts_with (pytext ''rate limit'') (drop n (map lower_ascii s)))"

definition rate_limited :: "http_response \<Rightarrow> bool" where
  "rate_limited r \<longleftrightarrow> hr_status r = 429 \<or> hr_headers r ''x-ratelimit-remaining'' = Some ''0'' \<or>
     hr_headers r ''retry-after'' \<noteq> None \<or> mentions_rate_limit (hr_text r)"

definition retry_delay_of :: "int \<Rightarrow> http_response \<Rightarrow> exc + int" where
  "retry_delay_of now r =
     (let retry = header ''retry-after'' r; reset = header ''x-ratelimit-reset'' r in
      if is_digits retry then bindE (int_of_digits retry) (\<lambda>n. Inr (max 1 n))
      else if is_digits reset then bindE (int_of_digits reset) (\<lambda>n. Inr (max 1 (n - now)))
      else Inr 60)"

definition github_response :: "int \<Rightarrow> http_response \<Rightarrow> exc + json" where
  "github_response now r =
     (if hr_status r \<in> {403, 429} \<and> rate_limited r
      then bindE (retry_delay_of now r) (\<lambda>delay. Inl (GitHubFailure ''github_rate_limited'' 429 (Some delay)))
      else if hr_status r = 401 then Inl (GitHubFailure ''github_unauthorized'' 401 None)
      else if hr_status r = 403 then Inl (GitHubFailure ''github_forbidden'' 403 None)
      else if hr_status r = 404 then Inl (GitHubFailure ''github_not_found'' 404 None)
      else if \<not> is_success r then Inl (GitHubFailure ''github_response_error'' 502 None)
      else (case hr_json r of None \<Rightarrow> Inl (GitHubFailure ''github_invalid_response'' 502 None) | Some v \<Rightarrow> Inr v))"

text \<open>\<open>_json\<close>; \<open>now\<close> reads the wall clock.\<close>

record 'x github =
  gh_http :: "github_request \<Rightarrow> 'x \<Rightarrow> http_outcome \<times> 'x"
  gh_now :: "'x \<Rightarrow> int"
  gh_query :: "(string \<times> string) list \<Rightarrow> string"
  gh_number :: "int \<Rightarrow> string"
  gh_lax_int :: "string \<Rightarrow> int option"

definition github_json :: "'x github \<Rightarrow> string \<Rightarrow> string \<Rightarrow> json option \<Rightarrow> ('x, json) eff" where
  "github_json gh verb p payload = (\<lambda>x.
     case gh_http gh \<lparr>gq_method = verb, gq_path = p, gq_payload = payload\<rparr> x of
       (Response r, x') \<Rightarrow> (github_response (gh_now gh x') r, x')
     | (_, x') \<Rightarrow> (Inl (GitHubFailure ''github_unavailable'' 503 None), x'))"

definition invalid_response :: exc where
  "invalid_response = GitHubFailure ''github_invalid_response'' 502 None"

definition json_object_value :: "json \<Rightarrow> bool" where
  "json_object_value v \<longleftrightarrow> (case v of Json_object _ \<Rightarrow> True | _ \<Rightarrow> False)"

definition github_object :: "'x github \<Rightarrow> string \<Rightarrow> string \<Rightarrow> json option \<Rightarrow> ('x, json) eff" where
  "github_object gh verb p payload = bindM (github_json gh verb p payload) (\<lambda>v.
     seqM (ensure invalid_response (json_object_value v)) (ret v))"

section \<open>Operations\<close>

definition find_pull_requests ::
  "'x github \<Rightarrow> string \<Rightarrow> string \<Rightarrow> string \<Rightarrow> string \<Rightarrow> ('x, json list) eff" where
  "find_pull_requests gh owner repo head base =
     bindM (github_json gh ''GET'' (github_path owner repo @ ''/pulls?'' @
       gh_query gh [(''state'', ''all''), (''head'', owner @ '':'' @ head), (''base'', base), (''per_page'', ''100'')])
       None) (\<lambda>data.
     case data of
       Json_list items \<Rightarrow> seqM (ensure invalid_response (\<forall>item \<in> set items. json_object_value item)) (ret items)
     | _ \<Rightarrow> raise invalid_response)"

record repository_data =
  rpd_owner :: string
  rpd_name :: string
  rpd_clone_url :: string
  rpd_default_branch :: string

definition text_within :: "nat \<Rightarrow> nat \<Rightarrow> json option \<Rightarrow> string option" where
  "text_within low high v = (case v of
     Some (Json_text s) \<Rightarrow> if low \<le> length s \<and> length s \<le> high then Some s else None | _ \<Rightarrow> None)"

definition any_text :: "json option \<Rightarrow> string option" where
  "any_text v = (case v of Some (Json_text s) \<Rightarrow> Some s | _ \<Rightarrow> None)"

definition repository_data_of :: "json \<Rightarrow> repository_data option" where
  "repository_data_of v = do {
     owner \<leftarrow> json_field ''owner'' v;
     login \<leftarrow> text_within 1 255 (json_field ''login'' owner);
     name \<leftarrow> text_within 1 255 (json_field ''name'' v);
     clone_url \<leftarrow> any_text (json_field ''clone_url'' v);
     branch \<leftarrow> text_within 1 255 (json_field ''default_branch'' v);
     Some \<lparr>rpd_owner = login, rpd_name = name, rpd_clone_url = clone_url, rpd_default_branch = branch\<rparr>
   }"

definition get_repository :: "'x github \<Rightarrow> string \<Rightarrow> string \<Rightarrow> ('x, repository_data) eff" where
  "get_repository gh owner repo = bindM (github_object gh ''GET'' (github_path owner repo) None) (\<lambda>v.
     case repository_data_of v of None \<Rightarrow> raise invalid_response | Some data \<Rightarrow> ret data)"

record issue_data =
  isd_number :: int
  isd_title :: string
  isd_body :: "string option"
  isd_state :: string
  isd_html_url :: string
  isd_is_pull_request :: bool

text \<open>
  Pydantic's lax integers: a number, a boolean, a float without fraction, or a text it reads as one
  (\<open>gh_lax_int\<close>). A field that is missing takes its default, null.
\<close>

definition lax_int :: "(string \<Rightarrow> int option) \<Rightarrow> json option \<Rightarrow> int option" where
  "lax_int read v = (case v of
     Some (Json_int n) \<Rightarrow> Some n
   | Some (Json_bool b) \<Rightarrow> Some (if b then 1 else 0)
   | Some (Json_float x) \<Rightarrow> if x = of_int \<lfloor>x\<rfloor> then Some \<lfloor>x\<rfloor> else None
   | Some (Json_text s) \<Rightarrow> read s
   | _ \<Rightarrow> None)"

definition optional_text :: "json option \<Rightarrow> string option option" where
  "optional_text v = (case v of
     None \<Rightarrow> Some None | Some Json_null \<Rightarrow> Some None | Some (Json_text s) \<Rightarrow> Some (Some s) | _ \<Rightarrow> None)"

definition optional_object :: "json option \<Rightarrow> bool option" where
  "optional_object v = (case v of
     None \<Rightarrow> Some False | Some Json_null \<Rightarrow> Some False | Some (Json_object _) \<Rightarrow> Some True | _ \<Rightarrow> None)"

definition issue_data_of :: "(string \<Rightarrow> int option) \<Rightarrow> json \<Rightarrow> issue_data option" where
  "issue_data_of read v = do {
     number \<leftarrow> lax_int read (json_field ''number'' v);
     _ \<leftarrow> (if 0 < number then Some () else None);
     heading \<leftarrow> any_text (json_field ''title'' v);
     body \<leftarrow> optional_text (json_field ''body'' v);
     state \<leftarrow> any_text (json_field ''state'' v);
     url \<leftarrow> any_text (json_field ''html_url'' v);
     pull \<leftarrow> optional_object (json_field ''pull_request'' v);
     Some \<lparr>isd_number = number, isd_title = heading, isd_body = body, isd_state = state,
           isd_html_url = url, isd_is_pull_request = pull\<rparr>
   }"

definition get_issue :: "'x github \<Rightarrow> string \<Rightarrow> string \<Rightarrow> int \<Rightarrow> ('x, issue_data) eff" where
  "get_issue gh owner repo number =
     bindM (github_object gh ''GET'' (github_path owner repo @ ''/issues/'' @ gh_number gh number) None) (\<lambda>v.
     case issue_data_of (gh_lax_int gh) v of
       None \<Rightarrow> raise invalid_response
     | Some issue \<Rightarrow>
         seqM (ensure invalid_response (isd_number issue = number))
         (seqM (ensure (GitHubFailure ''github_issue_is_pull_request'' 422 None) (\<not> isd_is_pull_request issue))
           (ret issue)))"

definition get_branch_sha :: "'x github \<Rightarrow> string \<Rightarrow> string \<Rightarrow> string \<Rightarrow> ('x, string) eff" where
  "get_branch_sha gh owner repo branch =
     bindM (github_object gh ''GET'' (github_path owner repo @ ''/git/ref/heads/'' @ quote branch) None) (\<lambda>v.
     case Option.bind (json_field ''object'' v) (\<lambda>obj. any_text (json_field ''sha'' obj)) of
       None \<Rightarrow> raise invalid_response | Some sha \<Rightarrow> ret sha)"

definition create_branch :: "'x github \<Rightarrow> string \<Rightarrow> string \<Rightarrow> string \<Rightarrow> string \<Rightarrow> ('x, json) eff" where
  "create_branch gh owner repo branch sha =
     github_object gh ''POST'' (github_path owner repo @ ''/git/refs'')
       (Some (Json_object [(''ref'', Json_text (''refs/heads/'' @ branch)), (''sha'', Json_text sha)]))"

definition create_pull_request ::
  "'x github \<Rightarrow> string \<Rightarrow> string \<Rightarrow> string \<Rightarrow> string \<Rightarrow> string \<Rightarrow> string \<Rightarrow> ('x, json) eff" where
  "create_pull_request gh owner repo heading head base body =
     github_object gh ''POST'' (github_path owner repo @ ''/pulls'')
       (Some (Json_object [(''title'', Json_text heading), (''head'', Json_text head), (''base'', Json_text base),
          (''body'', Json_text body)]))"

definition get_pull_request :: "'x github \<Rightarrow> string \<Rightarrow> string \<Rightarrow> int \<Rightarrow> ('x, json) eff" where
  "get_pull_request gh owner repo number =
     github_object gh ''GET'' (github_path owner repo @ ''/pulls/'' @ gh_number gh number) None"

section \<open>A path names one repository\<close>

text \<open>The reading of a quoted text: the bytes it stands for, as UTF-8.\<close>

definition hex_value :: "char \<Rightarrow> nat" where
  "hex_value c = (let n = of_char c in if n < 58 then n - 48 else n - 55)"

fun unquote_bytes :: "string \<Rightarrow> nat list" where
  "unquote_bytes (c # h # l # s) =
     (if c = CHR ''%'' then (16 * hex_value h + hex_value l) # unquote_bytes s
      else of_char c # unquote_bytes (h # l # s))"
| "unquote_bytes (c # s) = of_char c # unquote_bytes s"
| "unquote_bytes [] = []"

fun utf8_text :: "nat list \<Rightarrow> string" where
  "utf8_text [] = []"
| "utf8_text (a # bs) =
     (if 128 \<le> a then (case bs of [] \<Rightarrow> [] | b # bs' \<Rightarrow> char_of (64 * (a - 192) + (b - 128)) # utf8_text bs')
      else char_of a # utf8_text bs)"

definition unquote :: "string \<Rightarrow> string" where
  "unquote s = utf8_text (unquote_bytes s)"

lemma hex_char_value: "n < 16 \<Longrightarrow> hex_value (hex_char n) = n"
  by (auto simp: hex_char_def hex_value_def Let_def)

lemma unquote_percent: "b < 256 \<Longrightarrow> unquote_bytes (percent b @ s) = b # unquote_bytes s"
  by (simp add: percent_def hex_char_value)

lemma unquote_plain: "c \<noteq> CHR ''%'' \<Longrightarrow> unquote_bytes (c # s) = of_char c # unquote_bytes s"
  by (cases s rule: unquote_bytes.cases) simp_all

lemma unreserved_plain: "unreserved c \<Longrightarrow> c \<noteq> CHR ''%'' \<and> of_char c < (128 :: nat)"
  by (auto simp: unreserved_def ascii_letter_def ascii_digit_def less_eq_char_def)

lemma utf8_bytes_bound: "b \<in> set (utf8_bytes c) \<Longrightarrow> b < 256"
proof -
  have "(of_char c :: nat) div 64 < 4" using nat_of_char_less_256 [of c] by linarith
  moreover have "(of_char c :: nat) mod 64 < 64" by simp
  ultimately show "b \<in> set (utf8_bytes c) \<Longrightarrow> b < 256"
    by (auto simp: utf8_bytes_def Let_def split: if_splits)
qed

lemma utf8_bytes_text: "utf8_text (utf8_bytes c @ bs) = c # utf8_text bs"
proof (cases "of_char c < (128 :: nat)")
  case True
  then show ?thesis by (simp add: utf8_bytes_def)
next
  case False
  have "64 * ((of_char c :: nat) div 64) + of_char c mod 64 = of_char c" by simp
  with False show ?thesis by (simp add: utf8_bytes_def Let_def)
qed

lemma unquote_percents: "\<forall>b \<in> set bs. b < 256 \<Longrightarrow> unquote_bytes (concat (map percent bs) @ s) = bs @ unquote_bytes s"
  by (induction bs) (simp_all add: unquote_percent)

lemma unquote_quote_char: "unquote_bytes (quote_char c @ s) = utf8_bytes c @ unquote_bytes s"
  using unreserved_plain [of c] utf8_bytes_bound [of _ c]
  by (auto simp: quote_char_def unquote_plain unquote_percents utf8_bytes_def)

lemma unquote_quote: "unquote (quote s) = s"
proof -
  have "utf8_text (unquote_bytes (concat (map quote_char s))) = s"
    by (induction s) (simp_all add: unquote_quote_char utf8_bytes_text unquote_def)
  then show ?thesis by (simp add: unquote_def quote_def)
qed

definition url_path_char :: "char \<Rightarrow> bool" where
  "url_path_char c \<longleftrightarrow> unreserved c \<or> c = CHR ''%''"

lemma hex_char_path: "n < 16 \<Longrightarrow> url_path_char (hex_char n)"
proof -
  assume n: "n < 16"
  have "\<forall>n \<in> set [0..<16]. url_path_char (hex_char n)" by code_simp
  with n show ?thesis by simp
qed

lemma quote_chars: "c \<in> set (quote s) \<Longrightarrow> url_path_char c"
proof -
  have "url_path_char c" if "c \<in> set (quote_char x)" for x
  proof (cases "unreserved x")
    case True
    with that show ?thesis by (simp add: quote_char_def url_path_char_def)
  next
    case False
    with that obtain b where b: "b \<in> set (utf8_bytes x)" "c \<in> set (percent b)" by (auto simp: quote_char_def)
    with utf8_bytes_bound [OF b(1)] have "c = CHR ''%'' \<or> c = hex_char (b div 16) \<or> c = hex_char (b mod 16)"
      "b div 16 < 16" "b mod 16 < 16" by (auto simp: percent_def)
    then show ?thesis using hex_char_path [of "b div 16"] hex_char_path [of "b mod 16"] by (auto simp: url_path_char_def)
  qed
  then show "c \<in> set (quote s) \<Longrightarrow> url_path_char c" by (auto simp: quote_def)
qed

lemma split_on_plain: "sep \<notin> set a \<Longrightarrow> split_on sep (a @ sep # s) = a # split_on sep s"
  by (induction a) auto

lemma split_on_none: "sep \<notin> set a \<Longrightarrow> split_on sep a = [a]"
  by (induction a) auto

text \<open>A caller cannot leave the repository it names: the path has exactly three components, none of
  which contains a character with a meaning in a URL, and reading the last two gives the owner and the
  name back.\<close>

theorem github_path_roundtrip:
  "split_on (CHR ''/'') (github_path owner repo) = [''repos'', quote owner, quote repo] \<and>
   list_all url_path_char (quote owner @ quote repo) \<and> unquote (quote owner) = owner \<and> unquote (quote repo) = repo"
proof -
  have slash: "CHR ''/'' \<notin> set (quote s)" for s
  proof
    assume "CHR ''/'' \<in> set (quote s)"
    then have "url_path_char (CHR ''/'')" by (rule quote_chars)
    then show False by (simp add: url_path_char_def unreserved_def ascii_letter_def ascii_digit_def less_eq_char_def)
  qed
  have g: "github_path owner repo = ''repos'' @ CHR ''/'' # (quote owner @ CHR ''/'' # quote repo)"
    by (simp add: github_path_def)
  have "split_on (CHR ''/'') (github_path owner repo) = [''repos'', quote owner, quote repo]"
    unfolding g using slash by (subst split_on_plain) (simp_all add: split_on_plain split_on_none)
  moreover have "list_all url_path_char (quote owner @ quote repo)"
    by (auto simp: list_all_iff dest: quote_chars)
  ultimately show ?thesis by (simp only: unquote_quote simp_thms)
qed

section \<open>Failures\<close>

definition github_retryable :: "string list" where
  "github_retryable = [''github_unavailable'', ''github_rate_limited'', ''github_response_error'']"

lemma retry_delay_positive: "retry_delay_of now r = Inr delay \<Longrightarrow> 1 \<le> delay"
  by (auto simp: retry_delay_of_def Let_def split: if_splits)

lemma retry_delay_failure: "retry_delay_of now r = Inl e \<Longrightarrow> e = ValueFailure"
  by (auto simp: retry_delay_of_def Let_def int_of_digits_def split: if_splits)

text \<open>Every failure of a request is one the workflow engine classifies by its code: it is retried
  exactly when GitHub was unavailable, limited the rate or failed itself, after the delay GitHub asked
  for, unless that is longer than an hour. The one exception that is none of them comes from a delay
  header whose digits Python cannot read.\<close>

theorem github_failures_classified:
  "case github_json gh verb p payload x of
     (Inr _, _) \<Rightarrow> True
   | (Inl (GitHubFailure c status after), _) \<Rightarrow>
       provider_failure (GitHubError c status after) =
         (c, c \<in> set github_retryable \<and> (case after of Some d \<Rightarrow> 1 \<le> d \<and> d \<le> 3600 | None \<Rightarrow> True),
          case after of Some d \<Rightarrow> d | None \<Rightarrow> 0)
   | (Inl e, _) \<Rightarrow> e = ValueFailure"
proof -
  have response: "case github_response now r of
      Inr _ \<Rightarrow> True
    | Inl (GitHubFailure c status after) \<Rightarrow> provider_failure (GitHubError c status after) =
         (c, c \<in> set github_retryable \<and> (case after of Some d \<Rightarrow> 1 \<le> d \<and> d \<le> 3600 | None \<Rightarrow> True),
          case after of Some d \<Rightarrow> d | None \<Rightarrow> 0)
    | Inl e \<Rightarrow> e = ValueFailure" for now r
    by (cases "retry_delay_of now r")
      (auto simp: github_response_def provider_failure_def github_codes_def github_retryable_def Let_def
        dest: retry_delay_positive retry_delay_failure split: option.splits)
  obtain answer x' where "gh_http gh \<lparr>gq_method = verb, gq_path = p, gq_payload = payload\<rparr> x = (answer, x')" by fastforce
  then show ?thesis
    using response [of "gh_now gh x'"]
    by (cases answer) (auto simp: github_json_def provider_failure_def github_codes_def github_retryable_def Let_def
        split: sum.splits exc.splits)
qed

end
