(* ===== verification/Repositories.thy ===== *)
theory Repositories
  imports Github_Client Example_Services
begin

text \<open>
  \<^verbatim>\<open>app/services/repositories.py\<close>: a repository or an issue read from GitHub is inserted, or updates the
  row that has its identity: \<^verbatim>\<open>INSERT ... ON CONFLICT DO UPDATE\<close>. The request to GitHub is over before
  the transaction starts. \<open>lcase\<close> is the lower-casing function of the database, which the unique index
  of the repositories is built with.
\<close>

section \<open>Insert or update\<close>

definition upsert :: "('r \<Rightarrow> 'k) \<Rightarrow> ('r \<Rightarrow> 'r) \<Rightarrow> 'r \<Rightarrow> 'r list \<Rightarrow> 'r list \<times> 'r" where
  "upsert key update_row new rows =
     (case List.find (\<lambda>r. key r = key new) rows of
        Some r \<Rightarrow> (map (\<lambda>x. if key x = key new then update_row x else x) rows, update_row r)
      | None \<Rightarrow> (rows @ [new], new))"

section \<open>The service\<close>

definition repository_key :: "(string \<Rightarrow> string) \<Rightarrow> repository_row \<Rightarrow> string \<times> string" where
  "repository_key lcase r = (lcase (repo_github_owner r), lcase (repo_github_name r))"

definition set_repository :: "repository_data \<Rightarrow> repository_row \<Rightarrow> repository_row" where
  "set_repository data r = r\<lparr>repo_github_owner := rpd_owner data, repo_github_name := rpd_name data,
     repo_clone_url := rpd_clone_url data, repo_default_branch := rpd_default_branch data\<rparr>"

definition new_repository :: "uuid \<Rightarrow> repository_data \<Rightarrow> repository_row" where
  "new_repository i data =
     \<lparr>repo_id = i, repo_github_owner = rpd_owner data, repo_github_name = rpd_name data,
      repo_clone_url = rpd_clone_url data, repo_default_branch = rpd_default_branch data,
      repo_local_status = ''pending'', repo_index_status = ''pending'', repo_embedding_status = ''pending''\<rparr>"

text \<open>The primary key is checked for an inserted row only: an updated row keeps its identifier.\<close>

definition register :: "(string \<Rightarrow> string) \<Rightarrow> uuid \<Rightarrow> repository_data \<Rightarrow> db \<Rightarrow> service_error + db \<times> repository_row" where
  "register lcase i data d =
     (case upsert (repository_key lcase) (set_repository data) (new_repository i data) (db_repositories d) of (rows, r) \<Rightarrow>
      if distinct (map repo_id rows) then Inr (d\<lparr>db_repositories := rows\<rparr>, r) else Inl IntegrityError)"

definition read_repository :: "uuid \<Rightarrow> db \<Rightarrow> service_error + repository_row" where
  "read_repository i d = someE RecordNotFound (fetch repo_id i (db_repositories d))"

definition issue_key :: "issue_row \<Rightarrow> uuid \<times> int" where
  "issue_key r = (iss_repository_id r, iss_github_issue_number r)"

definition set_issue :: "issue_data \<Rightarrow> issue_row \<Rightarrow> issue_row" where
  "set_issue data r = r\<lparr>iss_title := isd_title data, iss_body := isd_body data, iss_state := isd_state data,
     iss_source_url := isd_html_url data\<rparr>"

definition new_issue :: "uuid \<Rightarrow> uuid \<Rightarrow> int \<Rightarrow> issue_data \<Rightarrow> issue_row" where
  "new_issue i repository number data =
     \<lparr>iss_id = i, iss_repository_id = repository, iss_github_issue_number = number, iss_title = isd_title data,
      iss_body = isd_body data, iss_state = isd_state data, iss_source_url = isd_html_url data\<rparr>"

text \<open>
  The row must refer to a repository and have a positive number. The columns are an \<^verbatim>\<open>integer\<close> of 32 bits and
  a \<^verbatim>\<open>varchar(50)\<close>: PostgreSQL refuses what does not fit, and nothing before the statement bounds them.
\<close>

definition store_issue :: "uuid \<Rightarrow> uuid \<Rightarrow> int \<Rightarrow> issue_data \<Rightarrow> db \<Rightarrow> service_error + db \<times> issue_row" where
  "store_issue i repository number data d =
     bindE (requireE DataError (number < 2 ^ 31 \<and> length (isd_state data) \<le> 50)) (\<lambda>_.
     case upsert issue_key (set_issue data) (new_issue i repository number data) (db_issues d) of (rows, r) \<Rightarrow>
     if distinct (map iss_id rows) \<and> repository \<in> repo_id ` set (db_repositories d) \<and> 0 < number
     then Inr (d\<lparr>db_issues := rows\<rparr>, r) else Inl IntegrityError)"

definition read_issue :: "uuid \<Rightarrow> db \<Rightarrow> service_error + issue_row" where
  "read_issue i d = someE RecordNotFound (fetch iss_id i (db_issues d))"

definition reading :: "('a \<Rightarrow> db \<Rightarrow> service_error + 'b) \<Rightarrow> 'a \<Rightarrow> uuid \<Rightarrow> time \<Rightarrow> db \<Rightarrow> service_error + db \<times> 'b" where
  "reading f x i now d = bindE (f x d) (\<lambda>y. Inr (d, y))"

definition register_repository ::
  "'x environment \<Rightarrow> 'x github \<Rightarrow> (string \<Rightarrow> string) \<Rightarrow> string \<Rightarrow> string \<Rightarrow> ('x world, repository_row) eff" where
  "register_repository env gh lcase owner repo =
     bindM (external (get_repository gh owner repo) (\<lambda>_. Lookup_call [owner, repo])) (\<lambda>data.
     transaction env (\<lambda>i now. register lcase i data))"

definition import_issue ::
  "'x environment \<Rightarrow> 'x github \<Rightarrow> uuid \<Rightarrow> int \<Rightarrow> ('x world, issue_row) eff" where
  "import_issue env gh repository number =
     bindM (transaction env (reading read_repository repository)) (\<lambda>r.
     bindM (external (get_issue gh (repo_github_owner r) (repo_github_name r) number)
        (\<lambda>_. Lookup_call [repo_github_owner r, repo_github_name r, gh_number gh number])) (\<lambda>data.
     transaction env (\<lambda>i now. store_issue i repository number data)))"

section \<open>A keyed table\<close>

text \<open>
  What both operations promise: the table, read as a map from identities to rows, is updated at one
  identity. A \<open>patch\<close> is what the statement writes.
\<close>

definition table :: "('r \<Rightarrow> 'k) \<Rightarrow> 'r list \<Rightarrow> 'k \<rightharpoonup> 'r" where
  "table key rows = map_of (map (\<lambda>r. (key r, r)) rows)"

lemma table_find: "table key rows k = List.find (\<lambda>r. key r = k) rows"
  by (induction rows) (auto simp: table_def)

lemma table_Some: "table key rows k = Some r \<Longrightarrow> r \<in> set rows \<and> key r = k"
  by (auto simp: table_find find_Some_iff)

locale keyed_table =
  fixes key :: "'r \<Rightarrow> 'k"
    and merge :: "'p \<Rightarrow> 'r \<Rightarrow> 'r"
    and fresh_row :: "'i \<Rightarrow> 'p \<Rightarrow> 'r"
    and key_of :: "'p \<Rightarrow> 'k"
    and ident :: "'r \<Rightarrow> 'i"
  assumes key_merge: "key r = key_of p \<Longrightarrow> key (merge p r) = key_of p"
    and key_fresh: "key (fresh_row i p) = key_of p"
    and ident_merge: "ident (merge p r) = ident r"
    and ident_fresh: "ident (fresh_row i p) = i"
    and merge_twice: "merge p (merge p r) = merge p r"
    and merge_fresh: "merge p (fresh_row i p) = fresh_row i p"
begin

text \<open>The abstract table and its update.\<close>

definition updated_row :: "'i \<Rightarrow> 'p \<Rightarrow> 'r option \<Rightarrow> 'r" where
  "updated_row i p old = (case old of None \<Rightarrow> fresh_row i p | Some r \<Rightarrow> merge p r)"

abbreviation upserted :: "'i \<Rightarrow> 'p \<Rightarrow> 'r list \<Rightarrow> 'r list \<times> 'r" where
  "upserted i p rows \<equiv> upsert key (merge p) (fresh_row i p) rows"

lemma table_updated:
  "table key (map (\<lambda>x. if key x = key_of p then merge p x else x) rows) k =
     (if k = key_of p then map_option (merge p) (table key rows k) else table key rows k)"
  by (induction rows) (auto simp: table_def key_merge)

lemma upsert_refines: "table key (fst (upserted i p rows)) = (table key rows)(key_of p \<mapsto> updated_row i p (table key rows (key_of p)))"
proof (cases "table key rows (key_of p)")
  case None
  have "table key (rows @ [fresh_row i p]) k = (if k = key_of p then Some (fresh_row i p) else table key rows k)" for k
    using None by (induction rows) (auto simp: table_def key_fresh split: if_splits)
  with None show ?thesis by (auto simp: upsert_def key_fresh table_find [symmetric] updated_row_def)
next
  case (Some r)
  then show ?thesis by (auto simp: upsert_def key_fresh table_find [symmetric] updated_row_def table_updated)
qed

lemma upsert_row: "snd (upserted i p rows) = updated_row i p (table key rows (key_of p))"
  by (auto simp: upsert_def key_fresh table_find [symmetric] updated_row_def split: option.split)

lemma upsert_key: "key (snd (upserted i p rows)) = key_of p"
  unfolding upsert_row updated_row_def
  by (auto simp: key_fresh split: option.split dest!: table_Some intro: key_merge)

lemma upsert_distinct: "distinct (map key rows) \<Longrightarrow> distinct (map key (fst (upserted i p rows)))"
proof -
  assume d: "distinct (map key rows)"
  have same: "map key (map (\<lambda>x. if key x = key_of p then merge p x else x) rows) = map key rows"
    by (auto simp: key_merge)
  show ?thesis
  proof (cases "table key rows (key_of p)")
    case None
    then have "key_of p \<notin> key ` set rows" by (auto simp: table_find find_None_iff)
    with None d show ?thesis by (auto simp: upsert_def key_fresh table_find [symmetric])
  next
    case (Some r)
    then have "fst (upserted i p rows) = map (\<lambda>x. if key x = key_of p then merge p x else x) rows"
      by (simp add: upsert_def key_fresh table_find [symmetric])
    with d same show ?thesis by (simp only:)
  qed
qed

lemma upsert_idents:
  "map ident (fst (upserted i p rows)) = map ident rows @ (if table key rows (key_of p) = None then [i] else [])"
  by (auto simp: upsert_def key_fresh table_find [symmetric] ident_merge ident_fresh split: option.split)

lemma upsert_again: "fst (upserted j p (fst (upserted i p rows))) = fst (upserted i p rows)"
proof -
  let ?rows = "fst (upserted i p rows)"
  have "table key ?rows (key_of p) \<noteq> None" by (simp add: upsert_refines)
  then obtain r where "table key ?rows (key_of p) = Some r" by blast
  then have "fst (upserted j p ?rows) = map (\<lambda>x. if key x = key_of p then merge p x else x) ?rows"
    by (simp add: upsert_def key_fresh table_find [symmetric])
  also have "\<dots> = ?rows"
  proof (cases "table key rows (key_of p)")
    case None
    then have "key x \<noteq> key_of p" if "x \<in> set rows" for x
      using that by (auto simp: table_find find_None_iff)
    with None show ?thesis
      by (auto simp: upsert_def key_fresh table_find [symmetric] merge_fresh intro!: map_idI)
  next
    case (Some s)
    then show ?thesis by (auto simp: upsert_def key_fresh table_find [symmetric] key_merge merge_twice)
  qed
  finally show ?thesis .
qed

end

interpretation repositories: keyed_table "repository_key lcase" set_repository new_repository
    "\<lambda>data. (lcase (rpd_owner data), lcase (rpd_name data))" repo_id for lcase
  by unfold_locales (simp_all add: repository_key_def set_repository_def new_repository_def)

text \<open>An issue's patch carries the identity the row is inserted with.\<close>

interpretation issues: keyed_table issue_key "\<lambda>(k, data). set_issue data"
    "\<lambda>i (k, data). new_issue i (fst k) (snd k) data" fst iss_id
  by unfold_locales (auto simp: issue_key_def set_issue_def new_issue_def)

section \<open>The catalog\<close>

text \<open>
  The abstract state: the repositories by their identity on GitHub, the issues by repository and number.
  The two operations the service commits, and what they promise of it.
\<close>

type_synonym catalog = "(string \<times> string \<rightharpoonup> repository_row) \<times> (uuid \<times> int \<rightharpoonup> issue_row)"

definition catalog :: "(string \<Rightarrow> string) \<Rightarrow> db \<Rightarrow> catalog" where
  "catalog lcase d = (table (repository_key lcase) (db_repositories d), table issue_key (db_issues d))"

datatype catalog_op = Register uuid repository_data | Store_issue uuid uuid int issue_data

fun commit_op :: "(string \<Rightarrow> string) \<Rightarrow> catalog_op \<Rightarrow> db \<Rightarrow> service_error + db" where
  "commit_op lcase (Register i data) d = bindE (register lcase i data d) (\<lambda>(d', r). Inr d')"
| "commit_op lcase (Store_issue i repository number data) d =
     bindE (store_issue i repository number data d) (\<lambda>(d', r). Inr d')"

text \<open>
  Column by column: a row that is there keeps its identifier and the statuses of its workspace, its index and
  its embeddings, a new one starts with the identifier drawn and pending statuses; the other columns are GitHub's.
\<close>

definition kept_or :: "('r \<Rightarrow> 'a) \<Rightarrow> 'a \<Rightarrow> 'r option \<Rightarrow> 'a" where
  "kept_or f initial old = (case old of None \<Rightarrow> initial | Some r \<Rightarrow> f r)"

fun promised :: "(string \<Rightarrow> string) \<Rightarrow> catalog_op \<Rightarrow> catalog \<Rightarrow> catalog" where
  "promised lcase (Register i data) (rs, is) =
     (let k = (lcase (rpd_owner data), lcase (rpd_name data)); old = rs k
      in (rs(k \<mapsto> \<lparr>repo_id = kept_or repo_id i old, repo_github_owner = rpd_owner data, repo_github_name = rpd_name data,
           repo_clone_url = rpd_clone_url data, repo_default_branch = rpd_default_branch data,
           repo_local_status = kept_or repo_local_status ''pending'' old,
           repo_index_status = kept_or repo_index_status ''pending'' old,
           repo_embedding_status = kept_or repo_embedding_status ''pending'' old\<rparr>), is))"
| "promised lcase (Store_issue i repository number data) (rs, is) =
     (rs, is((repository, number) \<mapsto> \<lparr>iss_id = kept_or iss_id i (is (repository, number)),
        iss_repository_id = repository, iss_github_issue_number = number, iss_title = isd_title data,
        iss_body = isd_body data, iss_state = isd_state data, iss_source_url = isd_html_url data\<rparr>))"

lemma register_Inr:
  assumes "register lcase i data d = Inr (d', r)"
  shows "d' = d\<lparr>db_repositories := fst (upsert (repository_key lcase) (set_repository data) (new_repository i data)
      (db_repositories d))\<rparr>" and "distinct (map repo_id (db_repositories d'))"
    and "r = snd (upsert (repository_key lcase) (set_repository data) (new_repository i data) (db_repositories d))"
  using assms by (auto simp: register_def split: prod.splits if_splits)

lemma store_issue_Inr:
  assumes "store_issue i repository number data d = Inr (d', r)"
  shows "d' = d\<lparr>db_issues := fst (upsert issue_key (set_issue data) (new_issue i repository number data) (db_issues d))\<rparr>"
    and "distinct (map iss_id (db_issues d'))" and "repository \<in> repo_id ` set (db_repositories d)"
    and "0 < number" and "number < 2 ^ 31" and "length (isd_state data) \<le> 50"
    and "r = snd (upsert issue_key (set_issue data) (new_issue i repository number data) (db_issues d))"
  using assms by (auto simp: store_issue_def split: prod.splits if_splits)

lemma kept_repository:
  "\<lparr>repo_id = kept_or repo_id i old, repo_github_owner = rpd_owner data, repo_github_name = rpd_name data,
     repo_clone_url = rpd_clone_url data, repo_default_branch = rpd_default_branch data,
     repo_local_status = kept_or repo_local_status ''pending'' old,
     repo_index_status = kept_or repo_index_status ''pending'' old,
     repo_embedding_status = kept_or repo_embedding_status ''pending'' old\<rparr> =
   (case old of None \<Rightarrow> new_repository i data | Some r \<Rightarrow> set_repository data r)"
  by (cases old) (simp_all add: kept_or_def new_repository_def set_repository_def)

lemma kept_issue:
  "case old of None \<Rightarrow> True | Some r \<Rightarrow> issue_key r = (repository, number) \<Longrightarrow>
   \<lparr>iss_id = kept_or iss_id i old, iss_repository_id = repository, iss_github_issue_number = number,
     iss_title = isd_title data, iss_body = isd_body data, iss_state = isd_state data, iss_source_url = isd_html_url data\<rparr> =
   (case old of None \<Rightarrow> new_issue i repository number data | Some r \<Rightarrow> set_issue data r)"
  by (cases old) (auto simp: kept_or_def new_issue_def set_issue_def issue_key_def)

lemma commit_refines:
  assumes "commit_op lcase op d = Inr d'"
  shows "catalog lcase d' = promised lcase op (catalog lcase d)"
proof (cases op)
  case (Register i data)
  with assms obtain r where "register lcase i data d = Inr (d', r)" by (auto split: prod.splits)
  from register_Inr(1) [OF this] Register show ?thesis
    by (simp add: catalog_def Let_def kept_repository repositories.upsert_refines repositories.updated_row_def)
next
  case (Store_issue i repository number data)
  with assms obtain r where "store_issue i repository number data d = Inr (d', r)" by (auto split: prod.splits)
  then have "d' = d\<lparr>db_issues := fst (upsert issue_key (set_issue data) (new_issue i repository number data) (db_issues d))\<rparr>"
    by (rule store_issue_Inr(1))
  moreover have "case table issue_key (db_issues d) (repository, number) of None \<Rightarrow> True | Some r \<Rightarrow> issue_key r = (repository, number)"
    using table_Some [of issue_key "db_issues d"] by (auto split: option.split)
  ultimately show ?thesis
    using issues.upsert_refines [where i = i and p = "((repository, number), data)" and rows = "db_issues d"]
    by (simp add: catalog_def Store_issue kept_issue issues.updated_row_def cong: option.case_cong)
qed

lemma commit_identities:
  assumes "commit_op lcase op d = Inr d'"
    and "distinct (map (repository_key lcase) (db_repositories d))" and "distinct (map issue_key (db_issues d))"
  shows "distinct (map (repository_key lcase) (db_repositories d'))" and "distinct (map issue_key (db_issues d'))"
proof -
  have "distinct (map (repository_key lcase) (db_repositories d')) \<and> distinct (map issue_key (db_issues d'))"
  proof (cases op)
    case (Register i data)
    with assms(1) obtain r where "register lcase i data d = Inr (d', r)" by (auto split: prod.splits)
    from register_Inr(1) [OF this] assms(2,3) show ?thesis by (simp add: repositories.upsert_distinct)
  next
    case (Store_issue i repository number data)
    with assms(1) obtain r where "store_issue i repository number data d = Inr (d', r)" by (auto split: prod.splits)
    from store_issue_Inr(1) [OF this] assms(2,3)
      issues.upsert_distinct [where i = i and p = "((repository, number), data)" and rows = "db_issues d"]
    show ?thesis by simp
  qed
  then show "distinct (map (repository_key lcase) (db_repositories d'))" and "distinct (map issue_key (db_issues d'))"
    by simp_all
qed

definition same_repository :: "repository_row \<Rightarrow> repository_row \<Rightarrow> bool" where
  "same_repository r r' \<longleftrightarrow> repo_id r' = repo_id r \<and> repo_local_status r' = repo_local_status r \<and>
     repo_index_status r' = repo_index_status r \<and> repo_embedding_status r' = repo_embedding_status r"

lemma promised_keeps:
  "fst c k = Some r \<Longrightarrow> \<exists>r'. fst (fold (promised lcase) ops c) k = Some r' \<and> same_repository r r'"
proof (induction ops arbitrary: c r)
  case (Cons op ops)
  obtain rs "is" where c: "c = (rs, is)" by fastforce
  have "\<exists>r1. fst (promised lcase op c) k = Some r1 \<and> same_repository r r1"
    using Cons.prems by (cases op) (auto simp: c Let_def kept_or_def same_repository_def)
  then obtain r1 where "fst (promised lcase op c) k = Some r1" and r1: "same_repository r r1" by blast
  from Cons.IH [OF this(1)] r1 show ?case by (auto simp: same_repository_def)
qed (simp add: same_repository_def)

text \<open>C8. Registering repositories and importing issues is updating a catalog. Whatever sequence of the two
  operations commits, the tables read as maps from identities to rows are the maps the abstract updates make,
  which say of every column what it is: the identifier and the statuses of a row that was there, the ones of a
  new row, GitHub's values for the others. So a repository that was in the catalog is in it afterwards, under
  its owner and name however they are capitalised, with its identifier and its statuses, and no identity gets
  a second row.\<close>

theorem catalog_refined:
  assumes "foldE (commit_op lcase) ops d = Inr d'"
    and "distinct (map (repository_key lcase) (db_repositories d))" and "distinct (map issue_key (db_issues d))"
  shows "catalog lcase d' = fold (promised lcase) ops (catalog lcase d) \<and>
    (\<forall>k r. fst (catalog lcase d) k = Some r \<longrightarrow> (\<exists>r'. fst (catalog lcase d') k = Some r' \<and> same_repository r r')) \<and>
    distinct (map (repository_key lcase) (db_repositories d')) \<and> distinct (map issue_key (db_issues d'))"
proof -
  have "catalog lcase d' = fold (promised lcase) ops (catalog lcase d) \<and>
      distinct (map (repository_key lcase) (db_repositories d')) \<and> distinct (map issue_key (db_issues d'))"
    using assms
  proof (induction ops arbitrary: d)
    case (Cons op ops)
    then obtain d1 where d1: "commit_op lcase op d = Inr d1" and "foldE (commit_op lcase) ops d1 = Inr d'" by auto
    with Cons.IH [of d1] commit_identities [OF d1 Cons.prems(2,3)] show ?case by (simp add: commit_refines [OF d1])
  qed simp
  then show ?thesis using promised_keeps by simp
qed

definition sample_repository :: "string \<Rightarrow> repository_data" where
  "sample_repository owner =
     \<lparr>rpd_owner = owner, rpd_name = ''n'', rpd_clone_url = ''https://github.com/o/n.git'', rpd_default_branch = ''dev''\<rparr>"

definition sample_issue :: issue_data where
  "sample_issue = \<lparr>isd_number = 9, isd_title = ''crash'', isd_body = None, isd_state = ''open'',
     isd_html_url = ''u'', isd_is_pull_request = False\<rparr>"

definition ascii_lower :: "string \<Rightarrow> string" where
  "ascii_lower = map (\<lambda>c. if 65 \<le> (of_char c :: nat) \<and> of_char c \<le> (90 :: nat) then char_of (of_char c + 32 :: nat) else c)"

lemma catalog_refined_witness:
  "\<exists>d' r. foldE (commit_op ascii_lower) [Register 30 (sample_repository ''O''), Store_issue 31 1 9 sample_issue] example_db = Inr d' \<and>
     fst (catalog ascii_lower d') (''o'', ''n'') = Some r \<and> repo_id r = 1 \<and> repo_local_status r = ''ready'' \<and>
     repo_default_branch r = ''dev'' \<and> snd (catalog ascii_lower d') (1, 9) = Some (new_issue 31 1 9 sample_issue)"
proof -
  let ?ops = "[Register 30 (sample_repository ''O''), Store_issue 31 1 9 sample_issue]"
  have "\<not> isl (foldE (commit_op ascii_lower) ?ops example_db)" by code_simp
  then obtain d' where c: "foldE (commit_op ascii_lower) ?ops example_db = Inr d'"
    by (cases "foldE (commit_op ascii_lower) ?ops example_db") auto
  have "case fst (fold (promised ascii_lower) ?ops (catalog ascii_lower example_db)) (''o'', ''n'') of None \<Rightarrow> False
      | Some r \<Rightarrow> repo_id r = 1 \<and> repo_local_status r = ''ready'' \<and> repo_default_branch r = ''dev''"
    by code_simp
  moreover have "snd (fold (promised ascii_lower) ?ops (catalog ascii_lower example_db)) (1, 9) =
      Some (new_issue 31 1 9 sample_issue)"
    by code_simp
  moreover have "distinct (map (repository_key ascii_lower) (db_repositories example_db))"
    and "distinct (map issue_key (db_issues example_db))" by code_simp+
  note catalog_refined [OF c this]
  ultimately show ?thesis using c by (auto split: option.splits)
qed

section \<open>The constraints of the tables\<close>

text \<open>
  The columns of bounded length, the unique indexes and primary keys, the foreign key and the check of the
  two tables.
\<close>

definition column :: "nat \<Rightarrow> string \<Rightarrow> bool" where
  "column n s \<longleftrightarrow> length s \<le> n"

definition repository_typed :: "repository_row \<Rightarrow> bool" where
  "repository_typed r \<longleftrightarrow> column 255 (repo_github_owner r) \<and> column 255 (repo_github_name r) \<and>
     column 255 (repo_default_branch r) \<and> column 50 (repo_local_status r) \<and> column 50 (repo_index_status r) \<and>
     column 50 (repo_embedding_status r)"

definition issue_typed :: "issue_row \<Rightarrow> bool" where
  "issue_typed r \<longleftrightarrow> 0 < iss_github_issue_number r \<and> iss_github_issue_number r < 2 ^ 31 \<and> column 50 (iss_state r)"

definition catalog_typed :: "(string \<Rightarrow> string) \<Rightarrow> db \<Rightarrow> bool" where
  "catalog_typed lcase d \<longleftrightarrow>
     distinct (map repo_id (db_repositories d)) \<and> distinct (map (repository_key lcase) (db_repositories d)) \<and>
     distinct (map iss_id (db_issues d)) \<and> distinct (map issue_key (db_issues d)) \<and>
     list_all repository_typed (db_repositories d) \<and> list_all issue_typed (db_issues d) \<and>
     iss_repository_id ` set (db_issues d) \<subseteq> repo_id ` set (db_repositories d)"

lemma text_within_length: "text_within low high v = Some s \<Longrightarrow> length s \<le> high"
  by (auto simp: text_within_def split: option.splits json.splits if_splits)

definition data_typed :: "repository_data \<Rightarrow> bool" where
  "data_typed data \<longleftrightarrow> column 255 (rpd_owner data) \<and> column 255 (rpd_name data) \<and> column 255 (rpd_default_branch data)"

lemma read_data_typed: "repository_data_of v = Some data \<Longrightarrow> data_typed data"
  by (auto simp: repository_data_of_def data_typed_def column_def bind_eq_Some_conv dest!: text_within_length)

lemma set_upsert: "set (fst (upsert key f new rows)) \<subseteq> insert new (set rows \<union> f ` set rows)"
  by (auto simp: upsert_def split: option.split)

lemma register_typed:
  assumes t: "catalog_typed lcase d" and data: "data_typed data" and r: "register lcase i data d = Inr (d', r)"
  shows "catalog_typed lcase d'"
proof -
  note d' = register_Inr [OF r]
  have "list_all repository_typed (db_repositories d')"
    using set_upsert [of "repository_key lcase" "set_repository data" "new_repository i data" "db_repositories d"] t data
    by (fastforce simp: d'(1) list_all_iff catalog_typed_def repository_typed_def data_typed_def set_repository_def
      new_repository_def column_def)
  moreover have "repo_id ` set (db_repositories d) \<subseteq> repo_id ` set (db_repositories d')"
    using arg_cong [OF repositories.upsert_idents [of lcase data i "db_repositories d"], of set] by (auto simp: d'(1))
  then have "iss_repository_id ` set (db_issues d) \<subseteq> repo_id ` set (db_repositories d')"
    using t unfolding catalog_typed_def by blast
  ultimately show ?thesis using t d'(2)
    unfolding catalog_typed_def by (simp add: d'(1) repositories.upsert_distinct)
qed

lemma store_issue_typed:
  assumes t: "catalog_typed lcase d" and r: "store_issue i repository number data d = Inr (d', r)"
  shows "catalog_typed lcase d'"
proof -
  note d' = store_issue_Inr [OF r]
  let ?rows = "fst (upsert issue_key (set_issue data) (new_issue i repository number data) (db_issues d))"
  note sub = set_upsert [of issue_key "set_issue data" "new_issue i repository number data" "db_issues d"]
  have "list_all issue_typed ?rows"
    using sub t d'(4-6) by (fastforce simp: list_all_iff catalog_typed_def issue_typed_def set_issue_def
      new_issue_def column_def)
  moreover have "iss_repository_id ` set ?rows \<subseteq> repo_id ` set (db_repositories d)"
    using sub t d'(3) by (fastforce simp: catalog_typed_def set_issue_def new_issue_def)
  moreover have "distinct (map issue_key (db_issues d)) \<Longrightarrow> distinct (map issue_key ?rows)"
    using issues.upsert_distinct [where i = i and p = "((repository, number), data)" and rows = "db_issues d"]
    by simp
  ultimately show ?thesis using t d'(2)
    unfolding catalog_typed_def by (simp add: d'(1))
qed

definition typed_world :: "(string \<Rightarrow> string) \<Rightarrow> 'x world \<Rightarrow> bool" where
  "typed_world lcase w \<longleftrightarrow> catalog_typed lcase (w_db w)"

definition others_typed :: "(string \<Rightarrow> string) \<Rightarrow> 'x environment \<Rightarrow> bool" where
  "others_typed lcase env \<longleftrightarrow> (\<forall>n d. catalog_typed lcase d \<longrightarrow> catalog_typed lcase (env_others env n d))"

lemma typed_transaction:
  assumes "others_typed lcase env" and "\<And>i now d d' x. catalog_typed lcase d \<Longrightarrow> op i now d = Inr (d', x) \<Longrightarrow> catalog_typed lcase d'"
  shows "keeps (typed_world lcase) (transaction env op)"
  using assms by (intro keepsI) (fastforce simp: transaction_def typed_world_def others_typed_def Let_def split: sum.split)

lemma typed_external: "keeps (typed_world lcase) (external f note_call)"
  by (rule keepsI) (simp add: external_def typed_world_def split: prod.split)

lemma get_repository_typed: "get_repository gh owner repo x = (Inr data, x') \<Longrightarrow> data_typed data"
  by (auto simp: get_repository_def runs_Inr intro: read_data_typed split: option.splits)

lemma register_repository_typed:
  assumes others: "others_typed lcase env"
  shows "keeps (typed_world lcase) (register_repository env gh lcase owner repo)"
proof -
  have t: "keeps (typed_world lcase) (transaction env (\<lambda>i now. register lcase i data))" if "data_typed data" for data
    by (rule typed_transaction [OF others]) (erule register_typed [OF _ that])
  show ?thesis
  proof (rule keepsI)
    fix w :: "'a world" assume w: "typed_world lcase w"
    let ?ask = "external (get_repository gh owner repo) (\<lambda>_. Lookup_call [owner, repo])"
    obtain r w1 where ask: "?ask w = (r, w1)" by (cases "?ask w")
    have w1: "typed_world lcase w1" using keepsD [OF typed_external w] ask by (metis snd_conv)
    show "typed_world lcase (snd (register_repository env gh lcase owner repo w))"
    proof (cases r)
      case (Inl e)
      with ask w1 show ?thesis by (simp add: register_repository_def bindM_def)
    next
      case (Inr data)
      with ask have "data_typed data" by (auto simp: external_def split: prod.splits dest: get_repository_typed)
      from keepsD [OF t [OF this] w1] Inr ask show ?thesis by (simp add: register_repository_def bindM_def)
    qed
  qed
qed

lemma import_issue_typed:
  assumes others: "others_typed lcase env"
  shows "keeps (typed_world lcase) (import_issue env gh repository number)"
  unfolding import_issue_def
  by (intro keeps_bind typed_external typed_transaction [OF others])
    (auto simp: reading_def elim: store_issue_typed)

text \<open>The catalog stays well typed: whatever GitHub answers, registering a repository and importing an
  issue leave tables in which identifiers and identities are unique, every column holds a value of its
  type, every issue has a number PostgreSQL's integer holds and belongs to a repository there is.\<close>

theorem catalog_stays_typed:
  assumes "others_typed lcase env" and "catalog_typed lcase (w_db w)"
  shows "catalog_typed lcase (w_db (snd (register_repository env gh lcase owner repo w))) \<and>
    catalog_typed lcase (w_db (snd (import_issue env gh repository number w)))"
  using keepsD [OF register_repository_typed [OF assms(1)]] keepsD [OF import_issue_typed [OF assms(1)]] assms(2)
  by (simp add: typed_world_def)

definition sample_github :: "nat github" where
  "sample_github =
     \<lparr>gh_http = (\<lambda>q n. (Response \<lparr>hr_status = 200, hr_headers = (\<lambda>_. None), hr_text = [],
        hr_json = Some (Json_object [(''owner'', Json_object [(''login'', Json_text ''O'')]), (''name'', Json_text ''m''),
          (''clone_url'', Json_text ''u''), (''default_branch'', Json_text ''main''), (''number'', Json_int 9),
          (''title'', Json_text ''crash''), (''state'', Json_text ''open''), (''html_url'', Json_text ''u'')])\<rparr>, n)),
      gh_now = (\<lambda>_. 0), gh_query = (\<lambda>_. []), gh_number = (\<lambda>_. ''9''), gh_lax_int = (\<lambda>_. None)\<rparr>"

lemma catalog_stays_typed_witness:
  "catalog_typed ascii_lower (w_db (snd (register_repository example_environment sample_github ascii_lower ''o'' ''m''
      (example_world example_db)))) \<and>
   length (db_repositories (w_db (snd (register_repository example_environment sample_github ascii_lower ''o'' ''m''
      (example_world example_db))))) = 2"
proof -
  have "others_typed ascii_lower example_environment" by (simp add: others_typed_def example_environment_def)
  moreover have "catalog_typed ascii_lower (w_db (example_world example_db))" by code_simp
  moreover have "length (db_repositories (w_db (snd (register_repository example_environment sample_github ascii_lower ''o'' ''m''
      (example_world example_db))))) = 2"
    by code_simp
  ultimately show ?thesis
    using catalog_stays_typed [of ascii_lower example_environment "example_world example_db" sample_github "''o''" "''m''" 1 9]
    by blast
qed

end
