(* ===== verification/Issue_Context.thy ===== *)
theory Issue_Context
  imports Hybrid_Retrieval Workspace_Properties Example_Services
begin

text \<open>
  \<^verbatim>\<open>app/services/issue_context.py\<close>, \<^verbatim>\<open>context_store.py\<close> and \<^verbatim>\<open>context_queries.py\<close>: the bounded
  context of an issue. Queries are cut out of its text, the retriever is asked for each of them, the
  chunks found are read back from the database and included, best first, as long as they fit, then the
  chunks next to them. The retriever is an argument (\<open>RankedRetriever\<close> is a protocol).
\<close>

section \<open>Queries\<close>

text \<open>\<open>str.splitlines\<close>, \<open>str.split\<close> without an argument, and \<open>str.strip\<close> of a set of characters.\<close>

fun text_lines :: "string \<Rightarrow> string list" where
  "text_lines [] = []"
| "text_lines (c # cs) =
     (if line_break (of_char c)
      then [] # text_lines (if c = CHR 0x0D \<and> starts_with [CHR 0x0A] cs then tl cs else cs)
      else (case text_lines cs of [] \<Rightarrow> [[c]] | l # ls \<Rightarrow> (c # l) # ls))"

fun split_space :: "string \<Rightarrow> string list" where
  "split_space [] = [[]]"
| "split_space (c # cs) =
     (if space_char c then [] # split_space cs
      else (case split_space cs of [] \<Rightarrow> [[c]] | w # ws \<Rightarrow> (c # w) # ws))"

definition text_words :: "string \<Rightarrow> string list" where
  "text_words s = filter (\<lambda>w. w \<noteq> []) (split_space s)"

definition strip_chars :: "string \<Rightarrow> string \<Rightarrow> string" where
  "strip_chars chars s = rev (dropWhile (\<lambda>c. c \<in> set chars) (rev (dropWhile (\<lambda>c. c \<in> set chars) s)))"

text \<open>\<open>str.isalnum\<close> on the first 256 code points.\<close>

definition alnum_char :: "char \<Rightarrow> bool" where
  "alnum_char c \<longleftrightarrow> ascii_letter c \<or> ascii_digit c \<or>
     (let n = of_char c :: nat in n \<in> {170, 178, 179, 181, 185, 186, 188, 189, 190} \<or>
        192 \<le> n \<and> n \<noteq> 215 \<and> n \<noteq> 247)"

text \<open>The matches of the regular expression: what stands between two backticks of one line.\<close>

definition code_char :: "char \<Rightarrow> bool" where
  "code_char c \<longleftrightarrow> c \<noteq> CHR 0x60 \<and> c \<noteq> CHR 0x0A"

function code_spans :: "string \<Rightarrow> string list" where
  "code_spans [] = []"
| "code_spans (c # cs) =
     (let span = takeWhile code_char cs; rest = dropWhile code_char cs
      in if c = CHR 0x60 \<and> span \<noteq> [] \<and> starts_with [CHR 0x60] rest
         then span # code_spans (tl rest) else code_spans cs)"
  by pat_completeness auto
termination
  by (relation "measure length") (auto simp: le_imp_less_Suc length_dropWhile_le le_diff_conv
    intro: le_less_trans [OF diff_le_self] le_trans [OF length_dropWhile_le])

definition normalized :: "nat \<Rightarrow> string \<Rightarrow> string" where
  "normalized chars candidate = take chars (join_with (CHR '' '') (text_words (strip_chars ''# -*>'' candidate)))"

fun collect_queries :: "nat \<Rightarrow> nat \<Rightarrow> string list \<Rightarrow> string list \<Rightarrow> string list" where
  "collect_queries most chars [] queries = queries"
| "collect_queries most chars (candidate # cs) queries =
     (let q = normalized chars candidate;
          queries' = (if q \<noteq> [] \<and> (\<exists>c \<in> set q. alnum_char c) \<and> q \<notin> set queries then queries @ [q] else queries)
      in if length queries' = most then queries' else collect_queries most chars cs queries')"

definition issue_queries :: "string \<Rightarrow> string option \<Rightarrow> nat \<Rightarrow> nat \<Rightarrow> string list" where
  "issue_queries heading body most chars =
     collect_queries most chars (heading # code_spans (or_empty body) @ text_lines (or_empty body)) []"

section \<open>The store\<close>

definition load_seed :: "uuid \<Rightarrow> nat \<Rightarrow> db \<Rightarrow> service_error + context_seed" where
  "load_seed issue max_chars d =
     bindE (someE RecordNotFound (fetch iss_id issue (db_issues d))) (\<lambda>i.
     bindE (someE RecordNotFound (fetch repo_id (iss_repository_id i) (db_repositories d))) (\<lambda>r.
     let heading = take 512 (iss_title i);
         body = map_option (\<lambda>b. take (max_chars - length heading) (take max_chars b)) (iss_body i)
     in Inr \<lparr>cs_repository = \<lparr>cr_id = repo_id r, cr_github_owner = repo_github_owner r,
               cr_github_name = repo_github_name r, cr_default_branch = repo_default_branch r,
               cr_index_status = repo_index_status r, cr_embedding_status = repo_embedding_status r\<rparr>,
             cs_issue = \<lparr>ci_id = iss_id i, ci_github_issue_number = iss_github_issue_number i,
               ci_title = heading, ci_body = body,
               ci_truncated = length heading < length (iss_title i) \<or>
                 length (or_empty body) < length (or_empty (iss_body i))\<rparr>\<rparr>))"

record chunk_document =
  doc_id :: uuid
  doc_file_path :: pystr
  doc_start_line :: nat
  doc_end_line :: nat
  doc_content :: pystr

definition document_of :: "nat \<Rightarrow> code_chunk_row \<Rightarrow> chunk_document" where
  "document_of max_chars r =
     \<lparr>doc_id = ch_id r, doc_file_path = ch_file_path r, doc_start_line = ch_start_line r,
      doc_end_line = ch_end_line r, doc_content = take (max_chars + 1) (ch_content r)\<rparr>"

definition stored_chunks :: "uuid \<Rightarrow> uuid list \<Rightarrow> nat \<Rightarrow> db \<Rightarrow> chunk_document list" where
  "stored_chunks repository ids max_chars d =
     map (document_of max_chars) (take (length ids)
       (sort_key (\<lambda>r. (ch_file_path r, ch_start_line r, ch_end_line r, ch_id r))
         (filter (\<lambda>r. ch_repository_id r = repository \<and> ch_id r \<in> set ids \<and> length (ch_file_path r) \<le> 1024)
           (db_chunks d))))"

definition load_chunks :: "'x environment \<Rightarrow> uuid \<Rightarrow> uuid list \<Rightarrow> nat \<Rightarrow> ('x world, chunk_document list) eff" where
  "load_chunks env repository ids max_chars =
     (if ids = [] then ret [] else session env (\<lambda>d. Inr (d, stored_chunks repository ids max_chars d)))"

text \<open>The nearest chunk before, ordered by descending end, and the nearest one after.\<close>

definition first_by :: "('a \<Rightarrow> 'k :: linorder) \<Rightarrow> 'a list \<Rightarrow> 'a list" where
  "first_by f xs = take 1 (sort_key f xs)"

definition neighbor_ids :: "uuid \<Rightarrow> chunk_document \<Rightarrow> db \<Rightarrow> uuid list" where
  "neighbor_ids repository doc d =
     (let rows = filter (\<lambda>r. ch_repository_id r = repository \<and> ch_file_path r = doc_file_path doc) (db_chunks d)
      in map ch_id (first_by (\<lambda>r. (- int (ch_end_line r), ch_id r)) (filter (\<lambda>r. ch_end_line r < doc_start_line doc) rows) @
          first_by (\<lambda>r. (int (ch_start_line r), ch_id r)) (filter (\<lambda>r. doc_end_line doc < ch_start_line r) rows)))"

definition neighbors :: "'x environment \<Rightarrow> uuid \<Rightarrow> chunk_document \<Rightarrow> nat \<Rightarrow> ('x world, chunk_document list) eff" where
  "neighbors env repository doc max_chars =
     bindM (session env (\<lambda>d. Inr (d, neighbor_ids repository doc d))) (\<lambda>ids.
     load_chunks env repository ids max_chars)"

section \<open>Evidence\<close>

text \<open>A hit of any ranked retriever: the hybrid one says what each of its two found.\<close>

datatype ranked_hit = Plain_hit search_result | Hybrid_hit hybrid_result

definition hit_chunk :: "ranked_hit \<Rightarrow> uuid" where
  "hit_chunk h = (case h of Plain_hit r \<Rightarrow> hit_chunk_id r | Hybrid_hit r \<Rightarrow> hit_chunk_id r)"

definition evidence_of :: "string \<Rightarrow> ranked_hit \<Rightarrow> retrieval_evidence" where
  "evidence_of query h = (case h of
     Plain_hit r \<Rightarrow> \<lparr>re_query = query, re_rank = hit_rank r, re_score = hit_score r, re_bm25_rank = None,
       re_bm25_score = None, re_vector_rank = None, re_vector_score = None\<rparr>
   | Hybrid_hit r \<Rightarrow> \<lparr>re_query = query, re_rank = hit_rank r, re_score = hit_score r,
       re_bm25_rank = hy_bm25_rank r, re_bm25_score = hy_bm25_score r,
       re_vector_rank = hy_vector_rank r, re_vector_score = hy_vector_score r\<rparr>)"

type_synonym evidence_map = "(uuid \<times> retrieval_evidence list) list"

definition entries_of :: "evidence_map \<Rightarrow> uuid \<Rightarrow> retrieval_evidence list" where
  "entries_of m i = (case map_of m i of None \<Rightarrow> [] | Some es \<Rightarrow> es)"

definition add_hit :: "string \<Rightarrow> ranked_hit \<Rightarrow> evidence_map \<Rightarrow> evidence_map" where
  "add_hit query h m =
     (let i = hit_chunk h; entries = entries_of m i
      in if \<exists>e \<in> set entries. re_query e = query then m
         else aset i (entries @ [evidence_of query h]) (setdefault i [] m))"

definition search_evidence ::
  "(uuid \<Rightarrow> string \<Rightarrow> nat \<Rightarrow> ('x world, ranked_hit list) eff) \<Rightarrow> uuid \<Rightarrow> nat \<Rightarrow> string \<Rightarrow> evidence_map \<Rightarrow>
    ('x world, evidence_map) eff" where
  "search_evidence search repository limit query m =
     bindM (search repository query limit) (\<lambda>hits. ret (fold (add_hit query) (take limit hits) m))"

section \<open>The context\<close>

text \<open>\<open>{doc.id: doc for doc in ...}\<close>.\<close>

definition dict_of :: "chunk_document list \<Rightarrow> (uuid \<times> chunk_document) list" where
  "dict_of docs = fold (\<lambda>doc m. aset (doc_id doc) doc (setdefault (doc_id doc) doc m)) docs []"

definition document_order :: "evidence_map \<Rightarrow> chunk_document \<Rightarrow> rat \<times> nat \<times> pystr \<times> nat \<times> uuid" where
  "document_order evidence doc =
     (let entries = entries_of evidence (doc_id doc)
      in (- Max (re_score ` set entries), Min (re_rank ` set entries), doc_file_path doc, doc_start_line doc, doc_id doc))"

record context_limits =
  cl_max_chunks :: nat
  cl_max_files :: nat
  cl_max_code_chars :: nat

record gathered =
  ga_snippets :: "context_snippet list"
  ga_files :: "pystr list"
  ga_chars :: nat
  ga_limited :: bool

definition included_ids :: "gathered \<Rightarrow> uuid list" where
  "included_ids g = map sn_chunk_id (ga_snippets g)"

definition include_doc ::
  "context_limits \<Rightarrow> evidence_map \<Rightarrow> uuid option \<Rightarrow> chunk_document \<Rightarrow> gathered \<Rightarrow> gathered" where
  "include_doc limits evidence neighbor_of doc g =
     (if doc_id doc \<in> set (included_ids g) then g
      else if cl_max_chunks limits \<le> length (ga_snippets g) \<or>
           (doc_file_path doc \<notin> set (ga_files g) \<and> cl_max_files limits \<le> length (ga_files g)) \<or>
           cl_max_code_chars limits < ga_chars g + length (doc_content doc)
      then g\<lparr>ga_limited := True\<rparr>
      else g\<lparr>ga_snippets := ga_snippets g @ [\<lparr>sn_chunk_id = doc_id doc, sn_file_path = doc_file_path doc,
               sn_start_line = doc_start_line doc, sn_end_line = doc_end_line doc, sn_content = doc_content doc,
               sn_retrieval = entries_of evidence (doc_id doc), sn_neighbor_of = neighbor_of\<rparr>],
             ga_files := (if doc_file_path doc \<in> set (ga_files g) then ga_files g else ga_files g @ [doc_file_path doc]),
             ga_chars := ga_chars g + length (doc_content doc)\<rparr>)"

definition include_neighbors ::
  "'x environment \<Rightarrow> context_limits \<Rightarrow> evidence_map \<Rightarrow> uuid \<Rightarrow> chunk_document \<Rightarrow> gathered \<Rightarrow> ('x world, gathered) eff" where
  "include_neighbors env limits evidence repository doc g =
     (if doc_id doc \<notin> set (included_ids g) \<or> cl_max_chunks limits \<le> length (ga_snippets g) then ret g
      else bindM (neighbors env repository doc (cl_max_code_chars limits)) (\<lambda>docs.
           ret (fold (include_doc limits evidence (Some (doc_id doc))) docs g)))"

definition context_of :: "context_seed \<Rightarrow> string list \<Rightarrow> gathered \<Rightarrow> issue_context" where
  "context_of seed queries g =
     \<lparr>cs_repository = cs_repository seed, cs_issue = cs_issue seed, ic_queries = queries,
      ic_relevant_files = sort (ga_files g), ic_snippets = ga_snippets g, ic_code_chars = ga_chars g,
      ic_limited = ga_limited g\<rparr>"

definition limits_of :: "service_settings \<Rightarrow> context_limits" where
  "limits_of st = \<lparr>cl_max_chunks = nat (ss_context_max_chunks st), cl_max_files = nat (ss_context_max_files st),
     cl_max_code_chars = nat (ss_context_max_code_chars st)\<rparr>"

definition assemble ::
  "'x environment \<Rightarrow> service_settings \<Rightarrow> uuid \<Rightarrow> context_seed \<Rightarrow> string list \<Rightarrow> evidence_map \<Rightarrow> chunk_document list \<Rightarrow>
    ('x world, issue_context) eff" where
  "assemble env st repository seed queries evidence docs =
     (let limits = limits_of st; documents = map snd (dict_of docs);
          ordered = sort_key (document_order evidence) documents;
          g = fold (include_doc limits evidence None) ordered
            \<lparr>ga_snippets = [], ga_files = [], ga_chars = 0,
             ga_limited = ci_truncated (cs_issue seed) \<or> length documents \<noteq> length evidence\<rparr>
      in bindM (if ss_context_include_neighbors st
            then foldM (include_neighbors env limits evidence repository) ordered g else ret g) (\<lambda>g'.
         ret (context_of seed queries g')))"

definition build_context ::
  "'x environment \<Rightarrow> (uuid \<Rightarrow> string \<Rightarrow> nat \<Rightarrow> ('x world, ranked_hit list) eff) \<Rightarrow> service_settings \<Rightarrow> uuid \<Rightarrow>
    ('x world, issue_context) eff" where
  "build_context env search st issue =
     bindM (transaction env (\<lambda>_ _ d. bindE (load_seed issue (nat (ss_context_max_issue_chars st)) d) (\<lambda>s. Inr (d, s)))) (\<lambda>seed.
     seqM (ensure ContextNotReady (cr_index_status (cs_repository seed) = ''ready''))
     (let repository = cr_id (cs_repository seed); limit = nat (ss_context_max_chunks st);
          queries = issue_queries (ci_title (cs_issue seed)) (ci_body (cs_issue seed))
            (nat (ss_context_max_queries st)) (nat (ss_context_query_chars st))
      in bindM (foldM (search_evidence search repository limit) queries []) (\<lambda>evidence.
         bindM (load_chunks env repository (map fst evidence) (nat (ss_context_max_code_chars st))) (\<lambda>docs.
         assemble env st repository seed queries evidence docs))))"

section \<open>Bounds\<close>

definition good_queries :: "nat \<Rightarrow> string list \<Rightarrow> bool" where
  "good_queries chars queries \<longleftrightarrow> distinct queries \<and> list_all (\<lambda>q. q \<noteq> [] \<and> length q \<le> chars) queries"

lemma collect_good:
  "good_queries chars queries \<Longrightarrow> good_queries chars (collect_queries most chars cs queries)"
proof (induction cs arbitrary: queries)
  case (Cons c cs)
  have "length (normalized chars c) \<le> chars" by (simp add: normalized_def)
  with Cons show ?case by (simp add: Let_def good_queries_def)
qed simp

lemma collect_bounded:
  "length queries < most \<Longrightarrow> length (collect_queries most chars cs queries) \<le> most"
proof (induction cs arbitrary: queries)
  case (Cons c cs)
  then show ?case by (auto simp: Let_def)
qed simp

lemma issue_queries_good: "good_queries chars (issue_queries heading body most chars)"
  unfolding issue_queries_def by (rule collect_good) (simp add: good_queries_def)

lemma issue_queries_bounded: "0 < most \<Longrightarrow> length (issue_queries heading body most chars) \<le> most"
  unfolding issue_queries_def by (rule collect_bounded) simp

text \<open>What has been gathered always fits, and every snippet has been found or is next to one that was.\<close>

definition sourced :: "gathered \<Rightarrow> context_snippet \<Rightarrow> bool" where
  "sourced g sn \<longleftrightarrow> (case sn_neighbor_of sn of
     None \<Rightarrow> sn_retrieval sn \<noteq> [] | Some i \<Rightarrow> i \<in> set (included_ids g))"

definition fits_limits :: "context_limits \<Rightarrow> gathered \<Rightarrow> bool" where
  "fits_limits limits g \<longleftrightarrow> distinct (included_ids g) \<and> length (ga_snippets g) \<le> cl_max_chunks limits \<and>
     distinct (ga_files g) \<and> set (ga_files g) = sn_file_path ` set (ga_snippets g) \<and>
     length (ga_files g) \<le> cl_max_files limits \<and>
     ga_chars g = sum_list (map (\<lambda>sn. length (sn_content sn)) (ga_snippets g)) \<and>
     ga_chars g \<le> cl_max_code_chars limits \<and> (\<forall>sn \<in> set (ga_snippets g). sourced g sn)"

lemma include_ids: "set (included_ids g) \<subseteq> set (included_ids (include_doc limits evidence n doc g))"
  by (auto simp: include_doc_def included_ids_def)

lemma fold_include_ids: "set (included_ids g) \<subseteq> set (included_ids (fold (include_doc limits evidence n) docs g))"
proof (induction docs arbitrary: g)
  case (Cons doc docs)
  from include_ids Cons.IH show ?case by (simp add: subset_trans [OF include_ids Cons.IH])
qed simp

lemma sourced_mono: "set (included_ids g) \<subseteq> set (included_ids g') \<Longrightarrow> sourced g sn \<Longrightarrow> sourced g' sn"
  by (auto simp: sourced_def split: option.splits)

lemma fitting_include:
  assumes "fits_limits limits g"
    and source: "case n of None \<Rightarrow> entries_of evidence (doc_id doc) \<noteq> [] | Some i \<Rightarrow> i \<in> set (included_ids g)"
  shows "fits_limits limits (include_doc limits evidence n doc g)"
proof -
  let ?g = "include_doc limits evidence n doc g"
  have "sourced ?g sn" if "sn \<in> set (ga_snippets ?g)" for sn
  proof (cases "sn \<in> set (ga_snippets g)")
    case True
    with assms(1) have "sourced g sn" by (simp add: fits_limits_def)
    with include_ids show ?thesis by (rule sourced_mono)
  next
    case False
    with that have "sn_neighbor_of sn = n" "sn_retrieval sn = entries_of evidence (doc_id doc)"
      by (auto simp: include_doc_def split: if_splits)
    with source include_ids [of g limits evidence n doc] show ?thesis
      by (auto simp: sourced_def split: option.splits)
  qed
  then show ?thesis
    using assms(1) by (auto simp: fits_limits_def include_doc_def included_ids_def)
qed

lemma fitting_fold:
  assumes "fits_limits limits g"
    and "\<And>doc. doc \<in> set docs \<Longrightarrow> case n of None \<Rightarrow> entries_of evidence (doc_id doc) \<noteq> [] | Some i \<Rightarrow> i \<in> set (included_ids g)"
  shows "fits_limits limits (fold (include_doc limits evidence n) docs g)"
  using assms
proof (induction docs arbitrary: g)
  case (Cons doc docs)
  have "fits_limits limits (include_doc limits evidence n doc g)"
    using Cons.prems(1) Cons.prems(2) [of doc] by (intro fitting_include) simp_all
  moreover have "case n of None \<Rightarrow> entries_of evidence (doc_id x) \<noteq> []
      | Some i \<Rightarrow> i \<in> set (included_ids (include_doc limits evidence n doc g))" if "x \<in> set docs" for x
    using Cons.prems(2) [of x] that include_ids [of g limits evidence n doc] by (auto split: option.splits)
  ultimately show ?case by (simp add: Cons.IH)
qed simp

definition evidence_ok :: "evidence_map \<Rightarrow> bool" where
  "evidence_ok m \<longleftrightarrow> (\<forall>x \<in> set m. snd x \<noteq> [])"

lemma add_hit_ok: "evidence_ok m \<Longrightarrow> evidence_ok (add_hit query h m)"
  unfolding evidence_ok_def add_hit_def aset_def setdefault_def Let_def
  by (simp add: ball_Un) (fastforce split: if_splits)

lemma search_evidence_ok:
  "search_evidence search repository limit query m w = (Inr m', w') \<Longrightarrow> evidence_ok m \<Longrightarrow> evidence_ok m'"
proof -
  assume "search_evidence search repository limit query m w = (Inr m', w')" and ok: "evidence_ok m"
  then obtain hits where m': "m' = fold (add_hit query) (take limit hits) m"
    by (auto simp: search_evidence_def runs_Inr)
  have "evidence_ok (fold (add_hit query) hs m)" for hs
    using ok by (induction hs arbitrary: m) (simp_all add: add_hit_ok)
  then show ?thesis by (simp add: m')
qed

lemma entries_of_ok:
  assumes "evidence_ok m" and "i \<in> fst ` set m"
  shows "entries_of m i \<noteq> []"
proof -
  from assms(2) obtain es where "map_of m i = Some es" by (cases "map_of m i") (auto simp: map_of_eq_None_iff)
  then show ?thesis using assms(1) map_of_SomeD [of m i es] by (auto simp: entries_of_def evidence_ok_def)
qed

lemma stored_chunks_id: "doc \<in> set (stored_chunks repository ids most d) \<Longrightarrow> doc_id doc \<in> set ids"
  by (auto simp: stored_chunks_def document_of_def dest!: in_set_takeD)

lemma dict_of_subset: "snd ` set (dict_of docs) \<subseteq> set docs"
proof -
  have "snd ` set (fold (\<lambda>doc m. aset (doc_id doc) doc (setdefault (doc_id doc) doc m)) docs m) \<subseteq> snd ` set m \<union> set docs" for m
  proof (induction docs arbitrary: m)
    case (Cons doc docs)
    have "snd ` set (aset (doc_id doc) doc (setdefault (doc_id doc) doc m)) \<subseteq> insert doc (snd ` set m)"
      by (force simp: aset_def setdefault_def split: if_splits)
    with Cons.IH [of "aset (doc_id doc) doc (setdefault (doc_id doc) doc m)"] show ?case by auto
  qed simp
  from this [of "[]"] show ?thesis by (simp add: dict_of_def)
qed

lemma load_chunks_id:
  "load_chunks env repository ids most w = (Inr docs, w') \<Longrightarrow> doc \<in> set docs \<Longrightarrow> doc_id doc \<in> set ids"
  by (auto simp: load_chunks_def session_def Let_def pure_Inr dest: stored_chunks_id split: if_splits)

lemma fitting_neighbors:
  assumes "include_neighbors env limits evidence repository doc g w = (Inr g', w')" and "fits_limits limits g"
  shows "fits_limits limits g'"
proof (cases "doc_id doc \<notin> set (included_ids g) \<or> cl_max_chunks limits \<le> length (ga_snippets g)")
  case False
  with assms(1) obtain docs where "g' = fold (include_doc limits evidence (Some (doc_id doc))) docs g"
    by (auto simp: include_neighbors_def runs_Inr)
  with assms(2) False show ?thesis by (simp add: fitting_fold)
qed (use assms in \<open>simp add: include_neighbors_def runs_Inr\<close>)

lemma load_seed_bounded:
  assumes "load_seed issue most d = Inr seed" and "512 \<le> most"
  shows "length (ci_title (cs_issue seed)) + length (or_empty (ci_body (cs_issue seed))) \<le> most"
  using assms by (auto simp: load_seed_def Let_def or_empty_def min_def split: option.splits) linarith+

text \<open>What a context promises under the settings.\<close>

definition context_fits :: "service_settings \<Rightarrow> issue_context \<Rightarrow> bool" where
  "context_fits st c \<longleftrightarrow>
     length (ci_title (cs_issue c)) + length (or_empty (ci_body (cs_issue c))) \<le> nat (ss_context_max_issue_chars st) \<and>
     length (ic_queries c) \<le> nat (ss_context_max_queries st) \<and>
     good_queries (nat (ss_context_query_chars st)) (ic_queries c) \<and>
     distinct (map sn_chunk_id (ic_snippets c)) \<and> length (ic_snippets c) \<le> nat (ss_context_max_chunks st) \<and>
     ic_code_chars c = sum_list (map (\<lambda>sn. length (sn_content sn)) (ic_snippets c)) \<and>
     ic_code_chars c \<le> nat (ss_context_max_code_chars st) \<and>
     set (ic_relevant_files c) = sn_file_path ` set (ic_snippets c) \<and> sorted (ic_relevant_files c) \<and>
     distinct (ic_relevant_files c) \<and> length (ic_relevant_files c) \<le> nat (ss_context_max_files st) \<and>
     list_all (\<lambda>sn. case sn_neighbor_of sn of None \<Rightarrow> sn_retrieval sn \<noteq> []
       | Some i \<Rightarrow> i \<in> set (map sn_chunk_id (ic_snippets c))) (ic_snippets c)"

lemma assemble_fits:
  assumes "assemble env st repository seed queries evidence docs w = (Inr c, w')"
    and ok: "evidence_ok evidence" and ids: "\<And>doc. doc \<in> set docs \<Longrightarrow> doc_id doc \<in> fst ` set evidence"
  obtains g where "c = context_of seed queries g" and "fits_limits (limits_of st) g"
proof -
  let ?limits = "limits_of st"
  let ?documents = "map snd (dict_of docs)"
  let ?ordered = "sort_key (document_order evidence) ?documents"
  let ?start = "\<lparr>ga_snippets = [], ga_files = [], ga_chars = 0,
      ga_limited = ci_truncated (cs_issue seed) \<or> length ?documents \<noteq> length evidence\<rparr>"
  let ?g = "fold (include_doc ?limits evidence None) ?ordered ?start"
  have "fits_limits ?limits ?start" by (simp add: fits_limits_def included_ids_def)
  moreover have "entries_of evidence (doc_id doc) \<noteq> []" if "doc \<in> set ?ordered" for doc
  proof -
    from that dict_of_subset [of docs] have "doc \<in> set docs" by auto
    from entries_of_ok [OF ok ids [OF this]] show ?thesis .
  qed
  ultimately have start: "fits_limits ?limits ?g" by (intro fitting_fold) simp_all
  from assms(1) obtain g where c: "c = context_of seed queries g"
    and g: "(if ss_context_include_neighbors st
        then foldM (include_neighbors env ?limits evidence repository) ?ordered ?g else ret ?g) w = (Inr g, w')"
    unfolding assemble_def Let_def by (auto simp: runs_Inr)
  have "fits_limits ?limits g"
  proof (cases "ss_context_include_neighbors st")
    case True
    with g have "foldM (include_neighbors env ?limits evidence repository) ?ordered ?g w = (Inr g, w')" by simp
    then show ?thesis using start by (rule foldM_value) (rule fitting_neighbors)
  qed (use g start in \<open>simp add: pure_Inr\<close>)
  with c show thesis by (rule that)
qed

text \<open>C15. A context stays within its limits, whatever the retriever returns: issue text, queries, snippets,
  code and files are bounded by the settings; chunks, queries and files occur once; the files are those of the
  snippets and the characters theirs; every snippet was found by a query or is next to one in the context.\<close>

theorem context_bounded:
  assumes "field_bounds st" and "build_context env search st issue w = (Inr c, w')"
  shows "context_fits st c"
proof -
  from assms(1) have "between 512 50000 (ss_context_max_issue_chars st)" "between 1 5 (ss_context_max_queries st)"
    by (simp_all add: field_bounds_def)
  then have lim: "512 \<le> nat (ss_context_max_issue_chars st)" "0 < nat (ss_context_max_queries st)"
    by (auto simp: between_def)
  from assms(2) obtain seed evidence docs d w1 w2 w3 w4 where seed: "load_seed issue (nat (ss_context_max_issue_chars st)) d = Inr seed"
    and ev: "foldM (search_evidence search (cr_id (cs_repository seed)) (nat (ss_context_max_chunks st)))
        (issue_queries (ci_title (cs_issue seed)) (ci_body (cs_issue seed)) (nat (ss_context_max_queries st))
          (nat (ss_context_query_chars st))) [] w1 = (Inr evidence, w2)"
    and docs: "load_chunks env (cr_id (cs_repository seed)) (map fst evidence) (nat (ss_context_max_code_chars st)) w2 = (Inr docs, w3)"
    and asm: "assemble env st (cr_id (cs_repository seed)) seed
        (issue_queries (ci_title (cs_issue seed)) (ci_body (cs_issue seed)) (nat (ss_context_max_queries st))
          (nat (ss_context_query_chars st))) evidence docs w3 = (Inr c, w')"
    unfolding build_context_def Let_def by (auto simp: runs_Inr transaction_def Let_def split: sum.splits)
  have "evidence_ok evidence"
    using ev by (rule foldM_value) (auto simp: evidence_ok_def [of "[]"] dest: search_evidence_ok)
  from asm this obtain g where c: "c = context_of seed (issue_queries (ci_title (cs_issue seed)) (ci_body (cs_issue seed))
      (nat (ss_context_max_queries st)) (nat (ss_context_query_chars st))) g" and g: "fits_limits (limits_of st) g"
    by (rule assemble_fits) (use load_chunks_id [OF docs] in simp_all)
  from g load_seed_bounded [OF seed lim(1)] issue_queries_bounded [OF lim(2)] issue_queries_good show ?thesis
    by (auto simp: c context_of_def context_fits_def fits_limits_def limits_of_def included_ids_def list_all_iff sourced_def
      split: option.splits)
qed

definition context_chunk :: "uuid \<Rightarrow> nat \<Rightarrow> code_chunk_row" where
  "context_chunk i n =
     \<lparr>ch_id = i, ch_repository_id = 1, ch_file_path = pytext ''m.py'', ch_language = None, ch_start_line = n,
      ch_end_line = n, ch_content = pytext ''x = 1'', ch_content_hash = ''h'', ch_embedding = None,
      ch_embedding_status = ''pending'', ch_embedding_profile = None, ch_embedding_content_hash = None\<rparr>"

definition context_db :: db where
  "context_db = example_db\<lparr>db_chunks := [context_chunk 50 1, context_chunk 51 2, context_chunk 52 3]\<rparr>"

definition context_search :: "uuid \<Rightarrow> string \<Rightarrow> nat \<Rightarrow> (nat world, ranked_hit list) eff" where
  "context_search repository query limit = ret [Plain_hit \<lparr>hit_chunk_id = 51, hit_file_path = pytext ''m.py'',
     hit_start_line = 2, hit_end_line = 2, hit_content = pytext ''x = 1'', hit_score = 1, hit_rank = 1\<rparr>]"

lemma context_bounded_witness:
  "\<exists>c w'. build_context example_environment context_search default_settings 2 (example_world context_db) = (Inr c, w') \<and>
     map sn_chunk_id (ic_snippets c) = [51, 50, 52] \<and> context_fits default_settings c"
proof -
  let ?r = "build_context example_environment context_search default_settings 2 (example_world context_db)"
  have "case fst ?r of Inl _ \<Rightarrow> False | Inr c \<Rightarrow> map sn_chunk_id (ic_snippets c) = [51, 50, 52]"
    by code_simp
  then obtain c where "fst ?r = Inr c" and ids: "map sn_chunk_id (ic_snippets c) = [51, 50, 52]"
    by (auto split: sum.splits)
  then have r: "?r = (Inr c, snd ?r)" by (metis prod.collapse)
  from r ids context_bounded [OF default_bounds r] show ?thesis by (intro exI conjI)
qed

end
