(* ===== verification/Retrieval.thy ===== *)
theory Retrieval
  imports Issue_Context Embeddings
begin

text \<open>
  \<^verbatim>\<open>app/retrieval/tokenization.py\<close>, \<^verbatim>\<open>bm25.py\<close>, \<^verbatim>\<open>postgres.py\<close> and \<^verbatim>\<open>vector.py\<close>: the two
  retrievers over the chunks of a repository. Python's Unicode tables, its logarithm and the distance of
  the vector database are arguments; scores are rational numbers where the program has floating point.
\<close>

section \<open>Tokens\<close>

text \<open>\<open>unicodedata.normalize\<close>, \<open>str.casefold\<close>, the word characters of \<open>re\<close>, and \<open>math.log1p\<close>.\<close>

record lexicon =
  lx_nfkc :: "pystr \<Rightarrow> pystr"
  lx_casefold :: "pystr \<Rightarrow> pystr"
  lx_word :: "nat \<Rightarrow> bool"
  lx_log1p :: "rat \<Rightarrow> rat"

definition upper_code :: "nat \<Rightarrow> bool" where
  "upper_code c \<longleftrightarrow> 65 \<le> c \<and> c \<le> 90"

definition lower_code :: "nat \<Rightarrow> bool" where
  "lower_code c \<longleftrightarrow> 97 \<le> c \<and> c \<le> 122"

definition digit_code :: "nat \<Rightarrow> bool" where
  "digit_code c \<longleftrightarrow> 48 \<le> c \<and> c \<le> 57"

text \<open>
  The first substitution: a run of capitals of length two or more, followed by a small letter, loses its
  last one to the word that follows. A run that is not followed by one has no match inside it either.
\<close>

function split_acronyms :: "pystr \<Rightarrow> pystr" where
  "split_acronyms s = (case s of [] \<Rightarrow> []
     | c # cs \<Rightarrow>
         (let run = takeWhile upper_code s; rest = dropWhile upper_code s
          in if length run < 2 then c # split_acronyms cs
             else if rest \<noteq> [] \<and> lower_code (hd rest)
             then butlast run @ [32, last run, hd rest] @ split_acronyms (tl rest)
             else run @ split_acronyms rest))"
  by pat_completeness auto
termination
proof (relation "measure length", goal_cases)
  case (3 s c cs run rest)
  have "length (dropWhile upper_code s) \<le> length s" by (rule length_dropWhile_le)
  with 3 show ?case by (cases rest) auto
next
  case (4 s c cs run rest)
  have "length run + length rest = length s"
    using 4 arg_cong [OF takeWhile_dropWhile_id [of upper_code s], of length] by simp
  with 4 show ?case by auto
qed auto

declare split_acronyms.simps [simp del]

text \<open>The other substitutions: a space between two adjacent characters of disjoint classes.\<close>

fun separate :: "(nat \<Rightarrow> bool) \<Rightarrow> (nat \<Rightarrow> bool) \<Rightarrow> pystr \<Rightarrow> pystr" where
  "separate p q (a # b # s) = (if p a \<and> q b then a # 32 # b # separate p q s else a # separate p q (b # s))"
| "separate p q s = s"

text \<open>\<open>re.findall\<close>: the maximal runs.\<close>

function runs_of :: "(nat \<Rightarrow> bool) \<Rightarrow> pystr \<Rightarrow> pystr list" where
  "runs_of p s = (case s of [] \<Rightarrow> []
     | c # cs \<Rightarrow> if p c then takeWhile p s # runs_of p (dropWhile p s) else runs_of p cs)"
  by pat_completeness auto
termination
  by (relation "measure (\<lambda>(p, s). length s)") (auto simp: le_imp_less_Suc length_dropWhile_le)

declare runs_of.simps [simp del]

definition separated :: "pystr \<Rightarrow> pystr" where
  "separated s =
     separate digit_code (\<lambda>c. upper_code c \<or> lower_code c)
       (separate (\<lambda>c. upper_code c \<or> lower_code c) digit_code
         (separate (\<lambda>c. lower_code c \<or> digit_code c) upper_code (split_acronyms s)))"

definition token_char :: "lexicon \<Rightarrow> nat \<Rightarrow> bool" where
  "token_char lx c \<longleftrightarrow> lx_word lx c \<and> c \<noteq> 95"

definition tokenize :: "lexicon \<Rightarrow> pystr \<Rightarrow> pystr list" where
  "tokenize lx s = runs_of (token_char lx) (lx_casefold lx (separated (lx_nfkc lx s)))"

section \<open>The corpus\<close>

definition full_document :: "code_chunk_row \<Rightarrow> chunk_document" where
  "full_document r =
     \<lparr>doc_id = ch_id r, doc_file_path = ch_file_path r, doc_start_line = ch_start_line r,
      doc_end_line = ch_end_line r, doc_content = ch_content r\<rparr>"

definition load_corpus :: "uuid \<Rightarrow> db \<Rightarrow> exc + chunk_document list" where
  "load_corpus repository d =
     (if fetch repo_id repository (db_repositories d) = None then Inl RepositoryNotFound
      else Inr (map full_document (filter (\<lambda>r. ch_repository_id r = repository) (db_chunks d))))"

section \<open>Lexical search\<close>

definition doc_tokens :: "lexicon \<Rightarrow> chunk_document \<Rightarrow> pystr list" where
  "doc_tokens lx doc = tokenize lx (doc_file_path doc @ [10] @ doc_content doc)"

definition query_terms :: "lexicon \<Rightarrow> pystr \<Rightarrow> pystr list" where
  "query_terms lx query = sort (remdups (tokenize lx query))"

definition document_frequency :: "pystr list list \<Rightarrow> pystr \<Rightarrow> nat" where
  "document_frequency tokens t = length (filter (\<lambda>ts. t \<in> set ts) tokens)"

definition inverse_frequency :: "lexicon \<Rightarrow> nat \<Rightarrow> nat \<Rightarrow> rat" where
  "inverse_frequency lx n df = lx_log1p lx ((of_nat n - of_nat df + 1 / 2) / (of_nat df + 1 / 2))"

definition token_average :: "pystr list list \<Rightarrow> rat" where
  "token_average tokens = of_nat (sum_list (map length tokens)) / of_nat (length tokens)"

definition term_score :: "lexicon \<Rightarrow> pystr list list \<Rightarrow> pystr list \<Rightarrow> pystr \<Rightarrow> rat" where
  "term_score lx tokens ts t =
     (let n = of_nat (count_list ts t);
          normalization = 3 / 2 * (1 - 3 / 4 + 3 / 4 * of_nat (length ts) / token_average tokens)
      in if count_list ts t = 0 then 0
         else inverse_frequency lx (length tokens) (document_frequency tokens t) * n * (3 / 2 + 1) / (n + normalization))"

definition bm25_score :: "lexicon \<Rightarrow> pystr list list \<Rightarrow> pystr list \<Rightarrow> pystr list \<Rightarrow> rat" where
  "bm25_score lx tokens terms ts = fold (\<lambda>t score. score + term_score lx tokens ts t) terms 0"

definition score_order :: "rat \<times> chunk_document \<Rightarrow> rat \<times> pystr \<times> nat \<times> nat \<times> uuid" where
  "score_order = (\<lambda>(s, doc). (- s, doc_file_path doc, doc_start_line doc, doc_end_line doc, doc_id doc))"

definition result_of :: "nat \<times> rat \<times> chunk_document \<Rightarrow> search_result" where
  "result_of = (\<lambda>(n, s, doc). \<lparr>hit_chunk_id = doc_id doc, hit_file_path = doc_file_path doc,
     hit_start_line = doc_start_line doc, hit_end_line = doc_end_line doc, hit_content = doc_content doc,
     hit_score = s, hit_rank = n\<rparr>)"

definition bm25_rank :: "lexicon \<Rightarrow> pystr \<Rightarrow> int \<Rightarrow> chunk_document list \<Rightarrow> search_result list" where
  "bm25_rank lx query top_k documents =
     (let terms = query_terms lx query; tokens = map (doc_tokens lx) documents in
      if documents = [] \<or> terms = [] \<or> token_average tokens = 0 then []
      else map result_of (enumerate 1 (take (nat top_k) (sort_key score_order
             (filter (\<lambda>x. 0 < fst x)
               (map (\<lambda>(ts, doc). (bm25_score lx tokens terms ts, doc)) (zip tokens documents)))))))"

definition bm25_search ::
  "'x environment \<Rightarrow> lexicon \<Rightarrow> uuid \<Rightarrow> string \<Rightarrow> int \<Rightarrow> ('x world, search_result list) eff" where
  "bm25_search env lx repository query top_k =
     seqM (ensure ValueFailure (valid_search query top_k))
     (bindM (session env (\<lambda>d. bindE (load_corpus repository d) (\<lambda>docs. Inr (d, docs)))) (\<lambda>docs.
      ret (bm25_rank lx (pytext query) top_k docs)))"

section \<open>Vector search\<close>

record vector_index =
  vx_profile :: string
  vx_hypot :: "rat list \<Rightarrow> rat option"
  vx_distance :: "rat list \<Rightarrow> rat list \<Rightarrow> rat"

definition searchable :: "vector_index \<Rightarrow> uuid \<Rightarrow> code_chunk_row \<Rightarrow> bool" where
  "searchable vx repository r \<longleftrightarrow> ch_repository_id r = repository \<and> ch_embedding_status r = ''ready'' \<and>
     ch_embedding r \<noteq> None \<and> ch_embedding_profile r = Some (vx_profile vx) \<and>
     ch_embedding_content_hash r = Some (ch_content_hash r)"

record vector_result = search_result +
  vr_distance :: rat

definition row_distance :: "vector_index \<Rightarrow> rat list \<Rightarrow> code_chunk_row \<Rightarrow> rat" where
  "row_distance vx vector r = vx_distance vx (the (ch_embedding r)) vector"

definition vector_hit :: "vector_index \<Rightarrow> rat list \<Rightarrow> nat \<times> code_chunk_row \<Rightarrow> vector_result" where
  "vector_hit vx vector = (\<lambda>(n, r).
     let distance = max 0 (min 2 (row_distance vx vector r))
     in \<lparr>hit_chunk_id = ch_id r, hit_file_path = ch_file_path r, hit_start_line = ch_start_line r,
         hit_end_line = ch_end_line r, hit_content = ch_content r, hit_score = 1 - distance, hit_rank = n,
         vr_distance = distance\<rparr>)"

definition vector_hits :: "vector_index \<Rightarrow> uuid \<Rightarrow> rat list \<Rightarrow> int \<Rightarrow> db \<Rightarrow> vector_result list" where
  "vector_hits vx repository vector top_k d =
     map (vector_hit vx vector) (enumerate 1 (take (nat top_k)
       (sort_key (\<lambda>r. (row_distance vx vector r, ch_file_path r, ch_start_line r, ch_end_line r, ch_id r))
         (filter (searchable vx repository) (db_chunks d)))))"

definition vector_ready :: "vector_index \<Rightarrow> uuid \<Rightarrow> db \<Rightarrow> exc + bool" where
  "vector_ready vx repository d =
     (if fetch repo_id repository (db_repositories d) = None then Inl RepositoryNotFound
      else Inr (\<exists>r \<in> set (db_chunks d). searchable vx repository r))"

definition vector_search ::
  "'x environment \<Rightarrow> (pystr list \<Rightarrow> 'x \<Rightarrow> (exc + json) \<times> 'x) \<Rightarrow> vector_index \<Rightarrow> uuid \<Rightarrow> string \<Rightarrow> int \<Rightarrow>
    ('x world, vector_result list) eff" where
  "vector_search env ask vx repository query top_k =
     seqM (ensure ValueFailure (valid_search query top_k))
     (bindM (session env (\<lambda>d. bindE (vector_ready vx repository d) (\<lambda>some. Inr (d, some)))) (\<lambda>some.
      if \<not> some then ret []
      else bindM (embed_texts ask [pytext query]) (\<lambda>answer.
           bindM (liftE (validate_vectors (vx_hypot vx) 1 EMBEDDING_DIMENSION answer)) (\<lambda>vectors.
           session env (\<lambda>d. Inr (d, vector_hits vx repository (hd vectors) top_k d))))))"


section \<open>Tokens cover the text\<close>

lemma filter_takeWhile_self: "filter p (takeWhile p s) = takeWhile p s"
  by (induction s) auto

lemma filter_by_run: "filter p s = takeWhile p s @ filter p (dropWhile p s)"
  using filter_append [of p "takeWhile p s" "dropWhile p s"] by (simp add: filter_takeWhile_self)

lemma concat_runs_of: "concat (runs_of p s) = filter p s"
proof (induction p s rule: runs_of.induct)
  case (1 p s)
  show ?case
  proof (cases s)
    case (Cons c cs)
    with 1 show ?thesis
      by (cases "p c") (simp_all add: runs_of.simps [of p "c # cs"] filter_by_run [of p cs])
  qed (simp add: runs_of.simps)
qed

lemma runs_of_chars: "t \<in> set (runs_of p s) \<Longrightarrow> t \<noteq> [] \<and> list_all p t"
proof (induction p s rule: runs_of.induct)
  case (1 p s)
  show ?case
  proof (cases s)
    case (Cons c cs)
    show ?thesis
    proof (cases "p c")
      case True
      with "1.prems" Cons have "t = takeWhile p s \<or> t \<in> set (runs_of p (dropWhile p s))"
        by (simp add: runs_of.simps [of p "c # cs"])
      moreover have "takeWhile p s \<noteq> [] \<and> list_all p (takeWhile p s)"
        using Cons True by (auto simp: list_all_iff dest: set_takeWhileD)
      ultimately show ?thesis using "1.IH"(1) [OF Cons True] by auto
    next
      case False
      with "1.prems" Cons "1.IH"(2) [OF Cons False] show ?thesis by (simp add: runs_of.simps [of p "c # cs"])
    qed
  qed (use "1.prems" in \<open>simp add: runs_of.simps\<close>)
qed

lemma split_acronyms_run:
  assumes "\<not> length (takeWhile upper_code s) < 2"
  shows "split_acronyms s =
    (let run = takeWhile upper_code s; rest = dropWhile upper_code s
     in if rest \<noteq> [] \<and> lower_code (hd rest) then butlast run @ [32, last run, hd rest] @ split_acronyms (tl rest)
        else run @ split_acronyms rest)"
  using assms by (subst split_acronyms.simps) (simp only: Let_def if_False split: list.split, auto)

definition letters :: "pystr \<Rightarrow> pystr" where
  "letters s = filter (\<lambda>c. c \<noteq> 32) s"

lemma letters_separate [simp]: "letters (separate p q s) = letters s"
  by (induction p q s rule: separate.induct) (auto simp: letters_def)

lemma letters_acronyms [simp]: "letters (split_acronyms s) = letters s"
proof (induction s rule: split_acronyms.induct)
  case (1 s)
  show ?case
  proof (cases s)
    case Nil
    then show ?thesis by (simp add: split_acronyms.simps)
  next
    case (Cons c cs)
    let ?run = "takeWhile upper_code s" and ?rest = "dropWhile upper_code s"
    have split: "letters s = letters ?run @ letters ?rest"
      unfolding letters_def by (simp flip: filter_append)
    consider "length ?run < 2" | "\<not> length ?run < 2" "?rest \<noteq> [] \<and> lower_code (hd ?rest)"
      | "\<not> length ?run < 2" "\<not> (?rest \<noteq> [] \<and> lower_code (hd ?rest))" by blast
    then show ?thesis
    proof cases
      case 1
      with "1.IH"(1) [OF Cons refl refl] Cons show ?thesis
        by (simp add: split_acronyms.simps [of "c # cs"] Let_def) (simp add: letters_def)
    next
      case 2
      then have "?run \<noteq> []" by auto
      then have run: "letters ?run = letters (butlast ?run) @ letters [last ?run]"
        unfolding letters_def by (metis append_butlast_last_id filter_append)
      from 2 have rest: "letters ?rest = letters [hd ?rest] @ letters (tl ?rest)"
        unfolding letters_def by (metis append_Cons append_Nil filter_append list.collapse)
      have "split_acronyms s = butlast ?run @ [32, last ?run, hd ?rest] @ split_acronyms (tl ?rest)"
        by (simp only: split_acronyms_run [OF 2(1)] Let_def 2(2) if_True simp_thms)
      then have "letters (split_acronyms s) =
          letters (butlast ?run) @ letters [last ?run] @ letters [hd ?rest] @ letters (split_acronyms (tl ?rest))"
        by (simp add: letters_def)
      with "1.IH"(2) [OF Cons refl refl 2] split run rest show ?thesis by simp
    next
      case 3
      then have "split_acronyms s = ?run @ split_acronyms ?rest"
        by (simp only: split_acronyms_run [OF 3(1)] Let_def 3(2) if_False)
      with "1.IH"(3) [OF Cons refl refl 3] split show ?thesis by (simp add: letters_def)
    qed
  qed
qed

lemma letters_separated: "letters (separated s) = letters s"
  by (simp add: separated_def)

text \<open>
  Nothing of a text is lost: its tokens are the word characters of the folded text, in order, and the
  splitting only adds spaces.
\<close>

lemma tokenize_covers:
  "concat (tokenize lx s) = filter (token_char lx) (lx_casefold lx (separated (lx_nfkc lx s))) \<and>
   letters (separated (lx_nfkc lx s)) = letters (lx_nfkc lx s) \<and>
   list_all (\<lambda>t. t \<noteq> [] \<and> list_all (token_char lx) t) (tokenize lx s)"
  unfolding tokenize_def letters_separated by (auto simp: concat_runs_of list_all_iff dest!: runs_of_chars)


section \<open>The lexical ranking\<close>

definition log_positive :: "lexicon \<Rightarrow> bool" where
  "log_positive lx \<longleftrightarrow> (\<forall>x > 0. 0 < lx_log1p lx x)"

lemma sum_scores: "fold (\<lambda>t score. score + f t) terms (a :: rat) = a + sum_list (map f terms)"
  by (induction terms arbitrary: a) (simp_all add: add.assoc)

lemma document_frequency_le: "document_frequency tokens t \<le> length tokens"
  by (simp add: document_frequency_def)

lemma term_score_sign:
  assumes "log_positive lx"
  shows "0 \<le> term_score lx tokens ts t" and "0 < term_score lx tokens ts t \<longleftrightarrow> t \<in> set ts"
proof -
  let ?n = "of_nat (count_list ts t) :: rat"
  let ?norm = "3 / 2 * (1 - 3 / 4 + 3 / 4 * of_nat (length ts) / token_average tokens)"
  have avg: "0 \<le> token_average tokens" by (simp add: token_average_def)
  then have norm: "0 \<le> ?norm" by simp
  have "of_nat (document_frequency tokens t) \<le> (of_nat (length tokens) :: rat)"
    using document_frequency_le by simp
  then have idf: "0 < inverse_frequency lx (length tokens) (document_frequency tokens t)"
    using assms unfolding inverse_frequency_def log_positive_def by (simp add: add_pos_nonneg add_nonneg_pos)
  have "0 < term_score lx tokens ts t" if "t \<in> set ts"
  proof -
    have "count_list ts t \<noteq> 0" using that by (simp add: count_list_0_iff)
    then have n: "0 < ?n" by simp
    then have "0 < ?n + ?norm" using norm by (rule add_pos_nonneg)
    with n idf have "0 < inverse_frequency lx (length tokens) (document_frequency tokens t) * ?n * (3 / 2 + 1) / (?n + ?norm)"
      by (intro divide_pos_pos mult_pos_pos) simp_all
    then show ?thesis using \<open>count_list ts t \<noteq> 0\<close> by (simp only: term_score_def Let_def if_False)
  qed
  moreover have "term_score lx tokens ts t = 0" if "t \<notin> set ts"
    using that by (simp add: term_score_def count_list_0_iff Let_def)
  ultimately show "0 \<le> term_score lx tokens ts t" and "0 < term_score lx tokens ts t \<longleftrightarrow> t \<in> set ts"
    by (cases "t \<in> set ts"; simp)+
qed

lemma bm25_score_sign:
  assumes "log_positive lx"
  shows "0 < bm25_score lx tokens terms ts \<longleftrightarrow> set terms \<inter> set ts \<noteq> {}"
proof -
  let ?f = "term_score lx tokens ts"
  have s: "bm25_score lx tokens terms ts = sum_list (map ?f terms)"
    by (simp add: bm25_score_def sum_scores)
  have nonneg: "0 \<le> sum_list (map ?f xs)" for xs
    by (induction xs) (auto intro: add_nonneg_nonneg term_score_sign(1) [OF assms])
  have "0 < sum_list (map ?f xs) \<longleftrightarrow> (\<exists>t \<in> set xs. 0 < ?f t)" for xs
  proof (induction xs)
    case (Cons x xs)
    have "0 < ?f x + sum_list (map ?f xs) \<longleftrightarrow> 0 < ?f x \<or> 0 < sum_list (map ?f xs)"
      using term_score_sign(1) [OF assms, of tokens ts x] nonneg [of xs] by linarith
    with Cons.IH show ?case by simp
  qed simp
  then show ?thesis using term_score_sign(2) [OF assms] by (auto simp: s)
qed

definition mentions :: "lexicon \<Rightarrow> pystr \<Rightarrow> chunk_document \<Rightarrow> bool" where
  "mentions lx query doc \<longleftrightarrow> set (tokenize lx query) \<inter> set (doc_tokens lx doc) \<noteq> {}"

definition lexical_score :: "lexicon \<Rightarrow> pystr \<Rightarrow> chunk_document list \<Rightarrow> chunk_document \<Rightarrow> rat" where
  "lexical_score lx query documents doc =
     bm25_score lx (map (doc_tokens lx) documents) (query_terms lx query) (doc_tokens lx doc)"

definition hit_of :: "lexicon \<Rightarrow> pystr \<Rightarrow> chunk_document list \<Rightarrow> chunk_document \<Rightarrow> search_result \<Rightarrow> bool" where
  "hit_of lx query documents doc h \<longleftrightarrow> h = result_of (hit_rank h, lexical_score lx query documents doc, doc)"

lemma ranked_matching:
  assumes "log_positive lx"
  shows "bm25_rank lx query top_k documents =
    map result_of (enumerate 1 (take (nat top_k) (sort_key score_order
      (map (\<lambda>doc. (lexical_score lx query documents doc, doc)) (filter (mentions lx query) documents)))))"
proof -
  let ?tokens = "map (doc_tokens lx) documents" and ?terms = "query_terms lx query"
  have terms: "set ?terms = set (tokenize lx query)" by (simp add: query_terms_def)
  have scored: "map (\<lambda>(ts, doc). (bm25_score lx ?tokens ?terms ts, doc)) (zip ?tokens documents) =
      map (\<lambda>doc. (lexical_score lx query documents doc, doc)) documents"
    by (auto simp: lexical_score_def intro!: nth_equalityI)
  have sel: "filter (\<lambda>x. 0 < fst x) (map (\<lambda>doc. (lexical_score lx query documents doc, doc)) documents) =
      map (\<lambda>doc. (lexical_score lx query documents doc, doc)) (filter (mentions lx query) documents)"
    by (auto simp: filter_map comp_def lexical_score_def bm25_score_sign [OF assms] terms mentions_def [abs_def])
  have none: "filter (mentions lx query) documents = []"
    if "documents = [] \<or> ?terms = [] \<or> token_average ?tokens = 0"
  proof -
    have "doc_tokens lx doc = []" if "token_average ?tokens = 0" "doc \<in> set documents" for doc
    proof -
      have "?tokens \<noteq> []" using that(2) by auto
      with that(1) have "sum_list (map length ?tokens) = 0" by (auto simp: token_average_def)
      with that(2) show ?thesis by (auto simp: comp_def)
    qed
    then show ?thesis using that terms by (auto simp: filter_empty_conv mentions_def)
  qed
  show ?thesis
  proof (cases "documents = [] \<or> ?terms = [] \<or> token_average ?tokens = 0")
    case True
    with none [OF True] show ?thesis by (auto simp: bm25_rank_def Let_def)
  next
    case False
    then show ?thesis by (simp only: bm25_rank_def Let_def if_False scored sel)
  qed
qed


lemma result_of_sel [simp]: "hit_rank (result_of x) = fst x" "hit_score (result_of x) = fst (snd x)"
  by (simp_all add: result_of_def split: prod.split)

lemma enumerate_results:
  "map hit_rank (map result_of (enumerate n xs)) = [n..<n + length xs] \<and>
   map hit_score (map result_of (enumerate n xs)) = map fst xs"
proof -
  have "map (\<lambda>x. fst (snd x)) (enumerate n xs) = map fst (map snd (enumerate n xs))" by (simp only: map_map comp_def)
  also have "\<dots> = map fst xs" by (simp only: map_snd_enumerate)
  finally show ?thesis using map_fst_enumerate [of n xs] by (simp add: comp_def)
qed

lemma hits_of_results:
  "list_all (\<lambda>x. fst x = lexical_score lx query documents (snd x)) xs \<Longrightarrow>
    list_all2 (hit_of lx query documents) (map snd xs) (map result_of (enumerate n xs))"
  by (induction xs arbitrary: n) (auto simp: hit_of_def result_of_def split: prod.splits)

text \<open>C24. Lexical search finds the best of the chunks that share a word with the query: the hits are
  chunks of the corpus that contain a token of the query, as many of them as were asked for, numbered from
  one, with the score of each computed over the whole corpus, in descending order; and a chunk that was left
  out although it shares a word has no higher score than any hit. The logarithm of a positive argument is positive.\<close>

theorem lexical_ranking:
  assumes "log_positive lx"
  shows "\<exists>chosen others.
    mset (chosen @ others) = mset (filter (mentions lx query) documents) \<and>
    length chosen = min (nat top_k) (length (filter (mentions lx query) documents)) \<and>
    list_all2 (hit_of lx query documents) chosen (bm25_rank lx query top_k documents) \<and>
    map hit_rank (bm25_rank lx query top_k documents) = [1..<Suc (length chosen)] \<and>
    sorted (rev (map hit_score (bm25_rank lx query top_k documents))) \<and>
    (\<forall>doc \<in> set others. \<forall>h \<in> set (bm25_rank lx query top_k documents).
       lexical_score lx query documents doc \<le> hit_score h)"
proof -
  let ?S = "lexical_score lx query documents" and ?m = "filter (mentions lx query) documents"
  let ?ys = "sort_key score_order (map (\<lambda>doc. (?S doc, doc)) ?m)" and ?k = "nat top_k"
  let ?hits = "bm25_rank lx query top_k documents"
  have hits: "?hits = map result_of (enumerate 1 (take ?k ?ys))" by (rule ranked_matching [OF assms])
  have scored: "fst x = ?S (snd x)" if "x \<in> set ?ys" for x using that by auto
  have order: "sorted_wrt (\<lambda>a b. fst b \<le> fst a) ?ys"
  proof -
    have "sorted_wrt (\<lambda>a b. score_order a \<le> score_order b) ?ys"
      using sorted_sort_key [of score_order "map (\<lambda>doc. (?S doc, doc)) ?m"] by (simp add: sorted_map)
    then show ?thesis
      by (rule sorted_wrt_mono_rel [rotated]) (auto simp: score_order_def less_eq_prod_def)
  qed
  have cut: "take ?k ?ys @ drop ?k ?ys = ?ys" by simp
  have "sorted_wrt (\<lambda>a b. fst b \<le> fst a) (take ?k ?ys @ drop ?k ?ys)" unfolding cut by (rule order)
  then have low: "fst b \<le> fst a" if "a \<in> set (take ?k ?ys)" "b \<in> set (drop ?k ?ys)" for a b
    using that unfolding sorted_wrt_append by blast
  have "mset (map snd ?ys) = mset ?m" by (simp add: multiset.map_comp comp_def)
  then have "mset (map snd (take ?k ?ys) @ map snd (drop ?k ?ys)) = mset ?m"
    by (simp only: map_append [symmetric] cut)
  moreover have "length (map snd (take ?k ?ys)) = min ?k (length ?m)" by (simp add: min.commute)
  moreover have "list_all2 (hit_of lx query documents) (map snd (take ?k ?ys)) ?hits"
    unfolding hits
  proof (rule hits_of_results)
    show "list_all (\<lambda>x. fst x = ?S (snd x)) (take ?k ?ys)"
      unfolding list_all_iff using scored in_set_takeD by fast
  qed
  moreover have "map hit_rank ?hits = [1..<Suc (length (map snd (take ?k ?ys)))]"
    using enumerate_results [of 1 "take ?k ?ys"] by (simp add: hits)
  moreover have scores: "map hit_score ?hits = map fst (take ?k ?ys)"
    unfolding hits by (rule enumerate_results [THEN conjunct2])
  moreover have "sorted (rev (map hit_score ?hits))"
    unfolding scores using sorted_wrt_take [OF order, of ?k] by (simp add: sorted_wrt_rev sorted_wrt_map)
  moreover have "?S doc \<le> hit_score h" if "doc \<in> set (map snd (drop ?k ?ys))" "h \<in> set ?hits" for doc h
  proof -
    from that(2) have "hit_score h \<in> set (map hit_score ?hits)" by simp
    then have "hit_score h \<in> set (map fst (take ?k ?ys))" unfolding scores .
    then obtain a where a: "a \<in> set (take ?k ?ys)" "hit_score h = fst a" by auto
    from that(1) obtain b where b: "b \<in> set (drop ?k ?ys)" "doc = snd b" by auto
    then have "fst b = ?S doc" using scored [of b] by (auto dest: in_set_dropD)
    with low [OF a(1) b(1)] a(2) show ?thesis by simp
  qed
  ultimately show ?thesis by blast
qed


definition sample_lexicon :: lexicon where
  "sample_lexicon = \<lparr>lx_nfkc = (\<lambda>s. s), lx_casefold = map lower_ascii,
     lx_word = (\<lambda>c. upper_code c \<or> lower_code c \<or> digit_code c \<or> c = 95), lx_log1p = (\<lambda>x. x)\<rparr>"

definition sample_documents :: "chunk_document list" where
  "sample_documents = map (\<lambda>(i, text). \<lparr>doc_id = i, doc_file_path = pytext ''a.py'', doc_start_line = i,
     doc_end_line = i, doc_content = pytext text\<rparr>)
     [(1, ''def readFile(HTTPServer)''), (2, ''read read the_file''), (3, ''nothing here'')]"

lemma lexical_ranking_witness:
  "log_positive sample_lexicon \<and>
   map hit_chunk_id (bm25_rank sample_lexicon (pytext ''readFile'') 2 sample_documents) = [2, 1] \<and>
   (\<exists>chosen others. mset (chosen @ others) =
      mset (filter (mentions sample_lexicon (pytext ''readFile'')) sample_documents) \<and>
      list_all2 (hit_of sample_lexicon (pytext ''readFile'') sample_documents) chosen
        (bm25_rank sample_lexicon (pytext ''readFile'') 2 sample_documents))"
proof -
  have pos: "log_positive sample_lexicon" by (simp add: log_positive_def sample_lexicon_def)
  have "map hit_chunk_id (bm25_rank sample_lexicon (pytext ''readFile'') 2 sample_documents) = [2, 1]"
    by code_simp
  with pos lexical_ranking [OF pos, of "pytext ''readFile''" sample_documents 2] show ?thesis by blast
qed

section \<open>The vector ranking\<close>

text \<open>A chunk of the repository can be found exactly when it does not wait for an embedding.\<close>

lemma searchable_embedded:
  "searchable vx repository r \<longleftrightarrow> ch_repository_id r = repository \<and> \<not> needs_embedding (vx_profile vx) r"
  by (auto simp: searchable_def needs_embedding_def)

text \<open>The rows a search may answer with, what a hit says of its row, and the \<open>k\<close> nearest of some rows.\<close>

definition findable :: "string \<Rightarrow> uuid \<Rightarrow> code_chunk_row \<Rightarrow> bool" where
  "findable profile repository r \<longleftrightarrow> ch_repository_id r = repository \<and> ch_embedding_status r = ''ready'' \<and>
     (\<exists>v. ch_embedding r = Some v) \<and> ch_embedding_profile r = Some profile \<and>
     ch_embedding_content_hash r = Some (ch_content_hash r)"

definition answers_row :: "vector_index \<Rightarrow> rat list \<Rightarrow> code_chunk_row \<Rightarrow> vector_result \<Rightarrow> bool" where
  "answers_row vx vector r h \<longleftrightarrow> hit_chunk_id h = ch_id r \<and> hit_file_path h = ch_file_path r \<and>
     hit_start_line h = ch_start_line r \<and> hit_end_line h = ch_end_line r \<and> hit_content h = ch_content r \<and>
     vr_distance h = max 0 (min 2 (vx_distance vx (the (ch_embedding r)) vector)) \<and> hit_score h = 1 - vr_distance h"

definition place_of :: "vector_index \<Rightarrow> rat list \<Rightarrow> code_chunk_row \<Rightarrow> rat \<times> pystr \<times> nat \<times> nat \<times> uuid" where
  "place_of vx vector r = (vx_distance vx (the (ch_embedding r)) vector, ch_file_path r, ch_start_line r, ch_end_line r, ch_id r)"

definition nearer :: "vector_index \<Rightarrow> rat list \<Rightarrow> code_chunk_row \<Rightarrow> code_chunk_row \<Rightarrow> bool" where
  "nearer vx vector r r' \<longleftrightarrow> place_of vx vector r \<le> place_of vx vector r'"

definition nearest :: "vector_index \<Rightarrow> rat list \<Rightarrow> nat \<Rightarrow> code_chunk_row list \<Rightarrow> code_chunk_row list \<Rightarrow> bool" where
  "nearest vx vector k rows chosen \<longleftrightarrow> mset chosen \<subseteq># mset rows \<and> length chosen = min k (length rows) \<and>
     sorted_wrt (nearer vx vector) chosen \<and>
     (\<forall>c \<in> set chosen. \<forall>r \<in># mset rows - mset chosen. nearer vx vector c r)"

lemma findable_searchable: "findable (vx_profile vx) = searchable vx"
  by (auto simp: fun_eq_iff findable_def searchable_def)

lemma take_nearest:
  "nearest vx vector k rows (take k (sort_key (place_of vx vector) rows))"
proof -
  let ?s = "sort_key (place_of vx vector) rows"
  have "mset rows = mset (take k ?s) + mset (drop k ?s)"
    by (simp only: mset_append [symmetric] append_take_drop_id mset_sort)
  then have parts: "mset (take k ?s) \<subseteq># mset rows" "mset rows - mset (take k ?s) = mset (drop k ?s)" by simp_all
  have "sorted_wrt (\<lambda>a b. place_of vx vector a \<le> place_of vx vector b) ?s"
    using sorted_sort_key [of "place_of vx vector" rows] by (simp only: sorted_map)
  then have order: "sorted_wrt (nearer vx vector) ?s" by (simp add: nearer_def [abs_def])
  then have "sorted_wrt (nearer vx vector) (take k ?s @ drop k ?s)" by simp
  then have "\<forall>c \<in> set (take k ?s). \<forall>r \<in> set (drop k ?s). nearer vx vector c r" unfolding sorted_wrt_append by blast
  with parts order show ?thesis by (simp add: nearest_def sorted_wrt_take min.commute)
qed

lemma enumerated_hits:
  "list_all2 (answers_row vx vector) rows (map (vector_hit vx vector) (enumerate n rows))"
  by (induction rows arbitrary: n) (simp_all add: answers_row_def vector_hit_def row_distance_def Let_def)

lemma enumerated_ranks: "map hit_rank (map (vector_hit vx vector) (enumerate n rows)) = [n..<n + length rows]"
  by (simp add: comp_def vector_hit_def Let_def case_prod_unfold map_fst_enumerate [symmetric] del: map_fst_enumerate)

text \<open>What a search that asks the provider returns, with the vector and the database it ranked.\<close>

definition ranked :: "vector_index \<Rightarrow> uuid \<Rightarrow> rat list \<Rightarrow> nat \<Rightarrow> db \<Rightarrow> vector_result list \<Rightarrow> bool" where
  "ranked vx repository vector k d hits \<longleftrightarrow>
     (\<exists>chosen. nearest vx vector k (filter (findable (vx_profile vx) repository) (db_chunks d)) chosen \<and>
        list_all2 (answers_row vx vector) chosen hits) \<and>
     map hit_rank hits = [1..<Suc (length hits)] \<and>
     list_all (\<lambda>h. -1 \<le> hit_score h \<and> hit_score h \<le> 1) hits"

lemma vector_hits_ranked: "ranked vx repository vector (nat top_k) d (vector_hits vx repository vector top_k d)"
proof -
  let ?rows = "filter (findable (vx_profile vx) repository) (db_chunks d)"
  let ?chosen = "take (nat top_k) (sort_key (place_of vx vector) ?rows)"
  have hits: "vector_hits vx repository vector top_k d = map (vector_hit vx vector) (enumerate 1 ?chosen)"
    by (simp add: vector_hits_def findable_searchable row_distance_def place_of_def [abs_def])
  have "list_all (\<lambda>h. -1 \<le> hit_score h \<and> hit_score h \<le> 1) (map (vector_hit vx vector) (enumerate 1 ?chosen))"
    by (auto simp: list_all_iff vector_hit_def Let_def)
  then show ?thesis
    unfolding ranked_def hits enumerated_ranks
    using take_nearest [of vx vector "nat top_k" ?rows] enumerated_hits [of vx vector ?chosen 1] by auto
qed

text \<open>C25. Semantic search answers from current embeddings only. The database read first is the one the other
  workers leave: where it has no chunk of the repository whose ready embedding was made from its present
  content under the provider's profile, the answer is empty and no request goes to the provider.
  Otherwise one request goes out with the query alone, and the hits are, of such chunks in the database read
  after the answer, the nearest ones to the vector of that answer, ties broken by place and identifier, as
  many as were asked for or as there are: in order, numbered from one, each with the columns of its
  row, its distance cut off at zero and two, and a score between minus one and one.\<close>

theorem vector_hits_current:
  "case vector_search env ask vx repository query top_k w of
     (Inl _, _) \<Rightarrow> True
   | (Inr hits, w') \<Rightarrow>
       let d = env_others env (w_tick w) (w_db w)
       in if filter (findable (vx_profile vx) repository) (db_chunks d) = []
          then hits = [] \<and> w_calls w' = w_calls w
          else \<exists>answer vector. fst (ask [pytext query] (w_ext w)) = Inr answer \<and>
            validate_vectors (vx_hypot vx) 1 EMBEDDING_DIMENSION answer = Inr [vector] \<and>
            w_calls w' = w_calls w @ [Embed_call [pytext query]] \<and>
            w_db w' = env_others env (Suc (w_tick w)) d \<and> ranked vx repository vector (nat top_k) (w_db w') hits"
proof (cases "vector_search env ask vx repository query top_k w")
  case (Pair r w')
  let ?d = "env_others env (w_tick w) (w_db w)"
  show ?thesis
  proof (cases r)
    case (Inr hits)
    with Pair obtain some u where s: "session env (\<lambda>d. bindE (vector_ready vx repository d) (\<lambda>some. Inr (d, some))) w = (Inr some, u)"
      and rest: "(if \<not> some then ret [] else bindM (embed_texts ask [pytext query]) (\<lambda>answer.
           bindM (liftE (validate_vectors (vx_hypot vx) 1 EMBEDDING_DIMENSION answer)) (\<lambda>vectors.
           session env (\<lambda>d. Inr (d, vector_hits vx repository (hd vectors) top_k d))))) u = (Inr hits, w')"
      unfolding vector_search_def by (auto simp: runs_Inr)
    from s have u: "u = w\<lparr>w_db := ?d, w_tick := Suc (w_tick w)\<rparr>"
      and some: "some \<longleftrightarrow> filter (findable (vx_profile vx) repository) (db_chunks ?d) \<noteq> []"
      by (auto simp: session_def Let_def vector_ready_def findable_searchable filter_empty_conv split: if_splits)
    show ?thesis
    proof (cases some)
      case False
      with rest u have "hits = []" "w_calls w' = w_calls w" by (auto simp: ret_def)
      with False some Pair Inr show ?thesis by (simp add: Let_def)
    next
      case True
      with rest u obtain answer vectors x where ask: "ask [pytext query] (w_ext w) = (Inr answer, x)"
        and valid: "validate_vectors (vx_hypot vx) 1 EMBEDDING_DIMENSION answer = Inr vectors"
        and hits: "hits = vector_hits vx repository (hd vectors) top_k (w_db w')"
        and db: "w_db w' = env_others env (Suc (w_tick w)) ?d" and calls: "w_calls w' = w_calls w @ [Embed_call [pytext query]]"
        by (auto simp: runs_Inr session_def Let_def embed_texts_def external_def split: prod.splits)
      from validate_vectors_length [OF valid] obtain vector where "vectors = [vector]"
        by (auto simp: length_Suc_conv)
      with hits valid ask calls db vector_hits_ranked [of vx repository vector top_k "w_db w'"] True some Pair Inr
      show ?thesis by (simp add: Let_def)
    qed
  qed (simp add: Pair)
qed

end
