(* ===== verification/Utf8.thy ===== *)
theory Utf8
  imports Text
begin

text \<open>
  Python's strict UTF-8 codec, which the scanner of the index uses to tell source files from binary ones:
  no overlong form, no surrogate, nothing above the last code point. Bytes are numbers below 256.
\<close>

definition scalar :: "nat \<Rightarrow> bool" where
  "scalar c \<longleftrightarrow> c < 55296 \<or> 57343 < c \<and> c < 1114112"

definition encode_code :: "nat \<Rightarrow> nat list" where
  "encode_code c =
     (if c < 128 then [c]
      else if c < 2048 then [192 + c div 64, 128 + c mod 64]
      else if c < 65536 then [224 + c div 4096, 128 + c div 64 mod 64, 128 + c mod 64]
      else [240 + c div 262144, 128 + c div 4096 mod 64, 128 + c div 64 mod 64, 128 + c mod 64])"

definition utf8_encode :: "pystr \<Rightarrow> nat list" where
  "utf8_encode s = concat (map encode_code s)"

definition continuation :: "nat \<Rightarrow> bool" where
  "continuation b \<longleftrightarrow> 128 \<le> b \<and> b < 192"

definition shifted :: "nat \<Rightarrow> nat \<Rightarrow> nat" where
  "shifted n b = n * 64 + (b - 128)"

text \<open>The first code point of a byte sequence and what follows it.\<close>

definition decode_code :: "nat list \<Rightarrow> (nat \<times> nat list) option" where
  "decode_code s = (case s of
     [] \<Rightarrow> None
   | a # r \<Rightarrow>
       if a < 128 then Some (a, r)
       else if a < 224 then
         (case r of b # r1 \<Rightarrow>
            (let n = shifted (a - 192) b
             in if 192 \<le> a \<and> continuation b \<and> 128 \<le> n then Some (n, r1) else None)
          | _ \<Rightarrow> None)
       else if a < 240 then
         (case r of b # c # r1 \<Rightarrow>
            (let n = shifted (shifted (a - 224) b) c
             in if continuation b \<and> continuation c \<and> 2048 \<le> n \<and> scalar n then Some (n, r1) else None)
          | _ \<Rightarrow> None)
       else
         (case r of b # c # d # r1 \<Rightarrow>
            (let n = shifted (shifted (shifted (a - 240) b) c) d
             in if continuation b \<and> continuation c \<and> continuation d \<and> 65536 \<le> n \<and> scalar n
                then Some (n, r1) else None)
          | _ \<Rightarrow> None))"

lemma decode_code_shorter: "decode_code s = Some (c, r) \<Longrightarrow> length r < length s"
  by (auto simp: decode_code_def Let_def split: list.splits if_splits)

function utf8_decode :: "nat list \<Rightarrow> pystr option" where
  "utf8_decode s = (if s = [] then Some [] else
     (case decode_code s of None \<Rightarrow> None | Some (c, r) \<Rightarrow> map_option (Cons c) (utf8_decode r)))"
  by pat_completeness auto
termination
  by (relation "measure length") (auto dest: decode_code_shorter)

declare utf8_decode.simps [simp del]

lemma shifted_digits:
  "128 \<le> b \<Longrightarrow> b < 192 \<Longrightarrow> shifted n b div 64 = n \<and> shifted n b mod 64 = b - 128"
proof -
  assume "128 \<le> b" "b < 192"
  then obtain x where x: "b = 128 + x" "x < 64" by (intro that [of "b - 128"]) auto
  then show "shifted n b div 64 = n \<and> shifted n b mod 64 = b - 128" by (simp add: shifted_def)
qed

lemma shifted_mod: "shifted (c div 64) (128 + c mod 64) = c"
  by (simp add: shifted_def)

lemma div_chain: "c div 4096 = c div 64 div 64" "c div 262144 = c div 64 div 64 div (64 :: nat)"
  by (simp_all flip: div_mult2_eq)

lemma encode_code_nonempty: "encode_code c \<noteq> []"
  by (simp add: encode_code_def)

lemma decode_encode_code:
  assumes "scalar c"
  shows "decode_code (encode_code c @ r) = Some (c, r)"
proof -
  have m: "n mod 64 < 64" for n :: nat by simp
  consider "c < 128" | "128 \<le> c" "c < 2048" | "2048 \<le> c" "c < 65536" | "65536 \<le> c" by linarith
  then show ?thesis
  proof cases
    case 1
    then show ?thesis by (simp add: encode_code_def decode_code_def)
  next
    case 2
    have "192 + c div 64 < 224" using 2 by simp
    with 2 m [of c] shifted_mod [of c] show ?thesis
      by (simp only: encode_code_def decode_code_def) (simp add: continuation_def)
  next
    case 3
    have "224 + c div 64 div 64 < 240" using 3 by (simp flip: div_mult2_eq)
    with 3 assms m [of c] m [of "c div 64"] shifted_mod [of c] shifted_mod [of "c div 64"] show ?thesis
      by (simp only: encode_code_def decode_code_def div_chain) (simp add: continuation_def)
  next
    case 4
    with assms m [of c] m [of "c div 64"] m [of "c div 64 div 64"] shifted_mod [of c] shifted_mod [of "c div 64"]
      shifted_mod [of "c div 64 div 64"] show ?thesis
      by (simp only: encode_code_def decode_code_def div_chain) (simp add: continuation_def)
  qed
qed

lemma encode_decode_code:
  assumes "decode_code s = Some (c, r)"
  shows "scalar c \<and> s = encode_code c @ r"
proof -
  obtain a s1 where s: "s = a # s1" using assms by (cases s) (auto simp: decode_code_def)
  consider "a < 128" | "128 \<le> a" "a < 224" | "224 \<le> a" "a < 240" | "240 \<le> a" by linarith
  then show ?thesis
  proof cases
    case 1
    with assms s show ?thesis by (auto simp: decode_code_def encode_code_def scalar_def)
  next
    case 2
    with assms s obtain b where s1: "s1 = b # r" and n: "c = shifted (a - 192) b" and a: "192 \<le> a"
      and b: "128 \<le> b" "b < 192" and low: "128 \<le> c"
      by (auto simp: decode_code_def Let_def continuation_def split: list.splits if_splits)
    have e: "c div 64 = a - 192" "c mod 64 = b - 128" using shifted_digits [OF b] n by simp_all
    have "c < 2048" using n b 2 by (auto simp: shifted_def)
    then show ?thesis using s s1 a b low e by (simp add: encode_code_def scalar_def)
  next
    case 3
    with assms s obtain b x where s1: "s1 = b # x # r" and n: "c = shifted (shifted (a - 224) b) x"
      and b: "128 \<le> b" "b < 192" and x: "128 \<le> x" "x < 192" and low: "2048 \<le> c" and sc: "scalar c"
      by (auto simp: decode_code_def Let_def continuation_def split: list.splits if_splits)
    have e: "c div 64 = shifted (a - 224) b" "c mod 64 = x - 128" using shifted_digits [OF x] n by simp_all
    have "c div 64 div 64 = a - 224" "c div 64 mod 64 = b - 128" using shifted_digits [OF b] e by simp_all
    moreover have "c < 65536" using n b x 3 by (auto simp: shifted_def)
    ultimately show ?thesis using s s1 e(2) 3 b x low sc by (simp add: encode_code_def div_chain)
  next
    case 4
    with assms s obtain b x y where s1: "s1 = b # x # y # r"
      and n: "c = shifted (shifted (shifted (a - 240) b) x) y"
      and b: "128 \<le> b" "b < 192" and x: "128 \<le> x" "x < 192" and y: "128 \<le> y" "y < 192"
      and low: "65536 \<le> c" and sc: "scalar c"
      by (auto simp: decode_code_def Let_def continuation_def split: list.splits if_splits)
    have e: "c div 64 = shifted (shifted (a - 240) b) x" "c mod 64 = y - 128" using shifted_digits [OF y] n by simp_all
    have e2: "c div 64 div 64 = shifted (a - 240) b" "c div 64 mod 64 = x - 128" using shifted_digits [OF x] e by simp_all
    have "c div 64 div 64 div 64 = a - 240" "c div 64 div 64 mod 64 = b - 128" using shifted_digits [OF b] e2 by simp_all
    then show ?thesis using s s1 e(2) e2(2) 4 b x y low sc by (simp add: encode_code_def div_chain)
  qed
qed

text \<open>Decoding accepts exactly the encodings of texts without surrogates, and inverts them.\<close>

lemma utf8_decode_iff: "utf8_decode bs = Some s \<longleftrightarrow> list_all scalar s \<and> bs = utf8_encode s"
proof
  show "utf8_decode bs = Some s \<Longrightarrow> list_all scalar s \<and> bs = utf8_encode s"
  proof (induction bs arbitrary: s rule: utf8_decode.induct)
    case (1 bs)
    show ?case
    proof (cases "bs = []")
      case True
      with "1.prems" show ?thesis by (simp add: utf8_decode.simps utf8_encode_def)
    next
      case False
      with "1.prems" obtain c r t where code: "decode_code bs = Some (c, r)" and rest: "utf8_decode r = Some t"
        and s: "s = c # t"
        by (auto simp: utf8_decode.simps [of bs] split: option.splits)
      from "1.IH" [OF False code refl rest] encode_decode_code [OF code] show ?thesis
        by (simp add: s utf8_encode_def)
    qed
  qed
  show "list_all scalar s \<and> bs = utf8_encode s \<Longrightarrow> utf8_decode bs = Some s"
  proof (induction s arbitrary: bs)
    case Nil
    then show ?case by (simp add: utf8_decode.simps utf8_encode_def)
  next
    case (Cons c s)
    then have bs: "bs = encode_code c @ utf8_encode s" and c: "scalar c" by (simp_all add: utf8_encode_def)
    moreover have "bs \<noteq> []" using bs encode_code_nonempty [of c] by simp
    ultimately show ?case
      using decode_encode_code [OF c, of "utf8_encode s"] Cons
      by (simp add: utf8_decode.simps [of "encode_code c @ utf8_encode s"])
  qed
qed

lemma scalar_utf8_length: "list_all scalar s \<Longrightarrow> utf8_length s \<noteq> None"
  by (induction s) (auto simp: scalar_def)

end
