(* ===== verification/Scanner.thy ===== *)
theory Scanner
  imports Utf8 Chunking Retrieval
begin

text \<open>
  \<^verbatim>\<open>app/indexing/scanner.py\<close>: which files of a checkout are indexed. What the operating system says of
  the checkout is a tree; the tables of \<open>str.lower\<close> and of the word characters of \<open>re\<close> are arguments.
\<close>

section \<open>What is excluded\<close>

definition LANGUAGES :: "(string \<times> string) list" where
  "LANGUAGES =
     [(''.py'', ''python''), (''.js'', ''javascript''), (''.jsx'', ''javascript''), (''.ts'', ''typescript''),
      (''.tsx'', ''typescript''), (''.java'', ''java''), (''.go'', ''go''), (''.rs'', ''rust''), (''.cpp'', ''cpp''),
      (''.cc'', ''cpp''), (''.c'', ''c''), (''.h'', ''c''), (''.hpp'', ''cpp''), (''.cs'', ''csharp''), (''.rb'', ''ruby''),
      (''.php'', ''php''), (''.swift'', ''swift''), (''.kt'', ''kotlin''), (''.kts'', ''kotlin''), (''.sql'', ''sql''),
      (''.sh'', ''shell''), (''.md'', ''markdown''), (''.yaml'', ''yaml''), (''.yml'', ''yaml''), (''.json'', ''json''),
      (''.toml'', ''toml'')]"

definition EXCLUDED_DIRECTORIES :: "string list" where
  "EXCLUDED_DIRECTORIES =
     [''.git'', ''node_modules'', ''dist'', ''build'', ''coverage'', ''.venv'', ''venv'', ''env'', ''__pycache__'',
      ''.pytest_cache'', ''.mypy_cache'', ''.ruff_cache'', ''.idea'', ''.vscode'', ''.vs'', ''.tox'', ''.nox'', ''.next'',
      ''.nuxt'', ''.cache'', ''target'', ''vendor'', ''generated'', ''.ssh'', ''.aws'', ''.kube'', ''secrets'', ''credentials'']"

definition EXCLUDED_NAMES :: "string list" where
  "EXCLUDED_NAMES = [''package-lock.json'', ''pnpm-lock.yaml'', ''composer.lock'', ''cargo.lock'']"

record scanner =
  sc_max_file_bytes :: nat
  sc_max_line_chars :: nat
  sc_lower :: "pystr \<Rightarrow> pystr"
  sc_word :: "nat \<Rightarrow> bool"

definition new_scanner :: "(pystr \<Rightarrow> pystr) \<Rightarrow> (nat \<Rightarrow> bool) \<Rightarrow> int \<Rightarrow> int \<Rightarrow> exc + scanner" where
  "new_scanner lower_text word max_file_bytes max_line_chars =
     (if max_file_bytes < 1 \<or> max_line_chars < 1 then Inl ValueFailure
      else Inr \<lparr>sc_max_file_bytes = nat max_file_bytes, sc_max_line_chars = nat max_line_chars,
                sc_lower = lower_text, sc_word = word\<rparr>)"

definition occurs :: "pystr \<Rightarrow> pystr \<Rightarrow> bool" where
  "occurs w s \<longleftrightarrow> (\<exists>k \<in> set [0..<Suc (length s)]. starts_with w (drop k s))"

text \<open>\<open>SENSITIVE_NAME.search\<close>; a dollar sign also matches before a final line feed.\<close>

definition SENSITIVE_WORDS :: "string list" where
  "SENSITIVE_WORDS = [''secret'', ''secrets'', ''credential'', ''credentials'', ''serviceaccount'', ''service.account'',
     ''service_account'', ''service-account'']"

definition name_separator :: "nat \<Rightarrow> bool" where
  "name_separator c \<longleftrightarrow> c \<in> {46, 95, 45}"

definition sensitive_text :: "pystr \<Rightarrow> bool" where
  "sensitive_text s \<longleftrightarrow> (\<exists>k \<in> set [0..<length s]. (k = 0 \<or> name_separator (s ! (k - 1))) \<and>
     (\<exists>w \<in> set SENSITIVE_WORDS. case strip_prefix (pytext w) (drop k s) of
        None \<Rightarrow> False
      | Some r \<Rightarrow> r = [] \<or> r = [10] \<or> name_separator (hd r)))"

text \<open>\<open>SECRET_CONTENT.search\<close>.\<close>

definition alphanumeric :: "nat \<Rightarrow> bool" where
  "alphanumeric c \<longleftrightarrow> upper_code c \<or> lower_code c \<or> digit_code c"

definition private_key :: "pystr \<Rightarrow> bool" where
  "private_key t = (case strip_prefix (pytext ''-----BEGIN '') t of
     None \<Rightarrow> False
   | Some r \<Rightarrow> \<exists>j \<in> set [0..<Suc (length (takeWhile (\<lambda>c. upper_code c \<or> c = 32) r))].
       starts_with (pytext ''PRIVATE KEY-----'') (drop j r))"

definition github_token :: "pystr \<Rightarrow> bool" where
  "github_token t \<longleftrightarrow> (\<exists>c \<in> set (pytext ''pousr''). case strip_prefix (pytext ''gh'' @ [c, 95]) t of
     None \<Rightarrow> False | Some r \<Rightarrow> 20 \<le> length (takeWhile alphanumeric r))"

definition github_pat :: "pystr \<Rightarrow> bool" where
  "github_pat t = (case strip_prefix (pytext ''github_pat_'') t of
     None \<Rightarrow> False | Some r \<Rightarrow> 20 \<le> length (takeWhile (\<lambda>c. alphanumeric c \<or> c = 95) r))"

definition secret_content :: "(nat \<Rightarrow> bool) \<Rightarrow> pystr \<Rightarrow> bool" where
  "secret_content word s \<longleftrightarrow> (\<exists>k \<in> set [0..<length s].
     private_key (drop k s) \<or>
     (k = 0 \<or> \<not> word (s ! (k - 1))) \<and> (github_token (drop k s) \<or> github_pat (drop k s)))"

section \<open>Names\<close>

text \<open>\<open>PurePath.suffix\<close> of Python 3.12.\<close>

definition path_suffix :: "pystr \<Rightarrow> pystr" where
  "path_suffix name =
     (let n = length (takeWhile (\<lambda>c. c \<noteq> 46) (rev name))
      in if n = 0 \<or> length name \<le> n + 1 then [] else drop (length name - (n + 1)) name)"

definition language_of :: "scanner \<Rightarrow> pystr \<Rightarrow> string option" where
  "language_of sc name = map_of (map (\<lambda>(e, l). (pytext e, l)) LANGUAGES) (sc_lower sc (path_suffix name))"

definition skipped_name :: "scanner \<Rightarrow> pystr \<Rightarrow> bool" where
  "skipped_name sc name \<longleftrightarrow>
     (let l = sc_lower sc name
      in starts_with (pytext ''.env'') l \<or> l \<in> set (map pytext EXCLUDED_NAMES) \<or> sensitive_text l \<or>
         (\<exists>marker \<in> set [''.min.'', ''.generated.'', ''_pb2.'', ''_pb2_grpc.'']. occurs (pytext marker) l))"

definition kept_folder :: "scanner \<Rightarrow> pystr \<Rightarrow> bool" where
  "kept_folder sc name \<longleftrightarrow>
     (let l = sc_lower sc name
      in l \<notin> set (map pytext EXCLUDED_DIRECTORIES) \<and> \<not> ends_with (pytext ''.egg-info'') l \<and>
         \<not> ends_with (pytext ''.dist-info'') l)"

section \<open>Contents\<close>

definition source_text :: "scanner \<Rightarrow> pystr \<Rightarrow> bool" where
  "source_text sc content \<longleftrightarrow>
     (\<forall>c \<in> set content. 32 \<le> c \<or> c \<in> {9, 10, 13}) \<and>
     \<not> occurs (pytext ''@generated'') (sc_lower sc (take 2048 content)) \<and>
     \<not> occurs (pytext ''do not edit'') (sc_lower sc (take 2048 content)) \<and>
     \<not> secret_content (sc_word sc) content \<and>
     (\<forall>l \<in> set (split_lines content). length l \<le> sc_max_line_chars sc) \<and>
     (\<exists>c \<in> set content. \<not> py_space c)"

text \<open>At most one byte more than the limit is read, whatever the size the file had before.\<close>

definition readable_text :: "scanner \<Rightarrow> nat list \<Rightarrow> pystr option" where
  "readable_text sc bytes =
     (let raw = take (sc_max_file_bytes sc + 1) bytes
      in if sc_max_file_bytes sc < length raw then None
         else (case utf8_decode raw of None \<Rightarrow> None
               | Some content \<Rightarrow> if source_text sc content then Some content else None))"

section \<open>The walk\<close>

text \<open>
  A file with what \<open>is_symlink\<close>, \<open>resolve\<close>, \<open>stat\<close> (a regular file, and its size) and a read of it say,
  and a folder with its entries; \<open>None\<close> is an \<open>OSError\<close>. A link to a directory is a linked folder.
\<close>

type_synonym textpath = "pystr list"

record file_facts =
  ff_linked :: bool
  ff_target :: textpath
  ff_stat :: "(bool \<times> nat) option"
  ff_bytes :: "nat list option"

datatype node = File file_facts | Folder bool "(pystr \<times> node) list option"

definition scan_file :: "scanner \<Rightarrow> textpath \<Rightarrow> textpath \<Rightarrow> pystr \<times> file_facts \<Rightarrow> exc + source_file list" where
  "scan_file sc home rel entry = (case entry of (name, f) \<Rightarrow>
     (case language_of sc name of
        None \<Rightarrow> Inr []
      | Some language \<Rightarrow>
          if skipped_name sc name \<or> ff_linked f then Inr []
          else if \<not> starts_with home (ff_target f) then Inl ValueFailure
          else (case ff_stat f of
                  None \<Rightarrow> Inl OSFailure
                | Some (regular, many) \<Rightarrow>
                    if \<not> regular \<or> sc_max_file_bytes sc < many then Inr []
                    else (case ff_bytes f of
                            None \<Rightarrow> Inl OSFailure
                          | Some bytes \<Rightarrow>
                              (case readable_text sc bytes of
                                 None \<Rightarrow> Inr []
                               | Some content \<Rightarrow> Inr [\<lparr>src_path = join_with 47 (rel @ [name]),
                                   src_language = language, src_content = content\<rparr>])))))"

definition files_of :: "(pystr \<times> node) list \<Rightarrow> (pystr \<times> file_facts) list" where
  "files_of es = sort_key fst (concat (map (\<lambda>(name, n). case n of File f \<Rightarrow> [(name, f)] | Folder _ _ \<Rightarrow> []) es))"

definition entered :: "scanner \<Rightarrow> pystr \<times> node \<Rightarrow> bool" where
  "entered sc e = (case e of (name, n) \<Rightarrow> (case n of File _ \<Rightarrow> False | Folder linked _ \<Rightarrow> kept_folder sc name \<and> \<not> linked))"

definition folders_of :: "scanner \<Rightarrow> (pystr \<times> node) list \<Rightarrow> (pystr \<times> node) list" where
  "folders_of sc es = sort_key fst (filter (entered sc) es)"

lemma mapE_cong [fundef_cong]: "xs = ys \<Longrightarrow> (\<And>x. x \<in> set ys \<Longrightarrow> f x = g x) \<Longrightarrow> mapE f xs = mapE g ys"
  by (induction xs arbitrary: ys) auto

lemma size_entry: "e \<in> set es \<Longrightarrow> size (snd e) \<le> size_list (size_prod (\<lambda>_. 0) size) es"
  by (induction es) (auto split: prod.splits)

lemma folder_smaller: "e \<in> set (folders_of sc es) \<Longrightarrow> size (snd e) < size (Folder b (Some es))"
  using size_entry [of e es] by (auto simp: folders_of_def)

function scan_node :: "scanner \<Rightarrow> textpath \<Rightarrow> textpath \<Rightarrow> node \<Rightarrow> exc + source_file list" where
  "scan_node sc home rel (File f) = Inr []"
| "scan_node sc home rel (Folder linked None) = Inl OSFailure"
| "scan_node sc home rel (Folder linked (Some es)) =
     bindE (mapE (scan_file sc home rel) (files_of es)) (\<lambda>own.
     bindE (mapE (\<lambda>e. scan_node sc home (rel @ [fst e]) (snd e)) (folders_of sc es)) (\<lambda>deeper.
     Inr (concat own @ concat deeper)))"
  by pat_completeness auto
termination
  by (relation "measure (\<lambda>(_, _, _, n). size n)") (simp_all add: folder_smaller del: node.size)

definition scan_root :: "scanner \<Rightarrow> textpath \<Rightarrow> node \<Rightarrow> exc + source_file list" where
  "scan_root sc home n = (case n of
     Folder False _ \<Rightarrow> scan_node sc home [] n
   | _ \<Rightarrow> Inl ValueFailure)"

section \<open>What is indexed\<close>

text \<open>The files below folders that are neither linked nor excluded, and what makes a file a source.\<close>

inductive lies_at :: "scanner \<Rightarrow> node \<Rightarrow> textpath \<Rightarrow> pystr \<Rightarrow> file_facts \<Rightarrow> bool" for sc :: scanner where
  lies_here: "(name, File f) \<in> set es \<Longrightarrow> lies_at sc (Folder b (Some es)) [] name f"
| lies_below: "(n, Folder False l) \<in> set es \<Longrightarrow> kept_folder sc n \<Longrightarrow> lies_at sc (Folder False l) rel name f \<Longrightarrow>
    lies_at sc (Folder b (Some es)) (n # rel) name f"

inductive_simps lies_at_simps: "lies_at sc (File g) rel name f" "lies_at sc (Folder b None) rel name f"
  "lies_at sc (Folder b (Some es)) rel name f"

definition indexable :: "scanner \<Rightarrow> textpath \<Rightarrow> textpath \<Rightarrow> pystr \<Rightarrow> file_facts \<Rightarrow> source_file \<Rightarrow> bool" where
  "indexable sc home rel name f s \<longleftrightarrow>
     src_path s = join_with 47 (rel @ [name]) \<and> language_of sc name = Some (src_language s) \<and>
     \<not> skipped_name sc name \<and> \<not> ff_linked f \<and> starts_with home (ff_target f) \<and>
     (\<exists>many. ff_stat f = Some (True, many) \<and> many \<le> sc_max_file_bytes sc) \<and>
     ff_bytes f = Some (utf8_encode (src_content s)) \<and> list_all scalar (src_content s) \<and>
     length (utf8_encode (src_content s)) \<le> sc_max_file_bytes sc \<and> source_text sc (src_content s)"

lemma readable_text_decode:
  "readable_text sc bytes = Some content \<longleftrightarrow>
    utf8_decode bytes = Some content \<and> length bytes \<le> sc_max_file_bytes sc \<and> source_text sc content"
  by (cases "length bytes \<le> sc_max_file_bytes sc")
    (auto simp: readable_text_def Let_def min_def split: option.splits)

lemma readable_text_iff:
  "readable_text sc bytes = Some content \<longleftrightarrow>
    bytes = utf8_encode content \<and> list_all scalar content \<and> length bytes \<le> sc_max_file_bytes sc \<and> source_text sc content"
  unfolding readable_text_decode utf8_decode_iff by blast

lemma indexable_readable:
  "indexable sc home rel name f s \<longleftrightarrow>
     src_path s = join_with 47 (rel @ [name]) \<and> language_of sc name = Some (src_language s) \<and>
     \<not> skipped_name sc name \<and> \<not> ff_linked f \<and> starts_with home (ff_target f) \<and>
     (\<exists>many. ff_stat f = Some (True, many) \<and> many \<le> sc_max_file_bytes sc) \<and>
     (\<exists>bytes. ff_bytes f = Some bytes \<and> readable_text sc bytes = Some (src_content s))"
  unfolding indexable_def readable_text_iff by auto

lemma scan_file_Inr:
  assumes "scan_file sc home rel (name, f) = Inr xs"
  shows "s \<in> set xs \<longleftrightarrow> indexable sc home rel name f s"
  using assms unfolding indexable_readable
  by (cases s) (auto simp: scan_file_def split: option.splits if_splits)

lemma set_files_of: "(name, f) \<in> set (files_of es) \<longleftrightarrow> (name, File f) \<in> set es"
  by (force simp: files_of_def split: node.splits)

lemma set_folders_of:
  "e \<in> set (folders_of sc es) \<longleftrightarrow> (\<exists>n l. e = (n, Folder False l) \<and> e \<in> set es \<and> kept_folder sc n)"
  by (cases e; cases "snd e") (auto simp: folders_of_def entered_def)

lemma mapE_set: "mapE f xs = Inr ys \<Longrightarrow> y \<in> set ys \<longleftrightarrow> (\<exists>x \<in> set xs. f x = Inr y)"
  by (induction xs arbitrary: ys) (auto elim!: bindE_InrE)


lemma scan_node_exact:
  "scan_node sc home rel n = Inr sources \<Longrightarrow> s \<in> set sources \<longleftrightarrow>
    (\<exists>below name f. lies_at sc n below name f \<and> indexable sc home (rel @ below) name f s)"
proof (induction sc home rel n arbitrary: sources s rule: scan_node.induct)
  case (1 sc home rel f)
  then show ?case by (simp add: lies_at_simps)
next
  case (2 sc home rel linked)
  then show ?case by simp
next
  case (3 sc home rel linked es)
  from "3.prems" obtain own deeper where own: "mapE (scan_file sc home rel) (files_of es) = Inr own"
    and deeper: "mapE (\<lambda>e. scan_node sc home (rel @ [fst e]) (snd e)) (folders_of sc es) = Inr deeper"
    and src: "sources = concat own @ concat deeper"
    by (auto elim!: bindE_InrE)
  have here: "s \<in> set (concat own) \<longleftrightarrow> (\<exists>name f. (name, File f) \<in> set es \<and> indexable sc home rel name f s)"
  proof
    assume "s \<in> set (concat own)"
    then obtain xs where "xs \<in> set own" "s \<in> set xs" by auto
    with mapE_set [OF own] obtain name f where "(name, f) \<in> set (files_of es)" "scan_file sc home rel (name, f) = Inr xs" by auto
    with \<open>s \<in> set xs\<close> scan_file_Inr show "\<exists>name f. (name, File f) \<in> set es \<and> indexable sc home rel name f s"
      by (fastforce simp: set_files_of)
  next
    assume "\<exists>name f. (name, File f) \<in> set es \<and> indexable sc home rel name f s"
    then obtain name f where f: "(name, f) \<in> set (files_of es)" and i: "indexable sc home rel name f s"
      by (auto simp: set_files_of)
    from own f obtain xs where xs: "scan_file sc home rel (name, f) = Inr xs" "xs \<in> set own"
      by (auto simp: mapE_eq_Inr list_all2_conv_all_nth in_set_conv_nth) (metis nth_mem)
    with i scan_file_Inr [OF xs(1)] show "s \<in> set (concat own)" by auto
  qed
  have sub: "t \<in> set xs \<longleftrightarrow> (\<exists>below name f. lies_at sc (snd e) below name f \<and> indexable sc home ((rel @ [fst e]) @ below) name f t)"
    if "e \<in> set (folders_of sc es)" "scan_node sc home (rel @ [fst e]) (snd e) = Inr xs" for e xs t
    using "3.IH" [OF own that(1) that(2)] .
  have there: "s \<in> set (concat deeper) \<longleftrightarrow> (\<exists>e \<in> set (folders_of sc es).
      \<exists>below name f. lies_at sc (snd e) below name f \<and> indexable sc home ((rel @ [fst e]) @ below) name f s)"
  proof
    assume "s \<in> set (concat deeper)"
    then obtain xs where "xs \<in> set deeper" "s \<in> set xs" by auto
    with mapE_set [OF deeper] sub show "\<exists>e \<in> set (folders_of sc es).
      \<exists>below name f. lies_at sc (snd e) below name f \<and> indexable sc home ((rel @ [fst e]) @ below) name f s" by meson
  next
    assume "\<exists>e \<in> set (folders_of sc es).
      \<exists>below name f. lies_at sc (snd e) below name f \<and> indexable sc home ((rel @ [fst e]) @ below) name f s"
    then obtain e where e: "e \<in> set (folders_of sc es)"
      and ex: "\<exists>below name f. lies_at sc (snd e) below name f \<and> indexable sc home ((rel @ [fst e]) @ below) name f s" by blast
    from deeper e obtain xs where xs: "scan_node sc home (rel @ [fst e]) (snd e) = Inr xs" "xs \<in> set deeper"
      by (auto simp: mapE_eq_Inr list_all2_conv_all_nth in_set_conv_nth) (metis nth_mem)
    from sub [OF e xs(1), of s] ex have "s \<in> set xs" by (rule iffD2)
    with xs(2) show "s \<in> set (concat deeper)" by auto
  qed
  have deep: "s \<in> set (concat deeper) \<longleftrightarrow> (\<exists>n l below name f. (n, Folder False l) \<in> set es \<and> kept_folder sc n \<and>
      lies_at sc (Folder False l) below name f \<and> indexable sc home (rel @ n # below) name f s)"
    (is "_ \<longleftrightarrow> ?deep")
  proof
    assume "s \<in> set (concat deeper)"
    then obtain e below name f where e: "e \<in> set (folders_of sc es)" and b: "lies_at sc (snd e) below name f"
      "indexable sc home ((rel @ [fst e]) @ below) name f s" unfolding there by blast
    from e obtain n l where "e = (n, Folder False l)" "(n, Folder False l) \<in> set es" "kept_folder sc n"
      by (auto simp: set_folders_of)
    with b have "(n, Folder False l) \<in> set es \<and> kept_folder sc n \<and> lies_at sc (Folder False l) below name f \<and>
        indexable sc home (rel @ n # below) name f s" by simp
    then show ?deep by blast
  next
    assume ?deep
    then obtain n l below name f where "(n, Folder False l) \<in> set es" "kept_folder sc n"
      and b: "lies_at sc (Folder False l) below name f" "indexable sc home (rel @ n # below) name f s" by blast
    then have "(n, Folder False l) \<in> set (folders_of sc es)" by (simp add: set_folders_of)
    then show "s \<in> set (concat deeper)" unfolding there by (rule bexI [rotated]) (use b in auto)
  qed
  show ?case (is "_ \<longleftrightarrow> ?found")
  proof
    assume "s \<in> set sources"
    then consider "s \<in> set (concat own)" | "s \<in> set (concat deeper)" unfolding src by auto
    then show ?found
    proof cases
      case 1
      then show ?thesis unfolding here lies_at_simps by (metis append_Nil2)
    next
      case 2
      then show ?thesis unfolding deep lies_at_simps by blast
    qed
  next
    assume ?found
    then obtain below name f where at: "lies_at sc (Folder linked (Some es)) below name f"
      and i: "indexable sc home (rel @ below) name f s" by blast
    from at have "s \<in> set (concat own) \<or> s \<in> set (concat deeper)"
      unfolding here deep using i by cases auto
    then show "s \<in> set sources" by (auto simp: src)
  qed
qed

lemma scan_root_exact:
  assumes "scan_root sc home n = Inr sources"
  shows "s \<in> set sources \<longleftrightarrow> (\<exists>rel name f. lies_at sc n rel name f \<and> indexable sc home rel name f s)"
proof -
  from assms have "scan_node sc home [] n = Inr sources"
    by (auto simp: scan_root_def split: node.splits bool.splits)
  from scan_node_exact [OF this] show ?thesis by simp
qed

section \<open>When a scan fails\<close>

text \<open>What the folders that are walked hold; \<open>None\<close> where the entries cannot be listed.\<close>

inductive walked :: "scanner \<Rightarrow> node \<Rightarrow> (pystr \<times> node) list option \<Rightarrow> bool" for sc :: scanner where
  walked_here: "walked sc (Folder b l) l"
| walked_below: "(n, Folder False l) \<in> set es \<Longrightarrow> kept_folder sc n \<Longrightarrow> walked sc (Folder False l) k \<Longrightarrow>
    walked sc (Folder b (Some es)) k"

inductive_simps walked_simps: "walked sc (Folder b None) k" "walked sc (Folder b (Some es)) k"

text \<open>A file that its name lets through, and that leads outside, cannot be examined or cannot be read.\<close>

definition obstructs :: "scanner \<Rightarrow> textpath \<Rightarrow> pystr \<Rightarrow> file_facts \<Rightarrow> bool" where
  "obstructs sc home name f \<longleftrightarrow> language_of sc name \<noteq> None \<and> \<not> skipped_name sc name \<and> \<not> ff_linked f \<and>
     (\<not> starts_with home (ff_target f) \<or> ff_stat f = None \<or>
      (\<exists>many. ff_stat f = Some (True, many) \<and> many \<le> sc_max_file_bytes sc \<and> ff_bytes f = None))"

lemma scan_file_fails: "isl (scan_file sc home rel (name, f)) \<longleftrightarrow> obstructs sc home name f"
  by (auto simp: scan_file_def obstructs_def split: option.splits)

lemma mapE_fails: "isl (mapE f xs) \<longleftrightarrow> (\<exists>x \<in> set xs. isl (f x))"
  by (induction xs) (auto simp: bindE_def split: sum.splits)

lemma scan_node_fails:
  assumes "n = Folder linked l"
  shows "isl (scan_node sc home rel n) \<longleftrightarrow>
    walked sc n None \<or> (\<exists>below name f. lies_at sc n below name f \<and> obstructs sc home name f)"
  using assms
proof (induction sc home rel n arbitrary: linked l rule: scan_node.induct)
  case (3 sc home rel linked' es)
  have own: "isl (mapE (scan_file sc home rel) (files_of es)) \<longleftrightarrow>
      (\<exists>name f. (name, File f) \<in> set es \<and> obstructs sc home name f)"
    by (auto simp: mapE_fails scan_file_fails set_files_of Bex_def)
  show ?case
  proof (cases "mapE (scan_file sc home rel) (files_of es)")
    case (Inl e)
    with own obtain name f where "(name, File f) \<in> set es" "obstructs sc home name f" by auto
    with Inl show ?thesis by (auto intro: lies_here)
  next
    case (Inr ok)
    have "isl (mapE (\<lambda>e. scan_node sc home (rel @ [fst e]) (snd e)) (folders_of sc es)) \<longleftrightarrow>
        (\<exists>n l. (n, Folder False l) \<in> set es \<and> kept_folder sc n \<and> (walked sc (Folder False l) None \<or>
          (\<exists>below name f. lies_at sc (Folder False l) below name f \<and> obstructs sc home name f)))" (is "?fails \<longleftrightarrow> ?below")
    proof -
      have step: "isl (scan_node sc home (rel @ [fst e]) (snd e)) \<longleftrightarrow> walked sc (snd e) None \<or>
          (\<exists>below name f. lies_at sc (snd e) below name f \<and> obstructs sc home name f)" if e: "e \<in> set (folders_of sc es)" for e
      proof -
        from e obtain n l where "snd e = Folder False l" by (auto simp: set_folders_of)
        from "3.IH" [OF Inr e this] show ?thesis .
      qed
      have "?fails \<longleftrightarrow> (\<exists>e \<in> set (folders_of sc es). walked sc (snd e) None \<or>
          (\<exists>below name f. lies_at sc (snd e) below name f \<and> obstructs sc home name f))"
        unfolding mapE_fails using step by (intro bex_cong refl)
      also have "\<dots> \<longleftrightarrow> ?below" unfolding Bex_def set_folders_of by (intro iffI; elim exE conjE; fastforce)
      finally show ?thesis .
    qed
    moreover have "\<not> (\<exists>name f. (name, File f) \<in> set es \<and> obstructs sc home name f)" using own Inr by simp
    moreover have "isl (scan_node sc home rel (Folder linked' (Some es))) \<longleftrightarrow>
        isl (mapE (\<lambda>e. scan_node sc home (rel @ [fst e]) (snd e)) (folders_of sc es))"
      by (simp add: Inr bindE_def split: sum.split)
    moreover have "walked sc (Folder linked' (Some es)) None \<longleftrightarrow>
        (\<exists>n l. (n, Folder False l) \<in> set es \<and> kept_folder sc n \<and> walked sc (Folder False l) None)"
      unfolding walked_simps by blast
    moreover have "(\<exists>below name f. lies_at sc (Folder linked' (Some es)) below name f \<and> obstructs sc home name f) \<longleftrightarrow>
        (\<exists>name f. (name, File f) \<in> set es \<and> obstructs sc home name f) \<or>
        (\<exists>n l. (n, Folder False l) \<in> set es \<and> kept_folder sc n \<and>
          (\<exists>below name f. lies_at sc (Folder False l) below name f \<and> obstructs sc home name f))"
      unfolding lies_at_simps by blast
    ultimately show ?thesis by (simp only: conj_disj_distribL ex_disj_distrib) simp
  qed
qed (auto simp: walked_simps)


text \<open>Whatever was scanned can be cut: with the limit of characters the scanner was given, chunking a
  scanned file returns chunks and never an error, because no line is too long and no surrogate is left.\<close>

theorem scanned_files_chunk:
  assumes scan: "scan_root sc home n = Inr sources" and src: "s \<in> set sources"
    and limits: "1 \<le> max_lines" "1 \<le> sc_max_line_chars sc"
  shows "\<exists>cs. chunk_source parse sha s max_lines (int (sc_max_line_chars sc)) = Some (Inr cs) \<and>
    concat (map chunk_content cs) = src_content s"
proof -
  from scan_root_exact [OF scan] src obtain rel name f where i: "indexable sc home rel name f s" by auto
  then have fine: "source_text sc (src_content s)" and sc: "list_all scalar (src_content s)"
    by (simp_all add: indexable_def)
  note out = chunk_source_outcome [of parse sha s max_lines "int (sc_max_line_chars sc)"]
  show ?thesis
  proof (cases "chunk_source parse sha s max_lines (int (sc_max_line_chars sc))")
    case None
    with out show ?thesis by simp
  next
    case (Some r)
    show ?thesis
    proof (cases r)
      case (Inl e)
      with out Some limits fine scalar_utf8_length [OF sc] have False
        by (cases e) (auto simp: source_text_def)
      then show ?thesis ..
    next
      case (Inr cs)
      with out Some show ?thesis by simp
    qed
  qed
qed


definition sample_scanner :: scanner where
  "sample_scanner = \<lparr>sc_max_file_bytes = 100, sc_max_line_chars = 60, sc_lower = map lower_ascii,
     sc_word = (\<lambda>c. alphanumeric c \<or> c = 95)\<rparr>"

definition sample_file :: "string \<Rightarrow> node" where
  "sample_file content = File \<lparr>ff_linked = False, ff_target = [pytext ''repo'', pytext ''f''],
     ff_stat = Some (True, length content), ff_bytes = Some (pytext content)\<rparr>"

definition sample_tree :: node where
  "sample_tree = Folder False (Some
     [(pytext ''src'', Folder False (Some [(pytext ''M.PY'', sample_file ''x = 1 # ok''),
         (pytext ''n.py'', sample_file (''a'' @ [CHR 0x00])), (pytext ''k.py'', sample_file ''x: ghp_abcdefghijklmnopqrstuv'')])),
      (pytext ''node_modules'', Folder False (Some [(pytext ''p.js'', sample_file ''y'')])),
      (pytext ''api_secrets.py'', sample_file ''z''),
      (pytext ''linked'', Folder True None)])"

lemma sample_scan:
  "scan_root sample_scanner [pytext ''repo''] sample_tree = Inr [\<lparr>src_path = pytext ''src/M.PY'',
     src_language = ''python'', src_content = pytext ''x = 1 # ok''\<rparr>]"
  by code_simp

lemma scanned_files_chunk_witness:
  "\<exists>s cs. scan_root sample_scanner [pytext ''repo''] sample_tree = Inr [s] \<and>
     chunk_source (\<lambda>_. None) (\<lambda>_. []) s 5 60 = Some (Inr cs) \<and> concat (map chunk_content cs) = pytext ''x = 1 # ok''"
  using scanned_files_chunk [OF sample_scan list.set_intros(1), of 5 "\<lambda>_. None" "\<lambda>_. []"] sample_scan
  by (auto simp: sample_scanner_def)

end
