(* ===== verification/Llm_Provider.thy ===== *)
theory Llm_Provider
  imports Http
begin

text \<open>
  \<^verbatim>\<open>app/integrations/llm/openai_provider.py\<close> and \<^verbatim>\<open>app/integrations/llm/provider.py\<close>: one
  structured generation, with its retries, the decoding of the response and the codes a failure is
  reduced to. The schema of the answer and the parser of its content are arguments (pydantic).
\<close>

section \<open>The provider\<close>

record llm_message =
  msg_role :: string
  msg_content :: string

record llm_provider =
  lp_model :: string
  lp_timeout :: rat
  lp_max_retries :: nat
  lp_max_output_tokens :: int

definition make_provider :: "string \<Rightarrow> rat \<Rightarrow> int \<Rightarrow> int \<Rightarrow> exc + llm_provider" where
  "make_provider model timeout max_retries max_output_tokens =
     (if strip model = [] \<or> timeout \<le> 0 \<or> \<not> (0 \<le> max_retries \<and> max_retries \<le> 5) \<or> max_output_tokens < 1
      then Inl (LLMFailure ''llm_invalid_configuration'')
      else Inr \<lparr>lp_model = model, lp_timeout = timeout, lp_max_retries = nat max_retries,
                lp_max_output_tokens = max_output_tokens\<rparr>)"

record llm_payload =
  lq_model :: string
  lq_messages :: "llm_message list"
  lq_max_completion_tokens :: int
  lq_schema :: json

definition llm_judge :: "nat \<Rightarrow> http_outcome \<Rightarrow> attempt_result" where
  "llm_judge attempt answer = (case answer of
     Http_timeout \<Rightarrow> Try_again (LLMFailure ''llm_timeout'') (backoff attempt)
   | Http_failed \<Rightarrow> Try_again (LLMFailure ''llm_unavailable'') (backoff attempt)
   | Response r \<Rightarrow>
       if is_success r then Answered r
       else if hr_status r \<in> {401, 403} then Refused (LLMFailure ''llm_authentication_failed'')
       else if hr_status r \<notin> {408, 429} \<and> hr_status r < 500 then Refused (LLMFailure ''llm_request_rejected'')
       else let retry_after = header ''retry-after'' r in
         Try_again (LLMFailure (if hr_status r = 429 then ''llm_rate_limited'' else ''llm_unavailable''))
           (if is_ascii retry_after \<and> is_digits retry_after
            then max (backoff attempt) (of_nat (digits_value retry_after)) else backoff attempt))"

section \<open>Decoding\<close>

text \<open>
  An exception of a wrong shape (\<open>ValueError\<close>, \<open>TypeError\<close>, \<open>KeyError\<close>, \<open>IndexError\<close>,
  \<open>AttributeError\<close>) is \<open>None\<close> here; every one of them becomes the same error.
\<close>

definition first_item :: "json \<Rightarrow> json option" where
  "first_item v = (case v of Json_list (x # _) \<Rightarrow> Some x | _ \<Rightarrow> None)"

definition json_get :: "string \<Rightarrow> json \<Rightarrow> json option option" where
  "json_get key v = (case v of Json_object kvs \<Rightarrow> Some (map_of kvs key) | _ \<Rightarrow> None)"

text \<open>A strict, optional, non-negative integer.\<close>

definition token_count :: "json option \<Rightarrow> int option option" where
  "token_count v = (case v of
     None \<Rightarrow> Some None
   | Some Json_null \<Rightarrow> Some None
   | Some (Json_int n) \<Rightarrow> if 0 \<le> n then Some (Some n) else None
   | _ \<Rightarrow> None)"

definition usage_of :: "json \<Rightarrow> token_usage option" where
  "usage_of payload = do {
     given \<leftarrow> json_get ''usage'' payload;
     let usage = (case given of Some u \<Rightarrow> if json_truthy u then u else Json_object [] | None \<Rightarrow> Json_object []);
     prompt \<leftarrow> json_get ''prompt_tokens'' usage;
     completion \<leftarrow> json_get ''completion_tokens'' usage;
     total \<leftarrow> json_get ''total_tokens'' usage;
     input \<leftarrow> token_count prompt;
     output \<leftarrow> token_count completion;
     _ \<leftarrow> token_count total;
     Some \<lparr>tu_input_tokens = input, tu_output_tokens = output\<rparr>
   }"

definition choice_of :: "json \<Rightarrow> (json \<times> json) option" where
  "choice_of payload = do {
     choices \<leftarrow> json_field ''choices'' payload;
     choice \<leftarrow> first_item choices;
     message \<leftarrow> json_field ''message'' choice;
     Some (choice, message)
   }"

definition llm_decode :: "(string \<Rightarrow> string list + 'a) \<Rightarrow> http_response \<Rightarrow> exc + 'a \<times> token_usage" where
  "llm_decode parse r =
     (let invalid = LLMFailure ''llm_invalid_response'' in
      case Option.bind (hr_json r) choice_of of
        None \<Rightarrow> Inl invalid
      | Some (choice, message) \<Rightarrow>
          (case json_get ''refusal'' message of
             None \<Rightarrow> Inl invalid
           | Some refusal \<Rightarrow>
               if (case refusal of Some v \<Rightarrow> json_truthy v | None \<Rightarrow> False) then Inl (LLMFailure ''llm_refused'')
               else (case json_field ''finish_reason'' choice of
                       None \<Rightarrow> Inl invalid
                     | Some reason \<Rightarrow>
                         if reason \<noteq> Json_text ''stop'' then Inl (LLMFailure ''llm_incomplete'')
                         else (case (json_field ''content'' message, Option.bind (hr_json r) usage_of) of
                                 (Some (Json_text content), Some tokens) \<Rightarrow>
                                   (case parse content of
                                      Inl feedback \<Rightarrow> Inl (LLMInvalid feedback)
                                    | Inr output \<Rightarrow> Inr (output, tokens))
                               | _ \<Rightarrow> Inl invalid))))"

section \<open>Generation\<close>

definition llm_generate ::
  "(llm_payload \<Rightarrow> 'x \<Rightarrow> http_outcome \<times> 'x) \<Rightarrow> llm_provider \<Rightarrow> exc + json \<Rightarrow> (string \<Rightarrow> string list + 'a) \<Rightarrow>
    llm_message list \<Rightarrow> ('x client, 'a \<times> token_usage) eff" where
  "llm_generate http provider schema parse messages =
     seqM (ensure (LLMFailure ''llm_invalid_configuration'') (messages \<noteq> []))
     (bindM (liftE schema) (\<lambda>s.
      repeat_request
        (send_request http \<lparr>lq_model = lp_model provider, lq_messages = messages,
           lq_max_completion_tokens = lp_max_output_tokens provider, lq_schema = s\<rparr>)
        pause llm_judge (llm_decode parse) 0 (lp_max_retries provider)))"

section \<open>Bounds\<close>

definition llm_codes :: "string list" where
  "llm_codes = [''llm_invalid_configuration'', ''llm_authentication_failed'', ''llm_rate_limited'', ''llm_timeout'',
     ''llm_unavailable'', ''llm_request_rejected'', ''llm_invalid_response'', ''llm_refused'', ''llm_incomplete'']"

definition llm_error :: "exc \<Rightarrow> bool" where
  "llm_error e \<longleftrightarrow> (case e of LLMFailure c \<Rightarrow> c \<in> set llm_codes | LLMInvalid _ \<Rightarrow> True | _ \<Rightarrow> False)"

lemma llm_decode_error: "llm_decode parse r = Inl e \<Longrightarrow> llm_error e"
  by (auto simp: llm_decode_def Let_def llm_error_def llm_codes_def
      split: option.splits if_splits json.splits sum.splits)

lemma llm_judge_error:
  "llm_judge n answer = Refused e \<Longrightarrow> llm_error e" "llm_judge n answer = Try_again e delay \<Longrightarrow> llm_error e"
  by (cases answer; auto simp: llm_judge_def Let_def llm_error_def llm_codes_def split: if_splits)+

interpretation llm: retrying llm_judge llm_error
proof
  fix n answer e delay
  assume again: "llm_judge n answer = Try_again e delay"
  then show "backoff n \<le> delay"
    by (cases answer) (auto simp: llm_judge_def Let_def split: if_splits)
  from again show "llm_error e" by (rule llm_judge_error)
next
  fix n answer e
  assume "llm_judge n answer = Refused e"
  then show "llm_error e" by (rule llm_judge_error)
qed

definition paced :: "rat list \<Rightarrow> bool" where
  "paced ds \<longleftrightarrow> list_all (\<lambda>(i, d). backoff i \<le> d \<and> d \<le> 60) (enumerate 0 ds)"

text \<open>A generation sends at most one request more than the configured retries, pauses between two
  requests, for at least the backoff and never more than a minute, and otherwise fails with one of the
  provider's codes: no exception of the HTTP client, of the decoding or of the parser escapes.\<close>

theorem generation_bounded:
  "case llm_generate http provider schema parse messages c of (r, c') \<Rightarrow>
     (\<exists>ds. cl_slept c' = cl_slept c @ ds \<and> length ds \<le> lp_max_retries provider \<and> paced ds \<and>
        cl_requests c' \<le> cl_requests c + length ds + 1) \<and>
     (case r of Inl e \<Rightarrow> llm_error e \<or> schema = Inl e | Inr _ \<Rightarrow> messages \<noteq> [])"
proof -
  let ?c' = "snd (llm_generate http provider schema parse messages c)"
  let ?r = "fst (llm_generate http provider schema parse messages c)"
  show ?thesis
  proof (cases "messages = [] \<or> isl schema")
    case True
    then have "?c' = c" "\<exists>e. ?r = Inl e \<and> (llm_error e \<or> schema = Inl e)"
      by (auto simp: llm_generate_def seqM_def bindM_def ensure_def raise_def ret_def liftE_def llm_error_def
          llm_codes_def isl_def)
    then show ?thesis by (auto simp: paced_def case_prod_unfold)
  next
    case False
    then obtain s where s: "schema = Inr s" by (cases schema) auto
    let ?q = "\<lparr>lq_model = lp_model provider, lq_messages = messages,
           lq_max_completion_tokens = lp_max_output_tokens provider, lq_schema = s\<rparr>"
    have run: "repeat_request (send_request http ?q) pause llm_judge (llm_decode parse) 0 (lp_max_retries provider) c =
        (?r, ?c')"
      using False s by (simp add: llm_generate_def seqM_def bindM_def ensure_def ret_def liftE_def)
    have "llm_error e" if "?r = Inl e" for e
      using run unfolding that by (rule llm.repeat_request_known [rotated]) (rule llm_decode_error)
    moreover from llm.repeat_request_bounded [OF run] obtain ds where "cl_slept ?c' = cl_slept c @ ds"
      "cl_requests ?c' = cl_requests c + length ds + 1" "length ds \<le> lp_max_retries provider"
      "\<forall>i < length ds. backoff (0 + i) \<le> ds ! i \<and> ds ! i \<le> 60" by blast
    moreover from this(4) have "paced ds"
      by (auto simp: paced_def list_all_length nth_enumerate_eq)
    ultimately show ?thesis using False by (auto simp: case_prod_unfold split: sum.splits)
  qed
qed

end
