(* ===== verification/Planner.thy ===== *)
theory Planner
  imports Llm_Provider
begin

text \<open>
  \<^verbatim>\<open>app/agents/planner.py\<close> and the feedback of \<^verbatim>\<open>app/integrations/llm/provider.py\<close>: a plan is asked for
  until one validates, a bounded number of times, and the model is told what was wrong with the last
  one. The provider and the system prompt are arguments, as are the serialisation of the context and
  the list of errors pydantic reports for fields.
\<close>

section \<open>Feedback\<close>

definition dag_errors :: "string list" where
  "dag_errors =
     [''Task keys must be unique'', ''Task cannot depend on itself'', ''Duplicate task dependencies'',
      ''Dependency references an unknown task'', ''Plan dependencies contain a cycle'',
      ''Plan must contain at least one task'']"

text \<open>An error as pydantic reports it: its message and its type.\<close>

type_synonym reported_error = "string \<times> string"

definition without_prefix :: "string \<Rightarrow> string \<Rightarrow> string" where
  "without_prefix p s = (if starts_with p s then drop (length p) s else s)"

definition validation_feedback :: "reported_error list \<Rightarrow> string list" where
  "validation_feedback errors = map (\<lambda>(msg, ty).
     let message = without_prefix ''Value error, '' msg in if message \<in> set dag_errors then message else ty)
     (take 8 errors)"

definition plan_errors :: "(plan_proposal \<Rightarrow> reported_error list) \<Rightarrow> plan_proposal \<Rightarrow> plan_error \<Rightarrow> reported_error list" where
  "plan_errors field_errors p e = (case e of
     Invalid_fields \<Rightarrow> field_errors p
   | Plan_value_error message \<Rightarrow> [(''Value error, '' @ message, ''value_error'')])"

section \<open>The planner\<close>

record 'x planner =
  pl_generate :: "llm_message list \<Rightarrow> 'x \<Rightarrow> (exc + plan_proposal) \<times> 'x"
  pl_retries :: nat
  pl_prompt :: string
  pl_context_json :: "issue_context \<Rightarrow> string"
  pl_field_errors :: "plan_proposal \<Rightarrow> reported_error list"

definition planner_retries :: "int \<Rightarrow> exc + nat" where
  "planner_retries n = (if 0 \<le> n \<and> n \<le> 3 then Inr (nat n) else Inl ValueFailure)"

definition planner_messages :: "'x planner \<Rightarrow> issue_context \<Rightarrow> llm_message list" where
  "planner_messages pl context =
     [\<lparr>msg_role = ''system'', msg_content = pl_prompt pl\<rparr>,
      \<lparr>msg_role = ''user'', msg_content = ''Issue context JSON:'' @ [CHR 0x0A] @ pl_context_json pl context\<rparr>]"

fun joined :: "string \<Rightarrow> string list \<Rightarrow> string" where
  "joined sep [] = []"
| "joined sep [s] = s"
| "joined sep (s # ss) = s @ sep @ joined sep ss"

definition retry_message :: "string list \<Rightarrow> llm_message" where
  "retry_message feedback =
     \<lparr>msg_role = ''user'', msg_content = ''The previous response failed validation: '' @ joined ''; '' feedback @
        ''. Return a complete corrected proposal matching the schema. Check every task key, '' @
        ''dependency, required field, and ensure the graph is acyclic.''\<rparr>"

text \<open>One attempt: a plan, or the feedback for the next one; other errors are passed on.\<close>

definition planner_feedback :: "exc \<Rightarrow> ('s, string list + plan_proposal) eff" where
  "planner_feedback e = (case e of
     LLMInvalid feedback \<Rightarrow> ret (Inl feedback)
   | LLMFailure code \<Rightarrow>
       if code = ''llm_invalid_response'' then ret (Inl [''Invalid JSON or response schema'']) else raise e
   | _ \<Rightarrow> raise e)"

definition planner_attempt :: "'x planner \<Rightarrow> llm_message list \<Rightarrow> ('x world, string list + plan_proposal) eff" where
  "planner_attempt pl messages =
     catchM
       (bindM (external (pl_generate pl messages) (\<lambda>_. Plan_call (map msg_content messages))) (\<lambda>output.
        ret (case validate_plan output of
               Inr p \<Rightarrow> Inr p
             | Inl e \<Rightarrow> Inl (validation_feedback (plan_errors (pl_field_errors pl) output e)))))
       planner_feedback"

text \<open>The attempts left after the next one, and the message with the feedback of the last one.\<close>

fun planner_attempts :: "'x planner \<Rightarrow> llm_message list \<Rightarrow> llm_message list \<Rightarrow> nat \<Rightarrow> ('x world, plan_proposal) eff" where
  "planner_attempts pl messages retry left =
     bindM (planner_attempt pl (messages @ retry)) (\<lambda>result.
       case result of
         Inr p \<Rightarrow> ret p
       | Inl feedback \<Rightarrow>
           (case left of
              0 \<Rightarrow> raise (PlannerFailure ''planner_invalid_proposal'')
            | Suc n \<Rightarrow> planner_attempts pl messages [retry_message feedback] n))"

declare planner_attempts.simps [simp del]

definition propose_plan :: "'x planner \<Rightarrow> issue_context \<Rightarrow> ('x world, plan_proposal) eff" where
  "propose_plan pl context = planner_attempts pl (planner_messages pl context) [] (pl_retries pl)"

section \<open>The dialogue with the model\<close>

text \<open>What the model is told about an answer it gave; nothing about a valid plan or a failure of the provider.\<close>

definition feedback_on :: "'x planner \<Rightarrow> exc + plan_proposal \<Rightarrow> string list option" where
  "feedback_on pl answer = (case answer of
     Inl (LLMInvalid feedback) \<Rightarrow> Some feedback
   | Inl e \<Rightarrow> if e = LLMFailure ''llm_invalid_response'' then Some [''Invalid JSON or response schema''] else None
   | Inr output \<Rightarrow> (case validate_plan output of
       Inr _ \<Rightarrow> None
     | Inl e \<Rightarrow> Some (validation_feedback (plan_errors (pl_field_errors pl) output e))))"

text \<open>
  The answers of the provider, one after the other, from a state of the outside world to another: every
  question but the first is the first one with the feedback on the answer before it.
\<close>

fun dialogue :: "'x planner \<Rightarrow> llm_message list \<Rightarrow> llm_message list \<Rightarrow> 'x \<Rightarrow> (exc + plan_proposal) list \<Rightarrow>
    string list list \<Rightarrow> 'x \<Rightarrow> bool" where
  "dialogue pl messages retry x [] prompts x' \<longleftrightarrow> prompts = [] \<and> x' = x"
| "dialogue pl messages retry x (a # as) prompts x' \<longleftrightarrow>
     (\<exists>y rest. pl_generate pl (messages @ retry) x = (a, y) \<and> prompts = map msg_content (messages @ retry) # rest \<and>
        (if as = [] then rest = [] \<and> x' = y
         else case feedback_on pl a of
            None \<Rightarrow> False
          | Some feedback \<Rightarrow> dialogue pl messages [retry_message feedback] y as rest x'))"

definition planned :: "'x planner \<Rightarrow> (exc + plan_proposal) list \<Rightarrow> exc + plan_proposal \<Rightarrow> bool" where
  "planned pl answers r \<longleftrightarrow> (case feedback_on pl (last answers) of
     Some _ \<Rightarrow> r = Inl (PlannerFailure ''planner_invalid_proposal'') \<and> length answers = Suc (pl_retries pl)
   | None \<Rightarrow> (case last answers of
       Inl e \<Rightarrow> r = Inl e
     | Inr output \<Rightarrow> (\<exists>p. r = Inr p \<and> validate_plan output = Inr p \<and> validate_plan p = Inr p)))"

lemma attempt_asks:
  assumes "planner_attempt pl messages w = (r, w')"
  obtains a where "pl_generate pl messages (w_ext w) = (a, w_ext w')"
    and "w_calls w' = w_calls w @ [Plan_call (map msg_content messages)]" and "w_db w' = w_db w"
    and "case feedback_on pl a of
        Some feedback \<Rightarrow> r = Inr (Inl feedback)
      | None \<Rightarrow> (case a of Inl e \<Rightarrow> r = Inl e | Inr output \<Rightarrow> (\<exists>p. r = Inr (Inr p) \<and> validate_plan output = Inr p))"
proof -
  obtain a y where g: "pl_generate pl messages (w_ext w) = (a, y)" by fastforce
  show thesis
  proof (cases a)
    case (Inr out)
    with assms g show thesis
      by (intro that [of a]) (auto simp: planner_attempt_def catchM_def bindM_def external_def ret_def feedback_on_def
        split: sum.splits)
  next
    case (Inl e)
    with assms g show thesis
      by (intro that [of a])
        (auto simp: planner_attempt_def planner_feedback_def catchM_def bindM_def external_def ret_def raise_def
          feedback_on_def split: exc.splits if_splits)
  qed
qed

lemma attempts_dialogue:
  "planner_attempts pl messages retry left w = (r, w') \<Longrightarrow>
   \<exists>answers prompts. answers \<noteq> [] \<and> length answers \<le> Suc left \<and>
     dialogue pl messages retry (w_ext w) answers prompts (w_ext w') \<and>
     w_calls w' = w_calls w @ map Plan_call prompts \<and> w_db w' = w_db w \<and>
     planned (pl\<lparr>pl_retries := left\<rparr>) answers r"
proof (induction left arbitrary: retry w r w')
  case 0
  obtain b w1 where b: "planner_attempt pl (messages @ retry) w = (b, w1)" by (metis surj_pair)
  from b obtain a where "pl_generate pl (messages @ retry) (w_ext w) = (a, w_ext w1)"
    and "w_calls w1 = w_calls w @ [Plan_call (map msg_content (messages @ retry))]" and "w_db w1 = w_db w"
    and "case feedback_on pl a of
        Some feedback \<Rightarrow> b = Inr (Inl feedback)
      | None \<Rightarrow> (case a of Inl e \<Rightarrow> b = Inl e | Inr output \<Rightarrow> (\<exists>p. b = Inr (Inr p) \<and> validate_plan output = Inr p))"
    by (rule attempt_asks)
  with 0 b show ?case
    by (intro exI [of _ "[a]"] exI [of _ "[map msg_content (messages @ retry)]"])
      (auto simp: planner_attempts.simps [of _ _ _ 0] bindM_def ret_def raise_def planned_def feedback_on_def
        dest: validate_plan_idem split: option.splits sum.splits exc.splits)
next
  case (Suc n)
  obtain b w1 where b: "planner_attempt pl (messages @ retry) w = (b, w1)" by (metis surj_pair)
  from b obtain a where g: "pl_generate pl (messages @ retry) (w_ext w) = (a, w_ext w1)"
    and c: "w_calls w1 = w_calls w @ [Plan_call (map msg_content (messages @ retry))]" and d: "w_db w1 = w_db w"
    and o: "case feedback_on pl a of
        Some feedback \<Rightarrow> b = Inr (Inl feedback)
      | None \<Rightarrow> (case a of Inl e \<Rightarrow> b = Inl e | Inr output \<Rightarrow> (\<exists>p. b = Inr (Inr p) \<and> validate_plan output = Inr p))"
    by (rule attempt_asks)
  show ?case
  proof (cases "feedback_on pl a")
    case (Some feedback)
    with o b Suc.prems have "planner_attempts pl messages [retry_message feedback] n w1 = (r, w')"
      by (simp add: planner_attempts.simps [of _ _ _ "Suc n"] bindM_def)
    from Suc.IH [OF this] obtain answers prompts
      where p: "answers \<noteq> []" "length answers \<le> Suc n"
        "dialogue pl messages [retry_message feedback] (w_ext w1) answers prompts (w_ext w')"
        "w_calls w' = w_calls w1 @ map Plan_call prompts" "w_db w' = w_db w1" "planned (pl\<lparr>pl_retries := n\<rparr>) answers r"
      by blast
    from p(6) have "planned (pl\<lparr>pl_retries := Suc n\<rparr>) (a # answers) r"
      using p(1) by (auto simp: planned_def feedback_on_def split: option.splits sum.splits exc.splits)
    with p g c d Some show ?thesis
      by (intro exI [of _ "a # answers"] exI [of _ "map msg_content (messages @ retry) # prompts"]) simp
  next
    case None
    with g c d o b Suc.prems show ?thesis
      by (intro exI [of _ "[a]"] exI [of _ "[map msg_content (messages @ retry)]"])
        (auto simp: planner_attempts.simps [of _ _ _ "Suc n"] bindM_def ret_def planned_def feedback_on_def
          dest: validate_plan_idem split: option.splits sum.splits exc.splits)
  qed
qed

text \<open>C31. Planning is bounded and only a valid plan leaves it. The model is asked at least once and at most
  once more than the configured retries. The first question is that of the context, and every later one the
  first with the feedback on the answer that came just before it, whatever that was: the reported errors of an
  invalid plan, the feedback of the provider, or that it was no JSON of the schema. What is returned is the
  validated plan of the last answer, a fixed point of the validation; the planner gives up only when the last
  allowed answer was invalid too, and passes every other failure on. The database is not touched.\<close>

theorem planner_bounded:
  "case propose_plan pl context w of (r, w') \<Rightarrow>
     \<exists>answers prompts. answers \<noteq> [] \<and> length answers \<le> Suc (pl_retries pl) \<and>
       dialogue pl (planner_messages pl context) [] (w_ext w) answers prompts (w_ext w') \<and>
       w_calls w' = w_calls w @ map Plan_call prompts \<and> w_db w' = w_db w \<and> planned pl answers r"
proof -
  obtain r w' where p: "propose_plan pl context w = (r, w')" by (metis surj_pair)
  have "pl\<lparr>pl_retries := pl_retries pl\<rparr> = pl" by simp
  with attempts_dialogue [OF p [unfolded propose_plan_def]] show ?thesis unfolding p by simp
qed

end
