(* ===== verification/Plan_Service.thy ===== *)
theory Plan_Service
  imports Example_Run
begin

text \<open>
  \<^verbatim>\<open>app/services/plans.py\<close>: a validated proposal becomes a plan row and one task row per task, in
  execution order, and is read back. What is stored is what an execution can be created from.
\<close>

section \<open>The code\<close>

definition insert_plan :: "implementation_plan_row \<Rightarrow> db \<Rightarrow> service_error + db" where
  "insert_plan r d =
     (if plan_id r \<in> plan_id ` set (db_plans d) then Inl IntegrityError
      else Inr (d\<lparr>db_plans := db_plans d @ [r]\<rparr>))"

text \<open>Primary key, and one task of a key in a plan.\<close>

definition insert_plan_tasks :: "plan_task_row list \<Rightarrow> db \<Rightarrow> service_error + db" where
  "insert_plan_tasks rows d =
     (if distinct (map pt_id (db_plan_tasks d @ rows)) \<and>
         distinct (map (\<lambda>t. (pt_plan_id t, pt_task_key t)) (db_plan_tasks d @ rows))
      then Inr (d\<lparr>db_plan_tasks := db_plan_tasks d @ rows\<rparr>)
      else Inl IntegrityError)"

definition task_row :: "uuid \<Rightarrow> uuid \<Rightarrow> nat \<Rightarrow> plan_task_proposal \<Rightarrow> plan_task_row" where
  "task_row i pid n t =
     \<lparr>pt_id = i, pt_plan_id = pid, pt_task_key = task_key t, pt_title = title t,
      pt_description = Some (description t), pt_rationale = Some (rationale t),
      pt_acceptance_criteria = acceptance_criteria t, pt_suggested_tests = suggested_tests t,
      pt_status = ''pending'', pt_dependencies = dependencies t, pt_target_files = target_files t,
      pt_sequence = n\<rparr>"

definition in_order :: "plan_task_proposal list \<Rightarrow> string list \<Rightarrow> plan_task_proposal list" where
  "in_order ts keys = map (\<lambda>k. the (map_of (map (\<lambda>t. (task_key t, t)) ts) k)) keys"

text \<open>\<open>fresh 0\<close> is the identifier a plan without one is given, \<open>fresh (Suc n)\<close> that of task \<open>n\<close>.\<close>

definition task_rows :: "(nat \<Rightarrow> uuid) \<Rightarrow> uuid \<Rightarrow> plan_task_proposal list \<Rightarrow> plan_task_row list" where
  "task_rows fresh pid ts = map (\<lambda>(n, t). task_row (fresh (Suc n)) pid n t) (enumerate 0 ts)"

definition plan_create ::
  "uuid option \<Rightarrow> (nat \<Rightarrow> uuid) \<Rightarrow> uuid \<Rightarrow> plan_proposal \<Rightarrow> db \<Rightarrow> service_error + db \<times> uuid" where
  "plan_create identifier fresh issue proposal d =
     (case validate_plan proposal of
        Inl _ \<Rightarrow> Inl (ValueError ''plan'')
      | Inr p \<Rightarrow>
          bindE (requireE RecordNotFound (fetch iss_id issue (db_issues d) \<noteq> None)) (\<lambda>_.
          let pid = (case identifier of Some i \<Rightarrow> i | None \<Rightarrow> fresh 0) in
          bindE (insert_plan \<lparr>plan_id = pid, plan_issue_id = issue, plan_status = ''draft'',
                   plan_row_summary = Some (plan_summary p)\<rparr> d) (\<lambda>d1.
          case plan_order p of
            Inl e \<Rightarrow> Inl (ValueError e)
          | Inr keys \<Rightarrow>
              bindE (insert_plan_tasks (task_rows fresh pid (in_order (plan_tasks p) keys)) d1) (\<lambda>d2.
              Inr (d2, pid)))))"

record plan_response =
  plr_id :: uuid
  plr_issue_id :: uuid
  plr_summary :: "string option"
  plr_status :: string
  plr_tasks :: "plan_task_row list"

text \<open>Ordered by sequence, then key: sorting is stable.\<close>

definition plan_get :: "uuid \<Rightarrow> db \<Rightarrow> service_error + plan_response" where
  "plan_get pid d =
     bindE (someE RecordNotFound (fetch plan_id pid (db_plans d))) (\<lambda>r.
     Inr \<lparr>plr_id = plan_id r, plr_issue_id = plan_issue_id r, plr_summary = plan_row_summary r,
          plr_status = plan_status r,
          plr_tasks = sort_key pt_sequence (sort_key pt_task_key
            (filter (\<lambda>t. pt_plan_id t = pid) (db_plan_tasks d)))\<rparr>)"

section \<open>The rows of a plan\<close>

lemma proposal_of_task_row [simp]: "proposal_of_row (task_row i pid n t) = t"
  by (simp add: proposal_of_row_def task_row_def or_empty_def)

lemma task_rows_nth:
  "n < length ts \<Longrightarrow> task_rows fresh pid ts ! n = task_row (fresh (Suc n)) pid n (ts ! n)"
  by (simp add: task_rows_def nth_enumerate_eq)

lemma length_task_rows [simp]: "length (task_rows fresh pid ts) = length ts"
  by (simp add: task_rows_def)

lemma map_task_rows:
  assumes "\<And>i n t. f (task_row i pid n t) = g t"
  shows "map f (task_rows fresh pid ts) = map g ts"
  by (rule nth_equalityI) (simp_all add: task_rows_nth assms)

lemma task_rows_proposals: "map proposal_of_row (task_rows fresh pid ts) = ts"
  using map_task_rows [of proposal_of_row pid "\<lambda>t. t" fresh ts] by simp

lemma task_rows_sequence: "map pt_sequence (task_rows fresh pid ts) = [0..<length ts]"
  by (rule nth_equalityI) (simp_all add: task_rows_nth task_row_def)

lemma task_rows_plan: "t \<in> set (task_rows fresh pid ts) \<Longrightarrow> pt_plan_id t = pid"
  by (auto simp: task_rows_def task_row_def)

lemma in_order_mset:
  assumes d: "distinct (map task_key ts)" and "distinct keys" and "set keys = task_key ` set ts"
  shows "mset (in_order ts keys) = mset ts" and "map task_key (in_order ts keys) = keys"
proof -
  let ?m = "map_of (map (\<lambda>t. (task_key t, t)) ts)"
  have m: "?m (task_key t) = Some t" if "t \<in> set ts" for t
    using d that by (intro map_of_is_SomeI) (auto simp: comp_def)
  have "task_key (the (?m k)) = k" if "k \<in> set keys" for k
    using that assms(3) m by auto
  then show keys: "map task_key (in_order ts keys) = keys"
    by (auto simp: in_order_def intro: map_idI)
  have "set (in_order ts keys) = set ts"
    by (simp add: in_order_def assms(3) image_image m cong: image_cong)
  moreover from keys assms(2) have "distinct (in_order ts keys)" by (metis distinct_map)
  moreover from d have "distinct ts" by (metis distinct_map)
  ultimately show "mset (in_order ts keys) = mset ts" by (metis set_eq_iff_mset_eq_distinct)
qed

lemma filter_same_key:
  "distinct zs \<Longrightarrow> inj_on f (set zs) \<Longrightarrow> k \<in> set zs \<Longrightarrow> filter (\<lambda>x. f k = f x) zs = [k]"
proof (induction zs)
  case (Cons z zs)
  show ?case
  proof (cases "k = z")
    case True
    have "f z \<noteq> f x" if "x \<in> set zs" for x
      using Cons.prems that True by (auto simp: inj_on_def)
    then show ?thesis using True by (auto simp: filter_empty_conv)
  next
    case False
    with Cons.prems have "f k \<noteq> f z" by (auto simp: inj_on_def)
    with False Cons show ?thesis by simp
  qed
qed simp

lemma sort_key_sorted:
  fixes f :: "'a \<Rightarrow> nat"
  assumes "sorted_wrt (<) (map f xs)" and "mset ys = mset xs"
  shows "sort_key f ys = xs"
proof -
  have xs: "sorted (map f xs)" "inj_on f (set xs)" "distinct xs"
    using assms(1) by (auto simp: strict_sorted_iff distinct_map)
  have ys: "distinct ys" "set ys = set xs"
    using xs(3) assms(2) by (metis mset_eq_imp_distinct_iff, metis mset_eq_setD)
  show ?thesis
    by (rule properties_for_sort_key) (use assms(2) xs ys in \<open>simp_all add: filter_same_key\<close>)
qed

section \<open>Storing a plan\<close>

text \<open>Every task row belongs to a plan: the foreign key of the table.\<close>

definition plans_closed :: "db \<Rightarrow> bool" where
  "plans_closed d \<longleftrightarrow> pt_plan_id ` set (db_plan_tasks d) \<subseteq> plan_id ` set (db_plans d)"

lemma plan_create_Inr:
  assumes "plan_create identifier fresh issue proposal d = Inr (d', pid)"
  obtains p keys where "validate_plan proposal = Inr p" and "plan_order p = Inr keys"
    and "pid \<notin> plan_id ` set (db_plans d)" and "fetch iss_id issue (db_issues d) \<noteq> None"
    and "distinct (map pt_id (db_plan_tasks d @ task_rows fresh pid (in_order (plan_tasks p) keys)))"
    and "d' = d\<lparr>db_plans := db_plans d @ [\<lparr>plan_id = pid, plan_issue_id = issue, plan_status = ''draft'',
                   plan_row_summary = Some (plan_summary p)\<rparr>],
               db_plan_tasks := db_plan_tasks d @ task_rows fresh pid (in_order (plan_tasks p) keys)\<rparr>"
proof -
  from assms obtain p where v: "validate_plan proposal = Inr p"
    by (auto simp: plan_create_def split: sum.splits)
  from assms v obtain keys where k: "plan_order p = Inr keys"
    by (cases "plan_order p") (auto simp: plan_create_def Let_def split: sum.splits)
  let ?pid = "case identifier of None \<Rightarrow> fresh 0 | Some i \<Rightarrow> i"
  from assms v k have pid: "pid = ?pid" and i: "fetch iss_id issue (db_issues d) \<noteq> None"
    and n: "?pid \<notin> plan_id ` set (db_plans d)"
    and dist: "distinct (map pt_id (db_plan_tasks d @ task_rows fresh ?pid (in_order (plan_tasks p) keys)))"
    and d': "d' = d\<lparr>db_plans := db_plans d @ [\<lparr>plan_id = ?pid, plan_issue_id = issue, plan_status = ''draft'',
                   plan_row_summary = Some (plan_summary p)\<rparr>],
               db_plan_tasks := db_plan_tasks d @ task_rows fresh ?pid (in_order (plan_tasks p) keys)\<rparr>"
    by (auto simp: plan_create_def Let_def insert_plan_def insert_plan_tasks_def requireE_def split: if_splits)
  show thesis
    by (rule that [OF v k]) (use n i dist d' in \<open>simp_all add: pid\<close>)
qed

lemma stored_rows:
  assumes closed: "plans_closed d" and "pid \<notin> plan_id ` set (db_plans d)"
    and "db_plan_tasks d' = db_plan_tasks d @ task_rows fresh pid ts"
  shows "filter (\<lambda>t. pt_plan_id t = pid) (db_plan_tasks d') = task_rows fresh pid ts"
proof -
  have "filter (\<lambda>t. pt_plan_id t = pid) (db_plan_tasks d) = []"
    using assms(1,2) by (auto simp: plans_closed_def filter_empty_conv)
  moreover have "filter (\<lambda>t. pt_plan_id t = pid) (task_rows fresh pid ts) = task_rows fresh pid ts"
    using task_rows_plan by (auto simp: filter_id_conv)
  ultimately show ?thesis by (simp add: assms(3))
qed

lemma create_succeeds:
  assumes plan: "fetch plan_id pid (db_plans d) = Some plan"
    and v: "validate_plan \<lparr>plan_summary = or_empty (plan_row_summary plan),
      plan_tasks = map proposal_of_row (plan_rows pid d)\<rparr> = Inr (p :: plan_proposal)"
    and keys: "task_key ` set (plan_tasks p) = pt_task_key ` set (plan_rows pid d)"
    and rows: "distinct (map pt_id (plan_rows pid d))"
    and "rid \<notin> run_id ` set (db_runs d)"
    and "distinct (map te_id (db_task_executions d) @ map (\<lambda>n. ids (Suc n)) [0..<length (plan_rows pid d)])"
  shows "\<exists>d'. create pid (Some rid) ids now d = Inr (d', rid)"
proof -
  let ?rows = "plan_rows pid d"
  let ?snapshot = "\<lparr>snap_proposal = p, snap_task_ids = map (\<lambda>t. (pt_task_key t, pt_id t)) ?rows\<rparr>"
  have s: "validate_snapshot ?snapshot = Inr ?snapshot"
    using validate_plan_idem [OF v] keys rows by (auto simp: validate_snapshot_Inr image_image comp_def)
  have "map te_id (created_tasks ids rid ?rows) = map (\<lambda>n. ids (Suc n)) [0..<length ?rows]"
    by (rule nth_equalityI) (simp_all add: created_tasks_def new_task_def)
  then have "insert_tasks (created_tasks ids rid ?rows) (d\<lparr>db_runs := db_runs d @ [new_run rid pid ?snapshot now]\<rparr>) \<noteq>
      Inl IntegrityError"
    using assms(6) by (simp add: insert_tasks_def)
  then obtain d2 where "insert_tasks (created_tasks ids rid ?rows)
      (d\<lparr>db_runs := db_runs d @ [new_run rid pid ?snapshot now]\<rparr>) = Inr d2"
    by (auto simp: insert_tasks_def split: if_splits)
  with assms(5) plan v s show ?thesis
    by (simp add: create_def someE_def Let_def insert_run_def new_run_def created_tasks_def)
qed

text \<open>C19. A plan that was stored is the plan that was validated: reading it back returns its tasks with
  every field, in execution order, and an execution can be created from it whenever the identifiers it
  draws are unused.\<close>

theorem stored_plan_runs:
  assumes closed: "plans_closed d"
    and c: "plan_create identifier fresh issue proposal d = Inr (d', pid)"
  shows "\<exists>p keys response. validate_plan proposal = Inr p \<and> plan_order p = Inr keys \<and>
    plan_get pid d' = Inr response \<and> plr_summary response = Some (plan_summary p) \<and>
    plr_issue_id response = issue \<and> map pt_task_key (plr_tasks response) = keys \<and>
    mset (map proposal_of_row (plr_tasks response)) = mset (plan_tasks p) \<and>
    (rid \<notin> run_id ` set (db_runs d') \<longrightarrow>
     distinct (map te_id (db_task_executions d') @ map (\<lambda>n. ids (Suc n)) [0..<length keys]) \<longrightarrow>
     (\<exists>d''. create pid (Some rid) ids now d' = Inr (d'', rid)))"
proof -
  from c obtain p keys where v: "validate_plan proposal = Inr p" and k: "plan_order p = Inr keys"
    and new: "pid \<notin> plan_id ` set (db_plans d)"
    and ids: "distinct (map pt_id (db_plan_tasks d @ task_rows fresh pid (in_order (plan_tasks p) keys)))"
    and d': "d' = d\<lparr>db_plans := db_plans d @ [\<lparr>plan_id = pid, plan_issue_id = issue, plan_status = ''draft'',
                   plan_row_summary = Some (plan_summary p)\<rparr>],
               db_plan_tasks := db_plan_tasks d @ task_rows fresh pid (in_order (plan_tasks p) keys)\<rparr>"
    by (rule plan_create_Inr)
  let ?ts = "in_order (plan_tasks p) keys"
  let ?rows = "task_rows fresh pid ?ts"
  have dist: "distinct (map task_key (plan_tasks p))" using v by (rule valid_plan_distinct)
  have keys: "distinct keys" "set keys = task_key ` set (plan_tasks p)"
    using k plan_order_set [OF k] dist execution_order_distinct [of "dependency_map (plan_tasks p)" keys]
    by (simp_all add: plan_order_def)
  note order = in_order_mset [OF dist keys]
  have rows: "filter (\<lambda>t. pt_plan_id t = pid) (db_plan_tasks d') = ?rows"
    by (rule stored_rows [OF closed new]) (simp add: d')
  have plan: "fetch plan_id pid (db_plans d') = Some \<lparr>plan_id = pid, plan_issue_id = issue,
      plan_status = ''draft'', plan_row_summary = Some (plan_summary p)\<rparr>"
    using new by (simp add: d' fetch_notin)
  have sorted: "sort_key pt_sequence (sort_key pt_task_key ?rows) = ?rows"
    by (rule sort_key_sorted) (simp_all add: task_rows_sequence)
  have row_keys: "map pt_task_key ?rows = keys"
    using map_task_rows [of pt_task_key pid task_key fresh ?ts] order(2) by (simp add: task_row_def)
  have again: "\<exists>d''. create pid (Some rid) ids now d' = Inr (d'', rid)"
    if "rid \<notin> run_id ` set (db_runs d')"
      and "distinct (map te_id (db_task_executions d') @ map (\<lambda>n. ids (Suc n)) [0..<length keys])"
  proof (rule create_succeeds [OF plan])
    let ?again = "map proposal_of_row (plan_rows pid d')"
    have m: "mset (plan_rows pid d') = mset ?rows" by (simp add: plan_rows_def rows)
    have "mset ?again = mset (map proposal_of_row ?rows)" using m by (metis mset_map)
    then have tasks: "mset ?again = mset (plan_tasks p)" by (simp only: task_rows_proposals order(1))
    show "validate_plan \<lparr>plan_summary = or_empty (plan_row_summary \<lparr>plan_id = pid, plan_issue_id = issue,
        plan_status = ''draft'', plan_row_summary = Some (plan_summary p)\<rparr>), plan_tasks = ?again\<rparr> =
      Inr (p\<lparr>plan_tasks := ?again\<rparr>)"
      using validate_plan_permute(1) [OF validate_plan_idem [OF v] tasks] by (cases p) (simp add: or_empty_def)
    have set: "set (plan_rows pid d') = set ?rows" and len: "length (plan_rows pid d') = length keys"
      using m mset_eq_setD mset_eq_length row_keys by (metis, metis length_map)
    show "task_key ` set (plan_tasks (p\<lparr>plan_tasks := ?again\<rparr>)) = pt_task_key ` set (plan_rows pid d')"
      by (simp add: image_image proposal_of_row_def)
    have "mset (map pt_id (plan_rows pid d')) = mset (map pt_id ?rows)" using m by (metis mset_map)
    moreover from ids have "distinct (map pt_id ?rows)" by simp
    ultimately show "distinct (map pt_id (plan_rows pid d'))" by (metis mset_eq_imp_distinct_iff)
    show "rid \<notin> run_id ` set (db_runs d')" by (rule that(1))
    show "distinct (map te_id (db_task_executions d') @
        map (\<lambda>n. ids (Suc n)) [0..<length (plan_rows pid d')])"
      using that(2) by (simp only: len)
  qed
  have "mset (map proposal_of_row ?rows) = mset (plan_tasks p)"
    by (simp only: task_rows_proposals order(1))
  with v k plan rows sorted row_keys again show ?thesis
    by (simp add: plan_get_def someE_def)
qed

definition two_task_plan :: plan_proposal where
  "two_task_plan =
     \<lparr>plan_summary = ''Add a cache'', plan_tasks =
       [\<lparr>task_key = ''b'', title = ''use'', description = ''d'', rationale = ''r'', target_files = [''m.py''],
         dependencies = [''a''], acceptance_criteria = [''ok''], suggested_tests = []\<rparr>,
        \<lparr>task_key = ''a'', title = ''add'', description = ''d'', rationale = ''r'', target_files = [],
         dependencies = [], acceptance_criteria = [''ok''], suggested_tests = []\<rparr>]\<rparr>"

lemma stored_plan_runs_witness:
  "\<exists>d' response. plan_create (Some 50) (\<lambda>i. 60 + i) 2 two_task_plan example_db = Inr (d', 50) \<and>
     plan_get 50 d' = Inr response \<and> map pt_task_key (plr_tasks response) = [''a'', ''b''] \<and>
     (\<exists>d''. create 50 (Some 70) (\<lambda>i. 80 + i) 100 d' = Inr (d'', 70))"
proof -
  let ?c = "plan_create (Some 50) (\<lambda>i. 60 + i) 2 two_task_plan example_db"
  have "case ?c of Inl _ \<Rightarrow> False | Inr (d', pid) \<Rightarrow> pid = 50 \<and> db_runs d' = [] \<and> db_task_executions d' = []"
    by code_simp
  then obtain d' where c: "?c = Inr (d', 50)" and none: "db_runs d' = []" "db_task_executions d' = []"
    by (auto split: sum.splits)
  have order: "plan_order p = Inr [''a'', ''b'']" if "validate_plan two_task_plan = Inr p" for p
  proof -
    have "case validate_plan two_task_plan of Inl _ \<Rightarrow> False | Inr p \<Rightarrow> plan_order p = Inr [''a'', ''b'']"
      by code_simp
    with that show ?thesis by simp
  qed
  have closed: "plans_closed example_db" by code_simp
  from stored_plan_runs [OF closed c, of 70 "\<lambda>i. 80 + i" 100] obtain p keys response
    where "validate_plan two_task_plan = Inr p" and k: "plan_order p = Inr keys"
      and g: "plan_get 50 d' = Inr response" and r: "map pt_task_key (plr_tasks response) = keys"
      and again: "distinct (map (\<lambda>n. 80 + Suc n) [0..<length keys]) \<longrightarrow>
        (\<exists>d''. create 50 (Some 70) (\<lambda>i. 80 + i) 100 d' = Inr (d'', 70))"
    by (auto simp: none)
  then have "keys = [''a'', ''b'']" using order by fastforce
  with c g r again show ?thesis by auto
qed

end
