(* ===== verification/Task_Progress.thy ===== *)
theory Task_Progress
  imports Execution_Trace
begin

text \<open>
  The statuses of the tasks never go back: whatever sequence of transactions is committed, by however
  many workers, every task keeps its identity and its status only moves forward. A task that has been
  claimed is therefore never claimed again, and a task that has ended stays as it ended.
\<close>

section \<open>Progress\<close>

definition progressed :: "task_execution \<Rightarrow> task_execution \<Rightarrow> bool" where
  "progressed t t' \<longleftrightarrow> same_task t t' \<and>
     (te_status t' = te_status t \<or> task_rank (te_status t) < task_rank (te_status t'))"

definition tasks_progress :: "db \<Rightarrow> db \<Rightarrow> bool" where
  "tasks_progress d d' \<longleftrightarrow> (\<forall>t \<in> set (db_task_executions d). \<exists>t' \<in> set (db_task_executions d'). progressed t t')"

text \<open>A transaction that creates no run changes rows in place and keeps what they belong to.\<close>

definition grows :: "db \<Rightarrow> db \<Rightarrow> bool" where
  "grows d d' \<longleftrightarrow> list_all2 progressed (db_task_executions d) (db_task_executions d') \<and>
     list_all2 same_run (db_runs d) (db_runs d')"

definition dict_progress :: "task_dict \<Rightarrow> task_dict \<Rightarrow> bool" where
  "dict_progress = list_all2 (\<lambda>(k, t) (k', t'). k' = k \<and> progressed t t')"

lemma progressed_refl [simp]: "progressed t t"
  by (simp add: progressed_def)

lemma progressed_id: "progressed t t' \<Longrightarrow> te_id t' = te_id t"
  by (simp add: progressed_def same_task_def)

lemma progressed_trans: "progressed a b \<Longrightarrow> progressed b c \<Longrightarrow> progressed a c"
  by (auto simp: progressed_def same_task_def)

lemma progressed_state: "task_state t s = Inr t' \<Longrightarrow> progressed t (t'\<lparr>te_output_summary := x\<rparr>)"
  by (auto simp: progressed_def same_task_def task_state_Inr task_table.edge_rank)

lemma progressed_task_state: "task_state t s = Inr t' \<Longrightarrow> progressed t t'"
  by (auto simp: progressed_def same_task_def task_state_Inr task_table.edge_rank)

lemma progressed_moved: "moved t t' \<Longrightarrow> progressed t t'"
  by (auto simp: progressed_def moved_def same_task_def task_table.edge_rank)

lemma grows_refl: "db_task_executions d' = db_task_executions d \<Longrightarrow> db_runs d' = db_runs d \<Longrightarrow> grows d d'"
  by (simp add: grows_def list.rel_refl_strong)

lemma list_all2_through:
  "list_all2 P xs ys \<Longrightarrow> list_all2 P ys zs \<Longrightarrow> (\<And>a b c. P a b \<Longrightarrow> P b c \<Longrightarrow> P a c) \<Longrightarrow> list_all2 P xs zs"
  by (rule list_all2_trans)

lemma grows_trans: "grows a b \<Longrightarrow> grows b c \<Longrightarrow> grows a c"
  unfolding grows_def
  by (elim conjE, intro conjI; erule (1) list_all2_through) (rule progressed_trans same_run_trans; assumption)+

lemma grows_progress: "grows d d' \<Longrightarrow> tasks_progress d d'"
  unfolding grows_def tasks_progress_def by (metis in_set_conv_nth list_all2_conv_all_nth)

lemma tasks_progress_refl: "db_task_executions d' = db_task_executions d \<Longrightarrow> tasks_progress d d'"
  unfolding tasks_progress_def using progressed_refl by metis

lemma tasks_progress_trans: "tasks_progress a b \<Longrightarrow> tasks_progress b c \<Longrightarrow> tasks_progress a c"
  unfolding tasks_progress_def by (meson progressed_trans)

lemma tasks_progress_append: "db_task_executions d' = db_task_executions d @ ts \<Longrightarrow> tasks_progress d d'"
  unfolding tasks_progress_def using progressed_refl by (metis Un_iff set_append)

lemma dict_progress_refl [simp]: "dict_progress ts ts"
  by (auto simp: dict_progress_def intro: list.rel_refl_strong)

lemma dict_progress_trans: "dict_progress a b \<Longrightarrow> dict_progress b c \<Longrightarrow> dict_progress a c"
  unfolding dict_progress_def
  by (rule list_all2_trans [where ?P1.0 = "\<lambda>(k, t) (k', t'). k' = k \<and> progressed t t'"]) (auto intro: progressed_trans)

lemma dict_progress_aset:
  assumes "distinct (map fst ts)" and "(k, t) \<in> set ts" and "progressed t t'"
  shows "dict_progress ts (aset k t' ts)"
  unfolding dict_progress_def aset_def list_all2_map2
  using assms by (intro list.rel_refl_strong) (auto split: if_splits dest: eq_key_imp_eq_value)

lemma dict_progress_states: "apply_states states ts = Inr ts' \<Longrightarrow> dict_progress ts ts'"
  unfolding apply_states_def mapE_eq_Inr dict_progress_def
  by (elim list_all2_mono) (auto dest: progressed_task_state)

lemma dict_progress_advance: "advance_run now run s ts = Inr (run', ts') \<Longrightarrow> dict_progress ts ts'"
  by (auto simp: advance_run_def Let_def dest: dict_progress_states split: if_splits)

lemma dict_progress_stop:
  "mapE (\<lambda>(k, t). bindE (stop_task c reason t) (\<lambda>t'. Inr (k, t'))) ts = Inr ts' \<Longrightarrow> dict_progress ts ts'"
  unfolding mapE_eq_Inr dict_progress_def
  by (elim list_all2_mono) (auto simp: stop_task_def intro: progressed_state split: if_splits)

section \<open>What is written back\<close>

lemma dict_progress_ids: "dict_progress ts ts' \<Longrightarrow> map te_id (map snd ts') = map te_id (map snd ts)"
  unfolding dict_progress_def by (induction rule: list_all2_induct) (auto dest: progressed_id)

lemma dict_progress_origin:
  "dict_progress ts ts' \<Longrightarrow> t' \<in> snd ` set ts' \<Longrightarrow> \<exists>t \<in> snd ` set ts. progressed t t'"
  unfolding dict_progress_def by (induction rule: list_all2_induct) auto

lemma dict_progress_forward:
  "dict_progress ts ts' \<Longrightarrow> t \<in> snd ` set ts \<Longrightarrow> \<exists>t' \<in> snd ` set ts'. progressed t t'"
  unfolding dict_progress_def by (induction rule: list_all2_induct) auto

lemma grows_save_run:
  assumes "distinct (map run_id (db_runs d))" and "find_run rid d = Some run" and "same_run run run'"
  shows "list_all2 same_run (db_runs d) (db_runs (save_run now run' d))"
proof -
  let ?new = "run'\<lparr>run_updated_at := now\<rparr>"
  have "run_id run' = run_id run" using assms(3) by (simp add: same_run_def)
  have "same_run x (overwrite run_id [?new] x)" if "x \<in> set (db_runs d)" for x
  proof (cases "run_id x = run_id run")
    case True
    with that assms(1,2) have "x = run"
      by (auto simp: find_run_def distinct_map dest!: fetch_SomeD dest: inj_onD)
    with assms(3) \<open>run_id run' = _\<close> show ?thesis by (simp add: overwrite_def same_run_def)
  qed (use \<open>run_id run' = _\<close> in \<open>simp add: overwrite_def\<close>)
  then show ?thesis
    by (simp add: save_run_def put_overwrite list_all2_map2 list.rel_refl_strong)
qed

lemma grows_save:
  assumes l: "load rid d = Inr (run, s, ts)" and inv: "exec_inv d" and p: "dict_progress ts ts'" and run: "same_run run run'"
    and same: "db_task_executions d0 = db_task_executions d" "db_runs d0 = db_runs d"
  shows "grows d (save now run' ts' d0)"
proof -
  let ?rows = "map snd ts'"
  note ids = exec_inv_ids(2) [OF inv]
  have found: "find_run rid d = Some run" using l by (auto simp: load_iff loaded_from_def)
  have "distinct (map te_id ?rows)"
    unfolding dict_progress_ids [OF p] using l ids by (rule loaded_task_ids)
  then have rows: "db_task_executions (save now run' ts' d0) = map (overwrite te_id ?rows) (db_task_executions d)"
    by (simp add: save_def save_tasks_def put_all_overwrite same)
  have "progressed x (overwrite te_id ?rows x)" if x: "x \<in> set (db_task_executions d)" for x
  proof (cases "fetch te_id (te_id x) ?rows")
    case None
    then have "overwrite te_id ?rows x = x" by (intro overwrite_notin) (simp add: fetch_None)
    then show ?thesis by simp
  next
    case (Some t')
    from fetch_SomeD [OF this] have t': "t' \<in> snd ` set ts'" "te_id t' = te_id x" by auto
    from dict_progress_origin [OF p t'(1)] obtain k t where t: "(k, t) \<in> set ts" "progressed t t'" by auto
    with load_task_in [OF l] have "t \<in> set (db_task_executions d)" by blast
    with ids x progressed_id [OF t(2)] t'(2) have "t = x" by (auto simp: distinct_map dest: inj_onD)
    with Some t(2) show ?thesis by (simp add: overwrite_def)
  qed
  moreover have "list_all2 same_run (db_runs d0) (db_runs (save_run now run' (save_tasks ?rows d0)))"
    using grows_save_run [of "save_tasks ?rows d0" rid run run' now] exec_inv_ids(1) [OF inv] found run
    by (simp add: save_tasks_def find_run_def same)
  ultimately show ?thesis
    unfolding grows_def rows by (simp add: list_all2_map2 list.rel_refl_strong same save_def)
qed

lemma saved_row:
  assumes l: "load rid d = Inr (run, s, ts)" and ids: "distinct (map te_id (db_task_executions d))"
    and same: "db_task_executions d0 = db_task_executions d" and p: "dict_progress ts ts'" and t': "t' \<in> snd ` set ts'"
  shows "t' \<in> set (db_task_executions (save now run' ts' d0))"
proof -
  let ?rows = "map snd ts'"
  have dist: "distinct (map te_id ?rows)"
    unfolding dict_progress_ids [OF p] using l ids by (rule loaded_task_ids)
  from dict_progress_origin [OF p t'] obtain k t where t: "(k, t) \<in> set ts" "progressed t t'" by auto
  with load_task_in [OF l] have "t \<in> set (db_task_executions d)" by blast
  moreover have "overwrite te_id ?rows t = t'"
    using fetch_distinct [OF dist, of t'] t' progressed_id [OF t(2)] by (simp add: overwrite_def)
  ultimately show ?thesis using dist by (force simp: save_def save_tasks_def put_all_overwrite same)
qed

section \<open>Every operation makes progress\<close>

lemma execution_state_same: "execution_state run t = Inr run' \<Longrightarrow> same_run run run'"
  by (auto simp: execution_state_def same_run_def)

lemma advance_run_end:
  "(if b then bindE (execution_state r1 t) (\<lambda>r2. Inr (if run_completed_at r2 = None
        then r2\<lparr>run_completed_at := Some now\<rparr> else r2, ts))
    else bindE (execution_state r1 t') (\<lambda>r2. Inr (r2, ts))) = Inr (run', ts') \<Longrightarrow> same_run r1 run'"
  by (cases b) (auto dest!: execution_state_same simp: same_run_def split: if_splits)

lemma advance_run_same:
  assumes "advance_run now run s ts = Inr (run', ts')"
  shows "same_run run run'"
proof (cases "run_status run \<in> {''failed'', ''cancelled''}")
  case False
  let ?run1 = "if run_started_at run = None then run\<lparr>run_started_at := Some now\<rparr> else run"
  from assms False have "same_run ?run1 run'"
    unfolding advance_run_def Let_def if_not_P [OF False]
    by (elim bindE_InrE) (rule advance_run_end)
  then show ?thesis by (simp add: same_run_def split: if_splits)
qed (use assms in \<open>simp add: advance_run_finished\<close>)

lemma grows_advance:
  assumes "exec_inv d" and "load rid d = Inr (run, s, ts)" and "dict_progress ts ts1"
    and "advance_run now run s ts1 = Inr (run', ts')"
    and "db_task_executions d0 = db_task_executions d" and "db_runs d0 = db_runs d"
  shows "grows d (save now run' ts' d0)"
  using assms(2,1) dict_progress_trans [OF assms(3) dict_progress_advance [OF assms(4)]]
    advance_run_same [OF assms(4)] assms(5,6)
  by (rule grows_save)

lemma grows_touch:
  assumes "exec_inv d" and "load rid d = Inr (run, s, ts)" and "(key, t) \<in> set ts" and "progressed t t'"
    and "db_task_executions d0 = db_task_executions d" and "db_runs d0 = db_runs d"
  shows "grows d (save now run (aset key t' ts) d0)"
  using assms(2,1) dict_progress_aset [OF exec_inv_load(2) [OF assms(1,2)] assms(3,4)] same_run_refl assms(5,6)
  by (rule grows_save)

lemma grows_move:
  assumes "exec_inv d" and "load rid d = Inr (run, s, ts)" and "(key, t) \<in> set ts" and "progressed t t'"
    and "advance_run now run s (aset key t' ts) = Inr (run', ts')"
    and "db_task_executions d0 = db_task_executions d" and "db_runs d0 = db_runs d"
  shows "grows d (save now run' ts' d0)"
  using assms(1,2) dict_progress_aset [OF exec_inv_load(2) [OF assms(1,2)] assms(3,4)] assms(5-)
  by (rule grows_advance)

lemma reconcile_grows: "exec_inv d \<Longrightarrow> reconcile rid now d = Inr (d', resp) \<Longrightarrow> grows d d'"
  by (auto simp: reconcile_def intro: grows_advance [OF _ _ dict_progress_refl _ refl refl])

lemma transition_grows:
  assumes "exec_inv d" and "transition rid tid status summary now d = Inr (d', changed)"
  shows "grows d d'"
proof (cases "d' = d")
  case False
  with assms(2) obtain run s ts key target where l: "load rid d = Inr (run, s, ts)"
    and f: "find_task tid ts = Some (key, target)"
    and "move_task now (run, s, ts) key target status summary d = Inr (d', changed)"
    unfolding transition_def by (auto split: if_splits)
  then obtain t1 run' ts' where t1: "task_state target status = Inr t1"
    and adv: "advance_run now run s (aset key (t1\<lparr>te_output_summary := clip_summary summary\<rparr>) ts) = Inr (run', ts')"
    and d': "d' = save now run' ts' d"
    unfolding move_task_def by auto
  from find_task_Some [OF f] have "(key, target) \<in> set ts" by simp
  from grows_move [OF assms(1) l this progressed_state [OF t1] adv refl refl] show ?thesis by (simp add: d')
qed (simp add: grows_refl)

lemma stop_grows:
  assumes "exec_inv d" and "stop_locked rid c now d = Inr d'"
  shows "grows d d'"
proof (cases "d' = d")
  case False
  with assms(2) obtain run s ts reason agents where l: "load rid d = Inr (run, s, ts)"
    and "stop_unfinished c reason now run agents ts d = Inr d'"
    by (auto simp: stop_locked_def Let_def split: if_splits)
  then obtain agents' ts' run' where ts': "mapE (\<lambda>(k, t). bindE (stop_task c reason t) (\<lambda>t'. Inr (k, t'))) ts = Inr ts'"
    and run': "(if finished_run (run_status run) then Inr run
       else bindE (execution_state run (if c then ''cancelled'' else ''failed''))
              (\<lambda>r. Inr (r\<lparr>run_completed_at := Some now\<rparr>))) = Inr run'"
    and d': "d' = save now run' ts' (d\<lparr>db_agent_runs := put_all ar_id agents' (db_agent_runs d)\<rparr>)"
    unfolding stop_unfinished_def by (simp only: bindE_eq_Inr sum.inject) metis
  have run: "same_run run run'"
    using run' by (auto simp: same_run_def execution_state_Inr split: if_splits)
  show ?thesis
    unfolding d' using l assms(1) dict_progress_stop [OF ts'] run by (rule grows_save) simp_all
qed (simp add: grows_refl)

lemma recover_one_grows:
  assumes "recover_one cutoff now rid st = Inr st'" and "exec_inv (fst st) \<and> grows d (fst st)"
  shows "exec_inv (fst st') \<and> grows d (fst st')"
proof -
  from assms(1) have "st' = st \<or> stop_locked rid False now (fst st) = Inr (fst st')"
    by (cases st) (auto simp: recover_one_def split: if_splits)
  then show ?thesis
  proof
    assume stop: "stop_locked rid False now (fst st) = Inr (fst st')"
    from assms(2) have "exec_inv (fst st)" and p: "grows d (fst st)" by simp_all
    from stop_locked_inv [OF this(1) stop] grows_trans [OF p stop_grows [OF this(1) stop]]
    show ?thesis by simp
  qed (use assms(2) in simp)
qed

lemma recover_grows:
  assumes "exec_inv d" and "recover_stale secs locked now d = Inr (d', n)"
  shows "grows d d'"
proof -
  have "exec_inv (fst (d', n)) \<and> grows d (fst (d', n))"
  proof (rule foldE_invariant [OF assms(2) [unfolded recover_stale_def Let_def]])
    show "exec_inv (fst (d, 0)) \<and> grows d (fst (d, 0))"
      using assms(1) by (simp add: grows_refl)
  qed (rule recover_one_grows)
  then show ?thesis by simp
qed

lemma coding_start_grows:
  assumes "exec_inv d" and "coding_start rid tid ctx model fresh now d = Inr (d', aid, inputs)"
  shows "grows d d'"
proof -
  from assms(2) obtain run s ts key target t1 run' ts' where l: "load rid d = Inr (run, s, ts)"
    and f: "find_task tid ts = Some (key, target)" and t1: "task_state target ''running'' = Inr t1"
    and adv: "advance_run now run s (aset key (t1\<lparr>te_output_summary := Some ''coding_in_progress''\<rparr>) ts) = Inr (run', ts')"
    and d': "db_task_executions d' = db_task_executions (save now run' ts' d)"
      "db_runs d' = db_runs (save now run' ts' d)"
    by (elim coding_start_Inr) (rule that; simp add: insert_agent_Inr)
  from find_task_Some [OF f] have "(key, target) \<in> set ts" by simp
  from grows_move [OF assms(1) l this progressed_state [OF t1] adv refl refl] d' show ?thesis
    by (simp add: grows_def)
qed

lemma coding_finish_grows:
  assumes "exec_inv d" and "coding_finish rid tid aid success meta usage now d = Inr d'"
  shows "grows d d'"
proof -
  let ?sum = "Some (if success then ''patch_applied_awaiting_validation'' else ''coding_failed'')"
  from assms(2) obtain run s ts key target agent a1 t1 run' ts' where
    l: "load rid d = Inr (run, s, ts)" and f: "find_task tid ts = Some (key, target)"
    and "find_agent aid d = Some agent" and "te_status target = ''running''"
    and "agent_state agent (if success then ''completed'' else ''failed'') = Inr a1"
    and t1: "task_state target (if success then te_status target else ''failed'') = Inr t1"
    and adv: "advance_run now run s (aset key (t1\<lparr>te_output_summary := ?sum\<rparr>) ts) = Inr (run', ts')"
    and d': "d' = save now run' ts' (save_agent (set_usage usage
            (a1\<lparr>ar_completed_at := Some now, ar_output_metadata := meta\<rparr>)) d)"
    unfolding coding_finish_def
    by (elim block_elims conjE) (rule that, (assumption | simp)+)
  from find_task_Some [OF f] have "(key, target) \<in> set ts" by simp
  from grows_move [OF assms(1) l this progressed_state [OF t1] adv] show ?thesis
    by (simp add: d')
qed

lemma test_start_grows:
  assumes "exec_inv d" and "test_start rid tid config recovery_id fresh now d = Inr (d', aid, inputs)"
  shows "grows d d'"
proof -
  from assms(2) obtain run s ts key target where l: "load rid d = Inr (run, s, ts)"
    and f: "find_task tid ts = Some (key, target)"
    and d': "db_task_executions d' =
      db_task_executions (save now run (aset key (target\<lparr>te_output_summary := Some ''tests_running''\<rparr>) ts) d)"
      "db_runs d' = db_runs (save now run (aset key (target\<lparr>te_output_summary := Some ''tests_running''\<rparr>) ts) d)"
    by (elim test_start_Inr) (rule that; simp add: insert_agent_Inr)
  from find_task_Some [OF f] have "(key, target) \<in> set ts" by simp
  from grows_touch [OF assms(1) l this progressed_moved [OF moved_summary] refl] d' show ?thesis
    by (simp add: grows_def)
qed

lemma test_finish_grows:
  assumes "exec_inv d" and "test_finish rid tid aid report error recovery_id diff_hash now d = Inr d'"
  shows "grows d d'"
proof -
  from assms(2) obtain run s ts key target b p target' run' ts' a where l: "load rid d = Inr (run, s, ts)"
    and f: "find_task tid ts = Some (key, target)" and "te_status target = ''running''"
    and out: "test_outcome b p target = Inr target'"
    and adv: "advance_run now run s (aset key target' ts) = Inr (run', ts')"
    and d': "d' = save now run' ts' (save_agent a d)"
    by (elim test_finish_Inr) (rule that; assumption)
  from find_task_Some [OF f] have "(key, target) \<in> set ts" by simp
  moreover have "progressed target target'" using test_outcome_Inr(3) [OF out] \<open>te_status target = _\<close>
    by (simp add: progressed_moved)
  ultimately show ?thesis
    using grows_move [OF assms(1) l _ _ adv, of target "save_agent a d"] by (simp add: d')
qed

lemma claim_debug_grows:
  assumes "exec_inv d" and "claim_debug render recovery model fresh now d = Inr (d', aid, history)"
  shows "grows d d'"
proof -
  from assms(2) obtain parent run s ts key target
    where l: "recovery_locked recovery d = Inr (parent, (run, s, ts), (key, target))"
      and d': "db_task_executions d' =
        db_task_executions (save now run (aset key (target\<lparr>te_output_summary := Some ''debug_running''\<rparr>) ts) d)"
        "db_runs d' = db_runs (save now run (aset key (target\<lparr>te_output_summary := Some ''debug_running''\<rparr>) ts) d)"
    by (elim claim_debug_Inr) (rule that; simp add: insert_agent_Inr)
  note locked = recovery_locked_Inr [OF l]
  from grows_touch [OF assms(1) locked(2,3) progressed_moved [OF moved_summary] refl] d' show ?thesis
    by (simp add: grows_def)
qed

lemma finish_debug_grows:
  assumes "exec_inv d" and "finish_debug recovery aid meta success usage now d = Inr d'"
  shows "grows d d'"
proof -
  from assms(2) obtain parent run s ts key target x a
    where l: "recovery_locked recovery d = Inr (parent, (run, s, ts), (key, target))"
      and d': "d' = save now run (aset key (target\<lparr>te_output_summary := x\<rparr>) ts) (save_agent a d)"
    by (auto simp: finish_debug_def)
  note locked = recovery_locked_Inr [OF l]
  from grows_touch [OF assms(1) locked(2,3) progressed_moved [OF moved_summary], of "save_agent a d"] show ?thesis
    by (simp add: d')
qed

lemma recovery_finish_grows:
  assumes "exec_inv d" and "recovery_finish recovery passed error now d = Inr d'"
  shows "grows d d'"
proof -
  from assms(2) obtain parent run0 s0 ts0 key target p1 t1 target' d1 run s ts run' ts'
    where l: "recovery_locked recovery d = Inr (parent, (run0, s0, ts0), (key, target))"
      and t1: "task_state target (if passed then ''completed'' else ''failed'') = Inr t1"
      and target': "target' = t1\<lparr>te_output_summary := Some (if passed then ''required_tests_passed''
           else if or_empty error = [] then ''recovery_failed'' else or_empty error)\<rparr>"
      and d1: "d1 = save now run0 (aset key target' ts0) (save_agent (p1\<lparr>ar_completed_at := Some now,
           ar_output_metadata := [''error'' \<mapsto> jopt error,
             ''debug_attempts'' \<mapsto> JInt (int (length (attempts recovery d)))]\<rparr>) d)"
      and l': "load (ar_execution_run_id parent) d1 = Inr (run, s, ts)"
      and adv: "advance_run now run s ts = Inr (run', ts')" and d': "d' = save now run' ts' d1"
    by (rule recovery_finish_Inr) (rule that; assumption)
  have mv: "moved target target'" unfolding target' using t1 by (rule moved_task_state) simp
  note locked = recovery_locked_Inr [OF l]
  have "exec_inv d1"
    unfolding d1 using exec_inv_save_agent [OF assms(1)] locked(2,3) mv by (intro exec_inv_touch) simp_all
  then have "grows d1 d'"
    unfolding d' using l' dict_progress_refl adv refl refl by (rule grows_advance)
  moreover have "grows d d1"
    unfolding d1 using assms(1) locked(2,3) progressed_moved [OF mv] by (rule grows_touch) simp_all
  ultimately show ?thesis by (rule grows_trans [rotated])
qed

lemma recovery_open_grows:
  "recovery_open rid tid ctx config limit fresh now d = Inr (d', aid, task, coding) \<Longrightarrow> grows d d'"
  by (rule grows_refl) (auto simp: recovery_open_def insert_agent_Inr Let_def split: if_splits option.splits)

lemma journal_grows:
  assumes "exec_inv d" and "publication_journal p fresh now d = Inr (d', aid)"
  shows "grows d d'"
proof -
  from assms(2) obtain run d1 where run: "find_run (pub_execution_id p) d = Some run"
    and j: "journal_entry p fresh now d = Inr (d1, aid)"
    and d': "d' = save_run now (run\<lparr>run_branch_name := Some (pub_branch p)\<rparr>) d1"
    by (auto simp: publication_journal_def)
  have d1: "db_runs d1 = db_runs d" "db_task_executions d1 = db_task_executions d"
    using j by (auto simp: journal_entry_def insert_agent_Inr Let_def split: if_splits option.splits)
  have "list_all2 same_run (db_runs d1) (db_runs d')"
    unfolding d' using run exec_inv_ids(1) [OF assms(1)] d1
    by (intro grows_save_run [where rid = "pub_execution_id p" and run = run]) (simp_all add: find_run_def same_run_def)
  then show ?thesis by (simp add: grows_def d1 d' list.rel_refl_strong)
qed

lemma other_grows:
  "reserve_patch sha recovery aid fingerprint d = Inr (d', fresh_patch) \<Longrightarrow> grows d d'"
  "review_start digest rid ctx required model fresh now d = Inr (d', aid, snapshot) \<Longrightarrow> grows d d'"
  "review_finish digest rid aid ctx required snapshot decision usage error now d = Inr (d', final) \<Longrightarrow> grows d d'"
  "publication_finish p journal_id remote fresh now d = Inr d' \<Longrightarrow> grows d d'"
  "publication_failed journal_id error_code d = Inr d' \<Longrightarrow> grows d d'"
  by (rule grows_refl; auto simp: reserve_patch_def review_start_def review_finish_def publication_finish_def
    publication_failed_def record_pull_request_def insert_pull_request_def
    save_pull_request_def insert_agent_Inr Let_def split: if_splits option.splits)+

lemma create_progress: "create pid identifier fresh now d = Inr (d', rid) \<Longrightarrow> tasks_progress d d'"
  by (erule create_Inr, rule tasks_progress_append) simp

lemmas operations_grow =
  reconcile_grows transition_grows stop_grows recover_grows coding_start_grows coding_finish_grows
  test_start_grows test_finish_grows claim_debug_grows finish_debug_grows recovery_finish_grows
  journal_grows

lemma step_grows:
  assumes "exec_step d d'" and "exec_inv d"
  shows "grows d d' \<or> (\<exists>pid identifier fresh now rid. create pid identifier fresh now d = Inr (d', rid))"
  using assms(1)
  by cases
    (blast | (rule disjI1, erule operations_grow [OF assms(2)] recovery_open_grows other_grows)
      | (rule disjI1, rule grows_refl; assumption))+

lemma step_progress:
  assumes "exec_step d d'" and "exec_inv d"
  shows "tasks_progress d d'"
  using step_grows [OF assms] by (auto intro: grows_progress create_progress)

lemma steps_progress:
  assumes "exec_step\<^sup>*\<^sup>* d d'" and "platform_inv d"
  shows "tasks_progress d d'"
  using assms(1)
proof (induction rule: rtranclp_induct)
  case base
  show ?case by (rule tasks_progress_refl) simp
next
  case (step b c)
  from executions.steps_inv [OF step.hyps(1) assms(2)] have "exec_inv b" by (rule platform_parts(1))
  with step show ?case by (blast intro: tasks_progress_trans step_progress)
qed

section \<open>A task is claimed once\<close>

text \<open>The two transactions that start a task: an executor's transition and the claim of the coding agent.\<close>

definition claims :: "uuid \<Rightarrow> db \<Rightarrow> db \<Rightarrow> bool" where
  "claims tid d d' \<longleftrightarrow>
     (\<exists>rid summary now. transition rid tid ''running'' summary now d = Inr (d', True)) \<or>
     (\<exists>rid ctx model fresh now aid inputs. coding_start rid tid ctx model fresh now d = Inr (d', aid, inputs))"

lemma claims_step: "claims tid d d' \<Longrightarrow> exec_step d d'"
  by (auto simp: claims_def intro: step_transition step_coding_start)

lemma claimed_rows:
  assumes l: "load rid d = Inr (run, s, ts)" and inv: "exec_inv d" and f: "find_task tid ts = Some (key, target)"
    and q: "te_status target = ''queued''" and t1: "task_state target ''running'' = Inr t1"
    and adv: "advance_run now run s (aset key (t1\<lparr>te_output_summary := x\<rparr>) ts) = Inr (run', ts')"
    and d': "db_task_executions d' = db_task_executions (save now run' ts' d)"
  shows "\<exists>t \<in> set (db_task_executions d). te_id t = tid \<and> task_rank (te_status t) = 1"
    and "\<exists>t \<in> set (db_task_executions d'). te_id t = tid \<and> 2 \<le> task_rank (te_status t)"
proof -
  from find_task_Some [OF f] have kt: "(key, target) \<in> set ts" and tid: "te_id target = tid" by simp_all
  from load_task_in [OF l kt] tid q show "\<exists>t \<in> set (db_task_executions d). te_id t = tid \<and> task_rank (te_status t) = 1"
    by (intro bexI [of _ target]) (simp_all add: task_rank_def)
  let ?t1 = "t1\<lparr>te_output_summary := x\<rparr>"
  have p1: "dict_progress ts (aset key ?t1 ts)"
    using exec_inv_load(2) [OF inv l] kt progressed_state [OF t1] by (rule dict_progress_aset)
  note p2 = dict_progress_advance [OF adv]
  have "(key, ?t1) \<in> set (aset key ?t1 ts)" using kt by (force simp: aset_def)
  then have "?t1 \<in> snd ` set (aset key ?t1 ts)" by force
  with dict_progress_forward [OF p2] obtain t' where t': "t' \<in> snd ` set ts'" "progressed ?t1 t'" by blast
  have "t' \<in> set (db_task_executions d')"
    unfolding d' using l exec_inv_ids(2) [OF inv] refl dict_progress_trans [OF p1 p2] t'(1) by (rule saved_row)
  moreover have "te_id t' = tid" "2 \<le> task_rank (te_status t')"
    using t'(2) t1 tid by (auto simp: progressed_def same_task_def task_state_Inr task_rank_def)
  ultimately show "\<exists>t \<in> set (db_task_executions d'). te_id t = tid \<and> 2 \<le> task_rank (te_status t)" by blast
qed

lemma claim_rows:
  assumes "claims tid d d'" and "exec_inv d"
  shows "\<exists>t \<in> set (db_task_executions d). te_id t = tid \<and> task_rank (te_status t) = 1"
    and "\<exists>t \<in> set (db_task_executions d'). te_id t = tid \<and> 2 \<le> task_rank (te_status t)"
proof -
  from assms(1) obtain rid run s ts key target t1 now x run' ts' where l: "load rid d = Inr (run, s, ts)"
    and f: "find_task tid ts = Some (key, target)" and q: "te_status target = ''queued''"
    and t1: "task_state target ''running'' = Inr t1"
    and adv: "advance_run now run s (aset key (t1\<lparr>te_output_summary := x\<rparr>) ts) = Inr (run', ts')"
    and d': "db_task_executions d' = db_task_executions (save now run' ts' d)"
    unfolding claims_def
  proof (elim disjE exE)
    fix rid summary now
    assume "transition rid tid ''running'' summary now d = Inr (d', True)"
    then obtain run s ts key target where l: "load rid d = Inr (run, s, ts)"
      and f: "find_task tid ts = Some (key, target)" and q: "te_status target = ''queued''"
      and "move_task now (run, s, ts) key target ''running'' summary d = Inr (d', True)"
      by (auto simp: transition_def split: if_splits)
    then obtain t1 run' ts' where "task_state target ''running'' = Inr t1"
      and "advance_run now run s (aset key (t1\<lparr>te_output_summary := clip_summary summary\<rparr>) ts) = Inr (run', ts')"
      and "d' = save now run' ts' d"
      unfolding move_task_def by auto
    then show thesis using that [OF l f q] by blast
  next
    fix rid ctx model fresh now aid inputs
    assume "coding_start rid tid ctx model fresh now d = Inr (d', aid, inputs)"
    then show thesis by (elim coding_start_Inr) (rule that; simp add: insert_agent_Inr)
  qed
  from claimed_rows [OF l assms(2) f q t1 adv d']
  show "\<exists>t \<in> set (db_task_executions d). te_id t = tid \<and> task_rank (te_status t) = 1"
    and "\<exists>t \<in> set (db_task_executions d'). te_id t = tid \<and> 2 \<le> task_rank (te_status t)" by blast+
qed

end
