(* ===== verification/Executor.thy ===== *)
theory Executor
  imports Task_Progress Example_Services
begin

text \<open>
  \<^verbatim>\<open>app/orchestration/executor.py\<close>: one wave of an executor. Every queued task of the run is claimed,
  executed outside any transaction, and recorded as completed or failed. The executor is an argument;
  it returns, reports a failure, or raises something else.
\<close>

section \<open>The code\<close>

datatype executor_result = Executed | Executor_failure | Executor_raised exc

definition run_executor ::
  "(task_execution_response \<Rightarrow> 'x \<Rightarrow> executor_result \<times> 'x) \<Rightarrow> task_execution_response \<Rightarrow> ('x world, executor_result) eff" where
  "run_executor execute task =
     external (\<lambda>x. case execute task x of (r, x') \<Rightarrow> (Inr r, x')) (\<lambda>_. Execute_call (ter_id task))"

definition task_moved ::
  "'x environment \<Rightarrow> uuid \<Rightarrow> uuid \<Rightarrow> string \<Rightarrow> string option \<Rightarrow> ('x world, bool) eff" where
  "task_moved env rid tid status summary = transaction env (\<lambda>_ now. transition rid tid status summary now)"

text \<open>\<open>asyncio.CancelledError\<close> is no \<open>Exception\<close>: a task that is interrupted stays running.\<close>

definition record_execution :: "'x environment \<Rightarrow> uuid \<Rightarrow> uuid \<Rightarrow> executor_result \<Rightarrow> ('x world, bool) eff" where
  "record_execution env rid tid result = (case result of
     Executed \<Rightarrow> task_moved env rid tid ''completed'' None
   | Executor_failure \<Rightarrow> task_moved env rid tid ''failed'' (Some ''executor_failed'')
   | Executor_raised e \<Rightarrow>
       if e = Cancelled then raise e
       else seqM (task_moved env rid tid ''failed'' (Some ''executor_unexpected_failure'')) (raise e))"

definition execute_claimed ::
  "'x environment \<Rightarrow> (task_execution_response \<Rightarrow> 'x \<Rightarrow> executor_result \<times> 'x) \<Rightarrow> uuid \<Rightarrow> task_execution_response \<Rightarrow>
    ('x world, bool) eff" where
  "execute_claimed env execute rid task =
     bindM (run_executor execute task) (record_execution env rid (ter_id task))"

definition dispatch_task ::
  "'x environment \<Rightarrow> (task_execution_response \<Rightarrow> 'x \<Rightarrow> executor_result \<times> 'x) \<Rightarrow> uuid \<Rightarrow> task_execution_response \<Rightarrow> nat \<Rightarrow>
    ('x world, nat) eff" where
  "dispatch_task env execute rid task claimed =
     (if ter_status task \<noteq> ''queued'' then ret claimed
      else bindM (task_moved env rid (ter_id task) ''running'' None) (\<lambda>mine.
           if \<not> mine then ret claimed
           else seqM (execute_claimed env execute rid task) (ret (Suc claimed))))"

definition dispatch_ready ::
  "'x environment \<Rightarrow> (task_execution_response \<Rightarrow> 'x \<Rightarrow> executor_result \<times> 'x) \<Rightarrow> uuid \<Rightarrow> ('x world, nat) eff" where
  "dispatch_ready env execute rid =
     bindM (transaction env (\<lambda>_. reconcile rid)) (\<lambda>ready.
     foldM (dispatch_task env execute rid) (er_tasks ready) 0)"

section \<open>A task is started once\<close>

text \<open>C10. A task is started at most once in the life of a database: after one transaction has claimed it,
  whichever transactions of whichever workers are committed in between, no transition to \<open>running\<close>
  reports a change for it and no coding attempt can claim it.\<close>

theorem task_claimed_once:
  assumes "no_executions d0" and "exec_step\<^sup>*\<^sup>* d0 d" and claim: "claims tid d d1" and steps: "exec_step\<^sup>*\<^sup>* d1 d2"
  shows "\<not> claims tid d2 d3"
proof
  assume again: "claims tid d2 d3"
  note inv = executions.reach_inv [OF assms(1,2)]
  note inv1 = executions.steps_inv [OF r_into_rtranclp [of exec_step, OF claims_step [OF claim]] inv]
  note inv2 = executions.steps_inv [OF steps inv1]
  from claim_rows(2) [OF claim platform_parts(1) [OF inv]] obtain t
    where t: "t \<in> set (db_task_executions d1)" "te_id t = tid" "2 \<le> task_rank (te_status t)" by blast
  from steps_progress [OF steps inv1] t(1) obtain u
    where u: "u \<in> set (db_task_executions d2)" "progressed t u" by (auto simp: tasks_progress_def)
  from claim_rows(1) [OF again platform_parts(1) [OF inv2]] obtain v
    where v: "v \<in> set (db_task_executions d2)" "te_id v = tid" "task_rank (te_status v) = 1" by blast
  have "distinct (map te_id (db_task_executions d2))"
    using exec_inv_ids(2) [OF platform_parts(1) [OF inv2]] .
  with u v t(2) have "u = v" by (auto simp: progressed_def same_task_def distinct_map dest: inj_onD)
  with u(2) t(3) v(3) show False by (auto simp: progressed_def)
qed

lemma claimed_example: "claims 11 db_opened db_coding"
proof -
  have "\<not> isl (coding_start 10 11 example_context None 21 103 db_opened)" by code_simp
  then obtain r where "coding_start 10 11 example_context None 21 103 db_opened = Inr r"
    by (cases "coding_start 10 11 example_context None 21 103 db_opened") auto
  then show ?thesis unfolding claims_def db_coding_def committed_def by (cases r) auto
qed

lemma task_claimed_once_witness: "claims 11 db_opened db_coding \<and> \<not> claims 11 db_recovered db_second"
proof -
  have "exec_step\<^sup>*\<^sup>* db_coding db_coded"
    unfolding db_coded_def by (rule committed_step) (auto intro: step_coding_finish)
  moreover have "exec_step\<^sup>*\<^sup>* db_coded db_testing"
    unfolding db_testing_def by (rule committed_step) (auto intro: step_test_start)
  moreover have "exec_step\<^sup>*\<^sup>* db_testing db_tested"
    unfolding db_tested_def by (rule committed_step) (auto intro: step_test_finish)
  ultimately have "exec_step\<^sup>*\<^sup>* db_coding db_tested" by (meson rtranclp_trans)
  moreover have "exec_step\<^sup>*\<^sup>* db_tested db_recovered"
    unfolding db_recovered_def db_retested_def db_retesting_def db_debugged_def db_reserved_def db_debugging_def
    by (intro committed_step rtranclp.rtrancl_refl)
      (auto intro: step_claim_debug step_reserve_patch step_finish_debug step_test_start step_test_finish step_recovery_finish)
  ultimately have "exec_step\<^sup>*\<^sup>* db_coding db_recovered" by (meson rtranclp_trans)
  with task_claimed_once [OF example_no_executions reach_opened claimed_example] claimed_example show ?thesis by blast
qed

section \<open>What an executor is called for\<close>

text \<open>The claim an iteration makes: what the transition reports on the database as the other workers left it.\<close>

definition claim_won :: "'x environment \<Rightarrow> uuid \<Rightarrow> task_execution_response \<Rightarrow> 'x world \<Rightarrow> bool" where
  "claim_won env rid task w \<longleftrightarrow> ter_status task = ''queued'' \<and>
     (\<exists>d'. transition rid (ter_id task) ''running'' None (env_now env (w_tick w))
        (env_others env (w_tick w) (w_db w)) = Inr (d', True))"

lemma calls_transaction: "w_calls (snd (transaction env op w)) = w_calls w"
  by (simp add: transaction_def Let_def split: sum.split)

lemma calls_record: "w_calls (snd (record_execution env rid tid result w)) = w_calls w"
  using calls_transaction [of env]
  by (auto simp: record_execution_def task_moved_def seqM_def bindM_def raise_def
    split: executor_result.split prod.split sum.split) (metis snd_conv)+

text \<open>The executor is called for a task exactly when this worker's own transition from \<open>queued\<close> to
  \<open>running\<close> was committed and reported a change, and then once; whatever it does, the task is counted only
  when its outcome could be recorded.\<close>

theorem executor_called_on_claim:
  "case dispatch_task env execute rid task n w of (r, w') \<Rightarrow>
     w_calls w' = w_calls w @ (if claim_won env rid task w then [Execute_call (ter_id task)] else []) \<and>
     (case r of Inl e \<Rightarrow> True | Inr m \<Rightarrow> m = (if claim_won env rid task w then Suc n else n))"
proof (cases "ter_status task = ''queued''")
  case False
  then show ?thesis by (simp add: dispatch_task_def claim_won_def ret_def)
next
  case True
  obtain r w1 where m: "task_moved env rid (ter_id task) ''running'' None w = (r, w1)" by (metis surj_pair)
  have c1: "w_calls w1 = w_calls w" using calls_transaction m by (metis task_moved_def snd_conv)
  have won: "claim_won env rid task w \<longleftrightarrow> r = Inr True"
    using m True by (auto simp: claim_won_def task_moved_def transaction_def Let_def split: sum.splits)
  show ?thesis
  proof (cases "r = Inr True")
    case False
    with m c1 won True show ?thesis
      by (cases r) (auto simp: dispatch_task_def bindM_def ret_def)
  next
    case mine: True
    obtain x w2 where e: "execute_claimed env execute rid task w1 = (x, w2)" by (metis surj_pair)
    obtain y w3 where y: "run_executor execute task w1 = (Inr y, w3)" and "w_calls w3 = w_calls w1 @ [Execute_call (ter_id task)]"
      by (cases "execute task (w_ext w1)") (auto simp: run_executor_def external_def)
    with e calls_record [of env rid "ter_id task" y w3] have "w_calls w2 = w_calls w1 @ [Execute_call (ter_id task)]"
      by (simp add: execute_claimed_def bindM_def)
    with e m mine c1 won True show ?thesis
      by (cases x) (auto simp: dispatch_task_def bindM_def seqM_def ret_def)
  qed
qed

text \<open>A wave moves the database only along the record operations.\<close>

lemma dispatch_follows_records:
  assumes "others_step env"
  shows "keeps (reached_from d0) (dispatch_ready env execute rid)"
proof -
  have t: "keeps (reached_from d0) (task_moved env rid tid status summary)" for tid status summary
    unfolding task_moved_def using assms by (rule keeps_transaction) (blast intro: step_transition)
  have r: "keeps (reached_from d0) (transaction env (\<lambda>_. reconcile rid))"
    using assms by (rule keeps_transaction) (blast intro: step_reconcile)
  have x: "keeps (reached_from d0) (run_executor execute task)" for task
    unfolding run_executor_def by (rule keeps_external)
  have rec: "keeps (reached_from d0) (record_execution env rid tid result)" for tid result
    by (cases result) (auto simp: record_execution_def intro!: keeps_rules t)
  show ?thesis
    unfolding dispatch_ready_def dispatch_task_def execute_claimed_def
    by (intro keeps_rules t r x rec)
qed

end
