(* ===== verification/Workflow_Stages.thy ===== *)
theory Workflow_Stages
  imports Service_Properties Workspace_Properties Indexing Provider_Resources Repositories Retrieval Scanner Planner
    Plan_Service Executor
begin

text \<open>
  \<^verbatim>\<open>app/orchestration/workflow_stages.py\<close>: a claimed stage of a workflow, composed of the services. The
  identifiers of the plan and of the execution are derived from the workflow's, so that a stage that is
  run again after a crash finds what it has already created.
\<close>

section \<open>What the stages are built with\<close>

text \<open>
  The constructor's arguments, and the libraries behind them: what is on the disk, the tables and the distance of
  the retrievers, the parser and the hash of the chunker, \<open>uuid5\<close>. \<open>sg_fuel\<close> bounds the rounds of embedding.
\<close>

record 'x stages =
  sg_env :: "'x environment"
  sg_settings :: service_settings
  sg_workspace :: workspace_config
  sg_github :: "'x github"
  sg_lcase :: "string \<Rightarrow> string"
  sg_llm_base :: "string option"
  sg_embedding_model :: "string option"
  sg_planner :: "'x planner"
  sg_tree :: "path \<Rightarrow> 'x \<Rightarrow> node \<times> 'x"
  sg_lower :: "pystr \<Rightarrow> pystr"
  sg_parse :: "pystr \<Rightarrow> nat list list option"
  sg_sha :: "pystr \<Rightarrow> string"
  sg_embed :: "pystr list \<Rightarrow> 'x \<Rightarrow> (exc + json) \<times> 'x"
  sg_profile :: string
  sg_hypot :: "rat list \<Rightarrow> rat option"
  sg_fuel :: nat
  sg_lexicon :: lexicon
  sg_distance :: "rat list \<Rightarrow> rat list \<Rightarrow> rat"
  sg_identifier :: "uuid \<Rightarrow> string \<Rightarrow> uuid"
  sg_digest :: "evidence \<Rightarrow> string"
  sg_render :: "jval \<Rightarrow> string"
  sg_sandbox :: "sandbox_request \<Rightarrow> ('x world, sandbox_result) eff"

section \<open>The data of a claim\<close>

definition data_value :: "string \<Rightarrow> metadata \<Rightarrow> exc + jval" where
  "data_value k data = someE (ServiceFailure KeyError) (data k)"

definition data_id :: "string \<Rightarrow> metadata \<Rightarrow> exc + uuid" where
  "data_id k data = bindE (data_value k data) (\<lambda>v. case v of JId i \<Rightarrow> Inr i | _ \<Rightarrow> Inl ValueFailure)"

definition data_context :: "metadata \<Rightarrow> exc + issue_context" where
  "data_context data = bindE (data_value ''context'' data) (\<lambda>v. case v of JContext c \<Rightarrow> Inr c | _ \<Rightarrow> Inl ValueFailure)"

definition data_config :: "metadata \<Rightarrow> exc + repository_test_config" where
  "data_config data = bindE (data_value ''required_commands'' data) (\<lambda>v. case v of
     JStrs cs \<Rightarrow> if between 1 8 (length cs) then Inr \<lparr>required_commands = cs\<rparr> else Inl ValueFailure
   | _ \<Rightarrow> Inl ValueFailure)"

definition workflow_error :: "string \<Rightarrow> exc" where
  "workflow_error reason = ServiceFailure (WorkflowError reason)"

definition stage_data :: "(string \<times> jval) list \<Rightarrow> stage_result" where
  "stage_data kvs = \<lparr>sr_data = map_of kvs, sr_repeat = False\<rparr>"

section \<open>The stages\<close>

definition reads :: "'x environment \<Rightarrow> (db \<Rightarrow> service_error + 'a) \<Rightarrow> ('x world, 'a) eff" where
  "reads env f = transaction env (\<lambda>_ _ d. bindE (f d) (\<lambda>x. Inr (d, x)))"

text \<open>A session that draws identifiers; \<open>used\<close> bounds how many.\<close>

definition drawing ::
  "'x environment \<Rightarrow> (db \<Rightarrow> nat) \<Rightarrow> ((nat \<Rightarrow> uuid) \<Rightarrow> time \<Rightarrow> db \<Rightarrow> service_error + db \<times> 'a) \<Rightarrow> ('x world, 'a) eff" where
  "drawing env used op = (\<lambda>w.
     let d = env_others env (w_tick w) (w_db w); w1 = w\<lparr>w_db := d, w_tick := Suc (w_tick w)\<rparr>
     in case op (\<lambda>n. env_uuid env (w_tick w + n)) (env_now env (w_tick w)) d of
          Inl e \<Rightarrow> (Inl (ServiceFailure e), w1)
        | Inr (d', x) \<Rightarrow> (Inr x, w1\<lparr>w_db := d', w_tick := Suc (w_tick w + used d)\<rparr>))"

definition check_revision :: "'x stages \<Rightarrow> metadata \<Rightarrow> string \<Rightarrow> ('x world, unit) eff" where
  "check_revision sg data commit =
     bindM (liftE (data_value ''source_commit'' data)) (\<lambda>v.
     ensure (workflow_error ''workflow_repository_revision_changed'') (v = JStr commit))"

definition verify_revision :: "'x stages \<Rightarrow> uuid \<Rightarrow> metadata \<Rightarrow> ('x world, unit) eff" where
  "verify_revision sg repository data =
     locked_repository (sg_env sg) (sg_workspace sg) repository (\<lambda>home.
       bindM (verify_checkout (sg_env sg) (sg_workspace sg) home) (check_revision sg data))"

definition stage_repository :: "'x stages \<Rightarrow> stage_claim \<Rightarrow> ('x world, stage_result) eff" where
  "stage_repository sg claim =
     bindM (register_repository (sg_env sg) (sg_github sg) (sg_lcase sg)
              (wr_github_owner (wc_request claim)) (wr_github_name (wc_request claim))) (\<lambda>r.
     ret (stage_data [(''repository_id'', JId (repo_id r))]))"

definition stage_sync :: "'x stages \<Rightarrow> uuid \<Rightarrow> ('x world, stage_result) eff" where
  "stage_sync sg repository =
     bindM (prepare_registered_repository (sg_env sg) (sg_workspace sg) repository) (\<lambda>(_, commit).
     ret (stage_data [(''source_commit'', JStr commit)]))"

definition scan_files :: "'x stages \<Rightarrow> scanner \<Rightarrow> path \<Rightarrow> ('x world, source_file list) eff" where
  "scan_files sg sc home = (\<lambda>w.
     case sg_tree sg home (w_ext w) of (n, x) \<Rightarrow> (scan_root sc (map pytext home) n, w\<lparr>w_ext := x\<rparr>))"

definition stage_indexing :: "'x stages \<Rightarrow> uuid \<Rightarrow> metadata \<Rightarrow> ('x world, stage_result) eff" where
  "stage_indexing sg repository data =
     bindM (liftE (new_scanner (sg_lower sg) (lx_word (sg_lexicon sg)) (ss_index_max_file_bytes (sg_settings sg))
              (ss_index_chunk_max_chars (sg_settings sg)))) (\<lambda>sc.
     bindM (index_source (sg_env sg) (sg_workspace sg) (scan_files sg sc)
        \<lparr>cut_parse = sg_parse sg, cut_sha = sg_sha sg, cut_max_lines = ss_index_chunk_max_lines (sg_settings sg),
         cut_max_chars = ss_index_chunk_max_chars (sg_settings sg)\<rparr> repository) (\<lambda>report.
     seqM (check_revision sg data (ixr_commit report)) (ret (stage_data []))))"

definition use_embeddings :: "'x stages \<Rightarrow> ('x world, unit) eff" where
  "use_embeddings sg = liftE (open_embeddings (env_url_rules (sg_env sg)) (sg_llm_base sg) (sg_embedding_model sg) (sg_settings sg))"

definition use_llm :: "'x stages \<Rightarrow> ('x world, unit) eff" where
  "use_llm sg = liftE (open_llm (env_url_rules (sg_env sg)) (sg_llm_base sg) (sg_settings sg))"

definition stage_embed :: "'x stages \<Rightarrow> uuid \<Rightarrow> ('x world, stage_result) eff" where
  "stage_embed sg repository =
     seqM (use_embeddings sg)
     (seqM (embedding_generate (sg_env sg) (sg_workspace sg) (sg_embed sg)
        \<lparr>emb_profile = sg_profile sg, emb_batch_size = nat (ss_embedding_batch_size (sg_settings sg)),
         emb_hypot = sg_hypot sg\<rparr> (sg_fuel sg) repository)
       (ret (stage_data [])))"

definition stage_issue :: "'x stages \<Rightarrow> uuid \<Rightarrow> stage_claim \<Rightarrow> ('x world, stage_result) eff" where
  "stage_issue sg repository claim =
     bindM (import_issue (sg_env sg) (sg_github sg) repository (wr_issue_number (wc_request claim))) (\<lambda>i.
     ret (stage_data [(''issue_id'', JId (iss_id i))]))"

text \<open>\<open>HybridRetrievalService\<close> with its default configuration.\<close>

definition vector_index_of :: "'x stages \<Rightarrow> vector_index" where
  "vector_index_of sg = \<lparr>vx_profile = sg_profile sg, vx_hypot = sg_hypot sg, vx_distance = sg_distance sg\<rparr>"

definition hybrid :: "'x stages \<Rightarrow> uuid \<Rightarrow> string \<Rightarrow> nat \<Rightarrow> ('x world, ranked_hit list) eff" where
  "hybrid sg repository query top_k =
     seqM (ensure ValueFailure (valid_search query (int top_k)))
     (let depth = max 50 (int top_k) in
      bindM (bm25_search (sg_env sg) (sg_lexicon sg) repository query depth) (\<lambda>lexical_hits.
      bindM (vector_search (sg_env sg) (sg_embed sg) (vector_index_of sg) repository query depth) (\<lambda>semantic_hits.
      bindM (liftE (hybrid_search (\<lambda>_ _ _. Inr lexical_hits) (\<lambda>_ _ _. Inr (map search_result.truncate semantic_hits))
               50 60 repository query (int top_k))) (\<lambda>hits.
      ret (map Hybrid_hit hits)))))"

definition stage_context :: "'x stages \<Rightarrow> uuid \<Rightarrow> ('x world, stage_result) eff" where
  "stage_context sg issue =
     seqM (use_embeddings sg)
     (bindM (build_context (sg_env sg) (hybrid sg) (sg_settings sg) issue) (\<lambda>context.
      ret (stage_data [(''context'', JContext context)])))"

definition stage_plan :: "'x stages \<Rightarrow> stage_claim \<Rightarrow> uuid \<Rightarrow> issue_context \<Rightarrow> ('x world, stage_result) eff" where
  "stage_plan sg claim issue context =
     (let identifier = sg_identifier sg (wc_id claim) ''plan'' in
      bindM (reads (sg_env sg) (\<lambda>d. Inr (fetch plan_id identifier (db_plans d)))) (\<lambda>existing.
      seqM (if existing \<noteq> None then ret ()
            else seqM (use_llm sg)
              (bindM (liftE (planner_retries (ss_planner_validation_retries (sg_settings sg)))) (\<lambda>retries.
               bindM (propose_plan (sg_planner sg\<lparr>pl_retries := retries\<rparr>) context) (\<lambda>proposal.
               bindM (drawing (sg_env sg) (\<lambda>_. Suc (length (plan_tasks proposal)))
                  (\<lambda>fresh _. plan_create (Some identifier) fresh issue proposal)) (\<lambda>_. ret ())))))
        (ret (stage_data [(''plan_id'', JId identifier)]))))"

definition stage_execution :: "'x stages \<Rightarrow> stage_claim \<Rightarrow> metadata \<Rightarrow> ('x world, stage_result) eff" where
  "stage_execution sg claim data =
     (let identifier = sg_identifier sg (wc_id claim) ''execution'' in
      bindM (reads (sg_env sg) (\<lambda>d. Inr (find_run identifier d))) (\<lambda>existing.
      seqM (if existing \<noteq> None then ret ()
            else bindM (liftE (data_id ''plan_id'' data)) (\<lambda>plan.
                 bindM (drawing (sg_env sg) (\<lambda>d. Suc (length (plan_rows plan d))) (create plan (Some identifier))) (\<lambda>_. ret ())))
        (ret (stage_data [(''execution_id'', JId identifier)]))))"

definition stage_workspace :: "'x stages \<Rightarrow> uuid \<Rightarrow> uuid \<Rightarrow> metadata \<Rightarrow> ('x world, stage_result) eff" where
  "stage_workspace sg repository rid data =
     (let env = sg_env sg; path = execution_workspace env (sg_settings sg) repository rid in
      bindM (path_exists env path) (\<lambda>present.
      bindM (if present
             then bindM (verify_checkout env (sg_workspace sg) path) (\<lambda>commit.
                  seqM (scoped () (locked env (sg_settings sg) path (\<lambda>safe. on_world (bindM (status env safe) (\<lambda>s.
                            ensure (workflow_error ''workflow_workspace_not_clean'') (s = ''clean''))))) (\<lambda>_ e. raise e))
                    (ret commit))
             else bindM (create_execution_workspace env (sg_workspace sg) repository rid) (\<lambda>(_, commit). ret commit)) (\<lambda>commit.
      seqM (check_revision sg data commit) (ret (stage_data [])))))"

definition stage_implement :: "'x stages \<Rightarrow> uuid \<Rightarrow> issue_context \<Rightarrow> repository_test_config \<Rightarrow> ('x world, stage_result) eff" where
  "stage_implement sg rid context config =
     bindM (transaction (sg_env sg) (\<lambda>_. reconcile rid)) (\<lambda>execution.
     if er_status execution = ''completed'' then ret (stage_data [])
     else seqM (ensure (workflow_error ''workflow_execution_requires_inspection'')
                  (er_status execution \<noteq> ''failed'' \<and> (\<forall>t \<in> set (er_tasks execution). ter_status t \<noteq> ''running'')))
          (case List.find (\<lambda>t. ter_status t = ''queued'') (er_tasks execution) of
             None \<Rightarrow> raise (workflow_error ''workflow_no_ready_task'')
           | Some ready \<Rightarrow>
               seqM (use_llm sg)
               (bindM (recovery_run (sg_env sg) (sg_settings sg) (sg_render sg) (sg_sandbox sg) rid (ter_id ready) context config) (\<lambda>report.
                seqM (ensure (workflow_error ''workflow_tests_failed'') (rcr_passed report))
                  (ret \<lparr>sr_data = Map.empty, sr_repeat = True\<rparr>)))))"

text \<open>A completed review is reused, after a crash between the review and the checkpoint of the workflow.\<close>

definition earlier_decision :: "uuid \<Rightarrow> db \<Rightarrow> exc + review_decision option" where
  "earlier_decision rid d = (case latest_review rid d of
     None \<Rightarrow> Inr None
   | Some review \<Rightarrow> if ar_status review \<noteq> ''completed'' then Inr None
       else (case stored_decision review of None \<Rightarrow> Inl ValueFailure | Some decision \<Rightarrow> Inr (Some decision)))"

definition stage_review :: "'x stages \<Rightarrow> uuid \<Rightarrow> issue_context \<Rightarrow> repository_test_config \<Rightarrow> ('x world, stage_result) eff" where
  "stage_review sg rid context config =
     bindM (session (sg_env sg) (\<lambda>d. bindE (earlier_decision rid d) (\<lambda>x. Inr (d, x)))) (\<lambda>earlier.
     bindM (case earlier of
              Some decision \<Rightarrow> ret decision
            | None \<Rightarrow> seqM (use_llm sg) (review_run (sg_env sg) (sg_settings sg) (sg_digest sg) rid context config)) (\<lambda>decision.
     seqM (ensure (workflow_error ''workflow_review_rejected'') (rd_approved decision))
     (seqM (reads (sg_env sg) (publication_check (sg_digest sg) rid context config))
       (ret (stage_data [])))))"

definition stage_publish :: "'x stages \<Rightarrow> uuid \<Rightarrow> issue_context \<Rightarrow> repository_test_config \<Rightarrow> ('x world, stage_result) eff" where
  "stage_publish sg rid context config =
     bindM (publication_run (sg_env sg) (sg_settings sg) (sg_digest sg) rid context config) (\<lambda>published.
     ret (stage_data [(''pull_request_url'', JStr (ppr_html_url published))]))"

text \<open>\<open>run\<close>: the data an early stage does not need yet is not read.\<close>

definition late_stage :: "'x stages \<Rightarrow> stage \<Rightarrow> uuid \<Rightarrow> issue_context \<Rightarrow> metadata \<Rightarrow> ('x world, stage_result) eff" where
  "late_stage sg s rid context data =
     bindM (liftE (data_config data)) (\<lambda>config.
     case s of
       Implement \<Rightarrow> stage_implement sg rid context config
     | Review \<Rightarrow> stage_review sg rid context config
     | Publish \<Rightarrow> stage_publish sg rid context config
     | _ \<Rightarrow> raise (workflow_error ''workflow_unknown_stage''))"

definition issue_stage :: "'x stages \<Rightarrow> stage_claim \<Rightarrow> uuid \<Rightarrow> uuid \<Rightarrow> ('x world, stage_result) eff" where
  "issue_stage sg claim repository issue =
     (let data = wc_data claim; s = wc_stage claim in
      if s = Context then stage_context sg issue
      else bindM (liftE (data_context data)) (\<lambda>context.
        if s = Plan then stage_plan sg claim issue context
        else if s = Execution then stage_execution sg claim data
        else bindM (liftE (data_id ''execution_id'' data)) (\<lambda>rid.
          if s = Workspace then stage_workspace sg repository rid data
          else late_stage sg s rid context data)))"

definition run_stage :: "'x stages \<Rightarrow> stage_claim \<Rightarrow> ('x world, stage_result) eff" where
  "run_stage sg claim =
     (let data = wc_data claim; s = wc_stage claim in
      if s = Repository then stage_repository sg claim
      else bindM (liftE (data_id ''repository_id'' data)) (\<lambda>repository.
        if s = Sync then stage_sync sg repository
        else seqM (if s \<in> {Index, Embed, Context, Workspace} then verify_revision sg repository data else ret ())
          (if s = Index then stage_indexing sg repository data
           else if s = Embed then stage_embed sg repository
           else if s = Issue then stage_issue sg repository claim
           else bindM (liftE (data_id ''issue_id'' data)) (issue_stage sg claim repository))))"

section \<open>The database under a stage\<close>

definition untouched :: "db \<Rightarrow> db \<Rightarrow> bool" where
  "untouched d d' \<longleftrightarrow> db_runs d' = db_runs d \<and> db_task_executions d' = db_task_executions d \<and>
     db_agent_runs d' = db_agent_runs d \<and> db_pull_requests d' = db_pull_requests d"

lemma untouched_step: "untouched d d' \<Longrightarrow> exec_step d d'"
  by (auto simp: untouched_def intro: step_other)

lemma untouched_refl [simp]: "untouched d d"
  by (simp add: untouched_def)

lemma reached_now:
  "others_step env \<Longrightarrow> reached_from d0 w \<Longrightarrow> exec_step\<^sup>*\<^sup>* d0 (env_others env (w_tick w) (w_db w))"
  unfolding reached_from_def others_step_def by (meson rtranclp_trans)

lemma session_steps:
  assumes "others_step env" and "\<And>d d' x. op d = Inr (d', x) \<Longrightarrow> exec_step d d'"
  shows "keeps (reached_from d0) (session env op)"
proof (rule keepsI)
  fix w :: "'a world" assume "reached_from d0 w"
  from reached_now [OF assms(1) this] show "reached_from d0 (snd (session env op w))"
    by (auto simp: session_def Let_def reached_from_def split: sum.split dest!: assms(2) intro: rtranclp.rtrancl_into_rtrancl)
qed

lemma drawing_steps:
  assumes "others_step env" and "\<And>fresh now d d' x. op fresh now d = Inr (d', x) \<Longrightarrow> exec_step d d'"
  shows "keeps (reached_from d0) (drawing env used op)"
proof (rule keepsI)
  fix w :: "'a world" assume "reached_from d0 w"
  from reached_now [OF assms(1) this] show "reached_from d0 (snd (drawing env used op w))"
    by (auto simp: drawing_def Let_def reached_from_def split: sum.split dest!: assms(2) intro: rtranclp.rtrancl_into_rtrancl)
qed

lemma inserting_steps:
  assumes "others_step env" and "\<And>fresh d d' n. op fresh d = Inr (d', n) \<Longrightarrow> exec_step d d'"
  shows "keeps (reached_from d0) (inserting env op)"
proof (rule keepsI)
  fix w :: "'a world" assume "reached_from d0 w"
  from reached_now [OF assms(1) this] show "reached_from d0 (snd (inserting env op w))"
    by (auto simp: inserting_def Let_def reached_from_def split: sum.split dest!: assms(2) intro: rtranclp.rtrancl_into_rtrancl)
qed

lemma transaction_steps:
  assumes "others_step env" and "\<And>i t d d' x. op i t d = Inr (d', x) \<Longrightarrow> exec_step d d'"
  shows "keeps (reached_from d0) (transaction env op)"
  using assms(1) by (rule keeps_transaction) (simp add: assms(2))

lemma reads_steps: "others_step env \<Longrightarrow> keeps (reached_from d0) (reads env f)"
  unfolding reads_def by (erule transaction_steps) (auto intro: untouched_step)

text \<open>The transactions of the services around the executions leave their tables alone.\<close>

lemma catalog_untouched:
  "register lcase i data d = Inr (d', r) \<Longrightarrow> untouched d d'"
  "store_issue i repository number idata d = Inr (d', ir) \<Longrightarrow> untouched d d'"
  "reading f x i now d = Inr (d', y) \<Longrightarrow> untouched d d'"
  by (auto simp: register_def store_issue_def reading_def untouched_def split: prod.splits if_splits)

lemma index_untouched:
  "index_persist repository chunks fresh d = Inr (d', n) \<Longrightarrow> untouched d d'"
  "bindE (index_progress repository progress d) (\<lambda>d'. Inr (d', ())) = Inr (d', u) \<Longrightarrow> untouched d d'"
  "bindE (set_sync_status repository progress d) (\<lambda>d'. Inr (d', ())) = Inr (d', u) \<Longrightarrow> untouched d d'"
  by (auto simp: index_persist_def index_progress_def set_sync_status_def untouched_def Let_def
    split: option.splits prod.splits if_splits)

lemma store_vectors_untouched: "foldE (store_vector profile) items d = Inr d' \<Longrightarrow> untouched d d'"
  by (induction items arbitrary: d)
    (auto simp: untouched_def store_vector_def Let_def split: prod.splits if_splits)

lemma embedding_untouched:
  "bindE (embedding_begin repository d) (\<lambda>d'. Inr (d', ())) = Inr (d', u) \<Longrightarrow> untouched d d'"
  "untouched d (fst (claim_batch repository profile n d))"
  "untouched d (mark_embedding repository progress d)"
  "untouched d (mark_embedding repository progress (mark_chunks ids progress d))"
  by (auto simp: embedding_begin_def claim_batch_def mark_embedding_def mark_chunks_def untouched_def Let_def
    split: option.splits if_splits)

lemma plan_untouched: "plan_create identifier fresh issue proposal d = Inr (d', pid) \<Longrightarrow> untouched d d'"
  by (erule plan_create_Inr) (simp add: untouched_def)

section \<open>The services\<close>

lemma lock_reached [keeps_rules]: "keeps (reached_from d0) (lock_repository p)"
  by (auto simp: keeps_iff lock_repository_def reached_from_def split: if_splits)

lemma checkout_reached [keeps_rules]:
  "keeps (reached_from d0) (verify_checkout env wc p)" "keeps (reached_from d0) (reset_checkout env wc p revision)"
  "keeps (reached_from d0) (initialize env wc)"
  unfolding verify_checkout_def reset_checkout_def initialize_def by (intro keeps_rules)+

lemma with_lock_reached: "keeps (reached_from d0) body \<Longrightarrow> keeps (reached_from d0) (with_lock env wc repository body)"
  unfolding with_lock_def by (intro keeps_rules)

lemma locked_repository_reached:
  "(\<And>home. keeps (reached_from d0) (body home)) \<Longrightarrow> keeps (reached_from d0) (locked_repository env wc repository body)"
  unfolding locked_repository_def by (intro with_lock_reached keeps_rules)

lemma keeps_sum [keeps_rules]:
  "(\<And>e. keeps I (f e)) \<Longrightarrow> (\<And>x. keeps I (g x)) \<Longrightarrow> keeps I (case r of Inl e \<Rightarrow> f e | Inr x \<Rightarrow> g x)"
  by (cases r) auto

lemmas steps_rules = session_steps drawing_steps inserting_steps transaction_steps reads_steps
  with_lock_reached locked_repository_reached

lemma catalog_reached:
  assumes "others_step env"
  shows "keeps (reached_from d0) (register_repository env gh lcase owner repo)"
    and "keeps (reached_from d0) (import_issue env gh repository number)"
  unfolding register_repository_def import_issue_def
  by (intro keeps_rules transaction_steps [OF assms]; blast intro: untouched_step dest: catalog_untouched)+

lemma sync_reached:
  assumes "others_step env"
  shows "keeps (reached_from d0) (prepare_registered_repository env wc repository)"
proof -
  have s: "keeps (reached_from d0) (session env (\<lambda>d. bindE (set_sync_status repository progress d) (\<lambda>d'. Inr (d', ()))))" for progress
    by (rule session_steps [OF assms]) (blast intro: untouched_step dest: index_untouched(3))
  have r: "keeps (reached_from d0) (session env (\<lambda>d. bindE (registered_source repository d) (\<lambda>s. Inr (d, s))))"
    by (rule session_steps [OF assms]) (auto intro: untouched_step)
  show ?thesis
    unfolding prepare_registered_repository_def prepare_workspace_def prepare_body_def fetch_checkout_def
      clone_checkout_def case_prod_unfold Let_def
    by (intro keeps_rules with_lock_reached s r)
qed

lemma cut_sources_keeps [keeps_rules]: "keeps I (cut_sources limits sources)"
  unfolding cut_sources_def cut_source_def by (intro keeps_rules)

lemma index_reached:
  assumes "others_step env" and "\<And>home. keeps (reached_from d0) (scan home)"
  shows "keeps (reached_from d0) (index_source env wc scan limits repository)"
proof -
  have s: "keeps (reached_from d0) (session env (\<lambda>d. bindE (index_progress repository progress d) (\<lambda>d'. Inr (d', ()))))" for progress
    by (rule session_steps [OF assms(1)]) (blast intro: untouched_step dest: index_untouched(2))
  have p: "keeps (reached_from d0) (inserting env (index_persist repository chunks))" for chunks
    by (rule inserting_steps [OF assms(1)]) (blast intro: untouched_step dest: index_untouched(1))
  show ?thesis
    unfolding index_source_def index_locked_def index_body_def
    by (intro keeps_rules locked_repository_reached assms(2) s p)
qed

lemma embed_rounds_keeps: "keeps I one \<Longrightarrow> keeps I (embed_rounds one fuel completed)"
  by (induction fuel arbitrary: completed) (auto intro!: keeps_rules)

lemma embedding_reached:
  assumes "others_step env"
  shows "keeps (reached_from d0) (embedding_generate env wc ask em fuel repository)"
proof -
  have b: "keeps (reached_from d0) (session env (\<lambda>d. bindE (embedding_begin repository d) (\<lambda>d'. Inr (d', ()))))"
    by (rule session_steps [OF assms]) (blast intro: untouched_step dest: embedding_untouched(1))
  have c: "keeps (reached_from d0) (session env (\<lambda>d. Inr (claim_batch repository (emb_profile em) (emb_batch_size em) d)))"
    using embedding_untouched(2) by (intro session_steps [OF assms] untouched_step) (metis fst_conv sum.inject(2))
  have v: "keeps (reached_from d0) (session env (\<lambda>d. bindE (foldE (store_vector (emb_profile em)) items d) (\<lambda>d'. Inr (d', ()))))" for items
    by (rule session_steps [OF assms]) (auto intro!: untouched_step dest: store_vectors_untouched)
  have m: "keeps (reached_from d0) (session env (\<lambda>d. Inr (mark_embedding repository progress d, ())))"
    "keeps (reached_from d0) (session env (\<lambda>d. Inr (mark_embedding repository progress (mark_chunks ids progress d), ())))" for progress ids
    by (rule session_steps [OF assms]; use embedding_untouched in \<open>auto intro!: untouched_step\<close>)+
  show ?thesis
    unfolding embedding_generate_def embedding_locked_def embedding_failure_def embed_round_def embed_texts_def
    by (intro keeps_rules locked_repository_reached embed_rounds_keeps b c v m)
qed

lemma hybrid_reached:
  assumes "others_step (sg_env sg)"
  shows "keeps (reached_from d0) (hybrid sg repository query top_k)"
proof -
  have r: "keeps (reached_from d0) (session (sg_env sg) (\<lambda>d. bindE (f d) (\<lambda>x. Inr (d, x))))" for f :: "db \<Rightarrow> exc + 'b"
    by (rule session_steps [OF assms]) (auto intro: untouched_step)
  have s: "keeps (reached_from d0) (session (sg_env sg) (\<lambda>d. Inr (d, f d)))" for f :: "db \<Rightarrow> 'b"
    by (rule session_steps [OF assms]) (auto intro: untouched_step)
  show ?thesis
    unfolding hybrid_def bm25_search_def vector_search_def embed_texts_def Let_def by (intro keeps_rules r s)
qed

lemma context_reached:
  assumes "others_step env" and "\<And>repository query n. keeps (reached_from d0) (search repository query n)"
  shows "keeps (reached_from d0) (build_context env search st issue)"
proof -
  have t: "keeps (reached_from d0) (transaction env (\<lambda>_ _ d. bindE (load_seed issue n d) (\<lambda>s. Inr (d, s))))" for n
    by (rule transaction_steps [OF assms(1)]) (auto intro: untouched_step)
  have s: "keeps (reached_from d0) (session env (\<lambda>d. Inr (d, f d)))" for f :: "db \<Rightarrow> 'b"
    by (rule session_steps [OF assms(1)]) (auto intro: untouched_step)
  show ?thesis
    unfolding build_context_def search_evidence_def load_chunks_def assemble_def include_neighbors_def neighbors_def Let_def
    by (intro keeps_rules t s assms(2))
qed

lemma planning_reached: "keeps (reached_from d0) (propose_plan pl context)"
proof -
  have "keeps (reached_from d0) (planner_attempts pl messages retry n)" for messages retry n
  proof (induction n arbitrary: retry)
    case 0
    show ?case
      by (subst planner_attempts.simps)
        (auto simp: planner_attempt_def planner_feedback_def intro!: keeps_rules split: exc.split)
  next
    case (Suc n)
    then show ?case
      by (subst planner_attempts.simps)
        (auto simp: planner_attempt_def planner_feedback_def intro!: keeps_rules split: exc.split)
  qed
  then show ?thesis by (simp add: propose_plan_def)
qed

lemma workspace_reached:
  "keeps (reached_from d0) (create_execution_workspace env wc repository rid)"
  unfolding create_execution_workspace_def by (intro keeps_rules with_lock_reached)

section \<open>Every stage\<close>

lemma stage_parts_reached:
  assumes "others_step (sg_env sg)"
  shows "keeps (reached_from d0) (check_revision sg data commit)"
    and "keeps (reached_from d0) (verify_revision sg repository data)"
    and "keeps (reached_from d0) (stage_repository sg claim)"
    and "keeps (reached_from d0) (stage_sync sg repository)"
    and "keeps (reached_from d0) (stage_indexing sg repository data)"
    and "keeps (reached_from d0) (stage_embed sg repository)"
    and "keeps (reached_from d0) (stage_issue sg repository claim)"
    and "keeps (reached_from d0) (stage_context sg issue)"
proof -
  have scan: "keeps (reached_from d0) (scan_files sg sc home)" for sc home
    by (rule keepsI) (simp add: scan_files_def reached_from_def split: prod.split)
  have check: "keeps (reached_from d0) (check_revision sg data commit)" for data commit
    unfolding check_revision_def by (intro keeps_rules)
  then show "keeps (reached_from d0) (check_revision sg data commit)" .
  show "keeps (reached_from d0) (verify_revision sg repository data)"
    unfolding verify_revision_def by (intro locked_repository_reached keeps_rules check)
  show "keeps (reached_from d0) (stage_repository sg claim)" "keeps (reached_from d0) (stage_issue sg repository claim)"
    unfolding stage_repository_def stage_issue_def by (intro keeps_rules catalog_reached assms)+
  show "keeps (reached_from d0) (stage_sync sg repository)"
    unfolding stage_sync_def case_prod_unfold by (intro keeps_rules sync_reached assms)
  show "keeps (reached_from d0) (stage_indexing sg repository data)"
    unfolding stage_indexing_def by (intro keeps_rules index_reached scan check assms)
  show "keeps (reached_from d0) (stage_embed sg repository)" "keeps (reached_from d0) (stage_context sg issue)"
    unfolding stage_embed_def stage_context_def use_embeddings_def
    by (intro keeps_rules embedding_reached context_reached hybrid_reached assms)+
qed

lemma stage_plan_reached:
  assumes "others_step (sg_env sg)"
  shows "keeps (reached_from d0) (stage_plan sg claim issue context)"
    and "keeps (reached_from d0) (stage_execution sg claim data)"
proof -
  have p: "keeps (reached_from d0) (drawing (sg_env sg) used (\<lambda>fresh _. plan_create i fresh issue proposal))"
    for used and i :: "uuid option" and proposal
    by (rule drawing_steps [OF assms]) (blast intro: untouched_step dest: plan_untouched)
  have c: "keeps (reached_from d0) (drawing (sg_env sg) used (create p i))" for used p i
    by (rule drawing_steps [OF assms]) (blast intro: step_create)
  show "keeps (reached_from d0) (stage_plan sg claim issue context)"
    unfolding stage_plan_def use_llm_def Let_def by (intro keeps_rules reads_steps planning_reached p assms)
  show "keeps (reached_from d0) (stage_execution sg claim data)"
    unfolding stage_execution_def Let_def by (intro keeps_rules reads_steps c assms)
qed

lemma stage_work_reached:
  assumes "others_step (sg_env sg)" and "sg_sandbox sg = docker_execute (sg_env sg) (sg_settings sg)"
  shows "keeps (reached_from d0) (stage_workspace sg repository rid data)"
    and "keeps (reached_from d0) (stage_implement sg rid context config)"
    and "keeps (reached_from d0) (stage_review sg rid context config)"
    and "keeps (reached_from d0) (stage_publish sg rid context config)"
proof -
  have r: "keeps (reached_from d0) (transaction (sg_env sg) (\<lambda>_. reconcile rid))"
    by (rule transaction_steps [OF assms(1)]) (blast intro: step_reconcile)
  have e: "keeps (reached_from d0) (session (sg_env sg) (\<lambda>d. bindE (earlier_decision rid d) (\<lambda>x. Inr (d, x))))"
    by (rule session_steps [OF assms(1)]) (auto intro: untouched_step)
  show "keeps (reached_from d0) (stage_workspace sg repository rid data)"
    unfolding stage_workspace_def status_def case_prod_unfold Let_def
    by (intro keeps_rules workspace_reached reading_db.quiet_rules stage_parts_reached(1) assms(1))
  show "keeps (reached_from d0) (stage_implement sg rid context config)"
    unfolding stage_implement_def use_llm_def assms(2)
    by (intro keeps_rules r docker.recovery_run_db assms(1))
  show "keeps (reached_from d0) (stage_review sg rid context config)"
    unfolding stage_review_def use_llm_def by (intro keeps_rules e review_run_db reads_steps assms(1))
  show "keeps (reached_from d0) (stage_publish sg rid context config)"
    unfolding stage_publish_def by (intro keeps_rules publication_run_db assms(1))
qed

lemma run_stage_reached:
  assumes "others_step (sg_env sg)" and "sg_sandbox sg = docker_execute (sg_env sg) (sg_settings sg)"
  shows "keeps (reached_from d0) (run_stage sg claim)"
proof -
  have late: "keeps (reached_from d0) (late_stage sg s rid ctx data)" for s rid ctx data
    unfolding late_stage_def by (cases s) (auto intro!: keeps_rules stage_work_reached assms)
  have "keeps (reached_from d0) (issue_stage sg claim repository issue)" for repository issue
    unfolding issue_stage_def Let_def
    by (intro keeps_rules stage_parts_reached stage_plan_reached stage_work_reached late assms)
  then show ?thesis
    unfolding run_stage_def Let_def by (intro keeps_rules stage_parts_reached assms(1))
qed

section \<open>The platform under a workflow\<close>

definition example_planner :: "nat planner" where
  "example_planner = \<lparr>pl_generate = (\<lambda>_ n. (Inr two_task_plan, n)), pl_retries = 0, pl_prompt = ''p'',
     pl_context_json = (\<lambda>_. ''c''), pl_field_errors = (\<lambda>_. [])\<rparr>"

definition example_stages :: "nat stages" where
  "example_stages =
     \<lparr>sg_env = example_environment,
      sg_settings = example_settings\<lparr>ss_llm_api_key := Some ''k'', ss_llm_model := Some ''m''\<rparr>,
      sg_workspace = \<lparr>wc_root = example_root, wc_github_host = ''github.com'', wc_token = None, wc_allow_local = False\<rparr>,
      sg_github = sample_github, sg_lcase = ascii_lower, sg_llm_base = None, sg_embedding_model = None,
      sg_planner = example_planner, sg_tree = (\<lambda>_ n. (Folder False (Some []), n)), sg_lower = map lower_ascii, sg_parse = (\<lambda>_. None), sg_sha = (\<lambda>_. ''h''),
      sg_embed = sample_provider, sg_profile = ''p'', sg_hypot = (\<lambda>_. Some 1), sg_fuel = 3,
      sg_lexicon = sample_lexicon, sg_distance = (\<lambda>_ _. 1),
      sg_identifier = (\<lambda>i name. 1000 * i + length name), sg_digest = example_digest, sg_render = (\<lambda>_. []),
      sg_sandbox = docker_execute example_environment
        (example_settings\<lparr>ss_llm_api_key := Some ''k'', ss_llm_model := Some ''m''\<rparr>)\<rparr>"

definition example_claim :: "stage \<Rightarrow> stage_claim" where
  "example_claim s =
     \<lparr>wc_id = 9, wc_token = 8, wc_stage = s,
      wc_request = \<lparr>wr_request_id = 7, wr_github_owner = ''o'', wr_github_name = ''n'', wr_issue_number = 7,
        wr_publish_pull_request = False\<rparr>,
      wc_data = [''repository_id'' \<mapsto> JId 1, ''issue_id'' \<mapsto> JId 2, ''context'' \<mapsto> JContext example_context]\<rparr>"

section \<open>A stage that is run again\<close>

definition rows_kept :: "'x environment \<Rightarrow> bool" where
  "rows_kept env \<longleftrightarrow> (\<forall>n d. plan_id ` set (db_plans d) \<subseteq> plan_id ` set (db_plans (env_others env n d)) \<and>
     run_id ` set (db_runs d) \<subseteq> run_id ` set (db_runs (env_others env n d)))"

text \<open>A later world in which no plan and no run was deleted.\<close>

definition rows_last :: "'x world \<Rightarrow> 'x world \<Rightarrow> bool" where
  "rows_last w w2 \<longleftrightarrow> plan_id ` set (db_plans (w_db w)) \<subseteq> plan_id ` set (db_plans (w_db w2)) \<and>
     run_id ` set (db_runs (w_db w)) \<subseteq> run_id ` set (db_runs (w_db w2))"

text \<open>A stage that only read the database: what the others did meanwhile is all that changed.\<close>

definition only_read :: "'x stages \<Rightarrow> 'x world \<Rightarrow> 'x world" where
  "only_read sg w = w\<lparr>w_db := env_others (sg_env sg) (w_tick w) (w_db w), w_tick := Suc (w_tick w)\<rparr>"

lemma reads_run:
  "reads env f w =
     (let d = env_others env (w_tick w) (w_db w); w1 = w\<lparr>w_db := d, w_tick := Suc (w_tick w)\<rparr>
      in case f d of Inl e \<Rightarrow> (Inl (ServiceFailure e), w1) | Inr x \<Rightarrow> (Inr x, w1))"
  by (auto simp: reads_def transaction_def Let_def split: sum.split)

lemma drawing_Inr:
  "drawing env used op w = (Inr x, w') \<Longrightarrow> \<exists>fresh now d. op fresh now d = Inr (w_db w', x)"
  by (fastforce simp: drawing_def Let_def split: sum.splits)

lemma fetched_key: "fetch key i rows = Some r \<Longrightarrow> i \<in> key ` set rows"
  using fetch_SomeD by force

lemma plan_stage_creates:
  assumes "stage_plan sg claim issue ctx w = (Inr r, w')"
  shows "r = stage_data [(''plan_id'', JId (sg_identifier sg (wc_id claim) ''plan''))]"
    and "sg_identifier sg (wc_id claim) ''plan'' \<in> plan_id ` set (db_plans (w_db w'))"
proof -
  let ?i = "sg_identifier sg (wc_id claim) ''plan''"
  from assms show "r = stage_data [(''plan_id'', JId ?i)]"
    unfolding stage_plan_def Let_def by (auto simp: runs_Inr)
  have created: "?i \<in> plan_id ` set (db_plans d')" if c: "plan_create (Some ?i) fresh issue p d = Inr (d', x)" for fresh p d d' x
  proof -
    obtain v where "validate_plan p = Inr v" using c by (rule plan_create_Inr)
    with c have "x = ?i" by (cases "plan_order v") (auto simp: plan_create_def Let_def split: sum.splits)
    with c show ?thesis by (elim plan_create_Inr) simp
  qed
  from assms show "?i \<in> plan_id ` set (db_plans (w_db w'))"
    unfolding stage_plan_def Let_def
    by (auto simp: runs_Inr reads_run Let_def split: if_splits dest!: drawing_Inr created fetched_key)
qed

lemma execution_stage_creates:
  assumes "stage_execution sg claim data w = (Inr r, w')"
  shows "r = stage_data [(''execution_id'', JId (sg_identifier sg (wc_id claim) ''execution''))]"
    and "sg_identifier sg (wc_id claim) ''execution'' \<in> run_id ` set (db_runs (w_db w'))"
proof -
  let ?i = "sg_identifier sg (wc_id claim) ''execution''"
  from assms show "r = stage_data [(''execution_id'', JId ?i)]"
    unfolding stage_execution_def Let_def by (auto simp: runs_Inr)
  have created: "?i \<in> run_id ` set (db_runs d')" if "create p (Some ?i) fresh now d = Inr (d', x)" for fresh now p d d' x
    using that by (elim create_Inr) (auto simp: new_run_def)
  from assms show "?i \<in> run_id ` set (db_runs (w_db w'))"
    unfolding stage_execution_def Let_def
    by (auto simp: runs_Inr reads_run Let_def find_run_def split: if_splits dest!: drawing_Inr created fetched_key)
qed

text \<open>C29. A workflow creates one plan and one execution however often the two stages are run. A repeated stage
  runs under a claim of its own, with another token, and may be given other data; only the workflow is the same.
  Once such a stage has returned, every later run of it in any later world where the rows still are, whatever the
  other workers did since, returns the same identifier, asks no model, and writes nothing. As the rows are still
  there after it, the same holds of the run after that, and so of every one.\<close>

theorem creation_stages_repeatable:
  assumes kept: "rows_kept (sg_env sg)" and same: "wc_id claim' = wc_id claim" and later: "rows_last w' v"
  shows "(stage_plan sg claim issue ctx w = (Inr r, w') \<longrightarrow>
      stage_plan sg claim' issue' ctx' v = (Inr r, only_read sg v) \<and> rows_last w' (only_read sg v)) \<and>
    (stage_execution sg claim data w = (Inr r, w') \<longrightarrow>
      stage_execution sg claim' data' v = (Inr r, only_read sg v) \<and> rows_last w' (only_read sg v))"
proof -
  let ?d = "env_others (sg_env sg) (w_tick v) (w_db v)"
  have last: "rows_last w' (only_read sg v)"
  proof -
    have "plan_id ` set (db_plans (w_db v)) \<subseteq> plan_id ` set (db_plans ?d)" and "run_id ` set (db_runs (w_db v)) \<subseteq> run_id ` set (db_runs ?d)"
      using kept unfolding rows_kept_def by blast+
    moreover have "w_db (only_read sg v) = ?d" by (simp add: only_read_def)
    ultimately show ?thesis using later unfolding rows_last_def by (simp only:) (meson order_trans)
  qed
  have "stage_plan sg claim' issue' ctx' v = (Inr r, only_read sg v)" if run: "stage_plan sg claim issue ctx w = (Inr r, w')"
  proof -
    note first = plan_stage_creates [OF run]
    with last have "fetch plan_id (sg_identifier sg (wc_id claim) ''plan'') (db_plans ?d) \<noteq> None"
      unfolding rows_last_def only_read_def fetch_None by auto
    then show ?thesis
      by (simp add: stage_plan_def reads_run Let_def bindM_def seqM_def ret_def first(1) same only_read_def)
  qed
  moreover have "stage_execution sg claim' data' v = (Inr r, only_read sg v)"
    if run: "stage_execution sg claim data w = (Inr r, w')"
  proof -
    note first = execution_stage_creates [OF run]
    with last have "find_run (sg_identifier sg (wc_id claim) ''execution'') ?d \<noteq> None"
      unfolding rows_last_def only_read_def find_run_def fetch_None by auto
    then show ?thesis
      by (simp add: stage_execution_def reads_run Let_def bindM_def seqM_def ret_def first(1) same only_read_def)
  qed
  ultimately show ?thesis using last by blast
qed

lemma creation_stages_repeatable_witness:
  "\<exists>r w'. stage_plan example_stages (example_claim Plan) 2 example_context (example_world example_db) = (Inr r, w') \<and>
     length (db_plans (w_db w')) = 2 \<and>
     fst (stage_plan example_stages (example_claim Plan\<lparr>wc_token := 88\<rparr>) 3 example_context w') = Inr r \<and>
     db_plans (w_db (snd (stage_plan example_stages (example_claim Plan\<lparr>wc_token := 88\<rparr>) 3 example_context w'))) = db_plans (w_db w')"
proof -
  let ?run = "stage_plan example_stages (example_claim Plan) 2 example_context (example_world example_db)"
  have "case ?run of (Inl _, _) \<Rightarrow> False | (Inr _, w') \<Rightarrow> length (db_plans (w_db w')) = 2" by code_simp
  then obtain r w' where run: "?run = (Inr r, w')" and n: "length (db_plans (w_db w')) = 2"
    by (auto split: prod.splits sum.splits)
  have "rows_kept (sg_env example_stages)" by (simp add: rows_kept_def example_stages_def example_environment_def)
  moreover have "rows_last w' w'" by (simp add: rows_last_def)
  ultimately have "stage_plan example_stages (example_claim Plan\<lparr>wc_token := 88\<rparr>) 3 example_context w' =
      (Inr r, only_read example_stages w')"
    using creation_stages_repeatable [where claim = "example_claim Plan"
        and claim' = "example_claim Plan\<lparr>wc_token := 88\<rparr>" and v = w'] run
    by (simp add: example_claim_def)
  then show ?thesis using run n by (auto simp: only_read_def example_stages_def example_environment_def)
qed

end
