(* ===== verification/Workflow_Run.thy ===== *)
theory Workflow_Run
  imports Workflow_Stages Workflow_Properties
begin

text \<open>
  The engine of \<^verbatim>\<open>app/orchestration/workflow.py\<close> around the stages of
  \<^verbatim>\<open>app/orchestration/workflow_stages.py\<close>, as \<^verbatim>\<open>workflow_resources.py\<close> puts them together: how
  an exception of a stage is classified, one call of \<open>advance\<close>, and what a stage can rely on: the data
  that the stages before it have left in the workflow.
\<close>

section \<open>One call of the engine\<close>

text \<open>
  The classes of \<^verbatim>\<open>failures.py\<close> and of the engine's own \<open>isinstance\<close>. \<open>LLMInvalid\<close> is the subclass
  \<open>LLMValidationError\<close>. \<open>CancelledError\<close> is no \<open>Exception\<close>: the engine does not handle it.
\<close>

definition stage_error_of :: "exc \<Rightarrow> stage_error" where
  "stage_error_of e = (case e of
     LLMFailure c \<Rightarrow> LLMError c
   | LLMInvalid _ \<Rightarrow> LLMError ''llm_invalid_response''
   | GitHubFailure c http_status after \<Rightarrow> GitHubError c http_status after
   | TimedOut \<Rightarrow> TimeoutError
   | ServiceFailure (WorkflowError c) \<Rightarrow> WorkflowFailure c
   | _ \<Rightarrow> OtherError)"

definition staged :: "'x stages \<Rightarrow> stage_claim \<Rightarrow> platform \<Rightarrow> 'x world \<Rightarrow> (exc + stage_result) \<times> platform \<times> 'x world" where
  "staged sg claim p w = (case run_stage sg claim (w\<lparr>w_db := pf_db p\<rparr>) of
     (r, w') \<Rightarrow> (r, p\<lparr>pf_db := w_db w'\<rparr>, w'))"

definition advance_workflow ::
  "workflow_settings \<Rightarrow> 'x stages \<Rightarrow> uuid \<Rightarrow> string option \<Rightarrow> nat option \<Rightarrow> uuid \<Rightarrow> time \<Rightarrow> time \<Rightarrow>
    platform \<Rightarrow> 'x world \<Rightarrow> (exc + workflow_status) \<times> platform \<times> 'x world" where
  "advance_workflow settings sg i expected_stage expected_generation token now later p w =
     (case workflow_claim i expected_stage expected_generation token now p of
        Inl e \<Rightarrow> (Inl (ServiceFailure e), p, w)
      | Inr (p1, None) \<Rightarrow> (map_sum ServiceFailure id (workflow_get i p1), p1, w)
      | Inr (p1, Some c) \<Rightarrow>
          (case staged sg c p1 w of (r, p2, w') \<Rightarrow>
           if r = Inl Cancelled then (Inl Cancelled, p2, w')
           else (case record_outcome settings c (map_sum stage_error_of id r) later p2 of
                   Inl e \<Rightarrow> (Inl (ServiceFailure e), p2, w')
                 | Inr p3 \<Rightarrow> (map_sum ServiceFailure id (workflow_get i p3), p3, w'))))"

section \<open>The system of workers\<close>

text \<open>
  The transitions of the platform when every worker runs the modelled stages: a claim ends with the
  result of a run of its stage, wherever and on whatever database it ran, or with an error.
\<close>

inductive run_step :: "workflow_settings \<Rightarrow> 'x stages \<Rightarrow> wf_system \<Rightarrow> wf_system \<Rightarrow> bool"
  for settings :: workflow_settings and sg :: "'x stages" where
  run_start: "workflow_start settings correlation request now (sys_platform s) = Inr p \<Longrightarrow>
    run_step settings sg s (s\<lparr>sys_platform := p\<rparr>)"
| run_claim: "workflow_claim i expected_stage expected_generation token now (sys_platform s) = Inr (p, Some c) \<Longrightarrow>
    token \<notin> wc_token ` set (sys_claims s) \<Longrightarrow>
    run_step settings sg s \<lparr>sys_platform = p, sys_claims = sys_claims s @ [c]\<rparr>"
| run_completed: "c \<in> set (sys_claims s) \<Longrightarrow> run_stage sg c w = (Inr result, w') \<Longrightarrow>
    workflow_finish settings c (sr_data result) (sr_repeat result) None False None now (sys_platform s) = Inr p \<Longrightarrow>
    run_step settings sg s (s\<lparr>sys_platform := p\<rparr>)"
| run_failed: "c \<in> set (sys_claims s) \<Longrightarrow> or_empty error \<noteq> [] \<Longrightarrow>
    workflow_finish settings c Map.empty False error blocked retry now (sys_platform s) = Inr p \<Longrightarrow>
    run_step settings sg s (s\<lparr>sys_platform := p\<rparr>)"
| run_resume: "workflow_resume settings i now (sys_platform s) = Inr p \<Longrightarrow>
    run_step settings sg s (s\<lparr>sys_platform := p\<rparr>)"
| run_cancel: "workflow_cancel i now (sys_platform s) = Inr p \<Longrightarrow>
    run_step settings sg s (s\<lparr>sys_platform := p\<rparr>)"
| run_recover: "workflow_recoverable held now (sys_platform s) = Inr (p, ids) \<Longrightarrow>
    run_step settings sg s (s\<lparr>sys_platform := p\<rparr>)"
| run_exec: "exec_step (pf_db (sys_platform s)) d \<Longrightarrow>
    run_step settings sg s (s\<lparr>sys_platform := (sys_platform s)\<lparr>pf_db := d\<rparr>\<rparr>)"

inductive_cases run_stepE: "run_step settings sg s s'"

lemma run_step_wf: "run_step settings sg s s' \<Longrightarrow> wf_step settings s s'"
  by (induction rule: run_step.induct) (auto intro: wf_step.intros)

section \<open>The data of a workflow\<close>

definition holds_id :: "string \<Rightarrow> metadata \<Rightarrow> bool" where
  "holds_id k data = (case data k of Some (JId _) \<Rightarrow> True | _ \<Rightarrow> False)"

definition data_ready :: "stage \<Rightarrow> metadata \<Rightarrow> bool" where
  "data_ready s data \<longleftrightarrow>
     (case data ''required_commands'' of Some (JStrs cs) \<Rightarrow> between 1 8 (length cs) | _ \<Rightarrow> False) \<and>
     (Repository < s \<longrightarrow> holds_id ''repository_id'' data) \<and>
     (Sync < s \<longrightarrow> (case data ''source_commit'' of Some (JStr _) \<Rightarrow> True | _ \<Rightarrow> False)) \<and>
     (Issue < s \<longrightarrow> holds_id ''issue_id'' data) \<and>
     (Context < s \<longrightarrow> (case data ''context'' of Some (JContext _) \<Rightarrow> True | _ \<Rightarrow> False)) \<and>
     (Plan < s \<longrightarrow> holds_id ''plan_id'' data) \<and>
     (Execution < s \<longrightarrow> holds_id ''execution_id'' data)"

lemma data_ready_mono: "data_ready t data \<Longrightarrow> s \<le> t \<Longrightarrow> data_ready s data"
  unfolding data_ready_def by (auto dest: less_le_trans)

text \<open>What a stage leaves, for the stage it leads to.\<close>

definition leads_to :: "stage \<Rightarrow> stage_result \<Rightarrow> stage \<Rightarrow> bool" where
  "leads_to s r t \<longleftrightarrow> (if sr_repeat r then t = s else next_stage s = Inr t)"

lemma runs_repository: "stage_repository sg c w = (Inr r, w') \<Longrightarrow> \<exists>i. r = stage_data [(''repository_id'', JId i)]"
  by (auto simp: stage_repository_def runs_Inr)

lemma runs_sync: "stage_sync sg repository w = (Inr r, w') \<Longrightarrow> \<exists>commit. r = stage_data [(''source_commit'', JStr commit)]"
  by (auto simp: stage_sync_def runs_Inr split: prod.splits)

lemma runs_issue: "stage_issue sg repository c w = (Inr r, w') \<Longrightarrow> \<exists>i. r = stage_data [(''issue_id'', JId i)]"
  by (auto simp: stage_issue_def runs_Inr)

lemma runs_context: "stage_context sg issue w = (Inr r, w') \<Longrightarrow> \<exists>context. r = stage_data [(''context'', JContext context)]"
  by (auto simp: stage_context_def runs_Inr)

lemma runs_indexing: "stage_indexing sg repository data w = (Inr r, w') \<Longrightarrow> r = stage_data []"
  by (auto simp: stage_indexing_def runs_Inr)

lemma runs_embed: "stage_embed sg repository w = (Inr r, w') \<Longrightarrow> r = stage_data []"
  by (auto simp: stage_embed_def runs_Inr)

lemma runs_workspace: "stage_workspace sg repository rid data w = (Inr r, w') \<Longrightarrow> r = stage_data []"
  by (auto simp: stage_workspace_def runs_Inr Let_def split: prod.splits if_splits)

lemma runs_review: "stage_review sg rid context config w = (Inr r, w') \<Longrightarrow> r = stage_data []"
  by (auto simp: stage_review_def runs_Inr)

lemma runs_publish: "stage_publish sg rid context config w = (Inr r, w') \<Longrightarrow> \<exists>url. r = stage_data [(''pull_request_url'', JStr url)]"
  by (auto simp: stage_publish_def runs_Inr)

lemma runs_implement: "stage_implement sg rid context config w = (Inr r, w') \<Longrightarrow> sr_data r = Map.empty"
  by (auto simp: stage_implement_def stage_data_def runs_Inr split: if_splits option.splits)


definition stage_output :: "stage \<Rightarrow> stage_result \<Rightarrow> bool" where
  "stage_output s r \<longleftrightarrow> (case s of
     Repository \<Rightarrow> \<exists>i. r = stage_data [(''repository_id'', JId i)]
   | Sync \<Rightarrow> \<exists>commit. r = stage_data [(''source_commit'', JStr commit)]
   | Issue \<Rightarrow> \<exists>i. r = stage_data [(''issue_id'', JId i)]
   | Context \<Rightarrow> \<exists>c. r = stage_data [(''context'', JContext c)]
   | Plan \<Rightarrow> \<exists>i. r = stage_data [(''plan_id'', JId i)]
   | Execution \<Rightarrow> \<exists>i. r = stage_data [(''execution_id'', JId i)]
   | Implement \<Rightarrow> sr_data r = Map.empty
   | Publish \<Rightarrow> \<exists>url. r = stage_data [(''pull_request_url'', JStr url)]
   | Done \<Rightarrow> False
   | _ \<Rightarrow> r = stage_data [])"

lemma run_stage_output: "run_stage sg c w = (Inr r, w') \<Longrightarrow> stage_output (wc_stage c) r"
  by (cases "wc_stage c")
    (auto simp: run_stage_def issue_stage_def late_stage_def runs_Inr Let_def stage_output_def
      dest: runs_repository runs_sync runs_issue runs_context runs_indexing runs_embed runs_workspace runs_review
        runs_publish runs_implement plan_stage_creates(1) execution_stage_creates(1))

lemma stage_result_ready:
  assumes "run_stage sg c w = (Inr r, w')" and "data_ready (wc_stage c) data" and "leads_to (wc_stage c) r t"
  shows "data_ready t (data ++ sr_data r)"
  using run_stage_output [OF assms(1)] assms(2,3)
  by (cases "wc_stage c")
    (auto simp: stage_output_def leads_to_def data_ready_def holds_id_def stage_data_def less_stage_def
      stage_index_def STAGES_def split: if_splits)

section \<open>The rows keep their data\<close>

definition data_inv :: "workflow_settings \<Rightarrow> wf_system \<Rightarrow> bool" where
  "data_inv settings s \<longleftrightarrow> wf_inv settings s \<and> between 1 8 (length (set_required_tests settings)) \<and>
     (\<forall>r \<in> set (pf_workflows (sys_platform s)). data_ready (wf_stage r) (wf_data r)) \<and>
     (\<forall>c \<in> set (sys_claims s). data_ready (wc_stage c) (wc_data c))"

definition rows_ready :: "platform \<Rightarrow> bool" where
  "rows_ready p \<longleftrightarrow> (\<forall>r \<in> set (pf_workflows p). data_ready (wf_stage r) (wf_data r))"

lemma rows_ready_save:
  "rows_ready p \<Longrightarrow> data_ready (wf_stage r) (wf_data r) \<Longrightarrow> rows_ready (save_workflow now r p)"
  by (auto simp: rows_ready_def dest!: save_workflow_rows)

lemma rows_ready_db [simp]: "rows_ready (p\<lparr>pf_db := d\<rparr>) = rows_ready p"
  by (simp add: rows_ready_def)

lemma rows_ready_find: "rows_ready p \<Longrightarrow> find_workflow i p = Some r \<Longrightarrow> data_ready (wf_stage r) (wf_data r)"
  by (auto simp: rows_ready_def dest!: find_workflow_in)

lemma start_ready:
  assumes "workflow_start settings correlation request now p = Inr p'" and "rows_ready p"
    and "between 1 8 (length (set_required_tests settings))"
  shows "rows_ready p'"
proof -
  have "data_ready Repository (wf_data (new_workflow settings correlation request now))"
    using assms(3) by (simp add: new_workflow_def data_ready_def less_stage_def stage_index_def STAGES_def)
  with assms show ?thesis
    by (auto simp: workflow_start_def Let_def rows_ready_def new_workflow_def split: option.splits if_splits)
qed

lemma claim_ready:
  "workflow_claim i stg g token now p = Inr (p', Some c) \<Longrightarrow> rows_ready p \<Longrightarrow>
    rows_ready p' \<and> data_ready (wc_stage c) (wc_data c)"
  by (elim workflow_claim_Some) (auto intro!: rows_ready_save dest: rows_ready_find)

lemma resume_ready: "workflow_resume settings i now p = Inr p' \<Longrightarrow> rows_ready p \<Longrightarrow> rows_ready p'"
  by (auto simp: workflow_resume_def workflow_state_Inr intro!: rows_ready_save dest: rows_ready_find split: if_splits)

lemma cancel_ready: "workflow_cancel i now p = Inr p' \<Longrightarrow> rows_ready p \<Longrightarrow> rows_ready p'"
  by (cases "p' = p") (auto elim!: workflow_cancel_Inr intro!: rows_ready_save dest: rows_ready_find)

lemma recover_ready:
  assumes "workflow_recoverable held now p = Inr (p', ids)" and "rows_ready p"
  shows "rows_ready p'"
proof -
  from assms(1) have fold: "foldE (expire_one now) (expired_workflows held now p) p = Inr p'"
    by (auto simp: workflow_recoverable_def)
  show ?thesis
  proof (rule foldE_invariant [OF fold, where P = rows_ready])
    show "rows_ready p" by (rule assms(2))
    fix r q q' assume r: "r \<in> set (expired_workflows held now p)" and q: "rows_ready q" and e: "expire_one now r q = Inr q'"
    from r have "r \<in> set (pf_workflows p)" by (auto simp: expired_workflows_def dest!: in_set_takeD)
    with assms(2) have ready: "data_ready (wf_stage r) (wf_data r)" by (simp add: rows_ready_def)
    from e obtain d r1 where r1: "r1 = r\<lparr>wf_status := wf_status r1, wf_generation := wf_generation r + 1,
               wf_error_code := Some ''workflow_worker_interrupted'',
               wf_claim_token := None, wf_lease_until := None, wf_history := wf_history r1\<rparr>"
      and q': "q' = save_workflow now r1 (q\<lparr>pf_db := d\<rparr>)"
      by (rule expire_one_Inr) (rule that; assumption)
    have "wf_stage r1 = wf_stage r" "wf_data r1 = wf_data r" by (subst r1, simp)+
    with ready q show "rows_ready q'" by (simp add: q' rows_ready_save)
  qed
qed


lemma finish_stage_completed:
  assumes "finish_stage settings c repeat None False None now r = Inr r'"
  obtains t where "(if repeat then Inr (wc_stage c) else next_stage (wc_stage c)) = Inr t" and "wf_data r' = wf_data r"
    and "wf_stage r' = t \<or> t = Publish \<and> wf_stage r' = Done"
  using assms
  by (auto simp: finish_stage_def Let_def or_empty_def workflow_state_Inr split: if_splits)

lemma finish_stage_failed:
  "finish_stage settings c repeat error blocked retry now r = Inr r' \<Longrightarrow> or_empty error \<noteq> [] \<Longrightarrow>
    wf_data r' = wf_data r \<and> wf_stage r' = wf_stage r"
  by (auto simp: finish_stage_def workflow_state_Inr split: if_splits)

lemma data_ready_Done: "data_ready Publish data \<Longrightarrow> data_ready Done data"
  by (simp add: data_ready_def less_stage_def stage_index_def STAGES_def)

lemma completed_ready:
  assumes inv: "wf_inv settings s" and ready: "rows_ready (sys_platform s)" and c: "c \<in> set (sys_claims s)"
    and run: "run_stage sg c w = (Inr result, w')"
    and fin: "workflow_finish settings c (sr_data result) (sr_repeat result) None False None now (sys_platform s) = Inr p"
  shows "rows_ready p"
proof -
  from fin obtain r r0 r' where r: "find_workflow (wc_id c) (sys_platform s) = Some r"
    and t: "wf_claim_token r = Some (wc_token c)"
    and r0: "r0 = r\<lparr>wf_history := wf_history r @ [(history_entry (wc_stage c)
                  (if or_empty None \<noteq> [] then ''failed'' else ''completed'') now)(''error_code'' \<mapsto> jopt None)],
               wf_data := wf_data r ++ sr_data result, wf_error_code := None, wf_claim_token := None,
               wf_lease_until := None, wf_generation := wf_generation r + 1\<rparr>"
    and f: "finish_stage settings c (sr_repeat result) None False None now r0 = Inr r'"
    and p: "p = save_workflow now r' (sys_platform s)"
    by (rule workflow_finish_Inr) (rule that; assumption)
  from f obtain st where n: "(if sr_repeat result then Inr (wc_stage c) else next_stage (wc_stage c)) = Inr st"
    and d: "wf_data r' = wf_data r0" and e: "wf_stage r' = st \<or> st = Publish \<and> wf_stage r' = Done"
    by (rule finish_stage_completed)
  have "data_ready (wc_stage c) (wf_data r)"
    using rows_ready_find [OF ready r] live_claim(1) [OF inv c r t] by simp
  moreover have "leads_to (wc_stage c) result st" using n by (auto simp: leads_to_def split: if_splits)
  ultimately have "data_ready st (wf_data r ++ sr_data result)" using run by (intro stage_result_ready)
  then have "data_ready (wf_stage r') (wf_data r')" using d e data_ready_Done by (auto simp: r0)
  then show ?thesis unfolding p by (rule rows_ready_save [OF ready])
qed

lemma failed_ready:
  assumes ready: "rows_ready p" and error: "or_empty error \<noteq> []"
    and fin: "workflow_finish settings c Map.empty repeat error blocked retry now p = Inr p'"
  shows "rows_ready p'"
proof -
  from fin obtain r r0 r' where r: "find_workflow (wc_id c) p = Some r"
    and r0: "r0 = r\<lparr>wf_history := wf_history r @ [(history_entry (wc_stage c)
                  (if or_empty error \<noteq> [] then ''failed'' else ''completed'') now)(''error_code'' \<mapsto> jopt error)],
               wf_data := wf_data r ++ Map.empty, wf_error_code := error, wf_claim_token := None,
               wf_lease_until := None, wf_generation := wf_generation r + 1\<rparr>"
    and f: "finish_stage settings c repeat error blocked retry now r0 = Inr r'"
    and p: "p' = save_workflow now r' p"
    by (rule workflow_finish_Inr) (rule that; assumption)
  have "data_ready (wf_stage r') (wf_data r')"
    using finish_stage_failed [OF f error] rows_ready_find [OF ready r] by (simp add: r0)
  then show ?thesis unfolding p by (rule rows_ready_save [OF ready])
qed

definition run_init :: "workflow_settings \<Rightarrow> wf_system \<Rightarrow> bool" where
  "run_init settings s \<longleftrightarrow> wf_init settings s \<and> between 1 8 (length (set_required_tests settings))"

lemma data_inv_rows:
  "data_inv settings s \<longleftrightarrow> wf_inv settings s \<and> between 1 8 (length (set_required_tests settings)) \<and>
     rows_ready (sys_platform s) \<and> (\<forall>c \<in> set (sys_claims s). data_ready (wc_stage c) (wc_data c))"
  by (auto simp: data_inv_def rows_ready_def)

lemma run_step_data:
  assumes inv: "data_inv settings s" and step: "run_step settings sg s s'"
  shows "data_inv settings s'"
proof -
  have wf: "wf_inv settings s" and n: "between 1 8 (length (set_required_tests settings))"
    and rows: "rows_ready (sys_platform s)" using inv by (simp_all add: data_inv_rows)
  have "rows_ready (sys_platform s') \<and> (\<forall>c \<in> set (sys_claims s'). data_ready (wc_stage c) (wc_data c))"
    using step
  proof cases
    case (run_start correlation request now p)
    with inv start_ready [OF run_start(2) rows n] show ?thesis by (simp add: data_inv_rows)
  next
    case (run_claim i stg g token now p c)
    with inv claim_ready [OF run_claim(2) rows] show ?thesis by (auto simp: data_inv_rows)
  next
    case (run_completed c w result w' now p)
    with inv completed_ready [OF wf rows run_completed(2-4)] show ?thesis by (simp add: data_inv_rows)
  next
    case (run_failed c error blocked retry now p)
    with inv failed_ready [OF rows run_failed(3,4)] show ?thesis by (simp add: data_inv_rows)
  next
    case (run_resume i now p)
    with inv resume_ready [OF run_resume(2) rows] show ?thesis by (simp add: data_inv_rows)
  next
    case (run_cancel i now p)
    with inv cancel_ready [OF run_cancel(2) rows] show ?thesis by (simp add: data_inv_rows)
  next
    case (run_recover held now p ids)
    with inv recover_ready [OF run_recover(2) rows] show ?thesis by (simp add: data_inv_rows)
  next
    case (run_exec d)
    with inv show ?thesis by (simp add: data_inv_rows)
  qed
  with workflows.step_inv [OF wf run_step_wf [OF step]] n show ?thesis by (simp add: data_inv_rows)
qed

lemma run_init_data: "run_init settings s \<Longrightarrow> data_inv settings s"
  by (auto simp: run_init_def wf_init_def data_inv_def intro: wf_init_inv)

interpretation platform_runs: invariant_system "run_init settings" "run_step settings sg" "data_inv settings"
  for settings sg
  by unfold_locales (rule run_init_data, assumption, rule run_step_data)

section \<open>What a stage looks up is there\<close>

definition found :: "exc + 'a \<Rightarrow> bool" where
  "found r = (case r of Inl _ \<Rightarrow> False | Inr _ \<Rightarrow> True)"

definition stage_reads :: "stage \<Rightarrow> metadata \<Rightarrow> bool" where
  "stage_reads s data \<longleftrightarrow>
     (s = Repository \<or> found (data_id ''repository_id'' data)) \<and>
     (s \<in> {Repository, Sync, Issue, Plan, Execution, Implement, Review, Publish, Done} \<or>
        found (data_value ''source_commit'' data)) \<and>
     (s \<in> {Repository, Sync, Index, Embed, Issue} \<or> found (data_id ''issue_id'' data)) \<and>
     (s \<in> {Repository, Sync, Index, Embed, Issue, Context} \<or> found (data_context data)) \<and>
     (s \<in> {Repository, Sync, Index, Embed, Issue, Context, Plan} \<or> found (data_id ''plan_id'' data)) \<and>
     (s \<in> {Repository, Sync, Index, Embed, Issue, Context, Plan, Execution} \<or>
        found (data_id ''execution_id'' data)) \<and>
     found (data_config data)"

lemma found_lookups:
  "holds_id k data \<Longrightarrow> found (data_id k data)"
  "case data ''source_commit'' of Some (JStr _) \<Rightarrow> True | _ \<Rightarrow> False \<Longrightarrow> found (data_value ''source_commit'' data)"
  "case data ''context'' of Some (JContext _) \<Rightarrow> True | _ \<Rightarrow> False \<Longrightarrow> found (data_context data)"
  "case data ''required_commands'' of Some (JStrs cs) \<Rightarrow> between 1 8 (length cs) | _ \<Rightarrow> False \<Longrightarrow> found (data_config data)"
  by (auto simp: holds_id_def found_def data_id_def data_value_def data_context_def data_config_def someE_def
      split: option.splits jval.splits)

lemma stage_less: "s < t \<longleftrightarrow> stage_index s < stage_index t"
  by (rule less_stage_def)

lemma ready_reads: "data_ready s data \<Longrightarrow> stage_reads s data"
  unfolding data_ready_def stage_reads_def
  by (elim conjE, intro conjI found_lookups(4); (assumption)?; cases s;
      simp add: stage_less stage_index_def STAGES_def found_lookups)

text \<open>C4. A stage finds what it needs: at whatever moment a workflow's stage is claimed, after whatever
  starts, failures, retries, resumptions, cancellations and crashes, the data of the claim hold every
  entry \<open>run\<close> looks up for that stage, of the type it expects. The settings have one to eight required
  tests, as their validator demands.\<close>

theorem claims_have_their_data:
  assumes "run_init settings s0" and "(run_step settings sg)\<^sup>*\<^sup>* s0 s" and "c \<in> set (sys_claims s)"
  shows "stage_reads (wc_stage c) (wc_data c)"
  using platform_runs.reach_inv [OF assms(1,2)] assms(3) by (auto simp: data_inv_def intro: ready_reads)


lemma sample_reaches:
  "run_init sample_settings system_empty \<and> (run_step sample_settings sg)\<^sup>*\<^sup>* system_empty system_claimed"
proof
  show "run_init sample_settings system_empty"
    using sample_init by (simp add: run_init_def sample_settings_def between_def)
  have "run_step sample_settings sg system_empty (system_empty\<lparr>sys_platform := with_rows [sample_row]\<rparr>)"
    using run_start [of sample_settings "''corr''" sample_request 100 system_empty "with_rows [sample_row]" sg]
    by (simp add: system_empty_def sample_start)
  moreover have "run_step sample_settings sg (system_empty\<lparr>sys_platform := with_rows [sample_row]\<rparr>) system_claimed"
    using run_claim [of 60 "Some ''repository''" "Some 0" 61 110
        "system_empty\<lparr>sys_platform := with_rows [sample_row]\<rparr>" "with_rows [sample_claimed]" sample_claim sample_settings sg]
    by (simp add: system_empty_def system_claimed_def sample_claiming)
  ultimately show "(run_step sample_settings sg)\<^sup>*\<^sup>* system_empty system_claimed"
    by (meson converse_rtranclp_into_rtranclp rtranclp.rtrancl_refl)
qed


definition sample_synced :: workflow_run where
  "sample_synced = sample_claimed\<lparr>wf_stage := Sync, wf_status := ''pending'', wf_claim_token := None,
     wf_lease_until := None, wf_generation := 1, wf_attempts := 0, wf_error_code := None,
     wf_data := wf_data sample_row ++ [''repository_id'' \<mapsto> JId 100],
     wf_history := [history_entry Repository ''running'' 110,
       (history_entry Repository ''completed'' 120)(''error_code'' \<mapsto> jopt None)],
     wf_updated_at := 120\<rparr>"

lemma sample_completing_db:
  "workflow_finish sample_settings sample_claim [''repository_id'' \<mapsto> JId 100] False None False None 120
     ((with_rows [sample_claimed])\<lparr>pf_db := d\<rparr>) = Inr ((with_rows [sample_synced])\<lparr>pf_db := d\<rparr>)"
  by (simp add: workflow_finish_def finish_stage_def sample_synced_def
      sample_defs find_workflow_def fetch_def or_empty_def workflow_state_def check_def edge_simps
      save_workflow_def put_def Let_def)

lemma sample_completing:
  "workflow_finish sample_settings sample_claim [''repository_id'' \<mapsto> JId 100] False None False None 120
     (with_rows [sample_claimed]) = Inr (with_rows [sample_synced])"
  using sample_completing_db [of "pf_db (with_rows [sample_claimed])"] by (simp add: with_rows_def)

lemma sample_stage:
  "\<exists>r w. run_stage example_stages sample_claim (example_world example_db) = (Inr r, w) \<and>
     r = stage_data [(''repository_id'', JId 100)]"
proof -
  have r: "run_stage example_stages sample_claim = stage_repository example_stages sample_claim"
    by (simp add: run_stage_def sample_claim_def)
  have "case stage_repository example_stages sample_claim (example_world example_db) of
      (Inl _, _) \<Rightarrow> False | (Inr r, _) \<Rightarrow> sr_data r ''repository_id'' = Some (JId 100)"
    by code_simp
  then obtain x w where x: "stage_repository example_stages sample_claim (example_world example_db) = (Inr x, w)"
    and "sr_data x ''repository_id'' = Some (JId 100)"
    by (auto split: prod.splits sum.splits)
  moreover from runs_repository [OF x] obtain i where "x = stage_data [(''repository_id'', JId i)]" by blast
  ultimately show ?thesis by (auto simp: r stage_data_def)
qed

lemma claims_have_their_data_witness:
  "\<exists>s c. run_init sample_settings system_empty \<and> (run_step sample_settings example_stages)\<^sup>*\<^sup>* system_empty s \<and>
     c \<in> set (sys_claims s) \<and> wc_stage c = Sync \<and> stage_reads (wc_stage c) (wc_data c)"
proof -
  note start = sample_reaches [of example_stages]
  let ?s = "\<lparr>sys_platform = with_rows [sample_synced], sys_claims = [sample_claim]\<rparr>"
  from sample_stage obtain r w where run: "run_stage example_stages sample_claim (example_world example_db) = (Inr r, w)"
    and r: "r = stage_data [(''repository_id'', JId 100)]" by blast
  have "run_step sample_settings example_stages system_claimed ?s"
    using run_completed [OF _ run, of system_claimed sample_settings 120 "with_rows [sample_synced]"] sample_completing
    by (simp add: r stage_data_def system_claimed_def)
  with start have reach: "(run_step sample_settings example_stages)\<^sup>*\<^sup>* system_empty ?s"
    by (intro rtranclp.rtrancl_into_rtrancl [OF conjunct2])
  have "\<exists>p c. workflow_claim 60 None None 62 130 (with_rows [sample_synced]) = Inr (p, Some c) \<and> wc_stage c = Sync"
    by (simp add: workflow_claim_def sample_synced_def sample_defs find_workflow_def fetch_def claimable_def
      workflow_state_def check_def edge_simps)
  then obtain p c where c: "workflow_claim 60 None None 62 130 (with_rows [sample_synced]) = Inr (p, Some c)"
    and stage: "wc_stage c = Sync" by blast
  have "run_step sample_settings example_stages ?s \<lparr>sys_platform = p, sys_claims = [sample_claim, c]\<rparr>"
    using run_claim [of 60 None None 62 130 ?s p c sample_settings example_stages] c by (simp add: sample_claim_def)
  with reach have last: "(run_step sample_settings example_stages)\<^sup>*\<^sup>* system_empty
      \<lparr>sys_platform = p, sys_claims = [sample_claim, c]\<rparr>"
    by (rule rtranclp.rtrancl_into_rtrancl)
  have ready: "stage_reads (wc_stage c) (wc_data c)"
    by (rule claims_have_their_data [OF conjunct1 [OF start] last]) simp
  have "c \<in> set (sys_claims \<lparr>sys_platform = p, sys_claims = [sample_claim, c]\<rparr>)" by simp
  with last stage ready show ?thesis using conjunct1 [OF start] by blast
qed


section \<open>A call of the engine is a path of the system\<close>

text \<open>The codes of providers and workflows are fixed, non-empty literals.\<close>

definition failure_named :: "exc + stage_result \<Rightarrow> bool" where
  "failure_named r = (case r of Inl e \<Rightarrow> stage_error_of e \<noteq> LLMError [] \<and> stage_error_of e \<noteq> WorkflowFailure [] | Inr _ \<Rightarrow> True)"

lemma stage_failure_named:
  "stage_failure settings s tries e = (c, b, d) \<Longrightarrow> e \<noteq> LLMError [] \<Longrightarrow> e \<noteq> WorkflowFailure [] \<Longrightarrow> c \<noteq> []"
  by (cases e) (auto simp: stage_failure_def provider_failure_def github_codes_def Let_def split: if_splits)

lemma exec_steps_run:
  "exec_step\<^sup>*\<^sup>* d d' \<Longrightarrow>
    (run_step settings sg)\<^sup>*\<^sup>* \<lparr>sys_platform = p\<lparr>pf_db := d\<rparr>, sys_claims = cs\<rparr> \<lparr>sys_platform = p\<lparr>pf_db := d'\<rparr>, sys_claims = cs\<rparr>"
proof (induction rule: rtranclp_induct)
  case base
  show ?case by simp
next
  case (step y z)
  have "run_step settings sg \<lparr>sys_platform = p\<lparr>pf_db := y\<rparr>, sys_claims = cs\<rparr> \<lparr>sys_platform = p\<lparr>pf_db := z\<rparr>, sys_claims = cs\<rparr>"
    using run_exec [of "\<lparr>sys_platform = p\<lparr>pf_db := y\<rparr>, sys_claims = cs\<rparr>" z settings sg] step(2) by simp
  with step.IH show ?case by (rule rtranclp.rtrancl_into_rtrancl)
qed

lemma record_step:
  assumes named: "failure_named r" and run: "run_stage sg c w = (r, w')" and c: "c \<in> set cs"
    and out: "record_outcome settings c (map_sum stage_error_of id r) later p = Inr p'"
  shows "run_step settings sg \<lparr>sys_platform = p, sys_claims = cs\<rparr> \<lparr>sys_platform = p', sys_claims = cs\<rparr>"
proof (cases r)
  case (Inl e)
  with out have "record_outcome settings c (Inl (stage_error_of e)) later p = Inr p'" by simp
  then obtain tries error_code blocked delay
    where f: "stage_failure settings (wc_stage c) tries (stage_error_of e) = (error_code, blocked, delay)"
      and fin: "workflow_finish settings c Map.empty False (Some error_code) blocked delay later p = Inr p'"
    by (rule record_outcome_failed)
  from named Inl stage_failure_named [OF f] have "error_code \<noteq> []" by (simp add: failure_named_def)
  then show ?thesis
    using run_failed [of c "\<lparr>sys_platform = p, sys_claims = cs\<rparr>" "Some error_code" settings blocked delay later p' sg] c fin
    by (simp add: or_empty_def)
next
  case (Inr result)
  with out run c show ?thesis
    using run_completed [of c "\<lparr>sys_platform = p, sys_claims = cs\<rparr>" sg w result w' settings later p']
    by (simp add: record_outcome_def)
qed

lemma run_steps_keep:
  assumes "(run_step settings sg)\<^sup>*\<^sup>* s t" and "data_inv settings s"
  shows "data_inv settings t" and "advanced (sys_platform s) (sys_platform t)"
proof -
  show "data_inv settings t" using platform_runs.steps_inv assms by blast
  have "(wf_step settings)\<^sup>*\<^sup>* s t" using assms(1) by (rule mono_rtranclp [rule_format, rotated]) (rule run_step_wf)
  then show "advanced (sys_platform s) (sys_platform t)"
    by (rule steps_advanced) (use assms(2) in \<open>simp add: data_inv_def\<close>)
qed

lemma advance_path:
  assumes "others_step (sg_env sg)" and "sg_sandbox sg = docker_execute (sg_env sg) (sg_settings sg)"
    and fresh: "token \<notin> wc_token ` set cs"
    and named: "case workflow_claim i es eg token now p of
        Inr (p1, Some c) \<Rightarrow> failure_named (fst (staged sg c p1 w)) | _ \<Rightarrow> True"
    and adv: "advance_workflow settings sg i es eg token now later p w = (r, p', w')"
  shows "\<exists>cs'. (run_step settings sg)\<^sup>*\<^sup>* \<lparr>sys_platform = p, sys_claims = cs\<rparr> \<lparr>sys_platform = p', sys_claims = cs'\<rparr>"
proof (cases "\<exists>p1 c. workflow_claim i es eg token now p = Inr (p1, Some c)")
  case False
  with adv have "p' = p"
    by (auto simp: advance_workflow_def split: sum.splits prod.splits option.splits dest!: workflow_claim_None)
  then show ?thesis by (intro exI [of _ cs]) simp
next
  case True
  then obtain p1 c where claim: "workflow_claim i es eg token now p = Inr (p1, Some c)" by blast
  let ?cs = "cs @ [c]"
  obtain res u where run: "run_stage sg c (w\<lparr>w_db := pf_db p1\<rparr>) = (res, u)" by fastforce
  let ?p2 = "p1\<lparr>pf_db := w_db u\<rparr>"
  have st: "staged sg c p1 w = (res, ?p2, u)" by (simp add: staged_def run)
  have "exec_step\<^sup>*\<^sup>* (pf_db p1) (w_db u)"
    using keepsD [OF run_stage_reached [OF assms(1,2)], of "pf_db p1" "w\<lparr>w_db := pf_db p1\<rparr>" c] run
    by (simp add: reached_from_def)
  from exec_steps_run [OF this, of settings sg p1 ?cs]
  have work: "(run_step settings sg)\<^sup>*\<^sup>* \<lparr>sys_platform = p1, sys_claims = ?cs\<rparr> \<lparr>sys_platform = ?p2, sys_claims = ?cs\<rparr>" by simp
  have "run_step settings sg \<lparr>sys_platform = p, sys_claims = cs\<rparr> \<lparr>sys_platform = p1, sys_claims = ?cs\<rparr>"
    using run_claim [of i es eg token now "\<lparr>sys_platform = p, sys_claims = cs\<rparr>" p1 c settings sg] claim fresh by simp
  with work have mid: "(run_step settings sg)\<^sup>*\<^sup>* \<lparr>sys_platform = p, sys_claims = cs\<rparr> \<lparr>sys_platform = ?p2, sys_claims = ?cs\<rparr>"
    by (rule converse_rtranclp_into_rtranclp [rotated])
  have n: "failure_named res" using named by (simp add: claim st)
  show ?thesis
  proof (cases "p' = ?p2")
    case True
    with mid show ?thesis by blast
  next
    case False
    with adv have "record_outcome settings c (map_sum stage_error_of id res) later ?p2 = Inr p'"
      by (auto simp: advance_workflow_def claim st split: if_splits sum.splits)
    then have "run_step settings sg \<lparr>sys_platform = ?p2, sys_claims = ?cs\<rparr> \<lparr>sys_platform = p', sys_claims = ?cs\<rparr>"
      by (intro record_step [OF n run]) simp_all
    with mid show ?thesis by (intro exI [of _ ?cs]) (rule rtranclp.rtrancl_into_rtrancl)
  qed
qed

text \<open>C3. One call of \<open>advance\<close>, with everything a stage does, is a path of the system of workers: a claim,
  transactions of the record services, and the end of the claim. So whatever the stage does and wherever it
  stops, the rows of the workflows and of the executions keep their invariants, the data of the next stage
  are there, and no workflow goes back. The codes of the failure are literals of the program, not empty.\<close>

theorem advance_refines:
  assumes "others_step (sg_env sg)" and "sg_sandbox sg = docker_execute (sg_env sg) (sg_settings sg)"
    and "data_inv settings \<lparr>sys_platform = p, sys_claims = cs\<rparr>" and "token \<notin> wc_token ` set cs"
    and "case workflow_claim i es eg token now p of
        Inr (p1, Some c) \<Rightarrow> failure_named (fst (staged sg c p1 w)) | _ \<Rightarrow> True"
  shows "case advance_workflow settings sg i es eg token now later p w of (r, p', w') \<Rightarrow>
    \<exists>cs'. (run_step settings sg)\<^sup>*\<^sup>* \<lparr>sys_platform = p, sys_claims = cs\<rparr> \<lparr>sys_platform = p', sys_claims = cs'\<rparr> \<and>
      data_inv settings \<lparr>sys_platform = p', sys_claims = cs'\<rparr> \<and> advanced p p'"
proof -
  obtain r p' w' where adv: "advance_workflow settings sg i es eg token now later p w = (r, p', w')"
    by (rule prod_cases3)
  from advance_path [OF assms(1,2,4,5) this] obtain cs' where
    path: "(run_step settings sg)\<^sup>*\<^sup>* \<lparr>sys_platform = p, sys_claims = cs\<rparr> \<lparr>sys_platform = p', sys_claims = cs'\<rparr>" ..
  from run_steps_keep [OF path assms(3)] path adv show ?thesis by auto
qed


lemma advance_refines_witness:
  "\<exists>status p' w' cs'. advance_workflow sample_settings example_stages 60 (Some ''repository'') (Some 0) 61 110 120
       (with_rows [sample_row]) (example_world example_db) = (Inr status, p', w') \<and> ws_stage status = Sync \<and>
     (run_step sample_settings example_stages)\<^sup>*\<^sup>* \<lparr>sys_platform = with_rows [sample_row], sys_claims = []\<rparr>
       \<lparr>sys_platform = p', sys_claims = cs'\<rparr> \<and> data_inv sample_settings \<lparr>sys_platform = p', sys_claims = cs'\<rparr>"
proof -
  have same: "(example_world example_db)\<lparr>w_db := pf_db (with_rows [sample_claimed])\<rparr> = example_world example_db"
    by (simp add: example_world_def with_rows_def)
  from sample_stage obtain r u where run: "run_stage example_stages sample_claim (example_world example_db) = (Inr r, u)"
    and r: "r = stage_data [(''repository_id'', JId 100)]" by blast
  let ?p2 = "(with_rows [sample_claimed])\<lparr>pf_db := w_db u\<rparr>" and ?p3 = "(with_rows [sample_synced])\<lparr>pf_db := w_db u\<rparr>"
  have st: "staged example_stages sample_claim (with_rows [sample_claimed]) (example_world example_db) = (Inr r, ?p2, u)"
    by (simp add: staged_def same run)
  have out: "record_outcome sample_settings sample_claim (Inr r) 120 ?p2 = Inr ?p3"
    by (simp add: record_outcome_def r stage_data_def sample_completing_db)
  obtain status where got: "workflow_get 60 ?p3 = Inr status" and stage: "ws_stage status = Sync"
    by (simp add: workflow_get_def find_workflow_def fetch_def with_rows_def sample_synced_def sample_defs)
  have adv: "advance_workflow sample_settings example_stages 60 (Some ''repository'') (Some 0) 61 110 120
      (with_rows [sample_row]) (example_world example_db) = (Inr status, ?p3, u)"
    by (simp add: advance_workflow_def sample_claiming st out got)
  have start: "data_inv sample_settings \<lparr>sys_platform = with_rows [sample_row], sys_claims = []\<rparr>"
    using run_step_data [OF run_init_data [OF conjunct1 [OF sample_reaches [of example_stages]]]
        run_start [of sample_settings "''corr''" sample_request 100 system_empty "with_rows [sample_row]" example_stages]]
    by (simp add: system_empty_def sample_start)
  have others: "others_step (sg_env example_stages)"
    and box: "sg_sandbox example_stages = docker_execute (sg_env example_stages) (sg_settings example_stages)"
    using example_others by (simp_all add: example_stages_def)
  from advance_refines [OF others box start, where token = 61 and i = 60 and es = "Some ''repository''" and eg = "Some 0"
      and now = 110 and w = "example_world example_db" and later = 120]
  show ?thesis
    using adv stage by (auto simp: sample_claiming st failure_named_def)
qed

end
