(* ===== verification/Stage_Gates.thy ===== *)
theory Stage_Gates
  imports Workflow_Run
begin

text \<open>
  What the success of a stage means. A workflow goes on to its next stage only when the one it is at returned
  (\<^verbatim>\<open>app/orchestration/workflow_stages.py\<close>), so each stage has to leave behind what the workflow is then
  said to have: the rows its result names, a completed run, a review that may be published, a pull request.
\<close>

section \<open>Transactions at the end of a stage\<close>

lemma committed_Inr:
  "transaction env op w = (Inr x, w') \<Longrightarrow> \<exists>i now d. op i now d = Inr (w_db w', x)"
  by (fastforce simp: transaction_def Let_def split: sum.splits)

lemma session_Inr: "session env op w = (Inr x, w') \<Longrightarrow> \<exists>d. op d = Inr (w_db w', x)"
  by (fastforce simp: session_def Let_def split: sum.splits)

lemma reads_Inr: "reads env f w = (Inr x, w') \<Longrightarrow> f (w_db w') = Inr x"
  by (auto simp: reads_def dest!: committed_Inr)

lemma released_db: "release f w = (r, w') \<Longrightarrow> w_db w' = w_db w"
  by (auto simp: release_def split: if_splits)

lemma upsert_in: "(rows', r) = upsert key f new rows \<Longrightarrow> r \<in> set rows'"
  by (auto simp: upsert_def find_Some_iff split: option.splits)

lemma registered:
  assumes "register_repository env gh lcase owner repo w = (Inr r, w')"
  shows "fetch repo_id (repo_id r) (db_repositories (w_db w')) = Some r"
proof -
  from assms obtain i data d where reg: "register lcase i data d = Inr (w_db w', r)"
    by (auto simp: register_repository_def runs_Inr dest!: committed_Inr)
  have "r \<in> set (db_repositories (w_db w'))"
    using register_Inr(1,3) [OF reg] by (auto intro: upsert_in)
  with register_Inr(2) [OF reg] show ?thesis by (simp add: fetch_distinct)
qed

lemma imported:
  assumes "import_issue env gh repository number w = (Inr r, w')"
  shows "fetch iss_id (iss_id r) (db_issues (w_db w')) = Some r"
    and "iss_repository_id r = repository" and "iss_github_issue_number r = number"
proof -
  from assms obtain i data d where st: "store_issue i repository number data d = Inr (w_db w', r)"
    by (auto simp: import_issue_def runs_Inr dest!: committed_Inr)
  have "r \<in> set (db_issues (w_db w'))"
    using store_issue_Inr(1,7) [OF st] by (auto intro: upsert_in)
  with store_issue_Inr(2) [OF st] show "fetch iss_id (iss_id r) (db_issues (w_db w')) = Some r" by (simp add: fetch_distinct)
  have "issue_key r = (repository, number)"
    using issues.upsert_key [where i = i and p = "((repository, number), data)" and rows = "db_issues d"] store_issue_Inr(7) [OF st]
    by simp
  then show "iss_repository_id r = repository" and "iss_github_issue_number r = number" by (simp_all add: issue_key_def)
qed

lemma reconciled_run:
  assumes "reconcile rid now d = Inr (d', resp)"
  shows "\<exists>run. find_run rid d' = Some run \<and> run_status run = er_status resp"
proof -
  from assms obtain run s ts run' ts' where l: "load rid d = Inr (run, s, ts)"
    and adv: "advance_run now run s ts = Inr (run', ts')" and resp: "response run' s ts' = Inr resp"
    and d': "d' = save now run' ts' d"
    by (auto simp: reconcile_def split: prod.splits elim!: bindE_InrE)
  from l have "find_run rid d = Some run" by (auto simp: load_def Let_def elim!: block_elims)
  moreover have "run_id run' = rid" using advance_run_same [OF adv] load_run_id [OF l] by (simp add: same_run_def)
  moreover have "run_status run' = er_status resp" using resp by (auto simp: response_def split: sum.splits)
  ultimately show ?thesis
    by (auto simp: d' save_def save_run_def save_tasks_def find_run_def fetch_put)
qed

text \<open>The row of the pull request after its transaction.\<close>

lemma find_put:
  "List.find (\<lambda>r. f r = i) rows = Some r \<Longrightarrow> f r' = i \<Longrightarrow> key r' = key r \<Longrightarrow>
    List.find (\<lambda>r. f r = i) (put key r' rows) = Some r'"
  by (induction rows) (auto split: if_splits)

lemma recorded_pull_request:
  assumes "record_pull_request rid remote fresh d = Inr d'"
  shows "\<exists>row. pull_request_of rid d' = Some row \<and> prr_github_pr_number row = ppr_number remote \<and>
    prr_github_url row = ppr_html_url remote \<and> prr_status row = ppr_state remote"
proof (cases "pull_request_of rid d")
  case None
  with assms show ?thesis
    by (auto simp: record_pull_request_def insert_pull_request_def pull_request_of_def find_append split: if_splits)
next
  case (Some r)
  then have "prr_execution_run_id r = rid" by (auto simp: pull_request_of_def find_Some_iff)
  with assms Some find_put [of prr_execution_run_id rid "db_pull_requests d" r "r\<lparr>prr_status := ppr_state remote\<rparr>" prr_id]
  show ?thesis
    by (auto simp: record_pull_request_def save_pull_request_def pull_request_of_def split: if_splits)
qed

lemma finished_pull_request:
  assumes "publication_finish p journal_id remote fresh now d = Inr d'"
  shows "\<exists>row. pull_request_of (pub_execution_id p) d' = Some row \<and> prr_github_pr_number row = ppr_number remote \<and>
    prr_github_url row = ppr_html_url remote \<and> prr_status row = ppr_state remote"
proof -
  from assms obtain d1 where rec: "record_pull_request (pub_execution_id p) remote fresh d = Inr d1"
    and "db_pull_requests d' = db_pull_requests d1"
    by (auto simp: publication_finish_def save_agent_def)
  then have "pull_request_of (pub_execution_id p) d' = pull_request_of (pub_execution_id p) d1"
    by (simp add: pull_request_of_def)
  with recorded_pull_request [OF rec] show ?thesis by simp
qed

lemma remote_published:
  assumes "publish_remote env st workspace p journal_id w = (Inr remote, w')"
  shows "\<exists>row. pull_request_of (pub_execution_id p) (w_db w') = Some row \<and> prr_github_pr_number row = ppr_number remote \<and>
    prr_github_url row = ppr_html_url remote \<and> prr_status row = ppr_state remote"
  using assms
  by (auto simp: publish_remote_def runs_Inr dest!: committed_Inr intro: finished_pull_request)

lemma publication_published:
  assumes "publication_run env st digest rid ctx required w = (Inr remote, w')"
  shows "\<exists>row. pull_request_of rid (w_db w') = Some row \<and> prr_github_pr_number row = ppr_number remote \<and>
    prr_github_url row = ppr_html_url remote \<and> prr_status row = ppr_state remote"
proof -
  have raises: "publish_failure env journal_id e s \<noteq> (Inr y, t)" for journal_id e s y t
    by (auto simp: publish_failure_def seqM_def bindM_def raise_def split: prod.splits sum.splits)
  from assms obtain w1 where "scoped () (locked env st (execution_workspace env st (cr_id (cs_repository ctx)) rid)
      (publication_attempt env st digest rid ctx required)) (\<lambda>_ e. raise e) w1 = (Inr remote, w')"
    by (auto simp: publication_run_def runs_Inr)
  from scoped_Inr [OF this] obtain u where "locked env st (execution_workspace env st (cr_id (cs_repository ctx)) rid)
      (publication_attempt env st digest rid ctx required) (w1, ()) = (Inr remote, (w', u))"
    by (auto simp: raise_def)
  then obtain safe w2 w3 where body: "publication_attempt env st digest rid ctx required safe (w2, ()) = (Inr remote, (w3, ()))"
    and "release (lock_of safe) w3 = (Inr (), w')"
    unfolding locked_def by (auto simp: runs_Inr on_world_Inr)
  then have db: "w_db w' = w_db w3" by (simp add: released_db)
  from body obtain checkout p journal_id w4 where "publish_remote env st checkout p journal_id w4 = (Inr remote, w3)"
    and "pub_execution_id p = rid"
    by (auto simp: publication_attempt_def on_world_Inr runs_Inr catchM_Inr [OF raises] publication_of_def split: prod.splits)
  with remote_published show ?thesis unfolding db by metis
qed

section \<open>The stages\<close>

text \<open>The checkout of the repository is at the commit the workflow was given by its \<open>Sync\<close> stage.\<close>

definition at_source_commit :: "'x stages \<Rightarrow> uuid \<Rightarrow> metadata \<Rightarrow> 'x world \<Rightarrow> bool" where
  "at_source_commit sg repository data w \<longleftrightarrow> (\<exists>commit. data ''source_commit'' = Some (JStr commit) \<and>
     fst (locked_repository (sg_env sg) (sg_workspace sg) repository (verify_checkout (sg_env sg) (sg_workspace sg)) w) = Inr commit)"

lemma revision_verified:
  assumes "verify_revision sg repository data w = (Inr (), w')"
  shows "at_source_commit sg repository data w"
proof -
  from assms obtain commit where "data ''source_commit'' = Some (JStr commit)"
    and "locked_repository (sg_env sg) (sg_workspace sg) repository (verify_checkout (sg_env sg) (sg_workspace sg)) w = (Inr commit, w')"
    unfolding verify_revision_def locked_repository_def with_lock_def
    by (fastforce simp: runs_Inr check_revision_def data_value_def split: option.splits)
  then show ?thesis by (auto simp: at_source_commit_def)
qed

lemma implemented:
  assumes "stage_implement sg rid ctx config w = (Inr r, w')"
  shows "\<not> sr_repeat r \<Longrightarrow> \<exists>run. find_run rid (w_db w') = Some run \<and> run_status run = ''completed''"
    and "sr_repeat r \<Longrightarrow> \<exists>task report v. rcr_passed report \<and>
      recovery_run (sg_env sg) (sg_settings sg) (sg_render sg) (sg_sandbox sg) rid task ctx config v = (Inr report, w')"
  using assms
  by (auto simp: stage_implement_def runs_Inr stage_data_def split: if_splits option.splits dest!: committed_Inr
    dest: reconciled_run)

lemma reviewed:
  assumes "stage_review sg rid ctx config w = (Inr r, w')"
  shows "\<exists>e. publication_check (sg_digest sg) rid ctx config (w_db w') = Inr e"
  using assms by (auto simp: stage_review_def runs_Inr dest!: reads_Inr)

lemma published:
  assumes "stage_publish sg rid ctx config w = (Inr r, w')"
  shows "\<exists>row. pull_request_of rid (w_db w') = Some row \<and> r = stage_data [(''pull_request_url'', JStr (prr_github_url row))]"
  using assms by (auto simp: stage_publish_def runs_Inr dest!: publication_published)

lemma indexed:
  assumes "stage_indexing sg repository data w = (Inr r, w')"
  shows "\<exists>scan limits v report. index_source (sg_env sg) (sg_workspace sg) scan limits repository v = (Inr report, w') \<and>
    data ''source_commit'' = Some (JStr (ixr_commit report))"
  using assms by (fastforce simp: stage_indexing_def runs_Inr check_revision_def data_value_def split: option.splits)

lemma embedded:
  assumes "stage_embed sg repository w = (Inr r, w')"
  shows "\<exists>em n v report. embedding_generate (sg_env sg) (sg_workspace sg) (sg_embed sg) em n repository v = (Inr report, w')"
  using assms by (fastforce simp: stage_embed_def runs_Inr)

lemma contextual:
  assumes "stage_context sg issue w = (Inr r, w')"
  shows "\<exists>v c. build_context (sg_env sg) (hybrid sg) (sg_settings sg) issue v = (Inr c, w') \<and>
    r = stage_data [(''context'', JContext c)]"
  using assms by (auto simp: stage_context_def runs_Inr)

lemma checked_out:
  assumes "stage_workspace sg repository rid data w = (Inr r, w')"
  shows "\<exists>commit. data ''source_commit'' = Some (JStr commit) \<and>
    ((\<exists>v v'. verify_checkout (sg_env sg) (sg_workspace sg)
        (execution_workspace (sg_env sg) (sg_settings sg) repository rid) v = (Inr commit, v')) \<or>
     (\<exists>p v. create_execution_workspace (sg_env sg) (sg_workspace sg) repository rid v = (Inr (p, commit), w')))"
  using assms
  by (fastforce simp: stage_workspace_def Let_def runs_Inr check_revision_def data_value_def
    split: option.splits if_splits prod.splits)

text \<open>What a stage has left behind when it returns.\<close>

definition stage_done :: "'x stages \<Rightarrow> stage_claim \<Rightarrow> 'x world \<Rightarrow> stage_result \<Rightarrow> 'x world \<Rightarrow> bool" where
  "stage_done sg claim w r w' \<longleftrightarrow> (let data = wc_data claim; d = w_db w'; env = sg_env sg; wc = sg_workspace sg in
   case wc_stage claim of
     Repository \<Rightarrow> \<exists>i. sr_data r = [''repository_id'' \<mapsto> JId i] \<and> fetch repo_id i (db_repositories d) \<noteq> None
   | Sync \<Rightarrow> \<exists>repository p commit. data ''repository_id'' = Some (JId repository) \<and> sr_data r = [''source_commit'' \<mapsto> JStr commit] \<and>
       prepare_registered_repository env wc repository w = (Inr (p, commit), w')
   | Index \<Rightarrow> \<exists>repository scan limits v report. data ''repository_id'' = Some (JId repository) \<and> sr_data r = Map.empty \<and>
       at_source_commit sg repository data w \<and> index_source env wc scan limits repository v = (Inr report, w') \<and>
       data ''source_commit'' = Some (JStr (ixr_commit report))
   | Embed \<Rightarrow> \<exists>repository em n v report. data ''repository_id'' = Some (JId repository) \<and> sr_data r = Map.empty \<and>
       at_source_commit sg repository data w \<and> embedding_generate env wc (sg_embed sg) em n repository v = (Inr report, w')
   | Issue \<Rightarrow> \<exists>repository i row. data ''repository_id'' = Some (JId repository) \<and> sr_data r = [''issue_id'' \<mapsto> JId i] \<and>
       fetch iss_id i (db_issues d) = Some row \<and> iss_repository_id row = repository \<and>
       iss_github_issue_number row = wr_issue_number (wc_request claim)
   | Context \<Rightarrow> \<exists>repository issue v c. data ''repository_id'' = Some (JId repository) \<and> data ''issue_id'' = Some (JId issue) \<and>
       at_source_commit sg repository data w \<and> build_context env (hybrid sg) (sg_settings sg) issue v = (Inr c, w') \<and>
       sr_data r = [''context'' \<mapsto> JContext c]
   | Plan \<Rightarrow> \<exists>i. sr_data r = [''plan_id'' \<mapsto> JId i] \<and> fetch plan_id i (db_plans d) \<noteq> None
   | Execution \<Rightarrow> \<exists>i. sr_data r = [''execution_id'' \<mapsto> JId i] \<and> find_run i d \<noteq> None
   | Workspace \<Rightarrow> \<exists>repository rid commit. data ''repository_id'' = Some (JId repository) \<and> sr_data r = Map.empty \<and>
       data ''execution_id'' = Some (JId rid) \<and> at_source_commit sg repository data w \<and> data ''source_commit'' = Some (JStr commit) \<and>
       ((\<exists>v v'. verify_checkout env wc (execution_workspace env (sg_settings sg) repository rid) v = (Inr commit, v')) \<or>
        (\<exists>p v. create_execution_workspace env wc repository rid v = (Inr (p, commit), w')))
   | Implement \<Rightarrow> \<exists>rid. data ''execution_id'' = Some (JId rid) \<and> sr_data r = Map.empty \<and>
       (if sr_repeat r then \<exists>task context config report v. data ''context'' = Some (JContext context) \<and> rcr_passed report \<and>
            recovery_run env (sg_settings sg) (sg_render sg) (sg_sandbox sg) rid task context config v = (Inr report, w')
        else \<exists>run. find_run rid d = Some run \<and> run_status run = ''completed'')
   | Review \<Rightarrow> \<exists>rid context cs evidence. data ''execution_id'' = Some (JId rid) \<and> data ''context'' = Some (JContext context) \<and>
       data ''required_commands'' = Some (JStrs cs) \<and> sr_data r = Map.empty \<and>
       publication_check (sg_digest sg) rid context \<lparr>required_commands = cs\<rparr> d = Inr evidence
   | Publish \<Rightarrow> \<exists>rid row. data ''execution_id'' = Some (JId rid) \<and> pull_request_of rid d = Some row \<and>
       sr_data r = [''pull_request_url'' \<mapsto> JStr (prr_github_url row)]
   | Done \<Rightarrow> False)"

lemma data_id_Inr: "data_id k data = Inr i \<longleftrightarrow> data k = Some (JId i)"
  unfolding data_id_def data_value_def by (cases "data k"; cases "the (data k)") simp_all

lemma data_context_Inr: "data_context data = Inr c \<longleftrightarrow> data ''context'' = Some (JContext c)"
  unfolding data_context_def data_value_def by (cases "data ''context''"; cases "the (data ''context'')") simp_all

lemma data_config_Inr: "data_config data = Inr c \<Longrightarrow> data ''required_commands'' = Some (JStrs (required_commands c))"
  unfolding data_config_def data_value_def
  by (cases "data ''required_commands''"; cases "the (data ''required_commands'')") (auto split: if_splits)

lemma fetched_in: "i \<in> f ` set rows \<longleftrightarrow> fetch f i rows \<noteq> None"
  by (simp add: fetch_None)

lemmas stage_runs = run_stage_def issue_stage_def late_stage_def runs_Inr data_id_Inr data_context_Inr Let_def

lemma early_done:
  assumes "run_stage sg claim w = (Inr r, w')" and "wc_stage claim \<in> {Repository, Sync, Index, Embed}"
  shows "stage_done sg claim w r w'"
  using assms(2)
proof (elim insertE emptyE)
  assume s: "wc_stage claim = Repository"
  with assms(1) obtain row where reg: "register_repository (sg_env sg) (sg_github sg) (sg_lcase sg)
      (wr_github_owner (wc_request claim)) (wr_github_name (wc_request claim)) w = (Inr row, w')"
    and "r = stage_data [(''repository_id'', JId (repo_id row))]"
    by (auto simp: run_stage_def stage_repository_def runs_Inr)
  with s registered [OF reg] show ?thesis by (auto simp: stage_done_def stage_data_def)
next
  assume s: "wc_stage claim = Sync"
  with assms(1) show ?thesis by (auto simp: stage_runs stage_sync_def stage_done_def stage_data_def split: prod.splits)
next
  assume s: "wc_stage claim = Index"
  with assms(1) obtain i w1 where d: "wc_data claim ''repository_id'' = Some (JId i)"
    and v: "verify_revision sg i (wc_data claim) w = (Inr (), w1)"
    and run: "stage_indexing sg i (wc_data claim) w1 = (Inr r, w')"
    by (auto simp: stage_runs)
  from runs_indexing [OF run] have "sr_data r = Map.empty" by (simp add: stage_data_def)
  with s d revision_verified [OF v] indexed [OF run] show ?thesis by (simp add: stage_done_def)
next
  assume s: "wc_stage claim = Embed"
  with assms(1) obtain i w1 where d: "wc_data claim ''repository_id'' = Some (JId i)"
    and v: "verify_revision sg i (wc_data claim) w = (Inr (), w1)"
    and run: "stage_embed sg i w1 = (Inr r, w')"
    by (auto simp: stage_runs)
  from runs_embed [OF run] have "sr_data r = Map.empty" by (simp add: stage_data_def)
  with s d revision_verified [OF v] embedded [OF run] show ?thesis by (simp add: stage_done_def)
qed

lemma middle_done:
  assumes "run_stage sg claim w = (Inr r, w')" and "wc_stage claim \<in> {Issue, Context, Plan, Execution, Workspace}"
  shows "stage_done sg claim w r w'"
  using assms(2)
proof (elim insertE emptyE)
  assume s: "wc_stage claim = Issue"
  with assms(1) obtain i row where d: "wc_data claim ''repository_id'' = Some (JId i)"
    and imp: "import_issue (sg_env sg) (sg_github sg) i (wr_issue_number (wc_request claim)) w = (Inr row, w')"
    and "r = stage_data [(''issue_id'', JId (iss_id row))]"
    by (auto simp: stage_runs stage_issue_def)
  with s imported [OF imp] show ?thesis by (auto simp: stage_done_def stage_data_def)
next
  assume s: "wc_stage claim = Context"
  with assms(1) obtain i j w1 where d: "wc_data claim ''repository_id'' = Some (JId i)" "wc_data claim ''issue_id'' = Some (JId j)"
    and v: "verify_revision sg i (wc_data claim) w = (Inr (), w1)" and run: "stage_context sg j w1 = (Inr r, w')"
    by (auto simp: stage_runs)
  from contextual [OF run] obtain v' c where "build_context (sg_env sg) (hybrid sg) (sg_settings sg) j v' = (Inr c, w')"
    and "sr_data r = [''context'' \<mapsto> JContext c]"
    by (auto simp: stage_data_def)
  with s d revision_verified [OF v] show ?thesis unfolding stage_done_def Let_def s stage.case by (intro exI conjI)
next
  assume s: "wc_stage claim = Plan"
  with assms(1) obtain j c where "stage_plan sg claim j c w = (Inr r, w')"
    by (auto simp: stage_runs)
  note made = plan_stage_creates [OF this]
  from s made(1) made(2) [unfolded fetched_in] show ?thesis by (auto simp: stage_done_def stage_data_def)
next
  assume s: "wc_stage claim = Execution"
  with assms(1) have "stage_execution sg claim (wc_data claim) w = (Inr r, w')"
    by (auto simp: stage_runs)
  note made = execution_stage_creates [OF this]
  from s made(1) made(2) [unfolded fetched_in] show ?thesis by (auto simp: stage_done_def stage_data_def find_run_def)
next
  assume s: "wc_stage claim = Workspace"
  with assms(1) obtain i rid w1 where d: "wc_data claim ''repository_id'' = Some (JId i)"
      "wc_data claim ''execution_id'' = Some (JId rid)"
    and v: "verify_revision sg i (wc_data claim) w = (Inr (), w1)"
    and run: "stage_workspace sg i rid (wc_data claim) w1 = (Inr r, w')"
    by (auto simp: stage_runs)
  from runs_workspace [OF run] have "sr_data r = Map.empty" by (simp add: stage_data_def)
  with s d revision_verified [OF v] checked_out [OF run] show ?thesis by (simp add: stage_done_def)
qed

lemma late_done:
  assumes "run_stage sg claim w = (Inr r, w')" and "wc_stage claim \<in> {Implement, Review, Publish}"
  shows "stage_done sg claim w r w'"
proof -
  from assms obtain rid c config w1 where d: "wc_data claim ''execution_id'' = Some (JId rid)" "wc_data claim ''context'' = Some (JContext c)"
    and cfg: "data_config (wc_data claim) = Inr config" and run: "(case wc_stage claim of
       Implement \<Rightarrow> stage_implement sg rid c config
     | Review \<Rightarrow> stage_review sg rid c config
     | Publish \<Rightarrow> stage_publish sg rid c config
     | _ \<Rightarrow> raise (workflow_error ''workflow_unknown_stage'')) w = (Inr r, w')"
    by (auto simp: stage_runs)
  from assms(2) show ?thesis
  proof (elim insertE emptyE)
    assume s: "wc_stage claim = Implement"
    with run have i: "stage_implement sg rid c config w = (Inr r, w')" by simp
    from s d runs_implement [OF i] implemented [OF i] show ?thesis by (auto simp: stage_done_def)
  next
    assume s: "wc_stage claim = Review"
    with run have i: "stage_review sg rid c config w = (Inr r, w')" by simp
    from runs_review [OF i] have "sr_data r = Map.empty" by (simp add: stage_data_def)
    with s d reviewed [OF i] data_config_Inr [OF cfg] show ?thesis
      by (cases config) (auto simp: stage_done_def)
  next
    assume s: "wc_stage claim = Publish"
    with run have i: "stage_publish sg rid c config w = (Inr r, w')" by simp
    from s d published [OF i] show ?thesis by (auto simp: stage_done_def stage_data_def)
  qed
qed

text \<open>C2. A stage of a workflow that returns has left behind what the workflow goes on with, whatever the
  environment did: the stage of the repository and that of the issue a stored row, for the issue of that
  repository and with the requested number; the plan and the execution stage a stored row with the identifier
  in the result; the stages that read the checkout ran only after the checkout was found at the commit of the
  \<open>sync\<close> stage, and the index and the workspace are of that commit; the implementation stage ends only with a
  completed run, and is repeated only after a task whose tests passed; the review stage ends only when the
  publication gate accepts the database it leaves; and the publication stage ends only with the stored row of
  the pull request whose address it returns.\<close>

theorem stages_gated:
  assumes "run_stage sg claim w = (Inr r, w')"
  shows "stage_done sg claim w r w'"
proof (cases "wc_stage claim")
  case Done
  with run_stage_output [OF assms] show ?thesis by (simp add: stage_output_def)
qed (use early_done [OF assms] middle_done [OF assms] late_done [OF assms] in simp_all)

lemma stages_gated_witness:
  "\<exists>r w'. run_stage example_stages (example_claim Plan) (example_world example_db) = (Inr r, w') \<and>
     stage_done example_stages (example_claim Plan) (example_world example_db) r w' \<and> sr_data r ''plan_id'' = Some (JId 9004)"
proof -
  have "run_stage example_stages (example_claim Plan) w = stage_plan example_stages (example_claim Plan) 2 example_context w" for w
    by (simp add: run_stage_def issue_stage_def data_id_def data_value_def data_context_def example_claim_def
      bindM_def seqM_def liftE_def ret_def Let_def)
  moreover have "case fst (stage_plan example_stages (example_claim Plan) 2 example_context (example_world example_db)) of
      Inl _ \<Rightarrow> False | Inr r \<Rightarrow> sr_data r ''plan_id'' = Some (JId 9004)"
    by code_simp
  ultimately obtain r w' where run: "run_stage example_stages (example_claim Plan) (example_world example_db) = (Inr r, w')"
    and "sr_data r ''plan_id'' = Some (JId 9004)"
    by (cases "stage_plan example_stages (example_claim Plan) 2 example_context (example_world example_db)")
      (auto split: sum.splits)
  then show ?thesis using stages_gated [OF run] by blast
qed

end
