(* ===== verification/Run_Liveness.thy ===== *)
theory Run_Liveness
  imports Task_Progress
begin

text \<open>
  Every run that the services create stays loadable: its snapshot validates and its rows match it, whatever
  transactions come after. So a reconciliation and a recovery of stale runs never raise, and the pass over
  all unfinished runs reaches each of them.
\<close>

section \<open>Every run loads\<close>

definition runs_load :: "db \<Rightarrow> bool" where
  "runs_load d \<longleftrightarrow> (\<forall>rid \<in> run_id ` set (db_runs d). \<exists>x. load rid d = Inr x) \<and>
     te_execution_run_id ` set (db_task_executions d) \<subseteq> run_id ` set (db_runs d)"

lemma same_run_fetch:
  "list_all2 same_run rs rs' \<Longrightarrow> fetch run_id rid rs = Some r \<Longrightarrow> \<exists>r'. fetch run_id rid rs' = Some r' \<and> same_run r r'"
  by (induction rule: list_all2_induct) (auto simp: same_run_def split: if_splits)

lemma progressed_filter:
  assumes "list_all2 progressed ts ts'"
  shows "map te_plan_task_id (filter (\<lambda>t. te_execution_run_id t = rid) ts') =
      map te_plan_task_id (filter (\<lambda>t. te_execution_run_id t = rid) ts)"
    and "map te_attempt (filter (\<lambda>t. te_execution_run_id t = rid) ts') =
      map te_attempt (filter (\<lambda>t. te_execution_run_id t = rid) ts)"
    and "te_execution_run_id ` set ts' = te_execution_run_id ` set ts"
  using assms by (induction rule: list_all2_induct) (auto simp: progressed_def same_task_def)

lemma load_ok:
  "(\<exists>x. load rid d = Inr x) \<longleftrightarrow> (\<exists>run s. find_run rid d = Some run \<and> load_snapshot run = Inr s \<and>
     length (run_tasks rid d) = length (snap_task_ids s) \<and>
     te_plan_task_id ` set (run_tasks rid d) = snd ` set (snap_task_ids s) \<and>
     (\<forall>r \<in> set (run_tasks rid d). te_attempt r = 1))"
  by (auto simp: load_def Let_def requireE_def bindE_def someE_def split: option.splits sum.splits)

lemma grows_load:
  assumes "grows d d'" and "load rid d = Inr x"
  shows "\<exists>y. load rid d' = Inr y"
proof -
  have ts: "list_all2 progressed (db_task_executions d) (db_task_executions d')"
    and rs: "list_all2 same_run (db_runs d) (db_runs d')" using assms(1) by (simp_all add: grows_def)
  have same: "map te_plan_task_id (run_tasks rid d') = map te_plan_task_id (run_tasks rid d)"
    "map te_attempt (run_tasks rid d') = map te_attempt (run_tasks rid d)"
    using progressed_filter(1,2) [OF ts, of rid] by (simp_all add: run_tasks_def)
  from assms(2) load_ok [of rid d] obtain run s where run: "find_run rid d = Some run" "load_snapshot run = Inr s"
    and tasks: "length (run_tasks rid d) = length (snap_task_ids s)"
      "te_plan_task_id ` set (run_tasks rid d) = snd ` set (snap_task_ids s)"
      "\<forall>r \<in> set (run_tasks rid d). te_attempt r = 1" by blast
  from run(1) same_run_fetch [OF rs] obtain run' where "find_run rid d' = Some run'" and "same_run run run'"
    by (auto simp: find_run_def)
  moreover from this(2) run(2) have "load_snapshot run' = Inr s" by (simp add: load_snapshot_def same_run_def)
  moreover have "length (run_tasks rid d') = length (run_tasks rid d)" using same(1) by (metis length_map)
  moreover have "te_plan_task_id ` set (run_tasks rid d') = te_plan_task_id ` set (run_tasks rid d)"
    and "te_attempt ` set (run_tasks rid d') = te_attempt ` set (run_tasks rid d)"
    using same by (metis list.set_map)+
  then have "te_plan_task_id ` set (run_tasks rid d') = snd ` set (snap_task_ids s)"
    and "\<forall>r \<in> set (run_tasks rid d'). te_attempt r = 1" using tasks(2,3) by auto
  ultimately show ?thesis unfolding load_ok using tasks(1) by auto
qed

lemma grows_runs_load: "grows d d' \<Longrightarrow> runs_load d \<Longrightarrow> runs_load d'"
proof -
  assume g: "grows d d'" and ok: "runs_load d"
  have "run_id ` set (db_runs d') = run_id ` set (db_runs d)"
  proof -
    have "list_all2 same_run (db_runs d) (db_runs d')" using g by (simp add: grows_def)
    then have "map run_id (db_runs d') = map run_id (db_runs d)"
      by (induction rule: list_all2_induct) (auto simp: same_run_def)
    then show ?thesis by (metis list.set_map)
  qed
  moreover have "te_execution_run_id ` set (db_task_executions d') = te_execution_run_id ` set (db_task_executions d)"
    using g progressed_filter(3) by (simp add: grows_def)
  ultimately show ?thesis using ok grows_load [OF g] unfolding runs_load_def by metis
qed

lemma create_runs_load:
  assumes c: "create pid identifier fresh now d = Inr (d', rid)" and ok: "runs_load d"
  shows "runs_load d'"
proof -
  from c obtain rows snapshot where new: "rid \<notin> run_id ` set (db_runs d)" and rows: "rows = plan_rows pid d"
    and d': "d' = d\<lparr>db_runs := db_runs d @ [new_run rid pid snapshot now],
                 db_task_executions := db_task_executions d @ created_tasks fresh rid rows\<rparr>"
    by (rule create_Inr)
  have "run_tasks rid d = []" using ok new by (auto simp: runs_load_def run_tasks_def filter_empty_conv)
  from create_loads [OF c this] have own: "\<exists>x. load rid d' = Inr x" by blast
  have "load i d' = load i d" if "i \<in> run_id ` set (db_runs d)" for i
  proof (rule load_other)
    show "find_run i d' = find_run i d"
      using that fetch_None [of run_id i "db_runs d"] by (auto simp: d' find_run_def split: option.splits)
    show "run_tasks i d' = run_tasks i d"
      using that new created_tasks_props(3) [of _ fresh rid rows] by (auto simp: d' run_tasks_def filter_empty_conv)
  qed
  with ok own created_tasks_props(3) [of _ fresh rid rows] show ?thesis
    by (auto simp: runs_load_def d' new_run_def)
qed

definition runs_inv :: "db \<Rightarrow> bool" where
  "runs_inv d \<longleftrightarrow> platform_inv d \<and> runs_load d"

lemma runs_inv_parts: "runs_inv d \<Longrightarrow> exec_inv d" "runs_inv d \<Longrightarrow> runs_load d"
  by (simp_all add: runs_inv_def platform_inv_def)

interpretation loading: invariant_system no_executions exec_step runs_inv
proof
  show "runs_inv d" if "no_executions d" for d
    using that no_executions_platform by (simp add: runs_inv_def runs_load_def no_executions_def)
next
  show "runs_inv d'" if inv: "runs_inv d" and step: "exec_step d d'" for d d'
    using step_grows [OF step runs_inv_parts(1) [OF inv]] inv step_platform [OF step]
    by (auto simp: runs_inv_def intro: grows_runs_load create_runs_load)
qed

section \<open>Operations that never raise\<close>

lemma load_order:
  assumes "load rid d = Inr (run, s, ts)"
  shows "\<exists>ks. plan_order (snap_proposal s) = Inr ks" and "fst ` set ts \<noteq> {}"
proof -
  note valid = load_valid_plan(1) [OF assms]
  then show "\<exists>ks. plan_order (snap_proposal s) = Inr ks" by (simp add: validate_plan_Inr)
  from valid have "plan_tasks (snap_proposal s) \<noteq> []"
    by (auto simp: validate_plan_Inr validate_plan_fields_id valid_tuple_def split: if_splits)
  then show "fst ` set ts \<noteq> {}" unfolding load_fst_dag [OF assms] snapshot_dag_def by simp
qed

lemma loaded_task:
  assumes "load rid d = Inr (run, s, ts)"
  obtains k t where "(k, t) \<in> set ts"
proof -
  from load_order(2) [OF assms] have "ts \<noteq> []" by simp
  then have "(fst (hd ts), snd (hd ts)) \<in> set ts" by simp
  with that show thesis .
qed

lemma advance_total:
  assumes inv: "exec_inv d" and l: "load rid d = Inr (run, s, ts)"
  obtains states ts' where "advance (snapshot_dag s) (statuses ts) = Inr states" and "apply_states states ts = Inr ts'"
    and "\<And>k t. (k, t) \<in> set ts \<Longrightarrow> state_of states k = te_status t \<or>
      te_status t = ''pending'' \<and> state_of states k \<in> {''blocked'', ''queued''}"
proof -
  from load_order(1) [OF l] obtain ks where ks: "execution_order (snapshot_dag s) = Inr ks"
    by (auto simp: plan_order_def snapshot_dag_def)
  have "fst ` set (statuses ts) = fst ` set (snapshot_dag s)"
    using load_fst_dag [OF l] by (metis list.set_map map_fst_statuses)
  with ks obtain states where adv: "advance (snapshot_dag s) (statuses ts) = Inr states"
    by (simp add: advance_Inr)
  note loaded = exec_inv_load [OF inv l]
  have st: "state_of states k = te_status t \<or> te_status t = ''pending'' \<and> state_of states k \<in> {''blocked'', ''queued''}"
    if kt: "(k, t) \<in> set ts" for k t
  proof -
    have "k \<in> fst ` set (snapshot_dag s)" using kt load_fst_dag [OF l] by force
    from advance_settle [OF load_valid_plan(3) [OF l] adv this] kt loaded(2)
    have "state_of states k = settle (te_status t) (map (state_of states) (parents_of (snapshot_dag s) k))"
      by (simp add: state_of_statuses)
    with settle_cases [of "te_status t" "map (state_of states) (parents_of (snapshot_dag s) k)"]
    show ?thesis by simp
  qed
  have "\<exists>y. (\<lambda>(k, t). bindE (task_state t (state_of states k)) (\<lambda>t'. Inr (k, t'))) x = Inr y" if "x \<in> set ts" for x
  proof -
    obtain k t where x: "x = (k, t)" by fastforce
    have "te_status t \<in> set (known TASK_EDGES)"
    proof -
      have "k \<in> fst ` set (snapshot_dag s)" using that x load_fst_dag [OF l] by force
      from agrees_known [OF run_inv_agrees [OF loaded(1) this]] that x loaded(2) show ?thesis
        by (simp add: state_of_statuses)
    qed
    moreover have "state_of states k = te_status t \<or> te_status t = ''pending'' \<and> state_of states k \<in> {''blocked'', ''queued''}"
      using that x st by simp
    ultimately have "task_state t (state_of states k) = Inr (t\<lparr>te_status := state_of states k\<rparr>)"
      unfolding task_state_Inr
      by (elim disjE conjE) (simp_all, auto simp: task_known task_successors)
    then show ?thesis by (simp add: x)
  qed
  then have "\<exists>ys. mapE (\<lambda>(k, t). bindE (task_state t (state_of states k)) (\<lambda>t'. Inr (k, t'))) ts = Inr ys"
    by (rule mapE_total)
  then obtain ts' where "apply_states states ts = Inr ts'" unfolding apply_states_def by blast
  from that [OF adv this st] show thesis .
qed

lemma loaded_agrees:
  assumes "exec_inv d" and "load rid d = Inr (run, s, ts)" and "(k, t) \<in> set ts"
  shows "agrees (run_status run) (te_status t)"
proof -
  note loaded = exec_inv_load [OF assms(1,2)]
  have "k \<in> fst ` set (snapshot_dag s)" using assms(3) load_fst_dag [OF assms(2)] by force
  from run_inv_agrees [OF loaded(1) this] assms(3) loaded(2) show ?thesis by (simp add: state_of_statuses)
qed

lemma agrees_status: "agrees run task \<Longrightarrow> run \<in> {''pending'', ''running'', ''completed'', ''failed'', ''cancelled''}"
  by (simp add: agrees_def split: if_split_asm)

lemma reconcile_total:
  assumes inv: "exec_inv d" and l: "load rid d = Inr (run, s, ts)"
  shows "\<exists>d' resp. reconcile rid now d = Inr (d', resp)"
proof -
  obtain states ts' where adv: "advance (snapshot_dag s) (statuses ts) = Inr states"
    and app: "apply_states states ts = Inr ts'"
    and st: "\<And>k t. (k, t) \<in> set ts \<Longrightarrow> state_of states k = te_status t \<or>
      te_status t = ''pending'' \<and> state_of states k \<in> {''blocked'', ''queued''}"
    using advance_total [OF inv l] by blast
  define run1 where "run1 = (if run_started_at run = None then run\<lparr>run_started_at := Some now\<rparr> else run)"
  have run1: "run_status run1 = run_status run" by (simp add: run1_def)
  have fsts: "map fst states = map fst ts" using advance_keys [OF adv] by simp
  then have dist: "distinct (map fst states)" using exec_inv_load(2) [OF inv l] by simp
  have value_of: "v = state_of states k" if "(k, v) \<in> set states" for k v
    using that dist by (simp add: state_of_def)
  have "set (map fst states) = set (map fst ts)" by (simp only: fsts)
  then have keys: "fst ` set states = fst ` set ts" by simp
  have "\<exists>run' ts'. advance_run now run s ts = Inr (run', ts')"
  proof (cases "run_status run \<in> {''failed'', ''cancelled''}")
    case True
    then show ?thesis by (simp add: advance_run_finished)
  next
    case False
    define target where "target = (if \<forall>s \<in> snd ` set states. s \<in> set TERMINAL
      then if \<forall>s \<in> snd ` set states. s = ''completed'' then ''completed'' else ''failed'' else ''running'')"
    have "target = run_status run \<or> target \<in> set (successors RUN_EDGES (run_status run))"
    proof -
      obtain k t where kt: "(k, t) \<in> set ts" using l by (rule loaded_task)
      note agree = loaded_agrees [OF inv l kt]
      from keys kt obtain v where v: "(k, v) \<in> set states" by force
      from False agrees_status [OF agree] consider "run_status run = ''pending''" | "run_status run = ''running''"
        | "run_status run = ''completed''" by auto
      then show ?thesis
      proof cases
        case 1
        then have "v \<noteq> ''completed''" using agree st [OF kt] value_of [OF v] by (auto simp: agrees_def)
        with v have "\<not> (\<forall>s \<in> snd ` set states. s = ''completed'')" by force
        then show ?thesis by (simp add: 1 run_successors target_def)
      next
        case 2
        then show ?thesis by (simp add: run_successors target_def)
      next
        case 3
        have "v' = ''completed''" if "(k', v') \<in> set states" for k' v'
        proof -
          from keys that obtain t' where t': "(k', t') \<in> set ts" by force
          from loaded_agrees [OF inv l t'] 3 have "te_status t' = ''completed''" by (simp add: agrees_def)
          with st [OF t'] value_of [OF that] show ?thesis by simp
        qed
        then have "target = ''completed''" by (auto simp: target_def TERMINAL_def)
        then show ?thesis by (simp add: 3)
      qed
    qed
    then obtain run2 where run2: "execution_state run1 target = Inr run2"
      by (simp add: execution_state_Inr run1 run_known) (simp add: target_def)
    show ?thesis
    proof (cases "\<forall>s \<in> snd ` set states. s \<in> set TERMINAL")
      case True
      with run2 have "execution_state run1 (if \<forall>s \<in> snd ` set states. s = ''completed'' then ''completed'' else ''failed'') = Inr run2"
        by (simp add: target_def)
      then show ?thesis
        unfolding advance_run_def if_not_P [OF False] adv bindE_Inr app Let_def if_P [OF True] run1_def [symmetric]
        by simp
    next
      case open_task: False
      have "execution_state run1 ''running'' = Inr run2"
        using run2 unfolding target_def if_not_P [OF open_task] .
      then show ?thesis
        unfolding advance_run_def if_not_P [OF False] adv bindE_Inr app Let_def if_not_P [OF open_task] run1_def [symmetric]
        by simp
    qed
  qed
  then obtain run' ts'' where "advance_run now run s ts = Inr (run', ts'')" by blast
  moreover have "\<exists>resp. response run' s ts'' = Inr resp"
    using load_order(1) [OF l] by (auto simp: response_def)
  ultimately show ?thesis by (auto simp: reconcile_def l)
qed

lemma stop_total:
  assumes inv: "exec_inv d" and l: "load rid d = Inr (run, s, ts)"
  shows "\<exists>d'. stop_locked rid False now d = Inr d'"
proof -
  let ?agents = "running_agents rid d"
  obtain as where as: "mapE (stop_agent ''worker_interrupted'' now) ?agents = Inr as"
    using mapE_total [of ?agents "stop_agent ''worker_interrupted'' now"]
    by (auto simp: stop_agent_def agent_state_def check_def agent_known agent_successors running_agents_def)
  have "\<exists>y. (\<lambda>(k, t). bindE (stop_task False ''worker_interrupted'' t) (\<lambda>t'. Inr (k, t'))) x = Inr y"
    if x: "x \<in> set ts" for x
  proof -
    obtain k t where kt: "x = (k, t)" by fastforce
    have "te_status t \<in> set (known TASK_EDGES)"
      using agrees_known [OF loaded_agrees [OF inv l]] x kt by blast
    then have "\<exists>t'. stop_task False ''worker_interrupted'' t = Inr t'"
      by (auto simp: stop_task_def task_state_def check_def task_known task_successors)
    then show ?thesis by (auto simp: kt)
  qed
  then have "\<exists>ys. mapE (\<lambda>(k, t). bindE (stop_task False ''worker_interrupted'' t) (\<lambda>t'. Inr (k, t'))) ts = Inr ys"
    by (rule mapE_total)
  then obtain ts' where
    ts': "mapE (\<lambda>(k, t). bindE (stop_task False ''worker_interrupted'' t) (\<lambda>t'. Inr (k, t'))) ts = Inr ts'" by blast
  have "\<exists>run'. (if finished_run (run_status run) then Inr run
      else bindE (execution_state run ''failed'') (\<lambda>r. Inr (r\<lparr>run_completed_at := Some now\<rparr>))) = Inr run'"
  proof -
    obtain k t where "(k, t) \<in> set ts" using l by (rule loaded_task)
    from agrees_status [OF loaded_agrees [OF inv l this]] show ?thesis
      by (auto simp: finished_run_def execution_state_def check_def run_known run_successors)
  qed
  then obtain run' where run': "(if finished_run (run_status run) then Inr run
      else bindE (execution_state run ''failed'') (\<lambda>r. Inr (r\<lparr>run_completed_at := Some now\<rparr>))) = Inr run'" ..
  have "\<exists>d'. stop_unfinished False ''worker_interrupted'' now run ?agents ts d = Inr d'"
    unfolding stop_unfinished_def as ts' bindE_Inr if_False run' by simp
  then show ?thesis by (simp add: stop_locked_def l Let_def)
qed

lemma runs_load_in: "runs_load d \<Longrightarrow> rid \<in> run_id ` set (db_runs d) \<Longrightarrow> \<exists>run s ts. load rid d = Inr (run, s, ts)"
  by (auto simp: runs_load_def)

lemma grows_runs: "grows d d' \<Longrightarrow> map run_id (db_runs d') = map run_id (db_runs d)"
  unfolding grows_def by (elim conjE, rotate_tac, induction rule: list_all2_induct) (auto simp: same_run_def)

lemma recover_total:
  assumes inv: "runs_inv d"
  shows "\<exists>d' n. recover_stale secs locked now d = Inr (d', n)"
proof -
  let ?cutoff = "now - seconds secs"
  have "\<exists>d' n. foldE (recover_one ?cutoff now) ids (d0, m) = Inr (d', n)"
    if "set ids \<subseteq> run_id ` set (db_runs d0)" and "exec_inv d0" and "runs_load d0" for ids d0 m
    using that
  proof (induction ids arbitrary: d0 m)
    case (Cons i ids)
    from Cons.prems have "i \<in> run_id ` set (db_runs d0)" by simp
    with Cons.prems(3) obtain run s ts where l: "load i d0 = Inr (run, s, ts)" by (blast dest: runs_load_in)
    from stop_total [OF Cons.prems(2) l] obtain d1 where d1: "stop_locked i False now d0 = Inr d1" by blast
    have step: "\<exists>n'. recover_one ?cutoff now i (d0, m) = Inr (d0, n') \<or> recover_one ?cutoff now i (d0, m) = Inr (d1, n')"
      by (auto simp: recover_one_def l d1)
    note g = stop_grows [OF Cons.prems(2) d1]
    have "run_id ` set (db_runs d1) = run_id ` set (db_runs d0)"
      using grows_runs [OF g] by (metis list.set_map)
    with Cons.prems stop_locked_inv [OF Cons.prems(2) d1] grows_runs_load [OF g]
      Cons.IH [of d0] Cons.IH [of d1] step show ?case by fastforce
  qed simp
  moreover have "set (stale_runs ?cutoff locked d) \<subseteq> run_id ` set (db_runs d)"
    by (auto simp: stale_runs_def dest!: in_set_takeD)
  ultimately show ?thesis using runs_inv_parts [OF inv] by (simp add: recover_stale_def Let_def)
qed

end
