(* ===== verification/Workers.thy ===== *)
theory Workers
  imports Workflow_Run Run_Liveness
begin

text \<open>
  The worker tasks around the services: \<^verbatim>\<open>app/services/workflow_resources.py\<close> (the queue of workflow
  messages), \<^verbatim>\<open>app/workers/workflow.py\<close> (advance one workflow, wake the next stage up, recover what was
  left behind), \<^verbatim>\<open>app/workers/orchestration.py\<close> (reconcile the runs that are not finished) and
  \<^verbatim>\<open>app/workers/deliveries.py\<close>. The broker is outside the repository: it accepts a message or
  raises, as a function of the messages it has accepted so far.
\<close>

section \<open>Messages\<close>

record message =
  ms_workflow :: uuid
  ms_stage :: string
  ms_generation :: nat
  ms_queue :: string
  ms_correlation :: jval

type_synonym broker = "message list \<Rightarrow> message \<Rightarrow> bool"

definition queue_of :: "stage \<Rightarrow> string" where
  "queue_of s = (if s \<in> {Index, Embed} then ''indexing''
     else if s \<in> {Plan, Implement, Review} then ''agents'' else ''orchestration'')"

definition message_of :: "workflow_status \<Rightarrow> message" where
  "message_of answer = \<lparr>ms_workflow = ws_id answer, ms_stage = stage_name (ws_stage answer),
     ms_generation = ws_generation answer, ms_queue = queue_of (ws_stage answer),
     ms_correlation = (case ws_public answer ''correlation_id'' of
        None \<Rightarrow> JId (ws_id answer) | Some JNull \<Rightarrow> JId (ws_id answer) | Some v \<Rightarrow> v)\<rparr>"

text \<open>\<open>send_task\<close>: whether the message was accepted, and the messages sent so far.\<close>

definition enqueue :: "broker \<Rightarrow> workflow_status \<Rightarrow> message list \<Rightarrow> bool \<times> message list" where
  "enqueue broker answer sent =
     (let m = message_of answer in if broker sent m then (True, sent @ [m]) else (False, sent))"

text \<open>A wake-up that fails is only logged: the row stays pending.\<close>

definition wakeable :: "workflow_status \<Rightarrow> bool" where
  "wakeable answer \<longleftrightarrow> ws_status answer = ''pending'' \<and> ws_retry_at answer = None"

definition wake :: "broker \<Rightarrow> workflow_status \<Rightarrow> message list \<Rightarrow> message list" where
  "wake broker answer sent = (if wakeable answer then snd (enqueue broker answer sent) else sent)"

section \<open>Advancing a workflow\<close>

definition did_advance ::
  "uuid \<Rightarrow> string option \<Rightarrow> nat option \<Rightarrow> uuid \<Rightarrow> time \<Rightarrow> platform \<Rightarrow> bool" where
  "did_advance i es eg token now p \<longleftrightarrow>
     (case workflow_claim i es eg token now p of Inr (_, Some _) \<Rightarrow> True | _ \<Rightarrow> False)"

text \<open>
  \<open>advance_workflow\<close> of the worker, for a message with its stage and generation. Every exception becomes
  one error; a cancellation is no \<open>Exception\<close> and passes.
\<close>

definition deliver ::
  "workflow_settings \<Rightarrow> 'x stages \<Rightarrow> broker \<Rightarrow> uuid \<times> string \<times> nat option \<Rightarrow> uuid \<Rightarrow> time \<Rightarrow> time \<Rightarrow>
    platform \<times> 'x world \<times> message list \<Rightarrow> (exc + workflow_status) \<times> platform \<times> 'x world \<times> message list" where
  "deliver settings sg broker m token now later st = (case (m, st) of ((i, stage, generation), (p, w, sent)) \<Rightarrow>
     case advance_workflow settings sg i (Some stage) generation token now later p w of
       (Inl Cancelled, p', w') \<Rightarrow> (Inl Cancelled, p', w', sent)
     | (Inl _, p', w') \<Rightarrow> (Inl (ServiceFailure (RuntimeError ''workflow_worker_failed'')), p', w', sent)
     | (Inr answer, p', w') \<Rightarrow>
         (Inr answer, p', w',
          if did_advance i (Some stage) generation token now p then wake broker answer sent else sent))"

section \<open>Recovery of workflows\<close>

text \<open>The recoverable workflows are woken one by one; a failure of one does not keep the others.\<close>

fun redispatch :: "broker \<Rightarrow> platform \<Rightarrow> uuid list \<Rightarrow> nat \<times> message list \<Rightarrow> nat \<times> message list" where
  "redispatch broker p [] st = st"
| "redispatch broker p (i # is) (n, sent) = (case workflow_get i p of
     Inl _ \<Rightarrow> redispatch broker p is (n, sent)
   | Inr answer \<Rightarrow> (case enqueue broker answer sent of
        (accepted, sent') \<Rightarrow> redispatch broker p is (if accepted then n + 1 else n, sent')))"

definition recover_workflows ::
  "broker \<Rightarrow> uuid list \<Rightarrow> uuid list \<Rightarrow> time \<Rightarrow> time \<Rightarrow> deliveries \<times> platform \<times> message list \<Rightarrow>
    (service_error + nat) \<times> deliveries \<times> platform \<times> message list" where
  "recover_workflows broker busy held now later st = (case st of (ds, p, sent) \<Rightarrow>
     let ds' = fst (delivery_recover busy now ds) in
     case workflow_recoverable held later p of
       Inl e \<Rightarrow> (Inl e, ds', p, sent)
     | Inr (p', ids) \<Rightarrow> (case redispatch broker p' ids (0, sent) of (n, sent') \<Rightarrow> (Inr n, ds', p', sent')))"

section \<open>Recovery of executions\<close>

text \<open>Every reconciliation is a transaction of its own, with its own reading of the clock.\<close>

fun reconcile_all :: "(nat \<Rightarrow> time) \<Rightarrow> uuid list \<Rightarrow> nat \<Rightarrow> db \<Rightarrow> (service_error + nat) \<times> db" where
  "reconcile_all ticks [] n d = (Inr n, d)"
| "reconcile_all ticks (i # is) n d = (case reconcile i (ticks n) d of
     Inl e \<Rightarrow> (Inl e, d)
   | Inr (d', _) \<Rightarrow> reconcile_all ticks is (n + 1) d')"

text \<open>The loop over the pages. That it ends is a property, so it is partial.\<close>

partial_function (option) reconcile_pages ::
  "(nat \<Rightarrow> time) \<Rightarrow> uuid option \<Rightarrow> nat \<Rightarrow> db \<Rightarrow> ((service_error + nat) \<times> db) option" where
  "reconcile_pages ticks after n d =
     (let ids = active_ids after 100 d in
      if ids = [] then Some (Inr n, d)
      else case reconcile_all ticks ids n d of
        (Inl e, d') \<Rightarrow> Some (Inl e, d')
      | (Inr n', d') \<Rightarrow> reconcile_pages ticks (Some (last ids)) n' d')"

definition recover_executions ::
  "int \<Rightarrow> uuid list \<Rightarrow> time \<Rightarrow> (nat \<Rightarrow> time) \<Rightarrow> db \<Rightarrow> ((service_error + nat) \<times> db) option" where
  "recover_executions secs held now ticks d =
     map_option (\<lambda>(r, d'). (case r of Inl _ \<Rightarrow> Inl (RuntimeError ''execution_recovery_failed'') | Inr n \<Rightarrow> Inr n, d'))
       (case recover_stale secs held now d of
          Inl e \<Rightarrow> Some (Inl e, d)
        | Inr (d1, _) \<Rightarrow> reconcile_pages ticks None 0 d1)"

definition reconcile_execution :: "uuid \<Rightarrow> time \<Rightarrow> db \<Rightarrow> (service_error + execution_response) \<times> db" where
  "reconcile_execution rid now d = (case reconcile rid now d of
     Inl _ \<Rightarrow> (Inl (RuntimeError ''execution_reconciliation_failed''), d)
   | Inr (d', resp) \<Rightarrow> (Inr resp, d'))"

section \<open>A message that is sent is a claim that succeeds\<close>

text \<open>A worker that takes the message at the time \<open>now\<close>, with whatever token, claims its workflow.\<close>

definition claims_at :: "time \<Rightarrow> platform \<Rightarrow> message \<Rightarrow> bool" where
  "claims_at now p m \<longleftrightarrow> (\<forall>token. \<exists>p' c.
     workflow_claim (ms_workflow m) (Some (ms_stage m)) (Some (ms_generation m)) token now p = Inr (p', Some c) \<and>
     wc_id c = ms_workflow m \<and> stage_name (wc_stage c) = ms_stage m)"

lemma due_claims:
  assumes "find_workflow i p = Some r" and "wf_status r = ''pending''"
    and "case wf_retry_at r of None \<Rightarrow> True | Some t \<Rightarrow> t \<le> now"
    and "workflow_get i p = Inr a"
  shows "claims_at now p (message_of a)"
proof -
  have r: "wf_id r = i" using find_workflow_in [OF assms(1)] by simp
  have a: "ws_id a = i" "ws_stage a = wf_stage r" "ws_generation a = wf_generation r"
    using assms(4) r by (auto simp: workflow_get_def assms(1))
  have "claimable (Some (stage_name (wf_stage r))) (Some (wf_generation r)) now r"
    using assms(2,3) by (simp add: claimable_def)
  moreover have "workflow_state r ''running'' = Inr (r\<lparr>wf_status := ''running''\<rparr>)"
    using assms(2) by (simp add: workflow_state_Inr workflow_known workflow_successors)
  ultimately show ?thesis
    by (simp add: claims_at_def message_of_def a workflow_claim_def assms(1) r)
qed

lemma wakeable_row:
  assumes "workflow_get i p = Inr a" and "wakeable a"
  obtains r where "find_workflow i p = Some r" and "wf_status r = ''pending''" and "wf_retry_at r = None"
  using assms by (auto simp: workflow_get_def wakeable_def)

lemma advance_answer:
  "advance_workflow settings sg i es eg token now later p w = (Inr a, p', w') \<Longrightarrow> workflow_get i p' = Inr a"
  by (cases "workflow_get i p'")
    (auto simp: advance_workflow_def split: sum.splits prod.splits option.splits if_splits)

text \<open>C12. Nothing that a worker puts on the queue is in vain: delivering a message adds at most one message,
  and only when a stage was run; whoever takes the new message, at whatever time and with whatever token,
  claims the workflow at the stage the message names, unless the workflow moved in between. When no stage
  was run nothing is sent, so a duplicate of a message does not multiply.\<close>

theorem wake_up_claims:
  "case deliver settings sg broker (i, stage, generation) token now later (p, w, sent) of
     (r, p', w', sent') \<Rightarrow> sent' = sent \<or>
       (\<exists>m. sent' = sent @ [m] \<and> ms_workflow m = i \<and> (\<forall>t. claims_at t p' m) \<and>
          did_advance i (Some stage) generation token now p)"
proof -
  obtain r p' w' where adv: "advance_workflow settings sg i (Some stage) generation token now later p w = (r, p', w')"
    by (rule prod_cases3)
  show ?thesis
  proof (cases r)
    case (Inl e)
    then show ?thesis by (cases e) (simp_all add: deliver_def adv)
  next
    case (Inr a)
    note got = advance_answer [OF adv [unfolded Inr]]
    have "claims_at t p' (message_of a)" if wakeable: "wakeable a" for t
    proof -
      obtain r where "find_workflow i p' = Some r" and "wf_status r = ''pending''" and "wf_retry_at r = None"
        using got wakeable by (rule wakeable_row)
      then show ?thesis by (intro due_claims [where r = r, OF _ _ _ got]) simp_all
    qed
    moreover have "ms_workflow (message_of a) = i"
      using got by (auto simp: workflow_get_def message_of_def dest: find_workflow_in)
    ultimately show ?thesis
      by (auto simp: deliver_def adv Inr wake_def enqueue_def Let_def)
  qed
qed

section \<open>Recovery loses no workflow\<close>

lemma redispatch_messages:
  assumes "redispatch broker p ids (n, sent) = (n', sent')"
  shows "\<exists>new. sent' = sent @ new \<and> n' = n + length new \<and>
    (\<forall>m \<in> set new. \<exists>i \<in> set ids. \<exists>a. workflow_get i p = Inr a \<and> m = message_of a)"
  using assms
proof (induction ids arbitrary: n sent)
  case (Cons i ids)
  show ?case
  proof (cases "workflow_get i p")
    case (Inl e)
    with Cons show ?thesis by force
  next
    case (Inr a)
    show ?thesis
    proof (cases "broker sent (message_of a)")
      case True
      with Cons.prems Inr have "redispatch broker p ids (n + 1, sent @ [message_of a]) = (n', sent')"
        by (simp add: enqueue_def Let_def)
      from Cons.IH [OF this] obtain new where "sent' = sent @ message_of a # new" and "n' = n + 1 + length new"
        and "\<forall>m \<in> set new. \<exists>i \<in> set ids. \<exists>a. workflow_get i p = Inr a \<and> m = message_of a" by auto
      with Inr show ?thesis by (intro exI [of _ "message_of a # new"]) auto
    next
      case False
      with Cons.prems Inr have "redispatch broker p ids (n, sent) = (n', sent')" by (simp add: enqueue_def Let_def)
      from Cons.IH [OF this] show ?thesis by auto
    qed
  qed
qed simp

lemma redispatch_accepted:
  assumes "\<And>sent m. broker sent m" and "\<forall>i \<in> set ids. find_workflow i p \<noteq> None"
  shows "\<exists>new. redispatch broker p ids (n, sent) = (n + length new, sent @ new) \<and> map ms_workflow new = ids"
  using assms(2)
proof (induction ids arbitrary: n sent)
  case (Cons i ids)
  then obtain r where r: "find_workflow i p = Some r" by auto
  then obtain a where a: "workflow_get i p = Inr a" and "ms_workflow (message_of a) = i"
    by (auto simp: workflow_get_def message_of_def dest: find_workflow_in)
  moreover from Cons obtain new where
    "redispatch broker p ids (n + 1, sent @ [message_of a]) = (n + 1 + length new, (sent @ [message_of a]) @ new)"
    and "map ms_workflow new = ids" by fastforce
  ultimately show ?case
    using assms(1) [of sent "message_of a"] by (intro exI [of _ "message_of a # new"]) (simp add: enqueue_def Let_def)
qed simp

lemma dispatchable_row:
  assumes "distinct (map wf_id (pf_workflows p))" and "i \<in> set (dispatchable now p)"
  obtains r where "find_workflow i p = Some r" and "wf_status r = ''pending''"
    and "case wf_retry_at r of None \<Rightarrow> True | Some t \<Rightarrow> t \<le> now"
proof -
  from assms(2) obtain r where "r \<in> set (pf_workflows p)" "wf_id r = i" "wf_status r = ''pending''"
    and "case wf_retry_at r of None \<Rightarrow> True | Some t \<Rightarrow> t \<le> now"
    by (auto simp: dispatchable_def dest!: in_set_takeD)
  with fetch_distinct [OF assms(1), of r] that show ?thesis by (simp add: find_workflow_def)
qed

section \<open>The recovery of executions reaches every run\<close>

text \<open>The runs that are not finished, with an identifier above the last one of the page before.\<close>

definition unfinished :: "uuid option \<Rightarrow> db \<Rightarrow> uuid list" where
  "unfinished after d = sort (map run_id (filter (\<lambda>r.
     run_status r \<in> {''pending'', ''running''} \<and> run_plan_snapshot r \<noteq> None \<and>
     (case after of None \<Rightarrow> True | Some i \<Rightarrow> i < run_id r)) (db_runs d)))"

lemma active_ids_page: "active_ids after n d = take n (unfinished after d)"
  by (simp add: active_ids_def unfinished_def)

lemma unfinished_runs: "set (unfinished after d) \<subseteq> run_id ` set (db_runs d)"
  by (auto simp: unfinished_def)

lemma sorted_unfinished: "sorted (unfinished after d)"
  by (simp add: unfinished_def)

lemma distinct_unfinished: "distinct (map run_id (db_runs d)) \<Longrightarrow> distinct (unfinished after d)"
  by (simp add: unfinished_def distinct_map inj_on_def)

text \<open>The runs after a page are those after its last one.\<close>

lemma sorted_last: "sorted xs \<Longrightarrow> i \<in> set xs \<Longrightarrow> i \<le> last xs" for xs :: "'a :: linorder list"
  by (induction xs) auto

lemma filter_above:
  fixes xs :: "'a :: linorder list"
  assumes "sorted (xs @ ys)" and "distinct (xs @ ys)" and "xs \<noteq> []"
  shows "filter (\<lambda>i. last xs < i) (xs @ ys) = ys"
proof -
  have "\<not> last xs < i" if "i \<in> set xs" for i
    using assms(1) that by (auto simp: sorted_append not_less dest: sorted_last)
  moreover have "last xs < i" if "i \<in> set ys" for i
    using assms(1,2) that last_in_set [OF assms(3)] by (auto simp: sorted_append order_less_le)
  ultimately show ?thesis by simp
qed

lemma unfinished_filter: "unfinished (Some x) d = filter (\<lambda>i. x < i) (unfinished None d)"
  by (simp add: unfinished_def filter_sort filter_map o_def conj_ac)

lemma unfinished_next:
  assumes "distinct (map run_id (db_runs d))" and "unfinished after d \<noteq> []" and "0 < n"
  shows "unfinished (Some (last (take n (unfinished after d)))) d = drop n (unfinished after d)"
proof -
  let ?all = "unfinished after d"
  have "filter (\<lambda>i. last (take n ?all) < i) (take n ?all @ drop n ?all) = drop n ?all"
    by (rule filter_above) (use assms distinct_unfinished [OF assms(1), of after] in \<open>simp_all add: sorted_unfinished\<close>)
  moreover have "unfinished (Some (last (take n ?all))) d = filter (\<lambda>i. last (take n ?all) < i) ?all"
  proof (cases after)
    case (Some x)
    have "last (take n ?all) \<in> set ?all" using assms(2,3) by (metis in_set_takeD last_in_set take_eq_Nil neq0_conv)
    then have "x < last (take n ?all)" by (simp add: Some unfinished_filter)
    then show ?thesis by (auto simp: Some unfinished_filter intro!: filter_cong)
  qed (simp add: unfinished_filter)
  ultimately show ?thesis by simp
qed

text \<open>A reconciliation writes the row of its own run only.\<close>

lemma reconcile_runs:
  assumes "exec_inv d" and "reconcile rid now d = Inr (d', resp)"
  shows "db_runs d' = db_runs d \<or> (\<exists>r. run_id r = rid \<and> db_runs d' = put run_id r (db_runs d))"
proof -
  from assms(2) obtain run s ts run' ts' where l: "load rid d = Inr (run, s, ts)"
    and adv: "advance_run now run s ts = Inr (run', ts')" and d': "d' = save now run' ts' d"
    by (auto simp: reconcile_def split: prod.splits elim!: bindE_InrE)
  have "run_id run' = rid"
    using advance_run_same [OF adv] load_run_id [OF l] by (simp add: same_run_def)
  then show ?thesis
    by (cases "fetch run_id rid (db_runs d) = Some run'")
      (auto simp: d' save_def save_run_def save_tasks_def intro: exI [of _ "run'\<lparr>run_updated_at := now\<rparr>"])
qed

lemma map_run_filter_put:
  "run_id r \<le> x \<Longrightarrow>
    map run_id (filter (\<lambda>r. run_status r \<in> {''pending'', ''running''} \<and> run_plan_snapshot r \<noteq> None \<and> x < run_id r)
      (put run_id r rows)) =
    map run_id (filter (\<lambda>r. run_status r \<in> {''pending'', ''running''} \<and> run_plan_snapshot r \<noteq> None \<and> x < run_id r)
      rows)"
  by (induction rows) auto

lemma unfinished_put:
  "run_id r \<le> x \<Longrightarrow> db_runs d' = put run_id r (db_runs d) \<Longrightarrow> unfinished (Some x) d' = unfinished (Some x) d"
  unfolding unfinished_def option.case by (simp only: map_run_filter_put)

lemma reconcile_all_append:
  "reconcile_all ticks (is @ js) n d = (case reconcile_all ticks is n d of
     (Inl e, d') \<Rightarrow> (Inl e, d') | (Inr n', d') \<Rightarrow> reconcile_all ticks js n' d')"
  by (induction ticks "is" n d rule: reconcile_all.induct) (auto split: sum.splits prod.splits)

text \<open>In every database where the runs load, each of a list of runs is reconciled; runs above them are left alone.\<close>

lemma reconcile_all_total:
  assumes "runs_inv d" and "set is \<subseteq> run_id ` set (db_runs d)"
  shows "\<exists>d'. reconcile_all ticks is n d = (Inr (n + length is), d') \<and> runs_inv d' \<and> exec_step\<^sup>*\<^sup>* d d' \<and>
    run_id ` set (db_runs d') = run_id ` set (db_runs d) \<and>
    (\<forall>x. (\<forall>i \<in> set is. i \<le> x) \<longrightarrow> unfinished (Some x) d' = unfinished (Some x) d)"
  using assms
proof (induction "is" arbitrary: n d)
  case (Cons i "is")
  from Cons.prems obtain run s ts where l: "load i d = Inr (run, s, ts)"
    using runs_load_in [OF runs_inv_parts(2) [OF Cons.prems(1)], of i] by auto
  obtain d1 resp where r: "reconcile i (ticks n) d = Inr (d1, resp)"
    using reconcile_total [OF runs_inv_parts(1) [OF Cons.prems(1)] l] by blast
  have step: "exec_step d d1" using r by (rule step_reconcile)
  have inv: "runs_inv d1" using loading.step_inv [OF Cons.prems(1) step] .
  note wrote = reconcile_runs [OF runs_inv_parts(1) [OF Cons.prems(1)] r]
  then have ids: "run_id ` set (db_runs d1) = run_id ` set (db_runs d)"
    by (elim disjE exE conjE) simp_all
  with Cons.prems(2) have "set is \<subseteq> run_id ` set (db_runs d1)" by simp
  from Cons.IH [OF inv this, of "n + 1"] obtain d' where
    d': "reconcile_all ticks is (n + 1) d1 = (Inr (n + 1 + length is), d')" "runs_inv d'" "exec_step\<^sup>*\<^sup>* d1 d'"
      "run_id ` set (db_runs d') = run_id ` set (db_runs d1)"
    and above: "\<And>x. (\<forall>i \<in> set is. i \<le> x) \<Longrightarrow> unfinished (Some x) d' = unfinished (Some x) d1" by blast
  have "unfinished (Some x) d1 = unfinished (Some x) d" if "i \<le> x" for x
    using wrote that by (auto simp: unfinished_put) (simp add: unfinished_def)
  with above have "\<forall>x. (\<forall>i \<in> set (i # is). i \<le> x) \<longrightarrow> unfinished (Some x) d' = unfinished (Some x) d" by simp
  moreover have "exec_step\<^sup>*\<^sup>* d d'" using step d'(3) by (rule converse_rtranclp_into_rtranclp)
  ultimately show ?case using d' ids r by auto
qed simp

text \<open>The loop ends, and the pages make no difference.\<close>

lemma reconcile_pages_total:
  assumes "runs_inv d"
  shows "reconcile_pages ticks after n d = Some (reconcile_all ticks (unfinished after d) n d)"
  using assms
proof (induction "length (unfinished after d)" arbitrary: after n d rule: less_induct)
  case less
  let ?all = "unfinished after d" and ?page = "take 100 (unfinished after d)"
  have dist: "distinct (map run_id (db_runs d))"
    using runs_inv_parts(1) [OF less.prems] by (rule exec_inv_ids(1))
  show ?case
  proof (cases "?all = []")
    case True
    then show ?thesis by (subst reconcile_pages.simps) (simp add: active_ids_page)
  next
    case False
    have "set ?page \<subseteq> run_id ` set (db_runs d)"
      using set_take_subset unfinished_runs by (rule order_trans)
    from reconcile_all_total [OF less.prems this, of ticks n] obtain d' where
      page: "reconcile_all ticks ?page n d = (Inr (n + length ?page), d')" and inv: "runs_inv d'"
      and above: "\<forall>x. (\<forall>i \<in> set ?page. i \<le> x) \<longrightarrow> unfinished (Some x) d' = unfinished (Some x) d" by blast
    have "i \<le> last ?page" if "i \<in> set ?page" for i
      using that sorted_unfinished [of after d] by (intro sorted_last) (auto intro: sorted_wrt_take)
    with above have "unfinished (Some (last ?page)) d' = unfinished (Some (last ?page)) d" by blast
    also have "\<dots> = drop 100 ?all" by (rule unfinished_next [OF dist False]) simp
    finally have rest: "unfinished (Some (last ?page)) d' = drop 100 ?all" .
    with False have "length (unfinished (Some (last ?page)) d') < length ?all" by simp
    note tail = less.hyps [OF this inv, of "n + length ?page", unfolded rest]
    have "reconcile_pages ticks after n d = reconcile_pages ticks (Some (last ?page)) (n + length ?page) d'"
      using False by (subst reconcile_pages.simps) (simp add: active_ids_page page Let_def)
    also have "\<dots> = Some (reconcile_all ticks (?page @ drop 100 ?all) n d)"
      unfolding tail reconcile_all_append by (simp add: page)
    finally show ?thesis by simp
  qed
qed

text \<open>C5. The periodic recovery of executions ends and raises nothing: in every database the services can
  reach, it first takes back the runs that no worker holds, and then reconciles every unfinished run exactly
  once, in the order of the identifiers, however many pages that takes; it reports how many they were, and
  everything it writes is a sequence of transactions of the services.\<close>

theorem recovery_reaches_every_run:
  assumes "no_executions d0" and "exec_step\<^sup>*\<^sup>* d0 d"
  shows "\<exists>d1 stale d'. recover_stale secs held now d = Inr (d1, stale) \<and>
    reconcile_all ticks (unfinished None d1) 0 d1 = (Inr (length (unfinished None d1)), d') \<and>
    recover_executions secs held now ticks d = Some (Inr (length (unfinished None d1)), d') \<and> exec_step\<^sup>*\<^sup>* d d'"
proof -
  have inv: "runs_inv d" using assms by (rule loading.reach_inv)
  from recover_total [OF inv] obtain d1 stale where stale: "recover_stale secs held now d = Inr (d1, stale)" by blast
  have step: "exec_step d d1" using stale by (rule step_recover)
  have inv1: "runs_inv d1" using inv step by (rule loading.step_inv)
  from reconcile_all_total [OF inv1 unfinished_runs [of None], of ticks 0] obtain d' where
    "reconcile_all ticks (unfinished None d1) 0 d1 = (Inr (length (unfinished None d1)), d')"
    and "exec_step\<^sup>*\<^sup>* d1 d'" by auto
  moreover from step this(2) have "exec_step\<^sup>*\<^sup>* d d'" by (rule converse_rtranclp_into_rtranclp)
  ultimately show ?thesis by (simp add: stale recover_executions_def reconcile_pages_total [OF inv1])
qed

lemma sample_unfinished: "stale_runs (0 - seconds 60) [] db_recovered = [] \<and> unfinished None db_recovered = [10]"
  by code_simp

lemma recovery_reaches_every_run_witness:
  "\<exists>d'. recover_executions 60 [] 0 (\<lambda>_. 0) db_recovered = Some (Inr 1, d') \<and> exec_step\<^sup>*\<^sup>* db_recovered d'"
  using recovery_reaches_every_run [OF example_no_executions reach_recovered, of 60 "[]" 0 "\<lambda>_. 0"] sample_unfinished
  by (auto simp: recover_stale_def Let_def)

end
