(* ===== verification/Workflow_Liveness.thy ===== *)
theory Workflow_Liveness
  imports Workers Stage_Gates
begin

text \<open>
  The recovery of workflows (\<^verbatim>\<open>app/workers/workflow.py\<close>) never fails: the runs that the interrupted
  workflows name exist, so what \<open>expire_one\<close> stops can be stopped.
\<close>

section \<open>Stages that ran on the platform's database\<close>

text \<open>
  The transitions of \<open>run_step\<close> where a completed stage ran on this database: the one it left was reached from an
  empty one, and the present one is reached from it.
\<close>

inductive live_step :: "workflow_settings \<Rightarrow> 'x stages \<Rightarrow> wf_system \<Rightarrow> wf_system \<Rightarrow> bool"
  for settings :: workflow_settings and sg :: "'x stages" where
  live_start: "workflow_start settings correlation request now (sys_platform s) = Inr p \<Longrightarrow>
    live_step settings sg s (s\<lparr>sys_platform := p\<rparr>)"
| live_claim: "workflow_claim i expected_stage expected_generation token now (sys_platform s) = Inr (p, Some c) \<Longrightarrow>
    token \<notin> wc_token ` set (sys_claims s) \<Longrightarrow>
    live_step settings sg s \<lparr>sys_platform = p, sys_claims = sys_claims s @ [c]\<rparr>"
| live_completed: "c \<in> set (sys_claims s) \<Longrightarrow> run_stage sg c w = (Inr result, w') \<Longrightarrow>
    no_executions d0 \<Longrightarrow> exec_step\<^sup>*\<^sup>* d0 (w_db w') \<Longrightarrow> exec_step\<^sup>*\<^sup>* (w_db w') (pf_db (sys_platform s)) \<Longrightarrow>
    workflow_finish settings c (sr_data result) (sr_repeat result) None False None now (sys_platform s) = Inr p \<Longrightarrow>
    live_step settings sg s (s\<lparr>sys_platform := p\<rparr>)"
| live_failed: "c \<in> set (sys_claims s) \<Longrightarrow> or_empty error \<noteq> [] \<Longrightarrow>
    workflow_finish settings c Map.empty False error blocked retry now (sys_platform s) = Inr p \<Longrightarrow>
    live_step settings sg s (s\<lparr>sys_platform := p\<rparr>)"
| live_resume: "workflow_resume settings i now (sys_platform s) = Inr p \<Longrightarrow>
    live_step settings sg s (s\<lparr>sys_platform := p\<rparr>)"
| live_cancel: "workflow_cancel i now (sys_platform s) = Inr p \<Longrightarrow>
    live_step settings sg s (s\<lparr>sys_platform := p\<rparr>)"
| live_recover: "workflow_recoverable held now (sys_platform s) = Inr (p, ids) \<Longrightarrow>
    live_step settings sg s (s\<lparr>sys_platform := p\<rparr>)"
| live_exec: "exec_step (pf_db (sys_platform s)) d \<Longrightarrow>
    live_step settings sg s (s\<lparr>sys_platform := (sys_platform s)\<lparr>pf_db := d\<rparr>\<rparr>)"

lemma live_step_run: "live_step settings sg s s' \<Longrightarrow> run_step settings sg s s'"
  by (induction rule: live_step.induct) (auto intro: run_step.intros)

section \<open>Runs are never lost\<close>

abbreviation run_ids :: "db \<Rightarrow> uuid set" where
  "run_ids d \<equiv> run_id ` set (db_runs d)"

lemma runs_stay:
  assumes "exec_step d d'" and "runs_inv d"
  shows "run_ids d \<subseteq> run_ids d'"
proof -
  consider "grows d d'" | pid given fresh now rid where "create pid given fresh now d = Inr (d', rid)"
    using step_grows [OF assms(1) runs_inv_parts(1) [OF assms(2)]] by blast
  then show ?thesis
  proof cases
    case 1
    then have "set (map run_id (db_runs d')) = set (map run_id (db_runs d))" by (simp only: grows_runs)
    then show ?thesis by simp
  next
    case 2
    then show ?thesis by (rule create_Inr) auto
  qed
qed

lemma runs_stay_steps:
  assumes "exec_step\<^sup>*\<^sup>* d d'" and "runs_inv d"
  shows "run_ids d \<subseteq> run_ids d' \<and> runs_inv d'"
  using assms
proof (induction rule: rtranclp_induct)
  case (step y z)
  with runs_stay [of y z] loading.step_inv [of y z] show ?case by blast
qed simp

lemma stop_execution_step: "stop_execution data c now d = Inr d' \<Longrightarrow> exec_step\<^sup>*\<^sup>* d d'"
  by (auto simp: stop_execution_def intro: step_stop split: option.splits jval.splits)

text \<open>The run a workflow's data name is one of these.\<close>

definition named_in :: "uuid set \<Rightarrow> metadata \<Rightarrow> bool" where
  "named_in ids data \<longleftrightarrow> (case data ''execution_id'' of Some (JId rid) \<Rightarrow> rid \<in> ids | _ \<Rightarrow> True)"

definition rows_named :: "uuid set \<Rightarrow> platform \<Rightarrow> bool" where
  "rows_named ids p \<longleftrightarrow> (\<forall>r \<in> set (pf_workflows p). named_in ids (wf_data r))"

lemma named_mono: "named_in ids data \<Longrightarrow> ids \<subseteq> ids' \<Longrightarrow> named_in ids' data"
  by (auto simp: named_in_def split: option.splits jval.splits)

lemma rows_named_mono: "rows_named ids p \<Longrightarrow> ids \<subseteq> ids' \<Longrightarrow> rows_named ids' p"
  by (auto simp: rows_named_def intro: named_mono)

lemma rows_named_save: "rows_named ids p \<Longrightarrow> named_in ids (wf_data r) \<Longrightarrow> rows_named ids (save_workflow now r p)"
  by (auto simp: rows_named_def dest!: save_workflow_rows)

lemma rows_named_db [simp]: "rows_named ids (p\<lparr>pf_db := d\<rparr>) = rows_named ids p"
  by (simp add: rows_named_def)

lemma rows_named_find: "rows_named ids p \<Longrightarrow> find_workflow i p = Some r \<Longrightarrow> named_in ids (wf_data r)"
  by (auto simp: rows_named_def dest!: find_workflow_in)

section \<open>The operations of a workflow\<close>

lemma finish_stage_data: "finish_stage settings c repeat error blocked retry now r = Inr r' \<Longrightarrow> wf_data r' = wf_data r"
  by (auto simp: finish_stage_def Let_def workflow_state_Inr split: if_splits elim!: bindE_InrE)

lemma finish_named:
  assumes "workflow_finish settings c data repeat error blocked retry now p = Inr p'" and "rows_named ids p"
    and "named_in ids data"
  shows "rows_named ids p' \<and> pf_db p' = pf_db p"
proof -
  from assms(1) obtain r r0 r' where r: "find_workflow (wc_id c) p = Some r"
    and r0: "r0 = r\<lparr>wf_history := wf_history r @ [(history_entry (wc_stage c)
                  (if or_empty error \<noteq> [] then ''failed'' else ''completed'') now)(''error_code'' \<mapsto> jopt error)],
               wf_data := wf_data r ++ data, wf_error_code := error, wf_claim_token := None,
               wf_lease_until := None, wf_generation := wf_generation r + 1\<rparr>"
    and f: "finish_stage settings c repeat error blocked retry now r0 = Inr r'"
    and p: "p' = save_workflow now r' p"
    by (rule workflow_finish_Inr) (rule that; assumption)
  have "named_in ids (wf_data r ++ data)"
    using rows_named_find [OF assms(2) r] assms(3) by (auto simp: named_in_def map_add_def split: option.splits)
  then have "named_in ids (wf_data r')" using finish_stage_data [OF f] by (simp add: r0)
  then show ?thesis using assms(2) by (simp add: p rows_named_save)
qed

lemma start_named:
  "workflow_start settings correlation request now p = Inr p' \<Longrightarrow> rows_named ids p \<Longrightarrow> rows_named ids p' \<and> pf_db p' = pf_db p"
  by (auto simp: workflow_start_def Let_def rows_named_def new_workflow_def named_in_def split: option.splits if_splits)

lemma claim_named:
  "workflow_claim i stg g token now p = Inr (p', Some c) \<Longrightarrow> rows_named ids p \<Longrightarrow> rows_named ids p' \<and> pf_db p' = pf_db p"
  by (elim workflow_claim_Some) (auto intro!: rows_named_save dest: rows_named_find)

lemma resume_named:
  "workflow_resume settings i now p = Inr p' \<Longrightarrow> rows_named ids p \<Longrightarrow> rows_named ids p' \<and> pf_db p' = pf_db p"
  by (auto simp: workflow_resume_def workflow_state_Inr intro!: rows_named_save dest: rows_named_find split: if_splits)

lemma cancel_named:
  "workflow_cancel i now p = Inr p' \<Longrightarrow> rows_named ids p \<Longrightarrow> rows_named ids p' \<and> exec_step\<^sup>*\<^sup>* (pf_db p) (pf_db p')"
  by (cases "p' = p")
    (auto elim!: workflow_cancel_Inr intro!: rows_named_save dest: rows_named_find stop_execution_step)

section \<open>The recovery never raises\<close>

text \<open>A row that waits for a worker, and the rows a recovery of the workflows wakes.\<close>

definition waiting :: "time \<Rightarrow> workflow_run \<Rightarrow> bool" where
  "waiting now r \<longleftrightarrow> wf_status r = ''pending'' \<and> (wf_retry_at r = None \<or> (\<exists>t. wf_retry_at r = Some t \<and> t \<le> now))"

definition woken :: "time \<Rightarrow> workflow_run list \<Rightarrow> uuid list \<Rightarrow> bool" where
  "woken now rows ids \<longleftrightarrow> (let due = filter (waiting now) rows in distinct ids \<and>
     (\<exists>chosen. ids = map wf_id chosen \<and> mset chosen \<subseteq># mset due \<and> length chosen = min 100 (length due) \<and>
        sorted (map wf_updated_at chosen) \<and>
        (\<forall>c \<in> set chosen. \<forall>r \<in># mset due - mset chosen. wf_updated_at c \<le> wf_updated_at r)))"

lemma first_sorted:
  fixes f :: "'a \<Rightarrow> 'b :: linorder"
  assumes ys_def: "ys = take n (sort_key f xs)"
  shows "mset ys \<subseteq># mset xs \<and> length ys = min n (length xs) \<and> sorted (map f ys) \<and>
    (\<forall>c \<in> set ys. \<forall>r \<in># mset xs - mset ys. f c \<le> f r)"
proof -
  let ?s = "sort_key f xs"
  have "mset xs = mset ys + mset (drop n ?s)"
    unfolding ys_def by (simp only: mset_append [symmetric] append_take_drop_id mset_sort)
  then have parts: "mset ys \<subseteq># mset xs" "mset xs - mset ys = mset (drop n ?s)" by simp_all
  have "sorted (map f (ys @ drop n ?s))" unfolding ys_def by simp
  then have "sorted (map f ys)" "\<forall>c \<in> set ys. \<forall>r \<in> set (drop n ?s). f c \<le> f r"
    unfolding map_append sorted_append by auto
  with parts show ?thesis by (simp add: ys_def min.commute)
qed

lemma waiting_case: "(wf_status r = ''pending'' \<and> (case wf_retry_at r of None \<Rightarrow> True | Some t \<Rightarrow> t \<le> now)) = waiting now r"
  by (auto simp: waiting_def split: option.split)

lemma dispatchable_woken:
  assumes "distinct (map wf_id (pf_workflows p))"
  shows "woken now (pf_workflows p) (dispatchable now p)"
proof -
  let ?due = "filter (waiting now) (pf_workflows p)"
  have ids: "dispatchable now p = map wf_id (take 100 (sort_key wf_updated_at ?due))"
    by (simp add: dispatchable_def waiting_case take_map)
  have "distinct (map wf_id (sort_key wf_updated_at ?due))"
  proof -
    have "mset (map wf_id (sort_key wf_updated_at ?due)) = mset (map wf_id ?due)" by simp
    moreover have "distinct (map wf_id ?due)" using assms by (rule distinct_map_filter)
    ultimately show ?thesis by (metis mset_eq_imp_distinct_iff)
  qed
  then have "distinct (dispatchable now p)" by (simp add: ids flip: take_map)
  with first_sorted [OF refl, of 100 wf_updated_at ?due] show ?thesis unfolding woken_def Let_def ids by blast
qed

text \<open>An interrupted claim can be given up whenever the run it names exists; no row that waits is touched.\<close>

definition expiring :: "platform \<Rightarrow> uuid set \<Rightarrow> platform \<Rightarrow> bool" where
  "expiring p ids q \<longleftrightarrow> runs_inv (pf_db q) \<and> ids \<subseteq> run_ids (pf_db q) \<and> rows_named ids q \<and>
     exec_step\<^sup>*\<^sup>* (pf_db p) (pf_db q) \<and> distinct (map wf_id (pf_workflows q)) \<and>
     filter (\<lambda>r. wf_status r = ''pending'') (pf_workflows q) = filter (\<lambda>r. wf_status r = ''pending'') (pf_workflows p)"

lemma filter_put:
  "\<not> P r \<Longrightarrow> \<forall>x \<in> set rows. key x = key r \<longrightarrow> \<not> P x \<Longrightarrow> filter P (put key r rows) = filter P rows"
  by (induction rows) (auto simp: put_def)

lemma expire_one_total:
  assumes r: "r \<in> set (pf_workflows p)" and status: "wf_status r = ''running''"
    and named: "named_in ids (wf_data r)" and ready: "data_ready (wf_stage r) (wf_data r)"
    and dist: "distinct (map wf_id (pf_workflows p))" and q: "expiring p ids q"
  shows "\<exists>q'. expire_one now r q = Inr q' \<and> expiring p ids q'"
proof -
  let ?status = "if wf_stage r \<in> {Implement, Review} then ''blocked'' else ''failed''"
  have inv: "runs_inv (pf_db q)" using q by (simp add: expiring_def)
  have st: "workflow_state r t = Inr (r\<lparr>wf_status := t\<rparr>)" if "t \<in> {''blocked'', ''failed''}" for t
    using that status by (auto simp: workflow_state_Inr workflow_known workflow_successors)
  obtain d where d: "(if wf_stage r \<in> {Implement, Review} then stop_execution (wf_data r) False now (pf_db q)
      else Inr (pf_db q)) = Inr d"
  proof (cases "wf_stage r \<in> {Implement, Review}")
    case True
    then have "Execution < wf_stage r" by (auto simp: stage_less stage_index_def STAGES_def)
    with ready have "holds_id ''execution_id'' (wf_data r)" unfolding data_ready_def by blast
    then obtain rid where rid: "wf_data r ''execution_id'' = Some (JId rid)"
      unfolding holds_id_def by (cases "wf_data r ''execution_id''"; cases "the (wf_data r ''execution_id'')") simp_all
    with named q have "rid \<in> run_ids (pf_db q)" by (auto simp: named_in_def expiring_def)
    from runs_load_in [OF runs_inv_parts(2) [OF inv] this] obtain run s ts where "load rid (pf_db q) = Inr (run, s, ts)" by blast
    from stop_total [OF runs_inv_parts(1) [OF inv] this] obtain d where "stop_locked rid False now (pf_db q) = Inr d" by blast
    with True rid that show thesis by (simp add: stop_execution_def)
  qed (use that in simp)
  have steps: "exec_step\<^sup>*\<^sup>* (pf_db q) d"
    using d stop_execution_step by (cases "wf_stage r \<in> {Implement, Review}") auto
  have "\<exists>q'. expire_one now r q = Inr q'"
  proof (cases "wf_stage r \<in> {Implement, Review}")
    case True
    then show ?thesis using d st [of "''blocked''"] by (auto simp: expire_one_def)
  next
    case False
    then show ?thesis using st [of "''failed''"] by (auto simp: expire_one_def)
  qed
  then obtain q' where e: "expire_one now r q = Inr q'" ..
  from e obtain d' r1 where bad: "wf_status r1 \<in> {''blocked'', ''failed''}"
    and r1: "r1 = r\<lparr>wf_status := wf_status r1, wf_generation := wf_generation r + 1,
               wf_error_code := Some ''workflow_worker_interrupted'',
               wf_claim_token := None, wf_lease_until := None, wf_history := wf_history r1\<rparr>"
    and q': "q' = save_workflow now r1 (q\<lparr>pf_db := d'\<rparr>)"
    and d': "d' = pf_db q \<or> stop_execution (wf_data r) False now (pf_db q) = Inr d'"
    by (rule expire_one_Inr) (rule that; assumption)
  have steps': "exec_step\<^sup>*\<^sup>* (pf_db q) d'" using d' stop_execution_step by auto
  have id: "wf_id r1 = wf_id r" "wf_data r1 = wf_data r" by (subst r1, simp)+
  have untouched: "wf_status x \<noteq> ''pending''" if x: "x \<in> set (pf_workflows q)" "wf_id x = wf_id r" for x
  proof
    assume "wf_status x = ''pending''"
    with x have "x \<in> set (filter (\<lambda>r. wf_status r = ''pending'') (pf_workflows q))" by simp
    with q have "x \<in> set (pf_workflows p)" "wf_status x = ''pending''" by (auto simp: expiring_def)
    moreover have "x = r" using dist x(2) r \<open>x \<in> set (pf_workflows p)\<close> unfolding distinct_map by (blast dest: inj_onD)
    ultimately show False using status by simp
  qed
  let ?pending = "\<lambda>r. wf_status r = ''pending''"
  have "filter ?pending (put wf_id (r1\<lparr>wf_updated_at := now\<rparr>) (pf_workflows q)) = filter ?pending (pf_workflows q)"
    using bad untouched id by (intro filter_put) auto
  then have same: "filter ?pending (pf_workflows q') = filter ?pending (pf_workflows q)"
    unfolding q' save_workflow_def by simp
  have dist': "distinct (map wf_id (pf_workflows q'))"
    using q by (simp add: q' save_workflow_def expiring_def)
  have rows: "rows_named ids q'" using q named by (simp add: q' rows_named_save id expiring_def)
  have db: "pf_db q' = d'" by (simp add: q')
  from q steps' have "exec_step\<^sup>*\<^sup>* (pf_db p) d'" unfolding expiring_def by (meson rtranclp_trans)
  moreover have "runs_inv d'" "ids \<subseteq> run_ids d'"
    using runs_stay_steps [OF steps' inv] q by (auto simp: expiring_def)
  ultimately have "expiring p ids q'" using q same dist' rows unfolding expiring_def db by simp
  with e show ?thesis by blast
qed

lemma recoverable_total:
  assumes inv: "runs_inv (pf_db p)" and dist: "distinct (map wf_id (pf_workflows p))"
    and named: "rows_named (run_ids (pf_db p)) p" and ready: "rows_ready p"
  shows "\<exists>p'. workflow_recoverable held now p = Inr (p', dispatchable now p') \<and> expiring p (run_ids (pf_db p)) p'"
proof -
  have "\<exists>p'. foldE (expire_one now) rs q = Inr p' \<and> expiring p (run_ids (pf_db p)) p'"
    if "expiring p (run_ids (pf_db p)) q" and "\<forall>r \<in> set rs. r \<in> set (pf_workflows p) \<and> wf_status r = ''running''" for rs q
    using that
  proof (induction rs arbitrary: q)
    case (Cons r rs)
    then have r: "r \<in> set (pf_workflows p)" "wf_status r = ''running''" by simp_all
    with named ready have "named_in (run_ids (pf_db p)) (wf_data r)" "data_ready (wf_stage r) (wf_data r)"
      by (auto simp: rows_named_def rows_ready_def)
    from expire_one_total [OF r this dist Cons.prems(1)] obtain q' where "expire_one now r q = Inr q'"
      and "expiring p (run_ids (pf_db p)) q'" by blast
    with Cons.IH [of q'] Cons.prems(2) show ?case by simp
  qed simp
  moreover have "expiring p (run_ids (pf_db p)) p" using inv dist named by (simp add: expiring_def)
  moreover have "\<forall>r \<in> set (expired_workflows held now p). r \<in> set (pf_workflows p) \<and> wf_status r = ''running''"
    by (auto simp: expired_workflows_def dest!: in_set_takeD)
  ultimately show ?thesis by (fastforce simp: workflow_recoverable_def)
qed

section \<open>The platform\<close>

definition live_inv :: "workflow_settings \<Rightarrow> wf_system \<Rightarrow> bool" where
  "live_inv settings s \<longleftrightarrow> data_inv settings s \<and> runs_inv (pf_db (sys_platform s)) \<and>
     rows_named (run_ids (pf_db (sys_platform s))) (sys_platform s)"

lemma live_inv_ready: "live_inv settings s \<Longrightarrow> rows_ready (sys_platform s)"
  by (simp add: live_inv_def data_inv_rows)

lemma live_inv_distinct: "live_inv settings s \<Longrightarrow> distinct (map wf_id (pf_workflows (sys_platform s)))"
  by (simp add: live_inv_def data_inv_rows wf_inv_def)

lemma stage_names_run:
  assumes "run_stage sg c w = (Inr result, w')"
  shows "named_in (run_ids (w_db w')) (sr_data result)"
proof (cases "wc_stage c = Execution")
  case True
  with assms have "stage_execution sg c (wc_data c) w = (Inr result, w')" by (auto simp: stage_runs)
  from execution_stage_creates [OF this] show ?thesis by (auto simp: named_in_def stage_data_def)
next
  case False
  with run_stage_output [OF assms] have "sr_data result ''execution_id'' = None"
    by (cases "wc_stage c") (auto simp: stage_output_def stage_data_def)
  then show ?thesis by (simp add: named_in_def)
qed

lemma live_step_inv:
  assumes inv: "live_inv settings s" and step: "live_step settings sg s s'"
  shows "live_inv settings s'"
proof -
  let ?d = "pf_db (sys_platform s)"
  have data: "data_inv settings s'" using inv run_step_data live_step_run [OF step] by (auto simp: live_inv_def)
  have runs: "runs_inv ?d" and named: "rows_named (run_ids ?d) (sys_platform s)" using inv by (simp_all add: live_inv_def)
  have "exec_step\<^sup>*\<^sup>* ?d (pf_db (sys_platform s')) \<and>
    (\<exists>ids. ids \<subseteq> run_ids (pf_db (sys_platform s')) \<and> rows_named ids (sys_platform s'))"
    using step
  proof cases
    case (live_start correlation request now p)
    with start_named [OF live_start(2) named] show ?thesis by auto
  next
    case (live_claim i stg g token now p c)
    with claim_named [OF live_claim(2) named] show ?thesis by auto
  next
    case (live_completed c w result w' d0 now p)
    have left: "runs_inv (w_db w')" using live_completed(4,5) by (rule loading.reach_inv)
    have "named_in (run_ids ?d) (sr_data result)"
      using stage_names_run [OF live_completed(3)] runs_stay_steps [OF live_completed(6) left] by (blast intro: named_mono)
    from finish_named [OF live_completed(7) named this] live_completed(1) show ?thesis by auto
  next
    case (live_failed c error blocked retry now p)
    have "named_in (run_ids ?d) Map.empty" by (simp add: named_in_def)
    from finish_named [OF live_failed(4) named this] live_failed(1) show ?thesis by auto
  next
    case (live_resume i now p)
    with resume_named [OF live_resume(2) named] show ?thesis by auto
  next
    case (live_cancel i now p)
    with cancel_named [OF live_cancel(2) named] runs_stay_steps [OF _ runs, of "pf_db p"] show ?thesis by auto
  next
    case (live_recover held now p ids)
    from recoverable_total [OF runs live_inv_distinct [OF inv] named live_inv_ready [OF inv], of held now] live_recover(2)
    have "expiring (sys_platform s) (run_ids ?d) p" by auto
    with live_recover(1) show ?thesis by (auto simp: expiring_def)
  next
    case (live_exec d)
    with runs_stay [OF live_exec(2) runs] named show ?thesis by auto
  qed
  then show ?thesis
    using data runs_stay_steps [OF _ runs] rows_named_mono by (auto simp: live_inv_def)
qed

interpretation live: invariant_system "run_init settings" "live_step settings sg" "live_inv settings"
  for settings sg
proof
  fix s assume init: "run_init settings s"
  then have "no_executions (pf_db (sys_platform s))" "pf_workflows (sys_platform s) = []"
    by (simp_all add: run_init_def wf_init_def)
  with run_init_data [OF init] show "live_inv settings s"
    by (simp add: live_inv_def rows_named_def loading.init_inv)
qed (rule live_step_inv)

lemma woken_pending:
  assumes "filter (\<lambda>r. wf_status r = ''pending'') rows = filter (\<lambda>r. wf_status r = ''pending'') rows'"
  shows "woken now rows ids = woken now rows' ids"
proof -
  have "filter (waiting now) xs = filter (waiting now) (filter (\<lambda>r. wf_status r = ''pending'') xs)" for xs
    by (auto simp: waiting_def intro: filter_cong)
  with assms show ?thesis unfolding woken_def by metis
qed

text \<open>C11. Recovery loses no workflow. In every reachable state of the platform, where completed stages ran on the
  platform's database, the recovery of the workflows returns: no interrupted workflow can make it fail and so
  keep the others waiting. The messages it sends are due: whoever takes one, once the time of the recovery has
  come, claims its workflow. And when the broker accepts everything, it reaches the workflows that were pending
  and due, whatever became of their earlier messages: all of them, or the hundred that waited longest,
  longest first, once each, and it counts them.\<close>

theorem recovery_wakes_pending:
  assumes "run_init settings s0" and "(live_step settings sg)\<^sup>*\<^sup>* s0 s"
    and "recover_workflows broker busy held now later (ds, sys_platform s, sent) = (r, ds', p', sent')"
  shows "\<exists>new. r = Inr (length new) \<and> sent' = sent @ new \<and> (\<forall>m \<in> set new. claims_at later p' m) \<and>
    ((\<forall>ms m. broker ms m) \<longrightarrow> woken later (pf_workflows (sys_platform s)) (map ms_workflow new))"
proof -
  let ?p = "sys_platform s"
  have inv: "live_inv settings s" using assms(1,2) by (rule live.reach_inv)
  then have "runs_inv (pf_db ?p)" "rows_named (run_ids (pf_db ?p)) ?p" by (simp_all add: live_inv_def)
  from recoverable_total [OF this(1) live_inv_distinct [OF inv] this(2) live_inv_ready [OF inv], of held later] obtain q
    where rec: "workflow_recoverable held later ?p = Inr (q, dispatchable later q)"
      and q: "expiring ?p (run_ids (pf_db ?p)) q" by blast
  from assms(3) rec obtain n where p': "p' = q" and r: "r = Inr n"
    and re: "redispatch broker q (dispatchable later q) (0, sent) = (n, sent')"
    by (auto simp: recover_workflows_def Let_def split: prod.splits)
  have dist: "distinct (map wf_id (pf_workflows q))" using q by (simp add: expiring_def)
  from redispatch_messages [OF re] obtain new where new: "sent' = sent @ new" "n = length new"
    and from_rows: "\<forall>m \<in> set new. \<exists>i \<in> set (dispatchable later q). \<exists>a. workflow_get i q = Inr a \<and> m = message_of a" by auto
  have "claims_at later q m" if "m \<in> set new" for m
  proof -
    from from_rows that obtain i a where i: "i \<in> set (dispatchable later q)" and a: "workflow_get i q = Inr a"
      and m: "m = message_of a" by blast
    obtain row where "find_workflow i q = Some row" and "wf_status row = ''pending''"
      and "case wf_retry_at row of None \<Rightarrow> True | Some t \<Rightarrow> t \<le> later"
      using dist i by (rule dispatchable_row)
    then show ?thesis unfolding m using a by (rule due_claims)
  qed
  moreover have "woken later (pf_workflows ?p) (map ms_workflow new)" if "\<forall>ms m. broker ms m"
  proof -
    have "\<forall>i \<in> set (dispatchable later q). find_workflow i q \<noteq> None"
      using dist by (auto elim: dispatchable_row)
    from redispatch_accepted [OF _ this, of broker 0 sent] that re new have "map ms_workflow new = dispatchable later q" by auto
    moreover have "filter (\<lambda>r. wf_status r = ''pending'') (pf_workflows q) = filter (\<lambda>r. wf_status r = ''pending'') (pf_workflows ?p)"
      using q by (simp add: expiring_def)
    ultimately show ?thesis using dispatchable_woken [OF dist, of later] woken_pending by metis
  qed
  ultimately show ?thesis using new r p' by blast
qed

lemma sample_recovery:
  "recover_workflows (\<lambda>_ _. True) [] [] 400 (seconds 100) ([], sys_platform system_waiting, []) =
     (Inr 1, [], sys_platform system_waiting, [\<lparr>ms_workflow = 60, ms_stage = ''repository'', ms_generation = 1,
        ms_queue = ''orchestration'', ms_correlation = JStr ''corr''\<rparr>])"
  by (simp add: recover_workflows_def delivery_recover_def workflow_recoverable_def expired_workflows_def
      system_waiting_def sample_defs dispatchable_def workflow_get_def find_workflow_def enqueue_def message_of_def
      queue_of_def public_keys_def put_all_def seconds_def)

lemma live_waiting: "(live_step sample_settings sg)\<^sup>*\<^sup>* system_empty system_waiting"
proof -
  let ?started = "system_empty\<lparr>sys_platform := with_rows [sample_row]\<rparr>"
  have "live_step sample_settings sg system_empty ?started"
    using live_start [of sample_settings "''corr''" sample_request 100 system_empty "with_rows [sample_row]" sg]
    by (simp add: system_empty_def sample_start)
  moreover have "live_step sample_settings sg ?started system_claimed"
    using live_claim [of 60 "Some ''repository''" "Some 0" 61 110 ?started "with_rows [sample_claimed]" sample_claim sample_settings sg]
    by (simp add: system_empty_def system_claimed_def sample_claiming)
  moreover have "live_step sample_settings sg system_claimed system_waiting"
    using live_failed [of sample_claim system_claimed "Some ''github_unavailable''" sample_settings False "Some 30" 120
        "with_rows [sample_waiting]" sg] sample_finish
    by (simp add: system_claimed_def system_waiting_def or_empty_def)
  ultimately show ?thesis by (meson converse_rtranclp_into_rtranclp rtranclp.rtrancl_refl)
qed

lemma recovery_wakes_pending_witness:
  "\<exists>p' new. recover_workflows (\<lambda>_ _. True) [] [] 400 (seconds 100) ([], sys_platform system_waiting, []) =
     (Inr 1, [], p', new) \<and> map ms_workflow new = [60] \<and> list_all (claims_at (seconds 100) p') new \<and>
     woken (seconds 100) (pf_workflows (sys_platform system_waiting)) [60]"
proof -
  have init: "run_init sample_settings system_empty"
    using sample_init by (simp add: run_init_def sample_settings_def between_def)
  from recovery_wakes_pending [OF init live_waiting sample_recovery] sample_recovery show ?thesis
    by (auto simp: list_all_iff)
qed

end
