(* ===== verification/Rollback.thy ===== *)
theory Rollback
  imports Workflow_Properties
begin

text \<open>
  What the downgrade of \<^verbatim>\<open>migrations/versions/0006_workflow_reliability.py\<close> does to the rows. The status
  \<open>cancelled\<close> came with that revision; before the check constraint of the older one is put back, three
  statements rewrite it. The trigger stamps the rows they touch.
\<close>

definition rolled_workflow :: "time \<Rightarrow> workflow_run \<Rightarrow> workflow_run" where
  "rolled_workflow now r =
     (if wf_status r = ''cancelled'' then r\<lparr>wf_status := ''blocked'', wf_updated_at := now\<rparr> else r)"

definition rolled_task :: "task_execution \<Rightarrow> task_execution" where
  "rolled_task t = (if te_status t = ''cancelled'' then t\<lparr>te_status := ''failed''\<rparr> else t)"

definition rolled_run :: "time \<Rightarrow> execution_run \<Rightarrow> execution_run" where
  "rolled_run now r =
     (if run_status r = ''cancelled'' then r\<lparr>run_status := ''failed'', run_updated_at := now\<rparr> else r)"

definition rolled_db :: "time \<Rightarrow> db \<Rightarrow> db" where
  "rolled_db now d = d\<lparr>db_task_executions := map rolled_task (db_task_executions d),
     db_runs := map (rolled_run now) (db_runs d)\<rparr>"

definition rollback_rows :: "time \<Rightarrow> platform \<Rightarrow> platform" where
  "rollback_rows now p = p\<lparr>pf_workflows := map (rolled_workflow now) (pf_workflows p),
     pf_db := rolled_db now (pf_db p)\<rparr>"

section \<open>Runs after the rollback\<close>

lemma rolled_kept [simp]:
  "run_id (rolled_run now r) = run_id r" "run_plan_snapshot (rolled_run now r) = run_plan_snapshot r"
  "te_plan_task_id (rolled_task t) = te_plan_task_id t" "te_attempt (rolled_task t) = te_attempt t"
  "te_execution_run_id (rolled_task t) = te_execution_run_id t"
  by (simp_all add: rolled_run_def rolled_task_def)

lemma load_rolled:
  "load rid (rolled_db now d) =
     map_sum id (\<lambda>(run, s, ts). (rolled_run now run, s, map (\<lambda>(k, t). (k, rolled_task t)) ts)) (load rid d)"
proof -
  have fetch_rolled: "fetch key i (map f xs) = map_option f (fetch key i xs)" if "\<And>x. key (f x) = key x"
    for key :: "'a \<Rightarrow> uuid" and f i xs using that by (induction xs) (auto simp: fetch_def)
  have run: "find_run rid (rolled_db now d) = map_option (rolled_run now) (find_run rid d)"
    by (simp add: find_run_def rolled_db_def fetch_rolled)
  have tasks: "run_tasks rid (rolled_db now d) = map rolled_task (run_tasks rid d)"
    by (simp add: run_tasks_def rolled_db_def filter_map comp_def)
  have snap: "load_snapshot (rolled_run now r) = load_snapshot r" for r by (simp add: load_snapshot_def)
  have found: "fetch te_plan_task_id v (rev (run_tasks rid d)) \<noteq> None"
    if "te_plan_task_id ` set (run_tasks rid d) = snd ` set ids" and "(k, v) \<in> set ids" for k v and ids :: "(string \<times> uuid) list"
  proof -
    have "v \<in> te_plan_task_id ` set (rev (run_tasks rid d))" using that by force
    then show ?thesis by (simp add: fetch_None)
  qed
  show ?thesis
    unfolding load_def run tasks
    by (auto simp: snap bindE_def someE_def requireE_def Let_def image_image rev_map fetch_rolled
        option.map_sel [OF found] split: option.splits sum.splits)
qed

lemma agrees_rolled:
  assumes "agrees (run_status r) (te_status t)"
  shows "run_status (rolled_run now r) \<noteq> ''cancelled''" and "te_status (rolled_task t) \<noteq> ''cancelled''"
    and "agrees (run_status (rolled_run now r)) (te_status (rolled_task t))"
proof -
  show "run_status (rolled_run now r) \<noteq> ''cancelled''" by (simp add: rolled_run_def)
  show "te_status (rolled_task t) \<noteq> ''cancelled''" by (simp add: rolled_task_def)
  show "agrees (run_status (rolled_run now r)) (te_status (rolled_task t))"
  proof (cases "run_status r = ''cancelled''")
    case True
    with assms have "te_status t \<in> set TERMINAL \<union> {''cancelled''}" by (simp add: agrees_def)
    with True show ?thesis by (auto simp: agrees_def rolled_run_def rolled_task_def)
  next
    case False
    with assms have "te_status t \<noteq> ''cancelled''" by (auto simp: agrees_def split: if_split_asm)
    with False assms show ?thesis by (simp add: rolled_run_def rolled_task_def)
  qed
qed

section \<open>What becomes of each row\<close>

text \<open>All columns but the status and the time of the last change; likewise for a run and for a task.\<close>

definition same_workflow :: "workflow_run \<Rightarrow> workflow_run \<Rightarrow> bool" where
  "same_workflow r r' \<longleftrightarrow> wf_id r' = wf_id r \<and> wf_request r' = wf_request r \<and> wf_data r' = wf_data r \<and>
     wf_history r' = wf_history r \<and> wf_stage r' = wf_stage r \<and> wf_claim_token r' = wf_claim_token r \<and>
     wf_lease_until r' = wf_lease_until r \<and> wf_generation r' = wf_generation r \<and> wf_retry_at r' = wf_retry_at r \<and>
     wf_attempts r' = wf_attempts r \<and> wf_error_code r' = wf_error_code r"

definition same_execution :: "execution_run \<Rightarrow> execution_run \<Rightarrow> bool" where
  "same_execution r r' \<longleftrightarrow> run_id r' = run_id r \<and> run_plan_id r' = run_plan_id r \<and> run_branch_name r' = run_branch_name r \<and>
     run_plan_snapshot r' = run_plan_snapshot r \<and> run_started_at r' = run_started_at r \<and>
     run_completed_at r' = run_completed_at r"

definition same_task :: "task_execution \<Rightarrow> task_execution \<Rightarrow> bool" where
  "same_task t t' \<longleftrightarrow> te_id t' = te_id t \<and> te_execution_run_id t' = te_execution_run_id t \<and>
     te_plan_task_id t' = te_plan_task_id t \<and> te_attempt t' = te_attempt t \<and> te_output_summary t' = te_output_summary t"

text \<open>Nothing else changes: the rows are the rows there were, and only a cancelled one gets another status.\<close>

definition rolled_back :: "time \<Rightarrow> platform \<Rightarrow> platform \<Rightarrow> bool" where
  "rolled_back now p p' \<longleftrightarrow>
     list_all2 (\<lambda>r r'. same_workflow r r' \<and>
       (wf_status r', wf_updated_at r') =
         (if wf_status r = ''cancelled'' then (''blocked'', now) else (wf_status r, wf_updated_at r)))
       (pf_workflows p) (pf_workflows p') \<and>
     list_all2 (\<lambda>r r'. same_execution r r' \<and>
       (run_status r', run_updated_at r') =
         (if run_status r = ''cancelled'' then (''failed'', now) else (run_status r, run_updated_at r)))
       (db_runs (pf_db p)) (db_runs (pf_db p')) \<and>
     list_all2 (\<lambda>t t'. same_task t t' \<and> te_status t' = (if te_status t = ''cancelled'' then ''failed'' else te_status t))
       (db_task_executions (pf_db p)) (db_task_executions (pf_db p')) \<and>
     (db_repositories (pf_db p'), db_issues (pf_db p'), db_plans (pf_db p'), db_plan_tasks (pf_db p')) =
       (db_repositories (pf_db p), db_issues (pf_db p), db_plans (pf_db p), db_plan_tasks (pf_db p)) \<and>
     (db_agent_runs (pf_db p'), db_pull_requests (pf_db p'), db_chunks (pf_db p')) =
       (db_agent_runs (pf_db p), db_pull_requests (pf_db p), db_chunks (pf_db p))"

lemma rollback_rolled_back: "rolled_back now p (rollback_rows now p)"
  by (simp add: rolled_back_def rollback_rows_def rolled_db_def list.rel_map rolled_workflow_def rolled_run_def
    rolled_task_def same_workflow_def same_execution_def same_task_def list.rel_refl)

text \<open>C14. The rollback leaves rows the older revision accepts. Every workflow has one of the five statuses of
  the check constraint that is put back, with the claim and the stage it had; no run and no task is
  cancelled, and the status of every run still agrees with those of its tasks: a run that was cancelled has
  failed, and so have its tasks unless they had ended before.\<close>

theorem rollback_leaves_valid_rows:
  assumes "wf_init settings s0" and "(wf_step settings)\<^sup>*\<^sup>* s0 s" and p': "p' = rollback_rows now (sys_platform s)"
  shows "rolled_back now (sys_platform s) p' \<and> (\<forall>r \<in> set (pf_workflows p').
      wf_status r \<in> {''pending'', ''running'', ''failed'', ''blocked'', ''completed''} \<and>
      (wf_status r = ''running'' \<longleftrightarrow> wf_claim_token r \<noteq> None) \<and> (wf_status r = ''completed'' \<longleftrightarrow> wf_stage r = Done)) \<and>
    (\<forall>rid run snap ts k t. load rid (pf_db p') = Inr (run, snap, ts) \<and> (k, t) \<in> set ts \<longrightarrow>
      run_status run \<noteq> ''cancelled'' \<and> te_status t \<noteq> ''cancelled'' \<and> agrees (run_status run) (te_status t))"
proof (intro conjI ballI allI impI)
  show "rolled_back now (sys_platform s) p'" unfolding p' by (rule rollback_rolled_back)
  have inv: "wf_inv settings s" using assms(1,2) by (rule workflows.reach_inv)
  {
    fix r assume "r \<in> set (pf_workflows p')"
    then obtain r0 where r0: "r0 \<in> set (pf_workflows (sys_platform s))" and r: "r = rolled_workflow now r0"
      by (auto simp: p' rollback_rows_def)
    from inv r0 have "row_ok (set_stage_attempts settings) r0" by (simp add: wf_inv_def)
    then show "wf_status r \<in> {''pending'', ''running'', ''failed'', ''blocked'', ''completed''}"
      and "wf_status r = ''running'' \<longleftrightarrow> wf_claim_token r \<noteq> None" and "wf_status r = ''completed'' \<longleftrightarrow> wf_stage r = Done"
      by (auto simp: r rolled_workflow_def row_ok_def workflow_known)
  }
  {
    fix rid run snap ts k t assume "load rid (pf_db p') = Inr (run, snap, ts) \<and> (k, t) \<in> set ts"
    then obtain run0 ts0 t0 where l: "load rid (pf_db (sys_platform s)) = Inr (run0, snap, ts0)"
      and t0: "(k, t0) \<in> set ts0" and new: "run = rolled_run now run0" "t = rolled_task t0"
      by (auto simp: p' rollback_rows_def load_rolled map_sum_def split: sum.splits)
    have "exec_inv (pf_db (sys_platform s))" using inv by (simp add: wf_inv_def platform_inv_def)
    note loaded = exec_inv_load [OF this l]
    have "k \<in> fst ` set (snapshot_dag snap)" using t0 load_fst_dag [OF l] by force
    from run_inv_agrees [OF loaded(1) this] have "agrees (run_status run0) (te_status t0)"
      using t0 loaded(2) by (simp add: state_of_statuses)
    from agrees_rolled [OF this] show "run_status run \<noteq> ''cancelled''" and "te_status t \<noteq> ''cancelled''"
      and "agrees (run_status run) (te_status t)" by (simp_all add: new)
  }
qed

definition sample_cancelled :: workflow_run where
  "sample_cancelled = sample_waiting\<lparr>wf_status := ''cancelled'', wf_generation := 2, wf_retry_at := None,
     wf_error_code := Some ''workflow_cancelled'', wf_updated_at := 200,
     wf_history := wf_history sample_waiting @ [(history_entry Repository ''cancelled'' 200)
       (''error_code'' \<mapsto> JStr ''workflow_cancelled'')]\<rparr>"

definition system_cancelled :: wf_system where
  "system_cancelled = \<lparr>sys_platform = with_rows [sample_cancelled], sys_claims = [sample_claim]\<rparr>"

lemma reach_cancelled: "(wf_step sample_settings)\<^sup>*\<^sup>* system_empty system_cancelled"
proof -
  have "workflow_cancel 60 200 (sys_platform system_waiting) = Inr (with_rows [sample_cancelled])"
    by (simp add: workflow_cancel_def system_waiting_def sample_cancelled_def sample_defs find_workflow_def fetch_def
      stop_execution_def workflow_state_def check_def edge_simps save_workflow_def put_def)
  from wf_cancel [OF this, of sample_settings] have "wf_step sample_settings system_waiting system_cancelled"
    by (simp add: system_cancelled_def system_waiting_def)
  with reach_waiting show ?thesis by (rule rtranclp.rtrancl_into_rtrancl)
qed

lemma rollback_leaves_valid_rows_witness:
  "map wf_status (pf_workflows (sys_platform system_cancelled)) = [''cancelled''] \<and>
     rolled_back 300 (sys_platform system_cancelled) (rollback_rows 300 (sys_platform system_cancelled)) \<and>
     map wf_status (pf_workflows (rollback_rows 300 (sys_platform system_cancelled))) = [''blocked'']"
proof -
  note undone = rollback_leaves_valid_rows [OF sample_init reach_cancelled refl, of 300]
  have was: "map wf_status (pf_workflows (sys_platform system_cancelled)) = [''cancelled'']"
    by (simp add: system_cancelled_def with_rows_def sample_cancelled_def)
  with undone have "map wf_status (pf_workflows (rollback_rows 300 (sys_platform system_cancelled))) = [''blocked'']"
    unfolding rolled_back_def by (auto simp: list_all2_Cons1 map_eq_Cons_conv)
  with undone was show ?thesis by blast
qed

end
