(* ===== verification/Schema.thy ===== *)
theory Schema
  imports Prelude
begin

text \<open>
  The database schema as a value. This theory holds what a migration consists of, the operations of
  Alembic that the repository uses, and their effect on a schema, with the errors of PostgreSQL (a table
  that exists, a column that does not, a table that is still referenced). It also holds the naming
  convention of \<^verbatim>\<open>app/db/base.py\<close>, under which both the migrations and the models name their
  constraints. \<open>Migrations\<close> holds the migrations themselves and the tables of the models.
\<close>

section \<open>Tables\<close>

datatype sql_type =
    UuidT
  | StringT nat
  | TextT
  | TimestampT
  | IntegerT
  | JsonbT
  | VectorT nat
  | NumericT nat nat

text \<open>A server default is a string literal or SQL text.\<close>

datatype sql_default = Literal string | Sql string

record column =
  col_name :: string
  col_type :: sql_type
  col_nullable :: bool
  col_default :: "sql_default option"

text \<open>Every constraint carries its final name. A foreign key says what a deletion does, if anything.\<close>

datatype table_constraint =
    PrimaryKey string "string list"
  | ForeignKey string "string list" string "string list" "string option"
  | UniqueKey string "string list"
  | CheckKey string string

record index =
  ix_name :: string
  ix_terms :: "string list"
  ix_unique :: bool

record trigger =
  tr_name :: string
  tr_function :: string

record db_table =
  tb_columns :: "column list"
  tb_constraints :: "table_constraint list"
  tb_indexes :: "index list"
  tb_triggers :: "trigger list"

record schema =
  sc_extensions :: "string list"
  sc_functions :: "string list"
  sc_tables :: "(string \<times> db_table) list"

definition empty_schema :: schema where
  "empty_schema = \<lparr>sc_extensions = [], sc_functions = [], sc_tables = []\<rparr>"

section \<open>Names\<close>

text \<open>
  \<open>naming_convention\<close>. The name of a key or of an index follows the convention when it is left out. A
  check constraint has a label: a final name (\<open>op.f\<close>), or one that the convention puts behind the table.
\<close>

datatype check_label = Final string | Given string

definition primary_name :: "string \<Rightarrow> string option \<Rightarrow> string" where
  "primary_name t n = (case n of Some s \<Rightarrow> s | None \<Rightarrow> ''pk_'' @ t)"

definition foreign_name :: "string \<Rightarrow> string list \<Rightarrow> string \<Rightarrow> string option \<Rightarrow> string" where
  "foreign_name t columns referred n = (case n of Some s \<Rightarrow> s
     | None \<Rightarrow> ''fk_'' @ t @ ''_'' @ hd columns @ ''_'' @ referred)"

definition unique_name :: "string \<Rightarrow> string list \<Rightarrow> string option \<Rightarrow> string" where
  "unique_name t columns n = (case n of Some s \<Rightarrow> s | None \<Rightarrow> ''uq_'' @ t @ ''_'' @ hd columns)"

definition index_name :: "string \<Rightarrow> string list \<Rightarrow> string option \<Rightarrow> string" where
  "index_name t columns n = (case n of Some s \<Rightarrow> s | None \<Rightarrow> ''ix_'' @ t @ ''_'' @ hd columns)"

definition check_name :: "string \<Rightarrow> check_label \<Rightarrow> string" where
  "check_name t label = (case label of Final s \<Rightarrow> s | Given s \<Rightarrow> ''ck_'' @ t @ ''_'' @ s)"

text \<open>What stands in a \<open>create_table\<close> or in the class of a model beside the columns.\<close>

datatype table_item =
    Primary "string option" "string list"
  | Foreign "string option" "string list" string "string list" "string option"
  | Unique "string option" "string list"
  | Check check_label string

fun declared :: "string \<Rightarrow> table_item \<Rightarrow> table_constraint" where
  "declared t (Primary n columns) = PrimaryKey (primary_name t n) columns"
| "declared t (Foreign n columns referred keys deletion) =
     ForeignKey (foreign_name t columns referred n) columns referred keys deletion"
| "declared t (Unique n columns) = UniqueKey (unique_name t columns n) columns"
| "declared t (Check label sql) = CheckKey (check_name t label) sql"

fun constraint_name :: "table_constraint \<Rightarrow> string" where
  "constraint_name (PrimaryKey n _) = n"
| "constraint_name (ForeignKey n _ _ _ _) = n"
| "constraint_name (UniqueKey n _) = n"
| "constraint_name (CheckKey n _) = n"

text \<open>Primary and unique keys have an index of their name; tables and indexes share a name space.\<close>

fun key_indexes :: "table_constraint \<Rightarrow> string list" where
  "key_indexes (PrimaryKey n _) = [n]"
| "key_indexes (UniqueKey n _) = [n]"
| "key_indexes _ = []"

definition relation_names :: "string \<times> db_table \<Rightarrow> string list" where
  "relation_names x = (case x of (t, tb) \<Rightarrow>
     t # concat (map key_indexes (tb_constraints tb)) @ map ix_name (tb_indexes tb))"

definition all_relations :: "schema \<Rightarrow> string list" where
  "all_relations s = concat (map relation_names (sc_tables s))"

section \<open>Operations\<close>

text \<open>
  The calls of \<open>alembic.op\<close> in the migrations; \<open>op.execute\<close> has one constructor per statement it is
  given. \<open>RewriteStatus t old new\<close> is \<open>UPDATE t SET status = new WHERE status = old\<close>.
\<close>

datatype operation =
    CreateExtension string
  | CreateTable string "column list" "table_item list"
  | DropTable string
  | AddColumn string column
  | DropColumn string string
  | CreateIndex string string "string list" bool
  | DropIndex string string
  | CreateCheck check_label string string
  | DropCheck check_label string
  | CreateFunction string
  | DropFunction string
  | CreateTrigger string string string
  | RewriteStatus string string string

definition alter :: "string \<Rightarrow> (db_table \<Rightarrow> string + db_table) \<Rightarrow> schema \<Rightarrow> string + schema" where
  "alter t f s = (case map_of (sc_tables s) t of
     None \<Rightarrow> Inl ''undefined_table''
   | Some tb \<Rightarrow> bindE (f tb) (\<lambda>tb'.
       Inr (s\<lparr>sc_tables := map (\<lambda>(u, x). (u, if u = t then tb' else x)) (sc_tables s)\<rparr>)))"

definition has_column :: "db_table \<Rightarrow> string \<Rightarrow> bool" where
  "has_column tb c \<longleftrightarrow> c \<in> set (map col_name (tb_columns tb))"

fun key_columns :: "table_constraint \<Rightarrow> string list option" where
  "key_columns (PrimaryKey _ columns) = Some columns"
| "key_columns (UniqueKey _ columns) = Some columns"
| "key_columns _ = None"

text \<open>A foreign key must point to the columns of a key, a key must be of the table's columns.\<close>

fun valid_key :: "schema \<Rightarrow> db_table \<Rightarrow> table_constraint \<Rightarrow> bool" where
  "valid_key s tb (PrimaryKey _ columns) \<longleftrightarrow> list_all (has_column tb) columns"
| "valid_key s tb (UniqueKey _ columns) \<longleftrightarrow> list_all (has_column tb) columns"
| "valid_key s tb (ForeignKey _ columns t keys _) \<longleftrightarrow> list_all (has_column tb) columns \<and>
     (case map_of (sc_tables s) t of None \<Rightarrow> False
      | Some other \<Rightarrow> list_ex (\<lambda>k. key_columns k = Some keys) (tb_constraints other))"
| "valid_key s tb (CheckKey _ _) \<longleftrightarrow> True"

fun refers :: "string \<Rightarrow> table_constraint \<Rightarrow> bool" where
  "refers t (ForeignKey _ _ u _ _) \<longleftrightarrow> u = t"
| "refers t _ \<longleftrightarrow> False"

fun mentions_column :: "string \<Rightarrow> table_constraint \<Rightarrow> bool" where
  "mentions_column c (PrimaryKey _ columns) \<longleftrightarrow> c \<in> set columns"
| "mentions_column c (UniqueKey _ columns) \<longleftrightarrow> c \<in> set columns"
| "mentions_column c (ForeignKey _ columns _ _ _) \<longleftrightarrow> c \<in> set columns"
| "mentions_column c (CheckKey _ _) \<longleftrightarrow> False"

definition new_table :: "string \<Rightarrow> column list \<Rightarrow> table_item list \<Rightarrow> db_table" where
  "new_table t columns declarations =
     \<lparr>tb_columns = columns, tb_constraints = map (declared t) declarations, tb_indexes = [], tb_triggers = []\<rparr>"

definition create_table :: "string \<Rightarrow> column list \<Rightarrow> table_item list \<Rightarrow> schema \<Rightarrow> string + schema" where
  "create_table t columns declarations s =
     (let tb = new_table t columns declarations in
      if \<not> distinct (relation_names (t, tb)) \<or> list_ex (\<lambda>n. n \<in> set (all_relations s)) (relation_names (t, tb))
      then Inl ''duplicate_table''
      else if \<not> distinct (map col_name columns) then Inl ''duplicate_column''
      else if \<not> distinct (map constraint_name (tb_constraints tb)) then Inl ''duplicate_object''
      else if \<not> list_all (valid_key s tb) (tb_constraints tb) then Inl ''invalid_foreign_key''
      else Inr (s\<lparr>sc_tables := sc_tables s @ [(t, tb)]\<rparr>))"

definition drop_table :: "string \<Rightarrow> schema \<Rightarrow> string + schema" where
  "drop_table t s =
     (if t \<notin> set (map fst (sc_tables s)) then Inl ''undefined_table''
      else if list_ex (\<lambda>(u, tb). u \<noteq> t \<and> list_ex (refers t) (tb_constraints tb)) (sc_tables s)
      then Inl ''dependent_objects_still_exist''
      else Inr (s\<lparr>sc_tables := filter (\<lambda>(u, tb). u \<noteq> t) (sc_tables s)\<rparr>))"

definition create_index :: "string \<Rightarrow> string \<Rightarrow> string list \<Rightarrow> bool \<Rightarrow> schema \<Rightarrow> string + schema" where
  "create_index n t terms unique s =
     (if n \<in> set (all_relations s) then Inl ''duplicate_table''
      else alter t (\<lambda>tb. Inr (tb\<lparr>tb_indexes := tb_indexes tb @
        [\<lparr>ix_name = n, ix_terms = terms, ix_unique = unique\<rparr>]\<rparr>)) s)"

definition drop_index :: "string \<Rightarrow> db_table \<Rightarrow> string + db_table" where
  "drop_index n tb =
     (if n \<notin> set (map ix_name (tb_indexes tb)) then Inl ''undefined_object''
      else Inr (tb\<lparr>tb_indexes := filter (\<lambda>x. ix_name x \<noteq> n) (tb_indexes tb)\<rparr>))"

definition add_column :: "column \<Rightarrow> db_table \<Rightarrow> string + db_table" where
  "add_column c tb =
     (if has_column tb (col_name c) then Inl ''duplicate_column''
      else Inr (tb\<lparr>tb_columns := tb_columns tb @ [c]\<rparr>))"

text \<open>A key that a foreign key points to cannot be dropped.\<close>

fun points_to :: "string \<Rightarrow> string list \<Rightarrow> table_constraint \<Rightarrow> bool" where
  "points_to t keys (ForeignKey _ _ u ks _) \<longleftrightarrow> u = t \<and> ks = keys"
| "points_to t keys _ \<longleftrightarrow> False"

definition droppable :: "schema \<Rightarrow> string \<Rightarrow> table_constraint \<Rightarrow> bool" where
  "droppable s t k \<longleftrightarrow> (case key_columns k of None \<Rightarrow> True
     | Some keys \<Rightarrow> \<not> list_ex (\<lambda>(u, tb). list_ex (points_to t keys) (tb_constraints tb)) (sc_tables s))"

text \<open>
  A column goes with the keys and the indexes on it. A check keeps its text: the migrations drop the
  checks of a column before the column.
\<close>

definition drop_column :: "schema \<Rightarrow> string \<Rightarrow> string \<Rightarrow> db_table \<Rightarrow> string + db_table" where
  "drop_column s t c tb =
     (if \<not> has_column tb c then Inl ''undefined_column''
      else if \<not> list_all (droppable s t) (filter (mentions_column c) (tb_constraints tb))
      then Inl ''dependent_objects_still_exist''
      else Inr (tb\<lparr>tb_columns := filter (\<lambda>x. col_name x \<noteq> c) (tb_columns tb),
        tb_constraints := filter (\<lambda>k. \<not> mentions_column c k) (tb_constraints tb),
        tb_indexes := filter (\<lambda>x. c \<notin> set (ix_terms x)) (tb_indexes tb)\<rparr>))"

definition create_check :: "string \<Rightarrow> string \<Rightarrow> db_table \<Rightarrow> string + db_table" where
  "create_check n sql tb =
     (if n \<in> set (map constraint_name (tb_constraints tb)) then Inl ''duplicate_object''
      else Inr (tb\<lparr>tb_constraints := tb_constraints tb @ [CheckKey n sql]\<rparr>))"

definition drop_constraint :: "schema \<Rightarrow> string \<Rightarrow> string \<Rightarrow> db_table \<Rightarrow> string + db_table" where
  "drop_constraint s t n tb =
     (if n \<notin> set (map constraint_name (tb_constraints tb)) then Inl ''undefined_object''
      else if \<not> list_all (droppable s t) (filter (\<lambda>k. constraint_name k = n) (tb_constraints tb))
      then Inl ''dependent_objects_still_exist''
      else Inr (tb\<lparr>tb_constraints := filter (\<lambda>k. constraint_name k \<noteq> n) (tb_constraints tb)\<rparr>))"

definition create_trigger :: "string \<Rightarrow> string \<Rightarrow> db_table \<Rightarrow> string + db_table" where
  "create_trigger n function tb =
     (if n \<in> set (map tr_name (tb_triggers tb)) then Inl ''duplicate_object''
      else Inr (tb\<lparr>tb_triggers := tb_triggers tb @ [\<lparr>tr_name = n, tr_function = function\<rparr>]\<rparr>))"

definition drop_function :: "string \<Rightarrow> schema \<Rightarrow> string + schema" where
  "drop_function f s =
     (if f \<notin> set (sc_functions s) then Inl ''undefined_function''
      else if list_ex (\<lambda>(t, tb). f \<in> set (map tr_function (tb_triggers tb))) (sc_tables s)
      then Inl ''dependent_objects_still_exist''
      else Inr (s\<lparr>sc_functions := filter (\<lambda>g. g \<noteq> f) (sc_functions s)\<rparr>))"

fun run_operation :: "operation \<Rightarrow> schema \<Rightarrow> string + schema" where
  "run_operation (CreateExtension e) s =
     Inr (if e \<in> set (sc_extensions s) then s else s\<lparr>sc_extensions := sc_extensions s @ [e]\<rparr>)"
| "run_operation (CreateTable t columns declarations) s = create_table t columns declarations s"
| "run_operation (DropTable t) s = drop_table t s"
| "run_operation (AddColumn t c) s = alter t (add_column c) s"
| "run_operation (DropColumn t c) s = alter t (drop_column s t c) s"
| "run_operation (CreateIndex n t terms unique) s = create_index n t terms unique s"
| "run_operation (DropIndex n t) s = alter t (drop_index n) s"
| "run_operation (CreateCheck label t sql) s = alter t (create_check (check_name t label) sql) s"
| "run_operation (DropCheck label t) s = alter t (drop_constraint s t (check_name t label)) s"
| "run_operation (CreateFunction f) s = (if f \<in> set (sc_functions s) then Inl ''duplicate_function''
     else Inr (s\<lparr>sc_functions := sc_functions s @ [f]\<rparr>))"
| "run_operation (DropFunction f) s = drop_function f s"
| "run_operation (CreateTrigger n t f) s = (if f \<notin> set (sc_functions s) then Inl ''undefined_function''
     else alter t (create_trigger n f) s)"
| "run_operation (RewriteStatus t old new) s = alter t
     (\<lambda>tb. if has_column tb ''status'' then Inr tb else Inl ''undefined_column'') s"

definition run_operations :: "operation list \<Rightarrow> schema \<Rightarrow> string + schema" where
  "run_operations = foldE run_operation"

section \<open>Well-formed schemas\<close>

text \<open>
  No two relations share a name, columns and constraints are named once in a table, keys are of the
  table's columns, foreign keys point to keys that exist, triggers call functions that exist.
\<close>

definition wf_table :: "schema \<Rightarrow> db_table \<Rightarrow> bool" where
  "wf_table s tb \<longleftrightarrow> distinct (map col_name (tb_columns tb)) \<and>
     distinct (map constraint_name (tb_constraints tb)) \<and> (\<forall>k \<in> set (tb_constraints tb). valid_key s tb k) \<and>
     (\<forall>g \<in> set (tb_triggers tb). tr_function g \<in> set (sc_functions s))"

definition wf_schema :: "schema \<Rightarrow> bool" where
  "wf_schema s \<longleftrightarrow> distinct (all_relations s) \<and> (\<forall>(t, tb) \<in> set (sc_tables s). wf_table s tb)"

lemma distinct_relations:
  "distinct (concat (map relation_names xs)) \<longleftrightarrow> distinct (map fst xs) \<and>
     (\<forall>x \<in> set xs. distinct (relation_names x)) \<and>
     (\<forall>x \<in> set xs. \<forall>y \<in> set xs. fst x \<noteq> fst y \<longrightarrow> set (relation_names x) \<inter> set (relation_names y) = {})"
proof (induction xs)
  case (Cons x xs)
  have hd_in: "fst y \<in> set (relation_names y)" for y by (cases y) (simp add: relation_names_def)
  have new: "fst x \<notin> fst ` set xs" if "\<forall>y \<in> set xs. set (relation_names x) \<inter> set (relation_names y) = {}"
    using that hd_in by (metis disjoint_iff imageE)
  show ?case
  proof
    assume "distinct (concat (map relation_names (x # xs)))"
    then have "distinct (relation_names x)" and "distinct (concat (map relation_names xs))"
      and dis: "\<forall>y \<in> set xs. set (relation_names x) \<inter> set (relation_names y) = {}" by auto
    with Cons.IH new [OF dis] show "distinct (map fst (x # xs)) \<and>
        (\<forall>x \<in> set (x # xs). distinct (relation_names x)) \<and> (\<forall>x' \<in> set (x # xs). \<forall>y \<in> set (x # xs).
          fst x' \<noteq> fst y \<longrightarrow> set (relation_names x') \<inter> set (relation_names y) = {})" by auto
  next
    assume r: "distinct (map fst (x # xs)) \<and>
        (\<forall>x \<in> set (x # xs). distinct (relation_names x)) \<and> (\<forall>x' \<in> set (x # xs). \<forall>y \<in> set (x # xs).
          fst x' \<noteq> fst y \<longrightarrow> set (relation_names x') \<inter> set (relation_names y) = {})"
    then have "distinct (concat (map relation_names xs))" using Cons.IH by simp
    moreover have "set (relation_names x) \<inter> set (relation_names y) = {}" if "y \<in> set xs" for y
    proof -
      from r that have "fst x \<noteq> fst y" by auto
      moreover from r have "\<forall>x' \<in> set (x # xs). \<forall>y \<in> set (x # xs).
          fst x' \<noteq> fst y \<longrightarrow> set (relation_names x') \<inter> set (relation_names y) = {}" by (elim conjE)
      ultimately show ?thesis using that by simp
    qed
    ultimately show "distinct (concat (map relation_names (x # xs)))" using r by auto
  qed
qed simp

lemma wf_schema_names: "wf_schema s \<Longrightarrow> distinct (map fst (sc_tables s))"
  by (simp add: wf_schema_def all_relations_def distinct_relations)

lemma wf_schema_table: "wf_schema s \<Longrightarrow> (t, tb) \<in> set (sc_tables s) \<Longrightarrow> wf_table s tb"
  by (auto simp: wf_schema_def)

text \<open>A key stays valid where its table keeps its columns and the table it points to keeps its keys.\<close>

lemma valid_key_mono:
  assumes "valid_key s tb k" and "\<And>c. has_column tb c \<Longrightarrow> mentions_column c k \<Longrightarrow> has_column tb' c"
    and "\<And>t keys other. points_to t keys k \<Longrightarrow> map_of (sc_tables s) t = Some other \<Longrightarrow>
      Some keys \<in> key_columns ` set (tb_constraints other) \<Longrightarrow>
      \<exists>other'. map_of (sc_tables s') t = Some other' \<and> Some keys \<in> key_columns ` set (tb_constraints other')"
  shows "valid_key s' tb' k"
proof (cases k)
  case (ForeignKey n columns t keys deletion)
  from assms(1) obtain other key where other: "map_of (sc_tables s) t = Some other"
    and key: "key \<in> set (tb_constraints other)" "key_columns key = Some keys"
    by (auto simp: ForeignKey list_ex_iff split: option.splits)
  then have "Some keys \<in> key_columns ` set (tb_constraints other)" by (metis image_eqI)
  with assms(3) [of t keys other] other obtain other' where "map_of (sc_tables s') t = Some other'"
    and "Some keys \<in> key_columns ` set (tb_constraints other')" by (auto simp: ForeignKey)
  moreover from this(2) obtain key' where "key' \<in> set (tb_constraints other')" "key_columns key' = Some keys" by auto
  moreover have "list_all (has_column tb') columns"
    using assms(1,2) by (simp add: ForeignKey list_all_iff)
  ultimately show ?thesis by (auto simp: ForeignKey list_ex_iff)
qed (use assms(1,2) in \<open>auto simp: list_all_iff\<close>)

lemma wf_alter:
  assumes wf: "wf_schema s" and tb: "map_of (sc_tables s) t = Some tb"
    and names: "distinct (relation_names (t, tb'))"
      "set (relation_names (t, tb')) \<subseteq> set (relation_names (t, tb)) \<union> N" "N \<inter> set (all_relations s) = {}"
    and s': "s' = s\<lparr>sc_tables := map (\<lambda>(u, x). (u, if u = t then tb' else x)) (sc_tables s)\<rparr>"
    and wf': "distinct (map col_name (tb_columns tb'))" "distinct (map constraint_name (tb_constraints tb'))"
      "\<forall>g \<in> set (tb_triggers tb'). tr_function g \<in> set (sc_functions s)"
    and cols: "\<And>k c. k \<in> set (tb_constraints tb') \<Longrightarrow> mentions_column c k \<Longrightarrow> has_column tb c \<Longrightarrow> has_column tb' c"
    and old: "\<And>k. k \<in> set (tb_constraints tb') \<Longrightarrow> k \<in> set (tb_constraints tb) \<or> (\<exists>n sql. k = CheckKey n sql)"
    and keys: "\<And>k. k \<in> set (tb_constraints tb) \<Longrightarrow> \<not> droppable s t k \<Longrightarrow> k \<in> set (tb_constraints tb')"
  shows "wf_schema s'"
proof -
  note dist = wf_schema_names [OF wf]
  have mem: "(u, x) \<in> set (sc_tables s') \<longleftrightarrow> (if u = t then x = tb' else (u, x) \<in> set (sc_tables s))" for u x
    using dist map_of_SomeD [OF tb] by (force simp: s' image_iff split: if_splits)
  have lookup: "map_of (sc_tables s') u = (if u = t then Some tb' else map_of (sc_tables s) u)" for u
  proof -
    have "map_of (map (\<lambda>(u, x). (u, if u = t then tb' else x)) xs) u =
        (if u = t then map_option (\<lambda>_. tb') (map_of xs t) else map_of xs u)" for xs
      by (induction xs) auto
    then show ?thesis by (simp add: s' tb)
  qed
  have fsts: "map fst (sc_tables s') = map fst (sc_tables s)" by (simp add: s' comp_def case_prod_unfold)
  have rel: "set (relation_names (t, tb)) \<subseteq> set (all_relations s)"
    using map_of_SomeD [OF tb] by (auto simp: all_relations_def)
  have apart: "set (relation_names (t, tb')) \<inter> set (relation_names (u, x)) = {}"
    if "u \<noteq> t" and "(u, x) \<in> set (sc_tables s)" for u x
  proof -
    have "set (relation_names (t, tb)) \<inter> set (relation_names (u, x)) = {}"
      using wf map_of_SomeD [OF tb] that by (force simp: wf_schema_def all_relations_def distinct_relations)
    moreover have "set (relation_names (u, x)) \<subseteq> set (all_relations s)" using that by (auto simp: all_relations_def)
    ultimately show ?thesis using names(2,3) by blast
  qed
  have relations: "distinct (all_relations s')"
    unfolding all_relations_def distinct_relations fsts
  proof (intro conjI ballI impI dist)
    fix x assume "x \<in> set (sc_tables s')"
    then show "distinct (relation_names x)"
      using names(1) wf mem [of "fst x" "snd x"]
      by (auto simp: wf_schema_def all_relations_def distinct_relations split: if_splits)
  next
    fix x y assume "x \<in> set (sc_tables s')" "y \<in> set (sc_tables s')" "fst x \<noteq> fst y"
    then show "set (relation_names x) \<inter> set (relation_names y) = {}"
      using mem [of "fst x" "snd x"] mem [of "fst y" "snd y"] apart [of "fst x" "snd x"] apart [of "fst y" "snd y"] wf
      by (auto simp: wf_schema_def all_relations_def distinct_relations split: if_splits)
  qed
  have target: "\<exists>other'. map_of (sc_tables s') u = Some other' \<and> Some ks \<in> key_columns ` set (tb_constraints other')"
    if "(v, x) \<in> set (sc_tables s)" and "k \<in> set (tb_constraints x)" and "points_to u ks k"
      and "map_of (sc_tables s) u = Some other" and "Some ks \<in> key_columns ` set (tb_constraints other)" for v x k u ks other
  proof (cases "u = t")
    case True
    with that(4,5) tb obtain key where key: "key \<in> set (tb_constraints tb)" "key_columns key = Some ks" by force
    have "\<not> droppable s t key" using that(1-3) True key(2) by (force simp: droppable_def list_ex_iff)
    from keys [OF key(1) this] key(2) True show ?thesis by (force simp: lookup)
  next
    case False
    with that(4,5) show ?thesis by (simp add: lookup)
  qed
  have "wf_table s' x" if "(u, x) \<in> set (sc_tables s')" for u x
  proof (cases "u = t")
    case True
    then have x: "x = tb'" using that mem by simp
    have "valid_key s' tb' k" if k: "k \<in> set (tb_constraints tb')" for k
      using old [OF k]
    proof
      assume o: "k \<in> set (tb_constraints tb)"
      have "valid_key s tb k" using wf_schema_table [OF wf map_of_SomeD [OF tb]] o by (simp add: wf_table_def)
      then show ?thesis using cols [OF k] target [OF map_of_SomeD [OF tb] o] by (rule valid_key_mono) blast+
    qed auto
    with wf' show ?thesis by (simp add: wf_table_def x s')
  next
    case False
    then have x: "(u, x) \<in> set (sc_tables s)" using that mem by simp
    note w = wf_schema_table [OF wf x]
    have "valid_key s' x k" if "k \<in> set (tb_constraints x)" for k
    proof (rule valid_key_mono)
      show "valid_key s x k" using w that by (simp add: wf_table_def)
    qed (use target [OF x that] in blast)+
    with w show ?thesis by (simp add: wf_table_def s')
  qed
  with relations show ?thesis by (auto simp: wf_schema_def)
qed

section \<open>Every operation keeps a schema well-formed\<close>

lemma alter_Inr:
  assumes "alter t f s = Inr s'"
  obtains tb tb' where "map_of (sc_tables s) t = Some tb" and "f tb = Inr tb'"
    and "s' = s\<lparr>sc_tables := map (\<lambda>(u, x). (u, if u = t then tb' else x)) (sc_tables s)\<rparr>"
  using assms by (auto simp: alter_def split: option.splits)

lemma relation_names_sub:
  "relation_names (t, tb) = t # concat (map key_indexes (tb_constraints tb)) @ map ix_name (tb_indexes tb)"
  by (simp add: relation_names_def)

lemma wf_alter_rows:
  assumes wf: "wf_schema s" and tb: "map_of (sc_tables s) t = Some tb"
  shows "wf_table s tb" and "distinct (relation_names (t, tb))"
    and "set (relation_names (t, tb)) \<subseteq> set (all_relations s)"
  using wf_schema_table [OF wf map_of_SomeD [OF tb]] wf map_of_SomeD [OF tb]
  by (auto simp: wf_schema_def all_relations_def distinct_relations)

lemma distinct_filter_names:
  "distinct (concat (map f xs) @ map g ys) \<Longrightarrow> distinct (concat (map f (filter P xs)) @ map g (filter Q ys))"
proof (induction xs)
  case Nil
  then show ?case by (simp add: distinct_map_filter)
next
  case (Cons x xs)
  have "set (concat (map f (filter P xs)) @ map g (filter Q ys)) \<subseteq> set (concat (map f xs) @ map g ys)" by auto
  with Cons show ?case by auto
qed

lemma wf_add_column: "wf_schema s \<Longrightarrow> alter t (add_column c) s = Inr s' \<Longrightarrow> wf_schema s'"
proof (elim alter_Inr)
  fix tb tb' assume wf: "wf_schema s" and tb: "map_of (sc_tables s) t = Some tb" and f: "add_column c tb = Inr tb'"
    and s': "s' = s\<lparr>sc_tables := map (\<lambda>(u, x). (u, if u = t then tb' else x)) (sc_tables s)\<rparr>"
  from f have tb': "\<not> has_column tb (col_name c)" "tb' = tb\<lparr>tb_columns := tb_columns tb @ [c]\<rparr>"
    by (auto simp: add_column_def split: if_splits)
  show ?thesis
    by (rule wf_alter [OF wf tb _ _ _ s', where N = "{}"])
      (use wf_alter_rows [OF wf tb] tb' in \<open>auto simp: relation_names_sub wf_table_def has_column_def\<close>)
qed

lemma wf_add_index:
  "wf_schema s \<Longrightarrow> n \<notin> set (all_relations s) \<Longrightarrow>
    alter t (\<lambda>tb. Inr (tb\<lparr>tb_indexes := tb_indexes tb @ [\<lparr>ix_name = n, ix_terms = terms, ix_unique = unique\<rparr>]\<rparr>)) s =
      Inr s' \<Longrightarrow> wf_schema s'"
proof (elim alter_Inr)
  fix tb tb' assume wf: "wf_schema s" and tb: "map_of (sc_tables s) t = Some tb" and new: "n \<notin> set (all_relations s)"
    and f: "Inr (tb\<lparr>tb_indexes := tb_indexes tb @ [\<lparr>ix_name = n, ix_terms = terms, ix_unique = unique\<rparr>]\<rparr>) = Inr tb'"
    and s': "s' = s\<lparr>sc_tables := map (\<lambda>(u, x). (u, if u = t then tb' else x)) (sc_tables s)\<rparr>"
  note rows = wf_alter_rows [OF wf tb]
  have "relation_names (t, tb') = relation_names (t, tb) @ [n]" using f by (auto simp: relation_names_sub)
  moreover have "n \<notin> set (relation_names (t, tb))" using new rows(3) by blast
  ultimately show ?thesis
    by (intro wf_alter [OF wf tb _ _ _ s', where N = "{n}"])
      (use rows(1,2) f new in \<open>auto simp: wf_table_def has_column_def\<close>)
qed

lemma wf_drop_index: "wf_schema s \<Longrightarrow> alter t (drop_index n) s = Inr s' \<Longrightarrow> wf_schema s'"
proof (elim alter_Inr)
  fix tb tb' assume wf: "wf_schema s" and tb: "map_of (sc_tables s) t = Some tb" and f: "drop_index n tb = Inr tb'"
    and s': "s' = s\<lparr>sc_tables := map (\<lambda>(u, x). (u, if u = t then tb' else x)) (sc_tables s)\<rparr>"
  from f have tb': "tb' = tb\<lparr>tb_indexes := filter (\<lambda>x. ix_name x \<noteq> n) (tb_indexes tb)\<rparr>"
    by (auto simp: drop_index_def split: if_splits)
  show ?thesis
    by (rule wf_alter [OF wf tb _ _ _ s', where N = "{}"])
      (use wf_alter_rows [OF wf tb] tb' in \<open>auto simp: relation_names_sub wf_table_def has_column_def distinct_map_filter\<close>)
qed

lemma wf_create_check: "wf_schema s \<Longrightarrow> alter t (create_check n sql) s = Inr s' \<Longrightarrow> wf_schema s'"
proof (elim alter_Inr)
  fix tb tb' assume wf: "wf_schema s" and tb: "map_of (sc_tables s) t = Some tb" and f: "create_check n sql tb = Inr tb'"
    and s': "s' = s\<lparr>sc_tables := map (\<lambda>(u, x). (u, if u = t then tb' else x)) (sc_tables s)\<rparr>"
  from f have tb': "n \<notin> set (map constraint_name (tb_constraints tb))"
      "tb' = tb\<lparr>tb_constraints := tb_constraints tb @ [CheckKey n sql]\<rparr>"
    by (auto simp: create_check_def split: if_splits)
  show ?thesis
    by (rule wf_alter [OF wf tb _ _ _ s', where N = "{}"])
      (use wf_alter_rows [OF wf tb] tb' in \<open>auto simp: relation_names_sub wf_table_def has_column_def\<close>)
qed

lemma wf_drop_constraint: "wf_schema s \<Longrightarrow> alter t (drop_constraint s t n) s = Inr s' \<Longrightarrow> wf_schema s'"
proof (elim alter_Inr)
  fix tb tb' assume wf: "wf_schema s" and tb: "map_of (sc_tables s) t = Some tb" and f: "drop_constraint s t n tb = Inr tb'"
    and s': "s' = s\<lparr>sc_tables := map (\<lambda>(u, x). (u, if u = t then tb' else x)) (sc_tables s)\<rparr>"
  from f have free: "\<forall>k \<in> set (tb_constraints tb). constraint_name k = n \<longrightarrow> droppable s t k"
    and tb': "tb' = tb\<lparr>tb_constraints := filter (\<lambda>k. constraint_name k \<noteq> n) (tb_constraints tb)\<rparr>"
    by (auto simp: drop_constraint_def list_all_iff split: if_splits)
  note rows = wf_alter_rows [OF wf tb]
  have "distinct (concat (map key_indexes (filter (\<lambda>k. constraint_name k \<noteq> n) (tb_constraints tb))) @
      map ix_name (filter (\<lambda>_. True) (tb_indexes tb)))"
    using rows(2) by (intro distinct_filter_names) (simp add: relation_names_sub)
  then show ?thesis
    by (intro wf_alter [OF wf tb _ _ _ s', where N = "{}"])
      (use rows free tb' in \<open>auto simp: relation_names_sub wf_table_def has_column_def distinct_map_filter\<close>)
qed

lemma wf_drop_column: "wf_schema s \<Longrightarrow> alter t (drop_column s t c) s = Inr s' \<Longrightarrow> wf_schema s'"
proof (elim alter_Inr)
  fix tb tb' assume wf: "wf_schema s" and tb: "map_of (sc_tables s) t = Some tb" and f: "drop_column s t c tb = Inr tb'"
    and s': "s' = s\<lparr>sc_tables := map (\<lambda>(u, x). (u, if u = t then tb' else x)) (sc_tables s)\<rparr>"
  from f have free: "\<forall>k \<in> set (tb_constraints tb). mentions_column c k \<longrightarrow> droppable s t k"
    and tb': "tb' = tb\<lparr>tb_columns := filter (\<lambda>x. col_name x \<noteq> c) (tb_columns tb),
        tb_constraints := filter (\<lambda>k. \<not> mentions_column c k) (tb_constraints tb),
        tb_indexes := filter (\<lambda>x. c \<notin> set (ix_terms x)) (tb_indexes tb)\<rparr>"
    by (auto simp: drop_column_def list_all_iff split: if_splits)
  note rows = wf_alter_rows [OF wf tb]
  have "distinct (concat (map key_indexes (filter (\<lambda>k. \<not> mentions_column c k) (tb_constraints tb))) @
      map ix_name (filter (\<lambda>x. c \<notin> set (ix_terms x)) (tb_indexes tb)))"
    using rows(2) by (intro distinct_filter_names) (simp add: relation_names_sub)
  then show ?thesis
    by (intro wf_alter [OF wf tb _ _ _ s', where N = "{}"])
      (use rows free tb' in \<open>auto simp: relation_names_sub wf_table_def has_column_def distinct_map_filter\<close>)
qed

lemma wf_create_trigger: "wf_schema s \<Longrightarrow> f \<in> set (sc_functions s) \<Longrightarrow> alter t (create_trigger n f) s = Inr s' \<Longrightarrow> wf_schema s'"
proof (elim alter_Inr)
  fix tb tb' assume wf: "wf_schema s" and fn: "f \<in> set (sc_functions s)" and tb: "map_of (sc_tables s) t = Some tb"
    and f: "create_trigger n f tb = Inr tb'"
    and s': "s' = s\<lparr>sc_tables := map (\<lambda>(u, x). (u, if u = t then tb' else x)) (sc_tables s)\<rparr>"
  from f have tb': "tb' = tb\<lparr>tb_triggers := tb_triggers tb @ [\<lparr>tr_name = n, tr_function = f\<rparr>]\<rparr>"
    by (auto simp: create_trigger_def split: if_splits)
  show ?thesis
    by (rule wf_alter [OF wf tb _ _ _ s', where N = "{}"])
      (use wf_alter_rows [OF wf tb] tb' fn in \<open>auto simp: relation_names_sub wf_table_def has_column_def\<close>)
qed

lemma wf_same_table: "wf_schema s \<Longrightarrow> alter t (\<lambda>tb. if P tb then Inr tb else Inl e) s = Inr s' \<Longrightarrow> wf_schema s'"
proof (elim alter_Inr)
  fix tb tb' assume wf: "wf_schema s" and tb: "map_of (sc_tables s) t = Some tb"
    and f: "(if P tb then Inr tb else Inl e) = Inr tb'"
    and s': "s' = s\<lparr>sc_tables := map (\<lambda>(u, x). (u, if u = t then tb' else x)) (sc_tables s)\<rparr>"
  show ?thesis
    by (rule wf_alter [OF wf tb _ _ _ s', where N = "{}"])
      (use wf_alter_rows [OF wf tb] f in \<open>auto simp: relation_names_sub wf_table_def has_column_def split: if_splits\<close>)
qed

lemma wf_functions:
  assumes "wf_schema s" and "s' = s\<lparr>sc_functions := fs\<rparr>"
    and "\<And>t tb g. (t, tb) \<in> set (sc_tables s) \<Longrightarrow> g \<in> set (tb_triggers tb) \<Longrightarrow> tr_function g \<in> set fs"
  shows "wf_schema s'"
proof -
  have "valid_key s' tb k" if "valid_key s tb k" for tb k
    using that by (rule valid_key_mono) (auto simp: assms(2))
  then show ?thesis
    using assms(1,3) by (fastforce simp: assms(2) wf_schema_def wf_table_def all_relations_def)
qed

lemma wf_create_table:
  assumes wf: "wf_schema s" and made: "create_table t columns items s = Inr s'"
  shows "wf_schema s'"
proof -
  let ?tb = "new_table t columns items"
  from made have s': "s' = s\<lparr>sc_tables := sc_tables s @ [(t, ?tb)]\<rparr>"
    and new: "set (relation_names (t, ?tb)) \<inter> set (all_relations s) = {}"
    and own: "distinct (relation_names (t, ?tb))"
    and cols: "distinct (map col_name columns)" and names: "distinct (map constraint_name (tb_constraints ?tb))"
    and keys: "\<forall>k \<in> set (tb_constraints ?tb). valid_key s ?tb k"
    by (auto simp: create_table_def Let_def list_ex_iff list_all_iff split: if_splits)
  have lookup: "map_of (sc_tables s') u = Some other" if "map_of (sc_tables s) u = Some other" for u other
    using that by (simp add: s' map_add_def split: option.splits)
  have kept: "valid_key s' tb k" if "valid_key s tb k" for tb k
    using that by (rule valid_key_mono) (auto dest: lookup)
  have "wf_table s' ?tb"
    using cols names keys kept by (simp add: wf_table_def new_table_def)
  moreover have "wf_table s' x" if "(u, x) \<in> set (sc_tables s)" for u x
    using wf_schema_table [OF wf that] kept by (simp add: wf_table_def s')
  moreover have "distinct (all_relations s')"
    using wf own new by (auto simp: wf_schema_def all_relations_def s')
  ultimately show ?thesis by (auto simp: wf_schema_def s')
qed

lemma wf_drop_table:
  assumes wf: "wf_schema s" and dropped: "drop_table t s = Inr s'"
  shows "wf_schema s'"
proof -
  from dropped have s': "s' = s\<lparr>sc_tables := filter (\<lambda>(u, tb). u \<noteq> t) (sc_tables s)\<rparr>"
    and free: "\<forall>(u, tb) \<in> set (sc_tables s). u \<noteq> t \<longrightarrow> \<not> list_ex (refers t) (tb_constraints tb)"
    by (auto simp: drop_table_def list_ex_iff split: if_splits)
  have "map_of (filter (\<lambda>(u, tb). u \<noteq> t) xs) u = map_of xs u" if "u \<noteq> t" for u and xs :: "(string \<times> db_table) list"
    using that by (induction xs) auto
  then have lookup: "map_of (sc_tables s') u = map_of (sc_tables s) u" if "u \<noteq> t" for u
    using that by (simp add: s')
  have "valid_key s' x k" if "(u, x) \<in> set (sc_tables s')" and "k \<in> set (tb_constraints x)" for u x k
  proof -
    have x: "(u, x) \<in> set (sc_tables s)" "u \<noteq> t" using that(1) by (auto simp: s')
    then have "\<not> refers t k" using free that(2) by (auto simp: list_ex_iff)
    moreover have "valid_key s x k" using wf_schema_table [OF wf x(1)] that(2) by (simp add: wf_table_def)
    ultimately show ?thesis by (cases k) (auto simp: lookup)
  qed
  moreover have "distinct (all_relations s')"
    using wf unfolding wf_schema_def all_relations_def s' by (auto simp: distinct_relations distinct_map_filter)
  ultimately show ?thesis
    using wf by (auto simp: wf_schema_def wf_table_def s')
qed

lemma run_operation_wf: "run_operation x s = Inr s' \<Longrightarrow> wf_schema s \<Longrightarrow> wf_schema s'"
proof (cases x)
  case (CreateExtension e)
  assume "run_operation x s = Inr s'" and wf: "wf_schema s"
  then have s': "s' = s \<or> s' = s\<lparr>sc_extensions := sc_extensions s @ [e]\<rparr>" by (auto simp: CreateExtension split: if_splits)
  have "valid_key (s\<lparr>sc_extensions := es\<rparr>) tb k" if "valid_key s tb k" for tb k es
    using that by (rule valid_key_mono) auto
  with s' wf show "wf_schema s'" by (fastforce simp: wf_schema_def wf_table_def all_relations_def)
next
  case (DropFunction f)
  assume "run_operation x s = Inr s'" and wf: "wf_schema s"
  then have s': "s' = s\<lparr>sc_functions := filter (\<lambda>g. g \<noteq> f) (sc_functions s)\<rparr>"
    and free: "\<forall>(t, tb) \<in> set (sc_tables s). f \<notin> tr_function ` set (tb_triggers tb)"
    by (auto simp: DropFunction drop_function_def list_ex_iff split: if_splits)
  have "tr_function g \<in> set (filter (\<lambda>g. g \<noteq> f) (sc_functions s))"
    if x: "(t, tb) \<in> set (sc_tables s)" and g: "g \<in> set (tb_triggers tb)" for t tb g
    using wf_schema_table [OF wf x] free x g by (auto simp: wf_table_def)
  with wf s' show "wf_schema s'" by (rule wf_functions)
next
  case (CreateFunction f)
  assume "run_operation x s = Inr s'" and wf: "wf_schema s"
  then have "s' = s\<lparr>sc_functions := sc_functions s @ [f]\<rparr>" by (auto simp: CreateFunction split: if_splits)
  with wf show "wf_schema s'" by (rule wf_functions) (use wf_schema_table [OF wf] in \<open>auto simp: wf_table_def\<close>)
qed (auto intro: wf_create_table wf_drop_table wf_add_column wf_drop_column wf_drop_index wf_create_check
    wf_drop_constraint wf_create_trigger wf_same_table wf_add_index simp: create_index_def split: if_splits)

lemma wf_empty [simp]: "wf_schema empty_schema"
  by (simp add: wf_schema_def empty_schema_def all_relations_def)

lemma run_operations_wf: "run_operations xs s = Inr s' \<Longrightarrow> wf_schema s \<Longrightarrow> wf_schema s'"
  unfolding run_operations_def by (erule foldE_invariant) (auto intro: run_operation_wf)

end
