(* ===== verification/Migrations.thy ===== *)
theory Migrations
  imports Schema
begin

text \<open>
  The migrations under \<^verbatim>\<open>migrations/versions\<close>, operation by operation, and the tables the models of
  \<^verbatim>\<open>app/models\<close> declare. The properties say that the migrations produce exactly the tables of the
  models, with the trigger that keeps \<open>updated_at\<close>, and that each downgrade undoes its upgrade.
\<close>

section \<open>Texts of SQL\<close>

definition quoted :: "string \<Rightarrow> string" where
  "quoted s = CHR 0x27 # s @ [CHR 0x27]"

definition json_type :: "string \<Rightarrow> string \<Rightarrow> string" where
  "json_type c t = ''jsonb_typeof('' @ c @ '') = '' @ quoted t"

definition status_in :: "string list \<Rightarrow> string" where
  "status_in xs = ''status IN ('' @ quoted (hd xs) @ concat (map (\<lambda>x. CHR '','' # quoted x) (tl xs)) @ '')''"

definition required :: "string \<Rightarrow> sql_type \<Rightarrow> column" where
  "required n t = \<lparr>col_name = n, col_type = t, col_nullable = False, col_default = None\<rparr>"

definition optional :: "string \<Rightarrow> sql_type \<Rightarrow> column" where
  "optional n t = \<lparr>col_name = n, col_type = t, col_nullable = True, col_default = None\<rparr>"

definition defaulted :: "string \<Rightarrow> sql_type \<Rightarrow> sql_default \<Rightarrow> column" where
  "defaulted n t d = \<lparr>col_name = n, col_type = t, col_nullable = False, col_default = Some d\<rparr>"

section \<open>The first migration\<close>

definition create_repositories :: "operation list" where
  "create_repositories =
    [CreateTable ''repositories''
       [required ''github_owner'' (StringT 255),
        required ''github_name'' (StringT 255),
        required ''clone_url'' TextT,
        required ''default_branch'' (StringT 255),
        defaulted ''local_status'' (StringT 50) (Literal ''pending''),
        defaulted ''index_status'' (StringT 50) (Literal ''pending''),
        defaulted ''id'' UuidT (Sql ''gen_random_uuid()''),
        defaulted ''created_at'' TimestampT (Sql ''now()''),
        defaulted ''updated_at'' TimestampT (Sql ''now()'')]
       [Primary (Some ''pk_repositories'') [''id'']],
     CreateIndex ''uq_repositories_github_identity'' ''repositories'' [''lower(github_owner)'',
         ''lower(github_name)''] True]"

definition create_code_chunks :: "operation list" where
  "create_code_chunks =
    [CreateTable ''code_chunks''
       [required ''repository_id'' UuidT,
        required ''file_path'' TextT,
        optional ''language'' (StringT 100),
        required ''start_line'' IntegerT,
        required ''end_line'' IntegerT,
        required ''content'' TextT,
        required ''content_hash'' (StringT 64),
        optional ''embedding'' (VectorT 1536),
        defaulted ''id'' UuidT (Sql ''gen_random_uuid()''),
        defaulted ''created_at'' TimestampT (Sql ''now()''),
        defaulted ''updated_at'' TimestampT (Sql ''now()'')]
       [Check (Final ''ck_code_chunks_valid_line_range'') ''start_line > 0 AND end_line >= start_line'',
        Foreign (Some ''fk_code_chunks_repository_id_repositories'') [''repository_id''] ''repositories''
            [''id''] None,
        Primary (Some ''pk_code_chunks'') [''id'']],
     CreateIndex ''ix_code_chunks_content_hash'' ''code_chunks'' [''content_hash''] False,
     CreateIndex ''ix_code_chunks_repository_id'' ''code_chunks'' [''repository_id''] False]"

definition create_issues :: "operation list" where
  "create_issues =
    [CreateTable ''issues''
       [required ''repository_id'' UuidT,
        required ''github_issue_number'' IntegerT,
        required ''title'' TextT,
        optional ''body'' TextT,
        defaulted ''state'' (StringT 50) (Literal ''open''),
        required ''source_url'' TextT,
        defaulted ''id'' UuidT (Sql ''gen_random_uuid()''),
        defaulted ''created_at'' TimestampT (Sql ''now()''),
        defaulted ''updated_at'' TimestampT (Sql ''now()'')]
       [Check (Final ''ck_issues_positive_issue_number'') ''github_issue_number > 0'',
        Foreign (Some ''fk_issues_repository_id_repositories'') [''repository_id''] ''repositories'' [''id''] None,
        Primary (Some ''pk_issues'') [''id''],
        Unique (Some ''uq_issues_repository_id'') [''repository_id'', ''github_issue_number'']],
     CreateIndex ''ix_issues_repository_id'' ''issues'' [''repository_id''] False]"

definition create_implementation_plans :: "operation list" where
  "create_implementation_plans =
    [CreateTable ''implementation_plans''
       [required ''issue_id'' UuidT,
        defaulted ''status'' (StringT 50) (Literal ''draft''),
        optional ''summary'' TextT,
        defaulted ''id'' UuidT (Sql ''gen_random_uuid()''),
        defaulted ''created_at'' TimestampT (Sql ''now()''),
        defaulted ''updated_at'' TimestampT (Sql ''now()'')]
       [Foreign (Some ''fk_implementation_plans_issue_id_issues'') [''issue_id''] ''issues'' [''id''] None,
        Primary (Some ''pk_implementation_plans'') [''id'']],
     CreateIndex ''ix_implementation_plans_issue_id'' ''implementation_plans'' [''issue_id''] False]"

definition create_execution_runs :: "operation list" where
  "create_execution_runs =
    [CreateTable ''execution_runs''
       [required ''plan_id'' UuidT,
        defaulted ''status'' (StringT 50) (Literal ''pending''),
        optional ''branch_name'' (StringT 255),
        optional ''started_at'' TimestampT,
        optional ''completed_at'' TimestampT,
        defaulted ''id'' UuidT (Sql ''gen_random_uuid()''),
        defaulted ''created_at'' TimestampT (Sql ''now()''),
        defaulted ''updated_at'' TimestampT (Sql ''now()'')]
       [Check (Final ''ck_execution_runs_valid_run_times'') ''completed_at >= started_at'',
        Foreign (Some ''fk_execution_runs_plan_id_implementation_plans'') [''plan_id'']
            ''implementation_plans'' [''id''] None,
        Primary (Some ''pk_execution_runs'') [''id'']],
     CreateIndex ''ix_execution_runs_plan_id'' ''execution_runs'' [''plan_id''] False]"

definition create_plan_tasks :: "operation list" where
  "create_plan_tasks =
    [CreateTable ''plan_tasks''
       [required ''plan_id'' UuidT,
        required ''task_key'' (StringT 100),
        required ''title'' TextT,
        optional ''description'' TextT,
        defaulted ''status'' (StringT 50) (Literal ''pending''),
        defaulted ''dependencies'' JsonbT (Sql (quoted ''[]'' @ ''::jsonb'')),
        defaulted ''target_files'' JsonbT (Sql (quoted ''[]'' @ ''::jsonb'')),
        defaulted ''sequence'' IntegerT (Literal ''0''),
        defaulted ''id'' UuidT (Sql ''gen_random_uuid()''),
        defaulted ''created_at'' TimestampT (Sql ''now()''),
        defaulted ''updated_at'' TimestampT (Sql ''now()'')]
       [Check (Final ''ck_plan_tasks_dependencies_array'') (json_type ''dependencies'' ''array''),
        Check (Final ''ck_plan_tasks_target_files_array'') (json_type ''target_files'' ''array''),
        Check (Final ''ck_plan_tasks_nonnegative_sequence'') ''sequence >= 0'',
        Foreign (Some ''fk_plan_tasks_plan_id_implementation_plans'') [''plan_id''] ''implementation_plans''
            [''id''] None,
        Primary (Some ''pk_plan_tasks'') [''id''],
        Unique (Some ''uq_plan_tasks_plan_id'') [''plan_id'', ''task_key'']],
     CreateIndex ''ix_plan_tasks_plan_id'' ''plan_tasks'' [''plan_id''] False]"

definition create_pull_requests :: "operation list" where
  "create_pull_requests =
    [CreateTable ''pull_requests''
       [required ''execution_run_id'' UuidT,
        required ''github_pr_number'' IntegerT,
        required ''github_url'' TextT,
        defaulted ''status'' (StringT 50) (Literal ''open''),
        defaulted ''id'' UuidT (Sql ''gen_random_uuid()''),
        defaulted ''created_at'' TimestampT (Sql ''now()''),
        defaulted ''updated_at'' TimestampT (Sql ''now()'')]
       [Check (Final ''ck_pull_requests_positive_pr_number'') ''github_pr_number > 0'',
        Foreign (Some ''fk_pull_requests_execution_run_id_execution_runs'') [''execution_run_id'']
            ''execution_runs'' [''id''] None,
        Primary (Some ''pk_pull_requests'') [''id''],
        Unique (Some ''uq_pull_requests_execution_run_id'') [''execution_run_id'']]]"

definition create_task_executions :: "operation list" where
  "create_task_executions =
    [CreateTable ''task_executions''
       [required ''execution_run_id'' UuidT,
        required ''plan_task_id'' UuidT,
        defaulted ''status'' (StringT 50) (Literal ''pending''),
        defaulted ''attempt'' IntegerT (Literal ''1''),
        optional ''output_summary'' TextT,
        defaulted ''id'' UuidT (Sql ''gen_random_uuid()''),
        defaulted ''created_at'' TimestampT (Sql ''now()''),
        defaulted ''updated_at'' TimestampT (Sql ''now()'')]
       [Check (Final ''ck_task_executions_positive_attempt'') ''attempt > 0'',
        Foreign (Some ''fk_task_executions_execution_run_id_execution_runs'') [''execution_run_id'']
            ''execution_runs'' [''id''] None,
        Foreign (Some ''fk_task_executions_plan_task_id_plan_tasks'') [''plan_task_id''] ''plan_tasks'' [''id''] None,
        Primary (Some ''pk_task_executions'') [''id''],
        Unique (Some ''uq_task_executions_execution_run_id'') [''execution_run_id'', ''plan_task_id'', ''attempt'']],
     CreateIndex ''ix_task_executions_execution_run_id'' ''task_executions'' [''execution_run_id''] False,
     CreateIndex ''ix_task_executions_plan_task_id'' ''task_executions'' [''plan_task_id''] False]"

definition create_agent_runs :: "operation list" where
  "create_agent_runs =
    [CreateTable ''agent_runs''
       [required ''execution_run_id'' UuidT,
        optional ''task_execution_id'' UuidT,
        required ''agent_type'' (StringT 50),
        defaulted ''status'' (StringT 50) (Literal ''pending''),
        optional ''model'' (StringT 255),
        defaulted ''input_metadata'' JsonbT (Sql (quoted ''{}'' @ ''::jsonb'')),
        defaulted ''output_metadata'' JsonbT (Sql (quoted ''{}'' @ ''::jsonb'')),
        optional ''input_tokens'' IntegerT,
        optional ''output_tokens'' IntegerT,
        optional ''cost_usd'' (NumericT 18 8),
        optional ''started_at'' TimestampT,
        optional ''completed_at'' TimestampT,
        defaulted ''id'' UuidT (Sql ''gen_random_uuid()''),
        defaulted ''created_at'' TimestampT (Sql ''now()''),
        defaulted ''updated_at'' TimestampT (Sql ''now()'')]
       [Check (Final ''ck_agent_runs_input_metadata_object'') (json_type ''input_metadata'' ''object''),
        Check (Final ''ck_agent_runs_output_metadata_object'') (json_type ''output_metadata'' ''object''),
        Check (Final ''ck_agent_runs_valid_agent_times'') ''completed_at >= started_at'',
        Check (Final ''ck_agent_runs_nonnegative_usage'')
            ''input_tokens >= 0 AND output_tokens >= 0 AND cost_usd >= 0'',
        Foreign (Some ''fk_agent_runs_execution_run_id_execution_runs'') [''execution_run_id'']
            ''execution_runs'' [''id''] None,
        Foreign (Some ''fk_agent_runs_task_execution_id_task_executions'') [''task_execution_id'']
            ''task_executions'' [''id''] None,
        Primary (Some ''pk_agent_runs'') [''id'']],
     CreateIndex ''ix_agent_runs_execution_run_id'' ''agent_runs'' [''execution_run_id''] False,
     CreateIndex ''ix_agent_runs_task_execution_id'' ''agent_runs'' [''task_execution_id''] False]"

text \<open>The tables that get the trigger, in the order of the loop.\<close>

definition stamped_tables :: "string list" where
  "stamped_tables = [''repositories'', ''issues'', ''code_chunks'', ''implementation_plans'', ''plan_tasks'',
     ''execution_runs'', ''task_executions'', ''agent_runs'', ''pull_requests'']"

definition upgrade_0001 :: "operation list" where
  "upgrade_0001 = CreateExtension ''vector'' #
     create_repositories @ create_code_chunks @ create_issues @ create_implementation_plans @
     create_execution_runs @ create_plan_tasks @ create_pull_requests @ create_task_executions @
     create_agent_runs @ CreateFunction ''set_record_updated_at'' #
     map (\<lambda>t. CreateTrigger ''update_timestamp'' t ''set_record_updated_at'') stamped_tables"

definition downgrade_0001 :: "operation list" where
  "downgrade_0001 =
    [DropIndex ''ix_agent_runs_task_execution_id'' ''agent_runs'',
     DropIndex ''ix_agent_runs_execution_run_id'' ''agent_runs'',
     DropTable ''agent_runs'',
     DropIndex ''ix_task_executions_plan_task_id'' ''task_executions'',
     DropIndex ''ix_task_executions_execution_run_id'' ''task_executions'',
     DropTable ''task_executions'',
     DropTable ''pull_requests'',
     DropIndex ''ix_plan_tasks_plan_id'' ''plan_tasks'',
     DropTable ''plan_tasks'',
     DropIndex ''ix_execution_runs_plan_id'' ''execution_runs'',
     DropTable ''execution_runs'',
     DropIndex ''ix_implementation_plans_issue_id'' ''implementation_plans'',
     DropTable ''implementation_plans'',
     DropIndex ''ix_issues_repository_id'' ''issues'',
     DropTable ''issues'',
     DropIndex ''ix_code_chunks_repository_id'' ''code_chunks'',
     DropIndex ''ix_code_chunks_content_hash'' ''code_chunks'',
     DropTable ''code_chunks'',
     DropIndex ''uq_repositories_github_identity'' ''repositories'',
     DropTable ''repositories'',
     DropFunction ''set_record_updated_at'']"

section \<open>The later migrations\<close>

definition upgrade_0002 :: "operation list" where
  "upgrade_0002 =
     map (\<lambda>t. AddColumn t (defaulted ''embedding_status'' (StringT 50) (Literal ''pending'')))
       [''repositories'', ''code_chunks''] @
     [AddColumn ''code_chunks'' (optional ''embedding_profile'' (StringT 64)),
      AddColumn ''code_chunks'' (optional ''embedding_content_hash'' (StringT 64))]"

definition downgrade_0002 :: "operation list" where
  "downgrade_0002 =
     [DropColumn ''code_chunks'' ''embedding_content_hash'', DropColumn ''code_chunks'' ''embedding_profile''] @
     map (\<lambda>t. DropColumn t ''embedding_status'') [''code_chunks'', ''repositories'']"

definition proposal_lists :: "string list" where
  "proposal_lists = [''acceptance_criteria'', ''suggested_tests'']"

definition upgrade_0003 :: "operation list" where
  "upgrade_0003 = AddColumn ''plan_tasks'' (optional ''rationale'' TextT) #
     concat (map (\<lambda>name.
       [AddColumn ''plan_tasks'' (defaulted name JsonbT (Sql (quoted ''[]'' @ ''::jsonb''))),
        CreateCheck (Given (name @ ''_array'')) ''plan_tasks'' (json_type name ''array'')]) proposal_lists)"

definition downgrade_0003 :: "operation list" where
  "downgrade_0003 = concat (map (\<lambda>name.
       [DropCheck (Final (''ck_plan_tasks_'' @ name @ ''_array'')) ''plan_tasks'', DropColumn ''plan_tasks'' name])
       proposal_lists) @
     [DropColumn ''plan_tasks'' ''rationale'']"

definition upgrade_0004 :: "operation list" where
  "upgrade_0004 = [AddColumn ''execution_runs'' (optional ''plan_snapshot'' JsonbT)]"

definition downgrade_0004 :: "operation list" where
  "downgrade_0004 = [DropColumn ''execution_runs'' ''plan_snapshot'']"

definition upgrade_0005 :: "operation list" where
  "upgrade_0005 =
    [CreateTable ''workflow_runs''
       [defaulted ''id'' UuidT (Sql ''gen_random_uuid()''),
        defaulted ''created_at'' TimestampT (Sql ''now()''),
        defaulted ''updated_at'' TimestampT (Sql ''now()''),
        required ''request'' JsonbT,
        required ''data'' JsonbT,
        required ''history'' JsonbT,
        required ''stage'' (StringT 32),
        required ''status'' (StringT 20),
        optional ''claim_token'' UuidT,
        optional ''lease_until'' TimestampT,
        required ''attempts'' IntegerT,
        optional ''error_code'' (StringT 100)]
       [Primary None [''id''],
        Check (Given ''nonnegative_workflow_attempts'') ''attempts >= 0'',
        Check (Given ''valid_workflow_status'')
          (status_in [''pending'', ''running'', ''failed'', ''blocked'', ''completed''])],
     CreateIndex ''ix_workflow_runs_status'' ''workflow_runs'' [''status''] False,
     CreateIndex ''ix_workflow_runs_lease_until'' ''workflow_runs'' [''lease_until''] False,
     CreateTrigger ''workflow_runs_updated_at'' ''workflow_runs'' ''set_record_updated_at'']"

definition downgrade_0005 :: "operation list" where
  "downgrade_0005 = [DropTable ''workflow_runs'']"

definition status_constraint :: "bool \<Rightarrow> operation list" where
  "status_constraint cancelled =
     [DropCheck (Given ''valid_workflow_status'') ''workflow_runs'',
      CreateCheck (Given ''valid_workflow_status'') ''workflow_runs''
        (status_in ([''pending'', ''running'', ''failed'', ''blocked'', ''completed''] @
           (if cancelled then [''cancelled''] else [])))]"

definition upgrade_0006 :: "operation list" where
  "upgrade_0006 =
    [AddColumn ''workflow_runs'' (defaulted ''generation'' IntegerT (Sql ''0'')),
     AddColumn ''workflow_runs'' (optional ''retry_at'' TimestampT),
     CreateIndex ''ix_workflow_runs_retry_at'' ''workflow_runs'' [''retry_at''] False] @
     status_constraint True @
    [CreateTable ''worker_deliveries''
       [defaulted ''id'' UuidT (Sql ''gen_random_uuid()''),
        defaulted ''created_at'' TimestampT (Sql ''now()''),
        defaulted ''updated_at'' TimestampT (Sql ''now()''),
        required ''task_name'' (StringT 100),
        required ''repository_id'' UuidT,
        required ''status'' (StringT 20),
        required ''lease_until'' TimestampT,
        required ''result'' JsonbT,
        optional ''error_code'' (StringT 100)]
       [Primary None [''id''],
        Foreign None [''repository_id''] ''repositories'' [''id''] (Some ''CASCADE''),
        Check (Given ''valid_delivery_status'') (status_in [''running'', ''completed'', ''failed''])],
     CreateIndex ''ix_worker_deliveries_repository_id'' ''worker_deliveries'' [''repository_id''] False,
     CreateIndex ''ix_worker_deliveries_lease_until'' ''worker_deliveries'' [''lease_until''] False,
     CreateTrigger ''worker_deliveries_updated_at'' ''worker_deliveries'' ''set_record_updated_at'']"

definition downgrade_0006 :: "operation list" where
  "downgrade_0006 =
    [DropTable ''worker_deliveries'',
     RewriteStatus ''workflow_runs'' ''cancelled'' ''blocked'',
     RewriteStatus ''task_executions'' ''cancelled'' ''failed'',
     RewriteStatus ''execution_runs'' ''cancelled'' ''failed''] @
     status_constraint False @
    [DropIndex ''ix_workflow_runs_retry_at'' ''workflow_runs'',
     DropColumn ''workflow_runs'' ''retry_at'',
     DropColumn ''workflow_runs'' ''generation'']"

section \<open>The chain of revisions\<close>

record revision =
  rv_id :: string
  rv_down :: "string option"
  rv_upgrade :: "operation list"
  rv_downgrade :: "operation list"

definition revisions :: "revision list" where
  "revisions =
    [\<lparr>rv_id = ''0001'', rv_down = None, rv_upgrade = upgrade_0001, rv_downgrade = downgrade_0001\<rparr>,
     \<lparr>rv_id = ''0002'', rv_down = Some ''0001'', rv_upgrade = upgrade_0002, rv_downgrade = downgrade_0002\<rparr>,
     \<lparr>rv_id = ''0003'', rv_down = Some ''0002'', rv_upgrade = upgrade_0003, rv_downgrade = downgrade_0003\<rparr>,
     \<lparr>rv_id = ''0004'', rv_down = Some ''0003'', rv_upgrade = upgrade_0004, rv_downgrade = downgrade_0004\<rparr>,
     \<lparr>rv_id = ''0005'', rv_down = Some ''0004'', rv_upgrade = upgrade_0005, rv_downgrade = downgrade_0005\<rparr>,
     \<lparr>rv_id = ''0006'', rv_down = Some ''0005'', rv_upgrade = upgrade_0006, rv_downgrade = downgrade_0006\<rparr>]"

text \<open>The schema of a database at a revision: every upgrade up to it, in order.\<close>

definition upgraded :: "revision list \<Rightarrow> string + schema" where
  "upgraded rs = foldE (\<lambda>r. run_operations (rv_upgrade r)) rs empty_schema"

section \<open>The tables of the models\<close>

text \<open>A mapped attribute: its column, whether it has an index or is unique, what it refers to.\<close>

record mapped =
  mp_column :: column
  mp_index :: bool
  mp_unique :: bool
  mp_refers :: "(string \<times> string \<times> string option) option"

definition attribute :: "column \<Rightarrow> mapped" where
  "attribute c = \<lparr>mp_column = c, mp_index = False, mp_unique = False, mp_refers = None\<rparr>"

definition references :: "column \<Rightarrow> string \<times> string \<times> string option \<Rightarrow> mapped" where
  "references c r = (attribute c)\<lparr>mp_refers := Some r\<rparr>"

definition indexed :: "mapped \<Rightarrow> mapped" where
  "indexed m = m\<lparr>mp_index := True\<rparr>"

definition uniquely :: "mapped \<Rightarrow> mapped" where
  "uniquely m = m\<lparr>mp_unique := True\<rparr>"

text \<open>The columns of \<open>Record\<close>, which every model inherits.\<close>

definition record_columns :: "column list" where
  "record_columns =
    [defaulted ''id'' UuidT (Sql ''gen_random_uuid()''),
     defaulted ''created_at'' TimestampT (Sql ''now()''),
     defaulted ''updated_at'' TimestampT (Sql ''now()'')]"

definition attribute_items :: "mapped \<Rightarrow> table_item list" where
  "attribute_items m =
     (case mp_refers m of None \<Rightarrow> []
      | Some (t, k, deletion) \<Rightarrow> [Foreign None [col_name (mp_column m)] t [k] deletion]) @
     (if mp_unique m then [Unique None [col_name (mp_column m)]] else [])"

definition model_table :: "string \<Rightarrow> mapped list \<Rightarrow> table_item list \<Rightarrow> index list \<Rightarrow> string \<times> db_table" where
  "model_table t attributes items indexes =
     (t, \<lparr>tb_columns = record_columns @ map mp_column attributes,
       tb_constraints = map (declared t) (Primary None [''id''] # concat (map attribute_items attributes) @ items),
       tb_indexes = indexes @ map (\<lambda>m. \<lparr>ix_name = index_name t [col_name (mp_column m)] None,
          ix_terms = [col_name (mp_column m)], ix_unique = False\<rparr>) (filter mp_index attributes),
       tb_triggers = []\<rparr>)"

definition repositories_table :: "string \<times> db_table" where
  "repositories_table = model_table ''repositories''
    [attribute (required ''github_owner'' (StringT 255)),
     attribute (required ''github_name'' (StringT 255)),
     attribute (required ''clone_url'' TextT),
     attribute (required ''default_branch'' (StringT 255)),
     attribute (defaulted ''local_status'' (StringT 50) (Literal ''pending'')),
     attribute (defaulted ''index_status'' (StringT 50) (Literal ''pending'')),
     attribute (defaulted ''embedding_status'' (StringT 50) (Literal ''pending''))]
    []
    [\<lparr>ix_name = ''uq_repositories_github_identity'', ix_terms = [''lower(github_owner)'',
        ''lower(github_name)''], ix_unique = True\<rparr>]"

definition issues_table :: "string \<times> db_table" where
  "issues_table = model_table ''issues''
    [indexed (references (required ''repository_id'' UuidT) (''repositories'', ''id'', None)),
     attribute (required ''github_issue_number'' IntegerT),
     attribute (required ''title'' TextT),
     attribute (optional ''body'' TextT),
     attribute (defaulted ''state'' (StringT 50) (Literal ''open'')),
     attribute (required ''source_url'' TextT)]
    [Unique None [''repository_id'', ''github_issue_number''],
     Check (Given ''positive_issue_number'') ''github_issue_number > 0'']
    []"

definition code_chunks_table :: "string \<times> db_table" where
  "code_chunks_table = model_table ''code_chunks''
    [indexed (references (required ''repository_id'' UuidT) (''repositories'', ''id'', None)),
     attribute (required ''file_path'' TextT),
     attribute (optional ''language'' (StringT 100)),
     attribute (required ''start_line'' IntegerT),
     attribute (required ''end_line'' IntegerT),
     attribute (required ''content'' TextT),
     indexed (attribute (required ''content_hash'' (StringT 64))),
     attribute (optional ''embedding'' (VectorT 1536)),
     attribute (defaulted ''embedding_status'' (StringT 50) (Literal ''pending'')),
     attribute (optional ''embedding_profile'' (StringT 64)),
     attribute (optional ''embedding_content_hash'' (StringT 64))]
    [Check (Given ''valid_line_range'') ''start_line > 0 AND end_line >= start_line'']
    []"

definition implementation_plans_table :: "string \<times> db_table" where
  "implementation_plans_table = model_table ''implementation_plans''
    [indexed (references (required ''issue_id'' UuidT) (''issues'', ''id'', None)),
     attribute (defaulted ''status'' (StringT 50) (Literal ''draft'')),
     attribute (optional ''summary'' TextT)]
    []
    []"

definition plan_tasks_table :: "string \<times> db_table" where
  "plan_tasks_table = model_table ''plan_tasks''
    [indexed (references (required ''plan_id'' UuidT) (''implementation_plans'', ''id'', None)),
     attribute (required ''task_key'' (StringT 100)),
     attribute (required ''title'' TextT),
     attribute (optional ''description'' TextT),
     attribute (optional ''rationale'' TextT),
     attribute (defaulted ''acceptance_criteria'' JsonbT (Sql (quoted ''[]'' @ ''::jsonb''))),
     attribute (defaulted ''suggested_tests'' JsonbT (Sql (quoted ''[]'' @ ''::jsonb''))),
     attribute (defaulted ''status'' (StringT 50) (Literal ''pending'')),
     attribute (defaulted ''dependencies'' JsonbT (Sql (quoted ''[]'' @ ''::jsonb''))),
     attribute (defaulted ''target_files'' JsonbT (Sql (quoted ''[]'' @ ''::jsonb''))),
     attribute (defaulted ''sequence'' IntegerT (Literal ''0''))]
    [Unique None [''plan_id'', ''task_key''],
     Check (Given ''nonnegative_sequence'') ''sequence >= 0'',
     Check (Given ''dependencies_array'') (json_type ''dependencies'' ''array''),
     Check (Given ''target_files_array'') (json_type ''target_files'' ''array''),
     Check (Given ''acceptance_criteria_array'') (json_type ''acceptance_criteria'' ''array''),
     Check (Given ''suggested_tests_array'') (json_type ''suggested_tests'' ''array'')]
    []"

definition execution_runs_table :: "string \<times> db_table" where
  "execution_runs_table = model_table ''execution_runs''
    [indexed (references (required ''plan_id'' UuidT) (''implementation_plans'', ''id'', None)),
     attribute (defaulted ''status'' (StringT 50) (Literal ''pending'')),
     attribute (optional ''branch_name'' (StringT 255)),
     attribute (optional ''plan_snapshot'' JsonbT),
     attribute (optional ''started_at'' TimestampT),
     attribute (optional ''completed_at'' TimestampT)]
    [Check (Given ''valid_run_times'') ''completed_at >= started_at'']
    []"

definition task_executions_table :: "string \<times> db_table" where
  "task_executions_table = model_table ''task_executions''
    [indexed (references (required ''execution_run_id'' UuidT) (''execution_runs'', ''id'', None)),
     indexed (references (required ''plan_task_id'' UuidT) (''plan_tasks'', ''id'', None)),
     attribute (defaulted ''status'' (StringT 50) (Literal ''pending'')),
     attribute (defaulted ''attempt'' IntegerT (Literal ''1'')),
     attribute (optional ''output_summary'' TextT)]
    [Unique None [''execution_run_id'', ''plan_task_id'', ''attempt''],
     Check (Given ''positive_attempt'') ''attempt > 0'']
    []"

definition agent_runs_table :: "string \<times> db_table" where
  "agent_runs_table = model_table ''agent_runs''
    [indexed (references (required ''execution_run_id'' UuidT) (''execution_runs'', ''id'', None)),
     indexed (references (optional ''task_execution_id'' UuidT) (''task_executions'', ''id'', None)),
     attribute (required ''agent_type'' (StringT 50)),
     attribute (defaulted ''status'' (StringT 50) (Literal ''pending'')),
     attribute (optional ''model'' (StringT 255)),
     attribute (defaulted ''input_metadata'' JsonbT (Sql (quoted ''{}'' @ ''::jsonb''))),
     attribute (defaulted ''output_metadata'' JsonbT (Sql (quoted ''{}'' @ ''::jsonb''))),
     attribute (optional ''input_tokens'' IntegerT),
     attribute (optional ''output_tokens'' IntegerT),
     attribute (optional ''cost_usd'' (NumericT 18 8)),
     attribute (optional ''started_at'' TimestampT),
     attribute (optional ''completed_at'' TimestampT)]
    [Check (Given ''nonnegative_usage'') ''input_tokens >= 0 AND output_tokens >= 0 AND cost_usd >= 0'',
     Check (Given ''valid_agent_times'') ''completed_at >= started_at'',
     Check (Given ''input_metadata_object'') (json_type ''input_metadata'' ''object''),
     Check (Given ''output_metadata_object'') (json_type ''output_metadata'' ''object'')]
    []"

definition pull_requests_table :: "string \<times> db_table" where
  "pull_requests_table = model_table ''pull_requests''
    [uniquely (references (required ''execution_run_id'' UuidT) (''execution_runs'', ''id'', None)),
     attribute (required ''github_pr_number'' IntegerT),
     attribute (required ''github_url'' TextT),
     attribute (defaulted ''status'' (StringT 50) (Literal ''open''))]
    [Check (Given ''positive_pr_number'') ''github_pr_number > 0'']
    []"

definition workflow_runs_table :: "string \<times> db_table" where
  "workflow_runs_table = model_table ''workflow_runs''
    [attribute (required ''request'' JsonbT),
     attribute (required ''data'' JsonbT),
     attribute (required ''history'' JsonbT),
     attribute (required ''stage'' (StringT 32)),
     indexed (attribute (required ''status'' (StringT 20))),
     attribute (optional ''claim_token'' UuidT),
     indexed (attribute (optional ''lease_until'' TimestampT)),
     attribute (defaulted ''generation'' IntegerT (Sql ''0'')),
     indexed (attribute (optional ''retry_at'' TimestampT)),
     attribute (required ''attempts'' IntegerT),
     attribute (optional ''error_code'' (StringT 100))]
    [Check (Given ''nonnegative_workflow_attempts'') ''attempts >= 0'',
     Check (Given ''valid_workflow_status'') (status_in [''pending'', ''running'', ''failed'', ''blocked'',
         ''completed'', ''cancelled''])]
    []"

definition worker_deliveries_table :: "string \<times> db_table" where
  "worker_deliveries_table = model_table ''worker_deliveries''
    [attribute (required ''task_name'' (StringT 100)),
     indexed (references (required ''repository_id'' UuidT) (''repositories'', ''id'', Some ''CASCADE'')),
     attribute (required ''status'' (StringT 20)),
     indexed (attribute (required ''lease_until'' TimestampT)),
     attribute (required ''result'' JsonbT),
     attribute (optional ''error_code'' (StringT 100))]
    [Check (Given ''valid_delivery_status'') (status_in [''running'', ''completed'', ''failed''])]
    []"

definition model_tables :: "(string \<times> db_table) list" where
  "model_tables = [worker_deliveries_table, agent_runs_table, code_chunks_table, execution_runs_table,
     implementation_plans_table, issues_table, plan_tasks_table, pull_requests_table, repositories_table,
     task_executions_table, workflow_runs_table]"

section \<open>What the migrations build\<close>

text \<open>
  The order of the columns of a table, and of its constraints and indexes, does not matter: a migration
  adds them at the end. The trigger that stamps \<open>updated_at\<close> is in the migrations only; the models rely on
  it (\<open>server_onupdate=FetchedValue()\<close>). PostgreSQL cuts a name after 63 bytes.
\<close>

definition same_table :: "db_table \<Rightarrow> db_table \<Rightarrow> bool" where
  "same_table a b \<longleftrightarrow> set (tb_columns a) = set (tb_columns b) \<and>
     set (tb_constraints a) = set (tb_constraints b) \<and> set (tb_indexes a) = set (tb_indexes b)"

definition same_tables :: "(string \<times> db_table) list \<Rightarrow> (string \<times> db_table) list \<Rightarrow> bool" where
  "same_tables xs ys \<longleftrightarrow> set (map fst xs) = set (map fst ys) \<and> distinct (map fst xs) \<and> distinct (map fst ys) \<and>
     list_all (\<lambda>(t, a). case map_of ys t of None \<Rightarrow> False | Some b \<Rightarrow> same_table a b) xs"

definition stamped :: "db_table \<Rightarrow> bool" where
  "stamped tb \<longleftrightarrow> map tr_function (tb_triggers tb) = [''set_record_updated_at'']"

definition short_names :: "string \<times> db_table \<Rightarrow> bool" where
  "short_names x \<longleftrightarrow> list_all (\<lambda>n. length n \<le> 63)
     (fst x # map col_name (tb_columns (snd x)) @ map constraint_name (tb_constraints (snd x)) @
      map ix_name (tb_indexes (snd x)))"

text \<open>Whatever revisions there are, a database they were run on has a well-formed schema if PostgreSQL
  accepted them: names are unique, keys are of columns that exist, a foreign key points to a key that exists,
  a trigger calls a function that exists.\<close>

theorem migrations_keep_schema: "case upgraded rs of Inl e \<Rightarrow> True | Inr s \<Rightarrow> wf_schema s"
proof (cases "upgraded rs")
  case (Inr s)
  from this wf_empty have "wf_schema s"
    unfolding upgraded_def by (rule foldE_invariant) (auto intro: run_operations_wf)
  with Inr show ?thesis by simp
qed simp

text \<open>C18. From an empty database the six upgrades run without an error of PostgreSQL and build exactly the
  tables that the models declare: the same columns with their types, nullability and defaults, the same
  constraints under the same names, the same indexes. Every table has the one trigger that stamps
  \<open>updated_at\<close>, on which the models rely, and no name is so long that PostgreSQL would cut it.\<close>

theorem migrations_build_models:
  "case upgraded revisions of Inl e \<Rightarrow> False
   | Inr s \<Rightarrow> same_tables (sc_tables s) model_tables \<and> list_all (\<lambda>(t, tb). stamped tb) (sc_tables s) \<and>
       list_all short_names (sc_tables s)"
  by code_simp

text \<open>The tables of a schema with their triggers, and its functions; extensions stay.\<close>

definition same_schema :: "schema \<Rightarrow> schema \<Rightarrow> bool" where
  "same_schema s s' \<longleftrightarrow> set (sc_functions s) = set (sc_functions s') \<and> same_tables (sc_tables s) (sc_tables s') \<and>
     list_all (\<lambda>(t, tb). case map_of (sc_tables s') t of None \<Rightarrow> False
       | Some tb' \<Rightarrow> set (tb_triggers tb) = set (tb_triggers tb')) (sc_tables s)"

text \<open>Along the revisions: upgrade, try the downgrade on the result, and go on from the result.\<close>

fun undoes :: "revision list \<Rightarrow> schema \<Rightarrow> bool" where
  "undoes [] s = True"
| "undoes (r # rs) s = (case run_operations (rv_upgrade r) s of
     Inl _ \<Rightarrow> False
   | Inr s' \<Rightarrow> (case run_operations (rv_downgrade r) s' of
         Inl _ \<Rightarrow> False
       | Inr back \<Rightarrow> same_schema back s) \<and> undoes rs s')"

definition linked :: "revision list \<Rightarrow> bool" where
  "linked rs \<longleftrightarrow> distinct (map rv_id rs) \<and> map rv_down rs = None # map (Some \<circ> rv_id) (butlast rs)"

text \<open>C20. The revisions form one chain, and the downgrade of each undoes its upgrade: run on the schema the
  upgrade produced, it raises no error and restores the tables with their columns, constraints, indexes and
  triggers, and the functions, of the revision before. The extension of the first one stays.\<close>

theorem downgrades_undo_upgrades: "linked revisions \<and> undoes revisions empty_schema"
  by code_simp

end
