(* ===== verification/Embedding_Provider.thy ===== *)
theory Embedding_Provider
  imports Http Embeddings
begin

text \<open>
  \<^verbatim>\<open>app/integrations/llm/openai_embeddings.py\<close>: vectors for a list of texts, requested in batches
  with the retries of \<open>Http\<close>, and put back into the order of the texts.
\<close>

section \<open>The provider\<close>

record embedding_provider =
  ep_model :: string
  ep_dimensions :: nat
  ep_batch_size :: nat
  ep_max_retries :: nat
  ep_send_dimensions :: bool
  ep_hypot :: "rat list \<Rightarrow> rat option"

definition make_embedding_provider ::
  "string \<Rightarrow> int \<Rightarrow> int \<Rightarrow> int \<Rightarrow> bool \<Rightarrow> (rat list \<Rightarrow> rat option) \<Rightarrow> exc + embedding_provider" where
  "make_embedding_provider model dimensions batch_size max_retries send_dimensions hypot =
     (if model = [] \<or> dimensions < 1 \<or> batch_size < 1 \<or> max_retries < 0
      then Inl (EmbeddingFailure ''embedding_invalid_configuration'')
      else Inr \<lparr>ep_model = model, ep_dimensions = nat dimensions, ep_batch_size = nat batch_size,
                ep_max_retries = nat max_retries, ep_send_dimensions = send_dimensions, ep_hypot = hypot\<rparr>)"

text \<open>\<open>profile_id\<close>: what a stored vector was made with.\<close>

definition profile_id :: "(string \<Rightarrow> string) \<Rightarrow> (nat \<Rightarrow> string) \<Rightarrow> string \<Rightarrow> string \<Rightarrow> nat \<Rightarrow> string" where
  "profile_id sha show_nat base_url model dimensions =
     sha (rev (dropWhile (\<lambda>c. c = CHR ''/'') (rev base_url)) @ [CHR 0x0A] @ model @ [CHR 0x0A] @ show_nat dimensions)"

record embedding_payload =
  eq_model :: string
  eq_input :: "pystr list"
  eq_dimensions :: "nat option"

definition embedding_judge :: "nat \<Rightarrow> http_outcome \<Rightarrow> attempt_result" where
  "embedding_judge attempt answer = (case answer of
     Response r \<Rightarrow>
       if is_success r then Answered r
       else if hr_status r \<notin> {408, 429} \<and> hr_status r < 500
         then Refused (EmbeddingFailure ''embedding_request_rejected'')
       else let retry = header ''retry-after'' r in
         if is_digits retry
         then (case float_of_digits retry of
                 Inl e \<Rightarrow> Refused e
               | Inr seconds_asked \<Rightarrow> Try_again (EmbeddingFailure ''embedding_unavailable'') (max (backoff attempt) seconds_asked))
         else Try_again (EmbeddingFailure ''embedding_unavailable'') (backoff attempt)
   | _ \<Rightarrow> Try_again (EmbeddingFailure ''embedding_unavailable'') (backoff attempt))"

section \<open>Decoding\<close>

text \<open>The dictionary of the embeddings by index; \<open>None\<close> is one of the exceptions the code catches.\<close>

fun by_index :: "nat \<Rightarrow> json list \<Rightarrow> (nat \<times> json) list \<Rightarrow> (nat \<times> json) list option" where
  "by_index expected [] found = Some found"
| "by_index expected (item # items) found =
     (case (json_field ''index'' item, json_field ''embedding'' item) of
        (Some (Json_int i), Some v) \<Rightarrow>
          if nat i \<in> fst ` set found \<or> i < 0 \<or> int expected \<le> i then None
          else by_index expected items (found @ [(nat i, v)])
      | _ \<Rightarrow> None)"

definition ordered_vectors :: "nat \<Rightarrow> http_response \<Rightarrow> json list option" where
  "ordered_vectors expected r = do {
     payload \<leftarrow> hr_json r;
     data \<leftarrow> json_field ''data'' payload;
     found \<leftarrow> (case data of
        Json_list items \<Rightarrow> if length items \<noteq> expected then None else by_index expected items []
      | _ \<Rightarrow> None);
     those (map (map_of found) [0..<expected])
   }"

definition embedding_decode :: "embedding_provider \<Rightarrow> nat \<Rightarrow> http_response \<Rightarrow> exc + rat list list" where
  "embedding_decode ep expected r = (case ordered_vectors expected r of
     None \<Rightarrow> Inl (EmbeddingFailure ''embedding_invalid_response'')
   | Some vs \<Rightarrow> validate_vectors (ep_hypot ep) expected (ep_dimensions ep) (Json_list vs))"

section \<open>Requests\<close>

definition embed_batch ::
  "(embedding_payload \<Rightarrow> 'x \<Rightarrow> http_outcome \<times> 'x) \<Rightarrow> embedding_provider \<Rightarrow> pystr list \<Rightarrow>
    ('x client, rat list list) eff" where
  "embed_batch http ep texts =
     repeat_request
       (send_request http \<lparr>eq_model = ep_model ep, eq_input = texts,
          eq_dimensions = if ep_send_dimensions ep then Some (ep_dimensions ep) else None\<rparr>)
       pause embedding_judge (embedding_decode ep (length texts)) 0 (ep_max_retries ep)"

text \<open>\<open>for start in range(0, len(texts), batch_size)\<close>; the constructor refuses an empty batch.\<close>

function batches :: "nat \<Rightarrow> 'a list \<Rightarrow> 'a list list" where
  "batches n xs = (if n = 0 \<or> xs = [] then [] else take n xs # batches n (drop n xs))"
  by pat_completeness auto
termination
  by (relation "measure (\<lambda>(n, xs). length xs)") auto

declare batches.simps [simp del]

definition embed_all ::
  "(embedding_payload \<Rightarrow> 'x \<Rightarrow> http_outcome \<times> 'x) \<Rightarrow> embedding_provider \<Rightarrow> pystr list \<Rightarrow>
    ('x client, rat list list) eff" where
  "embed_all http ep texts =
     seqM (ensure (EmbeddingFailure ''embedding_empty_input'') (\<not> (\<exists>t \<in> set texts. \<forall>c \<in> set t. py_space c)))
       (foldM (\<lambda>b vs. bindM (embed_batch http ep b) (\<lambda>more. ret (vs @ more))) (batches (ep_batch_size ep) texts) [])"

section \<open>The order of the answers\<close>

lemma concat_batches: "0 < n \<Longrightarrow> concat (batches n xs) = xs"
proof (induction n xs rule: batches.induct)
  case (1 n xs)
  then show ?case by (subst batches.simps) auto
qed

lemma length_batches: "0 < n \<Longrightarrow> b \<in> set (batches n xs) \<Longrightarrow> b \<noteq> [] \<and> length b \<le> n"
proof (induction n xs rule: batches.induct)
  case (1 n xs)
  from 1(3) 1(1,2) show ?case by (subst (asm) batches.simps) (auto split: if_splits)
qed

definition item_at :: "json list \<Rightarrow> nat \<Rightarrow> json \<Rightarrow> bool" where
  "item_at items i v \<longleftrightarrow>
     (\<exists>item. item \<in> set items \<and> json_field ''index'' item = Some (Json_int (int i)) \<and>
        json_field ''embedding'' item = Some v)"

lemma by_index_items:
  "by_index expected items found = Some m \<Longrightarrow> (i, v) \<in> set m \<Longrightarrow> (i, v) \<in> set found \<or> item_at items i v"
proof (induction items arbitrary: found)
  case Nil
  then show ?case by simp
next
  case (Cons item items)
  from Cons.prems(1) obtain k w where k: "json_field ''index'' item = Some (Json_int k)"
    "json_field ''embedding'' item = Some w" "0 \<le> k"
    and m: "by_index expected items (found @ [(nat k, w)]) = Some m"
    by (auto split: option.splits json.splits if_splits)
  from Cons.IH [OF m Cons.prems(2)] k show ?case by (auto simp: item_at_def)
qed

lemma ordered_vectors_items:
  assumes "ordered_vectors expected r = Some vs"
  obtains payload items where "hr_json r = Some payload" and "json_field ''data'' payload = Some (Json_list items)"
    and "length items = expected" and "length vs = expected" and "\<forall>i < expected. item_at items i (vs ! i)"
proof -
  from assms obtain payload items found where p: "hr_json r = Some payload"
    "json_field ''data'' payload = Some (Json_list items)" "length items = expected"
    and f: "by_index expected items [] = Some found" and vs: "those (map (map_of found) [0..<expected]) = Some vs"
    by (auto simp: ordered_vectors_def split: Option.bind_splits json.splits if_splits)
  from vs [unfolded those_Some] have m: "map (map_of found) [0..<expected] = map Some vs" .
  then have len: "length vs = expected" by (metis length_map length_upt minus_nat.diff_0)
  have "item_at items i (vs ! i)" if "i < expected" for i
  proof -
    from arg_cong [OF m, of "\<lambda>xs. xs ! i"] that len have "map_of found i = Some (vs ! i)" by simp
    then have "(i, vs ! i) \<in> set found" by (rule map_of_SomeD)
    from by_index_items [OF f this] show ?thesis by simp
  qed
  with that p len show thesis by blast
qed

definition embedding_codes :: "string list" where
  "embedding_codes = [''embedding_empty_input'', ''embedding_unavailable'', ''embedding_request_rejected'',
     ''embedding_invalid_response'', ''embedding_dimension_mismatch'', ''embedding_invalid_vector'']"

text \<open>\<open>ValueFailure\<close> is the exception of \<open>float\<close> on a header of digits it does not know.\<close>

definition embedding_error :: "exc \<Rightarrow> bool" where
  "embedding_error e \<longleftrightarrow> (case e of EmbeddingFailure c \<Rightarrow> c \<in> set embedding_codes | ValueFailure \<Rightarrow> True | _ \<Rightarrow> False)"

interpretation embedding: retrying embedding_judge embedding_error
proof
  fix n answer e delay
  assume again: "embedding_judge n answer = Try_again e delay"
  then show "backoff n \<le> delay"
    by (cases answer) (auto simp: embedding_judge_def Let_def split: if_splits sum.splits)
  from again show "embedding_error e"
    by (cases answer) (auto simp: embedding_judge_def Let_def embedding_error_def embedding_codes_def
        split: if_splits sum.splits)
next
  fix n answer e
  assume "embedding_judge n answer = Refused e"
  then show "embedding_error e"
    by (cases answer) (auto simp: embedding_judge_def Let_def embedding_error_def embedding_codes_def
        float_of_digits_def split: if_splits sum.splits)
qed

lemma validate_vector_known:
  "validate_vector hypot dims v = Inl e \<Longrightarrow> embedding_error e"
  by (auto simp: validate_vector_def Let_def embedding_error_def embedding_codes_def
      split: json.splits if_splits option.splits)

lemma embedding_decode_known: "embedding_decode ep n r = Inl e \<Longrightarrow> embedding_error e"
  by (auto simp: embedding_decode_def validate_vectors_def split: option.splits if_splits
      dest!: mapE_InlD validate_vector_known)
    (auto simp: embedding_error_def embedding_codes_def)

lemma embedding_decode_length: "embedding_decode ep n r = Inr vs \<Longrightarrow> length vs = n"
  by (auto simp: embedding_decode_def dest: validate_vectors_length split: option.splits)

text \<open>The vectors come back in the order of the texts: one for each, whose numbers are those the
  response lists under the index of the text, divided by their norm, whatever the order of its items; a
  response that leaves one out, repeats one or has another shape is refused.\<close>

theorem embedding_order:
  "case embedding_decode ep n r of
     Inl e \<Rightarrow> embedding_error e
   | Inr vs \<Rightarrow> length vs = n \<and> (\<exists>payload items. hr_json r = Some payload \<and>
       json_field ''data'' payload = Some (Json_list items) \<and> length items = n \<and>
       list_all (\<lambda>i. \<exists>v. item_at items i v \<and> validate_vector (ep_hypot ep) (ep_dimensions ep) v = Inr (vs ! i))
         [0..<n])"
proof (cases "embedding_decode ep n r")
  case (Inl e)
  then show ?thesis by (simp add: embedding_decode_known)
next
  case (Inr vs)
  then obtain us where us: "ordered_vectors n r = Some us"
    and v: "mapE (validate_vector (ep_hypot ep) (ep_dimensions ep)) us = Inr vs"
    by (auto simp: embedding_decode_def validate_vectors_def split: option.splits if_splits)
  from us obtain payload items where p: "hr_json r = Some payload"
    "json_field ''data'' payload = Some (Json_list items)" "length items = n"
    and len: "length us = n" and at: "\<forall>i < n. item_at items i (us ! i)"
    by (rule ordered_vectors_items)
  from v have "length vs = n" "\<forall>i < n. validate_vector (ep_hypot ep) (ep_dimensions ep) (us ! i) = Inr (vs ! i)"
    using len by (auto simp: mapE_eq_Inr list_all2_conv_all_nth)
  moreover from this(2) at have
    "\<forall>i < n. \<exists>v. item_at items i v \<and> validate_vector (ep_hypot ep) (ep_dimensions ep) v = Inr (vs ! i)" by blast
  ultimately show ?thesis using p Inr by (auto simp: list_all_iff)
qed

section \<open>All batches\<close>

lemma embed_batch_result:
  assumes "embed_batch http ep texts c = (r, c')"
  shows "(case r of Inl e \<Rightarrow> embedding_error e | Inr vs \<Rightarrow> length vs = length texts)"
proof (cases r)
  case (Inl e)
  with assms show ?thesis
    unfolding embed_batch_def by (auto intro: embedding.repeat_request_known [OF embedding_decode_known])
next
  case (Inr vs)
  with assms have "\<exists>q n. \<exists>left c. repeat_request (send_request http q) pause embedding_judge
      (embedding_decode ep (length texts)) n left c = (Inr vs, c')" unfolding embed_batch_def by blast
  then show ?thesis using Inr by (auto dest: repeat_request_decoded embedding_decode_length)
qed

lemma embed_batches_result:
  "foldM (\<lambda>b vs. bindM (embed_batch http ep b) (\<lambda>more. ret (vs @ more))) bs vs0 c = (r, c') \<Longrightarrow>
    (case r of Inl e \<Rightarrow> embedding_error e | Inr vs \<Rightarrow> length vs = length vs0 + length (concat bs))"
proof (induction bs arbitrary: vs0 c)
  case Nil
  then show ?case by (auto simp: ret_def)
next
  case (Cons b bs)
  obtain r1 c1 where b: "embed_batch http ep b c = (r1, c1)" by fastforce
  show ?case
  proof (cases r1)
    case (Inl e)
    with b Cons.prems embed_batch_result [OF b] show ?thesis by (auto simp: bindM_def)
  next
    case (Inr vs)
    with b Cons.prems have
      "foldM (\<lambda>b vs. bindM (embed_batch http ep b) (\<lambda>more. ret (vs @ more))) bs (vs0 @ vs) c1 = (r, c')"
      by (simp add: bindM_def ret_def)
    from Cons.IH [OF this] embed_batch_result [OF b] Inr show ?thesis by (auto split: sum.splits)
  qed
qed

text \<open>The contract the generation of embeddings relies on: one vector for each text.\<close>

lemma embed_all_result:
  assumes "0 < ep_batch_size ep" and "embed_all http ep texts c = (r, c')"
  shows "case r of Inl e \<Rightarrow> embedding_error e | Inr vs \<Rightarrow> length vs = length texts"
proof (cases "\<exists>t \<in> set texts. \<forall>x \<in> set t. py_space x")
  case True
  with assms(2) show ?thesis
    by (auto simp: embed_all_def seqM_def bindM_def ensure_def raise_def embedding_error_def embedding_codes_def)
next
  case False
  with assms(2) have "foldM (\<lambda>b vs. bindM (embed_batch http ep b) (\<lambda>more. ret (vs @ more)))
      (batches (ep_batch_size ep) texts) [] c = (r, c')"
    by (simp add: embed_all_def seqM_def bindM_def ensure_def ret_def)
  from embed_batches_result [OF this] show ?thesis
    using concat_batches [OF assms(1), of texts] by (simp split: sum.splits)
qed

end
