(* ===== verification/Spec2Isabelle.thy ===== *)
theory Spec2Isabelle
  imports Plan_Properties Execution_Properties Agent_Properties Workflow_Properties Patch_Roundtrip
    Chunking Hybrid_Retrieval Sandbox_Policy Service_Properties Recovery_Properties Publication_Properties
    Workspace_Properties Stage_Gates Workflow_Liveness Rollback Migrations Llm_Provider Embedding_Provider
begin

text \<open>
  A verification library for AdelieSWE, a service that takes a GitHub issue to a reviewed pull
  request: it synchronises and indexes the repository, collects context for the issue, asks a language
  model for a plan, runs the plan's tasks one after another (patch, test, repair), has the result
  reviewed, and publishes it. Every step is recorded in PostgreSQL first, so that workers may crash,
  be redelivered their messages, or run concurrently.

  \<^bold>\<open>The parts of the program and the theories that model them.\<close>

  \<^item> Plans. \<^verbatim>\<open>schemas/planning.py\<close> and \<^verbatim>\<open>services/plan_dependencies.py\<close>: theories
    \<open>Planning\<close> (the proposal models with their validators) and \<open>Dependencies\<close> (\<open>execution_order\<close>, the
    topological order with its error messages). \<open>Planner\<close> (\<^verbatim>\<open>agents/planner.py\<close>) asks a model for one
    within a bounded number of attempts, \<open>Plan_Service\<close> (\<^verbatim>\<open>services/plans.py\<close>) stores it and reads
    it back.
  \<^item> Executions. \<^verbatim>\<open>orchestration/state.py\<close>, \<^verbatim>\<open>orchestration/transitions.py\<close>,
    \<^verbatim>\<open>services/executions.py\<close>: \<open>Scheduling\<close> (\<open>advance\<close>, one pass over the task graph), \<open>Transitions\<close>
    (the edges of the three state machines), \<open>Executions\<close> and \<open>Execution_Create\<close> (the transactions),
    \<open>Run_Invariant\<close> and \<open>Execution_Invariants\<close> (what every transaction keeps). \<open>Executor\<close>
    (\<^verbatim>\<open>orchestration/executor.py\<close>) dispatches the ready tasks to an executor; \<open>Task_Progress\<close> shows
    that a task never returns to an earlier status.
  \<^item> Records of the agents. \<^verbatim>\<open>services/coding_records.py\<close>, \<^verbatim>\<open>recovery_records.py\<close>,
    \<^verbatim>\<open>test_records.py\<close>, \<^verbatim>\<open>review_records.py\<close>, \<^verbatim>\<open>orchestration/review_gate.py\<close> and
    \<^verbatim>\<open>pull_requests/records.py\<close>: the theories of the same names. \<open>Execution_Trace\<close> makes all their
    transactions the steps of one inductive relation, \<open>exec_step\<close>, and interprets the locale of its
    invariants.
  \<^item> Workflows. \<^verbatim>\<open>orchestration/workflow_records.py\<close>, \<^verbatim>\<open>workflow.py\<close>,
    \<^verbatim>\<open>failures.py\<close>, \<^verbatim>\<open>deliveries.py\<close>: \<open>Workflow_Records\<close>, \<open>Workflow_Invariants\<close> (claim
    tokens and generations), \<open>Workflow_Engine\<close> and \<open>Deliveries\<close>. \<open>Workflow_Stages\<close>
    (\<^verbatim>\<open>workflow_stages.py\<close>) composes all the services below into the twelve stages of a workflow,
    \<open>Stage_Gates\<close> says what each stage has left behind when it returns, and \<open>Workflow_Run\<close> puts these stages into the engine: one message of the queue is claimed, run and
    recorded. \<open>Workers\<close> (\<^verbatim>\<open>app/workers\<close>, \<^verbatim>\<open>services/workflow_resources.py\<close>) are the tasks of the
    workers around it: the message that wakes the next stage up, and the periodic recovery of workflows and
    of executions. \<open>Run_Liveness\<close> shows that no run ever becomes unloadable and \<open>Workflow_Liveness\<close> that the run
    a workflow names exists, so that neither recovery raises.
  \<^item> The database. \<open>Schema\<close> is what the migrations use of Alembic and PostgreSQL (tables, constraints,
    indexes, triggers, and which operations a database refuses); \<open>Migrations\<close> are the six revisions under
    \<^verbatim>\<open>migrations/versions\<close>, both ways, beside the tables \<^verbatim>\<open>app/models\<close> declares;
    \<open>Rollback\<close> is the rewriting of the rows when the last revision is taken back.
  \<^item> Services, which do the work between two transactions. \<open>Effects\<close> is the monad of effects with
    exceptions and the rules for its triples; \<open>Service_World\<close> is the state they run in.
    \<open>Code_Patches\<close> (\<^verbatim>\<open>services/code_patches.py\<close>, \<^verbatim>\<open>integrations/git/patches.py\<close>),
    \<open>Coding_Service\<close>, \<open>Testing_Service\<close>, \<open>Recovery_Service\<close>, \<open>Review_Service\<close>,
    \<open>Workspace_Service\<close> (\<^verbatim>\<open>integrations/git/runner.py\<close>, \<^verbatim>\<open>services/workspace.py\<close>,
    \<^verbatim>\<open>workspace_sync.py\<close>), \<open>Publication_Service\<close> (\<^verbatim>\<open>pull_requests\<close>) and \<open>Docker_Sandbox\<close>,
    \<open>Sandbox_Policy\<close> (\<^verbatim>\<open>sandbox\<close>) model the whole methods with their error handling.
  \<^item> Repositories and their index. \<open>Repositories\<close> (\<^verbatim>\<open>services/repositories.py\<close>, the upserts of
    repositories and issues), \<open>Indexing\<close> and \<open>Embeddings\<close> (\<^verbatim>\<open>indexing/service.py\<close>,
    \<^verbatim>\<open>indexing/embeddings.py\<close>, the chunks of a repository and their vectors), \<open>Scanner\<close>
    (\<^verbatim>\<open>indexing/scanner.py\<close>, which files of a directory tree are source text), \<open>Retrieval\<close>
    (\<^verbatim>\<open>retrieval\<close>: tokens, BM25, vector search), \<open>Issue_Context\<close>
    (\<^verbatim>\<open>services/issue_context.py\<close>, \<^verbatim>\<open>context_store.py\<close>, \<^verbatim>\<open>context_queries.py\<close>, the bounded
    evidence an agent sees).
  \<^item> Clients of other services. \<open>Http\<close> is what the code uses of \<open>httpx\<close> and of Python's numbers in
    headers; \<open>Llm_Provider\<close>, \<open>Embedding_Provider\<close> (\<^verbatim>\<open>integrations/llm\<close>) and \<open>Github_Client\<close>
    (\<^verbatim>\<open>integrations/github/client.py\<close>) are the requests with their retries, the decoding of the
    responses and the codes of their failures; \<open>Provider_Resources\<close> says when a provider is opened.
  \<^item> Texts. \<open>Text\<close> (the methods of \<open>str\<close>), \<open>Utf8\<close> (strict decoding), \<open>Patch_Format\<close> (\<^verbatim>\<open>services/patch_format.py\<close>, the
    parser of unified diffs), \<open>Chunking\<close> (\<^verbatim>\<open>indexing/chunking.py\<close>), \<open>Urls\<close> and \<open>Settings\<close>
    (\<^verbatim>\<open>core/config.py\<close>), \<open>Hybrid_Retrieval\<close> (\<^verbatim>\<open>retrieval/hybrid.py\<close>).

  \<^bold>\<open>How state and operations correspond to the code.\<close> A table is a list of rows (\<open>Models\<close>); a
  transaction is a function from the database to an error, which rolls back, or to the database it
  commits. The reading of the clock and the identifiers a transaction draws are its arguments. Row
  locks are not modelled: a transaction is one step, as \<open>SELECT ... FOR UPDATE\<close> on the run makes it.
  A service method is a function on the \<open>world\<close>: the database, the lock files it holds, the
  environment's own state, and the log of the calls that crossed the boundary. Before each
  transaction the function \<open>env_others\<close> of the environment may change the database, which stands for
  the transactions of other workers; the properties assume of it at most that it is a sequence of
  transactions of the library (\<open>others_step\<close>), or that it leaves chunks alone. The relation \<open>exec_step\<close> of these transactions
  is about runs, task executions, agent runs and pull requests: its rule \<open>step_other\<close> admits any change of the
  other tables, so \<open>along the transactions\<close> says nothing of repositories, issues, plans and chunks, which have properties
  of their own.

  \<^bold>\<open>What is a parameter.\<close> Code that is not in the repository is a field of \<open>environment\<close> or an
  argument: processes and Git, the file system, the models, Docker, GitHub, hashing, serialisation, the
  clock and UUIDs. Nothing is assumed of them unless a theorem says so. Python's parser is an argument
  of the chunker, the directory tree an argument of the scanner, the classes and the lower case of
  Unicode, the logarithm and the distance of the vector database arguments of the retrievers, the
  retrievers arguments of their fusion, the stage an argument of the workflow engine; the record
  \<open>stages\<close> collects those the stages need.

  \<^bold>\<open>Representations.\<close> Whole source files, patches and retrieved text are lists of code points
  (\<open>pystr\<close>); names, codes, issue titles and model answers are \<open>string\<close>, characters up to 255, where
  the program does not look at other ones. Floating point numbers are rationals; durations are
  integers. A UUID and a point in time are numbers. JSON columns are maps to \<open>jval\<close>, a tagged union in
  which a dumped model stays itself.

  \<^bold>\<open>What the lemmas show.\<close> The proof of an execution property is an invariant of \<open>exec_step\<close>
  (tasks start only when their dependencies are completed, the status of a run agrees with its tasks,
  one owner per repair, publication and review) or the inversion of one transaction (\<open>..._Inr\<close>
  lemmas). The properties of services are triples (\<open>holds\<close>, \<open>keeps\<close>): the database of a service
  only moves along \<open>exec_step\<close>, every lock is released, \<open>git apply\<close> comes directly after a successful
  check, a push directly after the lookup that found no branch, and a container that was created is
  removed. \<open>Patch_Roundtrip\<close> shows that the parser reads back every rendered patch and returns safe
  paths only, the protected names spelled out; \<open>Chunking\<close> that the chunks of a file concatenate to it, and \<open>Indexing\<close> that the rows of
  a repository become exactly those chunks; \<open>Scanner\<close> that a scan returns exactly the files of the tree
  that qualify, with their strict UTF-8 text, and fails exactly where something it needs cannot be listed or read, and \<open>Retrieval\<close> what a lexical or a vector search returns
  and in which order. \<open>Repositories\<close> refines an abstract catalog, a map from
  keys to rows, by way of the locale \<open>keyed_table\<close>, which both tables interpret. In \<open>Workflow_Stages\<close>
  every stage is shown to move the database along \<open>exec_step\<close> only, so that the invariants of executions hold
  after it, whatever the outside answers; \<open>Stage_Gates\<close> shows what the success of each stage means: the row,
  the completed run, the accepted review or the pull request it says it has; \<open>Workflow_Run\<close> shows that a claimed stage finds the
  identifiers it reads in its own row, and that an advance over the real stages is a sequence of steps of
  the abstract engine. \<open>Workers\<close> shows that whoever takes a message that was sent claims its workflow, and that
  the recovery of executions reaches every run that is not finished, \<open>Workflow_Liveness\<close> that the recovery of workflows
  returns and reaches every workflow that is due. \<open>Migrations\<close> shows that
  the migrations build the tables of the models and that every downgrade takes its revision back;
  \<open>Rollback\<close> that the rows it leaves satisfy the older constraints and lose nothing but the status.

  \<^bold>\<open>Loops.\<close> Loops over data are structural recursion; \<open>for _ in range(limit)\<close> is recursion over the
  rounds left, so its bound is the one of the settings (\<open>ss_max_recovery_attempts\<close>). The chunking loop
  progresses only because of earlier checks, so it is a \<open>partial_function\<close> and that it returns is
  part of its property; so is the loop over the pages of unfinished runs. The rounds of embedding end when no chunk is left; they are counted by fuel, and
  \<open>embedding_terminates\<close> shows that one more than the number of chunks to embed is enough. The retries
  of the clients and of the planner are recursion over the attempts left.

  \<^bold>\<open>Not modelled.\<close> Prompt texts and the wiring of HTTP, Celery and settings (no logic of their own);
  logging and timing (no effect on results). A lock file either is created or is there already: other errors of the
  operating system at that point, and a failing \<open>unlink\<close>, are left out. Of the check constraints and foreign keys a transaction
  could violate, those on \<open>completed_at\<close> of a run and on the repository of a delivery are not checked by the rows'
  operations; \<open>Migrations\<close> has them as part of the schema.
\<close>

end
